(* ===== verification/QJS_Prelude.thy ===== *)
theory QJS_Prelude
  imports Main "HOL-Library.Word" "HOL-Library.Monad_Syntax"
begin

text \<open>
  Shared vocabulary of the development: the machine integers of the C sources, memory blocks
  as lists with checked reads and writes (an access outside a block is the value \<open>None\<close>,
  the undefined behaviour of C), the size arithmetic of \<open>size_t\<close>, C strings, and the generic
  lemmas on lists, options and words that the component theories use.
\<close>

unbundle bit_operations_syntax

type_synonym u8 = "8 word"
type_synonym u16 = "16 word"
type_synonym u32 = "32 word"
type_synonym u64 = "64 word"

named_theorems mem_simps \<open>reads and writes of memory blocks\<close>
named_theorems c_arith \<open>size_t and int arithmetic with its wrap-around\<close>

section \<open>Memory blocks\<close>

text \<open>A block of memory is the list of its cells.  \<open>rd\<close> and \<open>wr\<close> access one cell,
  \<open>rd_block\<close> and \<open>wr_block\<close> a range of cells.\<close>

definition rd :: "'a list \<Rightarrow> nat \<Rightarrow> 'a option" where
  "rd m i = (if i < length m then Some (m ! i) else None)"

definition wr :: "'a list \<Rightarrow> nat \<Rightarrow> 'a \<Rightarrow> 'a list option" where
  "wr m i v = (if i < length m then Some (m[i := v]) else None)"

definition rd_block :: "'a list \<Rightarrow> nat \<Rightarrow> nat \<Rightarrow> 'a list option" where
  "rd_block m i n = (if i + n \<le> length m then Some (take n (drop i m)) else None)"

definition wr_block :: "'a list \<Rightarrow> nat \<Rightarrow> 'a list \<Rightarrow> 'a list option" where
  "wr_block m i d = (if i + length d \<le> length m
     then Some (take i m @ d @ drop (i + length d) m) else None)"

lemma rd_Some_iff [mem_simps]: "rd m i = Some v \<longleftrightarrow> i < length m \<and> m ! i = v"
  by (simp add: rd_def)

lemma rd_None_iff [mem_simps]: "rd m i = None \<longleftrightarrow> length m \<le> i"
  by (simp add: rd_def not_less)

lemma rd_in [simp]: "i < length m \<Longrightarrow> rd m i = Some (m ! i)"
  by (simp add: rd_def)

lemma wr_Some_iff [mem_simps]: "wr m i v = Some m' \<longleftrightarrow> i < length m \<and> m' = m[i := v]"
  by (auto simp: wr_def)

lemma wr_in [simp]: "i < length m \<Longrightarrow> wr m i v = Some (m[i := v])"
  by (simp add: wr_def)

lemma rd_block_Some_iff [mem_simps]:
  "rd_block m i n = Some d \<longleftrightarrow> i + n \<le> length m \<and> d = take n (drop i m)"
  by (auto simp: rd_block_def)

lemma wr_block_Some_iff [mem_simps]:
  "wr_block m i d = Some m' \<longleftrightarrow>
     i + length d \<le> length m \<and> m' = take i m @ d @ drop (i + length d) m"
  by (auto simp: wr_block_def)

lemma wr_block_length: "wr_block m i d = Some m' \<Longrightarrow> length m' = length m"
  by (auto simp: mem_simps)

lemma take_wr_block_end:
  "i + length d \<le> length m \<Longrightarrow> take (i + length d) (take i m @ d @ r) = take i m @ d"
  by simp

section \<open>Sizes\<close>

text \<open>\<open>size_t\<close> is 64 bits wide on the targets of the plugin; sums and products wrap.\<close>

definition SIZE_MOD :: nat where
  "SIZE_MOD = 2 ^ 64"

definition sz :: "nat \<Rightarrow> nat" where
  "sz n = n mod SIZE_MOD"

lemma sz_small [simp, c_arith]: "n < SIZE_MOD \<Longrightarrow> sz n = n"
  by (simp add: sz_def)

lemma sz_less [simp, c_arith]: "sz n < SIZE_MOD"
  by (simp add: sz_def SIZE_MOD_def)

lemma sz_le: "sz n \<le> n"
  by (simp add: sz_def)

text \<open>The remainder is evaluated on binary integers.\<close>

lemma sz_code [code]: "sz n = nat (int n mod 18446744073709551616)"
  by (simp add: sz_def SIZE_MOD_def nat_mod_distrib)

section \<open>C strings\<close>

text \<open>\<open>terminated m i\<close>: the block holds a zero byte at or after position \<open>i\<close>;
  \<open>cstr m i\<close> is then the string that starts there.\<close>

definition terminated :: "u8 list \<Rightarrow> nat \<Rightarrow> bool" where
  "terminated m i \<longleftrightarrow> 0 \<in> set (drop i m)"

definition cstr :: "u8 list \<Rightarrow> nat \<Rightarrow> u8 list" where
  "cstr m i = takeWhile (\<lambda>b. b \<noteq> 0) (drop i m)"

lemma terminated_less: "terminated m i \<Longrightarrow> i < length m"
  by (cases "i < length m") (auto simp: terminated_def)

lemma cstr_Nil: "i < length m \<Longrightarrow> m ! i = 0 \<Longrightarrow> cstr m i = []"
  by (simp add: cstr_def Cons_nth_drop_Suc [symmetric])

lemma cstr_Cons: "i < length m \<Longrightarrow> m ! i \<noteq> 0 \<Longrightarrow> cstr m i = m ! i # cstr m (Suc i)"
  by (simp add: cstr_def Cons_nth_drop_Suc [symmetric])

lemma terminated_Suc: "terminated m i \<Longrightarrow> m ! i \<noteq> 0 \<Longrightarrow> terminated m (Suc i)"
  by (cases "i < length m")
    (auto simp: terminated_def Cons_nth_drop_Suc [symmetric])

lemma cstr_nonzero: "b \<in> set (cstr m i) \<Longrightarrow> b \<noteq> 0"
  by (auto simp: cstr_def dest: set_takeWhileD)

lemma cstr_append_zero: "0 \<notin> set s \<Longrightarrow> cstr (s @ 0 # r) 0 = s"
  by (induction s) (auto simp: cstr_def)

lemma takeWhile_nz_append [simp]:
  "0 \<notin> set s \<Longrightarrow> takeWhile (\<lambda>b. b \<noteq> 0) (s @ 0 # r) = s"
  by (induction s) auto

lemma zero_notin_cstr [simp]: "0 \<notin> set (cstr m i)"
  using cstr_nonzero by blast

lemma terminated_append_zero [simp]: "terminated (s @ 0 # r) 0"
  by (simp add: terminated_def)

lemma length_takeWhile_lt:
  "z \<in> set xs \<Longrightarrow> length (takeWhile (\<lambda>b. b \<noteq> z) xs) < length xs"
  by (induction xs) auto

lemma terminated_cstr_end:
  assumes "terminated m i"
  shows "i + length (cstr m i) < length m" and "m ! (i + length (cstr m i)) = 0"
proof -
  let ?d = "drop i m"
  from assms have z: "0 \<in> set ?d" by (simp add: terminated_def)
  then have l: "length (takeWhile (\<lambda>b. b \<noteq> 0) ?d) < length ?d"
    by (rule length_takeWhile_lt)
  then show "i + length (cstr m i) < length m" by (simp add: cstr_def)
  have "?d ! length (takeWhile (\<lambda>b. b \<noteq> 0) ?d) = 0"
    using nth_length_takeWhile [OF l] by simp
  then show "m ! (i + length (cstr m i)) = 0"
    using terminated_less [OF assms] by (simp add: cstr_def)
qed

lemma take_cstr: "take (length (cstr m i)) (drop i m) = cstr m i"
  by (simp add: cstr_def takeWhile_eq_take [symmetric])

section \<open>Words\<close>

lemma unat_succ_u32: "(c :: u32) < 0xffffffff \<Longrightarrow> unat (c + 1) = unat c + 1"
  by (simp add: unat_word_ariths word_less_nat_alt)

lemma or_shift_add:
  fixes a k :: int
  assumes "0 \<le> a" and "a < 2 ^ m"
  shows "push_bit m k OR a = k * 2 ^ m + a"
proof -
  have "take_bit m a = a"
    using assms by (simp add: take_bit_int_eq_self_iff)
  then have "push_bit m k AND a = push_bit m k AND take_bit m a" by simp
  also have "\<dots> = 0" by (rule bit_eqI) (auto simp: bit_simps)
  finally show ?thesis
    by (simp add: disjunctive_add_eq_or [symmetric] push_bit_eq_mult)
qed

lemma and_mask_mod:
  "(b::int) AND 1 = b mod 2" "b AND 3 = b mod 4" "b AND 7 = b mod 8" "b AND 15 = b mod 16"
  "b AND 31 = b mod 32" "b AND 63 = b mod 64"
  using take_bit_eq_mask [of 1 b] take_bit_eq_mask [of 2 b] take_bit_eq_mask [of 3 b]
    take_bit_eq_mask [of 4 b] take_bit_eq_mask [of 5 b] take_bit_eq_mask [of 6 b]
  by (simp_all add: mask_eq_exp_minus_1 take_bit_eq_mod)

lemma uint_drop_bit_div: "uint (drop_bit n (c :: u32)) = uint c div 2 ^ n"
proof -
  have "uint (drop_bit n c) = drop_bit n (uint c)"
    using uint_lt2p [of c] by (simp add: unsigned_drop_bit_eq take_bit_int_eq_self)
  then show ?thesis by (simp only: drop_bit_eq_div)
qed

lemma unat_add_le: "unat (x + y) \<le> unat x + unat y"
  by (simp add: unat_word_ariths)

lemma word_offset_less:
  fixes a l c :: "'a::len word"
  assumes "a \<le> a + l" and "a \<le> c" and "c < a + l"
  shows "c - a < l"
proof -
  have "unat (a + l) = unat a + unat l"
    using assms(1) unfolding no_olen_add_nat unat_add_lem .
  moreover have "unat (c - a) = unat c - unat a"
    using assms(2) by (simp add: unat_sub_if' word_le_nat_alt)
  ultimately show ?thesis
    using assms(2,3) unfolding word_less_nat_alt word_le_nat_alt by linarith
qed

lemmas bind_Some_iff = Option.bind_eq_Some_conv

end
