(* ===== verification/CStrings.thy ===== *)
theory CStrings
  imports QJS_Prelude "HOL-Library.Sublist"
begin

text \<open>
  The string helpers at the top of \<open>cutils.c\<close>: \<open>pstrcpy\<close>, \<open>pstrcat\<close>, \<open>strstart\<close> and
  \<open>has_suffix\<close>.  A \<open>char *\<close> is a block and an offset in it; \<open>None\<close> is an access outside a
  block.  The lemmas say that on terminated strings every access stays inside the blocks and
  give the resulting memory exactly.
\<close>

section \<open>Definitions\<close>

text \<open>The loop of \<open>pstrcpy\<close>: \<open>q\<close> is the write position, \<open>lim\<close> is \<open>buf + buf_size - 1\<close>.\<close>

function pstrcpy_loop :: "u8 list \<Rightarrow> nat \<Rightarrow> nat \<Rightarrow> u8 list \<Rightarrow> nat \<Rightarrow> (u8 list \<times> nat) option" where
  "pstrcpy_loop m q lim str i =
     (if i < length str then
        (let c = str ! i in
         if c = 0 \<or> q \<ge> lim then Some (m, q)
         else (case wr m q c of None \<Rightarrow> None
               | Some m' \<Rightarrow> pstrcpy_loop m' (Suc q) lim str (Suc i)))
      else None)"
  by pat_completeness auto
termination
  by (relation "measure (\<lambda>(m, q, lim, str, i). length str - i)") auto

declare pstrcpy_loop.simps [simp del]

definition pstrcpy :: "u8 list \<Rightarrow> nat \<Rightarrow> int \<Rightarrow> u8 list \<Rightarrow> nat \<Rightarrow> u8 list option" where
  "pstrcpy m b buf_size str i =
     (if buf_size \<le> 0 then Some m
      else do {
        (m', q) \<leftarrow> pstrcpy_loop m b (b + nat buf_size - 1) str i;
        wr m' q 0
      })"

definition c_strlen :: "u8 list \<Rightarrow> nat \<Rightarrow> nat option" where
  "c_strlen m i = (if terminated m i then Some (length (cstr m i)) else None)"

definition pstrcat :: "u8 list \<Rightarrow> nat \<Rightarrow> int \<Rightarrow> u8 list \<Rightarrow> nat \<Rightarrow> u8 list option" where
  "pstrcat m b buf_size s i = do {
     len \<leftarrow> c_strlen m b;
     if int len < buf_size then pstrcpy m (b + len) (buf_size - int len) s i else Some m
   }"

text \<open>\<open>strstart\<close> returns 0 (\<open>Some None\<close>) or 1 and the position after the prefix.\<close>

function strstart :: "u8 list \<Rightarrow> nat \<Rightarrow> u8 list \<Rightarrow> nat \<Rightarrow> nat option option" where
  "strstart str p val q =
     (if q < length val then
        (if val ! q \<noteq> 0 then
           (case rd str p of None \<Rightarrow> None
            | Some c \<Rightarrow> if c \<noteq> val ! q then Some None else strstart str (Suc p) val (Suc q))
         else Some (Some p))
      else None)"
  by pat_completeness auto
termination
  by (relation "measure (\<lambda>(str, p, val, q). length val - q)") auto

declare strstart.simps [simp del]

definition has_suffix :: "u8 list \<Rightarrow> nat \<Rightarrow> u8 list \<Rightarrow> nat \<Rightarrow> bool option" where
  "has_suffix str i suf j = do {
     len \<leftarrow> c_strlen str i;
     slen \<leftarrow> c_strlen suf j;
     if len \<ge> slen then do {
       a \<leftarrow> rd_block str (i + len - slen) slen;
       b \<leftarrow> rd_block suf j slen;
       Some (a = b)
     } else Some False
   }"

section \<open>What the loops compute\<close>

lemma pstrcpy_loop_spec:
  assumes "terminated str i" and "q \<le> lim" and "lim < length m"
  shows "pstrcpy_loop m q lim str i =
    (let s = take (lim - q) (cstr str i)
     in Some (take q m @ s @ drop (q + length s) m, q + length s))"
  using assms
proof (induction m q lim str i rule: pstrcpy_loop.induct)
  case (1 m q lim str i)
  from "1.prems"(1) have i: "i < length str" by (rule terminated_less)
  show ?case
  proof (cases "str ! i = 0 \<or> q \<ge> lim")
    case True
    then show ?thesis
      using i "1.prems" by (auto simp: pstrcpy_loop.simps [of m q] cstr_Nil)
  next
    case False
    let ?m = "m[q := str ! i]"
    let ?s = "take (lim - Suc q) (cstr str (Suc i))"
    have q: "q < length m" using False "1.prems" by simp
    have "pstrcpy_loop ?m (Suc q) lim str (Suc i) =
       Some (take (Suc q) ?m @ ?s @ drop (Suc q + length ?s) ?m, Suc q + length ?s)"
      using "1.IH" [OF i refl False wr_in [OF q]] "1.prems" False
      by (simp add: Let_def terminated_Suc)
    moreover have "take (lim - q) (cstr str i) = str ! i # ?s"
      using False i by (auto simp: cstr_Cons take_Cons' )
    moreover have "take (Suc q) ?m = take q m @ [str ! i]"
      using q by (simp add: take_Suc_conv_app_nth)
    ultimately show ?thesis
      using i False q by (simp add: pstrcpy_loop.simps [of m q] Let_def)
  qed
qed

lemma strstart_spec:
  assumes "terminated str p" and "terminated val q"
  shows "strstart str p val q =
    Some (if prefix (cstr val q) (cstr str p) then Some (p + length (cstr val q)) else None)"
  using assms
proof (induction str p val q rule: strstart.induct)
  case (1 str p val q)
  from "1.prems" have p: "p < length str" and q: "q < length val"
    by (auto dest: terminated_less)
  show ?case
  proof (cases "val ! q = 0")
    case True
    then show ?thesis using q by (simp add: strstart.simps [of str] cstr_Nil)
  next
    case nz: False
    show ?thesis
    proof (cases "str ! p = val ! q")
      case True
      have "strstart str (Suc p) val (Suc q) = Some (if prefix (cstr val (Suc q)) (cstr str (Suc p))
          then Some (Suc p + length (cstr val (Suc q))) else None)"
        using "1.IH" [OF q nz rd_in [OF p]] True nz "1.prems" terminated_Suc by simp
      then show ?thesis using True nz p q by (simp add: strstart.simps [of str p] cstr_Cons)
    next
      case False
      then have "\<not> prefix (cstr val q) (cstr str p)"
        using nz p q by (cases "str ! p = 0") (auto simp: cstr_Cons cstr_Nil)
      then show ?thesis using False nz p q by (simp add: strstart.simps [of str p])
    qed
  qed
qed

lemma pstrcpy_spec:
  assumes "0 < buf_size" and "b + nat buf_size \<le> length m" and "terminated str i"
  shows "pstrcpy m b buf_size str i =
    (let s = take (nat buf_size - 1) (cstr str i)
     in Some (take b m @ s @ [0] @ drop (b + length s + 1) m))"
proof -
  let ?s = "take (nat buf_size - 1) (cstr str i)"
  let ?m = "take b m @ ?s @ drop (b + length ?s) m"
  have "pstrcpy_loop m b (b + nat buf_size - 1) str i = Some (?m, b + length ?s)"
    using assms by (subst pstrcpy_loop_spec) (auto simp: Let_def)
  moreover have lt: "b + length ?s < length m"
    using assms by simp
  moreover have "?m[b + length ?s := 0] = take b m @ ?s @ [0] @ drop (b + length ?s + 1) m"
    using lt by (simp add: list_update_append Cons_nth_drop_Suc [symmetric])
  ultimately show ?thesis
    using assms by (simp add: pstrcpy_def Let_def)
qed

lemma cstr_of_pstrcpy:
  assumes "b + length s < length m" and "0 \<notin> set s"
  shows "cstr (take b m @ s @ [0] @ drop (b + length s + 1) m) b = s"
  using assms by (simp add: cstr_def)

lemma has_suffix_spec:
  assumes "terminated str p" and "terminated val q"
  shows "has_suffix str p val q = Some (suffix (cstr val q) (cstr str p))"
proof -
  let ?a = "cstr str p" and ?b = "cstr val q"
  have "has_suffix str p val q = Some (length ?b \<le> length ?a \<and> drop (length ?a - length ?b) ?a = ?b)"
  proof (cases "length ?b \<le> length ?a")
    case True
    have "take (length ?b) (drop (p + length ?a - length ?b) str)
        = drop (length ?a - length ?b) (take (length ?a) (drop p str))"
      using True by (simp add: take_drop add.commute)
    moreover have "p + length ?a - length ?b + length ?b \<le> length str"
      and "q + length ?b \<le> length val"
      using terminated_cstr_end [OF assms(1)] terminated_cstr_end [OF assms(2)] True by auto
    ultimately show ?thesis
      using assms True
      by (simp add: has_suffix_def c_strlen_def rd_block_def take_cstr)
  next
    case False
    then show ?thesis using assms by (simp add: has_suffix_def c_strlen_def)
  qed
  also have "length ?b \<le> length ?a \<and> drop (length ?a - length ?b) ?a = ?b \<longleftrightarrow> suffix ?b ?a"
    by (auto simp: suffix_def) (metis append_take_drop_id)
  finally show ?thesis .
qed

section \<open>Properties\<close>

text \<open>C33: on a positive buffer size, \<open>pstrcpy\<close> writes the first \<open>buf_size - 1\<close> bytes of the
  source string and a terminating zero, and changes nothing else of the destination block;
  every access is inside the blocks.  A size that is not positive leaves the block as it is.\<close>

theorem pstrcpy_correct:
  assumes "b + nat buf_size \<le> length m" and "terminated str i"
  shows "pstrcpy m b buf_size str i =
    (if buf_size \<le> 0 then Some m
     else (let s = take (nat buf_size - 1) (cstr str i)
           in Some (take b m @ s @ [0] @ drop (b + length s + 1) m)))"
proof (cases "buf_size \<le> 0")
  case True
  then show ?thesis by (simp add: pstrcpy_def)
next
  case False
  then show ?thesis using assms by (simp add: pstrcpy_spec del: append.simps)
qed

theorem pstrcpy_correct_witness:
  "pstrcpy [9, 9, 9, 9] 0 3 [97, 98, 99, 0] 0 = Some [97, 98, 0, 9]"
  using pstrcpy_correct [of 0 3 "[9, 9, 9, 9]" "[97, 98, 99, 0]" 0]
  by (simp add: terminated_def cstr_def)

text \<open>\<open>pstrcat\<close> appends to the string held in the buffer, truncated to
  \<open>buf_size - 1\<close> bytes: the string in the buffer afterwards is a prefix of the concatenation.\<close>

theorem pstrcat_correct:
  assumes "terminated m b" and "int (length (cstr m b)) < buf_size"
    and "b + nat buf_size \<le> length m" and "terminated s i"
  shows "\<exists>m'. pstrcat m b buf_size s i = Some m' \<and> length m' = length m \<and>
    cstr m' b = take (nat buf_size - 1) (cstr m b @ cstr s i)"
proof -
  let ?n = "length (cstr m b)"
  let ?t = "take (nat (buf_size - int ?n) - 1) (cstr s i)"
  let ?m' = "take (b + ?n) m @ ?t @ [0] @ drop (b + ?n + length ?t + 1) m"
  have eq: "pstrcpy m (b + ?n) (buf_size - int ?n) s i = Some ?m'"
    using assms by (subst pstrcpy_spec) (auto simp: Let_def)
  have len: "length ?m' = length m"
    using assms by simp
  have "take (b + ?n) m = take b m @ cstr m b"
    using take_cstr [of m b] by (simp add: take_add)
  then have m': "?m' = take b m @ (cstr m b @ ?t) @ [0] @ drop (b + length (cstr m b @ ?t) + 1) m"
    by (simp add: add.assoc)
  have "0 \<notin> set ?t"
    by (meson in_set_takeD zero_notin_cstr)
  then have "cstr ?m' b = cstr m b @ ?t"
    unfolding m' using assms by (intro cstr_of_pstrcpy) auto
  also have "nat (buf_size - int ?n) - 1 = nat buf_size - 1 - ?n"
    using assms(2) by simp
  then have "cstr m b @ ?t = take (nat buf_size - 1) (cstr m b @ cstr s i)"
    using assms(2) by simp
  finally have str: "cstr ?m' b = take (nat buf_size - 1) (cstr m b @ cstr s i)" .
  have "pstrcat m b buf_size s i = Some ?m'"
    using assms(1,2) eq by (simp add: pstrcat_def c_strlen_def)
  with len str show ?thesis by blast
qed

theorem pstrcat_correct_witness:
  "\<exists>m'. pstrcat [97, 0, 7, 7] 0 3 [98, 99, 0] 0 = Some m' \<and> cstr m' 0 = [97, 98]"
  using pstrcat_correct [of "[97, 0, 7, 7]" 0 3 "[98, 99, 0]" 0]
  by (auto simp add: terminated_def cstr_def)

text \<open>\<open>strstart\<close> decides the prefix relation of the two strings and returns the position
  after the prefix, and \<open>has_suffix\<close> decides the suffix relation.\<close>

theorem strstart_has_suffix_correct:
  assumes "terminated str p" and "terminated val q"
  shows "strstart str p val q =
      Some (if prefix (cstr val q) (cstr str p) then Some (p + length (cstr val q)) else None) \<and>
    has_suffix str p val q = Some (suffix (cstr val q) (cstr str p))"
  using assms by (simp add: strstart_spec has_suffix_spec)

theorem strstart_has_suffix_correct_witness:
  "strstart [97, 98, 99, 0] 0 [97, 98, 0] 0 = Some (Some 2) \<and>
   has_suffix [97, 98, 99, 0] 0 [98, 99, 0] 0 = Some True"
  using strstart_has_suffix_correct [of "[97, 98, 99, 0]" 0 "[97, 98, 0]" 0]
    strstart_has_suffix_correct [of "[97, 98, 99, 0]" 0 "[98, 99, 0]" 0]
  by (simp add: terminated_def cstr_def suffix_def)

end
