(* ===== verification/DynBuf.thy ===== *)
theory DynBuf
  imports QJS_Prelude
begin

text \<open>
  The dynamic byte buffer of \<open>cutils.c\<close> (\<open>DynBuf\<close>), with \<open>dbuf_insert\<close> of
  \<open>libregexp.c\<close>.  The allocator is a parameter of the buffer, as in the code: the field
  \<open>db_realloc\<close> answers the \<open>k\<close>-th request for \<open>n\<close> bytes with a block of unknown contents
  or with NULL, and \<open>db_opaque\<close> counts the requests.  Every operation returns \<open>None\<close> for
  undefined behaviour, otherwise its C return value and the new buffer.
\<close>

section \<open>The buffer and its operations\<close>

type_synonym realloc_fun = "nat \<Rightarrow> nat \<Rightarrow> (nat \<Rightarrow> u8) option"

record dynbuf =
  db_buf :: "u8 list"
  db_size :: nat
  db_allocated_size :: nat
  db_error :: bool
  db_realloc :: "realloc_fun option"
  db_opaque :: nat

text \<open>\<open>dbuf_init2\<close>: with a NULL function the default allocator of the C library is used.\<close>

definition dbuf_init2 :: "realloc_fun \<Rightarrow> realloc_fun option \<Rightarrow> dynbuf" where
  "dbuf_init2 dbuf_default_realloc realloc_func =
     \<lparr>db_buf = [], db_size = 0, db_allocated_size = 0, db_error = False,
      db_realloc = Some (case realloc_func of None \<Rightarrow> dbuf_default_realloc | Some f \<Rightarrow> f),
      db_opaque = 0\<rparr>"

definition dbuf_init :: "realloc_fun \<Rightarrow> dynbuf" where
  "dbuf_init dbuf_default_realloc = dbuf_init2 dbuf_default_realloc None"

text \<open>The block returned by a successful \<open>realloc\<close>: the old cells, then unknown ones.\<close>

definition realloc_block :: "u8 list \<Rightarrow> nat \<Rightarrow> (nat \<Rightarrow> u8) \<Rightarrow> u8 list" where
  "realloc_block b n g = take n b @ map g [length b..<n]"

definition dbuf_realloc :: "dynbuf \<Rightarrow> nat \<Rightarrow> (int \<times> dynbuf) option" where
  "dbuf_realloc s new_size =
     (if new_size > db_allocated_size s then
        if db_error s then Some (-1, s)
        else
          let size = sz (db_allocated_size s * 3) div 2;
              new_size = (if size > new_size then size else new_size)
          in (case db_realloc s of
                None \<Rightarrow> None
              | Some f \<Rightarrow>
                  (case f (db_opaque s) new_size of
                     None \<Rightarrow> Some (-1, s\<lparr>db_error := True, db_opaque := Suc (db_opaque s)\<rparr>)
                   | Some g \<Rightarrow> Some (0, s\<lparr>db_buf := realloc_block (db_buf s) new_size g,
                         db_allocated_size := new_size, db_opaque := Suc (db_opaque s)\<rparr>)))
      else Some (0, s))"

definition dbuf_write :: "dynbuf \<Rightarrow> nat \<Rightarrow> u8 list \<Rightarrow> (int \<times> dynbuf) option" where
  "dbuf_write s offset data =
     (let end = sz (offset + length data) in do {
        (r, s) \<leftarrow> dbuf_realloc s end;
        if r \<noteq> 0 then Some (-1, s)
        else do {
          b \<leftarrow> wr_block (db_buf s) offset data;
          Some (0, s\<lparr>db_buf := b, db_size := (if end > db_size s then end else db_size s)\<rparr>)
        }
      })"

text \<open>The growth step that \<open>dbuf_put\<close> and \<open>dbuf_put_self\<close> share.\<close>

definition dbuf_grow :: "dynbuf \<Rightarrow> nat \<Rightarrow> (int \<times> dynbuf) option" where
  "dbuf_grow s len =
     (if sz (db_size s + len) > db_allocated_size s
      then do { (r, s) \<leftarrow> dbuf_realloc s (sz (db_size s + len));
                Some (if r \<noteq> 0 then -1 else 0, s) }
      else Some (0, s))"

definition dbuf_put :: "dynbuf \<Rightarrow> u8 list \<Rightarrow> (int \<times> dynbuf) option" where
  "dbuf_put s data = do {
     (r, s) \<leftarrow> dbuf_grow s (length data);
     if r \<noteq> 0 then Some (-1, s)
     else do {
       b \<leftarrow> wr_block (db_buf s) (db_size s) data;
       Some (0, s\<lparr>db_buf := b, db_size := sz (db_size s + length data)\<rparr>)
     }
   }"

text \<open>\<open>memcpy\<close> of a range on itself is undefined when source and destination overlap.\<close>

definition dbuf_put_self :: "dynbuf \<Rightarrow> nat \<Rightarrow> nat \<Rightarrow> (int \<times> dynbuf) option" where
  "dbuf_put_self s offset len = do {
     (r, s) \<leftarrow> dbuf_grow s len;
     if r \<noteq> 0 then Some (-1, s)
     else if 0 < len \<and> db_size s < offset + len \<and> offset < db_size s + len then None
     else do {
       d \<leftarrow> rd_block (db_buf s) offset len;
       b \<leftarrow> wr_block (db_buf s) (db_size s) d;
       Some (0, s\<lparr>db_buf := b, db_size := sz (db_size s + len)\<rparr>)
     }
   }"

definition dbuf_putc :: "dynbuf \<Rightarrow> u8 \<Rightarrow> (int \<times> dynbuf) option" where
  "dbuf_putc s c = dbuf_put s [c]"

definition dbuf_putstr :: "dynbuf \<Rightarrow> u8 list \<Rightarrow> nat \<Rightarrow> (int \<times> dynbuf) option" where
  "dbuf_putstr s str i = (if terminated str i then dbuf_put s (cstr str i) else None)"

text \<open>\<open>dbuf_printf\<close> takes the text that \<open>vsnprintf\<close> formats (its length is the value that
  \<open>vsnprintf\<close> returns); the long case writes it with its terminating zero.\<close>

definition dbuf_printf :: "dynbuf \<Rightarrow> u8 list \<Rightarrow> (int \<times> dynbuf) option" where
  "dbuf_printf s text =
     (let len = length text in
      if len < 128 then dbuf_put s text
      else do {
        (r, s) \<leftarrow> dbuf_realloc s (sz (db_size s + len + 1));
        if r \<noteq> 0 then Some (-1, s)
        else
          let room = sz (SIZE_MOD + db_allocated_size s - db_size s);
              out = (if room = 0 then [] else take (room - 1) text @ [0])
          in do {
            b \<leftarrow> wr_block (db_buf s) (db_size s) out;
            Some (0, s\<lparr>db_buf := b, db_size := sz (db_size s + len)\<rparr>)
          }
      })"

text \<open>\<open>dbuf_free\<close> gives the block back and clears every field, the allocator included.\<close>

definition dbuf_free :: "dynbuf \<Rightarrow> dynbuf option" where
  "dbuf_free s =
     (if db_buf s \<noteq> [] \<and> db_realloc s = None then None
      else Some \<lparr>db_buf = [], db_size = 0, db_allocated_size = 0, db_error = False,
                 db_realloc = None, db_opaque = 0\<rparr>)"

definition dbuf_set_error :: "dynbuf \<Rightarrow> dynbuf" where
  "dbuf_set_error s = s\<lparr>db_error := True\<rparr>"

text \<open>\<open>dbuf_insert\<close> of \<open>libregexp.c\<close>: opens a gap of \<open>len\<close> bytes (whose cells keep their old
  contents) with \<open>memmove\<close>.\<close>

definition dbuf_insert :: "dynbuf \<Rightarrow> nat \<Rightarrow> nat \<Rightarrow> (int \<times> dynbuf) option" where
  "dbuf_insert s pos len = do {
     (r, s) \<leftarrow> dbuf_realloc s (sz (db_size s + len));
     if r \<noteq> 0 then Some (-1, s)
     else if db_size s < pos then None
     else do {
       d \<leftarrow> rd_block (db_buf s) pos (db_size s - pos);
       b \<leftarrow> wr_block (db_buf s) (pos + len) d;
       Some (0, s\<lparr>db_buf := b, db_size := sz (db_size s + len)\<rparr>)
     }
   }"

section \<open>Invariant and contents\<close>

definition dbuf_ok :: "dynbuf \<Rightarrow> bool" where
  "dbuf_ok s \<longleftrightarrow> length (db_buf s) = db_allocated_size s \<and> db_size s \<le> db_allocated_size s \<and>
     db_allocated_size s < SIZE_MOD \<and> db_realloc s \<noteq> None"

definition dbuf_bytes :: "dynbuf \<Rightarrow> u8 list" where
  "dbuf_bytes s = take (db_size s) (db_buf s)"

lemma length_dbuf_bytes [simp]: "dbuf_ok s \<Longrightarrow> length (dbuf_bytes s) = db_size s"
  by (simp add: dbuf_ok_def dbuf_bytes_def)

lemma length_realloc_block [simp]: "length b \<le> n \<Longrightarrow> length (realloc_block b n g) = n"
  by (simp add: realloc_block_def)

lemma take_realloc_block [simp]:
  "k \<le> length b \<Longrightarrow> length b \<le> n \<Longrightarrow> take k (realloc_block b n g) = take k b"
  by (simp add: realloc_block_def)

lemma dbuf_init2_ok [simp]: "dbuf_ok (dbuf_init2 d f)"
  and dbuf_init2_bytes [simp]: "dbuf_bytes (dbuf_init2 d f) = []"
  and dbuf_init2_error [simp]: "\<not> db_error (dbuf_init2 d f)"
  by (simp_all add: dbuf_init2_def dbuf_ok_def dbuf_bytes_def SIZE_MOD_def)

text \<open>The result of growing: success makes room and keeps the contents, failure only sets the
  error flag.\<close>

definition grown :: "dynbuf \<Rightarrow> nat \<Rightarrow> int \<Rightarrow> dynbuf \<Rightarrow> bool" where
  "grown s n r s' \<longleftrightarrow> dbuf_ok s' \<and> dbuf_bytes s' = dbuf_bytes s \<and> db_size s' = db_size s \<and>
     db_allocated_size s \<le> db_allocated_size s' \<and>
     take (db_allocated_size s) (db_buf s') = db_buf s \<and>
     (r = 0 \<and> n \<le> db_allocated_size s' \<and> db_error s' = db_error s \<or> r = -1 \<and> db_error s')"

lemma dbuf_realloc_grown:
  assumes "dbuf_ok s" and "n < SIZE_MOD"
  shows "\<exists>r s'. dbuf_realloc s n = Some (r, s') \<and> grown s n r s'"
proof -
  have "sz (db_allocated_size s * 3) div 2 < SIZE_MOD"
    using sz_less [of "db_allocated_size s * 3"] by linarith
  then show ?thesis
    using assms
    by (auto simp: dbuf_realloc_def grown_def dbuf_ok_def dbuf_bytes_def Let_def
        split: option.splits)
qed

lemma dbuf_grow_grown:
  assumes "dbuf_ok s" and "db_size s + len < SIZE_MOD"
  shows "\<exists>r s'. dbuf_grow s len = Some (r, s') \<and> grown s (db_size s + len) r s'"
proof (cases "db_size s + len > db_allocated_size s")
  case True
  with dbuf_realloc_grown [OF assms] assms show ?thesis
    by (auto simp: dbuf_grow_def grown_def)
next
  case False
  with assms show ?thesis by (auto simp: dbuf_grow_def grown_def dbuf_ok_def)
qed

text \<open>What an appending operation promises: it never fails silently, and success appends
  exactly the data.\<close>

definition appended :: "dynbuf \<Rightarrow> u8 list \<Rightarrow> int \<Rightarrow> dynbuf \<Rightarrow> bool" where
  "appended s data r s' \<longleftrightarrow> dbuf_ok s' \<and>
     (r = 0 \<and> dbuf_bytes s' = dbuf_bytes s @ data \<and> db_error s' = db_error s \<or>
      r = -1 \<and> dbuf_bytes s' = dbuf_bytes s \<and> db_error s')"

lemma dbuf_put_appended:
  assumes "dbuf_ok s" and "db_size s + length data < SIZE_MOD"
  shows "\<exists>r s'. dbuf_put s data = Some (r, s') \<and> appended s data r s'"
proof -
  obtain r s1 where g: "dbuf_grow s (length data) = Some (r, s1)"
    and gr: "grown s (db_size s + length data) r s1"
    using dbuf_grow_grown [OF assms] by blast
  show ?thesis
  proof (cases "r = 0")
    case True
    with gr have fit: "db_size s1 + length data \<le> length (db_buf s1)"
      by (auto simp: grown_def dbuf_ok_def)
    with True g gr assms show ?thesis
      by (auto simp: dbuf_put_def appended_def grown_def wr_block_def dbuf_ok_def dbuf_bytes_def)
  next
    case False
    with g gr show ?thesis by (auto simp: dbuf_put_def appended_def grown_def)
  qed
qed

lemma take_overwrite:
  assumes "i \<le> n" and "n \<le> length b" and "i + length d \<le> length b"
  shows "take (max (i + length d) n) (take i b @ d @ drop (i + length d) b) =
    take i (take n b) @ d @ drop (i + length d) (take n b)"
proof (cases "i + length d \<le> n")
  case True
  then show ?thesis using assms by (cases "n = i") (auto simp: max_def min_def drop_take)
next
  case False
  then show ?thesis using assms by (auto simp: max_def min_def drop_take)
qed

lemma take_insert_gap:
  assumes "i \<le> n" and "n + k \<le> length b"
  shows "take (n + k) (take (i + k) b @ take (n - i) (drop i b) @ r) =
    take i (take n b) @ take k (drop i b) @ drop i (take n b)"
  using assms by (auto simp: take_add min_def drop_take)

text \<open>Replacing the block of a grown buffer by one of the same length.\<close>

lemma dbuf_ok_update:
  "dbuf_ok s \<Longrightarrow> length b = length (db_buf s) \<Longrightarrow> n \<le> db_allocated_size s \<Longrightarrow>
   dbuf_ok (s\<lparr>db_buf := b, db_size := n\<rparr>)"
  by (simp add: dbuf_ok_def)

lemma dbuf_write_spec:
  assumes "dbuf_ok s" and "offset \<le> db_size s" and "offset + length data < SIZE_MOD"
  shows "\<exists>r s'. dbuf_write s offset data = Some (r, s') \<and> dbuf_ok s' \<and>
     (r = 0 \<and> dbuf_bytes s' = take offset (dbuf_bytes s) @ data @
                 drop (offset + length data) (dbuf_bytes s) \<and> db_error s' = db_error s \<or>
      r = -1 \<and> dbuf_bytes s' = dbuf_bytes s \<and> db_error s')"
proof -
  let ?e = "offset + length data"
  obtain r s1 where g: "dbuf_realloc s ?e = Some (r, s1)" and gr: "grown s ?e r s1"
    using dbuf_realloc_grown [OF assms(1,3)] by blast
  show ?thesis
  proof (cases "r = 0")
    case True
    let ?b = "take offset (db_buf s1) @ data @ drop ?e (db_buf s1)"
    let ?s' = "s1\<lparr>db_buf := ?b, db_size := max ?e (db_size s1)\<rparr>"
    from True gr have fit: "?e \<le> length (db_buf s1)" and n: "db_size s1 \<le> length (db_buf s1)"
      and o: "offset \<le> db_size s1" and ok: "dbuf_ok s1" and bs: "dbuf_bytes s1 = dbuf_bytes s"
      and er: "db_error s1 = db_error s"
      using assms(2) by (auto simp: grown_def dbuf_ok_def)
    have "dbuf_write s offset data = Some (0, ?s')"
      using True g assms fit by (simp add: dbuf_write_def wr_block_def max_def Let_def)
    moreover have "dbuf_ok ?s'"
      using ok fit n by (intro dbuf_ok_update) (auto simp: dbuf_ok_def)
    moreover have "dbuf_bytes ?s' = take offset (dbuf_bytes s) @ data @ drop ?e (dbuf_bytes s)"
      unfolding bs [symmetric] using take_overwrite [OF o n fit] by (simp add: dbuf_bytes_def)
    ultimately show ?thesis using er by (intro exI conjI) auto
  next
    case False
    with g gr assms show ?thesis by (auto simp: dbuf_write_def grown_def)
  qed
qed

lemma dbuf_put_self_spec:
  assumes "dbuf_ok s" and "offset + len \<le> db_size s" and "db_size s + len < SIZE_MOD"
  shows "\<exists>r s'. dbuf_put_self s offset len = Some (r, s') \<and>
     appended s (take len (drop offset (dbuf_bytes s))) r s'"
proof -
  obtain r s1 where g: "dbuf_grow s len = Some (r, s1)"
    and gr: "grown s (db_size s + len) r s1"
    using dbuf_grow_grown [OF assms(1,3)] by blast
  show ?thesis
  proof (cases "r = 0")
    case True
    have len: "length (take len (drop offset (db_buf s1))) = len"
      using gr assms(2) by (auto simp: grown_def dbuf_ok_def)
    have same: "take len (drop offset (db_buf s1)) = take len (drop offset (dbuf_bytes s1))"
      using gr assms(2) by (simp add: dbuf_bytes_def take_drop grown_def min_def add.commute)
    from True gr have "db_size s1 + len \<le> length (db_buf s1)"
      by (auto simp: grown_def dbuf_ok_def)
    with True g gr assms len same show ?thesis
      by (auto simp: dbuf_put_self_def appended_def grown_def wr_block_def rd_block_def dbuf_ok_def
          dbuf_bytes_def)
  next
    case False
    with g gr show ?thesis by (auto simp: dbuf_put_self_def appended_def grown_def)
  qed
qed

lemma dbuf_insert_spec:
  assumes "dbuf_ok s" and "pos \<le> db_size s" and "db_size s + len < SIZE_MOD"
  shows "\<exists>r s'. dbuf_insert s pos len = Some (r, s') \<and> dbuf_ok s' \<and>
     (r = 0 \<and> db_error s' = db_error s \<and> (\<exists>gap. length gap = len \<and>
         dbuf_bytes s' = take pos (dbuf_bytes s) @ gap @ drop pos (dbuf_bytes s)) \<or>
      r = -1 \<and> dbuf_bytes s' = dbuf_bytes s \<and> db_error s')"
proof -
  let ?n = "db_size s"
  obtain r s1 where g: "dbuf_realloc s (?n + len) = Some (r, s1)"
    and gr: "grown s (?n + len) r s1"
    using dbuf_realloc_grown [OF assms(1,3)] by blast
  show ?thesis
  proof (cases "r = 0")
    case True
    let ?b = "db_buf s1"
    let ?d = "take (?n - pos) (drop pos ?b)"
    let ?b' = "take (pos + len) ?b @ ?d @ drop (pos + len + length ?d) ?b"
    let ?s' = "s1\<lparr>db_buf := ?b', db_size := ?n + len\<rparr>"
    from True gr have fit: "?n + len \<le> length ?b" and n: "db_size s1 = ?n" and ok: "dbuf_ok s1"
      and bs: "dbuf_bytes s1 = dbuf_bytes s" and er: "db_error s1 = db_error s"
      by (auto simp: grown_def dbuf_ok_def)
    have "dbuf_insert s pos len = Some (0, ?s')"
      using True g assms fit n by (simp add: dbuf_insert_def rd_block_def wr_block_def)
    moreover have "dbuf_ok ?s'"
      using ok fit assms(2) by (intro dbuf_ok_update) (auto simp: dbuf_ok_def)
    moreover have "dbuf_bytes ?s' =
        take pos (dbuf_bytes s) @ take len (drop pos ?b) @ drop pos (dbuf_bytes s)"
      unfolding bs [symmetric] using take_insert_gap [OF assms(2) fit] n
      by (simp add: dbuf_bytes_def)
    moreover have "length (take len (drop pos ?b)) = len"
      using fit assms(2) by simp
    ultimately show ?thesis using er by (intro exI conjI disjI1) auto
  next
    case False
    with g gr assms show ?thesis by (auto simp: dbuf_insert_def grown_def)
  qed
qed

section \<open>The interface its clients use\<close>

text \<open>The emitters of the regular expression compiler append without looking at the return
  values and test the error flag once at the end.  \<open>put_all\<close> is that pattern.\<close>

fun put_all :: "('s \<Rightarrow> u8 list \<Rightarrow> (int \<times> 's) option) \<Rightarrow> 's \<Rightarrow> u8 list list \<Rightarrow> 's option" where
  "put_all put s [] = Some s"
| "put_all put s (d # ds) = (case put s d of None \<Rightarrow> None | Some (_, s') \<Rightarrow> put_all put s' ds)"

locale append_buffer =
  fixes ok :: "'s \<Rightarrow> bool"
    and bytes :: "'s \<Rightarrow> u8 list"
    and err :: "'s \<Rightarrow> bool"
    and put :: "'s \<Rightarrow> u8 list \<Rightarrow> (int \<times> 's) option"
    and room :: nat
  assumes put_total: "ok s \<Longrightarrow> length (bytes s) + length d < room \<Longrightarrow>
      \<exists>r s'. put s d = Some (r, s') \<and> ok s' \<and>
        (r = 0 \<and> bytes s' = bytes s @ d \<and> err s' = err s \<or>
         r \<noteq> 0 \<and> bytes s' = bytes s \<and> err s')"
begin

lemma put_all_deferred:
  assumes "ok s" and "length (bytes s) + length (concat ds) < room"
  shows "\<exists>s'. put_all put s ds = Some s' \<and> ok s' \<and> (err s \<longrightarrow> err s') \<and>
    (\<not> err s' \<longrightarrow> bytes s' = bytes s @ concat ds)"
  using assms
proof (induction ds arbitrary: s)
  case Nil
  then show ?case by simp
next
  case (Cons d ds)
  have "length (bytes s) + length d < room" using Cons.prems(2) by simp
  from put_total [OF Cons.prems(1) this] obtain r s1 where p: "put s d = Some (r, s1)" "ok s1"
    and c: "r = 0 \<and> bytes s1 = bytes s @ d \<and> err s1 = err s \<or>
      r \<noteq> 0 \<and> bytes s1 = bytes s \<and> err s1" by blast
  from c Cons.prems(2) have "length (bytes s1) + length (concat ds) < room" by auto
  from Cons.IH [OF p(2) this] p c show ?case by fastforce
qed

end

interpretation db: append_buffer dbuf_ok dbuf_bytes db_error dbuf_put SIZE_MOD
proof unfold_locales
  fix s and d :: "u8 list"
  assume "dbuf_ok s" and "length (dbuf_bytes s) + length d < SIZE_MOD"
  then show "\<exists>r s'. dbuf_put s d = Some (r, s') \<and> dbuf_ok s' \<and>
      (r = 0 \<and> dbuf_bytes s' = dbuf_bytes s @ d \<and> db_error s' = db_error s \<or>
       r \<noteq> 0 \<and> dbuf_bytes s' = dbuf_bytes s \<and> db_error s')"
    using dbuf_put_appended [of s d] by (fastforce simp: appended_def)
qed

section \<open>Properties\<close>

text \<open>C30: below the \<open>size_t\<close> limit, \<open>dbuf_put\<close> always returns with the invariant kept: either 0
  and exactly the data appended, or -1 with the contents unchanged and the error flag set.\<close>

theorem dbuf_put_correct:
  assumes "dbuf_ok s" and "db_size s + length data < SIZE_MOD"
  shows "\<exists>r s'. dbuf_put s data = Some (r, s') \<and> dbuf_ok s' \<and>
    (r = 0 \<and> dbuf_bytes s' = dbuf_bytes s @ data \<and> db_error s' = db_error s \<or>
     r = -1 \<and> dbuf_bytes s' = dbuf_bytes s \<and> db_error s')"
  using dbuf_put_appended [OF assms] by (auto simp: appended_def)

theorem dbuf_put_correct_witness:
  "\<exists>r s'. dbuf_put (dbuf_init (\<lambda>k n. Some (\<lambda>i. 0))) [1, 2] = Some (r, s') \<and> dbuf_ok s' \<and>
    (r = 0 \<and> dbuf_bytes s' = [1, 2] \<and> \<not> db_error s' \<or> r = -1 \<and> dbuf_bytes s' = [] \<and> db_error s')"
  using dbuf_put_correct [of "dbuf_init (\<lambda>k n. Some (\<lambda>i. 0))" "[1, 2]"]
  by (simp add: dbuf_init_def) (simp add: dbuf_init2_def SIZE_MOD_def dbuf_bytes_def)

text \<open>C31: when the new size passes the \<open>size_t\<close> limit the sum wraps, the growth test passes
  and \<open>memcpy\<close> writes outside the block.\<close>

theorem dbuf_put_overflow:
  assumes "dbuf_ok s" and "SIZE_MOD \<le> db_size s + length data"
    and "db_size s + length data \<le> SIZE_MOD + db_allocated_size s"
  shows "dbuf_put s data = None"
proof -
  have "sz (db_size s + length data) = db_size s + length data - SIZE_MOD"
  proof -
    have "db_size s + length data - SIZE_MOD < SIZE_MOD"
      using assms by (auto simp: dbuf_ok_def)
    then show ?thesis
      using assms(2) by (simp add: sz_def le_mod_geq)
  qed
  then have "dbuf_grow s (length data) = Some (0, s)"
    using assms(2,3) by (auto simp: dbuf_grow_def)
  then show ?thesis
    using assms by (simp add: dbuf_put_def wr_block_def dbuf_ok_def)
qed

theorem dbuf_put_overflow_witness:
  "dbuf_put \<lparr>db_buf = [5], db_size = 1, db_allocated_size = 1, db_error = False,
     db_realloc = Some (\<lambda>k n. None), db_opaque = 1\<rparr> (replicate (SIZE_MOD - 1) 0) = None"
  by (rule dbuf_put_overflow) (simp_all add: dbuf_ok_def SIZE_MOD_def)

text \<open>C32: the three operations that edit the middle of a buffer do what their names say on
  in-range arguments: \<open>dbuf_write\<close> overwrites (and extends), \<open>dbuf_put_self\<close> appends a copy of
  an earlier range, \<open>dbuf_insert\<close> opens a gap; a failed allocation leaves the contents.\<close>

theorem dbuf_edit_correct:
  assumes "dbuf_ok s" and "offset + len \<le> db_size s"
    and "db_size s + len + length data < SIZE_MOD"
  shows "(\<exists>r s'. dbuf_write s offset data = Some (r, s') \<and> dbuf_ok s' \<and>
      (r = 0 \<and> dbuf_bytes s' = take offset (dbuf_bytes s) @ data @
                  drop (offset + length data) (dbuf_bytes s) \<or>
       r = -1 \<and> dbuf_bytes s' = dbuf_bytes s \<and> db_error s')) \<and>
    (\<exists>r s'. dbuf_put_self s offset len = Some (r, s') \<and> dbuf_ok s' \<and>
      (r = 0 \<and> dbuf_bytes s' = dbuf_bytes s @ take len (drop offset (dbuf_bytes s)) \<or>
       r = -1 \<and> dbuf_bytes s' = dbuf_bytes s \<and> db_error s')) \<and>
    (\<exists>r s'. dbuf_insert s offset len = Some (r, s') \<and> dbuf_ok s' \<and>
      (r = 0 \<and> (\<exists>gap. length gap = len \<and>
          dbuf_bytes s' = take offset (dbuf_bytes s) @ gap @ drop offset (dbuf_bytes s)) \<or>
       r = -1 \<and> dbuf_bytes s' = dbuf_bytes s \<and> db_error s'))"
  using dbuf_write_spec [of s offset data] dbuf_put_self_spec [of s offset len]
    dbuf_insert_spec [of s offset len] assms
  by (fastforce simp: appended_def)

theorem dbuf_edit_correct_witness:
  "\<exists>r s'. dbuf_insert \<lparr>db_buf = [5, 6, 7], db_size = 2, db_allocated_size = 3, db_error = False,
     db_realloc = Some (\<lambda>k n. Some (\<lambda>i. 0)), db_opaque = 1\<rparr> 1 1 = Some (r, s') \<and> dbuf_ok s'"
  using dbuf_edit_correct [of "\<lparr>db_buf = [5, 6, 7], db_size = 2, db_allocated_size = 3,
     db_error = False, db_realloc = Some (\<lambda>k n. Some (\<lambda>i. 0)), db_opaque = 1\<rparr>" 1 1 "[9]"]
  by (auto simp: dbuf_ok_def SIZE_MOD_def)

text \<open>Deferred error checking is sound: after any sequence of appends whose return values
  are ignored, an error flag that is still clear means that all the data is in the buffer.\<close>

theorem dbuf_deferred_error:
  assumes "dbuf_ok s" and "db_size s + length (concat ds) < SIZE_MOD"
  shows "\<exists>s'. put_all dbuf_put s ds = Some s' \<and> dbuf_ok s' \<and> (db_error s \<longrightarrow> db_error s') \<and>
    (\<not> db_error s' \<longrightarrow> dbuf_bytes s' = dbuf_bytes s @ concat ds)"
  using assms by (intro db.put_all_deferred) simp_all

theorem dbuf_deferred_error_witness:
  "\<exists>s'. put_all dbuf_put (dbuf_init (\<lambda>k n. None)) [[1], [2, 3]] = Some s' \<and>
    (\<not> db_error s' \<longrightarrow> dbuf_bytes s' = [1, 2, 3])"
  using dbuf_deferred_error [of "dbuf_init (\<lambda>k n. None)" "[[1], [2, 3]]"]
  by (auto simp: dbuf_init_def dbuf_init2_def SIZE_MOD_def dbuf_ok_def dbuf_bytes_def)

end
