(* ===== verification/Utf8.thy ===== *)
theory Utf8
  imports QJS_Prelude
begin

text \<open>
  \<open>unicode_to_utf8\<close> and \<open>unicode_from_utf8\<close> of \<open>cutils.c\<close>.  The encoder returns the bytes it
  writes (their number is the C return value, 0 for a code point above 31 bits).  The decoder
  reads a block at an offset; it returns the code point or -1 and the updated pointer, and
  \<open>None\<close> when it reads outside the block.
\<close>

section \<open>Definitions\<close>

definition unicode_to_utf8 :: "u32 \<Rightarrow> u8 list" where
  "unicode_to_utf8 c =
     (if c < 0x80 then [ucast c]
      else if c < 0x800 then
        [ucast (drop_bit 6 c OR 0xc0), ucast ((c AND 0x3f) OR 0x80)]
      else if c < 0x10000 then
        [ucast (drop_bit 12 c OR 0xe0), ucast ((drop_bit 6 c AND 0x3f) OR 0x80),
         ucast ((c AND 0x3f) OR 0x80)]
      else if c < 0x00200000 then
        [ucast (drop_bit 18 c OR 0xf0), ucast ((drop_bit 12 c AND 0x3f) OR 0x80),
         ucast ((drop_bit 6 c AND 0x3f) OR 0x80), ucast ((c AND 0x3f) OR 0x80)]
      else if c < 0x04000000 then
        [ucast (drop_bit 24 c OR 0xf8), ucast ((drop_bit 18 c AND 0x3f) OR 0x80),
         ucast ((drop_bit 12 c AND 0x3f) OR 0x80), ucast ((drop_bit 6 c AND 0x3f) OR 0x80),
         ucast ((c AND 0x3f) OR 0x80)]
      else if c < 0x80000000 then
        [ucast (drop_bit 30 c OR 0xfc), ucast ((drop_bit 24 c AND 0x3f) OR 0x80),
         ucast ((drop_bit 18 c AND 0x3f) OR 0x80), ucast ((drop_bit 12 c AND 0x3f) OR 0x80),
         ucast ((drop_bit 6 c AND 0x3f) OR 0x80), ucast ((c AND 0x3f) OR 0x80)]
      else [])"

definition utf8_min_code :: "int list" where
  "utf8_min_code = [0x80, 0x800, 0x10000, 0x00200000, 0x04000000]"

definition utf8_first_code_mask :: "int list" where
  "utf8_first_code_mask = [0x1f, 0xf, 0x7, 0x3, 0x1]"

text \<open>The \<open>switch\<close> on the first byte: the number of continuation bytes.\<close>

definition utf8_seq_len :: "int \<Rightarrow> nat option" where
  "utf8_seq_len c =
     (if 0xc0 \<le> c \<and> c \<le> 0xdf then Some 1
      else if 0xe0 \<le> c \<and> c \<le> 0xef then Some 2
      else if 0xf0 \<le> c \<and> c \<le> 0xf7 then Some 3
      else if 0xf8 \<le> c \<and> c \<le> 0xfb then Some 4
      else if 0xfc \<le> c \<and> c \<le> 0xfd then Some 5
      else None)"

text \<open>The loop over the continuation bytes; \<open>Some None\<close> is its \<open>return -1\<close>.\<close>

fun utf8_cont_loop :: "u8 list \<Rightarrow> nat \<Rightarrow> nat \<Rightarrow> int \<Rightarrow> (int \<times> nat) option option" where
  "utf8_cont_loop p k 0 c = Some (Some (c, k))"
| "utf8_cont_loop p k (Suc n) c =
     (case rd p k of
        None \<Rightarrow> None
      | Some b \<Rightarrow>
          if uint b < 0x80 \<or> uint b \<ge> 0xc0 then Some None
          else utf8_cont_loop p (Suc k) n (push_bit 6 c OR (uint b AND 0x3f)))"

definition unicode_from_utf8 :: "u8 list \<Rightarrow> nat \<Rightarrow> int \<Rightarrow> (int \<times> nat) option" where
  "unicode_from_utf8 p i max_len =
     (case rd p i of
        None \<Rightarrow> None
      | Some c0 \<Rightarrow>
          let c = uint c0 in
          if c < 0x80 then Some (c, Suc i)
          else (case utf8_seq_len c of
              None \<Rightarrow> Some (-1, i)
            | Some l \<Rightarrow>
                if int l > max_len - 1 then Some (-1, i)
                else (case utf8_cont_loop p (Suc i) l (c AND utf8_first_code_mask ! (l - 1)) of
                    None \<Rightarrow> None
                  | Some None \<Rightarrow> Some (-1, i)
                  | Some (Some (c, k)) \<Rightarrow>
                      if c < utf8_min_code ! (l - 1) then Some (-1, i) else Some (c, k))))"

section \<open>Bit arithmetic\<close>

text \<open>A lead byte: the top bits of the code point under the marker \<open>k * 2 ^ m\<close>.\<close>

lemma lead_byte:
  fixes c :: u32
  assumes "uint c div 2 ^ n < 2 ^ m" and "uint (K::u32) = k * 2 ^ m" and "uint K + 2 ^ m \<le> 256"
  shows "(ucast (drop_bit n c OR K) :: u8) = word_of_int (uint K + uint c div 2 ^ n)"
proof -
  have u: "uint (drop_bit n c) = uint c div 2 ^ n"
    by (rule uint_drop_bit_div)
  have "uint (drop_bit n c OR K) = push_bit m k OR uint c div 2 ^ n"
    by (simp add: unsigned_or_eq u assms(2) push_bit_eq_mult or.commute)
  also have "\<dots> = k * 2 ^ m + uint c div 2 ^ n"
    using assms(1) by (intro or_shift_add) (auto simp: pos_imp_zdiv_nonneg_iff)
  finally have "uint (drop_bit n c OR K) = uint K + uint c div 2 ^ n"
    by (simp add: assms(2))
  moreover have "(ucast (drop_bit n c OR K) :: u8) = word_of_int (uint (drop_bit n c OR K))"
    by (simp add: unsigned_ucast_eq word_of_int_uint)
  ultimately show ?thesis by simp
qed

lemma cont_byte:
  fixes c :: u32
  shows "(ucast ((drop_bit n c AND 0x3f) OR 0x80) :: u8) = word_of_int (128 + uint c div 2 ^ n mod 64)"
proof -
  have "uint ((drop_bit n c AND 0x3f) OR 0x80) = push_bit 6 2 OR (uint c div 2 ^ n) mod 64"
    by (simp add: unsigned_or_eq unsigned_and_eq uint_drop_bit_div and_mask_mod or.commute)
  also have "\<dots> = 128 + uint c div 2 ^ n mod 64"
    by (subst or_shift_add) simp_all
  finally have "uint ((drop_bit n c AND 0x3f) OR 0x80) = 128 + uint c div 2 ^ n mod 64" .
  moreover have "(ucast ((drop_bit n c AND 0x3f) OR 0x80) :: u8) =
      word_of_int (uint ((drop_bit n c AND 0x3f) OR 0x80))"
    by (simp add: unsigned_ucast_eq word_of_int_uint)
  ultimately show ?thesis by simp
qed

section \<open>Reference form of a sequence\<close>

fun cont_bytes :: "nat \<Rightarrow> int \<Rightarrow> u8 list" where
  "cont_bytes 0 x = []"
| "cont_bytes (Suc n) x = word_of_int (128 + x div 64 ^ n mod 64) # cont_bytes n x"

definition utf8_lead :: "nat \<Rightarrow> int" where
  "utf8_lead l = [0xc0, 0xe0, 0xf0, 0xf8, 0xfc] ! (l - 1)"

lemma length_cont_bytes [simp]: "length (cont_bytes n x) = n"
  by (induction n) auto

lemma uint_cont_byte: "uint (word_of_int (128 + y mod 64) :: u8) = 128 + y mod 64"
proof -
  have "0 \<le> y mod 64" and "y mod 64 < 64" by simp_all
  then show ?thesis by (simp only: uint_word_of_int) simp
qed

lemma cont_step:
  fixes b :: u8
  assumes "128 \<le> uint b" and "uint b < 192"
  shows "push_bit 6 c OR (uint b AND 0x3f) = c * 64 + (uint b - 128)"
proof -
  have "uint b mod 64 = uint b - 128" using assms by presburger
  then show ?thesis using assms or_shift_add [of "uint b - 128" 6 c]
    by (simp add: and_mask_mod)
qed

lemma mod_64_Suc: "(x::int) mod 64 ^ Suc n = (x div 64 ^ n mod 64) * 64 ^ n + x mod 64 ^ n"
  using zmod_zmult2_eq [of 64 x "64 ^ n"] by (simp add: mult.commute)

lemma utf8_cont_loop_cont_bytes:
  "utf8_cont_loop (pre @ cont_bytes n x @ rest) (length pre) n c =
     Some (Some (c * 64 ^ n + x mod 64 ^ n, length pre + n))"
proof (induction n arbitrary: pre c)
  case 0
  then show ?case by simp
next
  case (Suc n)
  let ?b = "word_of_int (128 + x div 64 ^ n mod 64) :: u8"
  have b: "uint ?b = 128 + x div 64 ^ n mod 64" by (rule uint_cont_byte)
  have r: "rd (pre @ cont_bytes (Suc n) x @ rest) (length pre) = Some ?b"
    by (simp add: rd_def nth_append)
  have st: "push_bit 6 c OR (uint ?b AND 0x3f) = c * 64 + (x div 64 ^ n mod 64)"
    using cont_step [of ?b c] unfolding b by simp
  have lt: "\<not> (uint ?b < 0x80 \<or> uint ?b \<ge> 0xc0)"
    unfolding b by (simp add: not_le)
  have "utf8_cont_loop ((pre @ [?b]) @ cont_bytes n x @ rest) (length (pre @ [?b])) n
      (c * 64 + (x div 64 ^ n mod 64)) =
    Some (Some ((c * 64 + (x div 64 ^ n mod 64)) * 64 ^ n + x mod 64 ^ n, length (pre @ [?b]) + n))"
    by (rule Suc.IH)
  moreover have "(c * 64 + (x div 64 ^ n mod 64)) * 64 ^ n + x mod 64 ^ n =
      c * 64 ^ Suc n + x mod 64 ^ Suc n"
    by (simp only: mod_64_Suc) (simp add: algebra_simps)
  ultimately show ?case
    by (simp only: utf8_cont_loop.simps r option.case lt if_False st) simp
qed

lemma utf8_cont_loop_inv:
  assumes "utf8_cont_loop p k n c = Some (Some (c', k'))" and "k \<le> length p"
  shows "k' = k + n \<and> k' \<le> length p \<and> c' div 64 ^ n = c \<and> take n (drop k p) = cont_bytes n c'"
  using assms
proof (induction n arbitrary: k c)
  case 0
  then show ?case by simp
next
  case (Suc n)
  from Suc.prems obtain b where k: "k < length p" and b: "p ! k = b"
    and rng: "128 \<le> uint b" "uint b < 192"
    and rec: "utf8_cont_loop p (Suc k) n (push_bit 6 c OR (uint b AND 0x3f)) = Some (Some (c', k'))"
    by (auto simp: mem_simps split: option.splits if_splits)
  from Suc.IH [OF rec] k have IH: "k' = Suc k + n" "k' \<le> length p"
    "c' div 64 ^ n = c * 64 + (uint b - 128)" "take n (drop (Suc k) p) = cont_bytes n c'"
    by (simp_all add: cont_step [OF rng])
  have "c' div 64 ^ Suc n = c' div 64 ^ n div 64"
    by (simp add: zdiv_zmult2_eq [symmetric] mult.commute)
  also have "\<dots> = c" using rng by (simp add: IH(3))
  finally have "c' div 64 ^ Suc n = c" .
  moreover have "c' div 64 ^ n mod 64 = uint b - 128"
    using rng by (simp add: IH(3) mod_pos_pos_trivial)
  then have "word_of_int (128 + c' div 64 ^ n mod 64) = b" by simp
  ultimately show ?case
    using IH k b by (simp add: Cons_nth_drop_Suc [symmetric])
qed

text \<open>The lengths of the code points: \<open>utf8_len\<close> continuation bytes follow the lead byte.\<close>

definition utf8_len :: "int \<Rightarrow> nat" where
  "utf8_len c = (if c < 0x800 then 1 else if c < 0x10000 then 2 else if c < 0x00200000 then 3
     else if c < 0x04000000 then 4 else 5)"

lemma cont_bytes_numeral:
  "cont_bytes 1 x = [word_of_int (128 + x mod 64)]"
  "cont_bytes 2 x = word_of_int (128 + x div 2 ^ 6 mod 64) # cont_bytes 1 x"
  "cont_bytes 3 x = word_of_int (128 + x div 2 ^ 12 mod 64) # cont_bytes 2 x"
  "cont_bytes 4 x = word_of_int (128 + x div 2 ^ 18 mod 64) # cont_bytes 3 x"
  "cont_bytes 5 x = word_of_int (128 + x div 2 ^ 24 mod 64) # cont_bytes 4 x"
  by (simp_all add: numeral_eq_Suc)

lemma unicode_to_utf8_form:
  assumes "0x80 \<le> uint c" and "uint c < 2 ^ 31"
  shows "unicode_to_utf8 c = word_of_int (utf8_lead (utf8_len (uint c)) + uint c div 64 ^ utf8_len (uint c))
     # cont_bytes (utf8_len (uint c)) (uint c)"
proof -
  note cb = cont_byte [where c = c and n = 24] cont_byte [where c = c and n = 18]
    cont_byte [where c = c and n = 12] cont_byte [where c = c and n = 6]
    cont_byte [where c = c and n = 0, unfolded drop_bit_0 id_apply power_0 div_by_1]
  consider (1) "uint c < 0x800" | (2) "0x800 \<le> uint c" "uint c < 0x10000"
    | (3) "0x10000 \<le> uint c" "uint c < 0x200000" | (4) "0x200000 \<le> uint c" "uint c < 0x4000000"
    | (5) "0x4000000 \<le> uint c" by linarith
  then show ?thesis
  proof cases
    case 1
    have "(ucast (drop_bit 6 c OR 0xc0) :: u8) = word_of_int (0xc0 + uint c div 2 ^ 6)"
      using 1 by (subst lead_byte [where m = 5 and k = 6]) auto
    then have "unicode_to_utf8 c = [word_of_int (0xc0 + uint c div 2 ^ 6), word_of_int (128 + uint c mod 64)]"
      using 1 assms by (simp only: unicode_to_utf8_def word_less_def cb) simp
    then show ?thesis
      using 1 by (simp only: utf8_lead_def utf8_len_def cont_bytes_numeral if_True) simp
  next
    case 2
    have "(ucast (drop_bit 12 c OR 0xe0) :: u8) = word_of_int (0xe0 + uint c div 2 ^ 12)"
      using 2 by (subst lead_byte [where m = 4 and k = 14]) auto
    then have "unicode_to_utf8 c = [word_of_int (0xe0 + uint c div 2 ^ 12),
        word_of_int (128 + uint c div 2 ^ 6 mod 64), word_of_int (128 + uint c mod 64)]"
      using 2 assms by (simp only: unicode_to_utf8_def word_less_def cb) simp
    moreover have "utf8_len (uint c) = 2" using 2 by (simp add: utf8_len_def)
    ultimately show ?thesis
      by (simp only: utf8_lead_def cont_bytes_numeral) simp
  next
    case 3
    have "(ucast (drop_bit 18 c OR 0xf0) :: u8) = word_of_int (0xf0 + uint c div 2 ^ 18)"
      using 3 by (subst lead_byte [where m = 3 and k = 30]) auto
    then have "unicode_to_utf8 c = [word_of_int (0xf0 + uint c div 2 ^ 18),
        word_of_int (128 + uint c div 2 ^ 12 mod 64), word_of_int (128 + uint c div 2 ^ 6 mod 64),
        word_of_int (128 + uint c mod 64)]"
      using 3 assms by (simp only: unicode_to_utf8_def word_less_def cb) simp
    moreover have "utf8_len (uint c) = 3" using 3 by (simp add: utf8_len_def)
    ultimately show ?thesis
      by (simp only: utf8_lead_def cont_bytes_numeral) simp
  next
    case 4
    have "(ucast (drop_bit 24 c OR 0xf8) :: u8) = word_of_int (0xf8 + uint c div 2 ^ 24)"
      using 4 by (subst lead_byte [where m = 2 and k = 62]) auto
    then have "unicode_to_utf8 c = [word_of_int (0xf8 + uint c div 2 ^ 24),
        word_of_int (128 + uint c div 2 ^ 18 mod 64), word_of_int (128 + uint c div 2 ^ 12 mod 64),
        word_of_int (128 + uint c div 2 ^ 6 mod 64), word_of_int (128 + uint c mod 64)]"
      using 4 assms by (simp only: unicode_to_utf8_def word_less_def cb) simp
    moreover have "utf8_len (uint c) = 4" using 4 by (simp add: utf8_len_def)
    ultimately show ?thesis
      by (simp only: utf8_lead_def cont_bytes_numeral) simp
  next
    case 5
    have "(ucast (drop_bit 30 c OR 0xfc) :: u8) = word_of_int (0xfc + uint c div 2 ^ 30)"
      using 5 assms by (subst lead_byte [where m = 1 and k = 126]) auto
    then have "unicode_to_utf8 c = [word_of_int (0xfc + uint c div 2 ^ 30),
        word_of_int (128 + uint c div 2 ^ 24 mod 64), word_of_int (128 + uint c div 2 ^ 18 mod 64),
        word_of_int (128 + uint c div 2 ^ 12 mod 64),
        word_of_int (128 + uint c div 2 ^ 6 mod 64), word_of_int (128 + uint c mod 64)]"
      using 5 assms by (simp only: unicode_to_utf8_def word_less_def cb) simp
    moreover have "utf8_len (uint c) = 5" using 5 by (simp add: utf8_len_def)
    ultimately show ?thesis
      by (simp only: utf8_lead_def cont_bytes_numeral) simp
  qed
qed

section \<open>The decoder on lead bytes\<close>

lemma utf8_seq_len_lead:
  assumes "utf8_seq_len b = Some l"
  shows "l \<in> {1, 2, 3, 4, 5}" and "b AND utf8_first_code_mask ! (l - 1) = b - utf8_lead l"
    and "0 \<le> b - utf8_lead l" and "b - utf8_lead l < 2 ^ (6 - l)"
  using assms
  by (auto simp: utf8_seq_len_def utf8_first_code_mask_def utf8_lead_def and_mask_mod
      split: if_splits) presburger+

lemma utf8_len_lead:
  assumes "0x80 \<le> c" and "c < 2 ^ 31"
  shows "utf8_len c \<in> {1, 2, 3, 4, 5}" and "utf8_min_code ! (utf8_len c - 1) \<le> c"
    and "utf8_seq_len (utf8_lead (utf8_len c) + c div 64 ^ utf8_len c) = Some (utf8_len c)"
    and "utf8_lead (utf8_len c) + c div 64 ^ utf8_len c < 256"
    and "0xc0 \<le> utf8_lead (utf8_len c) + c div 64 ^ utf8_len c"
  using assms
  by (auto simp: utf8_len_def utf8_min_code_def utf8_lead_def utf8_seq_len_def
      div_less_iff_less_mult pos_imp_zdiv_nonneg_iff)

lemma utf8_len_unique:
  assumes "l \<in> {1, 2, 3, 4, 5}" and "utf8_min_code ! (l - 1) \<le> c" and "c div 64 ^ l < 2 ^ (6 - l)"
  shows "utf8_len c = l" and "0x80 \<le> c" and "c < 2 ^ 31"
  using assms by (auto simp: utf8_min_code_def utf8_len_def div_less_iff_less_mult)

lemma utf8_cont_loop_total:
  "k + n \<le> length p \<Longrightarrow> utf8_cont_loop p k n c \<noteq> None"
  by (induction n arbitrary: k c) auto

section \<open>Properties\<close>

text \<open>C25: round trip.  Decoding what \<open>unicode_to_utf8\<close> writes gives the code point back and
  advances past exactly the bytes written, whatever surrounds them.\<close>

theorem utf8_roundtrip:
  assumes "uint c < 2 ^ 31" and "int (length (unicode_to_utf8 c)) \<le> max_len"
  shows "unicode_from_utf8 (pre @ unicode_to_utf8 c @ rest) (length pre) max_len =
    Some (uint c, length pre + length (unicode_to_utf8 c))"
proof (cases "uint c < 0x80")
  case True
  then have "unicode_to_utf8 c = [ucast c]" and "uint (ucast c :: u8) = uint c"
    by (simp_all add: unicode_to_utf8_def word_less_def unsigned_ucast_eq take_bit_int_eq_self)
  with True show ?thesis by (simp add: unicode_from_utf8_def rd_def nth_append)
next
  case False
  let ?l = "utf8_len (uint c)"
  let ?b = "utf8_lead ?l + uint c div 64 ^ ?l"
  have form: "unicode_to_utf8 c = word_of_int ?b # cont_bytes ?l (uint c)"
    using False assms(1) by (intro unicode_to_utf8_form) auto
  note L = utf8_len_lead [of "uint c"]
  have b: "uint (word_of_int ?b :: u8) = ?b"
    using L False assms(1) by (simp only: uint_word_of_int) auto
  have sl: "utf8_seq_len ?b = Some ?l" using L False assms(1) by simp
  let ?p = "pre @ unicode_to_utf8 c @ rest"
  have "rd ?p (length pre) = Some (word_of_int ?b)"
    by (simp add: rd_def nth_append form)
  moreover have "\<not> ?b < 0x80" using L(5) False assms(1) by simp
  moreover have "\<not> int ?l > max_len - 1" using assms(2) form by simp
  moreover have "utf8_cont_loop ?p (Suc (length pre)) ?l (?b - utf8_lead ?l) =
      Some (Some (uint c, Suc (length pre) + ?l))"
    using div_mult_mod_eq [of "uint c" "64 ^ ?l"] utf8_cont_loop_cont_bytes [of "pre @ [word_of_int ?b]" ?l "uint c" rest "?b - utf8_lead ?l"]
    by (simp add: form)
  ultimately show ?thesis
    using L(2) False assms(1) form utf8_seq_len_lead(2) [OF sl] b
    by (simp only: unicode_from_utf8_def option.case Let_def b sl if_False) simp
qed

theorem utf8_roundtrip_witness:
  "unicode_from_utf8 ([65] @ unicode_to_utf8 0x20ac @ [66]) 1 6 = Some (0x20ac, 4)"
  using utf8_roundtrip [of "0x20ac" 6 "[65]" "[66]"]
  by (simp add: unicode_to_utf8_def)

text \<open>C26: the decoder accepts only canonical sequences: whenever it returns a code point, the
  bytes it consumed are exactly the encoding of that code point (so overlong forms, bad
  continuation bytes and bad lead bytes are rejected), and it stays inside the block.\<close>

theorem utf8_decode_canonical:
  assumes "unicode_from_utf8 p i max_len = Some (c, j)" and "0 \<le> c"
  shows "c < 2 ^ 31 \<and> i < j \<and> j \<le> length p \<and>
    take (j - i) (drop i p) = unicode_to_utf8 (word_of_int c)"
proof (cases "uint (p ! i) < 0x80")
  case True
  with assms have "i < length p" "c = uint (p ! i)" "j = Suc i"
    by (auto simp: unicode_from_utf8_def mem_simps split: option.splits)
  moreover have "unicode_to_utf8 (ucast (p ! i)) = [p ! i]"
  proof -
    have "uint (ucast (p ! i) :: u32) = uint (p ! i)"
      using True by (simp add: unsigned_ucast_eq take_bit_int_eq_self)
    then have "ucast (p ! i) < (0x80 :: u32)" using True by (simp add: word_less_def)
    moreover have "ucast (ucast (p ! i) :: u32) = p ! i"
      by (rule bit_word_eqI) (auto simp: bit_simps)
    ultimately show ?thesis by (simp add: unicode_to_utf8_def)
  qed
  ultimately show ?thesis
    using True by (auto simp: take_Suc_conv_app_nth)
next
  case False
  let ?b = "uint (p ! i)"
  from assms False obtain l where i: "i < length p" and sl: "utf8_seq_len ?b = Some l"
    and loop: "utf8_cont_loop p (Suc i) l (?b AND utf8_first_code_mask ! (l - 1)) = Some (Some (c, j))"
    and mn: "utf8_min_code ! (l - 1) \<le> c"
    by (auto simp: unicode_from_utf8_def mem_simps Let_def split: option.splits if_splits)
  note S = utf8_seq_len_lead [OF sl]
  from utf8_cont_loop_inv [OF loop [unfolded S(2)]] i
  have inv: "j = Suc i + l" "j \<le> length p" "c div 64 ^ l = ?b - utf8_lead l"
    "take l (drop (Suc i) p) = cont_bytes l c" by simp_all
  have l: "utf8_len c = l" and lo: "0x80 \<le> c" and hi: "c < 2 ^ 31"
    using utf8_len_unique [OF S(1) mn] S(4) inv(3) by auto
  have uc: "uint (word_of_int c :: u32) = c"
    using lo hi by (simp only: uint_word_of_int) simp
  have "unicode_to_utf8 (word_of_int c) =
      word_of_int (utf8_lead l + c div 64 ^ l) # cont_bytes l c"
    using unicode_to_utf8_form [of "word_of_int c"] lo hi unfolding uc l by simp
  also have "\<dots> = p ! i # take l (drop (Suc i) p)"
    by (simp add: inv(3,4))
  also have "\<dots> = take (j - i) (drop i p)"
    using i inv(1) by (simp add: Cons_nth_drop_Suc [symmetric])
  finally show ?thesis using hi inv by simp
qed

theorem utf8_decode_canonical_witness:
  "take 2 (drop 1 [65, 0xc3, 0xa9, 66]) = unicode_to_utf8 (word_of_int 0xe9)"
proof -
  have "unicode_from_utf8 [65, 0xc3, 0xa9, 66] 1 6 = Some (0xe9, 3)"
    by code_simp
  from utf8_decode_canonical [OF this] show ?thesis by simp
qed

text \<open>C27: bounds.  An encoding has at most \<open>UTF8_CHAR_LEN_MAX = 6\<close> bytes, and the decoder never
  reads outside a block that holds at least \<open>max_len\<close> bytes, or that is terminated by a zero
  byte (the form in which the regular expression parser calls it).\<close>

lemma utf8_cont_loop_terminated:
  "terminated p k \<Longrightarrow> utf8_cont_loop p k n c \<noteq> None"
proof (induction n arbitrary: k c)
  case 0
  then show ?case by simp
next
  case (Suc n)
  then have "k < length p" by (simp add: terminated_less)
  with Suc show ?case by (cases "p ! k = 0") (auto simp: terminated_Suc)
qed

theorem utf8_bounds:
  "length (unicode_to_utf8 c) \<le> 6 \<and>
   (i < length p \<and> max_len \<le> int (length p - i) \<or> terminated p i \<longrightarrow>
      unicode_from_utf8 p i max_len \<noteq> None)"
proof
  show "length (unicode_to_utf8 c) \<le> 6"
    by (simp add: unicode_to_utf8_def)
  show "i < length p \<and> max_len \<le> int (length p - i) \<or> terminated p i \<longrightarrow>
      unicode_from_utf8 p i max_len \<noteq> None"
  proof
    assume a: "i < length p \<and> max_len \<le> int (length p - i) \<or> terminated p i"
    then have i: "i < length p" by (auto dest: terminated_less)
    have "utf8_cont_loop p (Suc i) l v \<noteq> None"
      if "\<not> max_len - 1 < int l" and "\<not> uint (p ! i) < 0x80" for l v
    proof (cases "terminated p i")
      case True
      have "p ! i \<noteq> 0" using that(2) by auto
      with True show ?thesis by (intro utf8_cont_loop_terminated terminated_Suc)
    next
      case False
      with a that show ?thesis by (intro utf8_cont_loop_total) auto
    qed
    note loop = this
    show "unicode_from_utf8 p i max_len \<noteq> None"
    proof
      assume "unicode_from_utf8 p i max_len = None"
      then obtain l v where "\<not> max_len - 1 < int l" and "\<not> uint (p ! i) < 0x80"
        and "utf8_cont_loop p (Suc i) l v = None"
        using i by (auto simp: unicode_from_utf8_def Let_def split: option.splits if_splits)
      with loop show False by blast
    qed
  qed
qed

theorem utf8_bounds_witness:
  "unicode_from_utf8 [0xe2, 0] 0 6 \<noteq> None"
  using utf8_bounds [of 0 0 "[0xe2, 0]" 6] by (simp add: terminated_def)

end
