(* ===== verification/CharRange.thy ===== *)
theory CharRange
  imports QJS_Prelude
begin

text \<open>
  Sets of code points as sorted interval bounds: the \<open>CharRange\<close> of \<open>libunicode.h\<close> and its
  operations in \<open>libunicode.c\<close>.  A range holds a block of \<open>cr_size\<close> points of which the first
  \<open>cr_len\<close> are in use; points \<open>2 i\<close> and \<open>2 i + 1\<close> bound the half-open interval number \<open>i\<close>.
  Operations return \<open>None\<close> for undefined behaviour (a signed overflow in the growth
  computation), otherwise the C return value (0, or -1 when the allocator fails) and the new
  range.  The lemmas show that they compute union, intersection, symmetric difference and
  complement of the sets and keep the canonical form.
\<close>

section \<open>The type and its operations\<close>

type_synonym cr_alloc_fun = "nat \<Rightarrow> nat \<Rightarrow> (nat \<Rightarrow> u32) option"

record charrange =
  cr_len :: nat
  cr_size :: nat
  cr_points :: "u32 list"
  cr_opaque :: nat
  cr_realloc_func :: cr_alloc_fun

datatype char_range_op = CR_OP_UNION | CR_OP_INTER | CR_OP_XOR

definition INT32_MAX :: nat where
  "INT32_MAX = 0x7fffffff"

definition UINT32_MAX :: u32 where
  "UINT32_MAX = 0xffffffff"

definition cr_init :: "cr_alloc_fun \<Rightarrow> charrange" where
  "cr_init f = \<lparr>cr_len = 0, cr_size = 0, cr_points = [], cr_opaque = 0, cr_realloc_func = f\<rparr>"

definition cr_realloc :: "charrange \<Rightarrow> nat \<Rightarrow> (int \<times> charrange) option" where
  "cr_realloc cr n =
     (if n > cr_size cr then
        if cr_size cr * 3 > INT32_MAX then None
        else
          let new_size = max n (cr_size cr * 3 div 2) in
          (case cr_realloc_func cr (cr_opaque cr) (4 * new_size) of
             None \<Rightarrow> Some (-1, cr\<lparr>cr_opaque := Suc (cr_opaque cr)\<rparr>)
           | Some g \<Rightarrow> Some (0, cr\<lparr>cr_points := cr_points cr @ map g [cr_size cr..<new_size],
                 cr_size := new_size, cr_opaque := Suc (cr_opaque cr)\<rparr>))
      else Some (0, cr))"

definition cr_copy :: "charrange \<Rightarrow> charrange \<Rightarrow> (int \<times> charrange) option" where
  "cr_copy cr cr1 = do {
     (r, cr) \<leftarrow> cr_realloc cr (cr_len cr1);
     if r \<noteq> 0 then Some (-1, cr)
     else do {
       src \<leftarrow> rd_block (cr_points cr1) 0 (cr_len cr1);
       pts \<leftarrow> wr_block (cr_points cr) 0 src;
       Some (0, cr\<lparr>cr_points := pts, cr_len := cr_len cr1\<rparr>)
     }
   }"

definition cr_add_point :: "charrange \<Rightarrow> u32 \<Rightarrow> (int \<times> charrange) option" where
  "cr_add_point cr v = do {
     (r, cr) \<leftarrow> (if cr_len cr \<ge> cr_size cr then cr_realloc cr (cr_len cr + 1) else Some (0, cr));
     if r \<noteq> 0 then Some (-1, cr)
     else do {
       pts \<leftarrow> wr (cr_points cr) (cr_len cr) v;
       Some (0, cr\<lparr>cr_points := pts, cr_len := cr_len cr + 1\<rparr>)
     }
   }"

definition cr_add_interval :: "charrange \<Rightarrow> u32 \<Rightarrow> u32 \<Rightarrow> (int \<times> charrange) option" where
  "cr_add_interval cr c1 c2 = do {
     (r, cr) \<leftarrow> (if cr_len cr + 2 > cr_size cr then cr_realloc cr (cr_len cr + 2) else Some (0, cr));
     if r \<noteq> 0 then Some (-1, cr)
     else do {
       pts \<leftarrow> wr (cr_points cr) (cr_len cr) c1;
       pts \<leftarrow> wr pts (cr_len cr + 1) c2;
       Some (0, cr\<lparr>cr_points := pts, cr_len := cr_len cr + 2\<rparr>)
     }
   }"

text \<open>The inner loop of \<open>cr_compress\<close>: extend the interval at \<open>j\<close> while the next one touches it.\<close>

function cr_compress_run :: "u32 list \<Rightarrow> nat \<Rightarrow> nat \<Rightarrow> nat" where
  "cr_compress_run pt len j =
     (if j + 3 < len \<and> pt ! (j + 1) = pt ! (j + 2) then cr_compress_run pt len (j + 2) else j)"
  by pat_completeness auto
termination
  by (relation "measure (\<lambda>(pt, len, j). len - j)") auto

declare cr_compress_run.simps [simp del]

lemma cr_compress_run_ge: "j \<le> cr_compress_run pt len j"
proof (induction pt len j rule: cr_compress_run.induct)
  case (1 pt len j)
  show ?case
  proof (cases "j + 3 < len \<and> pt ! (j + 1) = pt ! (j + 2)")
    case True
    from "1.IH" [OF True] True show ?thesis by (subst cr_compress_run.simps) simp
  next
    case False
    then show ?thesis by (subst cr_compress_run.simps) (simp only: if_False order_refl)
  qed
qed

text \<open>The outer loop works in place: it reads at \<open>i\<close> and writes at \<open>k\<close>.\<close>

function cr_compress_loop :: "u32 list \<Rightarrow> nat \<Rightarrow> nat \<Rightarrow> nat \<Rightarrow> u32 list \<times> nat" where
  "cr_compress_loop pt len i k =
     (if i + 1 < len then
        if pt ! i = pt ! (i + 1) then cr_compress_loop pt len (i + 2) k
        else
          let j = cr_compress_run pt len i;
              pt = pt[k := pt ! i];
              pt = pt[k + 1 := pt ! (j + 1)]
          in cr_compress_loop pt len (j + 2) (k + 2)
      else (pt, k))"
  by pat_completeness auto
termination
proof (relation "measure (\<lambda>(pt, len, i, k). len - i)")
  fix pt :: "u32 list" and len i k :: nat and j pt1 pt2
  assume "i + 1 < len" and "j = cr_compress_run pt len i"
  then show "((pt2, len, j + 2, k + 2), pt, len, i, k) \<in> measure (\<lambda>(pt, len, i, k). len - i)"
    using cr_compress_run_ge [of i pt len] by simp
qed auto

declare cr_compress_loop.simps [simp del]

definition cr_compress :: "charrange \<Rightarrow> charrange" where
  "cr_compress cr =
     (let (pt, k) = cr_compress_loop (cr_points cr) (cr_len cr) 0 0
      in cr\<lparr>cr_points := pt, cr_len := k\<rparr>)"

definition cr_is_in :: "char_range_op \<Rightarrow> nat \<Rightarrow> nat \<Rightarrow> bool" where
  "cr_is_in oper a_idx b_idx =
     (case oper of
        CR_OP_UNION \<Rightarrow> odd a_idx \<or> odd b_idx
      | CR_OP_INTER \<Rightarrow> odd a_idx \<and> odd b_idx
      | CR_OP_XOR \<Rightarrow> odd a_idx \<noteq> odd b_idx)"

text \<open>The merge of \<open>cr_op\<close>; the arrays are the first \<open>a_len\<close> and \<open>b_len\<close> points.
  \<open>cr_op_next\<close> takes one more point from \<open>a\<close> or \<open>b\<close> in increasing order (one from each when
  they are equal).\<close>

definition cr_op_next :: "u32 list \<Rightarrow> nat \<Rightarrow> u32 list \<Rightarrow> nat \<Rightarrow> u32 \<times> nat \<times> nat" where
  "cr_op_next a_pt a_idx b_pt b_idx =
     (if a_idx < length a_pt \<and> b_idx < length b_pt then
        if a_pt ! a_idx < b_pt ! b_idx then (a_pt ! a_idx, Suc a_idx, b_idx)
        else if a_pt ! a_idx = b_pt ! b_idx then (a_pt ! a_idx, Suc a_idx, Suc b_idx)
        else (b_pt ! b_idx, a_idx, Suc b_idx)
      else if a_idx < length a_pt then (a_pt ! a_idx, Suc a_idx, b_idx)
      else (b_pt ! b_idx, a_idx, Suc b_idx))"

function cr_op_loop ::
  "charrange \<Rightarrow> u32 list \<Rightarrow> nat \<Rightarrow> u32 list \<Rightarrow> nat \<Rightarrow> char_range_op \<Rightarrow> (int \<times> charrange) option" where
  "cr_op_loop cr a_pt a_idx b_pt b_idx oper =
     (if a_idx < length a_pt \<or> b_idx < length b_pt then
        (case cr_op_next a_pt a_idx b_pt b_idx of (v, a_idx', b_idx') \<Rightarrow>
           if cr_is_in oper a_idx' b_idx' \<noteq> odd (cr_len cr) then
             (case cr_add_point cr v of
                None \<Rightarrow> None
              | Some (r, cr) \<Rightarrow>
                  if r \<noteq> 0 then Some (-1, cr) else cr_op_loop cr a_pt a_idx' b_pt b_idx' oper)
           else cr_op_loop cr a_pt a_idx' b_pt b_idx' oper)
      else Some (0, cr_compress cr))"
  by pat_completeness auto
termination
  by (relation "measure (\<lambda>(cr, a, i, b, j, oper). (length a - i) + (length b - j))")
    (auto simp: cr_op_next_def split: if_splits)

declare cr_op_loop.simps [simp del]

definition cr_op ::
  "charrange \<Rightarrow> u32 list \<Rightarrow> u32 list \<Rightarrow> char_range_op \<Rightarrow> (int \<times> charrange) option" where
  "cr_op cr a_pt b_pt oper = cr_op_loop cr a_pt 0 b_pt 0 oper"

text \<open>The points in use.\<close>

definition cr_pts :: "charrange \<Rightarrow> u32 list" where
  "cr_pts cr = take (cr_len cr) (cr_points cr)"

definition cr_union1 :: "charrange \<Rightarrow> u32 list \<Rightarrow> (int \<times> charrange) option" where
  "cr_union1 cr b_pt =
     cr_op (cr\<lparr>cr_len := 0, cr_size := 0, cr_points := []\<rparr>) (cr_pts cr) b_pt CR_OP_UNION"

definition cr_union_interval :: "charrange \<Rightarrow> u32 \<Rightarrow> u32 \<Rightarrow> (int \<times> charrange) option" where
  "cr_union_interval cr c1 c2 = cr_union1 cr [c1, c2 + 1]"

definition cr_invert :: "charrange \<Rightarrow> (int \<times> charrange) option" where
  "cr_invert cr =
     (let len = cr_len cr in do {
        (r, cr) \<leftarrow> cr_realloc cr (len + 2);
        if r \<noteq> 0 then Some (-1, cr)
        else do {
          d \<leftarrow> rd_block (cr_points cr) 0 len;
          pts \<leftarrow> wr_block (cr_points cr) 1 d;
          pts \<leftarrow> wr pts 0 0;
          pts \<leftarrow> wr pts (len + 1) UINT32_MAX;
          Some (0, cr_compress (cr\<lparr>cr_points := pts, cr_len := len + 2\<rparr>))
        }
      })"

section \<open>Sets of code points\<close>

fun cr_set :: "u32 list \<Rightarrow> u32 set" where
  "cr_set (a # b # r) = {a..<b} \<union> cr_set r"
| "cr_set _ = {}"

text \<open>Membership by parity: the number of points at or below \<open>c\<close> is odd.\<close>

definition par :: "u32 list \<Rightarrow> u32 \<Rightarrow> bool" where
  "par pts c = odd (length (filter (\<lambda>p. p \<le> c) pts))"

definition cr_ok :: "charrange \<Rightarrow> bool" where
  "cr_ok cr \<longleftrightarrow> length (cr_points cr) = cr_size cr \<and> cr_len cr \<le> cr_size cr"

lemma par_Nil [simp]: "\<not> par [] c"
  by (simp add: par_def)

lemma par_snoc [simp]: "par (xs @ [v]) c = (if v \<le> c then \<not> par xs c else par xs c)"
  by (simp add: par_def)

lemma par_Cons: "par (v # xs) c = (if v \<le> c then \<not> par xs c else par xs c)"
  by (simp add: par_def)

lemma par_all_le: "(\<And>p. p \<in> set xs \<Longrightarrow> p \<le> c) \<Longrightarrow> par xs c = odd (length xs)"
  by (simp add: par_def filter_True)

lemma par_none_le: "(\<And>p. p \<in> set xs \<Longrightarrow> c < p) \<Longrightarrow> \<not> par xs c"
  by (simp add: par_def) (metis even_zero filter_False length_0_conv list.size(3) not_less)

lemma cr_set_par:
  assumes "sorted pts" and "even (length pts)"
  shows "c \<in> cr_set pts \<longleftrightarrow> par pts c"
  using assms
proof (induction pts rule: cr_set.induct)
  case (1 a b r)
  have r: "sorted r" "even (length r)" and ab: "a \<le> b" and br: "\<forall>p \<in> set r. b \<le> p"
    using "1.prems" by auto
  show ?case
  proof (cases "c < b")
    case True
    then have "\<not> par r c" using br by (intro par_none_le) auto
    with 1 r True ab show ?thesis by (auto simp: par_Cons)
  next
    case False
    then have "b \<le> c" and "a \<le> c" using ab by auto
    then show ?thesis using 1 r by (auto simp: par_Cons)
  qed
qed auto

section \<open>Allocation\<close>

lemma length_cr_pts [simp]: "cr_ok cr \<Longrightarrow> length (cr_pts cr) = cr_len cr"
  by (simp add: cr_ok_def cr_pts_def)

lemma cr_init_ok [simp]: "cr_ok (cr_init f)" "cr_pts (cr_init f) = []"
  by (simp_all add: cr_init_def cr_ok_def cr_pts_def)

text \<open>\<open>cr_fits T\<close>: a well-formed range whose block stays below the size at which the growth
  computation \<open>size * 3 / 2\<close> overflows, as long as at most \<open>T\<close> points are stored.\<close>

definition CR_POINTS_MAX :: nat where
  "CR_POINTS_MAX = 0x20000000"

definition cr_fits :: "nat \<Rightarrow> charrange \<Rightarrow> bool" where
  "cr_fits T cr \<longleftrightarrow> cr_ok cr \<and> cr_size cr \<le> 2 * T \<and> T \<le> CR_POINTS_MAX"

lemma cr_fits_ok: "cr_fits T cr \<Longrightarrow> cr_ok cr"
  by (simp add: cr_fits_def)

lemma cr_realloc_spec:
  assumes "cr_fits T cr" and "n \<le> T"
  shows "\<exists>r cr'. cr_realloc cr n = Some (r, cr') \<and> cr_fits T cr' \<and> cr_pts cr' = cr_pts cr \<and>
    cr_len cr' = cr_len cr \<and> (r = 0 \<and> n \<le> cr_size cr' \<or> r = -1)"
  using assms
  by (auto simp: cr_realloc_def cr_fits_def cr_ok_def cr_pts_def Let_def INT32_MAX_def
      CR_POINTS_MAX_def split: if_splits option.splits)

lemma cr_add_point_spec:
  assumes "cr_fits T cr" and "cr_len cr < T"
  shows "\<exists>r cr'. cr_add_point cr v = Some (r, cr') \<and> cr_fits T cr' \<and>
    (r = 0 \<and> cr_pts cr' = cr_pts cr @ [v] \<or> r = -1 \<and> cr_pts cr' = cr_pts cr)"
proof -
  obtain r1 cr1 where g: "(if cr_len cr \<ge> cr_size cr then cr_realloc cr (cr_len cr + 1)
      else Some (0, cr)) = Some (r1, cr1)" and c1: "cr_fits T cr1" "cr_pts cr1 = cr_pts cr"
      "cr_len cr1 = cr_len cr" "r1 = 0 \<and> cr_len cr + 1 \<le> cr_size cr1 \<or> r1 = -1"
    using cr_realloc_spec [OF assms(1), of "cr_len cr + 1"] assms
    by (cases "cr_len cr \<ge> cr_size cr") auto
  show ?thesis
  proof (cases "r1 = 0")
    case True
    then have lt: "cr_len cr1 < length (cr_points cr1)"
      using c1 by (simp add: cr_fits_def cr_ok_def)
    let ?cr = "cr1\<lparr>cr_points := (cr_points cr1)[cr_len cr1 := v], cr_len := cr_len cr1 + 1\<rparr>"
    have "cr_pts ?cr = cr_pts cr1 @ [v]"
      using lt by (simp add: cr_pts_def take_Suc_conv_app_nth)
    moreover have "cr_fits T ?cr" using c1 lt by (simp add: cr_fits_def cr_ok_def)
    ultimately show ?thesis using g c1 True lt by (simp add: cr_add_point_def)
  next
    case False
    with g c1 show ?thesis by (simp add: cr_add_point_def)
  qed
qed

lemma cr_add_interval_spec:
  assumes "cr_fits T cr" and "cr_len cr + 2 \<le> T"
  shows "\<exists>r cr'. cr_add_interval cr c1 c2 = Some (r, cr') \<and> cr_fits T cr' \<and>
    (r = 0 \<and> cr_pts cr' = cr_pts cr @ [c1, c2] \<or> r = -1 \<and> cr_pts cr' = cr_pts cr)"
proof -
  obtain r1 cr1 where g: "(if cr_len cr + 2 > cr_size cr then cr_realloc cr (cr_len cr + 2)
      else Some (0, cr)) = Some (r1, cr1)" and c1: "cr_fits T cr1" "cr_pts cr1 = cr_pts cr"
      "cr_len cr1 = cr_len cr" "r1 = 0 \<and> cr_len cr + 2 \<le> cr_size cr1 \<or> r1 = -1"
    using cr_realloc_spec [OF assms(1), of "cr_len cr + 2"] assms
    by (cases "cr_len cr + 2 > cr_size cr") auto
  show ?thesis
  proof (cases "r1 = 0")
    case True
    then have lt: "Suc (cr_len cr1) < length (cr_points cr1)"
      using c1 by (simp add: cr_fits_def cr_ok_def)
    let ?p = "((cr_points cr1)[cr_len cr1 := c1])[cr_len cr1 + 1 := c2]"
    let ?cr = "cr1\<lparr>cr_points := ?p, cr_len := cr_len cr1 + 2\<rparr>"
    have "cr_pts ?cr = cr_pts cr1 @ [c1, c2]"
      using lt by (simp add: cr_pts_def take_Suc_conv_app_nth)
    moreover have "cr_fits T ?cr" using c1 lt by (simp add: cr_fits_def cr_ok_def)
    ultimately show ?thesis using g c1 True lt by (simp add: cr_add_interval_def)
  next
    case False
    with g c1 show ?thesis by (simp add: cr_add_interval_def)
  qed
qed

section \<open>Compression\<close>

text \<open>The list function that the in-place loop computes.\<close>

fun run_ref :: "u32 \<Rightarrow> u32 list \<Rightarrow> u32 \<times> u32 list" where
  "run_ref b (c # d # r) = (if b = c then run_ref d r else (b, c # d # r))"
| "run_ref b r = (b, r)"

lemma run_ref_length: "length (snd (run_ref b r)) \<le> length r"
  by (induction b r rule: run_ref.induct) auto

lemma run_ref_short: "length r \<le> 1 \<Longrightarrow> run_ref b r = (b, r)"
  by (cases r; cases "tl r") auto

function compress_ref :: "u32 list \<Rightarrow> u32 list" where
  "compress_ref (a # b # r) =
     (if a = b then compress_ref r
      else a # fst (run_ref b r) # compress_ref (snd (run_ref b r)))"
| "compress_ref [a] = []"
| "compress_ref [] = []"
  by pat_completeness auto
termination
  by (relation "measure length") (auto simp: run_ref_length le_imp_less_Suc less_Suc_eq_le le_SucI)

lemma compress_ref_length: "length (compress_ref xs) \<le> length xs"
proof (induction xs rule: compress_ref.induct)
  case (1 a b r)
  then show ?case using run_ref_length [of b r] by (cases "a = b") auto
qed simp_all

lemma cr_compress_run_ref:
  assumes "i + 1 < len" and "len \<le> length pt"
  shows "cr_compress_run pt len i + 1 < len \<and>
    run_ref (pt ! (i + 1)) (drop (i + 2) (take len pt)) =
      (pt ! (cr_compress_run pt len i + 1), drop (cr_compress_run pt len i + 2) (take len pt))"
  using assms
proof (induction pt len i rule: cr_compress_run.induct)
  case (1 pt len i)
  let ?t = "take len pt"
  have lt: "length ?t = len" using "1.prems" by simp
  show ?case
  proof (cases "i + 3 < len")
    case True
    have d: "drop (i + 2) ?t = pt ! (i + 2) # pt ! (i + 3) # drop (i + 4) ?t"
      using True lt by (simp add: Cons_nth_drop_Suc [symmetric] numeral_eq_Suc)
    show ?thesis
    proof (cases "pt ! (i + 1) = pt ! (i + 2)")
      case eq: True
      have c: "i + 3 < len \<and> pt ! (i + 1) = pt ! (i + 2)" using True eq by simp
      have n: "i + 2 + 1 = i + 3" "i + 2 + 2 = i + 4" by simp_all
      from "1.IH" [OF c] True "1.prems" show ?thesis
        by (subst (1 2 3) cr_compress_run.simps) (simp only: c if_True d run_ref.simps n simp_thms)
    next
      case False
      then show ?thesis using d "1.prems"
        by (subst (1 2 3) cr_compress_run.simps) simp
    qed
  next
    case False
    then have "length (drop (i + 2) ?t) \<le> 1" using lt by simp
    then have "run_ref (pt ! (i + 1)) (drop (i + 2) ?t) = (pt ! (i + 1), drop (i + 2) ?t)"
      by (rule run_ref_short)
    with False "1.prems" show ?thesis by (subst (1 2 3) cr_compress_run.simps) simp
  qed
qed

lemma cr_compress_loop_ref:
  assumes "len \<le> length pt" and "k \<le> i"
  shows "length (fst (cr_compress_loop pt len i k)) = length pt \<and>
    snd (cr_compress_loop pt len i k) = k + length (compress_ref (drop i (take len pt))) \<and>
    take (snd (cr_compress_loop pt len i k)) (fst (cr_compress_loop pt len i k)) =
      take k pt @ compress_ref (drop i (take len pt)) \<and>
    snd (cr_compress_loop pt len i k) \<le> max k len"
  using assms
proof (induction pt len i k rule: cr_compress_loop.induct)
  case (1 pt len i k)
  let ?t = "take len pt"
  have lt: "length ?t = len" using "1.prems" by simp
  show ?case
  proof (cases "i + 1 < len")
    case c: True
    then have d: "drop i ?t = pt ! i # pt ! (i + 1) # drop (i + 2) ?t"
      using lt by (simp add: Cons_nth_drop_Suc [symmetric] numeral_eq_Suc)
    show ?thesis
    proof (cases "pt ! i = pt ! (i + 1)")
      case True
      then have st: "cr_compress_loop pt len i k = cr_compress_loop pt len (i + 2) k"
        using c by (subst cr_compress_loop.simps) simp
      have cr: "compress_ref (drop i ?t) = compress_ref (drop (i + 2) ?t)"
        by (simp add: d True)
      show ?thesis
        unfolding st cr using "1.prems" by (intro "1.IH"(1) [OF c True]) auto
    next
      case False
      let ?j = "cr_compress_run pt len i"
      let ?p1 = "pt[k := pt ! i]"
      let ?p = "?p1[k + 1 := ?p1 ! (?j + 1)]"
      have j: "i \<le> ?j" "?j + 1 < len"
        and rr: "run_ref (pt ! (i + 1)) (drop (i + 2) ?t) = (pt ! (?j + 1), drop (?j + 2) ?t)"
        using cr_compress_run_ref [OF c] "1.prems" cr_compress_run_ge by auto
      have st: "cr_compress_loop pt len i k = cr_compress_loop ?p len (?j + 2) (k + 2)"
        using c False by (subst cr_compress_loop.simps) (simp add: Let_def)
      have rd1: "?p1 ! (?j + 1) = pt ! (?j + 1)" using j "1.prems" by simp
      have dp: "drop (?j + 2) (take len ?p) = drop (?j + 2) ?t"
        using j "1.prems" by (simp add: take_update_swap)
      have tp: "take (k + 2) ?p = take k pt @ [pt ! i, pt ! (?j + 1)]"
        using j "1.prems" by (simp add: rd1 take_Suc_conv_app_nth)
      have cr: "compress_ref (drop i ?t) = pt ! i # pt ! (?j + 1) # compress_ref (drop (?j + 2) ?t)"
        using False rr by (simp add: d)
      from "1.IH"(2) [OF c False refl refl refl] "1.prems" j
      show ?thesis unfolding st cr dp tp by auto
    qed
  next
    case False
    then have "length (drop i ?t) \<le> 1" using lt by simp
    then have "compress_ref (drop i ?t) = []"
      by (cases "drop i ?t" rule: compress_ref.cases) auto
    with False show ?thesis by (subst (1 2 3 4 5) cr_compress_loop.simps) simp
  qed
qed

lemma run_ref_set:
  assumes "sorted (a # b # r)"
  shows "{a..<fst (run_ref b r)} \<union> cr_set (snd (run_ref b r)) = {a..<b} \<union> cr_set r \<and>
    b \<le> fst (run_ref b r) \<and> sorted (fst (run_ref b r) # snd (run_ref b r)) \<and>
    (even (length r) \<longrightarrow> even (length (snd (run_ref b r)))) \<and>
    (\<forall>x xs. snd (run_ref b r) = x # xs \<longrightarrow> even (length r) \<longrightarrow> fst (run_ref b r) \<noteq> x)"
  using assms
proof (induction b r rule: run_ref.induct)
  case (1 b c d r)
  show ?case
  proof (cases "b = c")
    case True
    then have "{a..<d} = {a..<b} \<union> {c..<d}" using "1.prems" by (auto simp: ivl_disj_un)
    with 1 True show ?thesis by auto
  next
    case False
    with 1 show ?thesis by auto
  qed
qed auto

text \<open>Canonical form: strictly increasing bounds, an even number of them.\<close>

definition canonical :: "u32 list \<Rightarrow> bool" where
  "canonical pts \<longleftrightarrow> sorted_wrt (<) pts \<and> even (length pts)"

lemma compress_ref_head:
  "sorted xs \<Longrightarrow> even (length xs) \<Longrightarrow> p \<in> set (compress_ref xs) \<Longrightarrow> xs \<noteq> [] \<and> hd xs \<le> p"
proof (induction xs rule: compress_ref.induct)
  case (1 a b r)
  show ?case
  proof (cases "a = b")
    case True
    with 1 show ?thesis by (cases r) auto
  next
    case False
    have R: "b \<le> fst (run_ref b r)" "sorted (fst (run_ref b r) # snd (run_ref b r))"
      "even (length (snd (run_ref b r)))"
      using run_ref_set [of a b r] "1.prems" by auto
    have "p = a \<or> p = fst (run_ref b r) \<or> p \<in> set (compress_ref (snd (run_ref b r)))"
      using "1.prems"(3) False by auto
    moreover have "fst (run_ref b r) \<le> p" if "p \<in> set (compress_ref (snd (run_ref b r)))"
    proof -
      from "1.IH"(2) [OF False _ R(3) that] R(2)
      have "snd (run_ref b r) \<noteq> []" "hd (snd (run_ref b r)) \<le> p" by auto
      with R(2) show ?thesis by (cases "snd (run_ref b r)") auto
    qed
    ultimately show ?thesis using R(1) "1.prems"(1) by auto
  qed
qed auto

lemma compress_ref_canonical:
  assumes "sorted xs" and "even (length xs)"
  shows "cr_set (compress_ref xs) = cr_set xs \<and> canonical (compress_ref xs)"
  using assms
proof (induction xs rule: compress_ref.induct)
  case (1 a b r)
  show ?case
  proof (cases "a = b")
    case True
    with 1 show ?thesis by simp
  next
    case False
    let ?e = "fst (run_ref b r)" and ?s = "snd (run_ref b r)"
    have R: "{a..<?e} \<union> cr_set ?s = {a..<b} \<union> cr_set r" "b \<le> ?e" "sorted (?e # ?s)" "even (length ?s)"
      and ne: "\<And>x xs. ?s = x # xs \<Longrightarrow> ?e \<noteq> x"
      using run_ref_set [of a b r] "1.prems" by auto
    have IH: "cr_set (compress_ref ?s) = cr_set ?s" "canonical (compress_ref ?s)"
      using "1.IH"(2) [OF False] R by auto
    have ae: "a < ?e" using False "1.prems" R(2) by auto
    have "?e < p" if "p \<in> set (compress_ref ?s)" for p
    proof -
      have s: "?s \<noteq> []" "hd ?s \<le> p" using compress_ref_head [OF _ _ that] R by auto
      then have "?e < hd ?s" using R(3) ne by (cases ?s) (auto simp: order_less_le)
      with s show ?thesis by simp
    qed
    with ae IH R(1) show ?thesis
      using False by (fastforce simp: canonical_def)
  qed
qed (auto simp: canonical_def)

lemma cr_compress_spec:
  assumes "cr_fits T cr"
  shows "cr_fits T (cr_compress cr) \<and> cr_pts (cr_compress cr) = compress_ref (cr_pts cr)"
proof -
  have "cr_len cr \<le> length (cr_points cr)" using assms by (simp add: cr_fits_def cr_ok_def)
  from cr_compress_loop_ref [OF this order_refl, of 0] assms show ?thesis
    by (auto simp: cr_compress_def cr_pts_def cr_fits_def cr_ok_def split: prod.splits)
qed

section \<open>The set operations\<close>

definition cr_fun :: "char_range_op \<Rightarrow> bool \<Rightarrow> bool \<Rightarrow> bool" where
  "cr_fun oper x y =
     (case oper of CR_OP_UNION \<Rightarrow> x \<or> y | CR_OP_INTER \<Rightarrow> x \<and> y | CR_OP_XOR \<Rightarrow> x \<noteq> y)"

lemma cr_is_in_fun: "cr_is_in oper i j = cr_fun oper (odd i) (odd j)"
  by (simp add: cr_is_in_def cr_fun_def split: char_range_op.split)

lemma cr_fun_False [simp]: "\<not> cr_fun oper False False"
  by (simp add: cr_fun_def split: char_range_op.split)

text \<open>The invariant of the merge: the output so far is the operation applied to the points
  consumed so far, and no point consumed is above one still to come.\<close>

definition op_inv :: "char_range_op \<Rightarrow> u32 list \<Rightarrow> nat \<Rightarrow> u32 list \<Rightarrow> nat \<Rightarrow> u32 list \<Rightarrow> bool" where
  "op_inv oper a i b j out \<longleftrightarrow>
     i \<le> length a \<and> j \<le> length b \<and> sorted a \<and> sorted b \<and> sorted out \<and> length out \<le> i + j \<and>
     (\<forall>p \<in> set out \<union> set (take i a) \<union> set (take j b). \<forall>q \<in> set (drop i a) \<union> set (drop j b). p \<le> q) \<and>
     (\<forall>c. par out c = cr_fun oper (par (take i a) c) (par (take j b) c)) \<and>
     odd (length out) = cr_fun oper (odd i) (odd j)"

lemma op_inv_init: "sorted a \<Longrightarrow> sorted b \<Longrightarrow> op_inv oper a 0 b 0 []"
  by (simp add: op_inv_def)

lemma sorted_split:
  assumes "sorted xs" and "i < length xs"
  shows "take (Suc i) xs = take i xs @ [xs ! i]" and "drop i xs = xs ! i # drop (Suc i) xs"
    and "\<forall>p \<in> set (take i xs). p \<le> xs ! i" and "\<forall>q \<in> set (drop (Suc i) xs). xs ! i \<le> q"
proof -
  show "take (Suc i) xs = take i xs @ [xs ! i]" and d: "drop i xs = xs ! i # drop (Suc i) xs"
    using assms(2) by (simp_all add: take_Suc_conv_app_nth Cons_nth_drop_Suc)
  have "sorted (take i xs @ drop i xs)" using assms(1) by simp
  then show "\<forall>p \<in> set (take i xs). p \<le> xs ! i" "\<forall>q \<in> set (drop (Suc i) xs). xs ! i \<le> q"
    unfolding sorted_append d by auto
qed

lemma cr_op_next_cases:
  assumes "i < length a \<or> j < length b" and "cr_op_next a i b j = (v, i', j')"
  obtains (A) "i < length a" "v = a ! i" "i' = Suc i" "j' = j" "j < length b \<Longrightarrow> a ! i \<le> b ! j"
    | (AB) "i < length a" "j < length b" "v = a ! i" "b ! j = a ! i" "i' = Suc i" "j' = Suc j"
    | (B) "j < length b" "v = b ! j" "i' = i" "j' = Suc j" "i < length a \<Longrightarrow> b ! j \<le> a ! i"
proof -
  consider "i < length a" "j < length b" | "i < length a" "\<not> j < length b" | "\<not> i < length a" "j < length b"
    using assms(1) by blast
  then show thesis
  proof cases
    case 1
    show thesis
    proof (cases "a ! i" "b ! j" rule: linorder_cases)
      case less
      with 1 assms(2) have "v = a ! i \<and> i' = Suc i \<and> j' = j" by (simp add: cr_op_next_def)
      with 1 less show thesis by (intro A) auto
    next
      case equal
      with 1 assms(2) have "v = a ! i \<and> i' = Suc i \<and> j' = Suc j" by (simp add: cr_op_next_def)
      with 1 equal show thesis by (intro AB) auto
    next
      case greater
      with 1 assms(2) have "v = b ! j \<and> i' = i \<and> j' = Suc j"
        by (auto simp: cr_op_next_def split: if_splits)
      with 1 greater show thesis by (intro B) auto
    qed
  next
    case 2
    with assms(2) have "v = a ! i \<and> i' = Suc i \<and> j' = j" by (simp add: cr_op_next_def)
    with 2 show thesis by (intro A) auto
  next
    case 3
    with assms(2) have "v = b ! j \<and> i' = i \<and> j' = Suc j" by (simp add: cr_op_next_def)
    with 3 show thesis by (intro B) auto
  qed
qed

lemma cr_op_next_props:
  assumes inv: "op_inv oper a i b j out" and more: "i < length a \<or> j < length b"
    and nx: "cr_op_next a i b j = (v, i', j')"
  shows "\<exists>x y. take i' a = take i a @ x \<and> take j' b = take j b @ y \<and> x \<in> {[], [v]} \<and> y \<in> {[], [v]} \<and>
      i' \<le> length a \<and> j' \<le> length b \<and> i + j < i' + j'"
    and "\<forall>p \<in> set out \<union> set (take i a) \<union> set (take j b). p \<le> v"
    and "\<forall>q \<in> set (drop i' a) \<union> set (drop j' b). v \<le> q"
proof -
  have le: "\<And>p q. p \<in> set out \<union> set (take i a) \<union> set (take j b) \<Longrightarrow>
      q \<in> set (drop i a) \<union> set (drop j b) \<Longrightarrow> p \<le> q"
    and so: "sorted a" "sorted b" and b: "i \<le> length a" "j \<le> length b"
    using inv by (auto simp: op_inv_def)
  note sa = sorted_split [OF so(1), of i] and sb = sorted_split [OF so(2), of j]
  show "\<exists>x y. take i' a = take i a @ x \<and> take j' b = take j b @ y \<and> x \<in> {[], [v]} \<and> y \<in> {[], [v]} \<and>
      i' \<le> length a \<and> j' \<le> length b \<and> i + j < i' + j'"
    using more nx
  proof (cases rule: cr_op_next_cases)
    case A
    then show ?thesis using sa b by (intro exI [of _ "[v]"] exI [of _ "[]"]) simp
  next
    case AB
    then show ?thesis using sa sb b by (intro exI [of _ "[v]"]) simp
  next
    case B
    then show ?thesis using sb b by (intro exI [of _ "[]"] exI [of _ "[v]"]) simp
  qed
  have "v \<in> set (drop i a) \<union> set (drop j b)"
    using more nx by (cases rule: cr_op_next_cases) (simp_all add: sa(2) sb(2))
  then show "\<forall>p \<in> set out \<union> set (take i a) \<union> set (take j b). p \<le> v" using le by blast
  show "\<forall>q \<in> set (drop i' a) \<union> set (drop j' b). v \<le> q"
    using more nx
  proof (cases rule: cr_op_next_cases)
    case A
    have "\<forall>q \<in> set (drop j b). a ! i \<le> q"
      using A(5) sb(2,4) by (cases "j < length b") auto
    then show ?thesis using A sa(4) by auto
  next
    case AB
    then show ?thesis using sa(4) sb(4) by auto
  next
    case B
    have "\<forall>q \<in> set (drop i a). b ! j \<le> q"
      using B(5) sa(2,4) by (cases "i < length a") auto
    then show ?thesis using B sb(4) by auto
  qed
qed

lemma op_inv_step:
  assumes inv: "op_inv oper a i b j out" and more: "i < length a \<or> j < length b"
    and nx: "cr_op_next a i b j = (v, i', j')"
  defines "out' \<equiv> (if cr_is_in oper i' j' \<noteq> odd (length out) then out @ [v] else out)"
  shows "op_inv oper a i' b j' out'"
proof -
  obtain x y where x: "take i' a = take i a @ x" "x \<in> {[], [v]}" "i' \<le> length a"
    and y: "take j' b = take j b @ y" "y \<in> {[], [v]}" "j' \<le> length b"
    and lt: "i + j < i' + j'"
    using cr_op_next_props(1) [OF inv more nx] by blast
  note lo = cr_op_next_props(2) [OF inv more nx] and hi = cr_op_next_props(3) [OF inv more nx]
  have I: "sorted a" "sorted b" "sorted out" "length out \<le> i + j"
    "\<And>c. par out c = cr_fun oper (par (take i a) c) (par (take j b) c)"
    using inv by (auto simp: op_inv_def)
  have out': "out' = out \<or> out' = out @ [v]" by (simp add: out'_def)
  have le_v: "p \<le> v" if "p \<in> set out' \<union> set (take i' a) \<union> set (take j' b)" for p
    using that lo out' x(1,2) y(1,2) by auto
  have odd': "odd (length out') = cr_fun oper (odd i') (odd j')"
    by (auto simp: out'_def cr_is_in_fun)
  have "par out' c = cr_fun oper (par (take i' a) c) (par (take j' b) c)" for c
  proof (cases "v \<le> c")
    case True
    have "p \<le> c" if "p \<in> set out' \<union> set (take i' a) \<union> set (take j' b)" for p
      using le_v [OF that] True by (rule order_trans)
    then have "par out' c = odd (length out') \<and> par (take i' a) c = odd (length (take i' a)) \<and>
        par (take j' b) c = odd (length (take j' b))"
      by (intro conjI par_all_le) blast+
    then show ?thesis using odd' x(3) y(3) by (simp add: min_def)
  next
    case False
    then have "par out' c = par out c" "par (take i' a) c = par (take i a) c"
      "par (take j' b) c = par (take j b) c"
      using out' x(1,2) y(1,2) by auto
    then show ?thesis using I(5) by simp
  qed
  moreover have "\<forall>p \<in> set out' \<union> set (take i' a) \<union> set (take j' b).
      \<forall>q \<in> set (drop i' a) \<union> set (drop j' b). p \<le> q"
    using le_v hi order_trans by blast
  moreover have "sorted out'" "length out' \<le> i' + j'"
    using I lo out' lt by (auto simp: sorted_append)
  ultimately show ?thesis
    using I x(3) y(3) odd' by (simp add: op_inv_def)
qed

lemma cr_op_loop_spec:
  assumes "cr_fits T cr" and "op_inv oper a i b j (cr_pts cr)" and "length a + length b \<le> T"
  shows "\<exists>r cr'. cr_op_loop cr a i b j oper = Some (r, cr') \<and> cr_fits T cr' \<and>
    (r = 0 \<and> (\<exists>out. op_inv oper a (length a) b (length b) out \<and> cr_pts cr' = compress_ref out) \<or> r = -1)"
  using assms
proof (induction cr a i b j oper rule: cr_op_loop.induct)
  case (1 cr a i b j oper)
  show ?case
  proof (cases "i < length a \<or> j < length b")
    case more: True
    obtain v i' j' where nx: "cr_op_next a i b j = (v, i', j')" by (cases "cr_op_next a i b j") auto
    note step = op_inv_step [OF "1.prems"(2) more nx]
    have len: "length (cr_pts cr) = cr_len cr" using "1.prems"(1) by (simp add: cr_fits_def)
    show ?thesis
    proof (cases "cr_is_in oper i' j' \<noteq> odd (cr_len cr)")
      case add: True
      have "length (cr_pts cr) < T"
      proof -
        have "length (cr_pts cr) \<le> i + j" "i \<le> length a" "j \<le> length b"
          using "1.prems"(2) by (auto simp: op_inv_def)
        with more "1.prems"(3) show ?thesis by linarith
      qed
      then obtain r cr1 where ap: "cr_add_point cr v = Some (r, cr1)" "cr_fits T cr1"
        and c: "r = 0 \<and> cr_pts cr1 = cr_pts cr @ [v] \<or> r = -1 \<and> cr_pts cr1 = cr_pts cr"
        using cr_add_point_spec [OF "1.prems"(1), of v] len by auto
      show ?thesis
      proof (cases "r = 0")
        case True
        with step add len c have "op_inv oper a i' b j' (cr_pts cr1)" by simp
        with "1.IH"(1) [OF more nx [symmetric] refl add ap(1) refl] True ap "1.prems"(3) more nx add
        show ?thesis by (subst cr_op_loop.simps) simp
      next
        case False
        with ap more nx add c show ?thesis by (subst cr_op_loop.simps) auto
      qed
    next
      case False
      with step len have "op_inv oper a i' b j' (cr_pts cr)" by simp
      with "1.IH"(2) [OF more nx [symmetric] refl False] "1.prems" more nx False
      show ?thesis by (subst cr_op_loop.simps) simp
    qed
  next
    case False
    then have "i = length a" "j = length b" using "1.prems"(2) by (auto simp: op_inv_def)
    with False "1.prems" cr_compress_spec [OF "1.prems"(1)] show ?thesis
      by (subst cr_op_loop.simps) auto
  qed
qed

lemma cr_op_spec:
  assumes "cr_fits T cr" and "cr_len cr = 0" and "sorted a" and "even (length a)"
    and "sorted b" and "even (length b)" and "length a + length b \<le> T"
  shows "\<exists>r cr'. cr_op cr a b oper = Some (r, cr') \<and> cr_fits T cr' \<and>
    (r = -1 \<or> r = 0 \<and> canonical (cr_pts cr') \<and> length (cr_pts cr') \<le> length a + length b \<and>
      (\<forall>c. c \<in> cr_set (cr_pts cr') \<longleftrightarrow> cr_fun oper (c \<in> cr_set a) (c \<in> cr_set b)))"
proof -
  have "cr_pts cr = []" using assms(2) by (simp add: cr_pts_def)
  then have "op_inv oper a 0 b 0 (cr_pts cr)" using assms by (simp add: op_inv_init)
  from cr_op_loop_spec [OF assms(1) this assms(7)] obtain r cr' where
    res: "cr_op_loop cr a 0 b 0 oper = Some (r, cr')" "cr_fits T cr'"
    and c: "r = 0 \<and> (\<exists>out. op_inv oper a (length a) b (length b) out \<and> cr_pts cr' = compress_ref out) \<or> r = -1"
    by blast
  show ?thesis
  proof (cases "r = -1")
    case True
    with res show ?thesis by (simp add: cr_op_def)
  next
    case False
    with c obtain out where r: "r = 0" and inv: "op_inv oper a (length a) b (length b) out"
      and p: "cr_pts cr' = compress_ref out" by auto
    have o: "sorted out" "even (length out)" "\<And>x. par out x = cr_fun oper (par a x) (par b x)"
      using inv assms(4,6) by (auto simp: op_inv_def)
    have "x \<in> cr_set (cr_pts cr') \<longleftrightarrow> cr_fun oper (x \<in> cr_set a) (x \<in> cr_set b)" for x
      using compress_ref_canonical [OF o(1,2)] o assms by (simp add: p cr_set_par)
    moreover have "length (cr_pts cr') \<le> length a + length b"
      using inv compress_ref_length [of out] by (simp add: p op_inv_def)
    ultimately show ?thesis using res r p compress_ref_canonical [OF o(1,2)] by (simp add: cr_op_def)
  qed
qed

lemma canonical_sorted: "canonical pts \<Longrightarrow> sorted pts" "canonical pts \<Longrightarrow> even (length pts)"
  by (auto simp: canonical_def strict_sorted_imp_sorted)

lemma cr_union1_spec:
  assumes "cr_fits T cr" and "sorted (cr_pts cr)" and "even (cr_len cr)"
    and "sorted b" and "even (length b)" and "cr_len cr + length b \<le> T"
  shows "\<exists>r cr'. cr_union1 cr b = Some (r, cr') \<and> cr_fits T cr' \<and>
    (r = -1 \<or> r = 0 \<and> canonical (cr_pts cr') \<and> cr_set (cr_pts cr') = cr_set (cr_pts cr) \<union> cr_set b)"
proof -
  let ?cr = "cr\<lparr>cr_len := 0, cr_size := 0, cr_points := []\<rparr>"
  have f: "cr_fits T ?cr" using assms(1) by (simp add: cr_fits_def cr_ok_def)
  have l: "length (cr_pts cr) = cr_len cr" using assms(1) by (simp add: cr_fits_def)
  from cr_op_spec [OF f _ assms(2) _ assms(4,5), of CR_OP_UNION] assms l show ?thesis
    by (auto simp: cr_union1_def cr_fun_def)
qed

lemma cr_union_interval_spec:
  assumes "cr_fits T cr" and "sorted (cr_pts cr)" and "even (cr_len cr)"
    and "c1 \<le> c2" and "c2 < UINT32_MAX" and "cr_len cr + 2 \<le> T"
  shows "\<exists>r cr'. cr_union_interval cr c1 c2 = Some (r, cr') \<and> cr_fits T cr' \<and>
    (r = -1 \<or> r = 0 \<and> canonical (cr_pts cr') \<and> cr_set (cr_pts cr') = cr_set (cr_pts cr) \<union> {c1..c2})"
proof -
  have "unat (c2 + 1) = unat c2 + 1"
    using assms(5) by (intro unat_succ_u32) (simp add: UINT32_MAX_def)
  then have "c1 \<le> c2 + 1" and "{c1..<c2 + 1} = {c1..c2}"
    using assms(4) by (auto simp: word_le_nat_alt word_less_nat_alt)
  with cr_union1_spec [OF assms(1-3), of "[c1, c2 + 1]"] assms(6) show ?thesis
    by (simp add: cr_union_interval_def)
qed

lemma cr_invert_spec:
  assumes "cr_fits T cr" and "sorted (cr_pts cr)" and "even (cr_len cr)" and "cr_len cr + 2 \<le> T"
  shows "\<exists>r cr'. cr_invert cr = Some (r, cr') \<and> cr_fits T cr' \<and>
    (r = -1 \<or> r = 0 \<and> canonical (cr_pts cr') \<and> length (cr_pts cr') \<le> cr_len cr + 2 \<and>
      cr_set (cr_pts cr') = {c. c \<noteq> UINT32_MAX \<and> c \<notin> cr_set (cr_pts cr)})"
proof -
  let ?n = "cr_len cr" and ?o = "cr_pts cr"
  obtain r cr1 where g: "cr_realloc cr (?n + 2) = Some (r, cr1)" and f: "cr_fits T cr1"
    and p: "cr_pts cr1 = ?o" "cr_len cr1 = ?n" and c: "r = 0 \<and> ?n + 2 \<le> cr_size cr1 \<or> r = -1"
    using cr_realloc_spec [OF assms(1,4)] by blast
  show ?thesis
  proof (cases "r = 0")
    case True
    let ?b = "cr_points cr1"
    have lb: "?n + 2 \<le> length ?b" using True c f by (simp add: cr_fits_def cr_ok_def)
    have o: "take ?n ?b = ?o" "length ?o = ?n" using p assms(1) by (auto simp: cr_pts_def cr_fits_def cr_ok_def)
    let ?p = "(((take 1 ?b @ ?o @ drop (1 + ?n) ?b)[0 := 0])[?n + 1 := UINT32_MAX])"
    let ?cr = "cr1\<lparr>cr_points := ?p, cr_len := ?n + 2\<rparr>"
    have ci: "cr_invert cr = Some (0, cr_compress ?cr)"
      using True g lb o by (simp add: cr_invert_def rd_block_def wr_block_def Let_def)
    have len: "length ?p = length ?b" using lb o by simp
    have fc: "cr_fits T ?cr" using f lb len by (simp add: cr_fits_def cr_ok_def)
    have "take (?n + 2) ?p = 0 # ?o @ [UINT32_MAX]"
    proof -
      have "take 1 ?b = [?b ! 0]" using lb by (cases ?b) auto
      moreover have "drop (1 + ?n) ?b = ?b ! (1 + ?n) # drop (2 + ?n) ?b"
        using lb by (simp add: Cons_nth_drop_Suc)
      ultimately show ?thesis using o by (simp add: list_update_append)
    qed
    then have pc: "cr_pts ?cr = 0 # ?o @ [UINT32_MAX]" by (simp add: cr_pts_def)
    have top: "x \<le> UINT32_MAX" for x :: u32
      using uint_lt2p [of x] by (simp add: UINT32_MAX_def word_le_def)
    have so: "sorted (0 # ?o @ [UINT32_MAX])" "even (length (0 # ?o @ [UINT32_MAX]))"
      using assms(2,3) o top by (auto simp: sorted_append)
    have "x \<in> cr_set (0 # ?o @ [UINT32_MAX]) \<longleftrightarrow> x \<noteq> UINT32_MAX \<and> x \<notin> cr_set ?o" for x
    proof -
      have "x \<in> cr_set (0 # ?o @ [UINT32_MAX]) \<longleftrightarrow> (if UINT32_MAX \<le> x then par ?o x else \<not> par ?o x)"
        using cr_set_par [OF so] by (simp add: par_Cons)
      moreover have "UINT32_MAX \<le> x \<longleftrightarrow> x = UINT32_MAX"
        using top [of x] by (blast intro: antisym)
      moreover have "par ?o UINT32_MAX = odd (length ?o)"
        by (rule par_all_le) (rule top)
      moreover have "x \<in> cr_set ?o \<longleftrightarrow> par ?o x"
        using assms(2,3) o by (simp add: cr_set_par)
      ultimately show ?thesis using assms(3) o by simp
    qed
    then have "cr_set (0 # ?o @ [UINT32_MAX]) = {x. x \<noteq> UINT32_MAX \<and> x \<notin> cr_set ?o}"
      by blast
    then show ?thesis
      using ci cr_compress_spec [OF fc] compress_ref_canonical [OF so] o(2)
        compress_ref_length [of "0 # ?o @ [UINT32_MAX]"] unfolding pc by simp
  next
    case False
    with g f c show ?thesis by (auto simp: cr_invert_def Let_def)
  qed
qed

section \<open>Properties\<close>

text \<open>C11: on sorted interval lists \<open>cr_op\<close> returns (for any number of points below the
  overflow bound); unless the allocator fails the result is in canonical form and its set is
  the union, intersection or symmetric difference of the two sets.\<close>

theorem cr_op_correct:
  assumes "cr_fits T cr" and "cr_len cr = 0" and "sorted a" and "even (length a)"
    and "sorted b" and "even (length b)" and "length a + length b \<le> T"
  shows "\<exists>r cr'. cr_op cr a b oper = Some (r, cr') \<and> cr_fits T cr' \<and>
    (r = -1 \<or> r = 0 \<and> canonical (cr_pts cr') \<and>
      cr_set (cr_pts cr') =
        (case oper of CR_OP_UNION \<Rightarrow> cr_set a \<union> cr_set b
         | CR_OP_INTER \<Rightarrow> cr_set a \<inter> cr_set b
         | CR_OP_XOR \<Rightarrow> (cr_set a - cr_set b) \<union> (cr_set b - cr_set a)))"
proof -
  have "{c. cr_fun oper (c \<in> cr_set a) (c \<in> cr_set b)} =
      (case oper of CR_OP_UNION \<Rightarrow> cr_set a \<union> cr_set b | CR_OP_INTER \<Rightarrow> cr_set a \<inter> cr_set b
       | CR_OP_XOR \<Rightarrow> (cr_set a - cr_set b) \<union> (cr_set b - cr_set a))"
    by (auto simp: cr_fun_def split: char_range_op.splits)
  moreover have "(\<forall>c. c \<in> S \<longleftrightarrow> cr_fun oper (c \<in> cr_set a) (c \<in> cr_set b)) \<longleftrightarrow>
      S = {c. cr_fun oper (c \<in> cr_set a) (c \<in> cr_set b)}" for S
    by blast
  ultimately show ?thesis using cr_op_spec [OF assms, of oper] by auto
qed

theorem cr_op_correct_witness:
  "\<exists>r cr'. cr_op (cr_init (\<lambda>k n. Some (\<lambda>i. 0))) [97, 123] [65, 91, 110, 200] CR_OP_INTER = Some (r, cr') \<and>
     (r = -1 \<or> cr_set (cr_pts cr') = {97..<123} \<inter> ({65..<91} \<union> {110..<200}))"
  using cr_op_correct [of 100 "cr_init (\<lambda>k n. Some (\<lambda>i. 0))" "[97, 123]" "[65, 91, 110, 200]" CR_OP_INTER]
  by (auto simp: cr_init_def cr_fits_def cr_ok_def CR_POINTS_MAX_def)

text \<open>\<open>cr_invert\<close> computes the complement: a code point other than \<open>UINT32_MAX\<close> is in the
  result exactly when it was not in the range, and the result is in canonical form.\<close>

theorem cr_invert_correct:
  assumes "cr_fits T cr" and "sorted (cr_pts cr)" and "even (cr_len cr)" and "cr_len cr + 2 \<le> T"
  shows "\<exists>r cr'. cr_invert cr = Some (r, cr') \<and> cr_fits T cr' \<and>
    (r = -1 \<or> r = 0 \<and> canonical (cr_pts cr') \<and>
      cr_set (cr_pts cr') = {c. c \<noteq> UINT32_MAX \<and> c \<notin> cr_set (cr_pts cr)})"
  using cr_invert_spec [OF assms] by blast

theorem cr_invert_correct_witness:
  "\<exists>r cr'. cr_invert (cr_init (\<lambda>k n. Some (\<lambda>i. 0))) = Some (r, cr') \<and>
     (r = -1 \<or> cr_set (cr_pts cr') = {c. c \<noteq> UINT32_MAX})"
  using cr_invert_correct [of 100 "cr_init (\<lambda>k n. Some (\<lambda>i. 0))"]
  by (auto simp: cr_init_def cr_fits_def cr_ok_def CR_POINTS_MAX_def cr_pts_def)

text \<open>C24: \<open>cr_union_interval\<close> adds exactly the code points from \<open>c1\<close> to \<open>c2\<close> inclusive.\<close>

theorem cr_union_interval_correct:
  assumes "cr_fits T cr" and "sorted (cr_pts cr)" and "even (cr_len cr)"
    and "c1 \<le> c2" and "c2 < UINT32_MAX" and "cr_len cr + 2 \<le> T"
  shows "\<exists>r cr'. cr_union_interval cr c1 c2 = Some (r, cr') \<and> cr_fits T cr' \<and>
    (r = -1 \<or> r = 0 \<and> canonical (cr_pts cr') \<and> cr_set (cr_pts cr') = cr_set (cr_pts cr) \<union> {c1..c2})"
  using assms by (rule cr_union_interval_spec)

theorem cr_union_interval_correct_witness:
  "\<exists>r cr'. cr_union_interval (cr_init (\<lambda>k n. Some (\<lambda>i. 0))) 97 122 = Some (r, cr') \<and>
     (r = -1 \<or> cr_set (cr_pts cr') = {97..122})"
  using cr_union_interval_correct [of 100 "cr_init (\<lambda>k n. Some (\<lambda>i. 0))" 97 122]
  by (auto simp: cr_init_def cr_fits_def cr_ok_def CR_POINTS_MAX_def cr_pts_def UINT32_MAX_def)

end
