(* ===== verification/UnicodeCase.thy ===== *)
theory UnicodeCase
  imports CaseTables
begin

text \<open>
  Case conversion: \<open>lre_case_conv\<close> and the run search it shares with \<open>lre_is_cased\<close>,
  \<open>unicode_decomp_char\<close> (\<open>libunicode.c\<close>), over the tables of \<open>CaseTables\<close>.  A result is the
  list of code points written to \<open>res\<close> (its length is the return value); \<open>None\<close> is a read
  outside a table.  The binary search is verified once in the locale \<open>run_table\<close>, for any
  table of disjoint increasing runs.
\<close>

section \<open>Binary search for a run\<close>

text \<open>The loop \<open>while (idx_min <= idx_max)\<close>: \<open>code\<close> and \<open>len\<close> unpack a table entry.\<close>

function run_search ::
  "(u32 \<Rightarrow> u32) \<Rightarrow> (u32 \<Rightarrow> u32) \<Rightarrow> u32 list \<Rightarrow> u32 \<Rightarrow> int \<Rightarrow> int \<Rightarrow> nat option" where
  "run_search code len tab c idx_min idx_max =
     (if idx_min \<le> idx_max then
        let idx = (idx_max + idx_min) div 2; v = tab ! nat idx in
        if c < code v then run_search code len tab c idx_min (idx - 1)
        else if c \<ge> code v + len v then run_search code len tab c (idx + 1) idx_max
        else Some (nat idx)
      else None)"
  by pat_completeness auto
termination
  by (relation "measure (\<lambda>(code, len, tab, c, idx_min, idx_max). nat (idx_max - idx_min + 1))") auto

declare run_search.simps [simp del]

locale run_table =
  fixes code :: "u32 \<Rightarrow> u32" and len :: "u32 \<Rightarrow> u32" and tab :: "u32 list"
  assumes no_wrap: "v \<in> set tab \<Longrightarrow> code v \<le> code v + len v"
    and ordered: "i < j \<Longrightarrow> j < length tab \<Longrightarrow> code (tab ! i) + len (tab ! i) \<le> code (tab ! j)"
begin

lemma search_sound:
  assumes "run_search code len tab c lo hi = Some i" and "0 \<le> lo" and "hi < int (length tab)"
  shows "i < length tab \<and> code (tab ! i) \<le> c \<and> c < code (tab ! i) + len (tab ! i)"
  using assms
proof (induction code len tab c lo hi rule: run_search.induct)
  case (1 code len tab c lo hi)
  let ?m = "(hi + lo) div 2"
  from "1.prems"(1) have le: "lo \<le> hi" by (auto simp: run_search.simps [of code len tab c lo] split: if_splits)
  have unf: "run_search code len tab c lo hi =
      (if c < code (tab ! nat ?m) then run_search code len tab c lo (?m - 1)
       else if c \<ge> code (tab ! nat ?m) + len (tab ! nat ?m) then run_search code len tab c (?m + 1) hi
       else Some (nat ?m))"
    using le by (simp add: run_search.simps [of code len tab c lo] Let_def)
  consider "c < code (tab ! nat ?m)"
    | "\<not> c < code (tab ! nat ?m)" "c \<ge> code (tab ! nat ?m) + len (tab ! nat ?m)"
    | "\<not> c < code (tab ! nat ?m)" "\<not> c \<ge> code (tab ! nat ?m) + len (tab ! nat ?m)" by blast
  then show ?case
  proof cases
    case 1
    with "1.IH"(1) [OF le refl refl] "1.prems" le unf show ?thesis by auto
  next
    case 2
    with "1.IH"(2) [OF le refl refl] "1.prems" le unf show ?thesis by auto
  next
    case 3
    with "1.prems" le unf show ?thesis by auto
  qed
qed

lemma search_complete:
  assumes "lo \<le> int i" and "int i \<le> hi" and "i < length tab" and "0 \<le> lo" and "hi < int (length tab)"
    and "code (tab ! i) \<le> c" and "c < code (tab ! i) + len (tab ! i)"
  shows "run_search code len tab c lo hi = Some i"
  using assms
proof (induction "nat (hi - lo + 1)" arbitrary: lo hi rule: less_induct)
  case less
  let ?m = "(hi + lo) div 2"
  have le: "lo \<le> hi" using less.prems by simp
  have m: "lo \<le> ?m" "?m \<le> hi" using le by auto
  have unf: "run_search code len tab c lo hi =
      (if c < code (tab ! nat ?m) then run_search code len tab c lo (?m - 1)
       else if c \<ge> code (tab ! nat ?m) + len (tab ! nat ?m) then run_search code len tab c (?m + 1) hi
       else Some (nat ?m))"
    using le by (simp add: run_search.simps [of code len tab c lo] Let_def)
  have ml: "nat ?m < length tab" using m less.prems by linarith
  consider "int i < ?m" | "int i = ?m" | "?m < int i" by linarith
  then show ?case
  proof cases
    case 1
    then have "c < code (tab ! nat ?m)"
      using ordered [of i "nat ?m"] ml less.prems by (auto intro: order_less_le_trans)
    with 1 less m le unf show ?thesis by auto
  next
    case 2
    then have "nat ?m = i" by simp
    with less.prems unf show ?thesis by auto
  next
    case 3
    then have o: "code (tab ! nat ?m) + len (tab ! nat ?m) \<le> code (tab ! i)"
      using ordered [of "nat ?m" i] less.prems m by auto
    then have "code (tab ! nat ?m) + len (tab ! nat ?m) \<le> c"
      using less.prems by (auto intro: order_trans)
    moreover have "code (tab ! nat ?m) \<le> c"
      using no_wrap [of "tab ! nat ?m"] ml calculation by (auto intro: order_trans)
    ultimately show ?thesis using 3 less m le unf by auto
  qed
qed

text \<open>The search decides membership in the union of the runs, and the index is unique.\<close>

lemma search_iff:
  "run_search code len tab c 0 (int (length tab) - 1) = Some i \<longleftrightarrow>
     i < length tab \<and> code (tab ! i) \<le> c \<and> c < code (tab ! i) + len (tab ! i)"
  using search_sound [of c 0 "int (length tab) - 1" i]
    search_complete [of 0 i "int (length tab) - 1" c] by auto

lemma search_None_iff:
  "run_search code len tab c 0 (int (length tab) - 1) = None \<longleftrightarrow>
     (\<forall>v \<in> set tab. \<not> (code v \<le> c \<and> c < code v + len v))"
proof -
  have "run_search code len tab c 0 (int (length tab) - 1) = None \<longleftrightarrow>
      (\<forall>i. run_search code len tab c 0 (int (length tab) - 1) \<noteq> Some i)" by simp
  then show ?thesis unfolding search_iff all_set_conv_all_nth by blast
qed

end

section \<open>Case conversion\<close>

definition run_code :: "u32 \<Rightarrow> u32" where
  "run_code v = drop_bit (32 - 17) v"

definition run_len :: "u32 \<Rightarrow> u32" where
  "run_len v = drop_bit (32 - 17 - 7) v AND 0x7f"

definition run_type :: "u32 \<Rightarrow> nat" where
  "run_type v = unat (drop_bit (32 - 17 - 7 - 4) v AND 0xf)"

abbreviation (input) RUN_TYPE_U :: nat where "RUN_TYPE_U \<equiv> 0"
abbreviation (input) RUN_TYPE_L :: nat where "RUN_TYPE_L \<equiv> 1"
abbreviation (input) RUN_TYPE_UF :: nat where "RUN_TYPE_UF \<equiv> 2"
abbreviation (input) RUN_TYPE_LF :: nat where "RUN_TYPE_LF \<equiv> 3"
abbreviation (input) RUN_TYPE_UL :: nat where "RUN_TYPE_UL \<equiv> 4"
abbreviation (input) RUN_TYPE_LSU :: nat where "RUN_TYPE_LSU \<equiv> 5"
abbreviation (input) RUN_TYPE_U2L_399_EXT2 :: nat where "RUN_TYPE_U2L_399_EXT2 \<equiv> 6"
abbreviation (input) RUN_TYPE_UF_D20 :: nat where "RUN_TYPE_UF_D20 \<equiv> 7"
abbreviation (input) RUN_TYPE_UF_D1_EXT :: nat where "RUN_TYPE_UF_D1_EXT \<equiv> 8"
abbreviation (input) RUN_TYPE_U_EXT :: nat where "RUN_TYPE_U_EXT \<equiv> 9"
abbreviation (input) RUN_TYPE_LF_EXT :: nat where "RUN_TYPE_LF_EXT \<equiv> 10"
abbreviation (input) RUN_TYPE_U_EXT2 :: nat where "RUN_TYPE_U_EXT2 \<equiv> 11"
abbreviation (input) RUN_TYPE_L_EXT2 :: nat where "RUN_TYPE_L_EXT2 \<equiv> 12"
abbreviation (input) RUN_TYPE_U_EXT3 :: nat where "RUN_TYPE_U_EXT3 \<equiv> 13"

definition conv_ext :: "u32 \<Rightarrow> u32 option" where
  "conv_ext i = map_option ucast (rd case_conv_ext (unat i))"

text \<open>The data of a run: \<open>((v & 0xf) << 8) | case_conv_table2[idx]\<close>.\<close>

definition run_data :: "nat \<Rightarrow> u32 \<Rightarrow> u32 option" where
  "run_data idx v = map_option (\<lambda>b. push_bit 8 (v AND 0xf) OR ucast b) (rd case_conv_table2 idx)"

text \<open>The \<open>switch\<close> on the run type, for a character of run \<open>idx\<close>.\<close>

definition case_conv_entry :: "u32 \<Rightarrow> int \<Rightarrow> u32 \<Rightarrow> u32 \<Rightarrow> u32 list option" where
  "case_conv_entry c conv_type v data =
     (let code = run_code v; type = run_type v;
          is_lower = (if conv_type \<noteq> 0 then 1 else 0 :: u32) in
      if type \<in> {RUN_TYPE_U, RUN_TYPE_L, RUN_TYPE_UF, RUN_TYPE_LF} then
        if conv_type = int (type mod 2) \<or> (type \<ge> RUN_TYPE_UF \<and> conv_type = 2)
        then map_option (\<lambda>w. [c - code + drop_bit (32 - 17) w]) (rd case_conv_table1 (unat data))
        else Some [c]
      else if type = RUN_TYPE_UL then
        (let a = c - code in if a AND 1 \<noteq> 1 - is_lower then Some [c] else Some [(a XOR 1) + code])
      else if type = RUN_TYPE_LSU then
        (let a = c - code in
         if a = 1 then Some [c + (2 * is_lower - 1)]
         else if a = (1 - is_lower) * 2 then Some [c + (2 * is_lower - 1) * 2]
         else Some [c])
      else if type = RUN_TYPE_U2L_399_EXT2 then
        if is_lower = 0 then map_option (\<lambda>e. [c - code + e, 0x399]) (conv_ext (drop_bit 6 data))
        else map_option (\<lambda>e. [c - code + e]) (conv_ext (data AND 0x3f))
      else if type = RUN_TYPE_UF_D20 then
        if conv_type = 1 then Some [c] else Some [data + (if conv_type = 2 then 0x20 else 0)]
      else if type = RUN_TYPE_UF_D1_EXT then
        if conv_type = 1 then Some [c]
        else map_option (\<lambda>e. [e + (if conv_type = 2 then 1 else 0)]) (conv_ext data)
      else if type \<in> {RUN_TYPE_U_EXT, RUN_TYPE_LF_EXT} then
        if is_lower \<noteq> of_nat (type - RUN_TYPE_U_EXT) then Some [c]
        else map_option (\<lambda>e. [e]) (conv_ext data)
      else if type \<in> {RUN_TYPE_U_EXT2, RUN_TYPE_L_EXT2} then
        if conv_type \<noteq> int (type - RUN_TYPE_U_EXT2) then Some [c]
        else do { e0 \<leftarrow> conv_ext (drop_bit 6 data); e1 \<leftarrow> conv_ext (data AND 0x3f);
                  Some [c - code + e0, e1] }
      else
        if conv_type \<noteq> 0 then Some [c]
        else do { e0 \<leftarrow> conv_ext (drop_bit 8 data); e1 \<leftarrow> conv_ext (drop_bit 4 data AND 0xf);
                  e2 \<leftarrow> conv_ext (data AND 0xf); Some [e0, e1, e2] })"

definition lre_case_conv :: "u32 \<Rightarrow> int \<Rightarrow> u32 list option" where
  "lre_case_conv c conv_type =
     (if c < 128 then
        if conv_type \<noteq> 0 then
          if c \<ge> 65 \<and> c \<le> 90 then Some [c - 65 + 97] else Some [c]
        else if c \<ge> 97 \<and> c \<le> 122 then Some [c - 97 + 65] else Some [c]
      else
        (case run_search run_code run_len case_conv_table1 c 0 (int (length case_conv_table1) - 1) of
           None \<Rightarrow> Some [c]
         | Some idx \<Rightarrow>
             do { v \<leftarrow> rd case_conv_table1 idx; data \<leftarrow> run_data idx v;
                  case_conv_entry c conv_type v data }))"

section \<open>The tables of the repository\<close>

text \<open>Neighbouring runs are increasing and do not overlap; checked on the actual table.\<close>

fun runs_chain :: "(u32 \<Rightarrow> u32) \<Rightarrow> (u32 \<Rightarrow> u32) \<Rightarrow> u32 list \<Rightarrow> bool" where
  "runs_chain code len (a # b # r) =
     (code a \<le> code a + len a \<and> code a + len a \<le> code b \<and> runs_chain code len (b # r))"
| "runs_chain code len [a] = (code a \<le> code a + len a)"
| "runs_chain code len [] = True"

lemma runs_chain_first: "runs_chain code len (a # r) \<Longrightarrow> code a \<le> code a + len a"
  by (cases r) auto

lemma runs_chain_head:
  "runs_chain code len (a # r) \<Longrightarrow> v \<in> set r \<Longrightarrow> code a + len a \<le> code v"
proof (induction code len "a # r" arbitrary: a r rule: runs_chain.induct)
  case (1 code len a b r)
  have "code a + len a \<le> code b" "code b \<le> code b + len b"
    using "1.prems"(1) runs_chain_first [of code len b r] by auto
  moreover have "v = b \<or> code b + len b \<le> code v"
    using "1.hyps" "1.prems" by auto
  ultimately show ?case by (auto intro: order_trans)
qed auto

lemma runs_chain_run_table:
  assumes "runs_chain code len tab"
  shows "run_table code len tab"
proof
  show "code v \<le> code v + len v" if "v \<in> set tab" for v
    using assms that by (induction code len tab rule: runs_chain.induct) auto
  show "code (tab ! i) + len (tab ! i) \<le> code (tab ! j)" if "i < j" "j < length tab" for i j
    using assms that
  proof (induction tab arbitrary: i j)
    case (Cons a r)
    have c: "runs_chain code len r" using Cons.prems(1) by (cases r) auto
    show ?case
    proof (cases i)
      case 0
      then show ?thesis using Cons.prems runs_chain_head [OF Cons.prems(1)] by (cases j) auto
    next
      case (Suc i')
      then show ?thesis using Cons.IH [OF c, of i' "j - 1"] Cons.prems by (cases j) auto
    qed
  qed simp
qed

lemma case_conv_table1_chain: "runs_chain run_code run_len case_conv_table1"
  by code_simp

interpretation cc: run_table run_code run_len case_conv_table1
  by (rule runs_chain_run_table) (rule case_conv_table1_chain)

text \<open>Every lookup that an entry can cause is inside the tables.\<close>

definition entry_in_tables :: "u32 \<Rightarrow> u8 \<Rightarrow> bool" where
  "entry_in_tables v b =
     (let type = run_type v; data = push_bit 8 (v AND 0xf) OR ucast b in
      if type \<le> 3 then data < 361
      else if type \<in> {4, 5, 7} then True
      else if type \<in> {8, 9, 10} then data < 58
      else if type \<in> {6, 11, 12} then drop_bit 6 data < 58 \<and> data AND 0x3f < 58
      else drop_bit 8 data < 58)"

lemma entries_in_tables: "list_all2 entry_in_tables case_conv_table1 case_conv_table2"
  by code_simp

lemma case_tables_length:
  "length case_conv_table1 = 361" "length case_conv_table2 = 361" "length case_conv_ext = 58"
  by code_simp+

lemma run_data_Some:
  assumes "idx < length case_conv_table1"
  shows "run_data idx v = Some (push_bit 8 (v AND 0xf) OR ucast (case_conv_table2 ! idx))"
    and "entry_in_tables (case_conv_table1 ! idx) (case_conv_table2 ! idx)"
  using assms list_all2_nthD [OF entries_in_tables] case_tables_length
  by (simp_all add: run_data_def)

lemma conv_ext_bound: "i < 58 \<Longrightarrow> \<exists>e. conv_ext i = Some e \<and> e < 0x10000"
proof -
  assume "i < 58"
  then have "unat i < length case_conv_ext" by (simp add: case_tables_length word_less_nat_alt)
  moreover have "(ucast (x :: u16) :: u32) < 0x10000" for x
  proof -
    have "uint x < 2 ^ 16" using uint_lt2p [of x] by simp
    then show ?thesis by (simp add: word_less_def unsigned_ucast_eq take_bit_int_eq_self)
  qed
  ultimately show ?thesis by (simp add: conv_ext_def)
qed

text \<open>An upper bound on sums of a run offset and a converted code point.\<close>

lemma run_code_bound: "run_code v < 0x20000"
proof -
  have "uint v < 2 ^ 32" using uint_lt2p [of v] by simp
  then show ?thesis
    by (simp add: run_code_def word_less_def uint_drop_bit_div)
qed

lemma run_len_bound: "unat (run_len v) < 128"
proof -
  have "run_len v \<le> 0x7f" by (simp add: run_len_def word_and_le1)
  then show ?thesis by (simp add: word_le_nat_alt)
qed

lemma xor_one_bound: "unat (a :: u32) < 128 \<Longrightarrow> unat (a XOR 1) < 128"
proof -
  assume "unat a < 128"
  then have "a < 128" by (simp add: word_less_nat_alt)
  then have "uint a < 2 ^ 7" by (simp add: word_less_def)
  then have "uint a XOR 1 < 2 ^ 7" by (intro XOR_upper) simp_all
  then have "a XOR 1 < 128" by (simp add: word_less_def unsigned_xor_eq)
  then show ?thesis by (simp add: word_less_nat_alt)
qed

lemma data_bound: "push_bit 8 (v AND 0xf) OR ucast (b :: u8) < (0x1000 :: u32)"
proof -
  have "uint (v AND 0xf) \<le> 15"
    using word_and_le1 [of v "0xf"] by (simp add: word_le_def)
  then have "uint (push_bit 8 (v AND 0xf)) < 2 ^ 12"
    by (simp only: unsigned_push_bit_eq) (simp add: push_bit_eq_mult take_bit_int_eq_self)
  moreover have "uint (ucast b :: u32) < 2 ^ 12"
  proof -
    have "uint b < 2 ^ 8" using uint_lt2p [of b] by simp
    then show ?thesis by (simp add: unsigned_ucast_eq take_bit_int_eq_self)
  qed
  ultimately have "uint (push_bit 8 (v AND 0xf)) OR uint (ucast b :: u32) < 2 ^ 12"
    by (intro OR_upper) simp_all
  then show ?thesis by (simp add: word_less_def unsigned_or_eq)
qed

text \<open>Code points that a run can produce.\<close>

definition conv_out :: "u32 list option \<Rightarrow> bool" where
  "conv_out r \<longleftrightarrow> (\<exists>res. r = Some res \<and> res \<noteq> [] \<and> length res \<le> 3 \<and> (\<forall>x \<in> set res. x < 0x110000))"

lemma conv_out_1: "x < 0x110000 \<Longrightarrow> conv_out (Some [x])"
  by (simp add: conv_out_def)

lemma small_sum: "unat x < 128 \<Longrightarrow> unat y < 0x20000 \<Longrightarrow> x + y < (0x110000 :: u32)"
  using unat_add_le [of x y] by (simp add: word_less_nat_alt)

lemma case_conv_entry_out:
  assumes tab: "entry_in_tables v b" and data: "data = push_bit 8 (v AND 0xf) OR ucast b"
    and wrap: "run_code v \<le> run_code v + run_len v"
    and run: "run_code v \<le> c" "c < run_code v + run_len v"
  shows "conv_out (case_conv_entry c t v data)"
proof -
  let ?o = "c - run_code v" and ?ty = "run_type v"
  note tab' = tab [unfolded entry_in_tables_def Let_def, folded data]
  have off: "unat ?o < 128"
    using word_offset_less [OF wrap run] run_len_bound [of v] by (simp add: word_less_nat_alt)
  have code: "unat (run_code v) < 0x20000" using run_code_bound [of v] by (simp add: word_less_nat_alt)
  have c: "unat c < 0x20080"
    using unat_add_le [of ?o "run_code v"] off code by simp
  then have c': "c < 0x110000" by (simp add: word_less_nat_alt)
  have d: "data < 0x1000" unfolding data by (rule data_bound)
  have ext: "x < 0x10000 \<Longrightarrow> x < 0x110000 \<and> x + 1 < 0x110000 \<and> ?o + x < 0x110000" for x :: u32
    using unat_add_le [of x 1] unat_add_le [of ?o x] off by (simp add: word_less_nat_alt)
  consider (run) "?ty \<le> 3" | (UL) "?ty = 4" | (LSU) "?ty = 5" | (U2L) "?ty = 6" | (D20) "?ty = 7"
    | (D1) "?ty = 8" | (ex) "?ty = 9 \<or> ?ty = 10" | (ex2) "?ty = 11 \<or> ?ty = 12" | (ex3) "13 \<le> ?ty"
    by linarith
  then show ?thesis
  proof cases
    case run
    then have "data < 361" using tab' by simp
    then obtain w where "rd case_conv_table1 (unat data) = Some w"
      by (simp add: case_tables_length word_less_nat_alt)
    moreover have "?o + drop_bit 15 w < 0x110000"
      using small_sum [OF off] run_code_bound [of w] by (simp add: run_code_def word_less_nat_alt)
    moreover have "?ty \<in> {0, 1, 2, 3}" using run by auto
    ultimately show ?thesis using c' by (simp add: case_conv_entry_def Let_def conv_out_1)
  next
    case UL
    have "(?o XOR 1) + run_code v < 0x110000"
      using small_sum [OF xor_one_bound [OF off]] code by simp
    with UL c' show ?thesis by (simp add: case_conv_entry_def Let_def conv_out_1)
  next
    case LSU
    have "c + 1 < 0x110000" "c + 2 < 0x110000"
      using unat_add_le [of c 1] unat_add_le [of c 2] c by (simp_all add: word_less_nat_alt)
    moreover have "c - 1 < 0x110000" if "?o = 1"
    proof -
      from that have "c - 1 = run_code v" by (simp add: algebra_simps)
      with code show ?thesis by (simp add: word_less_nat_alt)
    qed
    moreover have "c - 2 < 0x110000" if "?o = 2"
    proof -
      from that have "c - 2 = run_code v" by (simp add: algebra_simps)
      with code show ?thesis by (simp add: word_less_nat_alt)
    qed
    ultimately show ?thesis using LSU c' by (simp add: case_conv_entry_def Let_def conv_out_1)
  next
    case U2L
    then obtain e e' where "conv_ext (drop_bit 6 data) = Some e" "e < 0x10000"
      "conv_ext (data AND 0x3f) = Some e'" "e' < 0x10000"
      using tab' conv_ext_bound by (simp del: One_nat_def) blast
    with U2L ext show ?thesis by (simp add: case_conv_entry_def Let_def conv_out_def)
  next
    case D20
    have "data < 0x110000" "data + 0x20 < 0x110000"
      using d unat_add_le [of data "0x20"] by (simp_all add: word_less_nat_alt)
    with D20 c' show ?thesis by (simp add: case_conv_entry_def Let_def conv_out_1)
  next
    case D1
    then obtain e where "conv_ext data = Some e" "e < 0x10000"
      using tab' conv_ext_bound [of data] by auto
    with D1 ext c' show ?thesis by (simp add: case_conv_entry_def Let_def conv_out_1)
  next
    case ex
    with tab' have "data < 58" by auto
    from conv_ext_bound [OF this] obtain e where "conv_ext data = Some e" "e < 0x10000" by blast
    with ex ext c' show ?thesis
      by (elim disjE) (simp_all add: case_conv_entry_def Let_def conv_out_1)
  next
    case ex2
    with tab' have "drop_bit 6 data < 58" and "data AND 0x3f < 58" by auto
    from this [THEN conv_ext_bound] obtain e e' where "conv_ext (drop_bit 6 data) = Some e" "e < 0x10000"
      "conv_ext (data AND 0x3f) = Some e'" "e' < 0x10000" by blast
    with ex2 ext c' show ?thesis
      by (elim disjE) (simp_all add: case_conv_entry_def Let_def conv_out_def)
  next
    case ex3
    have "data AND 0xf \<le> 0xf" "drop_bit 4 data AND 0xf \<le> 0xf" by (simp_all add: word_and_le1)
    then have "data AND 0xf < 58" "drop_bit 4 data AND 0xf < 58" by (auto simp: word_le_nat_alt word_less_nat_alt)
    moreover have "drop_bit 8 data < 58" using ex3 tab' by auto
    ultimately obtain e e' e'' where "conv_ext (drop_bit 8 data) = Some e" "e < 0x10000"
      "conv_ext (drop_bit 4 data AND 0xf) = Some e'" "e' < 0x10000"
      "conv_ext (data AND 0xf) = Some e''" "e'' < 0x10000"
      using conv_ext_bound by blast
    with ex3 ext c' show ?thesis by (auto simp: case_conv_entry_def Let_def conv_out_def)
  qed
qed

section \<open>The converters of the regular expression library\<close>

text \<open>\<open>lre_canonicalize\<close> of \<open>libregexp.c\<close>: simple case folding in unicode mode, simple upper case
  otherwise.\<close>

definition lre_canonicalize :: "u32 \<Rightarrow> bool \<Rightarrow> u32 option" where
  "lre_canonicalize c is_utf16 =
     (if is_utf16 then
        if c < 128 then Some (if c \<ge> 65 \<and> c \<le> 90 then c - 65 + 97 else c)
        else map_option hd (lre_case_conv c 2)
      else
        if c < 128 then Some (if c \<ge> 97 \<and> c \<le> 122 then c - 97 + 65 else c)
        else map_option (\<lambda>res. if length res = 1 \<and> hd res \<ge> 128 then hd res else c)
               (lre_case_conv c 0))"

lemma lre_case_conv_out:
  assumes "c < 0x110000"
  shows "conv_out (lre_case_conv c t)"
proof (cases "c < 128")
  case True
  then have "unat c < 128" by (simp add: word_less_nat_alt)
  then have "c - 65 + 97 < 0x110000" if "65 \<le> c" "c \<le> 90"
    using that by (simp add: word_less_nat_alt word_le_nat_alt unat_word_ariths unat_sub_if')
  moreover have "c - 97 + 65 < 0x110000" if "97 \<le> c" "c \<le> 122"
    using that by (simp add: word_less_nat_alt word_le_nat_alt unat_word_ariths unat_sub_if')
  ultimately show ?thesis using True assms by (simp add: lre_case_conv_def conv_out_1)
next
  case False
  let ?s = "run_search run_code run_len case_conv_table1 c 0 (int (length case_conv_table1) - 1)"
  show ?thesis
  proof (cases ?s)
    case None
    with False assms show ?thesis by (simp add: lre_case_conv_def conv_out_1)
  next
    case (Some idx)
    let ?v = "case_conv_table1 ! idx"
    from Some have i: "idx < length case_conv_table1" "run_code ?v \<le> c" "c < run_code ?v + run_len ?v"
      by (simp_all add: cc.search_iff)
    have "conv_out (case_conv_entry c t ?v (push_bit 8 (?v AND 0xf) OR ucast (case_conv_table2 ! idx)))"
      using run_data_Some(2) [OF i(1)] refl cc.no_wrap [OF nth_mem [OF i(1)]] i(2,3)
      by (rule case_conv_entry_out)
    with False Some run_data_Some(1) [OF i(1), of ?v] i(1) show ?thesis
      by (simp add: lre_case_conv_def)
  qed
qed

section \<open>Properties\<close>

text \<open>C28: the binary search over the repository's case table is exact: a character of 128 or more
  is converted by the one run of the table that holds it, and unchanged when no run does.\<close>

theorem lre_case_conv_search:
  assumes "128 \<le> c"
  shows "(\<exists>!idx. idx < length case_conv_table1 \<and> run_code (case_conv_table1 ! idx) \<le> c \<and>
            c < run_code (case_conv_table1 ! idx) + run_len (case_conv_table1 ! idx)) \<and>
         (\<forall>idx v data. idx < length case_conv_table1 \<longrightarrow> v = case_conv_table1 ! idx \<longrightarrow>
            run_code v \<le> c \<longrightarrow> c < run_code v + run_len v \<longrightarrow> run_data idx v = Some data \<longrightarrow>
            lre_case_conv c t = case_conv_entry c t v data) \<or>
         (\<forall>v \<in> set case_conv_table1. \<not> (run_code v \<le> c \<and> c < run_code v + run_len v)) \<and>
         lre_case_conv c t = Some [c]"
proof (cases "run_search run_code run_len case_conv_table1 c 0 (int (length case_conv_table1) - 1)")
  case None
  moreover have "\<not> c < 128" using assms by simp
  ultimately show ?thesis using cc.search_None_iff [of c] by (simp add: lre_case_conv_def)
next
  case (Some i)
  have "\<not> c < 128" using assms by simp
  moreover have "idx = i" if "idx < length case_conv_table1" "run_code (case_conv_table1 ! idx) \<le> c"
    "c < run_code (case_conv_table1 ! idx) + run_len (case_conv_table1 ! idx)" for idx
    using cc.search_iff [of c idx] that Some by simp
  ultimately show ?thesis using Some cc.search_iff [of c i] by (auto simp: lre_case_conv_def)
qed

theorem lre_case_conv_search_witness: "lre_case_conv 0xe0 0 = Some [0xc0]"
proof -
  let ?v = "0x701700 :: u32"
  have c: "128 \<le> (0xe0 :: u32)" by simp
  have t: "?v = case_conv_table1 ! 6" by (simp add: case_conv_table1_def)
  have l: "6 < length case_conv_table1" by (simp add: case_tables_length)
  have r: "run_code ?v \<le> 0xe0" "0xe0 < run_code ?v + run_len ?v" by code_simp+
  have d: "run_data 6 ?v = Some 3" by code_simp
  have "?v \<in> set case_conv_table1" unfolding t using l by (rule nth_mem)
  then have "lre_case_conv 0xe0 0 = case_conv_entry 0xe0 0 ?v 3"
    using lre_case_conv_search [OF c, of 0] t l r d by blast
  also have "\<dots> = Some [0xc0]" by code_simp
  finally show ?thesis .
qed

text \<open>C29: case conversion of a Unicode code point never reads outside the tables, returns between
  one and \<open>LRE_CC_RES_LEN_MAX = 3\<close> values, and each of them is a Unicode code point again.\<close>

theorem lre_case_conv_bounds:
  assumes "c < 0x110000"
  shows "\<exists>res. lre_case_conv c t = Some res \<and> 1 \<le> length res \<and> length res \<le> 3 \<and>
    (\<forall>x \<in> set res. x < 0x110000)"
  using lre_case_conv_out [OF assms, of t] by (auto simp: conv_out_def Suc_le_eq)

theorem lre_case_conv_bounds_witness:
  "\<exists>res. lre_case_conv 0xdf 0 = Some res \<and> 1 \<le> length res \<and> length res \<le> 3 \<and>
    (\<forall>x \<in> set res. x < 0x110000)"
  using lre_case_conv_bounds [of "0xdf" 0] by auto

end
