(* ===== verification/ReBytes.thy ===== *)
theory ReBytes
  imports QJS_Prelude
begin

text \<open>
  The bytecode format of the regular expression engine: the opcodes of \<open>libregexp-opcode.h\<close> with
  their sizes, the unaligned loads and stores of \<open>cutils.h\<close> (little endian, the byte order of
  the plugin's targets), and the header of a compiled expression (\<open>libregexp.c\<close>, \<open>libregexp.h\<close>).
  Positions in the bytecode are integers, because jumps add a signed 32 bit displacement.
\<close>

section \<open>Loads and stores\<close>

definition rdi :: "'a list \<Rightarrow> int \<Rightarrow> 'a option" where
  "rdi m i = (if 0 \<le> i then rd m (nat i) else None)"

definition wri :: "'a list \<Rightarrow> int \<Rightarrow> 'a \<Rightarrow> 'a list option" where
  "wri m i v = (if 0 \<le> i then wr m (nat i) v else None)"

definition le_bytes :: "u32 \<Rightarrow> u8 list" where
  "le_bytes v = [ucast v, ucast (drop_bit 8 v), ucast (drop_bit 16 v), ucast (drop_bit 24 v)]"

definition get_u8 :: "u8 list \<Rightarrow> int \<Rightarrow> u32 option" where
  "get_u8 m i = map_option ucast (rdi m i)"

definition get_u16 :: "u8 list \<Rightarrow> int \<Rightarrow> u32 option" where
  "get_u16 m i = do {
     b0 \<leftarrow> get_u8 m i;
     b1 \<leftarrow> get_u8 m (i + 1);
     Some (b0 OR push_bit 8 b1)
   }"

definition get_u32 :: "u8 list \<Rightarrow> int \<Rightarrow> u32 option" where
  "get_u32 m i = do {
     b0 \<leftarrow> get_u8 m i;
     b1 \<leftarrow> get_u8 m (i + 1);
     b2 \<leftarrow> get_u8 m (i + 2);
     b3 \<leftarrow> get_u8 m (i + 3);
     Some (b0 OR push_bit 8 b1 OR push_bit 16 b2 OR push_bit 24 b3)
   }"

definition put_u16 :: "u8 list \<Rightarrow> nat \<Rightarrow> u32 \<Rightarrow> u8 list option" where
  "put_u16 m i v = wr_block m i (take 2 (le_bytes v))"

definition put_u32 :: "u8 list \<Rightarrow> nat \<Rightarrow> u32 \<Rightarrow> u8 list option" where
  "put_u32 m i v = wr_block m i (le_bytes v)"

section \<open>Opcodes\<close>

datatype reop =
  REOP_invalid | REOP_char | REOP_char32 | REOP_dot | REOP_any | REOP_line_start | REOP_line_end |
  REOP_goto | REOP_split_goto_first | REOP_split_next_first | REOP_match | REOP_save_start |
  REOP_save_end | REOP_save_reset | REOP_loop | REOP_push_i32 | REOP_drop | REOP_word_boundary |
  REOP_not_word_boundary | REOP_back_reference | REOP_backward_back_reference | REOP_range |
  REOP_range32 | REOP_lookahead | REOP_negative_lookahead | REOP_push_char_pos |
  REOP_bne_char_pos | REOP_prev | REOP_simple_greedy_quant

fun reop_size :: "reop \<Rightarrow> nat" where
  "reop_size REOP_invalid = 1"
| "reop_size REOP_char = 3"
| "reop_size REOP_char32 = 5"
| "reop_size REOP_dot = 1"
| "reop_size REOP_any = 1"
| "reop_size REOP_line_start = 1"
| "reop_size REOP_line_end = 1"
| "reop_size REOP_goto = 5"
| "reop_size REOP_split_goto_first = 5"
| "reop_size REOP_split_next_first = 5"
| "reop_size REOP_match = 1"
| "reop_size REOP_save_start = 2"
| "reop_size REOP_save_end = 2"
| "reop_size REOP_save_reset = 3"
| "reop_size REOP_loop = 5"
| "reop_size REOP_push_i32 = 5"
| "reop_size REOP_drop = 1"
| "reop_size REOP_word_boundary = 1"
| "reop_size REOP_not_word_boundary = 1"
| "reop_size REOP_back_reference = 2"
| "reop_size REOP_backward_back_reference = 2"
| "reop_size REOP_range = 3"
| "reop_size REOP_range32 = 3"
| "reop_size REOP_lookahead = 5"
| "reop_size REOP_negative_lookahead = 5"
| "reop_size REOP_push_char_pos = 1"
| "reop_size REOP_bne_char_pos = 5"
| "reop_size REOP_prev = 1"
| "reop_size REOP_simple_greedy_quant = 17"

text \<open>The enumeration value of an opcode is its position in this list.\<close>

definition reop_list :: "reop list" where
  "reop_list = [REOP_invalid, REOP_char, REOP_char32, REOP_dot, REOP_any, REOP_line_start,
     REOP_line_end, REOP_goto, REOP_split_goto_first, REOP_split_next_first, REOP_match,
     REOP_save_start, REOP_save_end, REOP_save_reset, REOP_loop, REOP_push_i32, REOP_drop,
     REOP_word_boundary, REOP_not_word_boundary, REOP_back_reference,
     REOP_backward_back_reference, REOP_range, REOP_range32, REOP_lookahead,
     REOP_negative_lookahead, REOP_push_char_pos, REOP_bne_char_pos, REOP_prev,
     REOP_simple_greedy_quant]"

definition REOP_COUNT :: nat where
  "REOP_COUNT = length reop_list"

definition reop_decode :: "u8 \<Rightarrow> reop option" where
  "reop_decode b = rd reop_list (unat b)"

fun index_of :: "'a \<Rightarrow> 'a list \<Rightarrow> nat" where
  "index_of x [] = 0"
| "index_of x (y # ys) = (if x = y then 0 else Suc (index_of x ys))"

definition reop_code :: "reop \<Rightarrow> u8" where
  "reop_code op = of_nat (index_of op reop_list)"

section \<open>Header\<close>

abbreviation (input) RE_HEADER_FLAGS :: nat where "RE_HEADER_FLAGS \<equiv> 0"
abbreviation (input) RE_HEADER_CAPTURE_COUNT :: nat where "RE_HEADER_CAPTURE_COUNT \<equiv> 1"
abbreviation (input) RE_HEADER_STACK_SIZE :: nat where "RE_HEADER_STACK_SIZE \<equiv> 2"
abbreviation (input) RE_HEADER_LEN :: nat where "RE_HEADER_LEN \<equiv> 7"

definition LRE_FLAG_GLOBAL :: u8 where "LRE_FLAG_GLOBAL = 1"
definition LRE_FLAG_IGNORECASE :: u8 where "LRE_FLAG_IGNORECASE = 2"
definition LRE_FLAG_MULTILINE :: u8 where "LRE_FLAG_MULTILINE = 4"
definition LRE_FLAG_DOTALL :: u8 where "LRE_FLAG_DOTALL = 8"
definition LRE_FLAG_UTF16 :: u8 where "LRE_FLAG_UTF16 = 16"
definition LRE_FLAG_STICKY :: u8 where "LRE_FLAG_STICKY = 32"
definition LRE_FLAG_NAMED_GROUPS :: u8 where "LRE_FLAG_NAMED_GROUPS = 128"

section \<open>Lemmas\<close>

lemma rdi_nat [simp]: "rdi m (int i) = rd m i"
  by (simp add: rdi_def)

lemma rdi_Some_iff [mem_simps]:
  "rdi m i = Some v \<longleftrightarrow> 0 \<le> i \<and> i < int (length m) \<and> m ! nat i = v"
  by (auto simp: rdi_def rd_Some_iff nat_less_iff)

lemma wri_Some_iff [mem_simps]:
  "wri m i v = Some m' \<longleftrightarrow> 0 \<le> i \<and> i < int (length m) \<and> m' = m[nat i := v]"
  by (auto simp: wri_def wr_Some_iff nat_less_iff)

lemma le_bytes_length [simp]: "length (le_bytes v) = 4"
  by (simp add: le_bytes_def)

lemma reop_decode_code [simp]: "reop_decode (reop_code op) = Some op"
  by (cases op) (simp_all add: reop_decode_def reop_code_def reop_list_def)

lemma reop_code_inj [simp]: "reop_code a = reop_code b \<longleftrightarrow> a = b"
  using reop_decode_code by (metis option.inject)

lemma reop_decode_Some: "reop_decode b = Some op \<Longrightarrow> b = reop_code op"
proof -
  assume "reop_decode b = Some op"
  then have b: "unat b < 29" "op = reop_list ! unat b"
    by (auto simp: reop_decode_def rd_Some_iff reop_list_def)
  have "\<forall>n < 29. reop_code (reop_list ! n) = of_nat n"
    by code_simp
  with b show "b = reop_code op" by auto
qed

lemma reop_size_pos [simp]: "0 < reop_size op"
  by (cases op) simp_all

lemma word_bytes_join:
  fixes v :: u32
  shows "ucast (ucast v :: u8) OR push_bit 8 (ucast (ucast (drop_bit 8 v) :: u8)) OR
    push_bit 16 (ucast (ucast (drop_bit 16 v) :: u8)) OR
    push_bit 24 (ucast (ucast (drop_bit 24 v) :: u8)) = v"
proof (rule bit_word_eqI)
  fix n assume "n < LENGTH(32)"
  then show "bit (ucast (ucast v :: u8) OR push_bit 8 (ucast (ucast (drop_bit 8 v) :: u8)) OR
    push_bit 16 (ucast (ucast (drop_bit 16 v) :: u8)) OR
    push_bit 24 (ucast (ucast (drop_bit 24 v) :: u8)) :: u32) n = bit v n"
    by (cases "n < 8"; cases "n < 16"; cases "n < 24") (auto simp: bit_simps)
qed

lemma get_u8_iff: "get_u8 m i = Some v \<longleftrightarrow>
  0 \<le> i \<and> i < int (length m) \<and> v = ucast (m ! nat i)"
  by (auto simp: get_u8_def rdi_Some_iff)

lemma nth_block:
  assumes "take n (drop i m) = d" and "k < n" and "i + n \<le> length m"
  shows "m ! (i + k) = d ! k"
  using assms by auto

lemma get_u32_le_bytes:
  assumes "i + 4 \<le> length m" and "take 4 (drop i m) = le_bytes v"
  shows "get_u32 m (int i) = Some v"
proof -
  have "m ! (i + k) = le_bytes v ! k" if "k < 4" for k
    using nth_block [OF assms(2) that assms(1)] .
  from this [of 0] this [of 1] this [of 2] this [of 3]
  have "m ! i = ucast v" "m ! (i + 1) = ucast (drop_bit 8 v)"
    "m ! (i + 2) = ucast (drop_bit 16 v)" "m ! (i + 3) = ucast (drop_bit 24 v)"
    by (simp_all add: le_bytes_def)
  moreover have "nat (int i + 1) = i + 1" "nat (int i + 2) = i + 2" "nat (int i + 3) = i + 3"
    by simp_all
  ultimately show ?thesis
    using assms(1) word_bytes_join [of v] by (simp add: get_u32_def get_u8_def rdi_def)
qed

lemma get_u16_le_bytes:
  assumes "i + 2 \<le> length m" and "take 2 (drop i m) = take 2 (le_bytes v)" and "v < 0x10000"
  shows "get_u16 m (int i) = Some v"
proof -
  have "m ! (i + k) = take 2 (le_bytes v) ! k" if "k < 2" for k
    using nth_block [OF assms(2) that assms(1)] .
  from this [of 0] this [of 1]
  have "m ! i = ucast v" "m ! (i + 1) = ucast (drop_bit 8 v)"
    by (simp_all add: le_bytes_def)
  moreover have "nat (int i + 1) = i + 1" by simp
  moreover have "ucast (ucast v :: u8) OR push_bit 8 (ucast (ucast (drop_bit 8 v) :: u8)) = v"
  proof (rule bit_word_eqI)
    fix n assume n: "n < LENGTH(32)"
    have "\<not> bit v n" if "16 \<le> n"
    proof -
      have "take_bit 16 v = v"
        using assms(3) by (intro word_unat_eq_iff [THEN iffD2])
          (simp add: unsigned_take_bit_eq take_bit_nat_eq_self word_less_nat_alt)
      then have "bit v n \<longleftrightarrow> bit (take_bit 16 v) n" by simp
      with that show ?thesis by (simp add: bit_take_bit_iff)
    qed
    then show "bit (ucast (ucast v :: u8) OR push_bit 8 (ucast (ucast (drop_bit 8 v) :: u8)) :: u32) n
      = bit v n"
      using n by (cases "n < 8"; cases "n < 16") (auto simp: bit_simps)
  qed
  ultimately show ?thesis
    using assms(1) by (simp add: get_u16_def get_u8_def rdi_def)
qed

lemma put_u32_get:
  assumes "put_u32 m i v = Some m'"
  shows "get_u32 m' (int i) = Some v" and "length m' = length m"
proof -
  from assms have m: "i + 4 \<le> length m" "m' = take i m @ le_bytes v @ drop (i + 4) m"
    by (auto simp: put_u32_def mem_simps)
  then show "length m' = length m" by simp
  show "get_u32 m' (int i) = Some v"
    using m by (intro get_u32_le_bytes) simp_all
qed

text \<open>A 32 bit store is read back by the load at the same place, keeps the size of the block
  and every other byte.\<close>

theorem put_get_u32:
  assumes "i + 4 \<le> length m"
  shows "\<exists>m'. put_u32 m i v = Some m' \<and> get_u32 m' (int i) = Some v \<and> length m' = length m \<and>
    (\<forall>k < length m. k < i \<or> i + 4 \<le> k \<longrightarrow> m' ! k = m ! k)"
proof -
  let ?m = "take i m @ le_bytes v @ drop (i + 4) m"
  have p: "put_u32 m i v = Some ?m" using assms by (simp add: put_u32_def wr_block_def)
  have "?m ! k = m ! k" if "k < length m" "k < i \<or> i + 4 \<le> k" for k
    using that assms by (auto simp: nth_append min_def)
  then show ?thesis using p put_u32_get [OF p] by blast
qed

theorem put_get_u32_witness:
  "\<exists>m'. put_u32 [1,2,3,4,5,6] 1 0xdeadbeef = Some m' \<and> get_u32 m' 1 = Some 0xdeadbeef \<and> m' ! 0 = 1"
  using put_get_u32 [of 1 "[1,2,3,4,5,6]" "0xdeadbeef"] by fastforce

end
