(* ===== verification/UnicodeRuns.thy ===== *)
theory UnicodeRuns
  imports UnicodeTables UnicodeCase ReBytes
begin

text \<open>
  Membership of a character in a property table (\<open>libunicode.c\<close>, \<open>get_le24\<close> to
  \<open>lre_is_case_ignorable\<close>, \<open>lre_is_id_start\<close> and \<open>lre_is_id_continue\<close>).  A table is a sequence of
  run lengths, alternately outside and inside the property; an index allows to start in the
  middle.  A pointer into a table is the list of the bytes from it to the end of the table.
\<close>

section \<open>Index\<close>

definition get_le24 :: "u8 list \<Rightarrow> int \<Rightarrow> u32 option" where
  "get_le24 tbl i = do {
     b0 \<leftarrow> get_u8 tbl i;
     b1 \<leftarrow> get_u8 tbl (i + 1);
     b2 \<leftarrow> get_u8 tbl (i + 2);
     Some (b0 OR push_bit 8 b1 OR push_bit 16 b2)
   }"

definition code21 :: "u32 \<Rightarrow> u32" where
  "code21 v = v AND 0x1fffff"

function index_search :: "u8 list \<Rightarrow> u32 \<Rightarrow> int \<Rightarrow> int \<Rightarrow> int option" where
  "index_search index_table c idx_min idx_max =
     (if idx_max - idx_min > 1 then
        let idx = (idx_max + idx_min) div 2 in
        case get_le24 index_table (idx * 3) of
          None \<Rightarrow> None
        | Some v \<Rightarrow> if c < code21 v then index_search index_table c idx_min idx
            else index_search index_table c idx idx_max
      else Some idx_min)"
  by pat_completeness auto
termination
  by (relation "measure (\<lambda>(t, c, a, b). nat (b - a))") auto

declare index_search.simps [simp del]

text \<open>The result: the offset in the table, or -1, and \<open>*pcode\<close>.\<close>

definition get_index_pos :: "u32 \<Rightarrow> u8 list \<Rightarrow> int \<Rightarrow> (int \<times> u32) option" where
  "get_index_pos c index_table index_table_len = do {
     v \<leftarrow> get_le24 index_table 0;
     if c < code21 v then Some (0, 0)
     else do {
       let idx_max = index_table_len - 1;
       code \<leftarrow> get_le24 index_table (idx_max * 3);
       if c \<ge> code then Some (-1, 0)
       else do {
         idx_min \<leftarrow> index_search index_table c 0 idx_max;
         v \<leftarrow> get_le24 index_table (idx_min * 3);
         Some ((idx_min + 1) * 32 + uint (drop_bit 21 v), code21 v)
       }
     }
   }"

section \<open>Tables\<close>

text \<open>One code of a table: the lengths of the one or two runs it stands for, and the rest of the
  table.\<close>

fun prop_delta :: "u8 list \<Rightarrow> (u32 option \<times> u32 \<times> u8 list) option" where
  "prop_delta [] = None"
| "prop_delta (x # p) = (let b = ucast x :: u32 in
     if b < 64 then Some (Some (drop_bit 3 b + 1), (b AND 7) + 1, p)
     else if b \<ge> 0x80 then Some (None, b - 0x80 + 1, p)
     else if b < 0x60 then (case p of
         b1 # p' \<Rightarrow> Some (None, (push_bit 8 (b - 0x40) OR ucast b1) + 1, p')
       | [] \<Rightarrow> None)
     else (case p of
         b1 # b2 # p' \<Rightarrow>
           Some (None, (push_bit 16 (b - 0x60) OR push_bit 8 (ucast b1) OR ucast b2) + 1, p')
       | _ \<Rightarrow> None))"

lemma prop_delta_shorter: "prop_delta p = Some (a, n, q) \<Longrightarrow> length q < length p"
  by (cases p) (auto simp: Let_def split: if_splits list.splits)

function in_table_loop :: "u8 list \<Rightarrow> u32 \<Rightarrow> bool \<Rightarrow> u32 \<Rightarrow> bool option" where
  "in_table_loop p code inside c = (case prop_delta p of
     None \<Rightarrow> None
   | Some (None, n, q) \<Rightarrow>
       if c < code + n then Some inside else in_table_loop q (code + n) (\<not> inside) c
   | Some (Some a, n, q) \<Rightarrow>
       if c < code + a then Some inside
       else if c < code + a + n then Some (\<not> inside)
       else in_table_loop q (code + a + n) inside c)"
  by pat_completeness auto
termination
  by (relation "measure (\<lambda>(p, code, inside, c). length p)") (auto dest: prop_delta_shorter)

declare in_table_loop.simps [simp del]

definition lre_is_in_table :: "u32 \<Rightarrow> u8 list \<Rightarrow> u8 list \<Rightarrow> int \<Rightarrow> bool option" where
  "lre_is_in_table c table index_table index_table_len = do {
     (pos, code) \<leftarrow> get_index_pos c index_table index_table_len;
     if pos < 0 then Some False
     else if pos > int (length table) then None
     else in_table_loop (drop (nat pos) table) code False c
   }"

definition lre_is_cased :: "u32 \<Rightarrow> bool option" where
  "lre_is_cased c =
     (case run_search run_code run_len case_conv_table1 c 0 (int (length case_conv_table1) - 1) of
        Some idx \<Rightarrow> Some True
      | None \<Rightarrow> lre_is_in_table c unicode_prop_Cased1_table unicode_prop_Cased1_index
          (int (length unicode_prop_Cased1_index) div 3))"

definition lre_is_case_ignorable :: "u32 \<Rightarrow> bool option" where
  "lre_is_case_ignorable c = lre_is_in_table c unicode_prop_Case_Ignorable_table
     unicode_prop_Case_Ignorable_index (int (length unicode_prop_Case_Ignorable_index) div 3)"

definition lre_is_id_start :: "u32 \<Rightarrow> bool option" where
  "lre_is_id_start c = lre_is_in_table c unicode_prop_ID_Start_table unicode_prop_ID_Start_index
     (int (length unicode_prop_ID_Start_index) div 3)"

definition lre_is_id_continue :: "u32 \<Rightarrow> bool option" where
  "lre_is_id_continue c = do {
     b \<leftarrow> lre_is_id_start c;
     if b then Some True
     else lre_is_in_table c unicode_prop_ID_Continue1_table unicode_prop_ID_Continue1_index
       (int (length unicode_prop_ID_Continue1_index) div 3)
   }"

section \<open>The meaning of a table\<close>

text \<open>The run lengths a table encodes, and the characters inside: the reference definition that
  does not use the index.\<close>

function prop_runs :: "u8 list \<Rightarrow> int list option" where
  "prop_runs p = (if p = [] then Some [] else case prop_delta p of
     None \<Rightarrow> None
   | Some (None, n, q) \<Rightarrow> map_option (\<lambda>r. uint n # r) (prop_runs q)
   | Some (Some a, n, q) \<Rightarrow> map_option (\<lambda>r. uint a # uint n # r) (prop_runs q))"
  by pat_completeness auto
termination
  by (relation "measure length") (auto dest: prop_delta_shorter)

declare prop_runs.simps [simp del]

fun runs_in :: "int list \<Rightarrow> int \<Rightarrow> bool \<Rightarrow> int \<Rightarrow> bool" where
  "runs_in [] k inside c = False"
| "runs_in (r # rs) k inside c = (if c < k + r then inside else runs_in rs (k + r) (\<not> inside) c)"

definition table_runs :: "u8 list \<Rightarrow> int list" where
  "table_runs tbl = (case prop_runs tbl of None \<Rightarrow> [] | Some rs \<Rightarrow> rs)"

lemma prop_runs_Nil [simp]: "prop_runs [] = Some []"
  by (simp add: prop_runs.simps)

lemma prop_delta_append:
  "prop_delta p = Some (a, n, q) \<Longrightarrow> prop_delta (p @ r) = Some (a, n, q @ r)"
  by (cases p) (auto simp: Let_def split: if_splits list.splits)

lemma prop_runs_step:
  assumes "prop_runs p = Some rs" and "p \<noteq> []"
  obtains a n q r2 where "prop_delta p = Some (a, n, q)" and "length q < length p"
    and "prop_runs q = Some r2"
    and "rs = (case a of None \<Rightarrow> [uint n] | Some x \<Rightarrow> [uint x, uint n]) @ r2"
proof -
  from assms obtain a n q where d: "prop_delta p = Some (a, n, q)"
    by (subst (asm) prop_runs.simps) (auto split: option.splits)
  with assms obtain r2 where "prop_runs q = Some r2"
      "rs = (case a of None \<Rightarrow> [uint n] | Some x \<Rightarrow> [uint x, uint n]) @ r2"
    by (subst (asm) prop_runs.simps) (auto split: option.splits)
  with d prop_delta_shorter [OF d] that show thesis by blast
qed

lemma prop_runs_unfold:
  assumes "prop_delta p = Some (a, n, q)"
  shows "prop_runs p =
    map_option ((@) (case a of None \<Rightarrow> [uint n] | Some x \<Rightarrow> [uint x, uint n])) (prop_runs q)"
proof -
  from assms have "p \<noteq> []" by auto
  with assms show ?thesis
    by (subst prop_runs.simps, cases a; cases "prop_runs q") simp_all
qed

lemma prop_runs_append:
  "prop_runs p = Some r1 \<Longrightarrow> prop_runs (p @ q) = map_option ((@) r1) (prop_runs q)"
proof (induction p arbitrary: r1 rule: length_induct)
  case (1 p)
  show ?case
  proof (cases "p = []")
    case True
    with 1 show ?thesis by (cases "prop_runs q") simp_all
  next
    case False
    with 1(2) obtain a n t r2 where d: "prop_delta p = Some (a, n, t)" "length t < length p"
        "prop_runs t = Some r2" "r1 = (case a of None \<Rightarrow> [uint n] | Some x \<Rightarrow> [uint x, uint n]) @ r2"
      by (rule prop_runs_step)
    from 1(1) d(2,3) have "prop_runs (t @ q) = map_option ((@) r2) (prop_runs q)" by blast
    then show ?thesis
      using prop_runs_unfold [OF prop_delta_append [OF d(1)], of q] d(4)
      by (cases "prop_runs q") simp_all
  qed
qed

lemma prop_runs_nonneg: "prop_runs p = Some rs \<Longrightarrow> \<forall>r \<in> set rs. 0 \<le> r"
proof (induction p arbitrary: rs rule: length_induct)
  case (1 p)
  show ?case
  proof (cases "p = []")
    case True
    with 1 show ?thesis by simp
  next
    case False
    with 1(2) obtain a n t r2 where d: "prop_delta p = Some (a, n, t)" "length t < length p"
        "prop_runs t = Some r2" "rs = (case a of None \<Rightarrow> [uint n] | Some x \<Rightarrow> [uint x, uint n]) @ r2"
      by (rule prop_runs_step)
    from 1(1) d(2,3) have "\<forall>r \<in> set r2. 0 \<le> r" by blast
    with d(4) show ?thesis by (auto split: option.splits)
  qed
qed

lemma runs_in_skip:
  assumes "\<forall>r \<in> set r1. 0 \<le> r" and "even (length r1)" and "k + sum_list r1 \<le> c"
  shows "runs_in (r1 @ r2) k inside c = runs_in r2 (k + sum_list r1) inside c"
  using assms
proof (induction r1 arbitrary: k inside rule: induct_list012)
  case (3 a b r)
  have "0 \<le> sum_list r" using 3 by (intro sum_list_nonneg) auto
  then have "\<not> c < k + a" "\<not> c < k + a + b" using 3 by auto
  with 3(1) [of "k + a + b" inside] 3 show ?case by (simp add: ac_simps)
qed simp_all

lemma runs_in_beyond:
  assumes "\<forall>r \<in> set rs. 0 \<le> r" and "k + sum_list rs \<le> c"
  shows "\<not> runs_in rs k inside c"
  using assms
proof (induction rs arbitrary: k inside)
  case (Cons r rs)
  then have "0 \<le> sum_list rs" by (intro sum_list_nonneg) auto
  with Cons show ?case by (simp add: ac_simps)
qed simp

lemma uint_add_le: "uint (a :: u32) + uint b < 2 ^ 32 \<Longrightarrow> uint (a + b) = uint a + uint b"
  by (simp add: uint_word_ariths)

lemma in_table_loop_runs:
  assumes "prop_runs p = Some rs" and "uint code + sum_list rs < 2 ^ 32"
    and "uint code \<le> uint c" and "uint c < uint code + sum_list rs"
  shows "in_table_loop p code inside c = Some (runs_in rs (uint code) inside (uint c))"
  using assms
proof (induction p arbitrary: rs code inside rule: length_induct)
  case (1 p)
  have "p \<noteq> []" using 1(2,4,5) by auto
  with 1(2) obtain a n q r2 where d: "prop_delta p = Some (a, n, q)" "length q < length p"
      "prop_runs q = Some r2" "rs = (case a of None \<Rightarrow> [uint n] | Some x \<Rightarrow> [uint x, uint n]) @ r2"
    by (rule prop_runs_step)
  have nn: "0 \<le> sum_list r2"
    using prop_runs_nonneg [OF d(3)] by (intro sum_list_nonneg) auto
  note ih = 1(1) [rule_format, OF d(2,3)]
  show ?case
  proof (cases a)
    case None
    have u: "uint (code + n) = uint code + uint n"
      using 1(3) d(4) None nn by (intro uint_add_le) simp
    then show ?thesis
      using 1(3-5) d None ih [of "code + n" "\<not> inside"]
      by (subst in_table_loop.simps) (auto simp: word_less_def ac_simps)
  next
    case (Some x)
    have "uint code + uint x \<le> uint code + sum_list rs" using d(4) Some nn by simp
    then have u: "uint (code + x) = uint code + uint x"
      using 1(3) by (intro uint_add_le) (rule le_less_trans)
    have u2: "uint (code + x + n) = uint code + uint x + uint n"
      using 1(3) d(4) Some nn u by (subst uint_add_le) auto
    show ?thesis
      using 1(3-5) d Some u u2 ih [of "code + x + n" inside]
      by (subst in_table_loop.simps) (auto simp: word_less_def ac_simps)
  qed
qed

section \<open>Index and table\<close>

text \<open>The index is consistent with the table: every entry points to the boundary of a code, after
  an even number of runs, with the sum of the runs before it, and the last entry is the sum of
  all runs.  The check walks over the blocks of the table once.\<close>

fun blocks_ok :: "u8 list \<Rightarrow> int \<Rightarrow> int \<Rightarrow> int \<Rightarrow> (int \<times> int) list \<Rightarrow> bool" where
  "blocks_ok rest pos k tot [] = (case prop_runs rest of
     None \<Rightarrow> False | Some rs \<Rightarrow> k + sum_list rs = tot)"
| "blocks_ok rest pos k tot ((p, c) # es) = (let d = nat (p - pos) in
     pos \<le> p \<and> length (take d rest) = d \<and>
     (case prop_runs (take d rest) of
        None \<Rightarrow> False | Some rs \<Rightarrow> even (length rs) \<and> k + sum_list rs = c) \<and>
     blocks_ok (drop d rest) p c tot es)"

definition index_entry :: "u8 list \<Rightarrow> nat \<Rightarrow> (int \<times> int) option" where
  "index_entry idx i = do {
     v \<leftarrow> get_le24 idx (int i * 3);
     Some ((int i + 1) * 32 + uint (drop_bit 21 v), uint (code21 v))
   }"

definition index_ok :: "u8 list \<Rightarrow> u8 list \<Rightarrow> nat \<Rightarrow> bool" where
  "index_ok tbl idx n \<longleftrightarrow> 2 \<le> n \<and> (\<forall>i \<in> set [0..<n - 1]. index_entry idx i \<noteq> None) \<and>
     (case get_le24 idx ((int n - 1) * 3) of
        None \<Rightarrow> False
      | Some tot \<Rightarrow> blocks_ok tbl 0 0 (uint tot) (map (\<lambda>i. the (index_entry idx i)) [0..<n - 1]))"

lemma blocks_ok_runs:
  assumes "blocks_ok rest pos k tot es"
  shows "\<exists>rs. prop_runs rest = Some rs \<and> k + sum_list rs = tot \<and>
    (\<forall>(p, c) \<in> set es. pos \<le> p \<and> p - pos \<le> int (length rest) \<and> (\<exists>r1 r2. rs = r1 @ r2 \<and> even (length r1) \<and>
       k + sum_list r1 = c \<and> prop_runs (drop (nat (p - pos)) rest) = Some r2))"
  using assms
proof (induction es arbitrary: rest pos k)
  case Nil
  then show ?case by (auto split: option.splits)
next
  case (Cons e es)
  obtain p c where e: "e = (p, c)" by force
  let ?d = "nat (p - pos)"
  from Cons.prems obtain r0 where h: "pos \<le> p" "?d \<le> length rest"
      "prop_runs (take ?d rest) = Some r0" "even (length r0)" "k + sum_list r0 = c"
      "blocks_ok (drop ?d rest) p c tot es"
    by (auto simp: e Let_def split: option.splits)
  from Cons.IH [OF h(6)] obtain rs where rs: "prop_runs (drop ?d rest) = Some rs" "c + sum_list rs = tot"
    and ent: "\<forall>(p', c') \<in> set es. p \<le> p' \<and> p' - p \<le> int (length (drop ?d rest)) \<and>
      (\<exists>r1 r2. rs = r1 @ r2 \<and> even (length r1) \<and>
       c + sum_list r1 = c' \<and> prop_runs (drop (nat (p' - p)) (drop ?d rest)) = Some r2)"
    by blast
  have all: "prop_runs rest = Some (r0 @ rs)"
    using prop_runs_append [OF h(3), of "drop ?d rest"] rs(1) by simp
  have "pos \<le> p' \<and> p' - pos \<le> int (length rest) \<and> (\<exists>r1 r2. r0 @ rs = r1 @ r2 \<and> even (length r1) \<and>
      k + sum_list r1 = c' \<and> prop_runs (drop (nat (p' - pos)) rest) = Some r2)"
    if "(p', c') \<in> set es" for p' c'
  proof -
    from ent that obtain r1 r2 where r: "p \<le> p'" "p' - p \<le> int (length (drop ?d rest))" "rs = r1 @ r2"
        "even (length r1)" "c + sum_list r1 = c'" "prop_runs (drop (nat (p' - p)) (drop ?d rest)) = Some r2"
      by fastforce
    have "nat (p' - p) + ?d = nat (p' - pos)" using h(1) r(1) by simp
    then have "prop_runs (drop (nat (p' - pos)) rest) = Some r2" using r(6) by simp
    moreover have "p' - pos \<le> int (length rest)" using r(1,2) h(1,2) by (simp add: of_nat_diff)
    moreover have "r0 @ rs = (r0 @ r1) @ r2" "even (length (r0 @ r1))" "k + sum_list (r0 @ r1) = c'"
      using r h by simp_all
    ultimately show ?thesis using h(1) r(1) by (intro conjI exI [of _ "r0 @ r1"] exI [of _ r2]) auto
  qed
  then have "\<forall>(p', c') \<in> set (e # es). pos \<le> p' \<and> p' - pos \<le> int (length rest) \<and>
      (\<exists>r1 r2. r0 @ rs = r1 @ r2 \<and> even (length r1) \<and>
      k + sum_list r1 = c' \<and> prop_runs (drop (nat (p' - pos)) rest) = Some r2)"
    using h rs(1) by (fastforce simp: e)
  with all rs(2) h(5) show ?case by (intro exI [of _ "r0 @ rs"]) simp
qed

lemma index_okD:
  assumes "index_ok tbl idx n"
  obtains v where "2 \<le> n" and "get_le24 idx ((int n - 1) * 3) = Some v"
    and "\<And>i. i < n - 1 \<Longrightarrow> index_entry idx i \<noteq> None"
    and "blocks_ok tbl 0 0 (uint v) (map (\<lambda>i. the (index_entry idx i)) [0..<n - 1])"
proof -
  from assms obtain v where "get_le24 idx ((int n - 1) * 3) = Some v"
    by (cases "get_le24 idx ((int n - 1) * 3)") (simp_all add: index_ok_def)
  with assms that show thesis by (simp add: index_ok_def)
qed

text \<open>The binary search needs nothing of the table but that the entries of the index can be read.\<close>

locale index_entries =
  fixes idx :: "u8 list" and n :: nat
  assumes entries: "i < n - 1 \<Longrightarrow> \<exists>v. get_le24 idx (int i * 3) = Some v"
begin

lemma search:
  assumes "0 \<le> a" and "a < b" and "b < int n" and "\<exists>v. get_le24 idx (a * 3) = Some v \<and> code21 v \<le> c"
  shows "\<exists>i v. index_search idx c a b = Some (int i) \<and> i < n - 1 \<and>
    get_le24 idx (int i * 3) = Some v \<and> code21 v \<le> c"
  using assms
proof (induction "nat (b - a)" arbitrary: a b rule: less_induct)
  case less
  show ?case
  proof (cases "b - a > 1")
    case False
    then have "index_search idx c a b = Some (int (nat a))" "nat a < n - 1"
      using less.prems by (subst index_search.simps, auto)
    then show ?thesis using less.prems by (intro exI [of _ "nat a"]) auto
  next
    case True
    let ?m = "(b + a) div 2"
    have m: "a < ?m" "?m < b" using True by auto
    then have "nat ?m < n - 1" "?m = int (nat ?m)" using less.prems by auto
    with entries obtain v where v: "get_le24 idx (?m * 3) = Some v" by metis
    have eq: "index_search idx c a b = (if c < code21 v then index_search idx c a ?m
        else index_search idx c ?m b)"
      using True v by (subst index_search.simps) (simp add: Let_def)
    show ?thesis
    proof (cases "c < code21 v")
      case True
      then show ?thesis using less.hyps [of ?m a] less.prems m eq by simp
    next
      case False
      then show ?thesis using less.hyps [of b ?m] less.prems m eq v by simp
    qed
  qed
qed

end

locale prop_index =
  fixes tbl idx :: "u8 list" and n :: nat
  assumes consistent: "index_ok tbl idx n"
    and short: "sum_list (table_runs tbl) < 2 ^ 32"
begin

lemma entry:
  assumes "i < n - 1"
  shows "\<exists>v r1 r2. get_le24 idx (int i * 3) = Some v \<and> prop_runs tbl = Some (r1 @ r2) \<and>
    even (length r1) \<and> sum_list r1 = uint (code21 v) \<and>
    (int i + 1) * 32 + uint (drop_bit 21 v) \<le> int (length tbl) \<and>
    prop_runs (drop (nat ((int i + 1) * 32 + uint (drop_bit 21 v))) tbl) = Some r2"
proof -
  let ?es = "map (\<lambda>i. the (index_entry idx i)) [0..<n - 1]"
  from consistent obtain w :: u32 where b: "blocks_ok tbl 0 0 (uint w) ?es"
    and ne: "\<And>i. i < n - 1 \<Longrightarrow> index_entry idx i \<noteq> None"
    by (elim index_okD) blast
  from ne [OF assms] obtain v where v: "get_le24 idx (int i * 3) = Some v"
    by (auto simp: index_entry_def bind_eq_None_conv)
  then have "the (index_entry idx i) = ((int i + 1) * 32 + uint (drop_bit 21 v), uint (code21 v))"
    by (simp add: index_entry_def)
  then have "((int i + 1) * 32 + uint (drop_bit 21 v), uint (code21 v)) \<in> set ?es"
    using assms by force
  with blocks_ok_runs [OF b] v show ?thesis by fastforce
qed

lemma tot:
  "\<exists>v. get_le24 idx ((int n - 1) * 3) = Some v \<and> uint v = sum_list (table_runs tbl) \<and>
     prop_runs tbl = Some (table_runs tbl)"
proof -
  from consistent obtain v where v: "get_le24 idx ((int n - 1) * 3) = Some v"
    and b: "blocks_ok tbl 0 0 (uint v) (map (\<lambda>i. the (index_entry idx i)) [0..<n - 1])"
    by (elim index_okD) blast
  from blocks_ok_runs [OF b] v show ?thesis by (auto simp: table_runs_def)
qed

end

sublocale prop_index < index_entries idx n
  using entry by unfold_locales blast

context prop_index
begin

theorem is_in_table:
  "lre_is_in_table c tbl idx (int n) = Some (runs_in (table_runs tbl) 0 False (uint c))"
proof -
  have n: "2 \<le> n" using consistent by (simp add: index_ok_def)
  obtain w where w: "get_le24 idx ((int n - 1) * 3) = Some w" "uint w = sum_list (table_runs tbl)"
      "prop_runs tbl = Some (table_runs tbl)"
    using tot by blast
  note nn = prop_runs_nonneg [OF w(3)]
  from entry [of 0] n obtain v0 r1 r2 where v0: "get_le24 idx 0 = Some v0"
      "table_runs tbl = r1 @ r2" "sum_list r1 = uint (code21 v0)"
    using w(3) by auto
  have "0 \<le> sum_list r2" using nn v0(2) by (intro sum_list_nonneg) auto
  with v0 have v0t: "uint (code21 v0) \<le> sum_list (table_runs tbl)" by simp
  consider (low) "c < code21 v0" | (high) "\<not> c < code21 v0" "w \<le> c" | (mid) "code21 v0 \<le> c" "c < w"
    by (meson not_le)
  then show ?thesis
  proof cases
    case low
    then have "uint c < sum_list (table_runs tbl)" using v0t by (simp add: word_less_def)
    then have "in_table_loop tbl 0 False c = Some (runs_in (table_runs tbl) 0 False (uint c))"
      using in_table_loop_runs [OF w(3), of 0 c False] short by simp
    then show ?thesis using low v0 by (simp add: lre_is_in_table_def get_index_pos_def)
  next
    case high
    then have "\<not> runs_in (table_runs tbl) 0 False (uint c)"
      using w(2) nn by (intro runs_in_beyond) (simp_all add: word_le_def)
    then show ?thesis
      using high v0 w(1) by (simp add: lre_is_in_table_def get_index_pos_def Let_def)
  next
    case mid
    have "\<exists>v. get_le24 idx (0 * 3) = Some v \<and> code21 v \<le> c" using v0 mid by simp
    with search [of 0 "int n - 1" c] n obtain i v where
      i: "index_search idx c 0 (int n - 1) = Some (int i)" "i < n - 1"
        "get_le24 idx (int i * 3) = Some v" "code21 v \<le> c"
      by auto
    let ?p = "(int i + 1) * 32 + uint (drop_bit 21 v)"
    from entry [OF i(2)] i(3) obtain r1 r2 where r: "prop_runs tbl = Some (r1 @ r2)" "even (length r1)"
        "sum_list r1 = uint (code21 v)" "?p \<le> int (length tbl)" "prop_runs (drop (nat ?p) tbl) = Some r2"
      by auto
    have rr: "table_runs tbl = r1 @ r2" using r(1) by (simp add: table_runs_def)
    have "uint c < uint (code21 v) + sum_list r2"
      using mid(2) w(2) rr r(3) by (simp add: word_less_def)
    moreover have "uint (code21 v) + sum_list r2 < 2 ^ 32" using short rr r(3) by simp
    ultimately have "in_table_loop (drop (nat ?p) tbl) (code21 v) False c =
        Some (runs_in r2 (uint (code21 v)) False (uint c))"
      using in_table_loop_runs [OF r(5)] i(4) by (simp add: word_le_def)
    moreover have "runs_in (r1 @ r2) 0 False (uint c) = runs_in r2 (uint (code21 v)) False (uint c)"
      using runs_in_skip [of r1 0 "uint c" r2 False] nn rr r(2,3) i(4) by (simp add: word_le_def)
    moreover have "\<not> int i * 32 + 32 + uint (drop_bit 21 v) < 0" using uint_ge_0 [of "drop_bit 21 v"] by linarith
    moreover have "\<not> c < code21 v0" "\<not> w \<le> c" using mid by auto
    ultimately show ?thesis
      using v0(1) w(1) i r(4) rr by (simp add: lre_is_in_table_def get_index_pos_def Let_def)
  qed
qed

end

lemma index_ok_short:
  assumes "index_ok tbl idx n"
  shows "sum_list (table_runs tbl) < 2 ^ 32"
proof -
  from assms obtain v :: u32 where b: "blocks_ok tbl 0 0 (uint v) (map (\<lambda>i. the (index_entry idx i)) [0..<n - 1])"
    by (elim index_okD) blast
  with blocks_ok_runs [OF b] uint_lt2p [of v] show ?thesis by (auto simp: table_runs_def)
qed

end
