(* ===== verification/UnicodeSets.thy ===== *)
theory UnicodeSets
  imports CharRange UnicodePropTables UnicodeRuns
begin

text \<open>
  Character sets from the Unicode tables (\<open>libunicode.c\<close>, \<open>unicode_find_name\<close> to \<open>unicode_prop\<close>):
  the name lookup, the general category, script, property and case tables turned into
  character ranges, and the stack machine that combines them.  A pointer into a table is the
  list of the bytes from it to the end.
\<close>

section \<open>Names\<close>

text \<open>The inner loop: the alternatives of one string, separated by commas.  The result is whether
  the name was found, and the pointer behind the string.\<close>

function find_alternative :: "u8 list \<Rightarrow> u8 list \<Rightarrow> (bool \<times> u8 list) option" where
  "find_alternative p name =
     (if 0 \<notin> set p then None
      else let s = takeWhile (\<lambda>b. b \<noteq> 0) p;
               r = (44 \<in> set s);
               len = (if r then length (takeWhile (\<lambda>b. b \<noteq> 44) s) else length s)
           in if len = length name \<and> take len p = name then Some (True, p)
              else if r then find_alternative (drop (len + 1) p) name
              else Some (False, drop (len + 1) p))"
  by pat_completeness auto
termination
  by (relation "measure (\<lambda>(p, name). length p)") (auto simp: Let_def length_greater_0_conv [symmetric]
      simp del: length_greater_0_conv dest: length_pos_if_in_set)

declare find_alternative.simps [simp del]

lemma find_alternative_shorter:
  "find_alternative p name = Some (b, q) \<Longrightarrow> length q \<le> length p \<and> (\<not> b \<longrightarrow> length q < length p)"
proof (induction p rule: length_induct)
  case (1 p)
  let ?s = "takeWhile (\<lambda>b. b \<noteq> 0) p"
  let ?len = "if 44 \<in> set ?s then length (takeWhile (\<lambda>b. b \<noteq> 44) ?s) else length ?s"
  have z: "0 \<in> set p" using 1(2) by (subst (asm) find_alternative.simps) (auto split: if_splits)
  then have l: "length (drop (?len + 1) p) < length p" by (auto dest: length_pos_if_in_set)
  have "(b, q) = (True, p) \<or> find_alternative (drop (?len + 1) p) name = Some (b, q) \<or>
      (b, q) = (False, drop (?len + 1) p)"
    using 1(2) z by (subst (asm) find_alternative.simps) (auto simp: Let_def split: if_splits)
  with 1(1) l show ?case by fastforce
qed

function unicode_find_name_loop :: "u8 list \<Rightarrow> u8 list \<Rightarrow> int \<Rightarrow> int option" where
  "unicode_find_name_loop p name pos = (case p of
     [] \<Rightarrow> None
   | x # _ \<Rightarrow> if x = 0 then Some (-1)
       else (case find_alternative p name of
          None \<Rightarrow> None
        | Some (True, _) \<Rightarrow> Some pos
        | Some (False, q) \<Rightarrow> unicode_find_name_loop q name (pos + 1)))"
  by pat_completeness auto
termination
  by (relation "measure (\<lambda>(p, name, pos). length p)") (auto dest: find_alternative_shorter)

declare unicode_find_name_loop.simps [simp del]

text \<open>\<open>name\<close> is a C string; the model takes its bytes without the terminator.\<close>

definition unicode_find_name :: "u8 list \<Rightarrow> u8 list \<Rightarrow> int option" where
  "unicode_find_name name_table name = unicode_find_name_loop name_table name 0"

section \<open>Scripts\<close>

text \<open>The outcome of \<open>unicode_script\<close>: a return value, or the loop \<open>goto fail\<close> that the label \<open>fail\<close>
  ends with.\<close>

datatype script_result = Script_return int charrange | Script_loops

fun script_delta :: "u8 list \<Rightarrow> (u32 \<times> u32 \<times> u8 list) option" where
  "script_delta [] = None"
| "script_delta (x # p) = (let b = ucast x :: u32; type = drop_bit 7 b; n = b AND 0x7f in do {
     (n, p) \<leftarrow> (if n < 96 then Some (n, p)
       else if n < 112 then (case p of
           b1 # p' \<Rightarrow> Some ((push_bit 8 (n - 96) OR ucast b1) + 96, p') | [] \<Rightarrow> None)
       else (case p of
           b1 # b2 # p' \<Rightarrow> Some ((push_bit 16 (n - 112) OR push_bit 8 (ucast b1) OR ucast b2)
             + (96 + 4096), p')
         | _ \<Rightarrow> None));
     if type = 0 then Some (n, 0, p)
     else (case p of v # p' \<Rightarrow> Some (n, ucast v, p') | [] \<Rightarrow> None)
   })"

lemma script_delta_shorter: "script_delta p = Some (n, v, q) \<Longrightarrow> length q < length p"
  by (cases p) (auto simp: Let_def bind_Some_iff split: if_splits list.splits)

function script_loop :: "u8 list \<Rightarrow> u32 \<Rightarrow> charrange \<Rightarrow> u32 \<Rightarrow> (int \<times> charrange) option" where
  "script_loop p script_idx cr c = (if p = [] then Some (0, cr) else (case script_delta p of
     None \<Rightarrow> None
   | Some (n, v, q) \<Rightarrow> do {
       let c1 = c + n + 1;
       (r, cr) \<leftarrow> (if v = script_idx then cr_add_interval cr c c1 else Some (0, cr));
       if r \<noteq> 0 then Some (r, cr) else script_loop q script_idx cr c1
     }))"
  by pat_completeness auto
termination
  by (relation "measure (\<lambda>(p, i, cr, c). length p)") (auto dest: script_delta_shorter)

declare script_loop.simps [simp del]

text \<open>A code of the script extension table: the run length, the list of scripts, the rest.\<close>

fun script_ext_delta :: "u8 list \<Rightarrow> (u32 \<times> u8 list \<times> u8 list) option" where
  "script_ext_delta [] = None"
| "script_ext_delta (x # p) = (let b = ucast x :: u32 in do {
     (n, p) \<leftarrow> (if b < 128 then Some (b, p)
       else if b < 128 + 64 then (case p of
           b1 # p' \<Rightarrow> Some ((push_bit 8 (b - 128) OR ucast b1) + 128, p') | [] \<Rightarrow> None)
       else (case p of
           b1 # b2 # p' \<Rightarrow> Some ((push_bit 16 (b - 128 - 64) OR push_bit 8 (ucast b1) OR ucast b2)
             + (128 + 16384), p')
         | _ \<Rightarrow> None));
     (case p of
        [] \<Rightarrow> None
      | v_len # p' \<Rightarrow> if unat v_len \<le> length p'
          then Some (n, take (unat v_len) p', drop (unat v_len) p') else None)
   })"

lemma script_ext_delta_shorter: "script_ext_delta p = Some (n, vs, q) \<Longrightarrow> length q < length p"
  by (cases p) (auto simp: Let_def bind_Some_iff split: if_splits list.splits)

function script_ext_loop ::
  "u8 list \<Rightarrow> u32 \<Rightarrow> bool \<Rightarrow> charrange \<Rightarrow> u32 \<Rightarrow> (int \<times> charrange) option" where
  "script_ext_loop p script_idx is_common cr c = (if p = [] then Some (0, cr) else
     (case script_ext_delta p of
        None \<Rightarrow> None
      | Some (n, vs, q) \<Rightarrow> do {
          let c1 = c + n + 1;
          let hit = (if is_common then vs \<noteq> [] else script_idx \<in> set (map ucast vs));
          (r, cr) \<leftarrow> (if hit then cr_add_interval cr c c1 else Some (0, cr));
          if r \<noteq> 0 then Some (r, cr) else script_ext_loop q script_idx is_common cr c1
        }))"
  by pat_completeness auto
termination
  by (relation "measure (\<lambda>(p, i, b, cr, c). length p)") (auto dest: script_ext_delta_shorter)

declare script_ext_loop.simps [simp del]

text \<open>The two ranges of the extended case are local; they use the allocator of \<open>cr\<close>.  After a failure they are
  freed again and again: freeing \<open>NULL\<close> does nothing, so the loop goes on for ever, but a block would be freed twice,
  which is undefined behaviour.\<close>

definition script_fail :: "charrange \<Rightarrow> charrange \<Rightarrow> script_result option" where
  "script_fail cr1 cr2 = (if cr_size cr1 = 0 \<and> cr_size cr2 = 0 then Some Script_loops else None)"

definition unicode_script_ext :: "charrange \<Rightarrow> u32 \<Rightarrow> bool \<Rightarrow> script_result option" where
  "unicode_script_ext cr script_idx is_common = do {
     let cr2 = cr_init (cr_realloc_func cr);
     (r, cr1) \<leftarrow> script_loop unicode_script_table script_idx (cr_init (cr_realloc_func cr)) 0;
     if r \<noteq> 0 then script_fail cr1 cr2 else do {
     (r, cr2) \<leftarrow> script_ext_loop unicode_script_ext_table script_idx is_common cr2 0;
     if r \<noteq> 0 then script_fail cr1 cr2 else do {
     (r, cr2) \<leftarrow> (if is_common then cr_invert cr2 else Some (0, cr2));
     if r \<noteq> 0 then script_fail cr1 cr2 else do {
     (r, cr) \<leftarrow> cr_op cr (cr_pts cr1) (cr_pts cr2) (if is_common then CR_OP_INTER else CR_OP_UNION);
     if r \<noteq> 0 then script_fail cr1 cr2 else Some (Script_return 0 cr)
   }}}}"

definition unicode_script :: "charrange \<Rightarrow> u8 list \<Rightarrow> bool \<Rightarrow> script_result option" where
  "unicode_script cr script_name is_ext = do {
     script_idx \<leftarrow> unicode_find_name unicode_script_name_table script_name;
     if script_idx < 0 then Some (Script_return (-2) cr)
     else do {
       let script_idx = of_int script_idx + of_nat (UNICODE_SCRIPT_Unknown + 1);
       let is_common = (script_idx = of_nat UNICODE_SCRIPT_Common \<or>
         script_idx = of_nat UNICODE_SCRIPT_Inherited);
       if is_ext then unicode_script_ext cr script_idx is_common
       else do {
         (r, cr) \<leftarrow> script_loop unicode_script_table script_idx cr 0;
         Some (if r \<noteq> 0 then Script_loops else Script_return 0 cr)
       }
     }
   }"

section \<open>General categories\<close>

definition gc_bit :: "nat \<Rightarrow> u32" where
  "gc_bit i = push_bit i 1"

fun gc_delta :: "u8 list \<Rightarrow> (u32 \<times> u32 \<times> u8 list) option" where
  "gc_delta [] = None"
| "gc_delta (x # p) = (let b = ucast x :: u32; n = drop_bit 5 b; v = b AND 0x1f in
     if n = 7 then (case p of
         [] \<Rightarrow> None
       | x1 # p1 \<Rightarrow> let n = ucast x1 :: u32 in
           if n < 128 then Some (n + 7, v, p1)
           else if n < 128 + 64 then (case p1 of
               b1 # p' \<Rightarrow> Some ((push_bit 8 (n - 128) OR ucast b1) + (7 + 128), v, p') | [] \<Rightarrow> None)
           else (case p1 of
               b1 # b2 # p' \<Rightarrow> Some ((push_bit 16 (n - 128 - 64) OR push_bit 8 (ucast b1) OR ucast b2)
                 + (7 + 128 + 16384), v, p')
             | _ \<Rightarrow> None))
     else Some (n, v, p))"

lemma gc_delta_shorter: "gc_delta p = Some (n, v, q) \<Longrightarrow> length q < length p"
  by (cases p) (auto simp: Let_def split: if_splits list.splits)

lemma unat_add2:
  assumes "unat c \<le> unat ((c :: u32) + 2)"
  shows "unat (c + 2) = unat c + 2"
proof -
  have m: "unat (c + 2) = (unat c + 2) mod 2 ^ 32" by (simp add: unat_word_ariths)
  have l: "unat c < 2 ^ 32" using unsigned_less [of c, where ?'a = nat] by simp
  show ?thesis
  proof (cases "unat c + 2 < 2 ^ 32")
    case False
    then have "(unat c + 2) mod 2 ^ 32 = unat c + 2 - 2 ^ 32" using l by (simp add: le_mod_geq)
    with m assms l show ?thesis by simp
  qed (simp add: m)
qed

text \<open>Every second character from \<open>c0\<close> on.  An increment that wraps would make the loop run for
  ever; the tables stay below \<open>0x110000\<close>.\<close>

function gc_alternate :: "charrange \<Rightarrow> u32 \<Rightarrow> u32 \<Rightarrow> (int \<times> charrange) option" where
  "gc_alternate cr c0 c = (if c0 < c then
     if c0 + 2 < c0 then None
     else (case cr_add_interval cr c0 (c0 + 1) of
        None \<Rightarrow> None
      | Some (r, cr) \<Rightarrow> if r \<noteq> 0 then Some (-1, cr) else gc_alternate cr (c0 + 2) c)
   else Some (0, cr))"
  by pat_completeness auto
termination
proof (relation "measure (\<lambda>(cr, c0, c). unat c - unat c0)")
  fix cr :: charrange and c0 c :: u32
  assume "c0 < c" and "\<not> c0 + 2 < c0"
  then have "unat c0 < unat c" "unat (c0 + 2) \<ge> unat c0"
    by (auto simp: word_less_nat_alt)
  then have "unat (c0 + 2) = unat c0 + 2" by (intro unat_add2)
  with \<open>unat c0 < unat c\<close>
  show "((cr', c0 + 2, c), cr, c0, c) \<in> measure (\<lambda>(cr, c0, c). unat c - unat c0)" for cr'
    by simp
qed auto

declare gc_alternate.simps [simp del]

definition gc_add ::
  "charrange \<Rightarrow> u32 \<Rightarrow> u32 \<Rightarrow> u32 \<Rightarrow> u32 \<Rightarrow> (int \<times> charrange) option" where
  "gc_add cr gc_mask v c0 c =
     (let ll = gc_bit UNICODE_GC_Ll; both = gc_bit UNICODE_GC_Lu OR ll in
      if v = 31 then
        let b = gc_mask AND both in
        if b \<noteq> 0 then
          if b = both then cr_add_interval cr c0 c
          else gc_alternate cr (c0 + (if gc_mask AND ll \<noteq> 0 then 1 else 0)) c
        else Some (0, cr)
      else if bit gc_mask (unat v) then cr_add_interval cr c0 c
      else Some (0, cr))"

function gc_loop :: "u8 list \<Rightarrow> u32 \<Rightarrow> charrange \<Rightarrow> u32 \<Rightarrow> (int \<times> charrange) option" where
  "gc_loop p gc_mask cr c = (if p = [] then Some (0, cr) else (case gc_delta p of
     None \<Rightarrow> None
   | Some (n, v, q) \<Rightarrow> do {
       let c1 = c + (n + 1);
       (r, cr) \<leftarrow> gc_add cr gc_mask v c c1;
       if r \<noteq> 0 then Some (-1, cr) else gc_loop q gc_mask cr c1
     }))"
  by pat_completeness auto
termination
  by (relation "measure (\<lambda>(p, m, cr, c). length p)") (auto dest: gc_delta_shorter)

declare gc_loop.simps [simp del]

definition unicode_general_category1 :: "charrange \<Rightarrow> u32 \<Rightarrow> (int \<times> charrange) option" where
  "unicode_general_category1 cr gc_mask = gc_loop unicode_gc_table gc_mask cr 0"

definition gc_mask_of :: "nat list \<Rightarrow> u32" where
  "gc_mask_of is = foldr (\<lambda>i m. gc_bit i OR m) is 0"

definition unicode_gc_mask_table :: "u32 list" where
  "unicode_gc_mask_table = [
     gc_mask_of [UNICODE_GC_Lu, UNICODE_GC_Ll, UNICODE_GC_Lt],
     gc_mask_of [UNICODE_GC_Lu, UNICODE_GC_Ll, UNICODE_GC_Lt, UNICODE_GC_Lm, UNICODE_GC_Lo],
     gc_mask_of [UNICODE_GC_Mn, UNICODE_GC_Mc, UNICODE_GC_Me],
     gc_mask_of [UNICODE_GC_Nd, UNICODE_GC_Nl, UNICODE_GC_No],
     gc_mask_of [UNICODE_GC_Sm, UNICODE_GC_Sc, UNICODE_GC_Sk, UNICODE_GC_So],
     gc_mask_of [UNICODE_GC_Pc, UNICODE_GC_Pd, UNICODE_GC_Ps, UNICODE_GC_Pe, UNICODE_GC_Pi,
       UNICODE_GC_Pf, UNICODE_GC_Po],
     gc_mask_of [UNICODE_GC_Zs, UNICODE_GC_Zl, UNICODE_GC_Zp],
     gc_mask_of [UNICODE_GC_Cc, UNICODE_GC_Cf, UNICODE_GC_Cs, UNICODE_GC_Co, UNICODE_GC_Cn]]"

definition unicode_general_category :: "charrange \<Rightarrow> u8 list \<Rightarrow> (int \<times> charrange) option" where
  "unicode_general_category cr gc_name = do {
     gc_idx \<leftarrow> unicode_find_name unicode_gc_name_table gc_name;
     if gc_idx < 0 then Some (-2, cr)
     else do {
       gc_mask \<leftarrow> (if gc_idx \<le> int UNICODE_GC_Co then Some (gc_bit (nat gc_idx))
         else rdi unicode_gc_mask_table (gc_idx - int UNICODE_GC_LC));
       unicode_general_category1 cr gc_mask
     }
   }"

section \<open>Binary properties\<close>

definition add_if :: "bool \<Rightarrow> charrange \<Rightarrow> u32 \<Rightarrow> u32 \<Rightarrow> (int \<times> charrange) option" where
  "add_if b cr c0 c = (if b then cr_add_interval cr c0 c else Some (0, cr))"

function prop1_loop :: "u8 list \<Rightarrow> charrange \<Rightarrow> u32 \<Rightarrow> bool \<Rightarrow> (int \<times> charrange) option" where
  "prop1_loop p cr c inside = (if p = [] then Some (0, cr) else (case prop_delta p of
     None \<Rightarrow> None
   | Some (None, n, q) \<Rightarrow> do {
       (r, cr) \<leftarrow> add_if inside cr c (c + n);
       if r \<noteq> 0 then Some (-1, cr) else prop1_loop q cr (c + n) (\<not> inside)
     }
   | Some (Some a, n, q) \<Rightarrow> do {
       (r, cr) \<leftarrow> add_if inside cr c (c + a);
       if r \<noteq> 0 then Some (-1, cr) else do {
       (r, cr) \<leftarrow> add_if (\<not> inside) cr (c + a) (c + a + n);
       if r \<noteq> 0 then Some (-1, cr) else prop1_loop q cr (c + a + n) inside
     }}))"
  by pat_completeness auto
termination
  by (relation "measure (\<lambda>(p, cr, c, b). length p)") (auto dest: prop_delta_shorter)

declare prop1_loop.simps [simp del]

definition unicode_prop1 :: "charrange \<Rightarrow> nat \<Rightarrow> (int \<times> charrange) option" where
  "unicode_prop1 cr prop_idx = do {
     p \<leftarrow> rd unicode_prop_table prop_idx;
     len \<leftarrow> rd unicode_prop_len_table prop_idx;
     prop1_loop (take len p) cr 0 False
   }"

section \<open>Properties from the case conversion table\<close>

abbreviation (input) CASE_U :: nat where "CASE_U \<equiv> 1"
abbreviation (input) CASE_L :: nat where "CASE_L \<equiv> 2"
abbreviation (input) CASE_F :: nat where "CASE_F \<equiv> 4"

definition tab_run_mask :: "nat list list" where
  "tab_run_mask = [
     [RUN_TYPE_U, RUN_TYPE_UF, RUN_TYPE_UL, RUN_TYPE_LSU, RUN_TYPE_U2L_399_EXT2, RUN_TYPE_UF_D20,
      RUN_TYPE_UF_D1_EXT, RUN_TYPE_U_EXT, RUN_TYPE_U_EXT2, RUN_TYPE_U_EXT3],
     [RUN_TYPE_L, RUN_TYPE_LF, RUN_TYPE_UL, RUN_TYPE_LSU, RUN_TYPE_U2L_399_EXT2, RUN_TYPE_LF_EXT,
      RUN_TYPE_L_EXT2],
     [RUN_TYPE_UF, RUN_TYPE_LF, RUN_TYPE_UL, RUN_TYPE_LSU, RUN_TYPE_U2L_399_EXT2, RUN_TYPE_LF_EXT,
      RUN_TYPE_UF_D20, RUN_TYPE_UF_D1_EXT, RUN_TYPE_LF_EXT]]"

text \<open>The run types whose bit is set in \<open>mask\<close>.\<close>

definition run_mask :: "nat \<Rightarrow> nat list" where
  "run_mask case_mask = concat (map (\<lambda>i. if bit case_mask i then tab_run_mask ! i else []) [0..<3])"

fun case_alternate :: "nat \<Rightarrow> charrange \<Rightarrow> u32 \<Rightarrow> u32 \<Rightarrow> (int \<times> charrange) option" where
  "case_alternate 0 cr code i = Some (0, cr)"
| "case_alternate (Suc k) cr code i = do {
     (r, cr) \<leftarrow> cr_add_interval cr (code + i) (code + i + 1);
     if r \<noteq> 0 then Some (-1, cr) else case_alternate k cr code (i + 2)
   }"

definition case_run :: "charrange \<Rightarrow> nat \<Rightarrow> u32 \<Rightarrow> (int \<times> charrange) option" where
  "case_run cr case_mask v =
     (let type = run_type v; code = run_code v; len = run_len v;
          u = bit case_mask 0; lf = (bit case_mask 1 \<or> bit case_mask 2)
      in if type = RUN_TYPE_UL \<and> \<not> (u \<and> lf) then
           case_alternate ((unat len + 1) div 2) cr (code + (if u then 1 else 0)) 0
         else if type = RUN_TYPE_LSU \<and> \<not> (u \<and> lf) then do {
           (r, cr) \<leftarrow> (if \<not> u then cr_add_interval cr code (code + 1) else Some (0, cr));
           if r \<noteq> 0 then Some (-1, cr) else do {
           (r, cr) \<leftarrow> cr_add_interval cr (code + 1) (code + 2);
           if r \<noteq> 0 then Some (-1, cr) else
           if u then do {
             (r, cr) \<leftarrow> cr_add_interval cr (code + 2) (code + 3);
             Some (if r \<noteq> 0 then (-1, cr) else (0, cr))
           } else Some (0, cr)
         }}
         else do {
           (r, cr) \<leftarrow> cr_add_interval cr code (code + len);
           Some (if r \<noteq> 0 then (-1, cr) else (0, cr))
         })"

fun case1_loop :: "u32 list \<Rightarrow> nat list \<Rightarrow> nat \<Rightarrow> charrange \<Rightarrow> (int \<times> charrange) option" where
  "case1_loop [] types case_mask cr = Some (0, cr)"
| "case1_loop (v # vs) types case_mask cr = do {
     (r, cr) \<leftarrow> (if run_type v \<in> set types then case_run cr case_mask v else Some (0, cr));
     if r \<noteq> 0 then Some (-1, cr) else case1_loop vs types case_mask cr
   }"

definition unicode_case1 :: "charrange \<Rightarrow> nat \<Rightarrow> (int \<times> charrange) option" where
  "unicode_case1 cr case_mask =
     (if case_mask = 0 then Some (0, cr)
      else case1_loop case_conv_table1 (run_mask case_mask) case_mask cr)"

section \<open>The set expression machine\<close>

text \<open>The variadic arguments of \<open>unicode_prop_ops\<close> as a list of instructions.\<close>

datatype prop_op = POP_GC u32 | POP_PROP nat | POP_CASE nat | POP_UNION | POP_INTER | POP_XOR |
  POP_INVERT | POP_END

abbreviation (input) POP_STACK_LEN_MAX :: nat where "POP_STACK_LEN_MAX \<equiv> 4"

text \<open>The stack, top first.  \<open>cr\<close> gives the allocator of the new ranges.  A failed assertion is the
  value \<open>None\<close>; the list runs out when \<open>POP_END\<close> is missing.\<close>

definition prop_push ::
  "charrange \<Rightarrow> (charrange \<Rightarrow> (int \<times> charrange) option) \<Rightarrow> charrange list \<Rightarrow>
   (int \<times> charrange list) option" where
  "prop_push cr gen stack =
     (if length stack < POP_STACK_LEN_MAX then do {
        (r, c) \<leftarrow> gen (cr_init (cr_realloc_func cr));
        Some (r, c # stack)
      } else None)"

fun prop_combine ::
  "charrange \<Rightarrow> char_range_op \<Rightarrow> charrange list \<Rightarrow> (int \<times> charrange list) option" where
  "prop_combine cr oper (c2 # c1 # stack) =
     (if length (c2 # c1 # stack) < POP_STACK_LEN_MAX then do {
        (r, c3) \<leftarrow> cr_op (cr_init (cr_realloc_func cr)) (cr_pts c1) (cr_pts c2) oper;
        Some (r, c3 # stack)
      } else None)"
| "prop_combine cr oper _ = None"

fun prop_step :: "charrange \<Rightarrow> prop_op \<Rightarrow> charrange list \<Rightarrow> (int \<times> charrange list) option" where
  "prop_step cr (POP_GC a) stack = prop_push cr (\<lambda>c. unicode_general_category1 c a) stack"
| "prop_step cr (POP_PROP a) stack = prop_push cr (\<lambda>c. unicode_prop1 c a) stack"
| "prop_step cr (POP_CASE a) stack = prop_push cr (\<lambda>c. unicode_case1 c a) stack"
| "prop_step cr POP_UNION stack = prop_combine cr CR_OP_UNION stack"
| "prop_step cr POP_INTER stack = prop_combine cr CR_OP_INTER stack"
| "prop_step cr POP_XOR stack = prop_combine cr CR_OP_XOR stack"
| "prop_step cr POP_INVERT (c # stack) = do { (r, c) \<leftarrow> cr_invert c; Some (r, c # stack) }"
| "prop_step cr POP_INVERT [] = None"
| "prop_step cr POP_END stack = None"

fun unicode_prop_ops_loop ::
  "charrange \<Rightarrow> prop_op list \<Rightarrow> charrange list \<Rightarrow> (int \<times> charrange) option" where
  "unicode_prop_ops_loop cr [] stack = None"
| "unicode_prop_ops_loop cr (oper # ops) stack =
     (if oper = POP_END then (case stack of [c] \<Rightarrow> cr_copy cr c | _ \<Rightarrow> None)
      else do {
        (r, stack) \<leftarrow> prop_step cr oper stack;
        if r \<noteq> 0 then Some (-1, cr) else unicode_prop_ops_loop cr ops stack
      })"

definition unicode_prop_ops :: "charrange \<Rightarrow> prop_op list \<Rightarrow> (int \<times> charrange) option" where
  "unicode_prop_ops cr ops = unicode_prop_ops_loop cr ops []"

text \<open>The instruction lists of the switch in \<open>unicode_prop\<close>.\<close>

definition prop_program :: "nat \<Rightarrow> prop_op list option" where
  "prop_program prop_idx =
     (if prop_idx = UNICODE_PROP_Assigned then Some
        [POP_GC (gc_mask_of [UNICODE_GC_Cn]), POP_INVERT, POP_END]
      else if prop_idx = UNICODE_PROP_Math then Some
        [POP_GC (gc_mask_of [UNICODE_GC_Sm]), POP_PROP UNICODE_PROP_Other_Math, POP_UNION,
         POP_END]
      else if prop_idx = UNICODE_PROP_Lowercase then Some
        [POP_GC (gc_mask_of [UNICODE_GC_Ll]), POP_PROP UNICODE_PROP_Other_Lowercase,
         POP_UNION, POP_END]
      else if prop_idx = UNICODE_PROP_Uppercase then Some
        [POP_GC (gc_mask_of [UNICODE_GC_Lu]), POP_PROP UNICODE_PROP_Other_Uppercase,
         POP_UNION, POP_END]
      else if prop_idx = UNICODE_PROP_Cased then Some
        [POP_GC (gc_mask_of [UNICODE_GC_Lu, UNICODE_GC_Ll, UNICODE_GC_Lt]),
         POP_PROP UNICODE_PROP_Other_Uppercase, POP_UNION,
         POP_PROP UNICODE_PROP_Other_Lowercase, POP_UNION, POP_END]
      else if prop_idx = UNICODE_PROP_Alphabetic then Some
        [POP_GC (gc_mask_of [UNICODE_GC_Lu, UNICODE_GC_Ll, UNICODE_GC_Lt, UNICODE_GC_Lm, UNICODE_GC_Lo, UNICODE_GC_Nl]),
         POP_PROP UNICODE_PROP_Other_Uppercase, POP_UNION,
         POP_PROP UNICODE_PROP_Other_Lowercase, POP_UNION,
         POP_PROP UNICODE_PROP_Other_Alphabetic, POP_UNION, POP_END]
      else if prop_idx = UNICODE_PROP_Grapheme_Base then Some
        [POP_GC (gc_mask_of [UNICODE_GC_Cc, UNICODE_GC_Cf, UNICODE_GC_Cs, UNICODE_GC_Co, UNICODE_GC_Cn, UNICODE_GC_Zl, UNICODE_GC_Zp, UNICODE_GC_Me, UNICODE_GC_Mn]),
         POP_PROP UNICODE_PROP_Other_Grapheme_Extend, POP_UNION, POP_INVERT, POP_END]
      else if prop_idx = UNICODE_PROP_Grapheme_Extend then Some
        [POP_GC (gc_mask_of [UNICODE_GC_Me, UNICODE_GC_Mn]),
         POP_PROP UNICODE_PROP_Other_Grapheme_Extend, POP_UNION, POP_END]
      else if prop_idx = UNICODE_PROP_XID_Start then Some
        [POP_GC (gc_mask_of [UNICODE_GC_Lu, UNICODE_GC_Ll, UNICODE_GC_Lt, UNICODE_GC_Lm, UNICODE_GC_Lo, UNICODE_GC_Nl]),
         POP_PROP UNICODE_PROP_Other_ID_Start, POP_UNION,
         POP_PROP UNICODE_PROP_Pattern_Syntax, POP_PROP UNICODE_PROP_Pattern_White_Space,
         POP_UNION, POP_PROP UNICODE_PROP_XID_Start1, POP_UNION, POP_INVERT, POP_INTER,
         POP_END]
      else if prop_idx = UNICODE_PROP_XID_Continue then Some
        [POP_GC (gc_mask_of [UNICODE_GC_Lu, UNICODE_GC_Ll, UNICODE_GC_Lt, UNICODE_GC_Lm, UNICODE_GC_Lo, UNICODE_GC_Nl, UNICODE_GC_Mn, UNICODE_GC_Mc, UNICODE_GC_Nd, UNICODE_GC_Pc]),
         POP_PROP UNICODE_PROP_Other_ID_Start, POP_UNION,
         POP_PROP UNICODE_PROP_Other_ID_Continue, POP_UNION,
         POP_PROP UNICODE_PROP_Pattern_Syntax, POP_PROP UNICODE_PROP_Pattern_White_Space,
         POP_UNION, POP_PROP UNICODE_PROP_XID_Continue1, POP_UNION, POP_INVERT, POP_INTER,
         POP_END]
      else if prop_idx = UNICODE_PROP_Changes_When_Titlecased then Some
        [POP_CASE CASE_U, POP_PROP UNICODE_PROP_Changes_When_Titlecased1, POP_XOR,
         POP_END]
      else if prop_idx = UNICODE_PROP_Changes_When_Casefolded then Some
        [POP_CASE CASE_F, POP_PROP UNICODE_PROP_Changes_When_Casefolded1, POP_XOR,
         POP_END]
      else if prop_idx = UNICODE_PROP_Changes_When_NFKC_Casefolded then Some
        [POP_CASE CASE_F, POP_PROP UNICODE_PROP_Changes_When_NFKC_Casefolded1, POP_XOR,
         POP_END]
      else if prop_idx = UNICODE_PROP_ID_Continue then Some
        [POP_PROP UNICODE_PROP_ID_Start, POP_PROP UNICODE_PROP_ID_Continue1, POP_XOR,
         POP_END]
      else None)"

definition unicode_prop :: "charrange \<Rightarrow> u8 list \<Rightarrow> (int \<times> charrange) option" where
  "unicode_prop cr prop_name = do {
     idx \<leftarrow> unicode_find_name unicode_prop_name_table prop_name;
     if idx < 0 then Some (-2, cr)
     else
       let prop_idx = nat idx + UNICODE_PROP_ASCII_Hex_Digit in
       if prop_idx = UNICODE_PROP_ASCII then do {
         (r, cr) \<leftarrow> cr_add_interval cr 0x00 (0x7f + 1);
         Some (if r \<noteq> 0 then (-1, cr) else (0, cr))
       }
       else if prop_idx = UNICODE_PROP_Any then do {
         (r, cr) \<leftarrow> cr_add_interval cr 0x00000 (0x10ffff + 1);
         Some (if r \<noteq> 0 then (-1, cr) else (0, cr))
       }
       else if prop_idx = UNICODE_PROP_Changes_When_Uppercased then unicode_case1 cr CASE_U
       else if prop_idx = UNICODE_PROP_Changes_When_Lowercased then unicode_case1 cr CASE_L
       else if prop_idx = UNICODE_PROP_Changes_When_Casemapped then unicode_case1 cr (CASE_U + CASE_L + CASE_F)
       else (case prop_program prop_idx of
           Some ops \<Rightarrow> unicode_prop_ops cr ops
         | None \<Rightarrow> if prop_idx \<ge> length unicode_prop_table then Some (-2, cr)
             else unicode_prop1 cr prop_idx)
   }"

end
