(* ===== verification/UnicodeProps.thy ===== *)
theory UnicodeProps
  imports UnicodeRuns
begin

text \<open>
  The identifier and case predicates on the four indexed tables of the repository: each index describes its table,
  so the lookup is membership in the runs.
\<close>

section \<open>The tables of the repository\<close>

lemma index_lengths:
  "int (length unicode_prop_Cased1_index) div 3 = 6"
  "int (length unicode_prop_Case_Ignorable_index) div 3 = 22"
  "int (length unicode_prop_ID_Start_index) div 3 = 33"
  "int (length unicode_prop_ID_Continue1_index) div 3 = 20"
  by (simp_all add: unicode_prop_Cased1_index_def unicode_prop_Case_Ignorable_index_def
      unicode_prop_ID_Start_index_def unicode_prop_ID_Continue1_index_def)

lemma Cased1_index_ok: "index_ok unicode_prop_Cased1_table unicode_prop_Cased1_index 6"
  by code_simp

lemma Case_Ignorable_index_ok:
  "index_ok unicode_prop_Case_Ignorable_table unicode_prop_Case_Ignorable_index 22"
  by code_simp

lemma ID_Start_index_ok: "index_ok unicode_prop_ID_Start_table unicode_prop_ID_Start_index 33"
  by code_simp

lemma ID_Continue1_index_ok:
  "index_ok unicode_prop_ID_Continue1_table unicode_prop_ID_Continue1_index 20"
  by code_simp

interpretation cased1: prop_index unicode_prop_Cased1_table unicode_prop_Cased1_index 6
  by unfold_locales (use Cased1_index_ok index_ok_short in blast)+

interpretation case_ignorable:
  prop_index unicode_prop_Case_Ignorable_table unicode_prop_Case_Ignorable_index 22
  by unfold_locales (use Case_Ignorable_index_ok index_ok_short in blast)+

interpretation id_start: prop_index unicode_prop_ID_Start_table unicode_prop_ID_Start_index 33
  by unfold_locales (use ID_Start_index_ok index_ok_short in blast)+

interpretation id_continue1:
  prop_index unicode_prop_ID_Continue1_table unicode_prop_ID_Continue1_index 20
  by unfold_locales (use ID_Continue1_index_ok index_ok_short in blast)+

section \<open>Properties\<close>

text \<open>C18: equivalence of the indexed lookup with the sequential meaning of the tables: for every
  character the identifier and case predicates of the repository return, without reading
  outside a table, exactly membership in the runs their tables encode; the index never changes
  an answer.\<close>

theorem char_predicates_exact:
  "lre_is_id_start c = Some (runs_in (table_runs unicode_prop_ID_Start_table) 0 False (uint c)) \<and>
   lre_is_id_continue c = Some (runs_in (table_runs unicode_prop_ID_Start_table) 0 False (uint c) \<or>
     runs_in (table_runs unicode_prop_ID_Continue1_table) 0 False (uint c)) \<and>
   lre_is_case_ignorable c =
     Some (runs_in (table_runs unicode_prop_Case_Ignorable_table) 0 False (uint c)) \<and>
   lre_is_cased c =
     Some ((\<exists>v \<in> set case_conv_table1. run_code v \<le> c \<and> c < run_code v + run_len v) \<or>
       runs_in (table_runs unicode_prop_Cased1_table) 0 False (uint c))"
proof -
  note t = id_start.is_in_table id_continue1.is_in_table case_ignorable.is_in_table cased1.is_in_table
  have "lre_is_cased c =
     Some ((\<exists>v \<in> set case_conv_table1. run_code v \<le> c \<and> c < run_code v + run_len v) \<or>
       runs_in (table_runs unicode_prop_Cased1_table) 0 False (uint c))"
    using cc.search_None_iff [of c] t(4) [of c]
    by (auto simp: lre_is_cased_def index_lengths split: option.splits)
  then show ?thesis
    using t [of c] by (simp add: lre_is_id_start_def lre_is_id_continue_def
        lre_is_case_ignorable_def index_lengths)
qed

end
