(* ===== verification/UnicodeIdTables.thy ===== *)
theory UnicodeIdTables
  imports UnicodeRuns
begin

text \<open>
  The tables ID_Start and ID_Continue1 are disjoint, by evaluation of a merge of their runs.
\<close>

text \<open>The two tables have no character in common: their runs are merged and never both inside.\<close>

function runs_disjoint :: "int list \<Rightarrow> bool \<Rightarrow> int list \<Rightarrow> bool \<Rightarrow> bool" where
  "runs_disjoint [] a ss b = True"
| "runs_disjoint (r # rs) a [] b = True"
| "runs_disjoint (r # rs) a (s # ss) b = (\<not> (a \<and> b) \<and>
     (if r < s then runs_disjoint rs (\<not> a) ((s - r) # ss) b
      else if s < r then runs_disjoint ((r - s) # rs) a ss (\<not> b)
      else runs_disjoint rs (\<not> a) ss (\<not> b)))"
  by pat_completeness auto
termination
  by (relation "measure (\<lambda>(rs, a, ss, b). length rs + length ss)") auto

lemma runs_disjoint_sound:
  assumes "runs_disjoint rs a ss b" and "k \<le> c" and "\<forall>r \<in> set rs. 0 \<le> r" and "\<forall>s \<in> set ss. 0 \<le> s"
  shows "\<not> (runs_in rs k a c \<and> runs_in ss k b c)"
  using assms
proof (induction rs a ss b arbitrary: k rule: runs_disjoint.induct)
  case (3 r rs a s ss b)
  show ?case
  proof (cases "c < k + min r s")
    case True
    then show ?thesis using "3.prems"(1) by auto
  next
    case False
    then have c: "k + min r s \<le> c" by simp
    consider "r < s" | "s < r" | "r = s" by linarith
    then show ?thesis
    proof cases
      case 1
      then show ?thesis using "3.IH"(1) [of "k + r"] "3.prems" c by (auto simp: algebra_simps)
    next
      case 2
      then show ?thesis using "3.IH"(2) [of "k + s"] "3.prems" c by (auto simp: algebra_simps)
    next
      case 3
      then show ?thesis using "3.IH"(3) [of "k + r"] "3.prems" c by auto
    qed
  qed
qed simp_all

lemma id_runs_disjoint:
  "runs_disjoint (table_runs unicode_prop_ID_Start_table) False (table_runs unicode_prop_ID_Continue1_table) False"
  by code_simp

end
