(* ===== verification/UnicodeSetsProps.thy ===== *)
theory UnicodeSetsProps
  imports UnicodeSets UnicodeProps UnicodeIdTables
begin

text \<open>
  What the set builders compute: each loop appends a list of intervals to its range, and the
  points of that list are sorted and have the meaning of the table; the stack machine computes
  the set its program denotes.
\<close>

section \<open>Names\<close>

text \<open>The alternatives of an entry are separated by commas (byte 44).\<close>

function split_commas :: "u8 list \<Rightarrow> u8 list list" where
  "split_commas s = (let t = takeWhile (\<lambda>b. b \<noteq> 44) s in
     t # (if 44 \<in> set s then split_commas (drop (length t + 1) s) else []))"
  by pat_completeness auto
termination
  by (relation "measure length") (auto dest: length_pos_if_in_set)

declare split_commas.simps [simp del]

fun name_index :: "u8 list list \<Rightarrow> u8 list \<Rightarrow> int \<Rightarrow> int" where
  "name_index [] name pos = -1"
| "name_index (s # ss) name pos =
     (if name \<in> set (split_commas s) then pos else name_index ss name (pos + 1))"

lemma find_alternative_split:
  assumes "0 \<notin> set s"
  shows "\<exists>q. find_alternative (s @ 0 # rest) name =
    (if name \<in> set (split_commas s) then Some (True, q) else Some (False, rest))"
  using assms
proof (induction s rule: split_commas.induct)
  case (1 s)
  let ?t = "takeWhile (\<lambda>b. b \<noteq> 44) s"
  have len: "length ?t \<le> length s" by (rule length_takeWhile_le)
  have pre: "take (length ?t) (s @ 0 # rest) = ?t"
    using len takeWhile_eq_take [of "\<lambda>b. b \<noteq> 44" s, symmetric] by simp
  have z: "takeWhile (\<lambda>b. b \<noteq> 0) (s @ 0 # rest) = s" using 1(2) by simp
  show ?case
  proof (cases "44 \<in> set s")
    case True
    then have lt: "length ?t < length s"
    proof -
      have "?t \<noteq> s" using True by (metis (mono_tags, lifting) set_takeWhileD)
      then have "length ?t \<noteq> length s" using takeWhile_eq_take [of "\<lambda>b. b \<noteq> 44" s] by auto
      then show ?thesis using len by simp
    qed
    then have d: "drop (length ?t + 1) (s @ 0 # rest) = drop (length ?t + 1) s @ 0 # rest" by simp
    have "0 \<notin> set (drop (length ?t + 1) s)" using 1(2) by (meson in_set_dropD)
    with 1(1) [OF refl True] obtain q where q: "find_alternative (drop (length ?t + 1) s @ 0 # rest) name =
      (if name \<in> set (split_commas (drop (length ?t + 1) s)) then Some (True, q) else Some (False, rest))"
      by blast
    have "find_alternative (s @ 0 # rest) name =
       (if length ?t = length name \<and> ?t = name then Some (True, s @ 0 # rest)
        else find_alternative (drop (length ?t + 1) s @ 0 # rest) name)"
      using True pre d by (subst find_alternative.simps) (simp add: z Let_def)
    with q True show ?thesis by (subst split_commas.simps) (auto simp: Let_def)
  next
    case False
    then have t: "?t = s" by (simp add: takeWhile_eq_all_conv) blast
    show ?thesis using False
      by (subst split_commas.simps, subst find_alternative.simps) (auto simp: z t Let_def)
  qed
qed

lemma find_name_loop_index:
  assumes "\<forall>s \<in> set ss. s \<noteq> [] \<and> 0 \<notin> set s"
  shows "unicode_find_name_loop (concat (map (\<lambda>s. s @ [0]) ss) @ [0]) name pos =
    Some (name_index ss name pos)"
  using assms
proof (induction ss arbitrary: pos)
  case Nil
  show ?case by (subst unicode_find_name_loop.simps) simp
next
  case (Cons s ss)
  let ?r = "concat (map (\<lambda>s. s @ [0]) ss) @ [0]"
  obtain x s' where s: "s = x # s'" "x \<noteq> 0" using Cons.prems by (cases s) auto
  have "0 \<notin> set s" using Cons.prems by simp
  from find_alternative_split [OF this, of ?r name] obtain q where
    q: "find_alternative (s @ 0 # ?r) name =
      (if name \<in> set (split_commas s) then Some (True, q) else Some (False, ?r))" by blast
  have "unicode_find_name_loop (s @ 0 # ?r) name pos =
    (if name \<in> set (split_commas s) then Some pos else unicode_find_name_loop ?r name (pos + 1))"
    using q s by (subst unicode_find_name_loop.simps) simp
  with Cons show ?case by simp
qed

lemma find_name_strings:
  "list_all (\<lambda>s. s \<noteq> [] \<and> 0 \<notin> set (c_bytes s)) ss \<Longrightarrow>
    unicode_find_name (name_bytes ss) name = Some (name_index (map c_bytes ss) name 0)"
  using find_name_loop_index [of "map c_bytes ss" name 0]
  by (auto simp: unicode_find_name_def name_bytes_def o_def c_bytes_def list_all_iff)



lemma find_id_names:
  "unicode_find_name unicode_prop_name_table (c_bytes ''ID_Start'') =
     Some (int UNICODE_PROP_ID_Start - int UNICODE_PROP_ASCII_Hex_Digit)"
  "unicode_find_name unicode_prop_name_table (c_bytes ''ID_Continue'') =
     Some (int UNICODE_PROP_ID_Continue - int UNICODE_PROP_ASCII_Hex_Digit)"
  unfolding unicode_prop_name_table_def by (subst find_name_strings, code_simp, code_simp)+

section \<open>Appending intervals\<close>

fun cr_add_list :: "charrange \<Rightarrow> (u32 \<times> u32) list \<Rightarrow> (int \<times> charrange) option" where
  "cr_add_list cr [] = Some (0, cr)"
| "cr_add_list cr ((a, b) # ivs) = do {
     (r, cr) \<leftarrow> cr_add_interval cr a b;
     if r \<noteq> 0 then Some (-1, cr) else cr_add_list cr ivs
   }"

definition flat :: "(u32 \<times> u32) list \<Rightarrow> u32 list" where
  "flat ivs = concat (map (\<lambda>(a, b). [a, b]) ivs)"

lemma flat_simps [simp]: "flat [] = []" "flat ((a, b) # ivs) = a # b # flat ivs"
  by (simp_all add: flat_def)

lemma flat_append [simp]: "flat (xs @ ys) = flat xs @ flat ys"
  by (simp add: flat_def)

lemma length_flat [simp]: "length (flat ivs) = 2 * length ivs"
  by (induction ivs) auto

lemma cr_set_flat: "cr_set (flat ivs) = (\<Union>(a, b) \<in> set ivs. {a..<b})"
  by (induction ivs) auto

lemma cr_add_interval_ret:
  "cr_add_interval cr a b = Some (r, cr') \<Longrightarrow> r = 0 \<or> r = -1"
  by (auto simp: cr_add_interval_def cr_realloc_def bind_Some_iff Let_def
      split: if_splits option.splits)

lemma cr_add_list_one:
  "cr_add_list cr [(a, b)] = cr_add_interval cr a b"
  by (cases "cr_add_interval cr a b") (auto dest: cr_add_interval_ret)

lemma cr_add_list_append:
  "cr_add_list cr (xs @ ys) = do {
     (r, cr) \<leftarrow> cr_add_list cr xs;
     if r \<noteq> 0 then Some (-1, cr) else cr_add_list cr ys
   }"
proof (induction xs arbitrary: cr)
  case (Cons x xs)
  obtain a b where "x = (a, b)" by force
  with Cons show ?case by (cases "cr_add_interval cr a b") auto
qed simp

lemma cr_add_list_spec:
  assumes "cr_fits T cr" and "cr_len cr + 2 * length ivs \<le> T"
  shows "\<exists>r cr'. cr_add_list cr ivs = Some (r, cr') \<and> cr_fits T cr' \<and>
    (r = 0 \<and> cr_pts cr' = cr_pts cr @ flat ivs \<or> r = -1)"
  using assms
proof (induction ivs arbitrary: cr)
  case (Cons x ivs)
  obtain a b where x: "x = (a, b)" by force
  have l: "length (cr_pts cr) = cr_len cr" using Cons.prems by (simp add: cr_fits_def)
  obtain r cr1 where 1: "cr_add_interval cr a b = Some (r, cr1)" "cr_fits T cr1"
      "r = 0 \<and> cr_pts cr1 = cr_pts cr @ [a, b] \<or> r = -1"
    using cr_add_interval_spec [of T cr a b] Cons.prems by auto
  show ?case
  proof (cases "r = 0")
    case True
    have "cr_len cr1 = cr_len cr + 2"
      using 1 True l length_cr_pts [OF cr_fits_ok [OF 1(2)]] by simp
    with Cons.IH [OF 1(2)] Cons.prems 1 True x show ?thesis by auto
  next
    case False
    with 1 x show ?thesis by auto
  qed
qed simp

section \<open>Properties of one table\<close>

fun run_ivs :: "int list \<Rightarrow> u32 \<Rightarrow> bool \<Rightarrow> (u32 \<times> u32) list" where
  "run_ivs [] c inside = []"
| "run_ivs (r # rs) c inside =
     (if inside then [(c, c + of_int r)] else []) @ run_ivs rs (c + of_int r) (\<not> inside)"

lemma add_if_list: "add_if b cr c d = cr_add_list cr (if b then [(c, d)] else [])"
  by (simp add: add_if_def cr_add_list_one del: cr_add_list.simps(2))

lemma prop1_loop_list:
  assumes "prop_runs p = Some rs"
  shows "prop1_loop p cr c inside = cr_add_list cr (run_ivs rs c inside)"
  using assms
proof (induction p arbitrary: rs cr c inside rule: length_induct)
  case (1 p)
  show ?case
  proof (cases "p = []")
    case True
    with 1 show ?thesis by (simp add: prop1_loop.simps)
  next
    case False
    with 1(2) obtain a n q r2 where d: "prop_delta p = Some (a, n, q)" "length q < length p"
        "prop_runs q = Some r2" "rs = (case a of None \<Rightarrow> [uint n] | Some x \<Rightarrow> [uint x, uint n]) @ r2"
      by (rule prop_runs_step)
    have ih: "prop1_loop q = (\<lambda>cr c b. cr_add_list cr (run_ivs r2 c b))"
      using 1(1) d(2,3) by blast
    show ?thesis
    proof (cases a)
      case None
      have "prop1_loop p cr c inside = do {
          (r, cr) \<leftarrow> add_if inside cr c (c + n);
          if r \<noteq> 0 then Some (-1, cr) else prop1_loop q cr (c + n) (\<not> inside)}"
        using False d(1) None by (subst prop1_loop.simps) simp
      then show ?thesis
        unfolding ih add_if_list d(4) None by (simp add: cr_add_list_append del: cr_add_list.simps(2))
    next
      case (Some x)
      have "prop1_loop p cr c inside = do {
          (r, cr) \<leftarrow> add_if inside cr c (c + x);
          if r \<noteq> 0 then Some (-1, cr) else do {
          (r, cr) \<leftarrow> add_if (\<not> inside) cr (c + x) (c + x + n);
          if r \<noteq> 0 then Some (-1, cr) else prop1_loop q cr (c + x + n) inside}}"
        using False d(1) Some by (subst prop1_loop.simps) simp
      then show ?thesis
        unfolding ih add_if_list d(4) Some
        by (cases inside; cases "cr_add_interval cr c (c + x)"; cases "cr_add_interval cr (c + x) (c + x + n)")
          auto
    qed
  qed
qed

lemma run_ivs_length: "length (run_ivs rs c b) \<le> length rs"
  by (induction rs arbitrary: c b) (auto simp: le_SucI)

lemma uint_add_of_int:
  assumes "0 \<le> r" and "uint c + r < 2 ^ 32"
  shows "uint ((c :: u32) + of_int r) = uint c + r"
proof -
  have "r < 2 ^ 32" using assms uint_ge_0 [of c] by linarith
  then have "uint (of_int r :: u32) = r" using assms(1) by (simp add: uint_word_of_int)
  with assms(2) uint_add_le [of c "of_int r"] show ?thesis by simp
qed

lemma run_ivs_sorted:
  assumes "\<forall>r \<in> set rs. 0 \<le> r" and "uint c + sum_list rs < 2 ^ 32"
  shows "sorted (flat (run_ivs rs c b)) \<and> (\<forall>x \<in> set (flat (run_ivs rs c b)). c \<le> x)"
  using assms
proof (induction rs arbitrary: c b)
  case (Cons r rs)
  have s: "0 \<le> sum_list rs" using Cons.prems by (intro sum_list_nonneg) auto
  then have u: "uint (c + of_int r) = uint c + r"
    using Cons.prems by (intro uint_add_of_int) simp_all
  then have le: "c \<le> c + of_int r" using Cons.prems by (simp add: word_le_def)
  have "sorted (flat (run_ivs rs (c + of_int r) (\<not> b))) \<and>
      (\<forall>x \<in> set (flat (run_ivs rs (c + of_int r) (\<not> b))). c + of_int r \<le> x)"
    using Cons.IH [of "c + of_int r" "\<not> b"] Cons.prems u by simp
  with le show ?case by (auto intro: order_trans)
qed simp

lemma run_ivs_set:
  assumes "\<forall>r \<in> set rs. 0 \<le> r" and "uint c + sum_list rs < 2 ^ 32"
  shows "x \<in> cr_set (flat (run_ivs rs c b)) \<longleftrightarrow> c \<le> x \<and> runs_in rs (uint c) b (uint x)"
  using assms
proof (induction rs arbitrary: c b)
  case (Cons r rs)
  have s: "0 \<le> sum_list rs" using Cons.prems by (intro sum_list_nonneg) auto
  then have u: "uint (c + of_int r) = uint c + r"
    using Cons.prems by (intro uint_add_of_int) simp_all
  then have le: "c \<le> c + of_int r" using Cons.prems by (simp add: word_le_def)
  have ih: "x \<in> cr_set (flat (run_ivs rs (c + of_int r) (\<not> b))) \<longleftrightarrow>
      c + of_int r \<le> x \<and> runs_in rs (uint c + r) (\<not> b) (uint x)"
    using Cons.IH [of "c + of_int r" "\<not> b"] Cons.prems u by simp
  have lt: "uint x < uint c + r \<longleftrightarrow> x < c + of_int r" using u by (simp add: word_less_def)
  show ?case using ih lt le by (auto intro: order_trans simp: not_less)
qed simp

section \<open>Builders\<close>

text \<open>A builder fills an empty range with at most \<open>N\<close> points that stand for the set \<open>S\<close>, unless the
  allocator fails.\<close>

definition builds :: "(charrange \<Rightarrow> (int \<times> charrange) option) \<Rightarrow> nat \<Rightarrow> u32 set \<Rightarrow> bool" where
  "builds g N S \<longleftrightarrow> (\<forall>cr T. cr_fits T cr \<longrightarrow> cr_len cr = 0 \<longrightarrow> N \<le> T \<longrightarrow>
     (\<exists>r cr'. g cr = Some (r, cr') \<and> cr_fits T cr' \<and>
        (r = -1 \<or> r = 0 \<and> sorted (cr_pts cr') \<and> even (length (cr_pts cr')) \<and>
           length (cr_pts cr') \<le> N \<and> cr_set (cr_pts cr') = S)))"

lemma buildsD:
  assumes "builds g N S" and "cr_fits T cr" and "cr_len cr = 0" and "N \<le> T"
  obtains r cr' where "g cr = Some (r, cr')" and "cr_fits T cr'"
    and "r = -1 \<or> r = 0 \<and> sorted (cr_pts cr') \<and> even (length (cr_pts cr')) \<and>
           length (cr_pts cr') \<le> N \<and> cr_set (cr_pts cr') = S"
  using assms unfolding builds_def by blast

lemma builds_list:
  assumes "\<And>cr. cr_len cr = 0 \<Longrightarrow> g cr = cr_add_list cr ivs" and "sorted (flat ivs)"
    and "2 * length ivs \<le> N" and "cr_set (flat ivs) = S"
  shows "builds g N S"
  unfolding builds_def
proof (intro allI impI)
  fix cr T assume a: "cr_fits T cr" "cr_len cr = 0" "N \<le> T"
  have "cr_pts cr = []" using a by (simp add: cr_pts_def)
  with cr_add_list_spec [OF a(1), of ivs] a assms show
    "\<exists>r cr'. g cr = Some (r, cr') \<and> cr_fits T cr' \<and>
        (r = -1 \<or> r = 0 \<and> sorted (cr_pts cr') \<and> even (length (cr_pts cr')) \<and>
           length (cr_pts cr') \<le> N \<and> cr_set (cr_pts cr') = S)"
    by fastforce
qed

lemma prop_runs_length: "prop_runs p = Some rs \<Longrightarrow> length rs \<le> 2 * length p"
proof (induction p arbitrary: rs rule: length_induct)
  case (1 p)
  show ?case
  proof (cases "p = []")
    case True
    with 1 show ?thesis by simp
  next
    case False
    with 1(2) obtain a n q r2 where d: "prop_delta p = Some (a, n, q)" "length q < length p"
        "prop_runs q = Some r2" "rs = (case a of None \<Rightarrow> [uint n] | Some x \<Rightarrow> [uint x, uint n]) @ r2"
      by (rule prop_runs_step)
    have "length r2 \<le> 2 * length q" using 1(1) d(2,3) by blast
    with d(2,4) show ?thesis by (cases a) auto
  qed
qed

definition table_set :: "u8 list \<Rightarrow> u32 set" where
  "table_set tbl = {c. runs_in (table_runs tbl) 0 False (uint c)}"

lemma builds_prop1_loop:
  assumes "prop_runs tbl = Some (table_runs tbl)" and "sum_list (table_runs tbl) < 2 ^ 32"
    and "4 * length tbl \<le> N"
  shows "builds (\<lambda>cr. prop1_loop tbl cr 0 False) N (table_set tbl)"
proof (rule builds_list)
  note nn = prop_runs_nonneg [OF assms(1)]
  show "prop1_loop tbl cr 0 False = cr_add_list cr (run_ivs (table_runs tbl) 0 False)" for cr
    by (rule prop1_loop_list [OF assms(1)])
  show "sorted (flat (run_ivs (table_runs tbl) 0 False))"
    using run_ivs_sorted [OF nn, of 0] assms(2) by simp
  show "2 * length (run_ivs (table_runs tbl) 0 False) \<le> N"
    using run_ivs_length [of "table_runs tbl" 0 False] prop_runs_length [OF assms(1)] assms(3) by simp
  show "cr_set (flat (run_ivs (table_runs tbl) 0 False)) = table_set tbl"
    using run_ivs_set [OF nn, of 0] assms(2) by (auto simp: table_set_def)
qed

text \<open>The tables that have an index, by their property numbers.\<close>

lemma prop_table_lookup:
  "unicode_prop1 cr UNICODE_PROP_ID_Start = prop1_loop unicode_prop_ID_Start_table cr 0 False"
  "unicode_prop1 cr UNICODE_PROP_ID_Continue1 = prop1_loop unicode_prop_ID_Continue1_table cr 0 False"
  by (simp_all add: unicode_prop1_def unicode_prop_table_def unicode_prop_len_table_def rd_def)

lemma prop_table_lengths:
  "length unicode_prop_ID_Start_table = 1045" "length unicode_prop_ID_Continue1_table = 626"
  by (code_simp, code_simp)

lemma builds_ID_Start:
  "builds (\<lambda>cr. unicode_prop1 cr UNICODE_PROP_ID_Start) 4180 (table_set unicode_prop_ID_Start_table)"
  unfolding prop_table_lookup using id_start.tot id_start.short
  by (intro builds_prop1_loop) (auto simp: prop_table_lengths)

lemma builds_ID_Continue1:
  "builds (\<lambda>cr. unicode_prop1 cr UNICODE_PROP_ID_Continue1) 2504
     (table_set unicode_prop_ID_Continue1_table)"
  unfolding prop_table_lookup using id_continue1.tot id_continue1.short
  by (intro builds_prop1_loop) (auto simp: prop_table_lengths)

section \<open>The stack machine\<close>

text \<open>What a program denotes, with the sets of the leaves given by \<open>leaf\<close>.\<close>

fun prop_sem :: "(prop_op \<Rightarrow> u32 set) \<Rightarrow> prop_op list \<Rightarrow> u32 set list \<Rightarrow> u32 set option" where
  "prop_sem leaf (POP_END # ops) [S] = Some S"
| "prop_sem leaf (POP_UNION # ops) (B # A # st) =
     (if length st < 2 then prop_sem leaf ops ((A \<union> B) # st) else None)"
| "prop_sem leaf (POP_INTER # ops) (B # A # st) =
     (if length st < 2 then prop_sem leaf ops ((A \<inter> B) # st) else None)"
| "prop_sem leaf (POP_XOR # ops) (B # A # st) =
     (if length st < 2 then prop_sem leaf ops (((A - B) \<union> (B - A)) # st) else None)"
| "prop_sem leaf (POP_INVERT # ops) (A # st) = prop_sem leaf ops ({c. c \<noteq> UINT32_MAX \<and> c \<notin> A} # st)"
| "prop_sem leaf (POP_GC a # ops) st =
     (if length st < 4 then prop_sem leaf ops (leaf (POP_GC a) # st) else None)"
| "prop_sem leaf (POP_PROP a # ops) st =
     (if length st < 4 then prop_sem leaf ops (leaf (POP_PROP a) # st) else None)"
| "prop_sem leaf (POP_CASE a # ops) st =
     (if length st < 4 then prop_sem leaf ops (leaf (POP_CASE a) # st) else None)"
| "prop_sem leaf _ _ = None"

fun leaf_gen :: "prop_op \<Rightarrow> charrange \<Rightarrow> (int \<times> charrange) option" where
  "leaf_gen (POP_GC a) = (\<lambda>c. unicode_general_category1 c a)"
| "leaf_gen (POP_PROP a) = (\<lambda>c. unicode_prop1 c a)"
| "leaf_gen (POP_CASE a) = (\<lambda>c. unicode_case1 c a)"
| "leaf_gen _ = (\<lambda>c. None)"

fun is_leaf :: "prop_op \<Rightarrow> bool" where
  "is_leaf (POP_GC a) = True"
| "is_leaf (POP_PROP a) = True"
| "is_leaf (POP_CASE a) = True"
| "is_leaf _ = False"

text \<open>A range on the stack stands for a set; \<open>m\<close> counts its points.\<close>

definition stands_for :: "charrange \<Rightarrow> u32 set \<Rightarrow> bool" where
  "stands_for c S \<longleftrightarrow> cr_fits CR_POINTS_MAX c \<and> sorted (cr_pts c) \<and> even (length (cr_pts c)) \<and>
     cr_set (cr_pts c) = S"

definition pts_total :: "charrange list \<Rightarrow> nat" where
  "pts_total st = sum_list (map (\<lambda>c. length (cr_pts c)) st)"

lemma pts_total_simps [simp]:
  "pts_total [] = 0" "pts_total (c # st) = length (cr_pts c) + pts_total st"
  by (simp_all add: pts_total_def)

lemma cr_init_fits [simp]: "cr_fits CR_POINTS_MAX (cr_init f)" "cr_len (cr_init f) = 0"
  by (simp_all add: cr_init_def cr_fits_def cr_ok_def)

lemma stands_for_len: "stands_for c S \<Longrightarrow> cr_len c = length (cr_pts c)"
  by (simp add: stands_for_def cr_fits_def)

lemma canonical_even: "canonical p \<Longrightarrow> sorted p \<and> even (length p)"
  by (simp add: canonical_sorted)

lemma prop_push_ok:
  assumes "builds g N S" and "N \<le> CR_POINTS_MAX" and "length st < 4"
  shows "\<exists>r c. prop_push cr g st = Some (r, c # st) \<and>
    (r = -1 \<or> r = 0 \<and> stands_for c S \<and> length (cr_pts c) \<le> N)"
proof -
  obtain r c where "g (cr_init (cr_realloc_func cr)) = Some (r, c)" "cr_fits CR_POINTS_MAX c"
      "r = -1 \<or> r = 0 \<and> sorted (cr_pts c) \<and> even (length (cr_pts c)) \<and>
           length (cr_pts c) \<le> N \<and> cr_set (cr_pts c) = S"
    by (rule buildsD [OF assms(1) cr_init_fits assms(2)])
  with assms(3) show ?thesis by (auto simp: prop_push_def stands_for_def)
qed

lemma prop_combine_ok:
  assumes "stands_for c1 A" and "stands_for c2 B" and "length (cr_pts c1) + length (cr_pts c2) \<le> CR_POINTS_MAX"
    and "length st < 2"
  shows "\<exists>r c. prop_combine cr oper (c2 # c1 # st) = Some (r, c # st) \<and>
    (r = -1 \<or> r = 0 \<and> stands_for c {x. cr_fun oper (x \<in> A) (x \<in> B)} \<and>
      length (cr_pts c) \<le> length (cr_pts c1) + length (cr_pts c2))"
proof -
  have a: "sorted (cr_pts c1)" "even (length (cr_pts c1))" "cr_set (cr_pts c1) = A"
    using assms(1) by (simp_all add: stands_for_def)
  have b: "sorted (cr_pts c2)" "even (length (cr_pts c2))" "cr_set (cr_pts c2) = B"
    using assms(2) by (simp_all add: stands_for_def)
  obtain r c where
    r: "cr_op (cr_init (cr_realloc_func cr)) (cr_pts c1) (cr_pts c2) oper = Some (r, c)"
    and f: "cr_fits CR_POINTS_MAX c" and c: "r = -1 \<or> r = 0 \<and> canonical (cr_pts c) \<and>
      length (cr_pts c) \<le> length (cr_pts c1) + length (cr_pts c2) \<and>
      (\<forall>x. x \<in> cr_set (cr_pts c) \<longleftrightarrow> cr_fun oper (x \<in> A) (x \<in> B))"
    using cr_op_spec [OF cr_init_fits a(1,2) b(1,2) assms(3)] unfolding a(3) b(3) by blast
  have "prop_combine cr oper (c2 # c1 # st) = Some (r, c # st)"
    using r assms(4) by simp
  moreover have "r = -1 \<or> r = 0 \<and> stands_for c {x. cr_fun oper (x \<in> A) (x \<in> B)} \<and>
      length (cr_pts c) \<le> length (cr_pts c1) + length (cr_pts c2)"
    using c
  proof (elim disjE conjE)
    assume "r = 0" and k: "canonical (cr_pts c)"
      and "length (cr_pts c) \<le> length (cr_pts c1) + length (cr_pts c2)"
      and m: "\<forall>x. x \<in> cr_set (cr_pts c) \<longleftrightarrow> cr_fun oper (x \<in> A) (x \<in> B)"
    moreover have "cr_set (cr_pts c) = {x. cr_fun oper (x \<in> A) (x \<in> B)}" using m by blast
    ultimately show ?thesis using canonical_even [OF k] f by (simp add: stands_for_def)
  qed simp
  ultimately show ?thesis by blast
qed

lemma cr_copy_ok:
  assumes "stands_for c S" and "cr_fits CR_POINTS_MAX cr" and "length (cr_pts c) \<le> CR_POINTS_MAX"
  shows "\<exists>r cr'. cr_copy cr c = Some (r, cr') \<and> (r = -1 \<or> r = 0 \<and> stands_for cr' S)"
proof -
  have l: "cr_len c = length (cr_pts c)" using assms(1) by (rule stands_for_len)
  obtain r cr1 where 1: "cr_realloc cr (cr_len c) = Some (r, cr1)" "cr_fits CR_POINTS_MAX cr1"
      "r = 0 \<and> cr_len c \<le> cr_size cr1 \<or> r = -1"
    using cr_realloc_spec [OF assms(2), of "cr_len c"] assms(3) l by auto
  show ?thesis
  proof (cases "r = 0")
    case True
    let ?p = "cr_pts c @ drop (length (cr_pts c)) (cr_points cr1)"
    let ?c = "cr1\<lparr>cr_points := ?p, cr_len := cr_len c\<rparr>"
    have le: "length (cr_pts c) \<le> length (cr_points cr1)"
      using 1 True l by (simp add: cr_fits_def cr_ok_def)
    have p: "cr_pts ?c = cr_pts c" using l by (simp add: cr_pts_def)
    have "rd_block (cr_points c) 0 (cr_len c) = Some (cr_pts c)"
      using assms(1) by (simp add: rd_block_def cr_pts_def stands_for_def cr_fits_def cr_ok_def)
    moreover have "wr_block (cr_points cr1) 0 (cr_pts c) = Some ?p"
      using le by (simp add: wr_block_def)
    ultimately have "cr_copy cr c = Some (0, ?c)"
      using 1(1) True by (simp add: cr_copy_def)
    moreover have "cr_fits CR_POINTS_MAX ?c" using 1(2,3) True le l by (simp add: cr_fits_def cr_ok_def)
    then have "stands_for ?c S" using assms(1) unfolding stands_for_def p by blast
    ultimately show ?thesis by blast
  next
    case False
    with 1 show ?thesis by (simp add: cr_copy_def)
  qed
qed

lemma cr_invert_ok:
  assumes "stands_for c S" and "length (cr_pts c) + 2 \<le> CR_POINTS_MAX"
  shows "\<exists>r c'. cr_invert c = Some (r, c') \<and>
    (r = -1 \<or> r = 0 \<and> stands_for c' {x. x \<noteq> UINT32_MAX \<and> x \<notin> S} \<and>
      length (cr_pts c') \<le> length (cr_pts c) + 2)"
proof -
  have l: "cr_len c = length (cr_pts c)" using assms(1) by (rule stands_for_len)
  have a: "cr_fits CR_POINTS_MAX c" "sorted (cr_pts c)" "even (cr_len c)" "cr_set (cr_pts c) = S"
    using assms(1) l by (simp_all add: stands_for_def)
  have "cr_len c + 2 \<le> CR_POINTS_MAX" using assms(2) l by simp
  from cr_invert_spec [OF a(1,2,3) this, unfolded a(4)] obtain r c' where
    r: "cr_invert c = Some (r, c')" and f: "cr_fits CR_POINTS_MAX c'"
    and c: "r = -1 \<or> r = 0 \<and> canonical (cr_pts c') \<and> length (cr_pts c') \<le> cr_len c + 2 \<and>
      cr_set (cr_pts c') = {x. x \<noteq> UINT32_MAX \<and> x \<notin> S}"
    by blast
  have "r = -1 \<or> r = 0 \<and> stands_for c' {x. x \<noteq> UINT32_MAX \<and> x \<notin> S} \<and>
      length (cr_pts c') \<le> length (cr_pts c) + 2"
    using c f canonical_even [of "cr_pts c'"] unfolding l stands_for_def by blast
  with r show ?thesis by blast
qed

lemma list_all2_Cons2D:
  assumes "list_all2 P st (B # A # Ss)"
  obtains c2 c1 st' where "st = c2 # c1 # st'" "P c2 B" "P c1 A" "list_all2 P st' Ss"
  using assms by (auto simp: list_all2_Cons2)

lemma prop_combine_step:
  assumes "list_all2 stands_for st (B # A # Ss)" and "length Ss < 2"
    and "pts_total st \<le> CR_POINTS_MAX"
  shows "\<exists>r st'. prop_combine cr oper st = Some (r, st') \<and>
    (r = -1 \<or> r = 0 \<and> list_all2 stands_for st' ({x. cr_fun oper (x \<in> A) (x \<in> B)} # Ss) \<and>
      pts_total st' \<le> pts_total st)"
proof -
  obtain c2 c1 st1 where st: "st = c2 # c1 # st1" and c: "stands_for c2 B" "stands_for c1 A"
    and r: "list_all2 stands_for st1 Ss"
    by (rule list_all2_Cons2D [OF assms(1)])
  have "length st1 < 2" using r assms(2) by (simp add: list_all2_lengthD)
  moreover have "length (cr_pts c1) + length (cr_pts c2) \<le> CR_POINTS_MAX"
    using assms(3) st by simp
  ultimately obtain r c where "prop_combine cr oper (c2 # c1 # st1) = Some (r, c # st1)"
    and "r = -1 \<or> r = 0 \<and> stands_for c {x. cr_fun oper (x \<in> A) (x \<in> B)} \<and>
      length (cr_pts c) \<le> length (cr_pts c1) + length (cr_pts c2)"
    using prop_combine_ok [OF c(2,1)] by blast
  then show ?thesis unfolding st using \<open>list_all2 stands_for st1 Ss\<close>
    by (intro exI [of _ r] exI [of _ "c # st1"]) auto
qed

lemma prop_push_step:
  assumes "builds g N S" and "N \<le> CR_POINTS_MAX" and "list_all2 stands_for st Ss" and "length Ss < 4"
  shows "\<exists>r st'. prop_push cr g st = Some (r, st') \<and>
    (r = -1 \<or> r = 0 \<and> list_all2 stands_for st' (S # Ss) \<and> pts_total st' \<le> pts_total st + N)"
proof -
  have "length st < 4" using assms(3,4) by (simp add: list_all2_lengthD)
  from prop_push_ok [OF assms(1,2) this] obtain r c where "prop_push cr g st = Some (r, c # st)"
    "r = -1 \<or> r = 0 \<and> stands_for c S \<and> length (cr_pts c) \<le> N" by blast
  then show ?thesis using assms(3) by (intro exI [of _ r] exI [of _ "c # st"]) auto
qed

lemma prop_invert_step:
  assumes "list_all2 stands_for st (A # Ss)" and "pts_total st + 2 \<le> CR_POINTS_MAX"
  shows "\<exists>r st'. prop_step cr POP_INVERT st = Some (r, st') \<and>
    (r = -1 \<or> r = 0 \<and> list_all2 stands_for st' ({x. x \<noteq> UINT32_MAX \<and> x \<notin> A} # Ss) \<and>
      pts_total st' \<le> pts_total st + 2)"
proof -
  obtain c st1 where st: "st = c # st1" and c: "stands_for c A" and r: "list_all2 stands_for st1 Ss"
    using assms(1) by (auto simp: list_all2_Cons2)
  have "length (cr_pts c) + 2 \<le> CR_POINTS_MAX" using assms(2) st by simp
  from cr_invert_ok [OF c this] obtain q c' where "cr_invert c = Some (q, c')"
    "q = -1 \<or> q = 0 \<and> stands_for c' {x. x \<noteq> UINT32_MAX \<and> x \<notin> A} \<and>
      length (cr_pts c') \<le> length (cr_pts c) + 2" by blast
  then show ?thesis unfolding st using r by (intro exI [of _ q] exI [of _ "c' # st1"]) auto
qed

lemma cr_fun_sets:
  "{x. cr_fun CR_OP_UNION (x \<in> A) (x \<in> B)} = A \<union> B"
  "{x. cr_fun CR_OP_INTER (x \<in> A) (x \<in> B)} = A \<inter> B"
  "{x. cr_fun CR_OP_XOR (x \<in> A) (x \<in> B)} = (A - B) \<union> (B - A)"
  by (auto simp: cr_fun_def)

lemma prop_sem_step:
  assumes sem: "prop_sem leaf (oper # ops) Ss = Some S" and ne: "oper \<noteq> POP_END"
    and st: "list_all2 stands_for st Ss"
    and lf: "is_leaf oper \<Longrightarrow> builds (leaf_gen oper) N (leaf oper)"
    and room: "pts_total st + N + 2 \<le> CR_POINTS_MAX"
  shows "\<exists>r st' Ss'. prop_step cr oper st = Some (r, st') \<and> (r = -1 \<or> r = 0 \<and>
    list_all2 stands_for st' Ss' \<and> prop_sem leaf ops Ss' = Some S \<and>
    pts_total st' \<le> pts_total st + N + 2)"
proof -
  have N: "N \<le> CR_POINTS_MAX" and T: "pts_total st \<le> CR_POINTS_MAX" "pts_total st + 2 \<le> CR_POINTS_MAX"
    using room by simp_all
  have fin: ?thesis if x: "\<exists>r st'. prop_step cr oper st = Some (r, st') \<and>
      (r = -1 \<or> r = 0 \<and> list_all2 stands_for st' Q \<and> pts_total st' \<le> n)"
    and n: "n \<le> pts_total st + N + 2" and q: "prop_sem leaf ops Q = Some S" for Q n
  proof -
    from x obtain r st' where "prop_step cr oper st = Some (r, st')"
      "r = -1 \<or> r = 0 \<and> list_all2 stands_for st' Q \<and> pts_total st' \<le> n" by blast
    with n q show ?thesis by (intro exI [of _ r] exI [of _ st'] exI [of _ Q]) auto
  qed
  have push: ?thesis if "is_leaf oper" "prop_step cr oper st = prop_push cr (leaf_gen oper) st"
      "length Ss < 4" "prop_sem leaf ops (leaf oper # Ss) = Some S"
    using prop_push_step [OF lf [OF that(1)] N st that(3), of cr, folded that(2)] that(4)
    by (elim fin) simp
  have comb: ?thesis if "Ss = B # A # Q" "length Q < 2" "prop_step cr oper st = prop_combine cr f st"
      "prop_sem leaf ops ({x. cr_fun f (x \<in> A) (x \<in> B)} # Q) = Some S" for A B Q f
    using prop_combine_step [OF st [unfolded that(1)] that(2) T(1), of cr f, folded that(3)] that(4)
    by (elim fin) simp
  show ?thesis
  proof (cases oper)
    case POP_UNION
    with sem obtain A B Q where "Ss = B # A # Q" "length Q < 2" "prop_sem leaf ops ((A \<union> B) # Q) = Some S"
      by (cases "(leaf, oper # ops, Ss)" rule: prop_sem.cases) (auto split: if_splits)
    then show ?thesis using comb [of B A Q CR_OP_UNION] POP_UNION by (simp add: cr_fun_sets)
  next
    case POP_INTER
    with sem obtain A B Q where "Ss = B # A # Q" "length Q < 2" "prop_sem leaf ops ((A \<inter> B) # Q) = Some S"
      by (cases "(leaf, oper # ops, Ss)" rule: prop_sem.cases) (auto split: if_splits)
    then show ?thesis using comb [of B A Q CR_OP_INTER] POP_INTER by (simp add: cr_fun_sets)
  next
    case POP_XOR
    with sem obtain A B Q where "Ss = B # A # Q" "length Q < 2"
        "prop_sem leaf ops (((A - B) \<union> (B - A)) # Q) = Some S"
      by (cases "(leaf, oper # ops, Ss)" rule: prop_sem.cases) (auto split: if_splits)
    then show ?thesis using comb [of B A Q CR_OP_XOR] POP_XOR by (simp add: cr_fun_sets)
  next
    case POP_INVERT
    with sem obtain A Q where q: "Ss = A # Q" "prop_sem leaf ops ({c. c \<noteq> UINT32_MAX \<and> c \<notin> A} # Q) = Some S"
      by (cases "(leaf, oper # ops, Ss)" rule: prop_sem.cases) auto
    from prop_invert_step [OF st [unfolded q(1)] T(2), of cr, folded POP_INVERT] q(2) show ?thesis
      by (elim fin) simp
  next
    case (POP_GC a)
    with sem show ?thesis by (intro push) (auto split: if_splits)
  next
    case (POP_PROP a)
    with sem show ?thesis by (intro push) (auto split: if_splits)
  next
    case (POP_CASE a)
    with sem show ?thesis by (intro push) (auto split: if_splits)
  qed (use ne in simp)
qed

lemma prop_machine:
  assumes "prop_sem leaf ops Ss = Some S" and "list_all2 stands_for st Ss"
    and "\<And>oper. oper \<in> set ops \<Longrightarrow> is_leaf oper \<Longrightarrow> builds (leaf_gen oper) N (leaf oper)"
    and "pts_total st + length ops * (N + 2) \<le> CR_POINTS_MAX" and "cr_fits CR_POINTS_MAX cr"
  shows "\<exists>r cr'. unicode_prop_ops_loop cr ops st = Some (r, cr') \<and> (r = -1 \<or> r = 0 \<and> stands_for cr' S)"
  using assms
proof (induction ops arbitrary: st Ss)
  case (Cons oper ops)
  show ?case
  proof (cases "oper = POP_END")
    case True
    with Cons.prems(1) have "Ss = [S]"
      by (cases "(leaf, oper # ops, Ss)" rule: prop_sem.cases) auto
    then obtain c where c: "st = [c]" "stands_for c S"
      using Cons.prems(2) by (auto simp: list_all2_Cons2)
    have "length (cr_pts c) \<le> CR_POINTS_MAX" using Cons.prems(4) c by simp
    from cr_copy_ok [OF c(2) Cons.prems(5) this] show ?thesis using True c by auto
  next
    case False
    have room: "pts_total st + N + 2 \<le> CR_POINTS_MAX" using Cons.prems(4) by simp
    from prop_sem_step [OF Cons.prems(1) False Cons.prems(2) Cons.prems(3) [of oper] room, of cr]
    obtain r st' Ss' where r: "prop_step cr oper st = Some (r, st')"
      and n: "r = -1 \<or> r = 0 \<and> list_all2 stands_for st' Ss' \<and> prop_sem leaf ops Ss' = Some S \<and>
        pts_total st' \<le> pts_total st + N + 2" by auto
    show ?thesis
    proof (cases "r = -1")
      case True
      with r False show ?thesis by simp
    next
      case False2: False
      with n have m: "r = 0" "list_all2 stands_for st' Ss'" "prop_sem leaf ops Ss' = Some S"
        "pts_total st' \<le> pts_total st + N + 2" by auto
      have "pts_total st' + length ops * (N + 2) \<le> CR_POINTS_MAX"
        using m(4) Cons.prems(4) by simp
      from Cons.IH [OF m(3,2) Cons.prems(3) this Cons.prems(5)] show ?thesis
        using r m(1) False by simp
    qed
  qed
qed simp

section \<open>Identifier characters\<close>

lemma id_predicates:
  "lre_is_id_start c = Some (c \<in> table_set unicode_prop_ID_Start_table)"
  "lre_is_id_continue c = Some (c \<in> table_set unicode_prop_ID_Start_table \<union>
     table_set unicode_prop_ID_Continue1_table)"
  using id_start.is_in_table [of c] id_continue1.is_in_table [of c]
  by (simp_all add: lre_is_id_start_def lre_is_id_continue_def index_lengths table_set_def)

lemma id_tables_disjoint: "table_set unicode_prop_ID_Start_table \<inter> table_set unicode_prop_ID_Continue1_table = {}"
proof -
  have "\<forall>r \<in> set (table_runs tbl). 0 \<le> r" for tbl
    using prop_runs_nonneg [of tbl] by (cases "prop_runs tbl") (auto simp: table_runs_def)
  then show ?thesis
    using runs_disjoint_sound [OF id_runs_disjoint, of 0] by (auto simp: table_set_def)
qed

definition id_leaf :: "prop_op \<Rightarrow> u32 set" where
  "id_leaf oper = (if oper = POP_PROP UNICODE_PROP_ID_Start then table_set unicode_prop_ID_Start_table
     else table_set unicode_prop_ID_Continue1_table)"

definition id_continue_ops :: "prop_op list" where
  "id_continue_ops = [POP_PROP UNICODE_PROP_ID_Start, POP_PROP UNICODE_PROP_ID_Continue1, POP_XOR, POP_END]"

lemma builds_mono: "builds g N S \<Longrightarrow> N \<le> M \<Longrightarrow> builds g M S"
  unfolding builds_def by (meson order_trans)

lemma id_continue_leaves:
  assumes "oper \<in> set id_continue_ops" and "is_leaf oper"
  shows "builds (leaf_gen oper) 4180 (id_leaf oper)"
proof -
  have "builds (\<lambda>cr. unicode_prop1 cr UNICODE_PROP_ID_Continue1) 4180
     (table_set unicode_prop_ID_Continue1_table)"
    using builds_ID_Continue1 by (rule builds_mono) simp
  with builds_ID_Start assms show ?thesis by (auto simp: id_continue_ops_def id_leaf_def)
qed

lemma id_continue_sem:
  "prop_sem id_leaf id_continue_ops [] =
     Some (sym_diff (table_set unicode_prop_ID_Start_table) (table_set unicode_prop_ID_Continue1_table))"
  by (simp add: id_continue_ops_def id_leaf_def)

section \<open>Properties\<close>

text \<open>C9: refinement: a program of the property stack machine whose leaf instructions build the
  sets \<open>leaf\<close> computes the set it denotes (\<open>prop_sem\<close>), with sorted, paired boundaries, unless an
  allocation fails; no assertion fails and the stack of four ranges never overflows.\<close>

theorem unicode_prop_ops_correct:
  assumes "prop_sem leaf ops [] = Some S"
    and "\<And>oper. oper \<in> set ops \<Longrightarrow> is_leaf oper \<Longrightarrow> builds (leaf_gen oper) N (leaf oper)"
    and "length ops * (N + 2) \<le> CR_POINTS_MAX" and "cr_fits CR_POINTS_MAX cr"
  shows "\<exists>r cr'. unicode_prop_ops cr ops = Some (r, cr') \<and> (r = -1 \<or> r = 0 \<and> stands_for cr' S)"
  using prop_machine [OF assms(1) _ assms(2) _ assms(4), where st = "[]"] assms(3)
  by (simp add: unicode_prop_ops_def)

theorem unicode_prop_ops_correct_witness:
  "\<exists>r cr'. unicode_prop_ops (cr_init (\<lambda>n k. Some (\<lambda>i. 0))) id_continue_ops = Some (r, cr') \<and>
     (r = -1 \<or> r = 0 \<and> stands_for cr' (sym_diff (table_set unicode_prop_ID_Start_table)
        (table_set unicode_prop_ID_Continue1_table)))"
  by (rule unicode_prop_ops_correct [OF id_continue_sem id_continue_leaves _ cr_init_fits(1)])
    (simp_all add: id_continue_ops_def CR_POINTS_MAX_def)

text \<open>C20: equivalence of two routes to the identifier characters: the ranges that the property
  escapes ID_Start and ID_Continue of a regular expression build hold exactly the characters the
  predicates \<open>lre_is_id_start\<close> and \<open>lre_is_id_continue\<close> accept, or the allocator failed.  The program of
  ID_Continue takes a symmetric difference; it is the union because the two tables are disjoint.\<close>

theorem id_property_escapes_agree:
  assumes "cr_fits CR_POINTS_MAX cr" and "cr_len cr = 0"
  shows "(\<exists>r cr'. unicode_prop cr (c_bytes ''ID_Start'') = Some (r, cr') \<and>
      (r = -1 \<or> r = 0 \<and> cr_set (cr_pts cr') = {c. lre_is_id_start c = Some True})) \<and>
    (\<exists>r cr'. unicode_prop cr (c_bytes ''ID_Continue'') = Some (r, cr') \<and>
      (r = -1 \<or> r = 0 \<and> cr_set (cr_pts cr') = {c. lre_is_id_continue c = Some True}))"
proof
  have u: "unicode_prop cr (c_bytes ''ID_Start'') = unicode_prop1 cr UNICODE_PROP_ID_Start"
    unfolding unicode_prop_def find_id_names
    by (simp add: prop_program_def unicode_prop_table_def)
  have "4180 \<le> CR_POINTS_MAX" by (simp add: CR_POINTS_MAX_def)
  from buildsD [OF builds_ID_Start assms this] obtain r cr' where
    "unicode_prop1 cr UNICODE_PROP_ID_Start = Some (r, cr')"
    "r = -1 \<or> r = 0 \<and> cr_set (cr_pts cr') = table_set unicode_prop_ID_Start_table" by blast
  then show "\<exists>r cr'. unicode_prop cr (c_bytes ''ID_Start'') = Some (r, cr') \<and>
      (r = -1 \<or> r = 0 \<and> cr_set (cr_pts cr') = {c. lre_is_id_start c = Some True})"
    unfolding u by (intro exI [of _ r] exI [of _ cr']) (simp add: id_predicates)
next
  have u: "unicode_prop cr (c_bytes ''ID_Continue'') = unicode_prop_ops_loop cr id_continue_ops []"
    unfolding unicode_prop_def find_id_names
    by (simp add: prop_program_def id_continue_ops_def unicode_prop_ops_def)
  have n: "list_all2 stands_for [] []" by simp
  have "pts_total [] + length id_continue_ops * (4180 + 2) \<le> CR_POINTS_MAX"
    by (simp add: id_continue_ops_def CR_POINTS_MAX_def)
  from prop_machine [OF id_continue_sem n id_continue_leaves this assms(1)] obtain r cr' where
    "unicode_prop_ops_loop cr id_continue_ops [] = Some (r, cr')"
    "r = -1 \<or> r = 0 \<and> stands_for cr' (sym_diff (table_set unicode_prop_ID_Start_table)
       (table_set unicode_prop_ID_Continue1_table))" by blast
  then show "\<exists>r cr'. unicode_prop cr (c_bytes ''ID_Continue'') = Some (r, cr') \<and>
      (r = -1 \<or> r = 0 \<and> cr_set (cr_pts cr') = {c. lre_is_id_continue c = Some True})"
    unfolding u by (intro exI [of _ r] exI [of _ cr']) (use id_tables_disjoint in \<open>auto simp: id_predicates stands_for_def\<close>)
qed

theorem id_property_escapes_agree_witness:
  "(\<exists>r cr'. unicode_prop (cr_init (\<lambda>n k. Some (\<lambda>i. 0))) (c_bytes ''ID_Start'') = Some (r, cr') \<and>
      (r = -1 \<or> r = 0 \<and> cr_set (cr_pts cr') = {c. lre_is_id_start c = Some True})) \<and>
   (\<exists>r cr'. unicode_prop (cr_init (\<lambda>n k. Some (\<lambda>i. 0))) (c_bytes ''ID_Continue'') = Some (r, cr') \<and>
      (r = -1 \<or> r = 0 \<and> cr_set (cr_pts cr') = {c. lre_is_id_continue c = Some True}))"
  by (rule id_property_escapes_agree [OF cr_init_fits])

text \<open>C21: name lookup is exact: in a table of entries that are lists of comma-separated
  alternatives, each ended by a zero byte, with a final empty entry, \<open>unicode_find_name\<close> returns
  the position of the first entry with an alternative equal to the name, and -1 when there is none;
  it never reads outside the table.\<close>

theorem unicode_find_name_correct:
  assumes "\<forall>s \<in> set ss. s \<noteq> [] \<and> 0 \<notin> set s"
  shows "unicode_find_name (concat (map (\<lambda>s. s @ [0]) ss) @ [0]) name = Some (name_index ss name 0)"
  unfolding unicode_find_name_def by (rule find_name_loop_index [OF assms])

theorem unicode_find_name_correct_witness:
  "unicode_find_name [65, 44, 66, 67, 0, 68, 0, 0] [66, 67] = Some 0 \<and>
   unicode_find_name [65, 44, 66, 67, 0, 68, 0, 0] [68] = Some 1 \<and>
   unicode_find_name [65, 44, 66, 67, 0, 68, 0, 0] [66] = Some (-1)"
  using unicode_find_name_correct [of "[[65, 44, 66, 67], [68]]"]
  by (simp add: split_commas.simps)

end
