(* ===== verification/UnicodeNorm.thy ===== *)
theory UnicodeNorm
  imports UnicodeDecompTables UnicodeRuns DynBuf
begin

text \<open>
  Unicode normalisation (\<open>libunicode.c\<close>, \<open>unicode_get_short_code\<close> to \<open>unicode_normalize\<close>):
  decomposition of characters through the packed tables, canonical ordering of combining marks,
  composition of pairs, and the four normalisation forms over the dynamic buffer.  A pointer into
  \<open>unicode_decomp_data\<close> is its offset.
\<close>

section \<open>Decomposition of a character\<close>

abbreviation (input) DECOMP_TYPE_C1 :: nat where "DECOMP_TYPE_C1 \<equiv> 0"
abbreviation (input) DECOMP_TYPE_L1 :: nat where "DECOMP_TYPE_L1 \<equiv> 1"
abbreviation (input) DECOMP_TYPE_L7 :: nat where "DECOMP_TYPE_L7 \<equiv> 7"
abbreviation (input) DECOMP_TYPE_LL1 :: nat where "DECOMP_TYPE_LL1 \<equiv> 8"
abbreviation (input) DECOMP_TYPE_LL2 :: nat where "DECOMP_TYPE_LL2 \<equiv> 9"
abbreviation (input) DECOMP_TYPE_S1 :: nat where "DECOMP_TYPE_S1 \<equiv> 10"
abbreviation (input) DECOMP_TYPE_S5 :: nat where "DECOMP_TYPE_S5 \<equiv> 14"
abbreviation (input) DECOMP_TYPE_I1 :: nat where "DECOMP_TYPE_I1 \<equiv> 15"
abbreviation (input) DECOMP_TYPE_I2_0 :: nat where "DECOMP_TYPE_I2_0 \<equiv> 16"
abbreviation (input) DECOMP_TYPE_I4_2 :: nat where "DECOMP_TYPE_I4_2 \<equiv> 21"
abbreviation (input) DECOMP_TYPE_B1 :: nat where "DECOMP_TYPE_B1 \<equiv> 22"
abbreviation (input) DECOMP_TYPE_B8 :: nat where "DECOMP_TYPE_B8 \<equiv> 29"
abbreviation (input) DECOMP_TYPE_B18 :: nat where "DECOMP_TYPE_B18 \<equiv> 30"
abbreviation (input) DECOMP_TYPE_LS2 :: nat where "DECOMP_TYPE_LS2 \<equiv> 31"
abbreviation (input) DECOMP_TYPE_PAT3 :: nat where "DECOMP_TYPE_PAT3 \<equiv> 32"
abbreviation (input) DECOMP_TYPE_S2_UL :: nat where "DECOMP_TYPE_S2_UL \<equiv> 33"
abbreviation (input) DECOMP_TYPE_LS2_UL :: nat where "DECOMP_TYPE_LS2_UL \<equiv> 34"

abbreviation (input) UNICODE_DECOMP_LEN_MAX :: nat where "UNICODE_DECOMP_LEN_MAX \<equiv> 18"

definition unicode_get_short_code :: "u32 \<Rightarrow> u32 option" where
  "unicode_get_short_code c =
     (if c < 0x80 then Some c
      else if c < 0x80 + 0x50 then Some (c - 0x80 + 0x300)
      else rd [0x2044, 0x2215] (unat (c - 0x80 - 0x50)))"

definition unicode_get_lower_simple :: "u32 \<Rightarrow> u32" where
  "unicode_get_lower_simple c = (if c < 0x100 \<or> c \<ge> 0x410 \<and> c \<le> 0x42f then c + 0x20 else c + 1)"

definition unicode_get16 :: "u8 list \<Rightarrow> int \<Rightarrow> u32 option" where
  "unicode_get16 data p = do {
     b0 \<leftarrow> get_u8 data p;
     b1 \<leftarrow> get_u8 data (p + 1);
     Some (b0 OR push_bit 8 b1)
   }"

text \<open>The loops of \<open>unicode_decomp_entry\<close>, from cell \<open>i\<close> on.  Their result is the return value and the
  cells of \<open>res\<close> they write, in order; \<open>l\<close> is the number of cells of a full decomposition.\<close>

fun decomp_l :: "nat \<Rightarrow> int \<Rightarrow> nat \<Rightarrow> (nat \<times> u32 list) option" where
  "decomp_l l d 0 = Some (l, [])"
| "decomp_l l d (Suc k) = do {
     v \<leftarrow> unicode_get16 unicode_decomp_data d;
     if v = 0 then Some (0, [v])
     else do { (r, ws) \<leftarrow> decomp_l l (d + 2) k; Some (r, v # ws) }
   }"

fun decomp_ll :: "nat \<Rightarrow> int \<Rightarrow> u32 \<Rightarrow> u32 \<Rightarrow> nat \<Rightarrow> (nat \<times> u32 list) option" where
  "decomp_ll l d p k 0 = Some (l, [])"
| "decomp_ll l d p k (Suc n) = do {
     lo \<leftarrow> unicode_get16 unicode_decomp_data (d + uint (2 * k));
     hi \<leftarrow> get_u8 unicode_decomp_data (d + uint (p + k div 4));
     let c1 = lo OR push_bit 16 (drop_bit (unat (k mod 4) * 2) hi AND 3);
     if c1 = 0 then Some (0, [])
     else do { (r, ws) \<leftarrow> decomp_ll l d p (k + 1) n; Some (r, c1 # ws) }
   }"

fun decomp_s :: "nat \<Rightarrow> int \<Rightarrow> nat \<Rightarrow> (nat \<times> u32 list) option" where
  "decomp_s l d 0 = Some (l, [])"
| "decomp_s l d (Suc k) = do {
     b \<leftarrow> get_u8 unicode_decomp_data d;
     v \<leftarrow> unicode_get_short_code b;
     if v = 0 then Some (0, [v])
     else do { (r, ws) \<leftarrow> decomp_s l (d + 1) k; Some (r, v # ws) }
   }"

fun decomp_i :: "int \<Rightarrow> nat \<Rightarrow> u32 \<Rightarrow> nat \<Rightarrow> nat \<Rightarrow> u32 list option" where
  "decomp_i d p off i 0 = Some []"
| "decomp_i d p off i (Suc k) = do {
     c1 \<leftarrow> unicode_get16 unicode_decomp_data (d + 2 * int i);
     ws \<leftarrow> decomp_i d p off (Suc i) k;
     Some ((if i = p then c1 + off else c1) # ws)
   }"

fun decomp_b :: "int \<Rightarrow> u32 \<Rightarrow> nat \<Rightarrow> u32 list option" where
  "decomp_b d c_min 0 = Some []"
| "decomp_b d c_min (Suc k) = do {
     c1 \<leftarrow> get_u8 unicode_decomp_data d;
     ws \<leftarrow> decomp_b (d + 1) c_min k;
     Some ((if c1 = 0xff then 0x20 else c1 + c_min) # ws)
   }"

definition full :: "u32 list \<Rightarrow> nat \<times> u32 list" where
  "full ws = (length ws, ws)"

definition unicode_decomp_entry ::
  "u32 \<Rightarrow> nat \<Rightarrow> u32 \<Rightarrow> u32 \<Rightarrow> nat \<Rightarrow> (nat \<times> u32 list) option" where
  "unicode_decomp_entry c idx code len type = do {
     t2 \<leftarrow> rd unicode_decomp_table2 idx;
     if type = DECOMP_TYPE_C1 then Some (1, [ucast t2])
     else
       let d = uint t2; off = c - code in
       if DECOMP_TYPE_L1 \<le> type \<and> type \<le> DECOMP_TYPE_L7 then
         (let l = type - DECOMP_TYPE_L1 + 1 in decomp_l l (d + uint (off * of_nat l * 2)) l)
       else if DECOMP_TYPE_LL1 \<le> type \<and> type \<le> DECOMP_TYPE_LL2 then
         (let l = type - DECOMP_TYPE_LL1 + 1 in
          decomp_ll l d (len * of_nat l * 2) (off * of_nat l) l)
       else if DECOMP_TYPE_S1 \<le> type \<and> type \<le> DECOMP_TYPE_S5 then
         (let l = type - DECOMP_TYPE_S1 + 1 in decomp_s l (d + uint (off * of_nat l)) l)
       else if type = DECOMP_TYPE_I1 then map_option full (decomp_i d 0 off 0 1)
       else if DECOMP_TYPE_I2_0 \<le> type \<and> type \<le> DECOMP_TYPE_I4_2 then
         (let l = 2 + (type - DECOMP_TYPE_I2_0) div 2;
              p = (type - DECOMP_TYPE_I2_0) mod 2 + (if l > 2 then 1 else 0) in
          map_option full (decomp_i d p off 0 l))
       else if DECOMP_TYPE_B1 \<le> type \<and> type \<le> DECOMP_TYPE_B18 then
         (let l = (if type = DECOMP_TYPE_B18 then 18 else type - DECOMP_TYPE_B1 + 1) in do {
            c_min \<leftarrow> unicode_get16 unicode_decomp_data d;
            map_option full (decomp_b (d + uint (2 + off * of_nat l)) c_min l)
          })
       else if type = DECOMP_TYPE_LS2 then do {
         let d = d + uint (off * 3);
         r0 \<leftarrow> unicode_get16 unicode_decomp_data d;
         if r0 = 0 then Some (0, [r0])
         else do {
           b \<leftarrow> get_u8 unicode_decomp_data (d + 2);
           r1 \<leftarrow> unicode_get_short_code b;
           Some (2, [r0, r1])
         }
       }
       else if type = DECOMP_TYPE_PAT3 then do {
         r0 \<leftarrow> unicode_get16 unicode_decomp_data d;
         r2 \<leftarrow> unicode_get16 unicode_decomp_data (d + 2);
         r1 \<leftarrow> unicode_get16 unicode_decomp_data (d + uint (4 + off * 2));
         Some (3, [r0, r1, r2])
       }
       else if type = DECOMP_TYPE_S2_UL \<or> type = DECOMP_TYPE_LS2_UL then do {
         (c, d) \<leftarrow> (if type = DECOMP_TYPE_S2_UL then do {
             let d = d + uint (off AND NOT 1);
             b \<leftarrow> get_u8 unicode_decomp_data d;
             c \<leftarrow> unicode_get_short_code b;
             Some (c, d + 1)
           } else do {
             let d = d + uint (drop_bit 1 off * 3);
             c \<leftarrow> unicode_get16 unicode_decomp_data d;
             Some (c, d + 2)
           });
         b \<leftarrow> get_u8 unicode_decomp_data d;
         r1 \<leftarrow> unicode_get_short_code b;
         Some (2, [if off AND 1 \<noteq> 0 then unicode_get_lower_simple c else c, r1])
       }
       else Some (0, [])
   }"

definition decomp_code :: "u32 \<Rightarrow> u32" where
  "decomp_code v = drop_bit (32 - 18) v"

definition decomp_len :: "u32 \<Rightarrow> u32" where
  "decomp_len v = drop_bit (32 - 18 - 7) v AND 0x7f"

definition decomp_type :: "u32 \<Rightarrow> nat" where
  "decomp_type v = unat (drop_bit (32 - 18 - 7 - 6) v AND 0x3f)"

definition unicode_decomp_char :: "u32 \<Rightarrow> bool \<Rightarrow> (nat \<times> u32 list) option" where
  "unicode_decomp_char c is_compat1 =
     (case run_search decomp_code decomp_len unicode_decomp_table1 c 0
         (int (length unicode_decomp_table1) - 1) of
        None \<Rightarrow> Some (0, [])
      | Some idx \<Rightarrow> let v = unicode_decomp_table1 ! idx in
          if \<not> is_compat1 \<and> v AND 1 \<noteq> 0 then Some (0, [])
          else unicode_decomp_entry c idx (decomp_code v) (decomp_len v) (decomp_type v))"

section \<open>Composition of a pair\<close>

text \<open>\<open>pair\<close> holds the two cells of the local array; \<open>None\<close> is an uninitialised cell.\<close>

definition store_pair :: "u32 option list \<Rightarrow> u32 list \<Rightarrow> u32 option list option" where
  "store_pair pair ws = (if length ws \<le> length pair
     then Some (map Some ws @ drop (length ws) pair) else None)"

function compose_search :: "u32 \<Rightarrow> u32 \<Rightarrow> u32 option list \<Rightarrow> int \<Rightarrow> int \<Rightarrow> u32 option" where
  "compose_search c0 c1 pair idx_min idx_max =
     (if idx_min \<le> idx_max then
        let idx = (idx_max + idx_min) div 2 in
        case rdi unicode_comp_table idx of None \<Rightarrow> None | Some idx1 \<Rightarrow>
        let d_idx = unat (drop_bit 6 idx1); d_offset = ucast (idx1 AND 0x3f) in
        case rd unicode_decomp_table1 d_idx of None \<Rightarrow> None | Some v \<Rightarrow>
        let code = decomp_code v; ch = code + d_offset in
        case unicode_decomp_entry ch d_idx code (decomp_len v) (decomp_type v) of
          None \<Rightarrow> None
        | Some (_, ws) \<Rightarrow>
        (case store_pair pair ws of
           Some [Some p0, q1] \<Rightarrow>
             let pair = [Some p0, q1]; d = sint (c0 - p0) in
             (case (if d \<noteq> 0 then Some d else map_option (\<lambda>p1. sint (c1 - p1)) q1) of
                None \<Rightarrow> None
              | Some d \<Rightarrow>
                  if d < 0 then compose_search c0 c1 pair idx_min (idx - 1)
                  else if d > 0 then compose_search c0 c1 pair (idx + 1) idx_max
                  else Some ch)
         | _ \<Rightarrow> None)
      else Some 0)"
  by pat_completeness auto
termination
  by (relation "measure (\<lambda>(c0, c1, pair, a, b). nat (b - a + 1))") auto

declare compose_search.simps [simp del]

definition unicode_compose_pair :: "u32 \<Rightarrow> u32 \<Rightarrow> u32 option" where
  "unicode_compose_pair c0 c1 =
     compose_search c0 c1 [None, None] 0 (int (length unicode_comp_table) - 1)"

section \<open>Combining classes\<close>

text \<open>One code of the table: its type, the number of characters less one, the byte that follows
  for the types 0 and 1, and the rest of the table.\<close>

fun cc_delta :: "u8 list \<Rightarrow> (u32 \<times> u32 \<times> u32 \<times> u8 list) option" where
  "cc_delta [] = None"
| "cc_delta (x # p) = (let b = ucast x :: u32; type = drop_bit 6 b; n = b AND 0x3f in do {
     (n, p) \<leftarrow> (if n < 48 then Some (n, p)
       else if n < 56 then (case p of
           b1 # p' \<Rightarrow> Some ((push_bit 8 (n - 48) OR ucast b1) + 48, p') | [] \<Rightarrow> None)
       else (case p of
           b1 # b2 # p' \<Rightarrow> Some ((push_bit 8 (n - 56) OR push_bit 8 (ucast b1) OR ucast b2)
             + (48 + 2048), p')
         | _ \<Rightarrow> None));
     if type \<le> 1 then (case p of v # p' \<Rightarrow> Some (type, n, ucast v, p') | [] \<Rightarrow> None)
     else Some (type, n, 0, p)
   })"

lemma cc_delta_shorter: "cc_delta p = Some (t, n, v, q) \<Longrightarrow> length q < length p"
  by (cases p) (auto simp: Let_def bind_Some_iff split: if_splits list.splits)

function get_cc_loop :: "u8 list \<Rightarrow> u32 \<Rightarrow> u32 \<Rightarrow> int option" where
  "get_cc_loop p code c = (case cc_delta p of
     None \<Rightarrow> None
   | Some (type, n, v, q) \<Rightarrow>
       let c1 = code + n + 1 in
       if c < c1 then
         Some (sint (if type = 0 then v else if type = 1 then v + c - code
           else if type = 2 then 0 else 230))
       else get_cc_loop q c1 c)"
  by pat_completeness auto
termination
  by (relation "measure (\<lambda>(p, code, c). length p)") (auto dest: cc_delta_shorter)

declare get_cc_loop.simps [simp del]

definition unicode_get_cc :: "u32 \<Rightarrow> int option" where
  "unicode_get_cc c = do {
     (pos, code) \<leftarrow> get_index_pos c unicode_cc_index (int (length unicode_cc_index) div 3);
     if pos < 0 then Some 0
     else if pos > int (length unicode_cc_table) then None
     else get_cc_loop (drop (nat pos) unicode_cc_table) code c
   }"

section \<open>Canonical ordering\<close>

function cc_shift :: "u32 list \<Rightarrow> int \<Rightarrow> int \<Rightarrow> int \<Rightarrow> (u32 list \<times> int) option" where
  "cc_shift buf k start cc1 =
     (if k \<ge> start then
        case rdi buf k of None \<Rightarrow> None | Some ch \<Rightarrow>
        case unicode_get_cc ch of None \<Rightarrow> None | Some cc \<Rightarrow>
        if cc \<le> cc1 then Some (buf, k)
        else (case wri buf (k + 1) ch of None \<Rightarrow> None
          | Some buf \<Rightarrow> cc_shift buf (k - 1) start cc1)
      else Some (buf, k))"
  by pat_completeness auto
termination
  by (relation "measure (\<lambda>(buf, k, start, cc1). nat (k - start + 1))") auto

declare cc_shift.simps [simp del]

function cc_run :: "u32 list \<Rightarrow> int \<Rightarrow> int \<Rightarrow> int \<Rightarrow> (u32 list \<times> int) option" where
  "cc_run buf j len start =
     (if j < len then
        case rdi buf j of None \<Rightarrow> None | Some ch1 \<Rightarrow>
        case unicode_get_cc ch1 of None \<Rightarrow> None | Some cc1 \<Rightarrow>
        if cc1 = 0 then Some (buf, j)
        else (case cc_shift buf (j - 1) start cc1 of None \<Rightarrow> None
          | Some (buf, k) \<Rightarrow> (case wri buf (k + 1) ch1 of None \<Rightarrow> None
              | Some buf \<Rightarrow> cc_run buf (j + 1) len start))
      else Some (buf, j))"
  by pat_completeness auto
termination
  by (relation "measure (\<lambda>(buf, j, len, start). nat (len - j))") auto

declare cc_run.simps [simp del]

lemma cc_run_advances: "cc_run buf j len start = Some (buf', j') \<Longrightarrow> j \<le> j'"
proof (induction "nat (len - j)" arbitrary: buf j rule: less_induct)
  case less
  note unf = less.prems [unfolded cc_run.simps [of buf j]]
  show ?case
  proof (cases "cc_run buf j len start = Some (buf, j)")
    case False
    with unf obtain b where "j < len" "cc_run b (j + 1) len start = Some (buf', j')"
      unfolding cc_run.simps [of buf j] by (auto split: if_splits option.splits)
    with less.hyps [of "j + 1" b] show ?thesis by simp
  qed (use less.prems in simp)
qed

function sort_cc_loop :: "u32 list \<Rightarrow> int \<Rightarrow> int \<Rightarrow> u32 list option" where
  "sort_cc_loop buf i len =
     (if i < len then
        case rdi buf i of None \<Rightarrow> None | Some ch \<Rightarrow>
        case unicode_get_cc ch of None \<Rightarrow> None | Some cc \<Rightarrow>
        if cc \<noteq> 0 then (case cc_run buf (i + 1) len i of None \<Rightarrow> None
          | Some (buf, j) \<Rightarrow> sort_cc_loop buf (j + 1) len)
        else sort_cc_loop buf (i + 1) len
      else Some buf)"
  by pat_completeness auto
termination
  by (relation "measure (\<lambda>(buf, i, len). nat (len - i))") (auto dest: cc_run_advances)

declare sort_cc_loop.simps [simp del]

definition sort_cc :: "u32 list \<Rightarrow> u32 list option" where
  "sort_cc buf = sort_cc_loop buf 0 (int (length buf))"

section \<open>Normalisation\<close>

definition dbuf_put_u32 :: "dynbuf \<Rightarrow> u32 \<Rightarrow> (int \<times> dynbuf) option" where
  "dbuf_put_u32 s v = dbuf_put s (le_bytes v)"

definition is_hangul :: "u32 \<Rightarrow> bool" where
  "is_hangul c \<longleftrightarrow> c \<ge> 0xac00 \<and> c < 0xd7a4"

text \<open>The letters the Hangul branch writes.\<close>

definition hangul_letters :: "u32 \<Rightarrow> u32 list" where
  "hangul_letters c = (let c = c - 0xac00; v = c mod 28 in
     [0x1100 + c div 588, 0x1161 + c mod 588 div 28] @ (if v \<noteq> 0 then [0x11a7 + v] else []))"

text \<open>The appended characters are written one by one; return values are ignored, the buffer keeps
  its error flag.\<close>

fun put_u32s :: "dynbuf \<Rightarrow> u32 list \<Rightarrow> dynbuf option" where
  "put_u32s s [] = Some s"
| "put_u32s s (v # vs) = do { (_, s) \<leftarrow> dbuf_put_u32 s v; put_u32s s vs }"

text \<open>\<open>fuel\<close> bounds the depth of the recursion, which the tables decide.\<close>

function to_nfd_rec :: "nat \<Rightarrow> dynbuf \<Rightarrow> u32 list \<Rightarrow> bool \<Rightarrow> dynbuf option" where
  "to_nfd_rec fuel s [] is_compat = Some s"
| "to_nfd_rec fuel s (c # src) is_compat =
     (case (if is_hangul c then put_u32s s (hangul_letters c)
        else (case unicode_decomp_char c is_compat of
            None \<Rightarrow> None
          | Some (l, res) \<Rightarrow>
              if l \<noteq> 0 then (case fuel of 0 \<Rightarrow> None | Suc f \<Rightarrow> to_nfd_rec f s (take l res) is_compat)
              else put_u32s s [c])) of
        None \<Rightarrow> None
      | Some s \<Rightarrow> to_nfd_rec fuel s src is_compat)"
  by pat_completeness auto
termination
  by (relation "measures [\<lambda>(f, s, src, k). f, \<lambda>(f, s, src, k). length src]") auto

definition compose_pair :: "u32 \<Rightarrow> u32 \<Rightarrow> u32 option" where
  "compose_pair c0 c1 =
     (if c0 \<ge> 0x1100 \<and> c0 < 0x1100 + 19 \<and> c1 \<ge> 0x1161 \<and> c1 < 0x1161 + 21 then
        Some (0xac00 + (c0 - 0x1100) * 588 + (c1 - 0x1161) * 28)
      else if c0 \<ge> 0xac00 \<and> c0 < 0xac00 + 11172 \<and> (c0 - 0xac00) mod 28 = 0 \<and>
          c1 \<ge> 0x11a7 \<and> c1 < 0x11a7 + 28 then
        Some (c0 + c1 - 0x11a7)
      else unicode_compose_pair c0 c1)"

text \<open>The inner loop of \<open>unicode_normalize\<close>: the position of the starter, or -1, or \<open>None\<close> as the inner
  value for the jump to \<open>next\<close> when the character is blocked.\<close>

function find_starter :: "u32 list \<Rightarrow> int \<Rightarrow> int \<Rightarrow> int option option" where
  "find_starter buf starter_pos last_cc =
     (if starter_pos \<ge> 0 then
        case rdi buf starter_pos of None \<Rightarrow> None | Some ch \<Rightarrow>
        case unicode_get_cc ch of None \<Rightarrow> None | Some cc \<Rightarrow>
        if cc = 0 then Some (Some starter_pos)
        else if cc \<ge> last_cc then Some None
        else find_starter buf (starter_pos - 1) 256
      else Some (Some starter_pos))"
  by pat_completeness auto
termination
  by (relation "measure (\<lambda>(buf, k, cc). nat (k + 1))") auto

declare find_starter.simps [simp del]

text \<open>One iteration of the composition loop: the starter is replaced, or the character is kept.\<close>

definition compose_step :: "u32 list \<Rightarrow> int \<Rightarrow> int \<Rightarrow> (u32 list \<times> int) option" where
  "compose_step buf i out_len = do {
     ch \<leftarrow> rdi buf i;
     last_cc \<leftarrow> unicode_get_cc ch;
     st \<leftarrow> find_starter buf (out_len - 1) last_cc;
     p \<leftarrow> (case st of
        Some k \<Rightarrow> if k \<ge> 0 then do { c0 \<leftarrow> rdi buf k; compose_pair c0 ch } else Some 0
      | None \<Rightarrow> Some 0);
     if p \<noteq> 0 then do { buf \<leftarrow> wri buf (case st of Some k \<Rightarrow> k | None \<Rightarrow> -1) p; Some (buf, out_len) }
     else do { buf \<leftarrow> wri buf out_len ch; Some (buf, out_len + 1) }
   }"

function compose_loop :: "u32 list \<Rightarrow> int \<Rightarrow> int \<Rightarrow> int \<Rightarrow> (u32 list \<times> int) option" where
  "compose_loop buf buf_len i out_len =
     (if i < buf_len then
        (case compose_step buf i out_len of
           None \<Rightarrow> None
         | Some (buf, out_len) \<Rightarrow> compose_loop buf buf_len (i + 1) out_len)
      else Some (buf, out_len))"
  by pat_completeness auto
termination
  by (relation "measure (\<lambda>(buf, n, i, out_len). nat (n - i))") auto

declare compose_loop.simps [simp del]

datatype normalization = UNICODE_NFC | UNICODE_NFD | UNICODE_NFKC | UNICODE_NFKD

fun n_compat :: "normalization \<Rightarrow> bool" where
  "n_compat UNICODE_NFKC = True"
| "n_compat UNICODE_NFKD = True"
| "n_compat _ = False"

fun n_decomposed :: "normalization \<Rightarrow> bool" where
  "n_decomposed UNICODE_NFD = True"
| "n_decomposed UNICODE_NFKD = True"
| "n_decomposed _ = False"

text \<open>The characters a buffer holds.\<close>

fun le_words :: "u8 list \<Rightarrow> u32 list" where
  "le_words (a # b # c # d # r) =
     (ucast a OR push_bit 8 (ucast b) OR push_bit 16 (ucast c) OR push_bit 24 (ucast d)) # le_words r"
| "le_words _ = []"

text \<open>The result: the return value, and the characters of \<open>*pdst\<close> (\<open>[]\<close> for the null pointer).\<close>

definition unicode_normalize ::
  "nat \<Rightarrow> realloc_fun \<Rightarrow> realloc_fun option \<Rightarrow> u32 list \<Rightarrow> normalization \<Rightarrow> (int \<times> u32 list) option" where
  "unicode_normalize fuel dbuf_default_realloc realloc_func src n_type = do {
     let dbuf = dbuf_init2 dbuf_default_realloc realloc_func;
     (r, dbuf) \<leftarrow> dbuf_realloc dbuf (sz (4 * length src));
     if r \<noteq> 0 then Some (-1, [])
     else if n_type = UNICODE_NFC \<and> (\<forall>c \<in> set src. c < 0x100) then do {
       b \<leftarrow> wr_block (db_buf dbuf) 0 (concat (map le_bytes src));
       Some (int (length src), take (length src) (le_words b))
     }
     else do {
       dbuf \<leftarrow> to_nfd_rec fuel dbuf src (n_compat n_type);
       if db_error dbuf then Some (-1, [])
       else do {
         let buf = le_words (dbuf_bytes dbuf);
         let buf_len = int (db_size dbuf div 4);
         buf \<leftarrow> sort_cc buf;
         if buf_len \<le> 1 \<or> n_decomposed n_type then Some (buf_len, buf)
         else do {
           (buf, out_len) \<leftarrow> compose_loop buf buf_len 1 1;
           Some (out_len, take (nat out_len) buf)
         }
       }
     }
   }"

end
