(* ===== verification/UnicodeNormProps.thy ===== *)
theory UnicodeNormProps
  imports UnicodeNorm "HOL-Library.Multiset"
begin

text \<open>
  Correctness of the normalisation code: the combining class lookup is total and in range, the
  in-place sort is the stable canonical ordering, Hangul composition inverts decomposition, and
  the buffer-level \<open>unicode_normalize\<close> refines the list-level definition of the normalisation forms.
\<close>

section \<open>Combining classes\<close>

text \<open>The characters a part of the class table covers, from \<open>k\<close> on; \<open>None\<close> if a code is cut or a class
  can exceed 255.\<close>

function cc_walk :: "u8 list \<Rightarrow> int \<Rightarrow> int option" where
  "cc_walk p k = (if p = [] then Some k else case cc_delta p of
     None \<Rightarrow> None
   | Some (type, n, v, q) \<Rightarrow>
       if type = 1 \<longrightarrow> uint v + uint n \<le> 255 then cc_walk q (k + uint n + 1) else None)"
  by pat_completeness auto
termination
  by (relation "measure (\<lambda>(p, k). length p)") (auto dest: cc_delta_shorter)

declare cc_walk.simps [simp del]

lemma cc_delta_append: "cc_delta p = Some (t, n, v, q) \<Longrightarrow> cc_delta (p @ r) = Some (t, n, v, q @ r)"
  by (cases p) (auto simp: Let_def bind_Some_iff split: if_splits list.splits)

lemma byte_less: "(ucast (b :: u8) :: u32) < 256"
  using unsigned_less [of b, where ?'a = nat]
  by (simp add: word_less_nat_alt unsigned_ucast_eq take_bit_nat_eq_self)

lemma cc_delta_byte: "cc_delta p = Some (t, n, v, q) \<Longrightarrow> v < 256"
  by (cases p) (auto simp: Let_def bind_Some_iff byte_less split: if_splits list.splits)

lemma cc_walk_step:
  assumes "cc_walk p k = Some k'" and "p \<noteq> []"
  obtains t n v q where "cc_delta p = Some (t, n, v, q)" "length q < length p"
    "t = 1 \<longrightarrow> uint v + uint n \<le> 255" "cc_walk q (k + uint n + 1) = Some k'"
  using assms by (subst (asm) cc_walk.simps) (auto split: if_splits option.splits dest: cc_delta_shorter)

lemma cc_walk_le: "cc_walk p k = Some k' \<Longrightarrow> k \<le> k'"
proof (induction p arbitrary: k rule: length_induct)
  case (1 p)
  show ?case
  proof (cases "p = []")
    case False
    with "1.prems" obtain t n v q where q: "cc_delta p = Some (t, n, v, q)" "length q < length p"
      "t = 1 \<longrightarrow> uint v + uint n \<le> 255" "cc_walk q (k + uint n + 1) = Some k'"
      by (rule cc_walk_step)
    with "1.IH" have "k + uint n + 1 \<le> k'" by blast
    then show ?thesis using uint_ge_0 [of n] by linarith
  qed (use "1.prems" in \<open>simp add: cc_walk.simps\<close>)
qed

lemma sint_small: "x < 256 \<Longrightarrow> sint (x :: u32) = uint x"
  by (simp add: sint_uint word_less_def signed_take_bit_int_eq_self order_trans [OF _ uint_ge_0])

lemma cc_value_range:
  assumes "v < 256" and "t = 1 \<longrightarrow> uint v + uint n \<le> 255" and "code \<le> c" and "uint c \<le> uint code + uint n"
  shows "0 \<le> sint (if t = 0 then v else if t = 1 then v + c - code else if t = 2 then 0 else (230 :: u32)) \<and>
    sint (if t = 0 then v else if t = 1 then v + c - code else if t = 2 then 0 else (230 :: u32)) \<le> 255"
proof -
  have "v + c - code < 256" if "t = 1"
  proof -
    have "uint (c - code) = uint c - uint code" using assms(3) by (simp add: uint_sub_if' word_le_def)
    then have "uint v + uint (c - code) \<le> 255" using assms that by simp
    then have "uint (v + (c - code)) \<le> 255" using uint_add_le [of v "c - code"] by simp
    then show ?thesis by (simp add: word_less_def add_diff_eq)
  qed
  then have "(if t = 0 then v else if t = 1 then v + c - code else if t = 2 then 0 else (230 :: u32)) < 256"
    using assms(1) by simp
  then show ?thesis using sint_small uint_ge_0 by (simp add: word_less_def)
qed

lemma get_cc_loop_total:
  assumes "cc_walk p (uint code) = Some k'" and "k' < 2 ^ 32" and "code \<le> c" and "uint c < k'"
  shows "\<exists>v. get_cc_loop (p @ rest) code c = Some v \<and> 0 \<le> v \<and> v \<le> 255"
  using assms
proof (induction p arbitrary: code rule: length_induct)
  case (1 p)
  have "p \<noteq> []" using "1.prems" by (auto simp: cc_walk.simps word_le_def)
  with "1.prems"(1) obtain t n v q where d: "cc_delta p = Some (t, n, v, q)" "length q < length p"
    "t = 1 \<longrightarrow> uint v + uint n \<le> 255" "cc_walk q (uint code + uint n + 1) = Some k'"
    by (rule cc_walk_step)
  have le: "uint code + uint n + 1 \<le> k'" using d(4) by (rule cc_walk_le)
  have u: "uint (code + n + 1) = uint code + uint n + 1"
    using uint_add_le [of code n] uint_add_le [of "code + n" 1] le "1.prems"(2) by simp
  have g: "get_cc_loop (p @ rest) code c = (if c < code + n + 1
      then Some (sint (if t = 0 then v else if t = 1 then v + c - code else if t = 2 then 0 else 230))
      else get_cc_loop (q @ rest) (code + n + 1) c)"
    using cc_delta_append [OF d(1), of rest] by (subst get_cc_loop.simps) (simp add: Let_def)
  show ?case
  proof (cases "c < code + n + 1")
    case True
    then have "uint c \<le> uint code + uint n" using u by (simp add: word_less_def)
    from cc_value_range [OF cc_delta_byte [OF d(1)] d(3) "1.prems"(3) this] show ?thesis
      unfolding g if_P [OF True] by blast
  next
    case False
    then have "code + n + 1 \<le> c" by simp
    with "1.IH" d(2,4) u "1.prems"(2,4) show ?thesis unfolding g if_not_P [OF False] by simp
  qed
qed

text \<open>The index and the class table agree: every entry starts a code, with the number of characters
  covered before it.\<close>

fun cc_blocks :: "u8 list \<Rightarrow> int \<Rightarrow> int \<Rightarrow> int \<Rightarrow> (int \<times> int) list \<Rightarrow> bool" where
  "cc_blocks rest pos k tot [] \<longleftrightarrow> cc_walk rest k = Some tot"
| "cc_blocks rest pos k tot ((p, c) # es) = (let d = nat (p - pos) in
     pos \<le> p \<and> length (take d rest) = d \<and> cc_walk (take d rest) k = Some c \<and>
     cc_blocks (drop d rest) p c tot es)"

definition cc_index_ok :: "u8 list \<Rightarrow> u8 list \<Rightarrow> nat \<Rightarrow> bool" where
  "cc_index_ok tbl idx n \<longleftrightarrow> 2 \<le> n \<and> (\<forall>i \<in> set [0..<n - 1]. index_entry idx i \<noteq> None) \<and>
     (case get_le24 idx ((int n - 1) * 3) of
        None \<Rightarrow> False
      | Some tot \<Rightarrow> cc_blocks tbl 0 0 (uint tot) (map (\<lambda>i. the (index_entry idx i)) [0..<n - 1]))"

lemma cc_walk_append:
  "cc_walk p k = Some k1 \<Longrightarrow> cc_walk (p @ q) k = cc_walk q k1"
proof (induction p arbitrary: k rule: length_induct)
  case (1 p)
  show ?case
  proof (cases "p = []")
    case False
    with "1.prems" obtain t n v r where r: "cc_delta p = Some (t, n, v, r)" "length r < length p"
      "t = 1 \<longrightarrow> uint v + uint n \<le> 255" "cc_walk r (k + uint n + 1) = Some k1"
      by (rule cc_walk_step)
    with "1.IH" have "cc_walk (r @ q) (k + uint n + 1) = cc_walk q k1" by blast
    then show ?thesis
      using False r cc_delta_append [OF r(1), of q] by (subst cc_walk.simps) simp
  qed (use "1.prems" in \<open>simp add: cc_walk.simps [of "[]"]\<close>)
qed

lemma cc_blocks_walk:
  "cc_blocks rest pos k tot es \<Longrightarrow> cc_walk rest k = Some tot \<and>
    (\<forall>(p, c) \<in> set es. pos \<le> p \<and> p - pos \<le> int (length rest) \<and>
       cc_walk (drop (nat (p - pos)) rest) c = Some tot)"
proof (induction es arbitrary: rest pos k)
  case (Cons e es)
  obtain p c where e: "e = (p, c)" by force
  let ?d = "nat (p - pos)"
  from Cons.prems have h: "pos \<le> p" "?d \<le> length rest" "cc_walk (take ?d rest) k = Some c"
      "cc_blocks (drop ?d rest) p c tot es"
    by (auto simp: e Let_def)
  note ih = Cons.IH [OF h(4)]
  have w: "cc_walk rest k = Some tot"
    using cc_walk_append [OF h(3), of "drop ?d rest"] ih by simp
  have "pos \<le> p' \<and> p' - pos \<le> int (length rest) \<and> cc_walk (drop (nat (p' - pos)) rest) c' = Some tot"
    if "(p', c') \<in> set es" for p' c'
  proof -
    from ih that have q: "p \<le> p'" "p' - p \<le> int (length (drop ?d rest))"
      "cc_walk (drop (nat (p' - p)) (drop ?d rest)) c' = Some tot" by auto
    have "nat (p' - p) + ?d = nat (p' - pos)" using h(1) q(1) by simp
    with q h(1,2) show ?thesis by (simp add: of_nat_diff)
  qed
  with w h ih show ?case by (auto simp: e)
qed simp

locale class_table =
  fixes tbl idx :: "u8 list" and n :: nat
  assumes consistent: "cc_index_ok tbl idx n"
begin

lemma entry:
  assumes "i < n - 1"
  shows "\<exists>v. get_le24 idx (int i * 3) = Some v \<and>
    (int i + 1) * 32 + uint (drop_bit 21 v) \<le> int (length tbl) \<and>
    (\<exists>tot. get_le24 idx ((int n - 1) * 3) = Some tot \<and>
      cc_walk (drop (nat ((int i + 1) * 32 + uint (drop_bit 21 v))) tbl) (uint (code21 v)) =
        Some (uint tot))"
proof -
  let ?es = "map (\<lambda>i. the (index_entry idx i)) [0..<n - 1]"
  from consistent obtain tot where t: "get_le24 idx ((int n - 1) * 3) = Some tot"
    and b: "cc_blocks tbl 0 0 (uint tot) ?es" and ne: "\<forall>i \<in> set [0..<n - 1]. index_entry idx i \<noteq> None"
    by (auto simp: cc_index_ok_def split: option.splits)
  have "index_entry idx i \<noteq> None" using ne assms by simp
  then obtain v where v: "get_le24 idx (int i * 3) = Some v"
    by (auto simp: index_entry_def bind_eq_None_conv)
  then have "the (index_entry idx i) = ((int i + 1) * 32 + uint (drop_bit 21 v), uint (code21 v))"
    by (simp add: index_entry_def)
  then have "((int i + 1) * 32 + uint (drop_bit 21 v), uint (code21 v)) \<in> set ?es"
    using assms by force
  with cc_blocks_walk [OF b] v t show ?thesis by fastforce
qed

lemma whole: "\<exists>tot. get_le24 idx ((int n - 1) * 3) = Some tot \<and> cc_walk tbl 0 = Some (uint tot)"
  using consistent by (auto simp: cc_index_ok_def split: option.splits dest!: cc_blocks_walk)

end

sublocale class_table < index_entries idx n
  using entry by unfold_locales blast

context class_table
begin

lemma lookup_total:
  "\<exists>pos code. get_index_pos c idx (int n) = Some (pos, code) \<and>
    (pos < 0 \<or> pos \<le> int (length tbl) \<and>
      (\<exists>v. get_cc_loop (drop (nat pos) tbl) code c = Some v \<and> 0 \<le> v \<and> v \<le> 255))"
proof -
  have n: "2 \<le> n" using consistent by (simp add: cc_index_ok_def)
  obtain tot where tot: "get_le24 idx ((int n - 1) * 3) = Some tot" "cc_walk tbl 0 = Some (uint tot)"
    using whole by blast
  obtain v0 where v0: "get_le24 idx 0 = Some v0" "cc_walk (drop (nat (32 + uint (drop_bit 21 v0))) tbl)
      (uint (code21 v0)) = Some (uint tot)" using entry [of 0] n tot(1) by auto
  have t32: "uint tot < 2 ^ 32" using uint_lt2p [of tot] by simp
  consider (low) "c < code21 v0" | (high) "\<not> c < code21 v0" "tot \<le> c" | (mid) "code21 v0 \<le> c" "c < tot"
    by (meson not_le)
  then show ?thesis
  proof cases
    case low
    have "uint (code21 v0) \<le> uint tot" using v0(2) by (rule cc_walk_le)
    with low have "uint c < uint tot" by (simp add: word_less_def)
    with get_cc_loop_total [of tbl 0 "uint tot" c "[]"] tot(2) t32 obtain v where
      "get_cc_loop tbl 0 c = Some v" "0 \<le> v" "v \<le> 255" by auto
    then show ?thesis using low v0(1) by (simp add: get_index_pos_def)
  next
    case high
    then show ?thesis using v0(1) tot(1) by (simp add: get_index_pos_def Let_def)
  next
    case mid
    have "\<exists>v. get_le24 idx (0 * 3) = Some v \<and> code21 v \<le> c" using v0 mid by simp
    with search [of 0 "int n - 1" c] n obtain i v where
      i: "index_search idx c 0 (int n - 1) = Some (int i)" "i < n - 1"
        "get_le24 idx (int i * 3) = Some v" "code21 v \<le> c" by auto
    let ?p = "(int i + 1) * 32 + uint (drop_bit 21 v)"
    have p: "?p \<le> int (length tbl)" "cc_walk (drop (nat ?p) tbl) (uint (code21 v)) = Some (uint tot)"
      using entry [OF i(2)] i(3) tot(1) by auto
    have "uint c < uint tot" using mid(2) by (simp add: word_less_def)
    from get_cc_loop_total [OF p(2) t32 i(4) this, of "[]"] have
      "\<exists>w. get_cc_loop (drop (nat ?p) tbl) (code21 v) c = Some w \<and> 0 \<le> w \<and> w \<le> 255" by simp
    moreover have "get_index_pos c idx (int n) = Some (?p, code21 v)"
      using v0(1) tot(1) i mid by (simp add: get_index_pos_def Let_def not_less)
    ultimately show ?thesis using p(1) by blast
  qed
qed

end

lemma cc_index_length: "int (length unicode_cc_index) div 3 = 27"
  by (simp add: unicode_cc_index_def)

lemma cc_table_ok: "cc_index_ok unicode_cc_table unicode_cc_index 27"
  by code_simp

interpretation cc_table: class_table unicode_cc_table unicode_cc_index 27
  by unfold_locales (rule cc_table_ok)

lemma get_cc_total: "\<exists>v. unicode_get_cc c = Some v \<and> 0 \<le> v \<and> v \<le> 255"
  using cc_table.lookup_total [of c] by (auto simp: unicode_get_cc_def cc_index_length)

section \<open>Canonical ordering\<close>

definition cc_of :: "u32 \<Rightarrow> int" where
  "cc_of c = the (unicode_get_cc c)"

lemma get_cc [simp]: "unicode_get_cc c = Some (cc_of c)"
  using get_cc_total [of c] by (auto simp: cc_of_def)

text \<open>The reference: every maximal sequence of characters with a class other than 0 is sorted by
  class, keeping the order of equal classes.\<close>

function reorder :: "u32 list \<Rightarrow> u32 list" where
  "reorder [] = []"
| "reorder (c # cs) = (if cc_of c = 0 then c # reorder cs
     else sort_key cc_of (c # takeWhile (\<lambda>x. cc_of x \<noteq> 0) cs) @
       reorder (dropWhile (\<lambda>x. cc_of x \<noteq> 0) cs))"
  by pat_completeness auto
termination
  by (relation "measure length") (auto intro: le_less_trans [OF length_dropWhile_le])

lemma sort_key_snoc:
  assumes "sort_key f xs = s1 @ s2" and "\<forall>y \<in> set s2. f x < f y" and "\<forall>y \<in> set s1. f y \<le> f x"
  shows "sort_key f (xs @ [x]) = s1 @ x # s2"
proof (rule properties_for_sort_key)
  show "mset (s1 @ x # s2) = mset (xs @ [x])"
    using assms(1) mset_sort [of f xs] by simp
  have srt: "sorted (map f (s1 @ s2))" using sorted_sort_key [of f xs] assms(1) by simp
  then show "sorted (map f (s1 @ x # s2))"
    using assms(2,3) by (auto simp: sorted_append intro: less_imp_le)
  fix k assume "k \<in> set (s1 @ x # s2)"
  have c: "(\<lambda>y. f k = f y) = (\<lambda>y. f y = f k)" by auto
  have st: "filter (\<lambda>y. f y = f k) (s1 @ s2) = filter (\<lambda>y. f y = f k) xs"
    using sort_key_stable [of f "f k" xs] unfolding assms(1) .
  have "filter (\<lambda>y. f y = f k) s2 = []" if "f k = f x"
    using assms(2) that by (auto simp: filter_empty_conv)
  then show "filter (\<lambda>y. f k = f y) (s1 @ x # s2) = filter (\<lambda>y. f k = f y) (xs @ [x])"
    unfolding c using st by (cases "f k = f x") auto
qed

text \<open>The shifting loop, on a buffer that holds the sorted sequence \<open>seg\<close> and one cell behind it.\<close>

lemma cc_shift_split:
  assumes "sorted (map cc_of seg)" and "start = int (length pre)"
  shows "\<exists>s1 s2 w. seg = s1 @ s2 \<and> (\<forall>y \<in> set s2. cc1 < cc_of y) \<and> (\<forall>y \<in> set s1. cc_of y \<le> cc1) \<and>
    cc_shift (pre @ seg @ y # post) (start + int (length seg) - 1) start cc1 =
      Some (pre @ s1 @ w # s2 @ post, start + int (length s1) - 1)"
  using assms(1)
proof (induction seg arbitrary: y post rule: rev_induct)
  case Nil
  show ?case by (subst cc_shift.simps) (simp add: assms(2))
next
  case (snoc x seg)
  let ?b = "pre @ (seg @ [x]) @ y # post" and ?k = "start + int (length (seg @ [x])) - 1"
  have k: "?k = int (length pre + length seg)" using assms(2) by simp
  have r: "rdi ?b ?k = Some x" unfolding k rdi_nat by (simp add: rd_def nth_append)
  have w: "wri ?b (?k + 1) x = Some (pre @ seg @ x # x # post)"
    unfolding k wri_def by (simp add: wr_def nat_add_distrib list_update_append)
  have s: "cc_shift ?b ?k start cc1 = (if cc_of x \<le> cc1 then Some (?b, ?k)
      else cc_shift (pre @ seg @ x # x # post) (?k - 1) start cc1)"
    using r w assms(2) by (subst cc_shift.simps) simp
  show ?case
  proof (cases "cc_of x \<le> cc1")
    case True
    then have "\<forall>y \<in> set (seg @ [x]). cc_of y \<le> cc1"
      using snoc.prems by (auto simp: sorted_append)
    with s True show ?thesis
      by (intro exI [of _ "seg @ [x]"] exI [of _ "[]"] exI [of _ y]) simp
  next
    case False
    have "sorted (map cc_of seg)" using snoc.prems by (simp add: sorted_append)
    from snoc.IH [OF this, of x "x # post"] obtain s1 s2 w where
      h: "seg = s1 @ s2" "\<forall>y \<in> set s2. cc1 < cc_of y" "\<forall>y \<in> set s1. cc_of y \<le> cc1"
      "cc_shift (pre @ seg @ x # x # post) (start + int (length seg) - 1) start cc1 =
        Some (pre @ s1 @ w # s2 @ x # post, start + int (length s1) - 1)" by blast
    have "?k - 1 = start + int (length seg) - 1" by simp
    with s False h(4) have "cc_shift ?b ?k start cc1 =
        Some (pre @ s1 @ w # (s2 @ [x]) @ post, start + int (length s1) - 1)" by simp
    with h False show ?thesis by (intro exI [of _ s1] exI [of _ "s2 @ [x]"] exI [of _ w]) simp
  qed
qed

lemma cc_run_sorts:
  assumes "start = int (length pre)" and "len = int (length (pre @ seg @ rest))"
  shows "cc_run (pre @ sort_key cc_of seg @ rest) (int (length (pre @ seg))) len start =
    Some (pre @ sort_key cc_of (seg @ takeWhile (\<lambda>x. cc_of x \<noteq> 0) rest) @
        dropWhile (\<lambda>x. cc_of x \<noteq> 0) rest,
      int (length (pre @ seg @ takeWhile (\<lambda>x. cc_of x \<noteq> 0) rest)))"
  using assms(2)
proof (induction rest arbitrary: seg)
  case Nil
  then show ?case by (subst cc_run.simps) simp
next
  case (Cons ch rest)
  let ?b = "pre @ sort_key cc_of seg @ ch # rest" and ?j = "int (length (pre @ seg))"
  have r: "rdi ?b ?j = Some ch" unfolding rdi_nat by (simp add: rd_def nth_append)
  have lt: "?j < len" using Cons.prems by simp
  show ?case
  proof (cases "cc_of ch = 0")
    case True
    then show ?thesis using r lt by (subst cc_run.simps) simp
  next
    case False
    obtain s1 s2 w where s: "sort_key cc_of seg = s1 @ s2" "\<forall>y \<in> set s2. cc_of ch < cc_of y"
      "\<forall>y \<in> set s1. cc_of y \<le> cc_of ch"
      "cc_shift ?b (start + int (length (sort_key cc_of seg)) - 1) start (cc_of ch) =
        Some (pre @ s1 @ w # s2 @ rest, start + int (length s1) - 1)"
      using cc_shift_split [OF sorted_sort_key [of cc_of seg] assms(1), of "cc_of ch" ch rest] by blast
    have k: "start + int (length (sort_key cc_of seg)) - 1 = ?j - 1" using assms(1) by simp
    have "start + int (length s1) - 1 + 1 = int (length pre + length s1)" using assms(1) by simp
    then have wr: "wri (pre @ s1 @ w # s2 @ rest) (start + int (length s1) - 1 + 1) ch =
        Some (pre @ s1 @ ch # s2 @ rest)"
      unfolding wri_def by (simp add: wr_def nat_add_distrib list_update_append)
    have "cc_run ?b ?j len start = cc_run (pre @ s1 @ ch # s2 @ rest) (?j + 1) len start"
      using r lt False s(4) [unfolded k] wr by (subst cc_run.simps) simp
    moreover have "pre @ s1 @ ch # s2 @ rest = pre @ sort_key cc_of (seg @ [ch]) @ rest"
      unfolding sort_key_snoc [OF s(1-3)] by simp
    moreover have "?j + 1 = int (length (pre @ seg @ [ch]))" by simp
    ultimately have "cc_run ?b ?j len start =
        cc_run (pre @ sort_key cc_of (seg @ [ch]) @ rest) (int (length (pre @ seg @ [ch]))) len start"
      by (simp only:)
    also have "\<dots> = Some (pre @ sort_key cc_of ((seg @ [ch]) @ takeWhile (\<lambda>x. cc_of x \<noteq> 0) rest) @
        dropWhile (\<lambda>x. cc_of x \<noteq> 0) rest,
      int (length (pre @ (seg @ [ch]) @ takeWhile (\<lambda>x. cc_of x \<noteq> 0) rest)))"
      by (rule Cons.IH) (use Cons.prems in simp)
    finally show ?thesis using False by simp
  qed
qed

lemma sort_cc_loop_reorder:
  "sort_cc_loop (pre @ cs) (int (length pre)) (int (length (pre @ cs))) = Some (pre @ reorder cs)"
proof (induction cs arbitrary: pre rule: reorder.induct)
  case 1
  show ?case by (subst sort_cc_loop.simps) simp
next
  case (2 c cs)
  let ?b = "pre @ c # cs" and ?i = "int (length pre)" and ?n = "int (length (pre @ c # cs))"
  have r: "rdi ?b ?i = Some c" unfolding rdi_nat by (simp add: rd_def nth_append)
  show ?case
  proof (cases "cc_of c = 0")
    case True
    then have "sort_cc_loop ?b ?i ?n = sort_cc_loop ((pre @ [c]) @ cs) (int (length (pre @ [c]))) ?n"
      using r by (subst sort_cc_loop.simps) (simp add: ac_simps)
    also have "\<dots> = Some ((pre @ [c]) @ reorder cs)" using "2.IH"(1) [OF True, of "pre @ [c]"] by simp
    finally show ?thesis using True by simp
  next
    case False
    let ?t = "takeWhile (\<lambda>x. cc_of x \<noteq> 0) cs" and ?d = "dropWhile (\<lambda>x. cc_of x \<noteq> 0) cs"
    let ?p = "pre @ sort_key cc_of (c # ?t)"
    have run: "cc_run ?b (?i + 1) ?n ?i = Some (?p @ ?d, int (length (pre @ c # ?t)))"
      using cc_run_sorts [of ?i pre ?n "[c]" cs] by (simp add: ac_simps)
    have td: "length ?t + length ?d = length cs"
      by (metis length_append takeWhile_dropWhile_id)
    have "sort_cc_loop ?b ?i ?n = sort_cc_loop (?p @ ?d) (int (length (pre @ c # ?t)) + 1) ?n"
      using r False run by (subst sort_cc_loop.simps) simp
    also have "\<dots> = Some (?p @ reorder ?d)"
    proof (cases ?d)
      case Nil
      have "length ?t = length cs" using td unfolding Nil by simp
      then have nlt: "\<not> int (length (pre @ c # ?t)) + 1 < ?n" by simp
      have "sort_cc_loop (?p @ ?d) (int (length (pre @ c # ?t)) + 1) ?n = Some (?p @ ?d)"
        by (subst sort_cc_loop.simps) (simp only: nlt if_False)
      then show ?thesis unfolding Nil by simp
    next
      case (Cons e ds)
      then have e: "cc_of e = 0" using hd_dropWhile [of "\<lambda>x. cc_of x \<noteq> 0" cs] by auto
      have m: "length ?p = length (pre @ c # ?t)" "length (?p @ ?d) = length (pre @ c # cs)"
        using td by simp_all
      have "sort_cc_loop (?p @ ?d) (int (length ?p)) (int (length (?p @ ?d))) = Some (?p @ reorder ?d)"
        using "2.IH"(2) [OF False, of ?p] .
      moreover have "sort_cc_loop (?p @ ?d) (int (length ?p)) (int (length (?p @ ?d))) =
          sort_cc_loop (?p @ ?d) (int (length ?p) + 1) (int (length (?p @ ?d)))"
      proof -
        have "rdi (?p @ ?d) (int (length ?p)) = Some e"
          unfolding rdi_nat Cons by (simp add: rd_def nth_append)
        moreover have "int (length ?p) < int (length (?p @ ?d))" using Cons by simp
        ultimately show ?thesis using e by (subst sort_cc_loop.simps) simp
      qed
      ultimately show ?thesis unfolding m by (simp only:)
    qed
    finally show ?thesis using False by simp
  qed
qed

lemma sort_cc_reorder: "sort_cc buf = Some (reorder buf)"
  using sort_cc_loop_reorder [of "[]" buf] by (simp add: sort_cc_def)

lemma reorder_mset: "mset (reorder cs) = mset cs"
proof (induction cs rule: reorder.induct)
  case (2 c cs)
  have "mset (takeWhile (\<lambda>x. cc_of x \<noteq> 0) cs) + mset (dropWhile (\<lambda>x. cc_of x \<noteq> 0) cs) = mset cs"
    by (metis mset_append takeWhile_dropWhile_id)
  with 2 show ?case by simp
qed simp

section \<open>Hangul\<close>

lemma unat_of_nat_u32: "m < 2 ^ 32 \<Longrightarrow> unat (of_nat m :: u32) = m"
  by (simp add: unat_of_nat take_bit_nat_eq_self)

lemma compose_LV:
  assumes "l < 19" and "v < 21"
  shows "compose_pair (of_nat (0x1100 + l)) (of_nat (0x1161 + v)) = Some (of_nat (0xac00 + l * 588 + v * 28))"
proof -
  have "(of_nat (0x1100 + l) :: u32) - 0x1100 = of_nat l" "(of_nat (0x1161 + v) :: u32) - 0x1161 = of_nat v"
    by simp_all
  moreover have "unat (of_nat (0x1100 + l) :: u32) = 0x1100 + l" "unat (of_nat (0x1161 + v) :: u32) = 0x1161 + v"
    using assms by (simp_all add: unat_of_nat_u32 del: of_nat_add)
  ultimately show ?thesis
    using assms by (simp add: compose_pair_def word_le_nat_alt word_less_nat_alt)
qed

lemma compose_LVT:
  assumes "l < 19" and "v < 21" and "t < 28"
  shows "compose_pair (of_nat (0xac00 + l * 588 + v * 28)) (of_nat (0x11a7 + t)) =
    Some (of_nat (0xac00 + l * 588 + v * 28 + t))"
proof -
  let ?x = "of_nat (0xac00 + l * 588 + v * 28) :: u32" and ?t = "of_nat (0x11a7 + t) :: u32"
  have b: "l * 588 + v * 28 < 11172" using assms by simp
  have u: "unat ?x = 0xac00 + l * 588 + v * 28" "unat ?t = 0x11a7 + t"
    using assms by (simp_all add: unat_of_nat_u32 del: of_nat_add of_nat_mult)
  have d: "?x - 0xac00 = of_nat (l * 588 + v * 28)" by simp
  have "(of_nat (l * 588 + v * 28) :: u32) mod 28 = 0"
    using b by (simp add: word_unat_eq_iff unat_mod unat_of_nat_u32 del: of_nat_add of_nat_mult)
  moreover have "\<not> (?x \<ge> 0x1100 \<and> ?x < 0x1100 + 19)"
    unfolding word_less_nat_alt u by simp
  moreover have "?x \<ge> 0xac00 \<and> ?x < 0xac00 + 11172" "?t \<ge> 0x11a7 \<and> ?t < 0x11a7 + 28"
    unfolding word_less_nat_alt word_le_nat_alt u using b assms by simp_all
  moreover have "?x + ?t - 0x11a7 = of_nat (0xac00 + l * 588 + v * 28 + t)" by simp
  ultimately show ?thesis unfolding compose_pair_def d by auto
qed

text \<open>The letters of a syllable compose to the syllable.\<close>

lemma hangul_parts:
  assumes "is_hangul c"
  obtains l v t where "l < 19" "v < 21" "t < 28" "c = of_nat (0xac00 + l * 588 + v * 28 + t)"
    "hangul_letters c = [of_nat (0x1100 + l), of_nat (0x1161 + v)] @
       (if t \<noteq> 0 then [of_nat (0x11a7 + t)] else [])"
proof -
  define k where "k = c - 0xac00"
  define n where "n = unat k"
  have "0xac00 \<le> unat c" "unat c < 0xd7a4"
    using assms by (simp_all add: is_hangul_def word_less_nat_alt word_le_nat_alt)
  then have n: "n < 11172" "unat c = 0xac00 + n" by (simp_all add: n_def k_def unat_sub_if')
  have lv: "k div 588 = of_nat (n div 588)" "k mod 588 div 28 = of_nat (n mod 588 div 28)"
    "k mod 28 = of_nat (n mod 28)"
    by (rule word_unat_eq_iff [THEN iffD2], use n in \<open>simp add: unat_div unat_mod unat_of_nat_u32 n_def [symmetric]\<close>)+
  have "n mod 588 mod 28 = n mod 28" by (rule mod_mod_cancel) simp
  then have sum: "n = n div 588 * 588 + n mod 588 div 28 * 28 + n mod 28"
    using div_mult_mod_eq [of n 588] div_mult_mod_eq [of "n mod 588" 28] by linarith
  have "unat (k mod 28) = n mod 28" using n by (simp add: n_def unat_mod)
  then have z: "k mod 28 = 0 \<longleftrightarrow> n mod 28 = 0" by (simp add: word_unat_eq_iff)
  show thesis
  proof (rule that)
    show "n div 588 < 19" "n mod 588 div 28 < 21" "n mod 28 < 28" using n by simp_all
    have "c = of_nat (unat c)" by simp
    also have "unat c = 0xac00 + n div 588 * 588 + n mod 588 div 28 * 28 + n mod 28"
      using n(2) sum by simp
    finally show "c = of_nat (0xac00 + n div 588 * 588 + n mod 588 div 28 * 28 + n mod 28)" .
    show "hangul_letters c = [of_nat (0x1100 + n div 588), of_nat (0x1161 + n mod 588 div 28)] @
       (if n mod 28 \<noteq> 0 then [of_nat (0x11a7 + n mod 28)] else [])"
      unfolding hangul_letters_def Let_def k_def [symmetric] lv using z [unfolded lv] by simp
  qed
qed

section \<open>Decomposition into the buffer\<close>

lemma le_words_bytes [simp]: "le_words (le_bytes c @ r) = c # le_words r"
  using word_bytes_join [of c] by (simp add: le_bytes_def)

lemma le_words_concat [simp]: "le_words (concat (map le_bytes cs) @ r) = cs @ le_words r"
  by (induction cs) simp_all

lemma length_concat_le_bytes [simp]: "length (concat (map le_bytes cs)) = 4 * length cs"
  by (induction cs) simp_all

text \<open>What an appending operation leaves behind: the characters are appended, or the error flag is
  set; the flag is never cleared.\<close>

definition puts :: "dynbuf \<Rightarrow> u32 list \<Rightarrow> dynbuf \<Rightarrow> bool" where
  "puts s cs s' \<longleftrightarrow> dbuf_ok s' \<and> db_size s' \<le> db_size s + 4 * length cs \<and> (db_error s \<longrightarrow> db_error s') \<and>
     (\<not> db_error s' \<longrightarrow> dbuf_bytes s' = dbuf_bytes s @ concat (map le_bytes cs))"

lemma puts_trans: "puts s xs s1 \<Longrightarrow> puts s1 ys s2 \<Longrightarrow> puts s (xs @ ys) s2"
  by (auto simp: puts_def)

lemma puts_Nil: "dbuf_ok s \<Longrightarrow> puts s [] s"
  by (simp add: puts_def)

lemma dbuf_put_u32_puts:
  assumes "dbuf_ok s" and "db_size s + 4 < SIZE_MOD"
  shows "\<exists>r s'. dbuf_put_u32 s c = Some (r, s') \<and> puts s [c] s'"
proof -
  from dbuf_put_appended [OF assms(1), of "le_bytes c"] assms(2) obtain r s' where
    "dbuf_put s (le_bytes c) = Some (r, s')" and a: "appended s (le_bytes c) r s'" by auto
  moreover have ok: "dbuf_ok s'" using a by (simp add: appended_def)
  have "length (dbuf_bytes s') \<le> length (dbuf_bytes s) + 4"
    using a by (auto simp: appended_def simp del: length_dbuf_bytes)
  then have "db_size s' \<le> db_size s + 4"
    unfolding length_dbuf_bytes [OF ok] length_dbuf_bytes [OF assms(1)] .
  then have "puts s [c] s'" using a by (auto simp: appended_def puts_def)
  ultimately show ?thesis by (auto simp: dbuf_put_u32_def)
qed

lemma put_u32s_puts:
  assumes "dbuf_ok s" and "db_size s + 4 * length cs < SIZE_MOD"
  shows "\<exists>s'. put_u32s s cs = Some s' \<and> puts s cs s'"
  using assms
proof (induction cs arbitrary: s)
  case (Cons c cs)
  from dbuf_put_u32_puts [OF Cons.prems(1), of c] Cons.prems(2) obtain r s1 where
    1: "dbuf_put_u32 s c = Some (r, s1)" "puts s [c] s1" by auto
  then have "dbuf_ok s1" "db_size s1 + 4 * length cs < SIZE_MOD"
    using Cons.prems(2) by (auto simp: puts_def)
  from Cons.IH [OF this] obtain s2 where "put_u32s s1 cs = Some s2" "puts s1 cs s2" by blast
  with 1 puts_trans [of s "[c]" s1 cs s2] show ?case by simp
qed (simp add: puts_Nil)

text \<open>The decomposition as a function on lists.\<close>

function nfd_ref :: "nat \<Rightarrow> u32 list \<Rightarrow> bool \<Rightarrow> u32 list option" where
  "nfd_ref fuel [] is_compat = Some []"
| "nfd_ref fuel (c # src) is_compat =
     (case (if is_hangul c then Some (hangul_letters c)
        else (case unicode_decomp_char c is_compat of
            None \<Rightarrow> None
          | Some (l, res) \<Rightarrow>
              if l \<noteq> 0 then (case fuel of 0 \<Rightarrow> None | Suc f \<Rightarrow> nfd_ref f (take l res) is_compat)
              else Some [c])) of
        None \<Rightarrow> None
      | Some ds \<Rightarrow> map_option (\<lambda>es. ds @ es) (nfd_ref fuel src is_compat))"
  by pat_completeness auto
termination
  by (relation "measures [\<lambda>(f, src, k). f, \<lambda>(f, src, k). length src]") auto

lemma to_nfd_rec_puts:
  assumes "nfd_ref fuel src k = Some out" and "dbuf_ok s" and "db_size s + 4 * length out < SIZE_MOD"
  shows "\<exists>s'. to_nfd_rec fuel s src k = Some s' \<and> puts s out s'"
  using assms
proof (induction fuel src k arbitrary: s out rule: nfd_ref.induct)
  case (2 fuel c src k)
  let ?d = "if is_hangul c then Some (hangul_letters c)
    else (case unicode_decomp_char c k of None \<Rightarrow> None | Some (l, res) \<Rightarrow>
      if l \<noteq> 0 then (case fuel of 0 \<Rightarrow> None | Suc f \<Rightarrow> nfd_ref f (take l res) k) else Some [c])"
  let ?t = "if is_hangul c then put_u32s s (hangul_letters c)
    else (case unicode_decomp_char c k of None \<Rightarrow> None | Some (l, res) \<Rightarrow>
      if l \<noteq> 0 then (case fuel of 0 \<Rightarrow> None | Suc f \<Rightarrow> to_nfd_rec f s (take l res) k) else put_u32s s [c])"
  from "2.prems"(1) obtain ds es where d: "?d = Some ds" "nfd_ref fuel src k = Some es" "out = ds @ es"
    by (auto split: option.splits)
  have room: "db_size s + 4 * length ds < SIZE_MOD" using "2.prems"(3) d(3) by simp
  have "\<exists>s1. ?t = Some s1 \<and> puts s ds s1"
  proof (cases "is_hangul c")
    case True
    then show ?thesis using d(1) put_u32s_puts [OF "2.prems"(2) room] by simp
  next
    case hangul: False
    then obtain l res where dc: "unicode_decomp_char c k = Some (l, res)" using d(1)
      by (auto split: option.splits)
    show ?thesis
    proof (cases "l \<noteq> 0")
      case True
      then obtain f where f: "fuel = Suc f" "nfd_ref f (take l res) k = Some ds"
        using d(1) hangul dc by (auto split: nat.splits)
      from "2.IH"(1) [OF hangul dc refl True f(1) f(2) "2.prems"(2) room]
      show ?thesis using hangul dc True f(1) by simp
    next
      case False
      then show ?thesis using d(1) hangul dc put_u32s_puts [OF "2.prems"(2) room] by simp
    qed
  qed
  then obtain s1 where s1: "?t = Some s1" "puts s ds s1" by blast
  have "dbuf_ok s1" "db_size s1 + 4 * length es < SIZE_MOD"
    using s1(2) "2.prems"(3) d(3) by (auto simp: puts_def)
  from "2.IH"(2) [OF d(1) d(2) this] obtain s2 where
    "to_nfd_rec fuel s1 src k = Some s2" "puts s1 es s2" by blast
  then show ?case using s1 d(3) puts_trans by (simp del: put_u32s.simps)
qed (simp add: puts_Nil)

section \<open>Composition\<close>

lemma cc_of_range: "0 \<le> cc_of c \<and> cc_of c \<le> 255"
  using get_cc_total [of c] by simp

text \<open>One character composed with what has been output: the last starter of the output takes it, if
  no mark of the same or a higher class stands directly before the character and the pair has a
  composition.\<close>

definition marks :: "u32 list \<Rightarrow> u32 list" where
  "marks out = rev (takeWhile (\<lambda>x. cc_of x \<noteq> 0) (rev out))"

definition up_to_starter :: "u32 list \<Rightarrow> u32 list" where
  "up_to_starter out = rev (dropWhile (\<lambda>x. cc_of x \<noteq> 0) (rev out))"

definition compose1 :: "u32 list \<Rightarrow> u32 \<Rightarrow> u32 list option" where
  "compose1 out ch = (let ms = marks out; pre = up_to_starter out in
     if pre = [] \<or> ms \<noteq> [] \<and> cc_of ch \<le> cc_of (last ms) then Some (out @ [ch])
     else map_option (\<lambda>p. if p \<noteq> 0 then butlast pre @ p # ms else out @ [ch])
       (compose_pair (last pre) ch))"

fun compose_ref :: "u32 list \<Rightarrow> u32 list \<Rightarrow> u32 list option" where
  "compose_ref out [] = Some out"
| "compose_ref out (c # cs) = (case compose1 out c of None \<Rightarrow> None | Some out \<Rightarrow> compose_ref out cs)"

lemma starter_split: "out = up_to_starter out @ marks out"
  unfolding marks_def up_to_starter_def rev_append [symmetric] by simp

lemma marks_nz: "c \<in> set (marks out) \<Longrightarrow> cc_of c \<noteq> 0"
  by (auto simp: marks_def dest: set_takeWhileD)

lemma starter_zero: "up_to_starter out \<noteq> [] \<Longrightarrow> cc_of (last (up_to_starter out)) = 0"
  unfolding up_to_starter_def last_rev rev_is_Nil_conv
  using hd_dropWhile [of "\<lambda>x. cc_of x \<noteq> 0" "rev out"] by blast

lemma find_starter_marks:
  assumes "\<forall>c \<in> set ms. cc_of c \<noteq> 0" and "pre \<noteq> [] \<longrightarrow> cc_of (last pre) = 0"
  shows "find_starter (pre @ ms @ r) (int (length pre) + int (length ms) - 1) lc =
    Some (if ms \<noteq> [] \<and> lc \<le> cc_of (last ms) then None else Some (int (length pre) - 1))"
  using assms(1)
proof (induction ms arbitrary: r lc rule: rev_induct)
  case Nil
  show ?case
  proof (cases "pre = []")
    case True
    then show ?thesis by (subst find_starter.simps) simp
  next
    case False
    then have "rdi (pre @ r) (int (length pre) - 1) = Some (last pre)"
      by (cases pre rule: rev_cases) (simp_all add: rdi_def rd_def nth_append)
    with False assms(2) show ?thesis by (subst find_starter.simps) (simp add: Suc_le_eq)
  qed
next
  case (snoc m ms)
  have r: "rdi (pre @ (ms @ [m]) @ r) (int (length pre) + int (length ms)) = Some m"
    unfolding of_nat_add [symmetric] rdi_nat by (simp add: rd_def nth_append)
  have "\<not> 256 \<le> cc_of (last ms)" using cc_of_range [of "last ms"] by simp
  with snoc.IH [of "m # r" 256] snoc.prems have
    ih: "find_starter (pre @ ms @ m # r) (int (length pre) + int (length ms) - 1) 256 =
      Some (Some (int (length pre) - 1))" by simp
  show ?case using r ih snoc.prems by (subst find_starter.simps) simp
qed

lemma compose_step_ref:
  assumes "compose1 out ch = Some out'" and "out \<noteq> []"
  shows "\<exists>junk'. compose_step (out @ junk @ ch # rest) (int (length (out @ junk))) (int (length out)) =
      Some (out' @ junk' @ rest, int (length out')) \<and>
    length (out' @ junk') = length (out @ junk) + 1 \<and> out' \<noteq> []"
proof -
  let ?b = "out @ junk @ ch # rest" and ?pre = "up_to_starter out" and ?ms = "marks out"
  have i: "rdi ?b (int (length (out @ junk))) = Some ch"
    unfolding rdi_nat by (simp add: rd_def nth_append)
  have sp: "?b = ?pre @ ?ms @ junk @ ch # rest"
    using arg_cong [OF starter_split [of out], of "\<lambda>z. z @ junk @ ch # rest"] by simp
  have ln: "int (length ?pre) + int (length ?ms) = int (length out)"
    using arg_cong [OF starter_split [of out], of length] by simp
  have f: "find_starter ?b (int (length out) - 1) (cc_of ch) =
      Some (if ?ms \<noteq> [] \<and> cc_of ch \<le> cc_of (last ?ms) then None else Some (int (length ?pre) - 1))"
    using find_starter_marks [of ?ms ?pre "junk @ ch # rest" "cc_of ch"] marks_nz starter_zero
    unfolding sp [symmetric] ln by blast
  have keep: ?thesis if "out' = out @ [ch]"
      "compose_step ?b (int (length (out @ junk))) (int (length out)) =
        map_option (\<lambda>b. (b, int (length out) + 1)) (wri ?b (int (length out)) ch)"
  proof (cases junk)
    case Nil
    then show ?thesis using that
      by (intro exI [of _ "[]"]) (simp add: wri_def wr_def list_update_append)
  next
    case (Cons j js)
    then show ?thesis using that
      by (intro exI [of _ "js @ [ch]"]) (simp add: wri_def wr_def list_update_append)
  qed
  show ?thesis
  proof (cases "?pre = [] \<or> ?ms \<noteq> [] \<and> cc_of ch \<le> cc_of (last ?ms)")
    case True
    then show ?thesis using assms(1) i f
      by (intro keep) (auto simp: compose1_def compose_step_def Let_def map_option_case split: option.splits)
  next
    case False
    then obtain p where p: "compose_pair (last ?pre) ch = Some p"
        "out' = (if p \<noteq> 0 then butlast ?pre @ p # ?ms else out @ [ch])"
      using assms(1) by (auto simp: compose1_def Let_def)
    have pre: "?pre = butlast ?pre @ [last ?pre]" using False by simp
    have b: "?b = butlast ?pre @ last ?pre # ?ms @ junk @ ch # rest"
      using sp pre by (metis append.assoc append_Cons append_Nil)
    have k: "int (length ?pre) - 1 = int (length (butlast ?pre))" using False by (cases ?pre) auto
    have s: "rdi ?b (int (length ?pre) - 1) = Some (last ?pre)"
      unfolding b k rdi_nat by (simp add: rd_def nth_append)
    have w: "wri ?b (int (length ?pre) - 1) p = Some (butlast ?pre @ p # ?ms @ junk @ ch # rest)"
      unfolding b k wri_def by (simp add: wr_def list_update_append)
    show ?thesis
    proof (cases "p = 0")
      case True
      then show ?thesis using False p i f s
        by (intro keep) (auto simp: compose_step_def map_option_case Let_def split: option.splits)
    next
      case nz: False
      have "length out = length (butlast ?pre @ p # ?ms)" using arg_cong [OF b, of length] by simp
      then show ?thesis using False nz p i f s w
        by (intro exI [of _ "junk @ [ch]"]) (auto simp: compose_step_def)
    qed
  qed
qed

lemma compose_loop_ref:
  assumes "compose_ref out rest = Some out'" and "out \<noteq> []"
  shows "\<exists>junk'. compose_loop (out @ junk @ rest) (int (length (out @ junk @ rest)))
      (int (length (out @ junk))) (int (length out)) = Some (out' @ junk', int (length out'))"
  using assms
proof (induction rest arbitrary: out junk)
  case Nil
  then show ?case by (subst compose_loop.simps) simp
next
  case (Cons c rest)
  then obtain o1 where o1: "compose1 out c = Some o1" "compose_ref o1 rest = Some out'"
    by (auto split: option.splits)
  from compose_step_ref [OF o1(1) Cons.prems(2), of junk rest] obtain j1 where
    j1: "compose_step (out @ junk @ c # rest) (int (length (out @ junk))) (int (length out)) =
      Some (o1 @ j1 @ rest, int (length o1))" "length (o1 @ j1) = length (out @ junk) + 1" "o1 \<noteq> []"
    by blast
  have n: "int (length (out @ junk)) + 1 = int (length (o1 @ j1))"
    "length (out @ junk @ c # rest) = length (o1 @ j1 @ rest)" using j1(2) by simp_all
  have "compose_loop (out @ junk @ c # rest) (int (length (out @ junk @ c # rest)))
      (int (length (out @ junk))) (int (length out)) =
    compose_loop (o1 @ j1 @ rest) (int (length (o1 @ j1 @ rest))) (int (length (o1 @ j1))) (int (length o1))"
    using j1(1) unfolding n(1) [symmetric] n(2) [symmetric] by (subst compose_loop.simps) simp
  with Cons.IH [OF o1(2) j1(3), of j1] show ?case by simp
qed

section \<open>Size of a decomposition\<close>

lemma decomp_l_length: "decomp_l l d k = Some (r, ws) \<Longrightarrow> length ws \<le> k \<and> (r = 0 \<or> r = l \<and> length ws = k)"
  by (induction k arbitrary: d r ws) (auto simp: bind_Some_iff split: if_splits, force+)

lemma decomp_ll_length:
  "decomp_ll l d p j k = Some (r, ws) \<Longrightarrow> length ws \<le> k \<and> (r = 0 \<or> r = l \<and> length ws = k)"
  by (induction k arbitrary: j r ws) (auto simp: bind_Some_iff Let_def split: if_splits, force+)

lemma decomp_s_length: "decomp_s l d k = Some (r, ws) \<Longrightarrow> length ws \<le> k \<and> (r = 0 \<or> r = l \<and> length ws = k)"
  by (induction k arbitrary: d r ws) (auto simp: bind_Some_iff split: if_splits, force+)

lemma decomp_i_length: "decomp_i d p off i k = Some ws \<Longrightarrow> length ws = k"
  by (induction k arbitrary: i ws) (auto simp: bind_Some_iff)

lemma decomp_b_length: "decomp_b d m k = Some ws \<Longrightarrow> length ws = k"
  by (induction k arbitrary: d ws) (auto simp: bind_Some_iff)

lemma decomp_entry_length:
  assumes "unicode_decomp_entry c idx code len type = Some (l, ws)"
  shows "length ws \<le> 18 \<and> (l = 0 \<or> l = length ws)"
  using assms unfolding unicode_decomp_entry_def Let_def full_def bind_Some_iff
  apply (elim exE conjE)
  apply (simp only: split: if_split_asm)
  subgoal by auto
  subgoal by (drule decomp_l_length) auto
  subgoal by (drule decomp_ll_length) auto
  subgoal by (drule decomp_s_length) auto
  subgoal by (auto simp: bind_Some_iff)
  subgoal by (auto simp del: decomp_i.simps dest!: decomp_i_length)
  subgoal by (auto simp del: decomp_i.simps dest!: decomp_i_length)
  subgoal by (auto simp: bind_Some_iff simp del: decomp_b.simps dest!: decomp_b_length split: if_splits)
  subgoal by (auto simp: bind_Some_iff simp del: decomp_b.simps dest!: decomp_b_length split: if_splits)
  subgoal by (auto simp: bind_Some_iff split: if_splits)
  subgoal by (auto simp: bind_Some_iff)
  subgoal by (auto simp: bind_Some_iff)
  subgoal by (auto simp: bind_Some_iff)
  subgoal by simp
  done

section \<open>Normalisation forms\<close>

text \<open>The definition of the forms on lists.  For NFC the code returns a Latin-1 string as it is.\<close>

definition normalize_ref :: "nat \<Rightarrow> u32 list \<Rightarrow> normalization \<Rightarrow> u32 list option" where
  "normalize_ref fuel src n_type =
     (if n_type = UNICODE_NFC \<and> (\<forall>c \<in> set src. c < 0x100) then Some src
      else (case map_option reorder (nfd_ref fuel src (n_compat n_type)) of
          None \<Rightarrow> None
        | Some [] \<Rightarrow> Some []
        | Some (c # cs) \<Rightarrow> if n_decomposed n_type then Some (c # cs) else compose_ref [c] cs))"

lemma take_le_words:
  "length cs \<le> n \<Longrightarrow> take (length cs) (le_words (concat (map le_bytes cs) @ r)) = cs"
  by simp

lemma puts_fresh_words:
  assumes "puts s out s'" and "\<not> db_error s'" and "dbuf_bytes s = []"
  shows "le_words (dbuf_bytes s') = out" and "db_size s' div 4 = length out"
proof -
  have b: "dbuf_bytes s' = concat (map le_bytes out)" and ok: "dbuf_ok s'"
    using assms by (simp_all add: puts_def)
  from b show "le_words (dbuf_bytes s') = out" using le_words_concat [of out "[]"] by simp
  have "db_size s' = 4 * length out"
    using length_dbuf_bytes [OF ok] unfolding b by simp
  then show "db_size s' div 4 = length out" by simp
qed

lemma normalize_refines:
  assumes ref: "normalize_ref fuel src n_type = Some out"
    and dec: "nfd_ref fuel src (n_compat n_type) = Some ds"
    and room: "4 * length src < SIZE_MOD" "4 * length ds < SIZE_MOD"
  shows "\<exists>r dst. unicode_normalize fuel f g src n_type = Some (r, dst) \<and>
    (r = -1 \<or> r = int (length out) \<and> dst = out)"
proof -
  let ?s0 = "dbuf_init2 f g"
  obtain r0 s1 where s1: "dbuf_realloc ?s0 (4 * length src) = Some (r0, s1)"
    and g: "grown ?s0 (4 * length src) r0 s1"
    using dbuf_realloc_grown [OF dbuf_init2_ok room(1), of f g] by blast
  have ok: "dbuf_ok s1" "dbuf_bytes s1 = []" "db_size s1 = 0"
    using g by (simp_all add: grown_def dbuf_init2_def dbuf_bytes_def)
  let ?latin = "n_type = UNICODE_NFC \<and> (\<forall>c \<in> set src. c < 0x100)"
  have unf: "unicode_normalize fuel f g src n_type = (if r0 \<noteq> 0 then Some (-1, [])
     else if ?latin then do {
       b \<leftarrow> wr_block (db_buf s1) 0 (concat (map le_bytes src));
       Some (int (length src), take (length src) (le_words b))
     }
     else do {
       dbuf \<leftarrow> to_nfd_rec fuel s1 src (n_compat n_type);
       if db_error dbuf then Some (-1, [])
       else do {
         let buf_len = int (db_size dbuf div 4);
         buf \<leftarrow> sort_cc (le_words (dbuf_bytes dbuf));
         if buf_len \<le> 1 \<or> n_decomposed n_type then Some (buf_len, buf)
         else do {
           (buf, out_len) \<leftarrow> compose_loop buf buf_len 1 1;
           Some (out_len, take (nat out_len) buf)
         }
       }
     })"
    unfolding unicode_normalize_def Let_def using s1 room(1) by simp
  show ?thesis
  proof (cases "r0 = 0")
    case False
    then show ?thesis unfolding unf by simp
  next
    case r0: True
    show ?thesis
    proof (cases ?latin)
      case True
      have l: "4 * length src \<le> length (db_buf s1)" using g r0 by (simp add: grown_def dbuf_ok_def)
      with True r0 ref show ?thesis unfolding unf
        by (simp add: wr_block_def normalize_ref_def)
    next
      case latin: False
      from to_nfd_rec_puts [OF dec ok(1)] room(2) ok(3) obtain s2 where
        s2: "to_nfd_rec fuel s1 src (n_compat n_type) = Some s2" "puts s1 ds s2" by auto
      show ?thesis
      proof (cases "db_error s2")
        case True
        then show ?thesis unfolding unf if_not_P [OF latin] using r0 s2(1) by simp
      next
        case False
        note w = puts_fresh_words [OF s2(2) False ok(2)]
        have len: "length (reorder ds) = length ds" using reorder_mset [of ds] by (rule mset_eq_length)
        have body: "unicode_normalize fuel f g src n_type =
          (if int (length ds) \<le> 1 \<or> n_decomposed n_type then Some (int (length ds), reorder ds)
           else do { (buf, out_len) \<leftarrow> compose_loop (reorder ds) (int (length ds)) 1 1;
             Some (out_len, take (nat out_len) buf) })"
          unfolding unf if_not_P [OF latin] using r0 s2(1) False w by (simp add: sort_cc_reorder Let_def)
        show ?thesis
        proof (cases "reorder ds")
          case Nil
          with ref dec latin have "out = []" by (simp add: normalize_ref_def)
          then show ?thesis unfolding body using Nil len by simp
        next
          case (Cons c cs)
          with ref dec latin have o: "(if n_decomposed n_type then Some (c # cs) else compose_ref [c] cs) = Some out"
            by (simp add: normalize_ref_def)
          have n: "length ds = Suc (length cs)" using len Cons by simp
          show ?thesis
          proof (cases "n_decomposed n_type \<or> cs = []")
            case True
            then have "out = c # cs" using o by (auto split: if_splits)
            then show ?thesis unfolding body using True Cons n by auto
          next
            case nd: False
            with o have cr: "compose_ref [c] cs = Some out" by simp
            from compose_loop_ref [OF cr, of "[]"] obtain junk where
              "compose_loop (c # cs) (int (length ds)) 1 1 = Some (out @ junk, int (length out))"
              using n by auto
            then show ?thesis unfolding body using nd Cons n by (cases cs) auto
          qed
        qed
      qed
    qed
  qed
qed

section \<open>Properties\<close>

text \<open>C22: the combining class of every character is found without reading outside the index or the
  class table, and lies between 0 and 255 as the comment of the function promises.\<close>

theorem unicode_get_cc_range: "\<exists>v. unicode_get_cc c = Some v \<and> 0 \<le> v \<and> v \<le> 255"
  by (rule get_cc_total)

text \<open>C17: \<open>sort_cc\<close> computes the canonical ordering: on every buffer it stays inside its bounds,
  returns, and leaves every maximal run of combining marks stably sorted by combining class, all
  other characters in place; the result is a permutation.\<close>

theorem sort_cc_canonical: "sort_cc buf = Some (reorder buf) \<and> mset (reorder buf) = mset buf"
  using sort_cc_reorder reorder_mset by simp

text \<open>C23: Hangul composition inverts Hangul decomposition: composing the letters of a syllable
  gives back the syllable.\<close>

theorem hangul_roundtrip:
  assumes "is_hangul c"
  shows "\<exists>l v x. take 2 (hangul_letters c) = [l, v] \<and> compose_pair l v = Some x \<and>
    (case drop 2 (hangul_letters c) of [] \<Rightarrow> x = c | t # _ \<Rightarrow> compose_pair x t = Some c)"
proof -
  obtain l v t where p: "l < 19" "v < 21" "t < 28" "c = of_nat (0xac00 + l * 588 + v * 28 + t)"
    "hangul_letters c = [of_nat (0x1100 + l), of_nat (0x1161 + v)] @
       (if t \<noteq> 0 then [of_nat (0x11a7 + t)] else [])"
    using assms by (rule hangul_parts)
  show ?thesis
    using p(4) compose_LV [OF p(1,2)] compose_LVT [OF p(1-3)] unfolding p(5) by auto
qed

theorem hangul_roundtrip_witness:
  "is_hangul 0xac01 \<and> (\<exists>l v x. take 2 (hangul_letters 0xac01) = [l, v] \<and> compose_pair l v = Some x \<and>
    (case drop 2 (hangul_letters 0xac01) of [] \<Rightarrow> x = 0xac01 | t # _ \<Rightarrow> compose_pair x t = Some 0xac01))"
  using hangul_roundtrip [of "0xac01"] by (simp add: is_hangul_def)

text \<open>The decomposition of one character never writes more cells than the array of its callers
  has (18), and its return value is zero or the number of cells written.\<close>

theorem decomposition_fits:
  assumes "unicode_decomp_char c is_compat = Some (l, res)"
  shows "length res \<le> UNICODE_DECOMP_LEN_MAX \<and> (l = 0 \<or> l = length res)"
  using assms by (auto simp: unicode_decomp_char_def Let_def split: option.splits if_splits
      dest: decomp_entry_length)

end
