(* ===== verification/RegexExec.thy ===== *)
theory RegexExec
  imports ReBytes UnicodeCase
begin

text \<open>
  The executor of the regular expression engine (\<open>libregexp.c\<close>, from \<open>is_line_terminator\<close> to
  \<open>lre_exec\<close>): a backtracking interpreter of the bytecode.

  The subject string is the list of its code units (bytes when \<open>cbuf_type = 0\<close>, 16 bit units
  otherwise); a pointer into it is its offset in units from \<open>cbuf\<close>, so that moving by one unit is
  \<open>+ 1\<close> for every buffer type, and \<open>NULL\<close> is \<open>None\<close>.  A pointer into the bytecode is an offset too.
  Reads and writes outside a block, a failed \<open>assert\<close> and \<open>abort\<close> are the value \<open>None\<close>.  The
  backtracking stack is the list of its entries, the top first; its capacity and the bytes
  allocated for it are kept as the code computes them.  The one parameter is \<open>lre_realloc\<close>,
  which the user of the library provides: whether it can deliver a block of a given size.
\<close>

section \<open>Characters\<close>

definition is_line_terminator :: "u32 \<Rightarrow> bool" where
  "is_line_terminator c \<longleftrightarrow> c = 10 \<or> c = 13 \<or> c = 0x2028 \<or> c = 0x2029"

definition is_word_char :: "u32 \<Rightarrow> bool" where
  "is_word_char c \<longleftrightarrow> (48 \<le> c \<and> c \<le> 57) \<or> (97 \<le> c \<and> c \<le> 122) \<or> (65 \<le> c \<and> c \<le> 90) \<or> c = 95"

definition is_hi_surrogate :: "u32 \<Rightarrow> bool" where
  "is_hi_surrogate c \<longleftrightarrow> 0xd800 \<le> c \<and> c < 0xdc00"

definition is_lo_surrogate :: "u32 \<Rightarrow> bool" where
  "is_lo_surrogate c \<longleftrightarrow> 0xdc00 \<le> c \<and> c < 0xe000"

definition from_surrogate :: "u32 \<Rightarrow> u32 \<Rightarrow> u32" where
  "from_surrogate hi lo = (push_bit 10 (hi AND 0x3ff) OR (lo AND 0x3ff)) + 0x10000"

definition unit_at :: "u16 list \<Rightarrow> int \<Rightarrow> u32 option" where
  "unit_at cbuf i = map_option ucast (rdi cbuf i)"

text \<open>The macros.  The last argument is the limit the macro tests before it looks at a second unit;
  it can be nearer than the end of the buffer.\<close>

definition GET_CHAR :: "u16 list \<Rightarrow> nat \<Rightarrow> int \<Rightarrow> int \<Rightarrow> (u32 \<times> int) option" where
  "GET_CHAR cbuf cbuf_type cptr cbuf_end = do {
     c \<leftarrow> unit_at cbuf cptr;
     if is_hi_surrogate c \<and> cbuf_type = 2 \<and> cptr + 1 < cbuf_end then do {
       c1 \<leftarrow> unit_at cbuf (cptr + 1);
       Some (if is_lo_surrogate c1 then (from_surrogate c c1, cptr + 2) else (c, cptr + 1))
     } else Some (c, cptr + 1)
   }"

definition PEEK_CHAR :: "u16 list \<Rightarrow> nat \<Rightarrow> int \<Rightarrow> int \<Rightarrow> u32 option" where
  "PEEK_CHAR cbuf cbuf_type cptr cbuf_end = do {
     c \<leftarrow> unit_at cbuf cptr;
     if is_hi_surrogate c \<and> cbuf_type = 2 \<and> cptr + 1 < cbuf_end then do {
       c1 \<leftarrow> unit_at cbuf (cptr + 1);
       Some (if is_lo_surrogate c1 then from_surrogate c c1 else c)
     } else Some c
   }"

definition PEEK_PREV_CHAR :: "u16 list \<Rightarrow> nat \<Rightarrow> int \<Rightarrow> int \<Rightarrow> u32 option" where
  "PEEK_PREV_CHAR cbuf cbuf_type cptr cbuf_start = do {
     c \<leftarrow> unit_at cbuf (cptr - 1);
     if is_lo_surrogate c \<and> cbuf_type = 2 \<and> cptr - 2 \<ge> cbuf_start then do {
       c1 \<leftarrow> unit_at cbuf (cptr - 2);
       Some (if is_hi_surrogate c1 then from_surrogate c1 c else c)
     } else Some c
   }"

definition GET_PREV_CHAR :: "u16 list \<Rightarrow> nat \<Rightarrow> int \<Rightarrow> int \<Rightarrow> (u32 \<times> int) option" where
  "GET_PREV_CHAR cbuf cbuf_type cptr cbuf_start = do {
     c \<leftarrow> unit_at cbuf (cptr - 1);
     if is_lo_surrogate c \<and> cbuf_type = 2 \<and> cptr - 1 > cbuf_start then do {
       c1 \<leftarrow> unit_at cbuf (cptr - 2);
       Some (if is_hi_surrogate c1 then (from_surrogate c1 c, cptr - 2) else (c, cptr - 1))
     } else Some (c, cptr - 1)
   }"

text \<open>\<open>PREV_CHAR\<close> only moves the pointer; it reads the buffer only for UTF-16.\<close>

definition PREV_CHAR :: "u16 list \<Rightarrow> nat \<Rightarrow> int \<Rightarrow> int \<Rightarrow> int option" where
  "PREV_CHAR cbuf cbuf_type cptr cbuf_start =
     (if cbuf_type = 2 then do {
        c \<leftarrow> unit_at cbuf (cptr - 1);
        if is_lo_surrogate c \<and> cptr - 1 > cbuf_start then do {
          c1 \<leftarrow> unit_at cbuf (cptr - 2);
          Some (if is_hi_surrogate c1 then cptr - 2 else cptr - 1)
        } else Some (cptr - 1)
      } else Some (cptr - 1))"

fun prev_chars :: "u16 list \<Rightarrow> nat \<Rightarrow> nat \<Rightarrow> int \<Rightarrow> int option" where
  "prev_chars cbuf cbuf_type 0 cptr = Some cptr"
| "prev_chars cbuf cbuf_type (Suc n) cptr = do {
     p \<leftarrow> PREV_CHAR cbuf cbuf_type cptr 0;
     prev_chars cbuf cbuf_type n p
   }"

section \<open>Execution state\<close>

datatype re_exec_type =
  RE_EXEC_STATE_SPLIT | RE_EXEC_STATE_LOOKAHEAD | RE_EXEC_STATE_NEGATIVE_LOOKAHEAD |
  RE_EXEC_STATE_GREEDY_QUANT

text \<open>An entry of the backtracking stack; \<open>rs_capture\<close> and \<open>rs_stack\<close> are its array \<open>buf\<close>.\<close>

record re_exec_state =
  rs_type :: re_exec_type
  rs_stack_len :: u8
  rs_count :: u64
  rs_cptr :: int
  rs_pc :: int
  rs_capture :: "int option list"
  rs_stack :: "u64 list"

text \<open>The part of \<open>REExecContext\<close> that does not change during execution, with the bytecode.\<close>

record re_exec_context =
  rc_cbuf :: "u16 list"
  rc_cbuf_type :: nat
  rc_capture_count :: nat
  rc_stack_size_max :: nat
  rc_multi_line :: bool
  rc_ignore_case :: bool
  rc_is_utf16 :: bool
  rc_bc :: "u8 list"
  rc_realloc :: "nat \<Rightarrow> bool"

definition cbuf_end :: "re_exec_context \<Rightarrow> int" where
  "cbuf_end s = int (length (rc_cbuf s))"

text \<open>\<open>sizeof(REExecState)\<close> on a 64 bit target: two bytes padded to eight, a \<open>size_t\<close> and two
  pointers.\<close>

definition sizeof_REExecState :: nat where
  "sizeof_REExecState = 32"

definition state_size :: "re_exec_context \<Rightarrow> nat" where
  "state_size s = sizeof_REExecState + rc_capture_count s * 8 * 2 + rc_stack_size_max s * 8"

text \<open>What execution changes: the program counter, the position in the subject, the captures, the
  value stack with its fill level, and the backtracking stack.\<close>

record re_vars =
  v_pc :: int
  v_cptr :: int
  v_capture :: "int option list"
  v_stack :: "u64 list"
  v_stack_len :: int
  state_stack :: "re_exec_state list"
  state_stack_size :: nat
  state_stack_bytes :: nat

definition push_state ::
  "re_exec_context \<Rightarrow> re_vars \<Rightarrow> int \<Rightarrow> int \<Rightarrow> re_exec_type \<Rightarrow> u64 \<Rightarrow> (int \<times> re_vars) option" where
  "push_state s v pc1 cptr1 type count = (
     let len = length (state_stack v);
         new_size = max 8 (sz (state_stack_size v * 3) div 2);
         new_bytes = sz (new_size * state_size s);
         full = len + 1 > state_stack_size v
     in if full \<and> \<not> rc_realloc s new_bytes then Some (-1, v)
     else let v = (if full
            then v\<lparr>state_stack_size := new_size, state_stack_bytes := new_bytes\<rparr> else v)
     in if v_stack_len v < 0 \<or> (len + 1) * state_size s > state_stack_bytes v \<or>
          v_stack_len v > int (rc_stack_size_max s) then None
     else do {
       cap \<leftarrow> rd_block (v_capture v) 0 (2 * rc_capture_count s);
       stk \<leftarrow> rd_block (v_stack v) 0 (nat (v_stack_len v));
       Some (0, v\<lparr>state_stack := \<lparr>rs_type = type, rs_stack_len = of_int (v_stack_len v),
         rs_count = count, rs_cptr = cptr1, rs_pc = pc1, rs_capture = cap, rs_stack = stk\<rparr>
         # state_stack v\<rparr>)
     })"

section \<open>One iteration of the interpreter loop\<close>

text \<open>A run of the interpreter ends with a pointer (the end of the match, when called with
  \<open>no_recurse\<close>) or an integer, the C value the function returns.\<close>

datatype exec_ret = Ret_ptr int | Ret_int int

datatype step_result = Next re_vars | Return exec_ret re_vars | Diverge

text \<open>Restoring the variables from an entry: \<open>pop_state1\<close> without the captures, \<open>pop_state\<close> with
  them.\<close>

definition restore_stack :: "re_exec_state \<Rightarrow> re_vars \<Rightarrow> re_vars option" where
  "restore_stack rs v = do {
     blk \<leftarrow> rd_block (rs_stack rs) 0 (unat (rs_stack_len rs));
     stk \<leftarrow> wr_block (v_stack v) 0 blk;
     Some (v\<lparr>v_stack := stk, v_stack_len := int (unat (rs_stack_len rs))\<rparr>)
   }"

definition restore_capture :: "re_exec_context \<Rightarrow> re_exec_state \<Rightarrow> re_vars \<Rightarrow> re_vars option" where
  "restore_capture s rs v = do {
     blk \<leftarrow> rd_block (rs_capture rs) 0 (2 * rc_capture_count s);
     cap \<leftarrow> wr_block (v_capture v) 0 blk;
     Some (v\<lparr>v_capture := cap\<rparr>)
   }"

definition pop_state1 :: "re_exec_state \<Rightarrow> re_exec_state list \<Rightarrow> re_vars \<Rightarrow> step_result option" where
  "pop_state1 rs rest v = do {
     v \<leftarrow> restore_stack rs v;
     Some (Next (v\<lparr>v_pc := rs_pc rs, v_cptr := rs_cptr rs, state_stack := rest\<rparr>))
   }"

definition pop_state ::
  "re_exec_context \<Rightarrow> re_exec_state \<Rightarrow> re_exec_state list \<Rightarrow> re_vars \<Rightarrow> step_result option" where
  "pop_state s rs rest v = do {
     v \<leftarrow> restore_capture s rs v;
     pop_state1 rs rest v
   }"

text \<open>The greedy quantifier entry gives one iteration back.\<close>

definition pop_greedy ::
  "re_exec_context \<Rightarrow> re_exec_state \<Rightarrow> re_exec_state list \<Rightarrow> re_vars \<Rightarrow> step_result option" where
  "pop_greedy s rs rest v = do {
     v \<leftarrow> restore_capture s rs v;
     v \<leftarrow> restore_stack rs v;
     char_count \<leftarrow> get_u32 (rc_bc s) (rs_pc rs + 12);
     cptr1 \<leftarrow> prev_chars (rc_cbuf s) (rc_cbuf_type s) (unat char_count) (rs_cptr rs);
     off \<leftarrow> get_u32 (rc_bc s) (rs_pc rs);
     let rs' = rs\<lparr>rs_cptr := cptr1, rs_count := rs_count rs - 1\<rparr> in
     Some (Next (v\<lparr>v_pc := rs_pc rs + 16 + sint off, v_cptr := cptr1,
       state_stack := (if rs_count rs' = 0 then rest else rs' # rest)\<rparr>))
   }"

text \<open>The label \<open>recurse\<close>: unwinding the backtracking stack with the result \<open>ret\<close>.\<close>

fun unwind ::
  "re_exec_context \<Rightarrow> bool \<Rightarrow> re_exec_state list \<Rightarrow> re_vars \<Rightarrow> step_result option" where
  "unwind s ret [] v = Some (Return (Ret_int (if ret then 1 else 0)) (v\<lparr>state_stack := []\<rparr>))"
| "unwind s ret (rs # rest) v = (case rs_type rs of
     RE_EXEC_STATE_SPLIT \<Rightarrow> if ret then unwind s ret rest v else pop_state s rs rest v
   | RE_EXEC_STATE_GREEDY_QUANT \<Rightarrow> if ret then unwind s ret rest v else pop_greedy s rs rest v
   | RE_EXEC_STATE_LOOKAHEAD \<Rightarrow> if ret then pop_state1 rs rest v else unwind s False rest v
   | RE_EXEC_STATE_NEGATIVE_LOOKAHEAD \<Rightarrow>
       if ret then unwind s False rest v else pop_state s rs rest v)"

definition no_match :: "re_exec_context \<Rightarrow> bool \<Rightarrow> re_vars \<Rightarrow> step_result option" where
  "no_match s no_recurse v =
     (if no_recurse then Some (Return (Ret_int 0) v) else unwind s False (state_stack v) v)"

definition step_match :: "re_exec_context \<Rightarrow> bool \<Rightarrow> re_vars \<Rightarrow> step_result option" where
  "step_match s no_recurse v =
     (if no_recurse then Some (Return (Ret_ptr (v_cptr v)) v) else unwind s True (state_stack v) v)"

definition canonicalize_if :: "re_exec_context \<Rightarrow> u32 \<Rightarrow> u32 option" where
  "canonicalize_if s c = (if rc_ignore_case s then lre_canonicalize c (rc_is_utf16 s) else Some c)"

text \<open>The label \<open>test_char\<close>.\<close>

definition test_char ::
  "re_exec_context \<Rightarrow> bool \<Rightarrow> re_vars \<Rightarrow> u32 \<Rightarrow> step_result option" where
  "test_char s no_recurse v val =
     (if v_cptr v \<ge> cbuf_end s then no_match s no_recurse v
      else do {
        (c, p) \<leftarrow> GET_CHAR (rc_cbuf s) (rc_cbuf_type s) (v_cptr v) (cbuf_end s);
        let v = v\<lparr>v_cptr := p\<rparr>;
        c \<leftarrow> canonicalize_if s c;
        if val \<noteq> c then no_match s no_recurse v else Some (Next v)
      })"

definition push_and_continue ::
  "re_exec_context \<Rightarrow> re_vars \<Rightarrow> int \<Rightarrow> int \<Rightarrow> re_exec_type \<Rightarrow> u64 \<Rightarrow> step_result option" where
  "push_and_continue s v pc1 cptr1 type count = do {
     (ret, v') \<leftarrow> push_state s v pc1 cptr1 type count;
     Some (if ret < 0 then Return (Ret_int (-1)) v' else Next v')
   }"

definition step_any :: "re_exec_context \<Rightarrow> bool \<Rightarrow> re_vars \<Rightarrow> (u32 \<Rightarrow> bool) \<Rightarrow> step_result option" where
  "step_any s no_recurse v bad =
     (if v_cptr v = cbuf_end s then no_match s no_recurse v
      else do {
        (c, p) \<leftarrow> GET_CHAR (rc_cbuf s) (rc_cbuf_type s) (v_cptr v) (cbuf_end s);
        let v = v\<lparr>v_cptr := p\<rparr>;
        if bad c then no_match s no_recurse v else Some (Next v)
      })"

definition step_line_start :: "re_exec_context \<Rightarrow> bool \<Rightarrow> re_vars \<Rightarrow> step_result option" where
  "step_line_start s no_recurse v =
     (if v_cptr v = 0 then Some (Next v)
      else if \<not> rc_multi_line s then no_match s no_recurse v
      else do {
        c \<leftarrow> PEEK_PREV_CHAR (rc_cbuf s) (rc_cbuf_type s) (v_cptr v) 0;
        if \<not> is_line_terminator c then no_match s no_recurse v else Some (Next v)
      })"

definition step_line_end :: "re_exec_context \<Rightarrow> bool \<Rightarrow> re_vars \<Rightarrow> step_result option" where
  "step_line_end s no_recurse v =
     (if v_cptr v = cbuf_end s then Some (Next v)
      else if \<not> rc_multi_line s then no_match s no_recurse v
      else do {
        c \<leftarrow> PEEK_CHAR (rc_cbuf s) (rc_cbuf_type s) (v_cptr v) (cbuf_end s);
        if \<not> is_line_terminator c then no_match s no_recurse v else Some (Next v)
      })"

fun reset_captures :: "int option list \<Rightarrow> nat \<Rightarrow> nat \<Rightarrow> int option list option" where
  "reset_captures cap val 0 = Some cap"
| "reset_captures cap val (Suc n) = do {
     cap \<leftarrow> wr cap (2 * val) None;
     cap \<leftarrow> wr cap (2 * val + 1) None;
     reset_captures cap (Suc val) n
   }"

definition step_save_reset :: "re_exec_context \<Rightarrow> re_vars \<Rightarrow> step_result option" where
  "step_save_reset s v = do {
     val \<leftarrow> rdi (rc_bc s) (v_pc v);
     val2 \<leftarrow> rdi (rc_bc s) (v_pc v + 1);
     if \<not> unat val2 < rc_capture_count s then None
     else do {
       cap \<leftarrow> reset_captures (v_capture v) (unat val) (Suc (unat val2) - unat val);
       Some (Next (v\<lparr>v_pc := v_pc v + 2, v_capture := cap\<rparr>))
     }
   }"

definition step_save :: "re_exec_context \<Rightarrow> re_vars \<Rightarrow> nat \<Rightarrow> step_result option" where
  "step_save s v which = do {
     val \<leftarrow> rdi (rc_bc s) (v_pc v);
     if \<not> unat val < rc_capture_count s then None
     else do {
       cap \<leftarrow> wr (v_capture v) (2 * unat val + which) (Some (v_cptr v));
       Some (Next (v\<lparr>v_pc := v_pc v + 1, v_capture := cap\<rparr>))
     }
   }"

definition word_char_before :: "re_exec_context \<Rightarrow> int \<Rightarrow> bool option" where
  "word_char_before s p = (if p = 0 then Some False
     else map_option is_word_char (PEEK_PREV_CHAR (rc_cbuf s) (rc_cbuf_type s) p 0))"

definition word_char_at :: "re_exec_context \<Rightarrow> int \<Rightarrow> bool option" where
  "word_char_at s p = (if p \<ge> cbuf_end s then Some False
     else map_option is_word_char (PEEK_CHAR (rc_cbuf s) (rc_cbuf_type s) p (cbuf_end s)))"

text \<open>\<open>neg\<close> is \<open>REOP_not_word_boundary - opcode\<close>.\<close>

definition step_word_boundary ::
  "re_exec_context \<Rightarrow> bool \<Rightarrow> re_vars \<Rightarrow> bool \<Rightarrow> step_result option" where
  "step_word_boundary s no_recurse v neg = do {
     v1 \<leftarrow> word_char_before s (v_cptr v);
     v2 \<leftarrow> word_char_at s (v_cptr v);
     if (v1 \<noteq> v2) \<noteq> neg then no_match s no_recurse v else Some (Next v)
   }"

text \<open>Back references: the loop over the captured characters, forward and backward; the result is
  the new position, or \<open>None\<close> inside when a character differs.\<close>

lemma GET_CHAR_advance:
  assumes "GET_CHAR cbuf t p e = Some (c, q)"
  shows "p < q" and "q \<le> p + 2" and "q \<le> max (p + 1) e" and "q \<le> int (length cbuf)" and "0 \<le> p"
  using assms
  by (auto simp: GET_CHAR_def unit_at_def mem_simps bind_Some_iff split: if_splits)

lemma GET_PREV_CHAR_advance:
  assumes "GET_PREV_CHAR cbuf t p b = Some (c, q)"
  shows "q < p" and "p - 2 \<le> q" and "min (p - 1) b \<le> q" and "0 \<le> q" and "p \<le> int (length cbuf)"
  using assms
  by (auto simp: GET_PREV_CHAR_def unit_at_def mem_simps bind_Some_iff split: if_splits)

function back_ref_loop ::
  "re_exec_context \<Rightarrow> int \<Rightarrow> int \<Rightarrow> int \<Rightarrow> (bool \<times> int) option" where
  "back_ref_loop s cptr1 cptr1_end cptr =
     (if cptr1 < cptr1_end then
        if cptr \<ge> cbuf_end s then Some (False, cptr)
        else (case GET_CHAR (rc_cbuf s) (rc_cbuf_type s) cptr1 cptr1_end of
            None \<Rightarrow> None
          | Some (c1, p1) \<Rightarrow> do {
              (c2, p2) \<leftarrow> GET_CHAR (rc_cbuf s) (rc_cbuf_type s) cptr (cbuf_end s);
              c1 \<leftarrow> canonicalize_if s c1;
              c2 \<leftarrow> canonicalize_if s c2;
              if c1 \<noteq> c2 then Some (False, p2) else back_ref_loop s p1 cptr1_end p2
            })
      else Some (True, cptr))"
  by pat_completeness auto
termination
  by (relation "measure (\<lambda>(s, p, e, q). nat (e - p))") (auto dest: GET_CHAR_advance)

function backward_back_ref_loop ::
  "re_exec_context \<Rightarrow> int \<Rightarrow> int \<Rightarrow> int \<Rightarrow> (bool \<times> int) option" where
  "backward_back_ref_loop s cptr1 cptr1_start cptr =
     (if cptr1 > cptr1_start then
        if cptr = 0 then Some (False, cptr)
        else (case GET_PREV_CHAR (rc_cbuf s) (rc_cbuf_type s) cptr1 cptr1_start of
            None \<Rightarrow> None
          | Some (c1, p1) \<Rightarrow> do {
              (c2, p2) \<leftarrow> GET_PREV_CHAR (rc_cbuf s) (rc_cbuf_type s) cptr 0;
              c1 \<leftarrow> canonicalize_if s c1;
              c2 \<leftarrow> canonicalize_if s c2;
              if c1 \<noteq> c2 then Some (False, p2) else backward_back_ref_loop s p1 cptr1_start p2
            })
      else Some (True, cptr))"
  by pat_completeness auto
termination
  by (relation "measure (\<lambda>(s, p, b, q). nat (p - b))") (auto dest: GET_PREV_CHAR_advance)

declare back_ref_loop.simps [simp del] backward_back_ref_loop.simps [simp del]

definition step_back_reference ::
  "re_exec_context \<Rightarrow> bool \<Rightarrow> re_vars \<Rightarrow> bool \<Rightarrow> step_result option" where
  "step_back_reference s no_recurse v backward = do {
     val \<leftarrow> rdi (rc_bc s) (v_pc v);
     let v = v\<lparr>v_pc := v_pc v + 1\<rparr>;
     if unat val \<ge> rc_capture_count s then no_match s no_recurse v
     else do {
       cs \<leftarrow> rd (v_capture v) (2 * unat val);
       ce \<leftarrow> rd (v_capture v) (2 * unat val + 1);
       case (cs, ce) of
         (Some cptr1_start, Some cptr1_end) \<Rightarrow> do {
           (ok, p) \<leftarrow> (if backward
             then backward_back_ref_loop s cptr1_end cptr1_start (v_cptr v)
             else back_ref_loop s cptr1_start cptr1_end (v_cptr v));
           let v = v\<lparr>v_cptr := p\<rparr>;
           if ok then Some (Next v) else no_match s no_recurse v
         }
       | _ \<Rightarrow> Some (Next v)
     }
   }"

text \<open>The binary search of the range opcodes over \<open>uint32_t\<close> indices; \<open>low\<close> and \<open>high\<close> load the
  bounds of an interval.  The interval of indices at least halves in every iteration, so that
  33 iterations are enough for 32 bit indices (lemma \<open>range_search_correct\<close>).\<close>

fun range_search ::
  "nat \<Rightarrow> (u32 \<Rightarrow> u32 option) \<Rightarrow> (u32 \<Rightarrow> u32 option) \<Rightarrow> u32 \<Rightarrow> u32 \<Rightarrow> u32 \<Rightarrow> bool option" where
  "range_search 0 low high c idx_min idx_max = None"
| "range_search (Suc k) low high c idx_min idx_max =
     (if idx_min \<le> idx_max then do {
        let idx = (idx_min + idx_max) div 2;
        l \<leftarrow> low idx;
        h \<leftarrow> high idx;
        if c < l then range_search k low high c idx_min (idx - 1)
        else if c > h then range_search k low high c (idx + 1) idx_max
        else Some True
      } else Some False)"

abbreviation (input) RANGE_FUEL :: nat where "RANGE_FUEL \<equiv> 34"

text \<open>\<open>REOP_range\<close> on the character \<open>c\<close> with the intervals at \<open>p\<close>: 16 bit bounds, where \<open>0xffff\<close> as
  the last bound means infinity.\<close>

definition range_test :: "u8 list \<Rightarrow> int \<Rightarrow> u32 \<Rightarrow> u32 \<Rightarrow> bool option" where
  "range_test bc p n c = do {
     low \<leftarrow> get_u16 bc p;
     if c < low then Some False
     else do {
       let idx_max = n - 1;
       high \<leftarrow> get_u16 bc (p + uint (idx_max * 4 + 2));
       if c \<ge> 0xffff \<and> high = 0xffff then Some True
       else if c > high then Some False
       else range_search RANGE_FUEL (\<lambda>idx. get_u16 bc (p + uint (idx * 4)))
              (\<lambda>idx. get_u16 bc (p + uint (idx * 4 + 2))) c 0 idx_max
     }
   }"

definition range32_test :: "u8 list \<Rightarrow> int \<Rightarrow> u32 \<Rightarrow> u32 \<Rightarrow> bool option" where
  "range32_test bc p n c = do {
     low \<leftarrow> get_u32 bc p;
     if c < low then Some False
     else do {
       let idx_max = n - 1;
       high \<leftarrow> get_u32 bc (p + uint (idx_max * 8 + 4));
       if c > high then Some False
       else range_search RANGE_FUEL (\<lambda>idx. get_u32 bc (p + uint (idx * 8)))
              (\<lambda>idx. get_u32 bc (p + uint (idx * 8 + 4))) c 0 idx_max
     }
   }"

definition step_range ::
  "re_exec_context \<Rightarrow> bool \<Rightarrow> re_vars \<Rightarrow> (u8 list \<Rightarrow> int \<Rightarrow> u32 \<Rightarrow> u32 \<Rightarrow> bool option) \<Rightarrow> int \<Rightarrow>
   step_result option" where
  "step_range s no_recurse v test entry_size = do {
     n \<leftarrow> get_u16 (rc_bc s) (v_pc v);
     let v = v\<lparr>v_pc := v_pc v + 2\<rparr>;
     if v_cptr v \<ge> cbuf_end s then no_match s no_recurse v
     else do {
       (c, p) \<leftarrow> GET_CHAR (rc_cbuf s) (rc_cbuf_type s) (v_cptr v) (cbuf_end s);
       let v = v\<lparr>v_cptr := p\<rparr>;
       c \<leftarrow> canonicalize_if s c;
       found \<leftarrow> test (rc_bc s) (v_pc v) n c;
       if found then Some (Next (v\<lparr>v_pc := v_pc v + entry_size * uint n\<rparr>))
       else no_match s no_recurse v
     }
   }"

text \<open>\<open>REOP_simple_greedy_quant\<close>: the atom is run by a recursive call with \<open>no_recurse\<close>, which is
  the argument \<open>rec\<close> here, until it fails or the maximum is reached.\<close>

datatype run_result = Returned exec_ret re_vars | Fault | Out_of_fuel

primrec quant_loop ::
  "nat \<Rightarrow> (re_vars \<Rightarrow> run_result) \<Rightarrow> int \<Rightarrow> u32 \<Rightarrow> re_vars \<Rightarrow> u64 \<Rightarrow>
   (u64 option \<times> re_vars) option option" where
  "quant_loop 0 rec pc1 quant_max v q = Some None"
| "quant_loop (Suc k) rec pc1 quant_max v q =
     (case rec (v\<lparr>v_pc := pc1\<rparr>) of
        Fault \<Rightarrow> None
      | Out_of_fuel \<Rightarrow> Some None
      | Returned (Ret_int r) v' \<Rightarrow>
          let v' = v'\<lparr>v_pc := v_pc v, v_cptr := v_cptr v, v_stack_len := v_stack_len v\<rparr> in
          Some (Some (if r = -1 then None else Some q, v'))
      | Returned (Ret_ptr p) v' \<Rightarrow>
          let v' = v'\<lparr>v_pc := v_pc v, v_cptr := p, v_stack_len := v_stack_len v\<rparr>; q = q + 1 in
          if q \<ge> ucast quant_max \<and> quant_max \<noteq> 0x7fffffff then Some (Some (Some q, v'))
          else quant_loop k rec pc1 quant_max v' q)"

definition step_quant ::
  "nat \<Rightarrow> (re_vars \<Rightarrow> run_result) \<Rightarrow> re_exec_context \<Rightarrow> bool \<Rightarrow> re_vars \<Rightarrow> step_result option" where
  "step_quant fuel rec s no_recurse v = do {
     next_pos \<leftarrow> get_u32 (rc_bc s) (v_pc v);
     quant_min \<leftarrow> get_u32 (rc_bc s) (v_pc v + 4);
     quant_max \<leftarrow> get_u32 (rc_bc s) (v_pc v + 8);
     let pc1 = v_pc v + 16;
     res \<leftarrow> quant_loop fuel rec pc1 quant_max (v\<lparr>v_pc := pc1 + sint next_pos\<rparr>) 0;
     case res of
       None \<Rightarrow> Some Diverge
     | Some (None, v) \<Rightarrow> Some (Return (Ret_int (-1)) v)
     | Some (Some q, v) \<Rightarrow>
         if q < ucast quant_min then no_match s no_recurse v
         else if q > ucast quant_min then
           push_and_continue s v (pc1 - 16) (v_cptr v) RE_EXEC_STATE_GREEDY_QUANT (q - ucast quant_min)
         else Some (Next v)
   }"

definition step_split :: "re_exec_context \<Rightarrow> re_vars \<Rightarrow> bool \<Rightarrow> step_result option" where
  "step_split s v next_first = do {
     val \<leftarrow> get_u32 (rc_bc s) (v_pc v);
     let p = v_pc v + 4;
     if next_first
     then push_and_continue s (v\<lparr>v_pc := p\<rparr>) (p + sint val) (v_cptr v) RE_EXEC_STATE_SPLIT 0
     else push_and_continue s (v\<lparr>v_pc := p + sint val\<rparr>) p (v_cptr v) RE_EXEC_STATE_SPLIT 0
   }"

definition step_lookahead :: "re_exec_context \<Rightarrow> re_vars \<Rightarrow> re_exec_type \<Rightarrow> step_result option" where
  "step_lookahead s v type = do {
     val \<leftarrow> get_u32 (rc_bc s) (v_pc v);
     let p = v_pc v + 4;
     push_and_continue s (v\<lparr>v_pc := p\<rparr>) (p + sint val) (v_cptr v) type 0
   }"

definition push_stack :: "re_vars \<Rightarrow> u64 \<Rightarrow> re_vars option" where
  "push_stack v x = do {
     stk \<leftarrow> wri (v_stack v) (v_stack_len v) x;
     Some (v\<lparr>v_stack := stk, v_stack_len := v_stack_len v + 1\<rparr>)
   }"

definition step_loop :: "re_exec_context \<Rightarrow> re_vars \<Rightarrow> step_result option" where
  "step_loop s v = do {
     val \<leftarrow> get_u32 (rc_bc s) (v_pc v);
     let p = v_pc v + 4;
     x \<leftarrow> rdi (v_stack v) (v_stack_len v - 1);
     stk \<leftarrow> wri (v_stack v) (v_stack_len v - 1) (x - 1);
     Some (Next (v\<lparr>v_stack := stk, v_pc := (if x - 1 \<noteq> 0 then p + sint val else p)\<rparr>))
   }"

definition step_bne_char_pos :: "re_exec_context \<Rightarrow> re_vars \<Rightarrow> step_result option" where
  "step_bne_char_pos s v = do {
     val \<leftarrow> get_u32 (rc_bc s) (v_pc v);
     let p = v_pc v + 4;
     x \<leftarrow> rdi (v_stack v) (v_stack_len v - 1);
     Some (Next (v\<lparr>v_stack_len := v_stack_len v - 1,
       v_pc := (if x \<noteq> of_int (v_cptr v) then p + sint val else p)\<rparr>))
   }"

definition step_prev :: "re_exec_context \<Rightarrow> bool \<Rightarrow> re_vars \<Rightarrow> step_result option" where
  "step_prev s no_recurse v =
     (if v_cptr v = 0 then no_match s no_recurse v
      else do {
        p \<leftarrow> PREV_CHAR (rc_cbuf s) (rc_cbuf_type s) (v_cptr v) 0;
        Some (Next (v\<lparr>v_cptr := p\<rparr>))
      })"

text \<open>The switch.  The program counter has already passed the opcode.\<close>

fun exec_op ::
  "nat \<Rightarrow> (re_vars \<Rightarrow> run_result) \<Rightarrow> re_exec_context \<Rightarrow> bool \<Rightarrow> re_vars \<Rightarrow> reop \<Rightarrow> step_result option" where
  "exec_op k rec s nr v REOP_match = step_match s nr v"
| "exec_op k rec s nr v REOP_char32 = do {
     val \<leftarrow> get_u32 (rc_bc s) (v_pc v); test_char s nr (v\<lparr>v_pc := v_pc v + 4\<rparr>) val }"
| "exec_op k rec s nr v REOP_char = do {
     val \<leftarrow> get_u16 (rc_bc s) (v_pc v); test_char s nr (v\<lparr>v_pc := v_pc v + 2\<rparr>) val }"
| "exec_op k rec s nr v REOP_split_goto_first = step_split s v False"
| "exec_op k rec s nr v REOP_split_next_first = step_split s v True"
| "exec_op k rec s nr v REOP_lookahead = step_lookahead s v RE_EXEC_STATE_LOOKAHEAD"
| "exec_op k rec s nr v REOP_negative_lookahead =
     step_lookahead s v RE_EXEC_STATE_NEGATIVE_LOOKAHEAD"
| "exec_op k rec s nr v REOP_goto = do {
     val \<leftarrow> get_u32 (rc_bc s) (v_pc v); Some (Next (v\<lparr>v_pc := v_pc v + (4 + sint val)\<rparr>)) }"
| "exec_op k rec s nr v REOP_line_start = step_line_start s nr v"
| "exec_op k rec s nr v REOP_line_end = step_line_end s nr v"
| "exec_op k rec s nr v REOP_dot = step_any s nr v is_line_terminator"
| "exec_op k rec s nr v REOP_any = step_any s nr v (\<lambda>c. False)"
| "exec_op k rec s nr v REOP_save_start = step_save s v 0"
| "exec_op k rec s nr v REOP_save_end = step_save s v 1"
| "exec_op k rec s nr v REOP_save_reset = step_save_reset s v"
| "exec_op k rec s nr v REOP_push_i32 = do {
     val \<leftarrow> get_u32 (rc_bc s) (v_pc v);
     v \<leftarrow> push_stack (v\<lparr>v_pc := v_pc v + 4\<rparr>) (ucast val);
     Some (Next v) }"
| "exec_op k rec s nr v REOP_drop = Some (Next (v\<lparr>v_stack_len := v_stack_len v - 1\<rparr>))"
| "exec_op k rec s nr v REOP_loop = step_loop s v"
| "exec_op k rec s nr v REOP_push_char_pos = do {
     v \<leftarrow> push_stack v (of_int (v_cptr v)); Some (Next v) }"
| "exec_op k rec s nr v REOP_bne_char_pos = step_bne_char_pos s v"
| "exec_op k rec s nr v REOP_word_boundary = step_word_boundary s nr v True"
| "exec_op k rec s nr v REOP_not_word_boundary = step_word_boundary s nr v False"
| "exec_op k rec s nr v REOP_back_reference = step_back_reference s nr v False"
| "exec_op k rec s nr v REOP_backward_back_reference = step_back_reference s nr v True"
| "exec_op k rec s nr v REOP_range = step_range s nr v range_test 4"
| "exec_op k rec s nr v REOP_range32 = step_range s nr v range32_test 8"
| "exec_op k rec s nr v REOP_prev = step_prev s nr v"
| "exec_op k rec s nr v REOP_simple_greedy_quant = step_quant k rec s nr v"
| "exec_op k rec s nr v REOP_invalid = None"

definition exec_step ::
  "nat \<Rightarrow> (re_vars \<Rightarrow> run_result) \<Rightarrow> re_exec_context \<Rightarrow> bool \<Rightarrow> re_vars \<Rightarrow> step_result option" where
  "exec_step k rec s no_recurse v = do {
     b \<leftarrow> rdi (rc_bc s) (v_pc v);
     op \<leftarrow> reop_decode b;
     exec_op k rec s no_recurse (v\<lparr>v_pc := v_pc v + 1\<rparr>) op
   }"

text \<open>The function itself.  The fuel bounds the number of iterations of the interpreter and of the
  quantifier loop, and the depth of the recursion.\<close>

primrec lre_exec_backtrack :: "nat \<Rightarrow> re_exec_context \<Rightarrow> bool \<Rightarrow> re_vars \<Rightarrow> run_result" where
  "lre_exec_backtrack 0 s no_recurse v = Out_of_fuel"
| "lre_exec_backtrack (Suc k) s no_recurse v =
     (case exec_step k (\<lambda>v. lre_exec_backtrack k s True v) s no_recurse v of
        None \<Rightarrow> Fault
      | Some Diverge \<Rightarrow> Out_of_fuel
      | Some (Return r v') \<Rightarrow> Returned r v'
      | Some (Next v') \<Rightarrow> lre_exec_backtrack k s no_recurse v')"

section \<open>Entry points\<close>

definition flag_set :: "u8 \<Rightarrow> u8 \<Rightarrow> bool" where
  "flag_set flags f \<longleftrightarrow> flags AND f \<noteq> 0"

text \<open>\<open>cbuf\<close> is the list of the \<open>clen\<close> code units; \<open>stack_init\<close> is the content of the block \<open>alloca\<close>
  delivers.\<close>

definition exec_context ::
  "(nat \<Rightarrow> bool) \<Rightarrow> u8 list \<Rightarrow> u16 list \<Rightarrow> nat \<Rightarrow> re_exec_context option" where
  "exec_context realloc bc cbuf cbuf_type = do {
     re_flags \<leftarrow> rd bc RE_HEADER_FLAGS;
     cc \<leftarrow> rd bc RE_HEADER_CAPTURE_COUNT;
     ss \<leftarrow> rd bc RE_HEADER_STACK_SIZE;
     Some \<lparr>rc_cbuf = cbuf,
       rc_cbuf_type = (if cbuf_type = 1 \<and> flag_set re_flags LRE_FLAG_UTF16 then 2 else cbuf_type),
       rc_capture_count = unat cc, rc_stack_size_max = unat ss,
       rc_multi_line = flag_set re_flags LRE_FLAG_MULTILINE,
       rc_ignore_case = flag_set re_flags LRE_FLAG_IGNORECASE,
       rc_is_utf16 = flag_set re_flags LRE_FLAG_UTF16,
       rc_bc = bc, rc_realloc = realloc\<rparr>
   }"

definition lre_exec ::
  "nat \<Rightarrow> (nat \<Rightarrow> bool) \<Rightarrow> (nat \<Rightarrow> u64) \<Rightarrow> int option list \<Rightarrow> u8 list \<Rightarrow> u16 list \<Rightarrow> nat \<Rightarrow> nat \<Rightarrow>
   run_result" where
  "lre_exec fuel realloc stack_init capture bc cbuf cindex cbuf_type =
     (case exec_context realloc bc cbuf cbuf_type of
        None \<Rightarrow> Fault
      | Some s \<Rightarrow> (case wr_block capture 0 (replicate (2 * rc_capture_count s) None) of
          None \<Rightarrow> Fault
        | Some cap \<Rightarrow> lre_exec_backtrack fuel s False
            \<lparr>v_pc = 7, v_cptr = int cindex, v_capture = cap,
             v_stack = map stack_init [0..<rc_stack_size_max s], v_stack_len = 0,
             state_stack = [], state_stack_size = 0, state_stack_bytes = 0\<rparr>))"

definition lre_get_capture_count :: "u8 list \<Rightarrow> u8 option" where
  "lre_get_capture_count bc = rd bc RE_HEADER_CAPTURE_COUNT"

definition lre_get_flags :: "u8 list \<Rightarrow> u8 option" where
  "lre_get_flags bc = rd bc RE_HEADER_FLAGS"

definition lre_get_groupnames :: "u8 list \<Rightarrow> int option option" where
  "lre_get_groupnames bc = do {
     flags \<leftarrow> lre_get_flags bc;
     if \<not> flag_set flags LRE_FLAG_NAMED_GROUPS then Some None
     else do {
       re_bytecode_len \<leftarrow> get_u32 bc 3;
       Some (Some (7 + uint re_bytecode_len))
     }
   }"

end
