(* ===== verification/RegexProps.thy ===== *)
theory RegexProps
  imports RegexExec
begin

text \<open>
  Facts about the primitives of the executor: the character macros move forward and backward
  consistently over surrogate pairs, every character they deliver can be canonicalized, and the
  binary search of the range opcodes decides membership in the encoded intervals.
\<close>

section \<open>Characters\<close>

lemma unit_at_Some_iff [mem_simps]:
  "unit_at cbuf i = Some c \<longleftrightarrow> 0 \<le> i \<and> i < int (length cbuf) \<and> c = ucast (cbuf ! nat i)"
  by (auto simp: unit_at_def mem_simps)

lemma unit_at_in: "0 \<le> i \<Longrightarrow> i < int (length cbuf) \<Longrightarrow> unit_at cbuf i = Some (ucast (cbuf ! nat i))"
  by (simp add: mem_simps)

lemma unit_less: "ucast (u :: u16) < (0x110000 :: u32)"
proof -
  have "unat (ucast u :: u32) = unat u" by (simp add: unsigned_ucast_eq take_bit_nat_eq_self
    less_le_trans [OF unsigned_less])
  moreover have "unat u < 0x10000" using unsigned_less [of u, where ?'a=nat] by simp
  ultimately show ?thesis by (simp add: word_less_nat_alt)
qed

lemma from_surrogate_less: "from_surrogate hi lo < 0x110000"
proof -
  have a: "x AND 0x3ff = take_bit 10 x" for x :: u32
    by (simp add: take_bit_eq_mask mask_eq_exp_minus_1)
  have "unat (take_bit 10 lo) < 1024" "unat (take_bit 10 hi) < 1024"
    using take_bit_nat_less_exp [of 10] by (simp_all add: unsigned_take_bit_eq)
  moreover have "push_bit 10 (take_bit 10 hi) OR take_bit 10 lo
      = push_bit 10 (take_bit 10 hi) + take_bit 10 lo"
    by (rule disjunctive_add_eq_or [symmetric]) (rule bit_word_eqI, simp add: bit_simps)
  moreover have "unat (push_bit 10 (take_bit 10 hi)) = unat (take_bit 10 hi) * 1024"
    using calculation(2) by (simp add: push_bit_eq_mult unat_word_ariths)
  ultimately show ?thesis
    by (simp add: from_surrogate_def a word_less_nat_alt unat_word_ariths)
qed

lemma GET_CHAR_less: "GET_CHAR cbuf t p e = Some (c, q) \<Longrightarrow> c < 0x110000"
  by (auto simp: GET_CHAR_def bind_Some_iff mem_simps from_surrogate_less unit_less
      split: if_splits)

lemma GET_PREV_CHAR_less: "GET_PREV_CHAR cbuf t p e = Some (c, q) \<Longrightarrow> c < 0x110000"
  by (auto simp: GET_PREV_CHAR_def bind_Some_iff mem_simps from_surrogate_less unit_less
      split: if_splits)

lemma lre_canonicalize_Some:
  assumes "c < 0x110000"
  obtains c' where "lre_canonicalize c u = Some c'"
  using lre_case_conv_out [OF assms, of 2] lre_case_conv_out [OF assms, of 0] that
  unfolding lre_canonicalize_def conv_out_def by (cases u; cases "c < 128") fastforce+

lemma canonicalize_if_Some:
  assumes "c < 0x110000"
  obtains c' where "canonicalize_if s c = Some c'"
  using that by (cases "rc_ignore_case s")
    (auto simp: canonicalize_if_def intro: lre_canonicalize_Some [OF assms])

text \<open>A position is a character boundary when it is not between the two halves of a surrogate pair.
  Only UTF-16 matching (\<open>cbuf_type = 2\<close>) joins surrogate pairs.\<close>

definition char_boundary :: "u16 list \<Rightarrow> nat \<Rightarrow> int \<Rightarrow> bool" where
  "char_boundary cbuf t p \<longleftrightarrow> \<not> (t = 2 \<and> 0 < p \<and> p < int (length cbuf) \<and>
     is_hi_surrogate (ucast (cbuf ! nat (p - 1))) \<and> is_lo_surrogate (ucast (cbuf ! nat p)))"

lemma hi_not_lo: "is_hi_surrogate c \<Longrightarrow> \<not> is_lo_surrogate c"
  by (auto simp: is_hi_surrogate_def is_lo_surrogate_def)

lemma GET_CHAR_in:
  assumes "0 \<le> p" and "p < int (length cbuf)" and "e \<le> int (length cbuf)"
  obtains c q where "GET_CHAR cbuf t p e = Some (c, q)"
proof -
  have "\<exists>x. GET_CHAR cbuf t p e = Some x"
    using assms by (auto simp: GET_CHAR_def unit_at_in)
  with that show thesis by auto
qed

lemma GET_PREV_CHAR_in:
  assumes "0 < p" and "p \<le> int (length cbuf)" and "0 \<le> b"
  obtains c q where "GET_PREV_CHAR cbuf t p b = Some (c, q)"
proof -
  have "\<exists>x. GET_PREV_CHAR cbuf t p b = Some x"
    using assms by (auto simp: GET_PREV_CHAR_def unit_at_in)
  with that show thesis by auto
qed

lemma PREV_CHAR_GET_PREV:
  "GET_PREV_CHAR cbuf t p b = Some (c, q) \<Longrightarrow> PREV_CHAR cbuf t p b = Some q"
  by (auto simp: GET_PREV_CHAR_def PREV_CHAR_def bind_Some_iff split: if_splits)

lemma PEEK_CHAR_GET: "PEEK_CHAR cbuf t p e = map_option fst (GET_CHAR cbuf t p e)"
  by (auto simp: PEEK_CHAR_def GET_CHAR_def bind_eq_None_conv split: if_splits Option.bind_splits)

lemma PEEK_PREV_CHAR_GET: "PEEK_PREV_CHAR cbuf t p b = map_option fst (GET_PREV_CHAR cbuf t p b)"
  by (auto simp: PEEK_PREV_CHAR_def GET_PREV_CHAR_def bind_eq_None_conv
      split: if_splits Option.bind_splits)

lemma GET_CHAR_boundary:
  assumes "GET_CHAR cbuf t p (int (length cbuf)) = Some (c, q)"
  shows "char_boundary cbuf t q"
  using assms
  by (auto simp: GET_CHAR_def char_boundary_def bind_Some_iff mem_simps ac_simps
      split: if_splits dest: hi_not_lo)

lemma GET_PREV_CHAR_GET_CHAR:
  assumes "GET_CHAR cbuf t p (int (length cbuf)) = Some (c, q)" and "char_boundary cbuf t p"
  shows "GET_PREV_CHAR cbuf t q 0 = Some (c, p)"
  using assms
  by (auto simp: GET_CHAR_def GET_PREV_CHAR_def char_boundary_def bind_Some_iff mem_simps
      unit_at_in hi_not_lo ac_simps split: if_splits)

section \<open>Binary search of the range opcodes\<close>

definition ivals_sorted :: "(nat \<Rightarrow> u32) \<Rightarrow> (nat \<Rightarrow> u32) \<Rightarrow> nat \<Rightarrow> bool" where
  "ivals_sorted L H n \<longleftrightarrow> (\<forall>i < n. L i \<le> H i) \<and> (\<forall>i j. i < j \<longrightarrow> j < n \<longrightarrow> H i < L j)"

lemma word_mid:
  assumes "a + b < 2 ^ 32"
  shows "(of_nat a + of_nat b :: u32) div 2 = of_nat ((a + b) div 2)"
  using assms by (intro word_unat_eq_iff [THEN iffD2])
    (simp add: unat_div unat_of_nat flip: of_nat_add)

lemma range_search_correct:
  fixes L H :: "nat \<Rightarrow> u32"
  assumes lh: "\<And>i. i < n \<Longrightarrow> low (of_nat i) = Some (L i) \<and> high (of_nat i) = Some (H i)"
    and n: "n < 2 ^ 31" and c0: "L 0 \<le> c"
  shows "a \<le> n \<Longrightarrow> b < n \<Longrightarrow> Suc b - a < 2 ^ k \<Longrightarrow>
    \<exists>r. range_search (Suc k) low high c (of_nat a) (of_nat b) = Some r \<and>
      (r \<longrightarrow> (\<exists>i. a \<le> i \<and> i \<le> b \<and> L i \<le> c \<and> c \<le> H i)) \<and>
      (ivals_sorted L H n \<longrightarrow> \<not> r \<longrightarrow> (\<forall>i. a \<le> i \<longrightarrow> i \<le> b \<longrightarrow> \<not> (L i \<le> c \<and> c \<le> H i)))"
proof (induction k arbitrary: a b)
  case 0
  then have "\<not> a \<le> b" by simp
  then have "\<not> (of_nat a :: u32) \<le> of_nat b"
    using 0 n by (simp add: word_le_nat_alt unat_of_nat)
  with \<open>\<not> a \<le> b\<close> show ?case by auto
next
  case (Suc k)
  have le: "(of_nat a :: u32) \<le> of_nat b \<longleftrightarrow> a \<le> b"
    using Suc.prems n by (simp add: word_le_nat_alt unat_of_nat)
  show ?case
  proof (cases "a \<le> b")
    case False
    with le show ?thesis by auto
  next
    case True
    let ?m = "(a + b) div 2"
    have m: "a \<le> ?m" "?m \<le> b" "?m < n" using True Suc.prems by auto
    have mid: "(of_nat a + of_nat b :: u32) div 2 = of_nat ?m"
      using Suc.prems n by (intro word_mid) simp
    have out: "\<not> (L i \<le> c \<and> c \<le> H i)" if "ivals_sorted L H n" "c < L ?m" "?m \<le> i" "i < n" for i
    proof (cases "?m = i")
      case False
      with that have "H ?m < L i" "L ?m \<le> H ?m" using m by (simp_all add: ivals_sorted_def)
      with that(2) show ?thesis unfolding word_le_nat_alt word_less_nat_alt by linarith
    qed (use that in auto)
    have out': "\<not> (L i \<le> c \<and> c \<le> H i)" if "ivals_sorted L H n" "H ?m < c" "i \<le> ?m" for i
    proof (cases "i = ?m")
      case False
      with that m have "H i < L ?m" "L ?m \<le> H ?m" by (simp_all add: ivals_sorted_def)
      with that(2) show ?thesis unfolding word_le_nat_alt word_less_nat_alt by linarith
    qed (use that in auto)
    consider "c < L ?m" | "\<not> c < L ?m" "H ?m < c" | "\<not> c < L ?m" "\<not> H ?m < c" by blast
    then show ?thesis
    proof cases
      case 1
      with c0 have pos: "0 < ?m" by (cases "?m = 0") auto
      have dec: "of_nat ?m - 1 = (of_nat (?m - 1) :: u32)" using pos by (simp add: of_nat_diff)
      have pre: "?m - 1 < n" "Suc (?m - 1) - a < 2 ^ k" using m Suc.prems pos by auto
      from Suc.IH [OF Suc.prems(1) this] obtain r where
        r: "range_search (Suc k) low high c (of_nat a) (of_nat (?m - 1)) = Some r"
           "r \<longrightarrow> (\<exists>i. a \<le> i \<and> i \<le> ?m - 1 \<and> L i \<le> c \<and> c \<le> H i)"
           "ivals_sorted L H n \<longrightarrow> \<not> r \<longrightarrow> (\<forall>i. a \<le> i \<longrightarrow> i \<le> ?m - 1 \<longrightarrow> \<not> (L i \<le> c \<and> c \<le> H i))"
        by blast
      have "range_search (Suc (Suc k)) low high c (of_nat a) (of_nat b) = Some r"
        using le True mid lh [OF m(3)] 1 r(1) dec
        by (subst range_search.simps) (simp add: Let_def del: range_search.simps)
      moreover have "\<exists>i. a \<le> i \<and> i \<le> b \<and> L i \<le> c \<and> c \<le> H i" if r
        using r(2) that m by (meson diff_le_self le_trans)
      moreover have "\<not> (L i \<le> c \<and> c \<le> H i)" if "ivals_sorted L H n" "\<not> r" "a \<le> i" "i \<le> b" for i
        using r(3) out [OF that(1) 1, of i] that Suc.prems(2) pos by (cases "?m \<le> i") auto
      ultimately show ?thesis by blast
    next
      case 2
      have inc: "of_nat ?m + 1 = (of_nat (Suc ?m) :: u32)" by simp
      have pre: "Suc ?m \<le> n" "Suc b - Suc ?m < 2 ^ k" using m Suc.prems by auto
      from Suc.IH [OF pre(1) Suc.prems(2) pre(2)] obtain r where
        r: "range_search (Suc k) low high c (of_nat (Suc ?m)) (of_nat b) = Some r"
           "r \<longrightarrow> (\<exists>i. Suc ?m \<le> i \<and> i \<le> b \<and> L i \<le> c \<and> c \<le> H i)"
           "ivals_sorted L H n \<longrightarrow> \<not> r \<longrightarrow> (\<forall>i. Suc ?m \<le> i \<longrightarrow> i \<le> b \<longrightarrow> \<not> (L i \<le> c \<and> c \<le> H i))"
        by blast
      have "range_search (Suc (Suc k)) low high c (of_nat a) (of_nat b) = Some r"
        using le True mid lh [OF m(3)] 2 r(1) inc
        by (subst range_search.simps) (simp add: Let_def del: range_search.simps of_nat_Suc)
      moreover have "\<exists>i. a \<le> i \<and> i \<le> b \<and> L i \<le> c \<and> c \<le> H i" if r
        using r(2) that m by (meson Suc_leD le_trans)
      moreover have "\<not> (L i \<le> c \<and> c \<le> H i)" if "ivals_sorted L H n" "\<not> r" "a \<le> i" "i \<le> b" for i
        using r(3) out' [OF that(1) 2(2), of i] that by (cases "i \<le> ?m") auto
      ultimately show ?thesis by blast
    next
      case 3
      then have "range_search (Suc (Suc k)) low high c (of_nat a) (of_nat b) = Some True"
        using le True mid lh [OF m(3)]
        by (subst range_search.simps) (simp add: Let_def del: range_search.simps)
      with 3 m show ?thesis by (auto simp: not_less)
    qed
  qed
qed

text \<open>The two range opcodes over the loads of their tables.\<close>

lemma get_u16_less: "get_u16 m i = Some v \<Longrightarrow> v < 0x10000"
proof -
  assume "get_u16 m i = Some v"
  then obtain a b :: u8 where v: "v = ucast a OR push_bit 8 (ucast b)"
    by (auto simp: get_u16_def get_u8_def bind_Some_iff)
  have "take_bit 16 v = v"
    by (rule bit_word_eqI) (auto simp: v bit_simps dest: bit_imp_le_length)
  then have "unat v = take_bit 16 (unat v)" by (metis unsigned_take_bit_eq)
  also have "\<dots> < 2 ^ 16" by (rule take_bit_nat_less_exp)
  finally show "v < 0x10000" by (simp add: word_less_nat_alt)
qed

lemma uint_scale:
  assumes "i < 2 ^ 16" and "m \<le> 8" and "r < 8"
  shows "uint ((of_nat i :: u32) * of_nat m + of_nat r) = int (i * m + r)"
proof -
  have "i * m \<le> 2 ^ 16 * 8" using assms by (intro mult_mono) auto
  then have "i * m + r < 2 ^ 32" using assms by simp
  then have "unat (of_nat (i * m + r) :: u32) = i * m + r"
    using unat_of_nat [of "i * m + r", where ?'a = 32] by (simp only: mod_less len_num1 len_bit0 len_num0) simp
  then show ?thesis by (simp flip: of_nat_mult of_nat_add add: uint_nat)
qed

lemma range_search_table:
  fixes L H :: "nat \<Rightarrow> u32"
  assumes "\<And>i. i < n \<Longrightarrow> low (of_nat i) = Some (L i) \<and> high (of_nat i) = Some (H i)"
    and "0 < n" and "n < 2 ^ 16" and "L 0 \<le> c"
  shows "\<exists>r. range_search RANGE_FUEL low high c 0 (of_nat n - 1) = Some r \<and>
    (ivals_sorted L H n \<longrightarrow> r = (\<exists>i < n. L i \<le> c \<and> c \<le> H i))"
proof -
  have e: "of_nat n - 1 = (of_nat (n - 1) :: u32)" using assms(2) by (simp add: of_nat_diff)
  have f: "RANGE_FUEL = Suc 33" by simp
  have i: "i \<le> n - 1 \<longleftrightarrow> i < n" for i using assms(2) by auto
  have "n < 2 ^ 31" "n - 1 < n" "Suc (n - 1) - 0 < 2 ^ 33" using assms(2,3) by simp_all
  from range_search_correct [of n low L high H c 0 "n - 1" 33, OF assms(1) this(1) assms(4) le0 this(2,3)]
  obtain r where r0: "range_search (Suc 33) low high c (of_nat 0) (of_nat (n - 1)) = Some r \<and>
      (r \<longrightarrow> (\<exists>i. 0 \<le> i \<and> i \<le> n - 1 \<and> L i \<le> c \<and> c \<le> H i)) \<and>
      (ivals_sorted L H n \<longrightarrow> \<not> r \<longrightarrow> (\<forall>i. 0 \<le> i \<longrightarrow> i \<le> n - 1 \<longrightarrow> \<not> (L i \<le> c \<and> c \<le> H i)))"
    by (rule exE)
  note r = r0 [THEN conjunct1] r0 [THEN conjunct2, THEN conjunct1, unfolded i]
    r0 [THEN conjunct2, THEN conjunct2, unfolded i]
  from r(1) have "range_search RANGE_FUEL low high c 0 (of_nat n - 1) = Some r"
    by (simp only: e f semiring_1_class.of_nat_0)
  moreover from r(2,3) have "ivals_sorted L H n \<longrightarrow> r = (\<exists>i < n. L i \<le> c \<and> c \<le> H i)" by blast
  ultimately show ?thesis by blast
qed

definition range_table :: "u8 list \<Rightarrow> int \<Rightarrow> nat \<Rightarrow> (nat \<Rightarrow> u32) \<Rightarrow> (nat \<Rightarrow> u32) \<Rightarrow> bool" where
  "range_table bc p n L H \<longleftrightarrow> 0 < n \<and> n < 2 ^ 16 \<and>
     (\<forall>i < n. get_u16 bc (p + 4 * int i) = Some (L i) \<and> get_u16 bc (p + 4 * int i + 2) = Some (H i))"

definition range32_table :: "u8 list \<Rightarrow> int \<Rightarrow> nat \<Rightarrow> (nat \<Rightarrow> u32) \<Rightarrow> (nat \<Rightarrow> u32) \<Rightarrow> bool" where
  "range32_table bc p n L H \<longleftrightarrow> 0 < n \<and> n < 2 ^ 16 \<and>
     (\<forall>i < n. get_u32 bc (p + 8 * int i) = Some (L i) \<and> get_u32 bc (p + 8 * int i + 4) = Some (H i))"

lemma range_test_spec:
  assumes t: "range_table bc p n L H"
  shows "\<exists>r. range_test bc p (of_nat n) c = Some r \<and> (ivals_sorted L H n \<longrightarrow>
    r = (\<exists>i < n. L i \<le> c \<and> (c \<le> H i \<or> Suc i = n \<and> H i = 0xffff)))"
proof -
  from t have n: "0 < n" "n < 2 ^ 16" by (simp_all add: range_table_def)
  have u: "p + uint (of_nat i * 4 :: u32) = p + 4 * int i"
    "p + uint (of_nat i * 4 + 2 :: u32) = p + 4 * int i + 2" if "i < n" for i
    using that n uint_scale [of i 4 0] uint_scale [of i 4 2] by simp_all
  have lo: "get_u16 bc (p + uint (of_nat i * 4 :: u32)) = Some (L i)"
    and hi: "get_u16 bc (p + uint (of_nat i * 4 + 2 :: u32)) = Some (H i)" if "i < n" for i
    unfolding u [OF that] using t that by (simp_all add: range_table_def)
  let ?k = "n - 1"
  have k: "of_nat n - 1 = (of_nat ?k :: u32)" using n by (simp add: of_nat_diff)
  have last: "get_u16 bc (p + uint ((of_nat n - 1) * 4 + 2 :: u32)) = Some (H ?k)"
    unfolding k by (rule hi) (use n in simp)
  have first: "get_u16 bc p = Some (L 0)" using lo [of 0] n by simp
  note eq = range_test_def [of bc p "of_nat n" c, unfolded first last Let_def Option.bind.simps]
  have H: "H i \<le> 0xffff" if "i < n" for i
    using get_u16_less [OF hi [OF that]] by (simp add: word_le_nat_alt word_less_nat_alt)
  have L: "L i \<le> 0xffff" if "i < n" for i
    using get_u16_less [OF lo [OF that]] by (simp add: word_le_nat_alt word_less_nat_alt)
  have mono: "L 0 \<le> L i" if "ivals_sorted L H n" "i < n" for i
  proof (cases "i = 0")
    case False
    with that have "L 0 \<le> H 0" "H 0 < L i" using n by (auto simp: ivals_sorted_def)
    then show ?thesis by simp
  qed simp
  have monoH: "H i \<le> H ?k" if "ivals_sorted L H n" "i < n" for i
  proof (cases "i = ?k")
    case False
    with that have "H i < L ?k" "L ?k \<le> H ?k" using n by (auto simp: ivals_sorted_def)
    then show ?thesis by simp
  qed simp
  consider "c < L 0" | "L 0 \<le> c" "0xffff \<le> c" "H ?k = 0xffff"
    | "L 0 \<le> c" "\<not> (0xffff \<le> c \<and> H ?k = 0xffff)" "H ?k < c"
    | "L 0 \<le> c" "\<not> (0xffff \<le> c \<and> H ?k = 0xffff)" "c \<le> H ?k"
    by (meson not_le)
  then show ?thesis
  proof cases
    case 1
    then have "range_test bc p (of_nat n) c = Some False" by (simp add: eq)
    moreover have "\<not> L i \<le> c" if "ivals_sorted L H n" "i < n" for i
      using mono [OF that] 1 by (meson leD order_trans)
    ultimately show ?thesis by blast
  next
    case 2
    then have "range_test bc p (of_nat n) c = Some True"
      by (simp add: eq not_less)
    moreover have "?k < n" "Suc ?k = n" "L ?k \<le> c"
      using n 2 L [of ?k] by (auto intro: order_trans)
    ultimately show ?thesis using 2 by blast
  next
    case 3
    then have "range_test bc p (of_nat n) c = Some False"
      by (simp add: eq not_less)
    moreover have "\<not> (c \<le> H i \<or> Suc i = n \<and> H i = 0xffff)" if "ivals_sorted L H n" "i < n" for i
    proof -
      have "H i < c" using monoH [OF that] 3 by (meson le_less_trans)
      moreover have "Suc i = n \<Longrightarrow> H i \<noteq> 0xffff" using 3 by auto
      ultimately show ?thesis by auto
    qed
    ultimately show ?thesis by blast
  next
    case 4
    obtain r where r: "range_search RANGE_FUEL (\<lambda>idx. get_u16 bc (p + uint (idx * 4)))
        (\<lambda>idx. get_u16 bc (p + uint (idx * 4 + 2))) c 0 (of_nat n - 1) = Some r"
      "ivals_sorted L H n \<longrightarrow> r = (\<exists>i < n. L i \<le> c \<and> c \<le> H i)"
      using range_search_table [of n "\<lambda>idx. get_u16 bc (p + uint (idx * 4))" L
        "\<lambda>idx. get_u16 bc (p + uint (idx * 4 + 2))" H c] lo hi n 4 by blast
    have "range_test bc p (of_nat n) c = Some r"
      using 4 r(1) by (auto simp add: eq not_less leD)
    moreover have "c \<le> H i" if "Suc i = n" "H i = 0xffff" for i
      using 4 that by (cases "i = ?k") auto
    ultimately show ?thesis using r(2) by blast
  qed
qed

lemma range32_test_spec:
  assumes t: "range32_table bc p n L H"
  shows "\<exists>r. range32_test bc p (of_nat n) c = Some r \<and> (ivals_sorted L H n \<longrightarrow>
    r = (\<exists>i < n. L i \<le> c \<and> c \<le> H i))"
proof -
  from t have n: "0 < n" "n < 2 ^ 16" by (simp_all add: range32_table_def)
  have u: "p + uint (of_nat i * 8 :: u32) = p + 8 * int i"
    "p + uint (of_nat i * 8 + 4 :: u32) = p + 8 * int i + 4" if "i < n" for i
    using that n uint_scale [of i 8 0] uint_scale [of i 8 4] by simp_all
  have lo: "get_u32 bc (p + uint (of_nat i * 8 :: u32)) = Some (L i)"
    and hi: "get_u32 bc (p + uint (of_nat i * 8 + 4 :: u32)) = Some (H i)" if "i < n" for i
    unfolding u [OF that] using t that by (simp_all add: range32_table_def)
  let ?k = "n - 1"
  have k: "of_nat n - 1 = (of_nat ?k :: u32)" using n by (simp add: of_nat_diff)
  have last: "get_u32 bc (p + uint ((of_nat n - 1) * 8 + 4 :: u32)) = Some (H ?k)"
    unfolding k by (rule hi) (use n in simp)
  have first: "get_u32 bc p = Some (L 0)" using lo [of 0] n by simp
  note eq = range32_test_def [of bc p "of_nat n" c, unfolded first last Let_def Option.bind.simps]
  have mono: "L 0 \<le> L i" if "ivals_sorted L H n" "i < n" for i
  proof (cases "i = 0")
    case False
    with that have "L 0 \<le> H 0" "H 0 < L i" using n by (auto simp: ivals_sorted_def)
    then show ?thesis by simp
  qed simp
  have monoH: "H i \<le> H ?k" if "ivals_sorted L H n" "i < n" for i
  proof (cases "i = ?k")
    case False
    with that have "H i < L ?k" "L ?k \<le> H ?k" using n by (auto simp: ivals_sorted_def)
    then show ?thesis by simp
  qed simp
  consider "c < L 0" | "L 0 \<le> c" "H ?k < c" | "L 0 \<le> c" "c \<le> H ?k" by (meson not_le)
  then show ?thesis
  proof cases
    case 1
    then have "range32_test bc p (of_nat n) c = Some False" by (simp add: eq)
    moreover have "\<not> L i \<le> c" if "ivals_sorted L H n" "i < n" for i
      using mono [OF that] 1 by (meson leD order_trans)
    ultimately show ?thesis by blast
  next
    case 2
    then have "range32_test bc p (of_nat n) c = Some False"
      by (simp add: eq not_less)
    moreover have "\<not> c \<le> H i" if "ivals_sorted L H n" "i < n" for i
      using monoH [OF that] 2 by (meson leD le_less_trans)
    ultimately show ?thesis by blast
  next
    case 3
    obtain r where r: "range_search RANGE_FUEL (\<lambda>idx. get_u32 bc (p + uint (idx * 8)))
        (\<lambda>idx. get_u32 bc (p + uint (idx * 8 + 4))) c 0 (of_nat n - 1) = Some r"
      "ivals_sorted L H n \<longrightarrow> r = (\<exists>i < n. L i \<le> c \<and> c \<le> H i)"
      using range_search_table [of n "\<lambda>idx. get_u32 bc (p + uint (idx * 8))" L
        "\<lambda>idx. get_u32 bc (p + uint (idx * 8 + 4))" H c] lo hi n 3 by blast
    have "range32_test bc p (of_nat n) c = Some r"
      using 3 r(1) by (simp add: eq not_less leD)
    with r(2) show ?thesis by blast
  qed
qed

section \<open>Moving backward\<close>

text \<open>\<open>back_ok n p\<close>: from \<open>p\<close> the executor can step back over \<open>n\<close> characters without leaving the
  subject.\<close>

definition back_ok :: "u16 list \<Rightarrow> nat \<Rightarrow> nat \<Rightarrow> int \<Rightarrow> bool" where
  "back_ok cbuf t n p \<longleftrightarrow> 0 \<le> p \<and> p \<le> int (length cbuf) \<and>
     (\<exists>q. prev_chars cbuf t n p = Some q \<and> 0 \<le> q)"

lemma PREV_CHAR_less:
  "PREV_CHAR cbuf t p b = Some q \<Longrightarrow> q < p"
  by (auto simp: PREV_CHAR_def bind_Some_iff split: if_splits)

lemma prev_chars_le: "prev_chars cbuf t n p = Some q \<Longrightarrow> q \<le> p"
proof (induction n arbitrary: p)
  case (Suc n)
  then obtain r where "PREV_CHAR cbuf t p 0 = Some r" "prev_chars cbuf t n r = Some q"
    by (auto simp: bind_Some_iff)
  with Suc.IH [of r] PREV_CHAR_less [of cbuf t p 0 r] show ?case by simp
qed simp

lemma prev_chars_add:
  "prev_chars cbuf t (m + n) p = Option.bind (prev_chars cbuf t m p) (prev_chars cbuf t n)"
proof (induction m arbitrary: p)
  case (Suc m)
  then show ?case by (cases "PREV_CHAR cbuf t p 0") simp_all
qed simp

lemma back_ok_split:
  assumes "back_ok cbuf t (m + n) p"
  obtains q where "prev_chars cbuf t m p = Some q" and "back_ok cbuf t n q"
proof -
  from assms obtain q r where "prev_chars cbuf t m p = Some q" "prev_chars cbuf t n q = Some r" "0 \<le> r"
    "p \<le> int (length cbuf)"
    by (auto simp: back_ok_def prev_chars_add bind_Some_iff)
  moreover from this have "r \<le> q" "q \<le> p" by (auto dest: prev_chars_le)
  ultimately show thesis using that by (simp add: back_ok_def)
qed

lemma back_ok_mono:
  assumes "back_ok cbuf t n p" and "m \<le> n"
  shows "back_ok cbuf t m p"
proof -
  from assms have "back_ok cbuf t (m + (n - m)) p" by simp
  then obtain q where "prev_chars cbuf t m p = Some q" "back_ok cbuf t (n - m) q"
    by (rule back_ok_split)
  with assms(1) show ?thesis by (simp add: back_ok_def)
qed

lemma back_ok_0 [simp]: "back_ok cbuf t 0 p \<longleftrightarrow> 0 \<le> p \<and> p \<le> int (length cbuf)"
  by (auto simp: back_ok_def)

text \<open>The invariant of a run of single character matches: after \<open>n\<close> of them one can step back over
  \<open>n\<close> characters, even when the first one started between two surrogates.\<close>

definition chars_done :: "u16 list \<Rightarrow> nat \<Rightarrow> nat \<Rightarrow> int \<Rightarrow> bool" where
  "chars_done cbuf t n p \<longleftrightarrow> back_ok cbuf t n p \<and> (0 < n \<longrightarrow> char_boundary cbuf t p)"

lemma chars_done_step:
  assumes d: "chars_done cbuf t n p" and g: "GET_CHAR cbuf t p (int (length cbuf)) = Some (c, q)"
  shows "chars_done cbuf t (Suc n) q"
proof -
  note a = GET_CHAR_advance [OF g]
  have b: "char_boundary cbuf t q" using g by (rule GET_CHAR_boundary)
  have "back_ok cbuf t (Suc n) q"
  proof (cases "n = 0")
    case True
    obtain c' r where r: "GET_PREV_CHAR cbuf t q 0 = Some (c', r)"
      using a by (auto intro: GET_PREV_CHAR_in [of q cbuf 0 t])
    from GET_PREV_CHAR_advance(4) [OF r] PREV_CHAR_GET_PREV [OF r] a True show ?thesis
      by (simp add: back_ok_def)
  next
    case False
    with d have "char_boundary cbuf t p" by (simp add: chars_done_def)
    from PREV_CHAR_GET_PREV [OF GET_PREV_CHAR_GET_CHAR [OF g this]] d a show ?thesis
      by (auto simp: back_ok_def chars_done_def)
  qed
  with b show ?thesis by (simp add: chars_done_def)
qed

section \<open>Properties\<close>

text \<open>C19: the character macros are consistent: reading a character at a character boundary and then
  reading backward delivers the same character and the same position, the peeking macros deliver
  what the reading macros deliver, and the new position is a character boundary again.\<close>

theorem char_macros_inverse:
  assumes "GET_CHAR cbuf t p (int (length cbuf)) = Some (c, q)" and "char_boundary cbuf t p"
  shows "GET_PREV_CHAR cbuf t q 0 = Some (c, p) \<and> PREV_CHAR cbuf t q 0 = Some p \<and>
    PEEK_PREV_CHAR cbuf t q 0 = Some c \<and> PEEK_CHAR cbuf t p (int (length cbuf)) = Some c \<and>
    char_boundary cbuf t q \<and> c < 0x110000 \<and> p < q \<and> q \<le> int (length cbuf)"
  using GET_PREV_CHAR_GET_CHAR [OF assms] GET_CHAR_advance [OF assms(1)] assms
    PREV_CHAR_GET_PREV GET_CHAR_boundary GET_CHAR_less
  by (auto simp: PEEK_CHAR_GET PEEK_PREV_CHAR_GET)

theorem char_macros_inverse_witness:
  "GET_CHAR [0x61, 0xd83d, 0xde00] 2 1 3 = Some (0x1f600, 3) \<and>
   GET_PREV_CHAR [0x61, 0xd83d, 0xde00] 2 3 0 = Some (0x1f600, 1)"
proof -
  have g: "GET_CHAR [0x61, 0xd83d, 0xde00] 2 1 (int (length [0x61, 0xd83d, 0xde00 :: u16]))
    = Some (0x1f600, 3)" by code_simp
  have "char_boundary [0x61, 0xd83d, 0xde00] 2 1" by code_simp
  from char_macros_inverse [OF g this] g show ?thesis by simp
qed

text \<open>C16: the range opcodes decide membership: for a table of sorted, disjoint intervals the binary
  search terminates with the answer whether one of them holds the character, where \<open>0xffff\<close> as
  the last upper bound of a 16 bit table stands for infinity.\<close>

theorem range_opcodes_exact:
  assumes "ivals_sorted L H n"
  shows "(range_table bc p n L H \<longrightarrow> range_test bc p (of_nat n) c =
            Some (\<exists>i < n. L i \<le> c \<and> (c \<le> H i \<or> Suc i = n \<and> H i = 0xffff))) \<and>
         (range32_table bc p n L H \<longrightarrow> range32_test bc p (of_nat n) c =
            Some (\<exists>i < n. L i \<le> c \<and> c \<le> H i))"
  using range_test_spec [of bc p n L H c] range32_test_spec [of bc p n L H c] assms by auto

theorem range_opcodes_exact_witness:
  "range_test [0x30, 0, 0x39, 0, 0x41, 0, 0xff, 0xff] 0 2 0x1f600 = Some True \<and>
   range_test [0x30, 0, 0x39, 0, 0x41, 0, 0xff, 0xff] 0 2 0x3a = Some False"
proof -
  let ?L = "\<lambda>i::nat. [0x30, 0x41] ! i :: u32" and ?H = "\<lambda>i. [0x39, 0xffff] ! i"
  have two: "i < 2 \<longleftrightarrow> i = 0 \<or> i = 1" for i :: nat by auto
  have s: "ivals_sorted ?L ?H 2" by (auto simp: ivals_sorted_def two)
  have "get_u16 [0x30, 0, 0x39, 0, 0x41, 0, 0xff, 0xff] 0 = Some 0x30"
    "get_u16 [0x30, 0, 0x39, 0, 0x41, 0, 0xff, 0xff] 2 = Some 0x39"
    "get_u16 [0x30, 0, 0x39, 0, 0x41, 0, 0xff, 0xff] 4 = Some 0x41"
    "get_u16 [0x30, 0, 0x39, 0, 0x41, 0, 0xff, 0xff] 6 = Some 0xffff"
    by code_simp+
  then have t: "range_table [0x30, 0, 0x39, 0, 0x41, 0, 0xff, 0xff] 0 2 ?L ?H"
    by (simp add: range_table_def two)
  note r = range_opcodes_exact [OF s, THEN conjunct1, THEN mp, OF t]
  have "range_test [0x30, 0, 0x39, 0, 0x41, 0, 0xff, 0xff] 0 2 0x1f600 = Some True"
    using r [of "0x1f600"] by (simp add: two) (rule exI [of _ 1], simp)
  moreover have "range_test [0x30, 0, 0x39, 0, 0x41, 0, 0xff, 0xff] 0 2 0x3a = Some False"
    using r [of "0x3a"] by (simp add: two conj_disj_distribR ex_disj_distrib)
  ultimately show ?thesis by simp
qed

end
