(* ===== verification/ReParse.thy ===== *)
theory ReParse
  imports ReBytes UnicodeSets UnicodeCase Utf8 DynBuf
begin

text \<open>
  The lexical part of the regular expression compiler (\<open>libregexp.c\<close>): numbers, escapes, property names,
  character classes and group names.  The pattern is a block of bytes with its terminating zero, a position
  in it is a number, and a read outside the block is \<open>None\<close>.  A parse error is the left part of the result.
\<close>

section \<open>Results\<close>

text \<open>Why the compiler stops: an error with its message, an error return that leaves the message unset, the loop of
  \<open>unicode_script\<close> that never returns, or the end of the fuel.\<close>

datatype re_stop = Re_error string | Re_error_unset | Re_loops | Re_no_fuel

type_synonym 'a re_result = "(re_stop + 'a) option"

abbreviation "re_ok x \<equiv> Some (Inr x)"
abbreviation "re_parse_error msg \<equiv> Some (Inl (Re_error msg))"
abbreviation "re_parse_out_of_memory \<equiv> re_parse_error ''out of memory''"

definition andthen :: "'a re_result \<Rightarrow> ('a \<Rightarrow> 'b re_result) \<Rightarrow> 'b re_result" where
  "andthen m f = (case m of None \<Rightarrow> None | Some (Inl e) \<Rightarrow> Some (Inl e) | Some (Inr x) \<Rightarrow> f x)"

lemma andthen_simps [simp]:
  "andthen None f = None" "andthen (Some (Inl e)) f = Some (Inl e)" "andthen (Some (Inr x)) f = f x"
  by (simp_all add: andthen_def)

lemma andthen_cong [fundef_cong]:
  "m = m' \<Longrightarrow> (\<And>x. m' = Some (Inr x) \<Longrightarrow> f x = g x) \<Longrightarrow> andthen m f = andthen m' g"
  by (auto simp: andthen_def split: option.splits sum.splits)

lemma andthen_Inr_iff: "andthen m f = Some (Inr y) \<longleftrightarrow> (\<exists>x. m = Some (Inr x) \<and> f x = Some (Inr y))"
  by (auto simp: andthen_def split: option.splits sum.splits)

lemma andthen_Inl_iff:
  "andthen m f = Some (Inl e) \<longleftrightarrow> m = Some (Inl e) \<or> (\<exists>x. m = Some (Inr x) \<and> f x = Some (Inl e))"
  by (auto simp: andthen_def split: option.splits sum.splits)

text \<open>A step that only fails by undefined behaviour.\<close>

definition step_of :: "'a option \<Rightarrow> 'a re_result" where
  "step_of m = map_option Inr m"

lemma step_of_Some [simp]: "step_of (Some x) = Some (Inr x)"
  by (simp add: step_of_def)

lemma step_of_Inr [simp]: "step_of m = Some (Inr x) \<longleftrightarrow> m = Some x"
  by (auto simp: step_of_def)

lemma step_of_Inl [simp]: "step_of m \<noteq> Some (Inl e)"
  by (auto simp: step_of_def)

abbreviation (input) ch :: "char \<Rightarrow> u8" where "ch c \<equiv> of_char c"

definition chars :: "string \<Rightarrow> u8 list" where
  "chars s = map of_char s"

section \<open>Numbers\<close>

text \<open>Unary numbers are no good for the evaluation of large constants.\<close>

lemma INT32_MAX_unfold [code_unfold]: "int INT32_MAX = 0x7fffffff" "INT32_MAX \<le> n \<longleftrightarrow> 0x7fffffff \<le> int n"
  by (auto simp: INT32_MAX_def)

definition is_digit :: "u8 \<Rightarrow> bool" where
  "is_digit c \<longleftrightarrow> c \<ge> ch CHR ''0'' \<and> c \<le> ch CHR ''9''"

definition from_hex :: "u8 \<Rightarrow> int" where
  "from_hex c = (if c \<ge> ch CHR ''0'' \<and> c \<le> ch CHR ''9'' then uint c - 48
     else if c \<ge> ch CHR ''A'' \<and> c \<le> ch CHR ''F'' then uint c - 65 + 10
     else if c \<ge> ch CHR ''a'' \<and> c \<le> ch CHR ''f'' then uint c - 97 + 10
     else -1)"

text \<open>The pointer moves only when the number is accepted; the value stays below \<open>2 ^ 31\<close>, so the 64 bit
  arithmetic of the code does not wrap.\<close>

function parse_digits_loop :: "u8 list \<Rightarrow> nat \<Rightarrow> nat \<Rightarrow> bool \<Rightarrow> nat \<Rightarrow> (int \<times> nat) option" where
  "parse_digits_loop buf p0 p allow_overflow v =
     (if p < length buf then
        if \<not> is_digit (buf ! p) then Some (int v, p)
        else
          let v = v * 10 + unat (buf ! p) - 48 in
          if v \<ge> INT32_MAX then
            (if allow_overflow then parse_digits_loop buf p0 (p + 1) allow_overflow INT32_MAX else Some (-1, p0))
          else parse_digits_loop buf p0 (p + 1) allow_overflow v
      else None)"
  by pat_completeness auto
termination
  by (relation "measure (\<lambda>(buf, p0, p, a, v). length buf - p)") auto

declare parse_digits_loop.simps [simp del]

definition parse_digits :: "u8 list \<Rightarrow> nat \<Rightarrow> bool \<Rightarrow> (int \<times> nat) option" where
  "parse_digits buf p allow_overflow = parse_digits_loop buf p p allow_overflow 0"

section \<open>Escapes\<close>

text \<open>The digits of an escape in braces, from \<open>p\<close> to the closing brace; \<open>Some None\<close> is the return of -1.\<close>

function hex_brace :: "u8 list \<Rightarrow> nat \<Rightarrow> u32 \<Rightarrow> (u32 \<times> nat) option option" where
  "hex_brace buf p c =
     (if p < length buf then
        let h = from_hex (buf ! p) in
        if h < 0 then Some None
        else
          let c = push_bit 4 c OR word_of_int h in
          if c > 0x10FFFF then Some None
          else (case rd buf (p + 1) of None \<Rightarrow> None
            | Some b \<Rightarrow> if b = ch CHR ''}'' then Some (Some (c, p + 1)) else hex_brace buf (p + 1) c)
      else None)"
  by pat_completeness auto
termination
  by (relation "measure (\<lambda>(buf, p, c). length buf - p)") auto

declare hex_brace.simps [simp del]

text \<open>Exactly \<open>n\<close> digits.\<close>

fun hex_digits :: "u8 list \<Rightarrow> nat \<Rightarrow> nat \<Rightarrow> u32 \<Rightarrow> u32 option option" where
  "hex_digits buf p 0 c = Some (Some c)"
| "hex_digits buf p (Suc n) c = (case rd buf p of None \<Rightarrow> None
     | Some b \<Rightarrow> if from_hex b < 0 then Some None
         else hex_digits buf (p + 1) n (push_bit 4 c OR word_of_int (from_hex b)))"

text \<open>The low surrogate after a high one.\<close>

definition surrogate_pair :: "u8 list \<Rightarrow> nat \<Rightarrow> u32 \<Rightarrow> (u32 \<times> nat) option" where
  "surrogate_pair buf p c = do {
     b0 \<leftarrow> rd buf p;
     if b0 \<noteq> 0x5C then Some (c, p)
     else do {
       b1 \<leftarrow> rd buf (p + 1);
       if b1 \<noteq> ch CHR ''u'' then Some (c, p)
       else do {
         r \<leftarrow> hex_digits buf (p + 2) 4 0;
         Some (case r of None \<Rightarrow> (c, p)
           | Some c1 \<Rightarrow> if c1 \<ge> 0xdc00 \<and> c1 < 0xe000
               then ((push_bit 10 (c AND 0x3ff) OR (c1 AND 0x3ff)) + 0x10000, p + 6) else (c, p))
       }
     }
   }"

definition fixed_escape :: "u8 list \<Rightarrow> nat \<Rightarrow> nat \<Rightarrow> nat \<Rightarrow> (u32 \<times> nat) option option" where
  "fixed_escape buf p n allow_utf16 = (case hex_digits buf p n 0 of None \<Rightarrow> None
     | Some None \<Rightarrow> Some None
     | Some (Some c) \<Rightarrow>
         if c \<ge> 0xd800 \<and> c < 0xdc00 \<and> allow_utf16 = 2 then map_option Some (surrogate_pair buf (p + n) c)
         else Some (Some (c, p + n)))"

definition hex_escape :: "u8 list \<Rightarrow> nat \<Rightarrow> u8 \<Rightarrow> nat \<Rightarrow> (u32 \<times> nat) option option" where
  "hex_escape buf p c allow_utf16 = (case rd buf p of None \<Rightarrow> None
     | Some b \<Rightarrow>
         if b = ch CHR ''{'' \<and> allow_utf16 \<noteq> 0 then (case hex_brace buf (p + 1) 0 of None \<Rightarrow> None
           | Some None \<Rightarrow> Some None
           | Some (Some (c, p)) \<Rightarrow> Some (Some (c, p + 1)))
         else fixed_escape buf p (if c = ch CHR ''x'' then 2 else 4) allow_utf16)"

definition octal_escape :: "u8 list \<Rightarrow> nat \<Rightarrow> u32 \<Rightarrow> (u32 \<times> nat) option" where
  "octal_escape buf p c = do {
     b \<leftarrow> rd buf p;
     let v = (ucast b - 48 :: u32);
     if v > 7 then Some (c, p)
     else do {
       let c = (push_bit 3 c OR v);
       if c \<ge> 32 then Some (c, p + 1)
       else do {
         b \<leftarrow> rd buf (p + 1);
         let v = (ucast b - 48 :: u32);
         Some (if v > 7 then (c, p + 1) else (push_bit 3 c OR v, p + 2))
       }
     }
   }"

text \<open>\<open>lre_parse_escape\<close> at \<open>p\<close>, after the backslash: the character with the new position, or -1 or -2.\<close>

datatype escape = Esc_char u32 nat | Esc_malformed | Esc_unknown

definition lre_parse_escape :: "u8 list \<Rightarrow> nat \<Rightarrow> nat \<Rightarrow> escape option" where
  "lre_parse_escape buf p allow_utf16 = do {
     c \<leftarrow> rd buf p;
     let p = p + 1;
     if c = ch CHR ''b'' then Some (Esc_char 8 p)
     else if c = ch CHR ''f'' then Some (Esc_char 12 p)
     else if c = ch CHR ''n'' then Some (Esc_char 10 p)
     else if c = ch CHR ''r'' then Some (Esc_char 13 p)
     else if c = ch CHR ''t'' then Some (Esc_char 9 p)
     else if c = ch CHR ''v'' then Some (Esc_char 11 p)
     else if c = ch CHR ''x'' \<or> c = ch CHR ''u'' then do {
       r \<leftarrow> hex_escape buf p c allow_utf16;
       Some (case r of None \<Rightarrow> Esc_malformed | Some (c, p) \<Rightarrow> Esc_char c p)
     }
     else if c \<ge> ch CHR ''0'' \<and> c \<le> ch CHR ''7'' then do {
       let c = (ucast c - 48 :: u32);
       if allow_utf16 = 2 then do {
         dig \<leftarrow> (if c \<noteq> 0 then Some True else map_option is_digit (rd buf p));
         Some (if dig then Esc_malformed else Esc_char c p)
       }
       else do { (c, p) \<leftarrow> octal_escape buf p c; Some (Esc_char c p) }
     }
     else Some Esc_unknown
   }"

section \<open>The state of the compiler\<close>

text \<open>\<open>REParseState\<close>: the pattern with its terminator, the flags, the code and the group names.  The embedding
  enters with the allocator answers of the k-th temporary range and of the k-th stack test.\<close>

record re_parse_state =
  re_buf :: "u8 list"
  buf_ptr :: nat
  re_is_utf16 :: bool
  re_ignore_case :: bool
  re_dotall :: bool
  byte_code :: dynbuf
  capture_count :: nat
  total_capture_count :: int
  has_named_captures :: int
  group_names :: dynbuf
  range_alloc :: "nat \<Rightarrow> cr_alloc_fun"
  range_count :: nat
  stack_overflow :: "nat \<Rightarrow> bool"
  stack_checks :: nat

definition buf_end :: "re_parse_state \<Rightarrow> nat" where
  "buf_end s = length (re_buf s) - 1"

abbreviation (input) CAPTURE_COUNT_MAX :: nat where "CAPTURE_COUNT_MAX \<equiv> 255"
abbreviation (input) TMP_BUF_SIZE :: nat where "TMP_BUF_SIZE \<equiv> 128"
abbreviation (input) UTF8_CHAR_LEN_MAX :: nat where "UTF8_CHAR_LEN_MAX \<equiv> 6"
abbreviation (input) CLASS_RANGE_BASE :: u32 where "CLASS_RANGE_BASE \<equiv> 0x40000000"

text \<open>A temporary range, as \<open>cr_init\<close> sets it up.\<close>

definition new_range :: "re_parse_state \<Rightarrow> charrange \<times> re_parse_state" where
  "new_range s = (cr_init (range_alloc s (range_count s)), s\<lparr>range_count := Suc (range_count s)\<rparr>)"

definition re_parse_expect :: "re_parse_state \<Rightarrow> nat \<Rightarrow> char \<Rightarrow> nat re_result" where
  "re_parse_expect s p c = (case rd (re_buf s) p of None \<Rightarrow> None
     | Some b \<Rightarrow> if b \<noteq> ch c then re_parse_error (''expecting '' @ [CHR 0x27, c, CHR 0x27]) else re_ok (p + 1))"

section \<open>Predefined classes\<close>

definition char_range_d :: "u16 list" where
  "char_range_d = [1, 0x0030, 0x0039 + 1]"

definition char_range_s :: "u16 list" where
  "char_range_s = [10, 0x0009, 0x000D + 1, 0x0020, 0x0020 + 1, 0x00A0, 0x00A0 + 1, 0x1680, 0x1680 + 1,
     0x2000, 0x200A + 1, 0x2028, 0x2029 + 1, 0x202F, 0x202F + 1, 0x205F, 0x205F + 1, 0x3000, 0x3000 + 1,
     0xFEFF, 0xFEFF + 1]"

definition char_range_w :: "u16 list" where
  "char_range_w = [4, 0x0030, 0x0039 + 1, 0x0041, 0x005A + 1, 0x005F, 0x005F + 1, 0x0061, 0x007A + 1]"

datatype char_range_enum = CHAR_RANGE_d | CHAR_RANGE_D | CHAR_RANGE_s | CHAR_RANGE_S | CHAR_RANGE_w | CHAR_RANGE_W

text \<open>\<open>char_range_table\<close> and the low bit of the enumeration value.\<close>

fun char_range_of :: "char_range_enum \<Rightarrow> u16 list \<times> bool" where
  "char_range_of CHAR_RANGE_d = (char_range_d, False)"
| "char_range_of CHAR_RANGE_D = (char_range_d, True)"
| "char_range_of CHAR_RANGE_s = (char_range_s, False)"
| "char_range_of CHAR_RANGE_S = (char_range_s, True)"
| "char_range_of CHAR_RANGE_w = (char_range_w, False)"
| "char_range_of CHAR_RANGE_W = (char_range_w, True)"

fun add_points :: "charrange \<Rightarrow> u32 list \<Rightarrow> (int \<times> charrange) option" where
  "add_points cr [] = Some (0, cr)"
| "add_points cr (x # xs) = (case cr_add_point cr x of None \<Rightarrow> None
     | Some (r, cr) \<Rightarrow> if r \<noteq> 0 then Some (-1, cr) else add_points cr xs)"

definition cr_init_char_range :: "charrange \<Rightarrow> char_range_enum \<Rightarrow> (int \<times> charrange) option" where
  "cr_init_char_range cr c = (let (c_pt, inv) = char_range_of c in do {
     pts \<leftarrow> rd_block c_pt 1 (2 * unat (hd c_pt));
     (r, cr) \<leftarrow> add_points cr (map ucast pts);
     if r \<noteq> 0 then Some (-1, cr)
     else if inv then do { (r, cr) \<leftarrow> cr_invert cr; Some (if r \<noteq> 0 then -1 else 0, cr) }
     else Some (0, cr)
   })"

text \<open>\<open>cr_canonicalize\<close> uses one more temporary range \<open>a\<close>.\<close>

definition cr_canonicalize :: "charrange \<Rightarrow> charrange \<Rightarrow> (int \<times> charrange) option" where
  "cr_canonicalize a cr = do {
     (r, a) \<leftarrow> cr_op a (cr_pts cr) [97, 122 + 1] CR_OP_INTER;
     if r \<noteq> 0 then Some (r, cr)
     else cr_union1 cr (map (\<lambda>x. x + (65 - 97)) (cr_pts a))
   }"

section \<open>Unicode properties\<close>

definition is_unicode_char :: "u8 \<Rightarrow> bool" where
  "is_unicode_char c \<longleftrightarrow> is_digit c \<or> c \<ge> ch CHR ''A'' \<and> c \<le> ch CHR ''Z'' \<or>
     c \<ge> ch CHR ''a'' \<and> c \<le> ch CHR ''z'' \<or> c = ch CHR ''_''"

text \<open>A name of at most 63 characters; \<open>Some None\<close> when the buffer of the name is full.\<close>

function property_name :: "u8 list \<Rightarrow> nat \<Rightarrow> u8 list \<Rightarrow> (u8 list \<times> nat) option option" where
  "property_name buf p name =
     (if p < length buf then
        if is_unicode_char (buf ! p) then
          if length name \<ge> 63 then Some None else property_name buf (p + 1) (name @ [buf ! p])
        else Some (Some (name, p))
      else None)"
  by pat_completeness auto
termination
  by (relation "measure (\<lambda>(buf, p, name). length buf - p)") auto

declare property_name.simps [simp del]

text \<open>What a lookup of a set by name leaves: the set, or its error.\<close>

definition named_set :: "(int \<times> charrange) option \<Rightarrow> string \<Rightarrow> charrange re_result" where
  "named_set m msg = (case m of None \<Rightarrow> None | Some (r, cr) \<Rightarrow>
     if r = 0 then re_ok cr else if r = -2 then re_parse_error msg else re_parse_out_of_memory)"

definition property_set :: "charrange \<Rightarrow> u8 list \<Rightarrow> u8 list \<Rightarrow> charrange re_result" where
  "property_set cr name val =
     (let script = (\<lambda>script_ext. case unicode_script cr val script_ext of None \<Rightarrow> None
            | Some Script_loops \<Rightarrow> Some (Inl Re_loops)
            | Some (Script_return r cr) \<Rightarrow> named_set (Some (r, cr)) ''unknown unicode script'')
      in if name = chars ''Script'' \<or> name = chars ''sc'' then script False
         else if name = chars ''Script_Extensions'' \<or> name = chars ''scx'' then script True
         else if name = chars ''General_Category'' \<or> name = chars ''gc'' then
           named_set (unicode_general_category cr val) ''unknown unicode general category''
         else if val = [] then (case unicode_general_category cr name of None \<Rightarrow> None
           | Some (r, cr) \<Rightarrow> if r = -1 then re_parse_out_of_memory
               else if r < 0 then named_set (unicode_prop cr name) ''unknown unicode property name''
               else re_ok cr)
         else re_parse_error ''unknown unicode property name'')"

text \<open>The optional value, and the end of the property.\<close>

definition property_value :: "u8 list \<Rightarrow> nat \<Rightarrow> (u8 list \<times> nat) option option" where
  "property_value buf p = (case rd buf p of None \<Rightarrow> None
     | Some b \<Rightarrow> if b = ch CHR ''='' then property_name buf (p + 1) [] else Some (Some ([], p)))"

definition property_end ::
  "re_parse_state \<Rightarrow> u8 list \<Rightarrow> u8 list \<Rightarrow> nat \<Rightarrow> bool \<Rightarrow> (charrange \<times> nat \<times> re_parse_state) re_result" where
  "property_end s name val p is_inv = (case rd (re_buf s) p of None \<Rightarrow> None
     | Some b \<Rightarrow>
         if b \<noteq> ch CHR ''}'' then re_parse_error (''expecting '' @ [CHR 0x27, CHR 0x7D, CHR 0x27])
         else
           let (cr, s) = new_range s in
           andthen (property_set cr name val) (\<lambda>cr.
             if is_inv then (case cr_invert cr of None \<Rightarrow> None
               | Some (r, cr) \<Rightarrow> if r \<noteq> 0 then Some (Inl Re_error_unset) else re_ok (cr, p + 1, s))
             else re_ok (cr, p + 1, s)))"

definition parse_unicode_property ::
  "re_parse_state \<Rightarrow> nat \<Rightarrow> bool \<Rightarrow> (charrange \<times> nat \<times> re_parse_state) re_result" where
  "parse_unicode_property s p is_inv = (case rd (re_buf s) p of None \<Rightarrow> None
     | Some b \<Rightarrow>
         if b \<noteq> ch CHR ''{'' then
           re_parse_error (''expecting '' @ [CHR 0x27, CHR 0x7B, CHR 0x27] @ '' after '' @ [CHR 0x5C, CHR ''p''])
         else (case property_name (re_buf s) (p + 1) [] of None \<Rightarrow> None
           | Some None \<Rightarrow> re_parse_error ''unknown unicode property name''
           | Some (Some (name, p)) \<Rightarrow> (case property_value (re_buf s) p of None \<Rightarrow> None
               | Some None \<Rightarrow> re_parse_error ''unknown unicode property value''
               | Some (Some (val, p)) \<Rightarrow> property_end s name val p is_inv)))"

section \<open>Class atoms\<close>

text \<open>\<open>get_class_atom\<close>: a character, or the marker \<open>CLASS_RANGE_BASE\<close> with an initialised range.\<close>

type_synonym atom_result = "u32 \<times> charrange option \<times> nat \<times> re_parse_state"

definition normal_char :: "re_parse_state \<Rightarrow> nat \<Rightarrow> u8 \<Rightarrow> atom_result re_result" where
  "normal_char s p c =
     (if c \<ge> 128 then (case unicode_from_utf8 (re_buf s) p (int UTF8_CHAR_LEN_MAX) of None \<Rightarrow> None
        | Some (c, p) \<Rightarrow>
            if (c < 0 \<or> c > 0xffff) \<and> \<not> re_is_utf16 s then re_parse_error ''malformed unicode char''
            else if c < 0 then Some (Inl Re_error_unset)
            else re_ok (word_of_int c, None, p, s))
      else re_ok (ucast c, None, p + 1, s))"

definition invalid_escape :: "'a re_result" where
  "invalid_escape = re_parse_error ''invalid escape sequence in regular expression''"

definition class_range :: "re_parse_state \<Rightarrow> nat \<Rightarrow> char_range_enum \<Rightarrow> atom_result re_result" where
  "class_range s p c = (let (cr, s) = new_range s in
     case cr_init_char_range cr c of None \<Rightarrow> None
     | Some (r, cr) \<Rightarrow> if r \<noteq> 0 then Some (Inl Re_error_unset) else re_ok (CLASS_RANGE_BASE, Some cr, p, s))"

text \<open>The escape \<open>c\<close> behind a backslash; \<open>p\<close> is the position behind \<open>c\<close>.\<close>

definition control_escape :: "re_parse_state \<Rightarrow> nat \<Rightarrow> bool \<Rightarrow> atom_result re_result" where
  "control_escape s p inclass = (case rd (re_buf s) p of None \<Rightarrow> None
     | Some c \<Rightarrow>
         if c \<ge> ch CHR ''a'' \<and> c \<le> ch CHR ''z'' \<or> c \<ge> ch CHR ''A'' \<and> c \<le> ch CHR ''Z'' \<or>
           (is_digit c \<or> c = ch CHR ''_'') \<and> inclass \<and> \<not> re_is_utf16 s
         then re_ok (ucast (c AND 0x1f), None, p + 1, s)
         else if re_is_utf16 s then invalid_escape
         else re_ok (0x5C, None, p - 1, s))"

definition other_escape :: "re_parse_state \<Rightarrow> nat \<Rightarrow> u8 \<Rightarrow> atom_result re_result" where
  "other_escape s p c =
     (case lre_parse_escape (re_buf s) (p - 1) (if re_is_utf16 s then 2 else 0) of None \<Rightarrow> None
      | Some (Esc_char c p) \<Rightarrow> re_ok (c, None, p, s)
      | Some ret \<Rightarrow>
          if ret = Esc_unknown \<and> c \<noteq> 0 \<and> c \<in> set (chars ([CHR ''^'', CHR ''$'', CHR 0x5C] @ ''.*+?()[]{}|/''))
          then normal_char s (p - 1) c
          else if re_is_utf16 s then invalid_escape
          else normal_char s (p - 1) c)"

definition escape_atom :: "re_parse_state \<Rightarrow> nat \<Rightarrow> u8 \<Rightarrow> bool \<Rightarrow> atom_result re_result" where
  "escape_atom s p c inclass =
     (if c = ch CHR ''d'' then class_range s p CHAR_RANGE_d
      else if c = ch CHR ''D'' then class_range s p CHAR_RANGE_D
      else if c = ch CHR ''s'' then class_range s p CHAR_RANGE_s
      else if c = ch CHR ''S'' then class_range s p CHAR_RANGE_S
      else if c = ch CHR ''w'' then class_range s p CHAR_RANGE_w
      else if c = ch CHR ''W'' then class_range s p CHAR_RANGE_W
      else if c = ch CHR ''c'' then control_escape s p inclass
      else if (c = ch CHR ''p'' \<or> c = ch CHR ''P'') \<and> re_is_utf16 s then
        andthen (parse_unicode_property s p (c = ch CHR ''P'')) (\<lambda>(cr, p, s). re_ok (CLASS_RANGE_BASE, Some cr, p, s))
      else other_escape s p c)"

definition get_class_atom :: "re_parse_state \<Rightarrow> nat \<Rightarrow> bool \<Rightarrow> atom_result re_result" where
  "get_class_atom s p inclass = (case rd (re_buf s) p of None \<Rightarrow> None
     | Some c \<Rightarrow>
         if c = 0x5C then
           if p + 1 \<ge> buf_end s then re_parse_error ''unexpected end''
           else (case rd (re_buf s) (p + 1) of None \<Rightarrow> None | Some c \<Rightarrow> escape_atom s (p + 2) c inclass)
         else if c = 0 \<and> p \<ge> buf_end s then re_parse_error ''unexpected end''
         else normal_char s p c)"

section \<open>Positions move forward\<close>

text \<open>Every accepted item ends behind its start and leaves the pattern alone.\<close>

lemma parse_digits_loop_ge:
  "parse_digits_loop buf p0 p a v = Some (r, q) \<Longrightarrow> p0 \<le> p \<Longrightarrow> (r \<ge> 0 \<longrightarrow> p \<le> q) \<and> p0 \<le> q"
proof (induction buf p0 p a v rule: parse_digits_loop.induct)
  case (1 buf p0 p a v)
  note loop = "1.prems"(1) [unfolded parse_digits_loop.simps [of buf p0 p a v]]
  have l: "p < length buf" using loop by (simp split: if_splits)
  show ?case
  proof (cases "is_digit (buf ! p)")
    case True
    then show ?thesis
      using loop "1.IH" [OF l] "1.prems"(2) l by (fastforce simp: Let_def split: if_splits)
  next
    case False
    then show ?thesis using loop l "1.prems"(2) by simp
  qed
qed

lemma hex_brace_ge: "hex_brace buf p c = Some (Some (d, q)) \<Longrightarrow> p < q"
proof (induction buf p c rule: hex_brace.induct)
  case (1 buf p c)
  note loop = "1.prems"(1) [unfolded hex_brace.simps [of buf p c]]
  have l: "p < length buf" using loop by (simp split: if_splits)
  from loop show ?case
    using "1.IH" [OF l refl _ refl] l by (fastforce simp: Let_def split: if_splits option.splits)
qed

lemma surrogate_pair_ge: "surrogate_pair buf p c = Some (d, q) \<Longrightarrow> p \<le> q"
  by (auto simp: surrogate_pair_def bind_eq_Some_conv split: if_splits option.splits)

lemma fixed_escape_ge: "fixed_escape buf p n u = Some (Some (d, q)) \<Longrightarrow> p + n \<le> q"
  by (auto simp: fixed_escape_def split: if_splits option.splits dest!: surrogate_pair_ge)

lemma hex_escape_ge:
  assumes "hex_escape buf p c u = Some (Some (d, q))"
  shows "p < q"
proof -
  from assms consider e where "hex_brace buf (p + 1) 0 = Some (Some (d, e))" "q = e + 1"
    | n where "fixed_escape buf p n u = Some (Some (d, q))" "0 < n"
    by (fastforce simp: hex_escape_def split: if_splits option.splits)
  then show ?thesis by cases (auto dest!: hex_brace_ge fixed_escape_ge)
qed

lemma octal_escape_ge: "octal_escape buf p c = Some (d, q) \<Longrightarrow> p \<le> q"
  by (auto simp: octal_escape_def bind_eq_Some_conv Let_def split: if_splits)

lemma lre_parse_escape_ge: "lre_parse_escape buf p u = Some (Esc_char c q) \<Longrightarrow> p < q"
  by (auto simp: lre_parse_escape_def bind_eq_Some_conv Let_def split: if_splits option.splits
      dest!: hex_escape_ge octal_escape_ge)

lemma utf8_cont_loop_ge: "utf8_cont_loop p k n c = Some (Some (d, q)) \<Longrightarrow> k \<le> q"
  by (induction p k n c rule: utf8_cont_loop.induct) (force split: option.splits if_splits)+

lemma unicode_from_utf8_ge: "unicode_from_utf8 p i l = Some (c, q) \<Longrightarrow> 0 \<le> c \<Longrightarrow> i < q"
  by (auto simp: unicode_from_utf8_def Let_def split: option.splits if_splits dest!: utf8_cont_loop_ge)

lemma property_name_ge: "property_name buf p name = Some (Some (n, q)) \<Longrightarrow> p \<le> q"
proof (induction buf p name rule: property_name.induct)
  case (1 buf p name)
  note loop = "1.prems"(1) [unfolded property_name.simps [of buf p name]]
  have l: "p < length buf" using loop by (simp split: if_splits)
  from loop show ?case using "1.IH" [OF l] l by (fastforce split: if_splits)
qed

text \<open>What a lexical function may change of the state: the counter of ranges.\<close>

definition same_but_ranges :: "re_parse_state \<Rightarrow> re_parse_state \<Rightarrow> bool" where
  "same_but_ranges s s' \<longleftrightarrow> (\<exists>n. s' = s\<lparr>range_count := n\<rparr>)"

lemma same_but_ranges_refl [simp]: "same_but_ranges s s"
  unfolding same_but_ranges_def by (rule exI [of _ "range_count s"]) simp

lemma same_but_ranges_trans: "same_but_ranges s t \<Longrightarrow> same_but_ranges t u \<Longrightarrow> same_but_ranges s u"
  by (auto simp: same_but_ranges_def)

lemma same_but_rangesD:
  assumes "same_but_ranges s s'"
  shows "re_buf s' = re_buf s" "buf_end s' = buf_end s" "buf_ptr s' = buf_ptr s" "byte_code s' = byte_code s"
    "capture_count s' = capture_count s" "group_names s' = group_names s" "re_is_utf16 s' = re_is_utf16 s"
    "re_ignore_case s' = re_ignore_case s"
  using assms by (auto simp: same_but_ranges_def buf_end_def)

lemma new_range_same: "new_range s = (cr, s') \<Longrightarrow> same_but_ranges s s'"
  by (auto simp: new_range_def same_but_ranges_def)

lemma property_end_ge:
  assumes "property_end s name v p i = Some (Inr (cr, q, s'))"
  shows "p < q \<and> same_but_ranges s s'"
proof -
  obtain cr0 s0 where n: "new_range s = (cr0, s0)" by fastforce
  from assms have "q = p + 1" "s' = s0"
    by (auto simp: property_end_def n andthen_Inr_iff split: if_splits option.splits prod.splits)
  then show ?thesis using new_range_same [OF n] by simp
qed

lemma property_value_ge: "property_value buf p = Some (Some (n, q)) \<Longrightarrow> p \<le> q"
  by (auto simp: property_value_def split: option.splits if_splits dest!: property_name_ge)

lemma parse_unicode_property_ge:
  "parse_unicode_property s p i = Some (Inr (cr, q, s')) \<Longrightarrow> p < q \<and> same_but_ranges s s'"
  by (auto simp: parse_unicode_property_def split: if_splits option.splits prod.splits
      dest!: property_end_ge property_value_ge property_name_ge)

lemma normal_char_ge: "normal_char s p c = Some (Inr (d, cr, q, s')) \<Longrightarrow> p < q \<and> s' = s"
  by (auto simp: normal_char_def split: if_splits option.splits dest: unicode_from_utf8_ge)

lemma class_range_ge: "class_range s p c = Some (Inr (d, cr, q, s')) \<Longrightarrow> q = p \<and> same_but_ranges s s'"
  by (auto simp: class_range_def split: prod.splits option.splits if_splits dest: new_range_same)

lemma control_escape_ge: "control_escape s p i = Some (Inr (d, cr, q, s')) \<Longrightarrow> p - 1 \<le> q \<and> s' = s"
  by (auto simp: control_escape_def invalid_escape_def split: if_splits option.splits)

lemma other_escape_ge:
  assumes "other_escape s p c = Some (Inr (d, cr, q, s'))"
  shows "p - 1 < q \<and> s' = s"
  using assms normal_char_ge [of s "p - 1" c d cr q s']
  by (auto simp: other_escape_def invalid_escape_def split: if_splits option.splits escape.splits
      dest: lre_parse_escape_ge)

lemma escape_atom_ge:
  assumes "escape_atom s p c i = Some (Inr (d, cr, q, s'))"
  shows "p - 1 \<le> q \<and> same_but_ranges s s'"
  using assms
  by (auto simp: escape_atom_def andthen_Inr_iff split: if_splits
      dest!: class_range_ge control_escape_ge parse_unicode_property_ge other_escape_ge)

lemma get_class_atom_ge:
  assumes "get_class_atom s p i = Some (Inr (c, cr, q, s'))"
  shows "p < q \<and> p < length (re_buf s) \<and> same_but_ranges s s'"
  using assms
  by (auto simp: get_class_atom_def rd_Some_iff split: if_splits option.splits
      dest!: escape_atom_ge normal_char_ge)

section \<open>Character classes\<close>

text \<open>The label \<open>class_atom\<close>: one atom into the set.  A marker without an initialised range is undefined
  behaviour of the code (it would read an uninitialised structure).\<close>

definition class_add :: "charrange \<Rightarrow> u32 \<Rightarrow> charrange option \<Rightarrow> charrange re_result" where
  "class_add cr c1 cr1 =
     (case (if c1 \<ge> CLASS_RANGE_BASE then (case cr1 of None \<Rightarrow> None | Some cr1 \<Rightarrow> cr_union1 cr (cr_pts cr1))
            else cr_union_interval cr c1 c1) of
        None \<Rightarrow> None
      | Some (r, cr) \<Rightarrow> if r \<noteq> 0 then re_parse_out_of_memory else re_ok cr)"

text \<open>\<open>cr_free\<close> of the range of an atom, undefined when it is not initialised.\<close>

definition freed :: "charrange option \<Rightarrow> 'a re_result \<Rightarrow> 'a re_result" where
  "freed cr m = (case cr of None \<Rightarrow> None | Some _ \<Rightarrow> m)"

lemma freed_Inr [simp]: "freed cr m = Some (Inr x) \<longleftrightarrow> cr \<noteq> None \<and> m = Some (Inr x)"
  by (auto simp: freed_def split: option.splits)

lemma freed_Inl [simp]: "freed cr m = Some (Inl e) \<longleftrightarrow> cr \<noteq> None \<and> m = Some (Inl e)"
  by (auto simp: freed_def split: option.splits)

text \<open>One round of the loop: an atom, or two atoms with a dash between them.\<close>

definition class_item :: "re_parse_state \<Rightarrow> charrange \<Rightarrow> nat \<Rightarrow> (charrange \<times> nat \<times> re_parse_state) re_result" where
  "class_item s cr p =
     andthen (get_class_atom s p True) (\<lambda>(c1, cr1, p, s).
       let single = (\<lambda>s. andthen (class_add cr c1 cr1) (\<lambda>cr. re_ok (cr, p, s))) in
       case rd (re_buf s) p of None \<Rightarrow> None
       | Some b \<Rightarrow>
           if b \<noteq> ch CHR ''-'' then single s
           else (case rd (re_buf s) (p + 1) of None \<Rightarrow> None
             | Some b1 \<Rightarrow>
                 if b1 = ch CHR '']'' then single s
                 else if c1 \<ge> CLASS_RANGE_BASE then
                   (if re_is_utf16 s then freed cr1 (re_parse_error ''invalid class range'') else single s)
                 else andthen (get_class_atom s (p + 1) True) (\<lambda>(c2, cr2, p0, s).
                   if c2 \<ge> CLASS_RANGE_BASE then
                     freed cr2 (if re_is_utf16 s then re_parse_error ''invalid class range'' else single s)
                   else if c2 < c1 then re_parse_error ''invalid class range''
                   else (case cr_union_interval cr c1 c2 of None \<Rightarrow> None
                     | Some (r, cr) \<Rightarrow> if r \<noteq> 0 then re_parse_out_of_memory else re_ok (cr, p0, s)))))"

lemma class_item_ge:
  "class_item s cr p = Some (Inr (cr', q, s')) \<Longrightarrow> p < q \<and> p < length (re_buf s) \<and> same_but_ranges s s'"
  unfolding class_item_def Let_def
  by (auto simp: andthen_Inr_iff split: if_splits option.splits prod.splits dest!: get_class_atom_ge
      dest: same_but_ranges_trans)

function class_loop :: "re_parse_state \<Rightarrow> charrange \<Rightarrow> nat \<Rightarrow> (charrange \<times> nat \<times> re_parse_state) re_result" where
  "class_loop s cr p = (case rd (re_buf s) p of None \<Rightarrow> None
     | Some b \<Rightarrow>
         if b = ch CHR '']'' then re_ok (cr, p, s)
         else andthen (class_item s cr p) (\<lambda>(cr, p, s). class_loop s cr p))"
  by pat_completeness auto
termination
  by (relation "measure (\<lambda>(s, cr, p). length (re_buf s) - p)")
    (auto dest!: class_item_ge same_but_rangesD(1))

declare class_loop.simps [simp del]

lemma class_loop_ge: "class_loop s cr p = Some (Inr (cr', q, s')) \<Longrightarrow> p \<le> q \<and> same_but_ranges s s'"
proof (induction s cr p rule: class_loop.induct)
  case (1 s cr p)
  note loop = "1.prems"(1) [unfolded class_loop.simps [of s cr p]]
  from loop obtain b where b: "rd (re_buf s) p = Some b" by (auto split: option.splits)
  show ?case
  proof (cases "b = ch CHR '']''")
    case True
    then show ?thesis using loop b by simp
  next
    case False
    then obtain cr1 p1 s1 where i: "class_item s cr p = Some (Inr (cr1, p1, s1))"
      "class_loop s1 cr1 p1 = Some (Inr (cr', q, s'))"
      using loop b by (auto simp: andthen_Inr_iff)
    then show ?thesis
      using "1.IH" [OF b False i(1) refl refl i(2)] class_item_ge [OF i(1)] same_but_ranges_trans by force
  qed
qed

text \<open>\<open>re_parse_char_class\<close> up to the emission of the range: the set after case folding and inversion, and the
  position of the closing bracket.\<close>

definition fold_class :: "re_parse_state \<Rightarrow> charrange \<Rightarrow> (charrange \<times> re_parse_state) re_result" where
  "fold_class s cr =
     (if re_ignore_case s then
        let (a, s) = new_range s in
        (case cr_canonicalize a cr of None \<Rightarrow> None
         | Some (r, cr) \<Rightarrow> if r \<noteq> 0 then re_parse_out_of_memory else re_ok (cr, s))
      else re_ok (cr, s))"

definition invert_class :: "charrange \<Rightarrow> bool \<Rightarrow> charrange re_result" where
  "invert_class cr invert =
     (if invert then (case cr_invert cr of None \<Rightarrow> None
        | Some (r, cr) \<Rightarrow> if r \<noteq> 0 then re_parse_out_of_memory else re_ok cr)
      else re_ok cr)"

definition char_class_set :: "re_parse_state \<Rightarrow> nat \<Rightarrow> (charrange \<times> nat \<times> re_parse_state) re_result" where
  "char_class_set s p = (let (cr, s) = new_range s in
     case rd (re_buf s) (p + 1) of None \<Rightarrow> None
     | Some b \<Rightarrow>
         let invert = (b = ch CHR ''^'') in
         andthen (class_loop s cr (if invert then p + 2 else p + 1)) (\<lambda>(cr, p, s).
         andthen (fold_class s cr) (\<lambda>(cr, s).
         andthen (invert_class cr invert) (\<lambda>cr. re_ok (cr, p, s)))))"

lemma fold_class_same: "fold_class s cr = Some (Inr (cr', s')) \<Longrightarrow> same_but_ranges s s'"
  by (auto simp: fold_class_def split: if_splits prod.splits option.splits dest: new_range_same)

lemma char_class_set_ge:
  assumes "char_class_set s p = Some (Inr (cr, q, s'))"
  shows "p < q \<and> same_but_ranges s s'"
proof -
  obtain cr0 s0 where n: "new_range s = (cr0, s0)" by fastforce
  from assms obtain b where b: "rd (re_buf s0) (p + 1) = Some b"
    by (auto simp: char_class_set_def n split: option.splits)
  let ?p = "if b = ch CHR ''^'' then p + 2 else p + 1"
  from assms b obtain cr1 s1 cr2 where
    l: "class_loop s0 cr0 ?p = Some (Inr (cr1, q, s1))" "fold_class s1 cr1 = Some (Inr (cr2, s'))"
    unfolding char_class_set_def n Let_def by (fastforce simp: andthen_Inr_iff simp del: of_char_Char)
  have "p < ?p" by simp
  then show ?thesis
    using class_loop_ge [OF l(1)] new_range_same [OF n] fold_class_same [OF l(2)] same_but_ranges_trans
    by (meson less_le_trans)
qed

section \<open>Group names\<close>

definition lre_id_start_table_ascii :: "u32 list" where
  "lre_id_start_table_ascii = [0x00000000, 0x00000010, 0x87FFFFFE, 0x07FFFFFE]"

definition lre_id_continue_table_ascii :: "u32 list" where
  "lre_id_continue_table_ascii = [0x00000000, 0x03FF0010, 0x87FFFFFE, 0x07FFFFFE]"

definition lre_js_is_ident_first :: "u32 \<Rightarrow> bool option" where
  "lre_js_is_ident_first c = (if c < 128
     then map_option (\<lambda>w. bit w (unat (c AND 31))) (rd lre_id_start_table_ascii (unat (drop_bit 5 c)))
     else lre_is_id_start c)"

definition lre_js_is_ident_next :: "u32 \<Rightarrow> bool option" where
  "lre_js_is_ident_next c = (if c < 128
     then map_option (\<lambda>w. bit w (unat (c AND 31))) (rd lre_id_continue_table_ascii (unat (drop_bit 5 c)))
     else map_option (\<lambda>b. b \<or> c = 0x200C \<or> c = 0x200D) (lre_is_id_continue c))"

text \<open>One character of a name: its value with the new position.  The values above \<open>0x10FFFF\<close>, which the caller
  rejects, are \<open>Some None\<close>, and so is the end of the name for lack of a \<open>u\<close>.\<close>

definition group_name_char :: "u8 list \<Rightarrow> nat \<Rightarrow> u8 \<Rightarrow> bool \<Rightarrow> (u32 \<times> nat) option option" where
  "group_name_char buf p c is_utf16 =
     (if c = 0x5C then (case rd buf (p + 1) of None \<Rightarrow> None
        | Some b \<Rightarrow> if b \<noteq> ch CHR ''u'' then Some None
            else (case lre_parse_escape buf (p + 1) (if is_utf16 then 2 else 0) of None \<Rightarrow> None
              | Some (Esc_char c p) \<Rightarrow> Some (if c > 0x10FFFF then None else Some (c, p))
              | Some ret \<Rightarrow> Some None))
      else if c \<ge> 128 then (case unicode_from_utf8 buf p (int UTF8_CHAR_LEN_MAX) of None \<Rightarrow> None
        | Some (c, p) \<Rightarrow> Some (if c < 0 \<or> c > 0x10FFFF then None else Some (word_of_int c, p)))
      else Some (Some (ucast c, p + 1)))"

lemma group_name_char_ge: "group_name_char buf p c u = Some (Some (d, q)) \<Longrightarrow> p < q"
  by (auto simp: group_name_char_def split: if_splits option.splits escape.splits prod.splits
      dest!: lre_parse_escape_ge unicode_from_utf8_ge)

text \<open>\<open>re_parse_group_name\<close> into a buffer of \<open>TMP_BUF_SIZE\<close> bytes; \<open>Some None\<close> is its error return.\<close>

function group_name_loop :: "u8 list \<Rightarrow> nat \<Rightarrow> bool \<Rightarrow> u8 list \<Rightarrow> (u8 list \<times> nat) option option" where
  "group_name_loop buf p is_utf16 q =
     (if p < length buf then
        if buf ! p = ch CHR ''>'' then Some (Some (q, p))
        else (case group_name_char buf p (buf ! p) is_utf16 of None \<Rightarrow> None
          | Some None \<Rightarrow> Some None
          | Some (Some (c, p)) \<Rightarrow>
              (case (if q = [] then lre_js_is_ident_first c else lre_js_is_ident_next c) of None \<Rightarrow> None
               | Some False \<Rightarrow> Some None
               | Some True \<Rightarrow>
                   if length q + UTF8_CHAR_LEN_MAX + 1 > TMP_BUF_SIZE then Some None
                   else group_name_loop buf p is_utf16 (q @ (if c < 128 then [ucast c] else unicode_to_utf8 c))))
      else None)"
  by pat_completeness auto
termination
  by (relation "measure (\<lambda>(buf, p, u, q). length buf - p)") (auto dest!: group_name_char_ge)

declare group_name_loop.simps [simp del]

definition re_parse_group_name :: "u8 list \<Rightarrow> nat \<Rightarrow> bool \<Rightarrow> (u8 list \<times> nat) option option" where
  "re_parse_group_name buf p is_utf16 = (case group_name_loop buf p is_utf16 [] of None \<Rightarrow> None
     | Some None \<Rightarrow> Some None
     | Some (Some (q, p)) \<Rightarrow> Some (if q = [] then None else Some (q, p + 1)))"

lemma group_name_loop_ge: "group_name_loop buf p u n = Some (Some (m, q)) \<Longrightarrow> p \<le> q"
proof (induction buf p u n rule: group_name_loop.induct)
  case (1 buf p u n)
  note loop = "1.prems"(1) [unfolded group_name_loop.simps [of buf p u n]]
  have l: "p < length buf" using loop by (simp split: if_splits)
  show ?case
  proof (cases "buf ! p = ch CHR ''>''")
    case True
    then show ?thesis using loop l by simp
  next
    case False
    then obtain c p1 where g: "group_name_char buf p (buf ! p) u = Some (Some (c, p1))"
      using loop l by (auto split: option.splits)
    then have "\<exists>n'. group_name_loop buf p1 u n' = Some (Some (m, q)) \<and> (group_name_loop buf p1 u n' = Some (Some (m, q)) \<longrightarrow> p1 \<le> q)"
      using loop l False "1.IH" [OF l False g refl] by (auto split: option.splits bool.splits if_splits)
    then show ?thesis using group_name_char_ge [OF g] by auto
  qed
qed

lemma re_parse_group_name_ge: "re_parse_group_name buf p u = Some (Some (m, q)) \<Longrightarrow> p < q"
  by (auto simp: re_parse_group_name_def split: option.splits if_splits dest!: group_name_loop_ge)

section \<open>Captures\<close>

text \<open>The inner loop of \<open>re_parse_captures\<close> over a class: the position it stops at.\<close>

function skip_class :: "re_parse_state \<Rightarrow> nat \<Rightarrow> nat option" where
  "skip_class s p =
     (if p < buf_end s then
        (case rd (re_buf s) p of None \<Rightarrow> None
         | Some b \<Rightarrow> if b = ch CHR '']'' then Some p
             else if b = 0x5C then skip_class s (p + 2) else skip_class s (p + 1))
      else Some p)"
  by pat_completeness auto
termination
  by (relation "measure (\<lambda>(s, p). buf_end s - p)") auto

declare skip_class.simps [simp del]

lemma skip_class_ge: "skip_class s p = Some q \<Longrightarrow> p \<le> q"
proof (induction s p rule: skip_class.induct)
  case (1 s p)
  note loop = "1.prems"(1) [unfolded skip_class.simps [of s p]]
  show ?case using loop "1.IH" by (fastforce split: if_splits option.splits)
qed

text \<open>What the scan does at an opening parenthesis: is it a capture, is it named, and where does the scan go on.
  With a name to look for, a named group is parsed; the scan then continues behind its \<open>>\<close>, and the increment of
  the loop skips one more character.\<close>

datatype paren = No_capture | Capture | Named_capture

definition paren_kind :: "u8 list \<Rightarrow> nat \<Rightarrow> paren option" where
  "paren_kind buf p = do {
     b1 \<leftarrow> rd buf (p + 1);
     if b1 \<noteq> ch CHR ''?'' then Some Capture
     else do {
       b2 \<leftarrow> rd buf (p + 2);
       if b2 \<noteq> ch CHR ''<'' then Some No_capture
       else do {
         b3 \<leftarrow> rd buf (p + 3);
         Some (if b3 = ch CHR ''='' \<or> b3 = ch CHR ''!'' then No_capture else Named_capture)
       }
     }
   }"

text \<open>\<open>re_parse_captures\<close>: the return value and the flag for named captures.\<close>

definition captures_done :: "u8 list option \<Rightarrow> int \<Rightarrow> int" where
  "captures_done capture_name capture_index = (if capture_name \<noteq> None then -1 else capture_index)"

function captures_loop :: "re_parse_state \<Rightarrow> u8 list option \<Rightarrow> nat \<Rightarrow> int \<Rightarrow> bool \<Rightarrow> (int \<times> bool) option" where
  "captures_loop s capture_name p capture_index named =
     (if p < buf_end s then
        (case rd (re_buf s) p of None \<Rightarrow> None
         | Some b \<Rightarrow>
             if b = ch CHR ''('' then
               (case paren_kind (re_buf s) p of None \<Rightarrow> None
                | Some No_capture \<Rightarrow> captures_loop s capture_name (p + 1) capture_index named
                | Some Capture \<Rightarrow>
                    if capture_index + 1 \<ge> int CAPTURE_COUNT_MAX
                    then Some (captures_done capture_name (capture_index + 1), named)
                    else captures_loop s capture_name (p + 1) (capture_index + 1) named
                | Some Named_capture \<Rightarrow>
                    (case (case capture_name of None \<Rightarrow> Some (False, p)
                           | Some name0 \<Rightarrow> (case re_parse_group_name (re_buf s) (p + 3) (re_is_utf16 s) of None \<Rightarrow> None
                               | Some None \<Rightarrow> Some (False, p + 3)
                               | Some (Some (name, q)) \<Rightarrow> Some (name = name0, q))) of
                       None \<Rightarrow> None
                     | Some (found, q) \<Rightarrow>
                         if found then Some (capture_index, True)
                         else if capture_index + 1 \<ge> int CAPTURE_COUNT_MAX
                         then Some (captures_done capture_name (capture_index + 1), True)
                         else captures_loop s capture_name (q + 1) (capture_index + 1) True))
             else if b = 0x5C then captures_loop s capture_name (p + 2) capture_index named
             else if b = ch CHR ''['' then
               (case skip_class s (p + 1) of None \<Rightarrow> None
                | Some q \<Rightarrow> captures_loop s capture_name (q + 1) capture_index named)
             else captures_loop s capture_name (p + 1) capture_index named)
      else Some (captures_done capture_name capture_index, named))"
  by pat_completeness auto
termination
  by (relation "measure (\<lambda>(s, n, p, i, f). buf_end s - p)")
    (auto split: option.splits dest!: skip_class_ge re_parse_group_name_ge)

declare captures_loop.simps [simp del]

definition re_parse_captures :: "re_parse_state \<Rightarrow> u8 list option \<Rightarrow> (int \<times> bool) option" where
  "re_parse_captures s capture_name = captures_loop s capture_name 0 1 False"

definition re_count_captures :: "re_parse_state \<Rightarrow> (int \<times> re_parse_state) option" where
  "re_count_captures s =
     (if total_capture_count s < 0 then do {
        (n, named) \<leftarrow> re_parse_captures s None;
        Some (n, s\<lparr>total_capture_count := n, has_named_captures := of_bool named\<rparr>)
      } else Some (total_capture_count s, s))"

definition re_has_named_captures :: "re_parse_state \<Rightarrow> (bool \<times> re_parse_state) option" where
  "re_has_named_captures s = do {
     s \<leftarrow> (if has_named_captures s < 0 then map_option snd (re_count_captures s) else Some s);
     Some (has_named_captures s \<noteq> 0, s)
   }"

text \<open>\<open>find_group_name\<close> over the names parsed so far, each with its terminating zero.\<close>

function find_name_loop :: "u8 list \<Rightarrow> nat \<Rightarrow> nat \<Rightarrow> u8 list \<Rightarrow> int \<Rightarrow> int option" where
  "find_name_loop m stop p name capture_index =
     (if p < stop then
        if \<not> terminated m p then None
        else if cstr m p = name then Some capture_index
        else find_name_loop m stop (p + length (cstr m p) + 1) name (capture_index + 1)
      else Some (-1))"
  by pat_completeness auto
termination
  by (relation "measure (\<lambda>(m, stop, p, n, i). stop - p)") auto

declare find_name_loop.simps [simp del]

definition find_group_name :: "re_parse_state \<Rightarrow> u8 list \<Rightarrow> int option" where
  "find_group_name s name =
     find_name_loop (db_buf (group_names s)) (db_size (group_names s)) 0 name 1"

end
