(* ===== verification/RegexSafe.thy ===== *)
theory RegexSafe
  imports RegexProps
begin

text \<open>
  Memory safety of the executor.  A program is well typed when there is a map \<open>D\<close> from program
  positions to value stack depths such that every position of the map holds an instruction whose
  operands lie inside the bytecode and whose successors are in the map with the depth the
  instruction leaves.  Execution of a well typed program never leaves the bytecode, the subject,
  the capture array, the value stack or the backtracking stack, never fails an assertion and
  never reaches \<open>abort\<close>, whatever the allocator does.
\<close>

section \<open>Well typed programs\<close>

text \<open>The body of \<open>REOP_simple_greedy_quant\<close>: straight line code that matches exactly \<open>k\<close> characters
  and ends with \<open>REOP_match\<close> (what \<open>re_is_simple_quantifier\<close> accepts).\<close>

inductive simple_atom :: "u8 list \<Rightarrow> int \<Rightarrow> nat \<Rightarrow> bool" for bc where
  sa_match: "rdi bc p = Some (reop_code REOP_match) \<Longrightarrow> simple_atom bc p 0"
| sa_line_start: "rdi bc p = Some (reop_code REOP_line_start) \<Longrightarrow> simple_atom bc (p + 1) k \<Longrightarrow>
    simple_atom bc p k"
| sa_line_end: "rdi bc p = Some (reop_code REOP_line_end) \<Longrightarrow> simple_atom bc (p + 1) k \<Longrightarrow>
    simple_atom bc p k"
| sa_word_boundary: "rdi bc p = Some (reop_code REOP_word_boundary) \<Longrightarrow>
    simple_atom bc (p + 1) k \<Longrightarrow> simple_atom bc p k"
| sa_not_word_boundary: "rdi bc p = Some (reop_code REOP_not_word_boundary) \<Longrightarrow>
    simple_atom bc (p + 1) k \<Longrightarrow> simple_atom bc p k"
| sa_dot: "rdi bc p = Some (reop_code REOP_dot) \<Longrightarrow> simple_atom bc (p + 1) k \<Longrightarrow>
    simple_atom bc p (Suc k)"
| sa_any: "rdi bc p = Some (reop_code REOP_any) \<Longrightarrow> simple_atom bc (p + 1) k \<Longrightarrow>
    simple_atom bc p (Suc k)"
| sa_char: "rdi bc p = Some (reop_code REOP_char) \<Longrightarrow> get_u16 bc (p + 1) = Some c \<Longrightarrow>
    simple_atom bc (p + 3) k \<Longrightarrow> simple_atom bc p (Suc k)"
| sa_char32: "rdi bc p = Some (reop_code REOP_char32) \<Longrightarrow> get_u32 bc (p + 1) = Some c \<Longrightarrow>
    simple_atom bc (p + 5) k \<Longrightarrow> simple_atom bc p (Suc k)"
| sa_range: "rdi bc p = Some (reop_code REOP_range) \<Longrightarrow> get_u16 bc (p + 1) = Some (of_nat n) \<Longrightarrow>
    range_table bc (p + 3) n L H \<Longrightarrow> simple_atom bc (p + 3 + 4 * int n) k \<Longrightarrow>
    simple_atom bc p (Suc k)"
| sa_range32: "rdi bc p = Some (reop_code REOP_range32) \<Longrightarrow> get_u16 bc (p + 1) = Some (of_nat n) \<Longrightarrow>
    range32_table bc (p + 3) n L H \<Longrightarrow> simple_atom bc (p + 3 + 8 * int n) k \<Longrightarrow>
    simple_atom bc p (Suc k)"

text \<open>The operands of a greedy quantifier at \<open>p\<close> (after the opcode): the continuation and the number
  of characters of the body.\<close>

definition quant_at :: "u8 list \<Rightarrow> int \<Rightarrow> int \<Rightarrow> nat \<Rightarrow> bool" where
  "quant_at bc p np k \<longleftrightarrow> 0 < k \<and> simple_atom bc (p + 16) k \<and>
     (\<exists>off qmin qmax cc. get_u32 bc p = Some off \<and> get_u32 bc (p + 4) = Some qmin \<and>
        get_u32 bc (p + 8) = Some qmax \<and> get_u32 bc (p + 12) = Some cc \<and>
        np = p + 16 + sint off \<and> unat cc = k)"

type_synonym depth_map = "int \<Rightarrow> nat option"

text \<open>\<open>op_ok s D p d op\<close>: the instruction \<open>op\<close> with operands at \<open>p\<close>, reached with depth \<open>d\<close>.\<close>

fun op_ok :: "re_exec_context \<Rightarrow> depth_map \<Rightarrow> int \<Rightarrow> nat \<Rightarrow> reop \<Rightarrow> bool" where
  "op_ok s D p d REOP_invalid = False"
| "op_ok s D p d REOP_match = True"
| "op_ok s D p d REOP_char = ((\<exists>c. get_u16 (rc_bc s) p = Some c) \<and> D (p + 2) = Some d)"
| "op_ok s D p d REOP_char32 = ((\<exists>c. get_u32 (rc_bc s) p = Some c) \<and> D (p + 4) = Some d)"
| "op_ok s D p d REOP_dot = (D p = Some d)"
| "op_ok s D p d REOP_any = (D p = Some d)"
| "op_ok s D p d REOP_line_start = (D p = Some d)"
| "op_ok s D p d REOP_line_end = (D p = Some d)"
| "op_ok s D p d REOP_word_boundary = (D p = Some d)"
| "op_ok s D p d REOP_not_word_boundary = (D p = Some d)"
| "op_ok s D p d REOP_prev = (D p = Some d)"
| "op_ok s D p d REOP_goto = (\<exists>off. get_u32 (rc_bc s) p = Some off \<and> D (p + 4 + sint off) = Some d)"
| "op_ok s D p d REOP_split_goto_first = (\<exists>off. get_u32 (rc_bc s) p = Some off \<and>
     D (p + 4) = Some d \<and> D (p + 4 + sint off) = Some d)"
| "op_ok s D p d REOP_split_next_first = (\<exists>off. get_u32 (rc_bc s) p = Some off \<and>
     D (p + 4) = Some d \<and> D (p + 4 + sint off) = Some d)"
| "op_ok s D p d REOP_lookahead = (\<exists>off. get_u32 (rc_bc s) p = Some off \<and>
     D (p + 4) = Some d \<and> D (p + 4 + sint off) = Some d)"
| "op_ok s D p d REOP_negative_lookahead = (\<exists>off. get_u32 (rc_bc s) p = Some off \<and>
     D (p + 4) = Some d \<and> D (p + 4 + sint off) = Some d)"
| "op_ok s D p d REOP_save_start = (\<exists>n. rdi (rc_bc s) p = Some n \<and> unat n < rc_capture_count s \<and>
     D (p + 1) = Some d)"
| "op_ok s D p d REOP_save_end = (\<exists>n. rdi (rc_bc s) p = Some n \<and> unat n < rc_capture_count s \<and>
     D (p + 1) = Some d)"
| "op_ok s D p d REOP_save_reset = (\<exists>m n. rdi (rc_bc s) p = Some m \<and> rdi (rc_bc s) (p + 1) = Some n \<and>
     unat n < rc_capture_count s \<and> D (p + 2) = Some d)"
| "op_ok s D p d REOP_push_i32 = ((\<exists>x. get_u32 (rc_bc s) p = Some x) \<and>
     d < rc_stack_size_max s \<and> D (p + 4) = Some (Suc d))"
| "op_ok s D p d REOP_push_char_pos = (d < rc_stack_size_max s \<and> D p = Some (Suc d))"
| "op_ok s D p d REOP_drop = (0 < d \<and> D p = Some (d - 1))"
| "op_ok s D p d REOP_loop = (\<exists>off. get_u32 (rc_bc s) p = Some off \<and> 0 < d \<and>
     D (p + 4) = Some d \<and> D (p + 4 + sint off) = Some d)"
| "op_ok s D p d REOP_bne_char_pos = (\<exists>off. get_u32 (rc_bc s) p = Some off \<and> 0 < d \<and>
     D (p + 4) = Some (d - 1) \<and> D (p + 4 + sint off) = Some (d - 1))"
| "op_ok s D p d REOP_back_reference = ((\<exists>n. rdi (rc_bc s) p = Some n) \<and> D (p + 1) = Some d)"
| "op_ok s D p d REOP_backward_back_reference =
     ((\<exists>n. rdi (rc_bc s) p = Some n) \<and> D (p + 1) = Some d)"
| "op_ok s D p d REOP_range = (\<exists>n L H. get_u16 (rc_bc s) p = Some (of_nat n) \<and>
     range_table (rc_bc s) (p + 2) n L H \<and> D (p + 2 + 4 * int n) = Some d)"
| "op_ok s D p d REOP_range32 = (\<exists>n L H. get_u16 (rc_bc s) p = Some (of_nat n) \<and>
     range32_table (rc_bc s) (p + 2) n L H \<and> D (p + 2 + 8 * int n) = Some d)"
| "op_ok s D p d REOP_simple_greedy_quant =
     (\<exists>np k. quant_at (rc_bc s) p np k \<and> D np = Some d)"

definition well_typed :: "re_exec_context \<Rightarrow> depth_map \<Rightarrow> bool" where
  "well_typed s D \<longleftrightarrow> (\<forall>p d. D p = Some d \<longrightarrow>
     (\<exists>op. rdi (rc_bc s) p = Some (reop_code op) \<and> op_ok s D (p + 1) d op))"

text \<open>The environment: \<open>int\<close> lengths, a header of bytes, and an allocator that cannot deliver more
  than \<open>2 ^ 62\<close> bytes.\<close>

definition env_ok :: "re_exec_context \<Rightarrow> bool" where
  "env_ok s \<longleftrightarrow> length (rc_cbuf s) < 2 ^ 31 \<and> rc_capture_count s \<le> 255 \<and>
     rc_stack_size_max s \<le> 255 \<and> (\<forall>n. rc_realloc s n \<longrightarrow> n \<le> 2 ^ 62)"

section \<open>The invariant\<close>

definition in_subject :: "re_exec_context \<Rightarrow> int \<Rightarrow> bool" where
  "in_subject s p \<longleftrightarrow> 0 \<le> p \<and> p \<le> int (length (rc_cbuf s))"

definition capture_ok :: "re_exec_context \<Rightarrow> int option list \<Rightarrow> bool" where
  "capture_ok s cap \<longleftrightarrow> length cap = 2 * rc_capture_count s \<and>
     (\<forall>x. Some x \<in> set cap \<longrightarrow> in_subject s x)"

definition mem_ok :: "re_exec_context \<Rightarrow> re_vars \<Rightarrow> bool" where
  "mem_ok s v \<longleftrightarrow> capture_ok s (v_capture v) \<and> length (v_stack v) = rc_stack_size_max s \<and>
     0 \<le> v_stack_len v \<and> v_stack_len v \<le> int (rc_stack_size_max s) \<and> in_subject s (v_cptr v)"

definition entry_ok :: "re_exec_context \<Rightarrow> depth_map \<Rightarrow> re_exec_state \<Rightarrow> bool" where
  "entry_ok s D rs \<longleftrightarrow> capture_ok s (rs_capture rs) \<and>
     length (rs_stack rs) = unat (rs_stack_len rs) \<and>
     unat (rs_stack_len rs) \<le> rc_stack_size_max s \<and> in_subject s (rs_cptr rs) \<and>
     (if rs_type rs = RE_EXEC_STATE_GREEDY_QUANT
      then rs_count rs \<noteq> 0 \<and> (\<exists>np k. quant_at (rc_bc s) (rs_pc rs) np k \<and>
        D np = Some (unat (rs_stack_len rs)) \<and>
        back_ok (rc_cbuf s) (rc_cbuf_type s) (unat (rs_count rs) * k) (rs_cptr rs))
      else D (rs_pc rs) = Some (unat (rs_stack_len rs)))"

definition alloc_ok :: "re_exec_context \<Rightarrow> re_vars \<Rightarrow> bool" where
  "alloc_ok s v \<longleftrightarrow> length (state_stack v) \<le> state_stack_size v \<and>
     state_stack_bytes v = state_stack_size v * state_size s \<and> state_stack_bytes v \<le> 2 ^ 62"

definition base_ok :: "re_exec_context \<Rightarrow> depth_map \<Rightarrow> re_vars \<Rightarrow> bool" where
  "base_ok s D v \<longleftrightarrow> mem_ok s v \<and> (\<forall>rs \<in> set (state_stack v). entry_ok s D rs) \<and> alloc_ok s v"

definition vars_ok :: "re_exec_context \<Rightarrow> depth_map \<Rightarrow> re_vars \<Rightarrow> bool" where
  "vars_ok s D v \<longleftrightarrow> base_ok s D v \<and> D (v_pc v) = Some (nat (v_stack_len v))"

definition step_ok :: "re_exec_context \<Rightarrow> depth_map \<Rightarrow> step_result option \<Rightarrow> bool" where
  "step_ok s D r \<longleftrightarrow> r \<noteq> None \<and> (\<forall>v. r = Some (Next v) \<longrightarrow> vars_ok s D v)"

lemma step_ok_simps [simp]:
  "step_ok s D (Some (Next v)) = vars_ok s D v"
  "step_ok s D (Some (Return r v))"
  "step_ok s D (Some Diverge)"
  "\<not> step_ok s D None"
  by (simp_all add: step_ok_def)

lemma base_ok_pc [simp]: "base_ok s D (v\<lparr>v_pc := p\<rparr>) = base_ok s D v"
  by (simp add: base_ok_def mem_ok_def alloc_ok_def)

lemma base_ok_cptr: "base_ok s D v \<Longrightarrow> in_subject s p \<Longrightarrow> base_ok s D (v\<lparr>v_cptr := p\<rparr>)"
  by (simp add: base_ok_def mem_ok_def alloc_ok_def)

lemma capture_ok_upd:
  assumes "capture_ok s cap" and "\<And>x. c = Some x \<Longrightarrow> in_subject s x"
  shows "capture_ok s (cap[i := c])"
  using assms set_update_subset_insert [of cap i c] by (auto simp: capture_ok_def)

lemma uint_le_int_iff [simp]: "uint (x :: 'a::len word) \<le> int n \<longleftrightarrow> unat x \<le> n"
  using of_nat_le_iff [of "unat x" n, where ?'a = int] by simp

lemma unat_le_255: "unat (b :: u8) \<le> 255"
  using unsigned_less [of b, where ?'a = nat] by simp

section \<open>Backtracking\<close>

lemma restore_stack_ok:
  assumes "entry_ok s D rs" and "length (v_stack v) = rc_stack_size_max s"
  obtains stk where "restore_stack rs v =
      Some (v\<lparr>v_stack := stk, v_stack_len := int (unat (rs_stack_len rs))\<rparr>)"
    and "length stk = rc_stack_size_max s"
proof -
  have "restore_stack rs v = Some (v\<lparr>v_stack := rs_stack rs @ drop (length (rs_stack rs)) (v_stack v),
      v_stack_len := int (unat (rs_stack_len rs))\<rparr>)"
    using assms by (simp add: restore_stack_def entry_ok_def rd_block_def wr_block_def)
  moreover have "length (rs_stack rs @ drop (length (rs_stack rs)) (v_stack v)) = rc_stack_size_max s"
    using assms by (simp add: entry_ok_def)
  ultimately show thesis by (rule that)
qed

lemma restore_capture_ok:
  assumes "entry_ok s D rs" and "capture_ok s (v_capture v)"
  shows "restore_capture s rs v = Some (v\<lparr>v_capture := rs_capture rs\<rparr>)"
  using assms
  by (simp add: restore_capture_def entry_ok_def capture_ok_def rd_block_def wr_block_def)

lemma pop_state1_ok:
  assumes "entry_ok s D rs" and "rs_type rs \<noteq> RE_EXEC_STATE_GREEDY_QUANT" and "mem_ok s v"
    and "alloc_ok s v" and "length rest \<le> length (state_stack v)" and "\<forall>r \<in> set rest. entry_ok s D r"
  shows "step_ok s D (pop_state1 rs rest v)"
proof -
  from assms(1,3) obtain stk where
    stk: "restore_stack rs v = Some (v\<lparr>v_stack := stk, v_stack_len := int (unat (rs_stack_len rs))\<rparr>)"
    "length stk = rc_stack_size_max s"
    by (auto simp: mem_ok_def elim: restore_stack_ok [of s D rs v])
  then show ?thesis
    using assms
    by (auto simp: pop_state1_def vars_ok_def base_ok_def mem_ok_def alloc_ok_def entry_ok_def)
qed

lemma pop_state_ok:
  assumes "entry_ok s D rs" and "rs_type rs \<noteq> RE_EXEC_STATE_GREEDY_QUANT" and "mem_ok s v"
    and "alloc_ok s v" and "length rest \<le> length (state_stack v)" and "\<forall>r \<in> set rest. entry_ok s D r"
  shows "step_ok s D (pop_state s rs rest v)"
proof -
  let ?v = "v\<lparr>v_capture := rs_capture rs\<rparr>"
  have "restore_capture s rs v = Some ?v"
    using restore_capture_ok [of s D rs v] assms by (simp add: mem_ok_def)
  moreover have "step_ok s D (pop_state1 rs rest ?v)"
    using assms by (intro pop_state1_ok) (auto simp: mem_ok_def alloc_ok_def entry_ok_def)
  ultimately show ?thesis by (simp add: pop_state_def)
qed

lemma pop_greedy_ok:
  assumes e: "entry_ok s D rs" and g: "rs_type rs = RE_EXEC_STATE_GREEDY_QUANT" and m: "mem_ok s v"
    and a: "alloc_ok s v" and l: "Suc (length rest) \<le> length (state_stack v)"
    and r: "\<forall>r \<in> set rest. entry_ok s D r"
  shows "step_ok s D (pop_greedy s rs rest v)"
proof -
  let ?cb = "rc_cbuf s" and ?t = "rc_cbuf_type s"
  from e g obtain np k where q: "quant_at (rc_bc s) (rs_pc rs) np k" "rs_count rs \<noteq> 0"
      "D np = Some (unat (rs_stack_len rs))" "back_ok ?cb ?t (unat (rs_count rs) * k) (rs_cptr rs)"
    by (auto simp: entry_ok_def)
  from q(1) obtain off cc where o: "get_u32 (rc_bc s) (rs_pc rs) = Some off"
      "get_u32 (rc_bc s) (rs_pc rs + 12) = Some cc" "np = rs_pc rs + 16 + sint off" "unat cc = k"
    by (auto simp: quant_at_def)
  have c: "unat (rs_count rs) = Suc (unat (rs_count rs - 1))"
    using q(2) unat_minus_one [OF q(2)] unsigned_eq_0_iff [of "rs_count rs", where ?'a = nat] by simp
  then have "unat (rs_count rs) * k = k + unat (rs_count rs - 1) * k" by simp
  with q(4) obtain p where p: "prev_chars ?cb ?t k (rs_cptr rs) = Some p"
      "back_ok ?cb ?t (unat (rs_count rs - 1) * k) p"
    by (auto elim: back_ok_split)
  have pin: "in_subject s p" using p(2) by (simp add: in_subject_def back_ok_def)
  let ?v = "v\<lparr>v_capture := rs_capture rs\<rparr>"
  have rc: "restore_capture s rs v = Some ?v"
    using restore_capture_ok [OF e] m by (simp add: mem_ok_def)
  have vl: "length (v_stack ?v) = rc_stack_size_max s" using m by (simp add: mem_ok_def)
  obtain stk where
    stk: "restore_stack rs ?v = Some (?v\<lparr>v_stack := stk, v_stack_len := int (unat (rs_stack_len rs))\<rparr>)"
      "length stk = rc_stack_size_max s"
    by (rule restore_stack_ok [OF e vl])
  let ?rs = "rs\<lparr>rs_cptr := p, rs_count := rs_count rs - 1\<rparr>"
  have re: "entry_ok s D ?rs" if "rs_count rs - 1 \<noteq> 0"
    using e g q(1,3) p(2) pin that by (auto simp: entry_ok_def)
  let ?st = "if rs_count rs - 1 = 0 then rest else ?rs # rest"
  let ?w = "?v\<lparr>v_stack := stk, v_stack_len := int (unat (rs_stack_len rs)), v_pc := np, v_cptr := p,
    state_stack := ?st\<rparr>"
  have eq: "pop_greedy s rs rest v = Some (Next ?w)"
    using rc stk(1) o p(1) by (simp add: pop_greedy_def Let_def)
  have "\<forall>r \<in> set ?st. entry_ok s D r" using re r by auto
  moreover have "mem_ok s ?w"
    using m e stk(2) pin by (simp add: mem_ok_def entry_ok_def)
  moreover have "alloc_ok s ?w" using a l by (auto simp: alloc_ok_def)
  ultimately show ?thesis using q(3) unfolding eq by (simp add: vars_ok_def base_ok_def)
qed

lemma unwind_ok:
  assumes "mem_ok s v" and "alloc_ok s v" and "length sts \<le> length (state_stack v)"
    and "\<forall>r \<in> set sts. entry_ok s D r"
  shows "step_ok s D (unwind s ret sts v)"
  using assms(3,4)
proof (induction sts arbitrary: ret)
  case (Cons rs rest)
  then have "step_ok s D (unwind s b rest v)" for b by simp
  with Cons.prems show ?case
    using assms(1,2) pop_state_ok [of s D rs v rest] pop_state1_ok [of s D rs v rest]
      pop_greedy_ok [of s D rs v rest]
    by (cases "rs_type rs") auto
qed simp

lemma no_match_ok: "base_ok s D v \<Longrightarrow> step_ok s D (no_match s False v)"
  by (simp add: no_match_def base_ok_def unwind_ok)

lemma push_state_ok:
  assumes b: "base_ok s D v" and env: "env_ok s" and c: "in_subject s cptr1"
    and t: "if type = RE_EXEC_STATE_GREEDY_QUANT
      then count \<noteq> 0 \<and> (\<exists>np k. quant_at (rc_bc s) pc1 np k \<and> D np = Some (nat (v_stack_len v)) \<and>
        back_ok (rc_cbuf s) (rc_cbuf_type s) (unat count * k) cptr1)
      else D pc1 = Some (nat (v_stack_len v))"
    and d: "D (v_pc v) = Some (nat (v_stack_len v))"
  shows "step_ok s D (push_and_continue s v pc1 cptr1 type count)"
proof -
  let ?len = "length (state_stack v)" and ?size = "state_stack_size v"
  let ?new = "max 8 (sz (?size * 3) div 2)"
  from b have m: "mem_ok s v" and a: "alloc_ok s v"
    and es: "\<forall>rs \<in> set (state_stack v). entry_ok s D rs" by (simp_all add: base_ok_def)
  have ss: "32 \<le> state_size s" "state_size s \<le> 2 ^ 13"
    using env by (simp_all add: state_size_def sizeof_REExecState_def env_ok_def)
  have bytes: "?size * state_size s \<le> 2 ^ 62" using a by (simp add: alloc_ok_def)
  have "?size * 32 \<le> ?size * state_size s" using ss by simp
  also note bytes
  finally have "?size * 32 \<le> 2 ^ 62" .
  then have "?size * 3 < SIZE_MOD" by (simp add: SIZE_MOD_def)
  then have three: "sz (?size * 3) = ?size * 3" by simp
  then have new: "?new = max 8 (?size * 3 div 2)" by simp
  have "?size * 3 div 2 * state_size s \<le> ?size * 2 * state_size s"
    by (intro mult_right_mono) simp_all
  also have "?size * 2 * state_size s \<le> 2 ^ 63" using bytes by simp
  finally have "?size * 3 div 2 * state_size s \<le> 2 ^ 63" .
  with ss(2) have "?new * state_size s \<le> 2 ^ 63" by (simp add: three max_def)
  then have nb: "sz (?new * state_size s) = ?new * state_size s" by (simp add: SIZE_MOD_def)
  let ?full = "?len + 1 > ?size"
  let ?v = "if ?full then v\<lparr>state_stack_size := ?new, state_stack_bytes := ?new * state_size s\<rparr> else v"
  have ln: "?len + 1 \<le> state_stack_size ?v"
    using a by (auto simp: three alloc_ok_def max_def)
  show ?thesis
  proof (cases "?full \<and> \<not> rc_realloc s (?new * state_size s)")
    case True
    then show ?thesis by (simp add: push_and_continue_def push_state_def Let_def nb)
  next
    case False
    have al: "state_stack_bytes ?v = state_stack_size ?v * state_size s" "state_stack_bytes ?v \<le> 2 ^ 62"
      using a False env by (auto simp: alloc_ok_def env_ok_def)
    then have room: "(?len + 1) * state_size s \<le> state_stack_bytes ?v"
      using ln by (metis mult_le_mono1)
    let ?e = "\<lparr>rs_type = type, rs_stack_len = of_int (v_stack_len v), rs_count = count,
      rs_cptr = cptr1, rs_pc = pc1, rs_capture = v_capture v,
      rs_stack = take (nat (v_stack_len v)) (v_stack v)\<rparr>"
    have sl: "unat (of_int (v_stack_len v) :: u8) = nat (v_stack_len v)"
    proof -
      have "v_stack_len v < 256" "0 \<le> v_stack_len v" using m env by (auto simp: mem_ok_def env_ok_def)
      then have "uint (of_int (v_stack_len v) :: u8) = v_stack_len v"
        by (simp add: uint_word_of_int)
      then show ?thesis by (simp only: unat_eq_nat_uint)
    qed
    define w where "w = ?v"
    have fields: "v_stack_len w = v_stack_len v" "v_capture w = v_capture v" "v_stack w = v_stack v"
      "state_stack w = state_stack v" "v_cptr w = v_cptr v" "v_pc w = v_pc v"
      by (simp_all add: w_def)
    have ok: "\<not> (v_stack_len w < 0 \<or> (?len + 1) * state_size s > state_stack_bytes w \<or>
        v_stack_len w > int (rc_stack_size_max s))"
      using m room [folded w_def] by (simp add: fields mem_ok_def)
    have "push_state s v pc1 cptr1 type count = Some (0, w\<lparr>state_stack := ?e # state_stack v\<rparr>)"
      unfolding push_state_def Let_def nb if_not_P [OF False] w_def [symmetric] if_not_P [OF ok]
      using m by (auto simp: fields mem_ok_def capture_ok_def rd_block_def)
    moreover have "entry_ok s D ?e"
      using m c t sl by (auto simp: entry_ok_def mem_ok_def min_def)
    moreover have "vars_ok s D (w\<lparr>state_stack := ?e # state_stack v\<rparr>)"
      using calculation(2) m es al [folded w_def] ln [folded w_def] d
      by (simp add: vars_ok_def base_ok_def mem_ok_def alloc_ok_def fields)
    ultimately show ?thesis by (simp add: push_and_continue_def)
  qed
qed

section \<open>The body of a simple quantifier\<close>

definition atom_post :: "re_exec_context \<Rightarrow> nat \<Rightarrow> re_vars \<Rightarrow> run_result \<Rightarrow> bool" where
  "atom_post s n v r = (case r of
     Fault \<Rightarrow> False
   | Out_of_fuel \<Rightarrow> True
   | Returned x v' \<Rightarrow> (\<exists>p c. v' = v\<lparr>v_pc := p, v_cptr := c\<rparr>) \<and>
       (x = Ret_int 0 \<or> (\<exists>q. x = Ret_ptr q \<and> chars_done (rc_cbuf s) (rc_cbuf_type s) n q)))"

definition atom_step :: "re_exec_context \<Rightarrow> int \<Rightarrow> nat \<Rightarrow> re_vars \<Rightarrow> step_result option \<Rightarrow> bool" where
  "atom_step s p n v r \<longleftrightarrow>
     (\<exists>p' c. r = Some (Return (Ret_int 0) (v\<lparr>v_pc := p', v_cptr := c\<rparr>))) \<or>
     (\<exists>c. r = Some (Next (v\<lparr>v_pc := p, v_cptr := c\<rparr>)) \<and>
        chars_done (rc_cbuf s) (rc_cbuf_type s) n c)"

lemma atom_step_fail [simp]:
  "atom_step s p n v (Some (Return (Ret_int 0) (v\<lparr>v_pc := p', v_cptr := c\<rparr>)))"
  by (auto simp: atom_step_def)

lemma atom_step_fail_pc [simp]: "atom_step s p n v (Some (Return (Ret_int 0) (v\<lparr>v_pc := p'\<rparr>)))"
  unfolding atom_step_def by (rule disjI1, rule exI [of _ p'], rule exI [of _ "v_cptr v"]) simp

lemma vars_upd_swap: "v\<lparr>v_cptr := c, v_pc := p\<rparr> = v\<lparr>v_pc := p, v_cptr := c\<rparr>"
  by simp

lemma atom_step_next:
  "chars_done (rc_cbuf s) (rc_cbuf_type s) n c \<Longrightarrow>
   atom_step s p n v (Some (Next (v\<lparr>v_pc := p, v_cptr := c\<rparr>)))"
  by (auto simp: atom_step_def)

lemma atom_step_stay:
  "chars_done (rc_cbuf s) (rc_cbuf_type s) n (v_cptr v) \<Longrightarrow>
   atom_step s p n v (Some (Next (v\<lparr>v_pc := p\<rparr>)))"
  unfolding atom_step_def by (rule disjI2, rule exI [of _ "v_cptr v"]) simp

lemma chars_done_bounds:
  "chars_done cbuf t n p \<Longrightarrow> 0 \<le> p \<and> p \<le> int (length cbuf)"
  by (simp add: chars_done_def back_ok_def)

text \<open>Reading the next character in the middle of the subject.\<close>

lemma next_char:
  assumes "chars_done (rc_cbuf s) (rc_cbuf_type s) n p" and "p \<noteq> cbuf_end s"
  obtains c q where "GET_CHAR (rc_cbuf s) (rc_cbuf_type s) p (cbuf_end s) = Some (c, q)"
    and "chars_done (rc_cbuf s) (rc_cbuf_type s) (Suc n) q" and "c < 0x110000"
proof -
  have p: "0 \<le> p" "p < int (length (rc_cbuf s))"
    using chars_done_bounds [OF assms(1)] assms(2) by (auto simp: cbuf_end_def)
  obtain c q where g: "GET_CHAR (rc_cbuf s) (rc_cbuf_type s) p (cbuf_end s) = Some (c, q)"
    unfolding cbuf_end_def by (rule GET_CHAR_in [OF p order_refl])
  with chars_done_step [OF assms(1)] GET_CHAR_less that show thesis
    by (fastforce simp: cbuf_end_def)
qed

lemma test_char_atom:
  assumes "chars_done (rc_cbuf s) (rc_cbuf_type s) n (v_cptr v)"
  shows "atom_step s p (Suc n) v (test_char s True (v\<lparr>v_pc := p\<rparr>) val)"
proof (cases "v_cptr v \<ge> cbuf_end s")
  case True
  then show ?thesis by (simp add: test_char_def no_match_def)
next
  case False
  then have "v_cptr v \<noteq> cbuf_end s" by simp
  with assms obtain c q where g: "GET_CHAR (rc_cbuf s) (rc_cbuf_type s) (v_cptr v) (cbuf_end s) = Some (c, q)"
    "chars_done (rc_cbuf s) (rc_cbuf_type s) (Suc n) q" "c < 0x110000"
    by (rule next_char)
  obtain c' where "canonicalize_if s c = Some c'" by (rule canonicalize_if_Some [OF g(3)])
  with False g atom_step_next [OF g(2), of p v] show ?thesis
    by (simp add: test_char_def no_match_def Let_def)
qed

lemma step_any_atom:
  assumes "chars_done (rc_cbuf s) (rc_cbuf_type s) n (v_cptr v)"
  shows "atom_step s p (Suc n) v (step_any s True (v\<lparr>v_pc := p\<rparr>) bad)"
proof (cases "v_cptr v = cbuf_end s")
  case True
  then show ?thesis by (simp add: step_any_def no_match_def)
next
  case False
  with assms obtain c q where g: "GET_CHAR (rc_cbuf s) (rc_cbuf_type s) (v_cptr v) (cbuf_end s) = Some (c, q)"
    "chars_done (rc_cbuf s) (rc_cbuf_type s) (Suc n) q"
    by (rule next_char)
  with False atom_step_next [OF g(2), of p v] show ?thesis
    by (simp add: step_any_def no_match_def Let_def)
qed

lemma step_range_atom:
  assumes d: "chars_done (rc_cbuf s) (rc_cbuf_type s) n (v_cptr v)"
    and m: "get_u16 (rc_bc s) p = Some (of_nat m)" "m < 2 ^ 16"
    and t: "\<And>c. \<exists>r. test (rc_bc s) (p + 2) (of_nat m) c = Some r"
  shows "atom_step s (p + 2 + e * int m) (Suc n) v (step_range s True (v\<lparr>v_pc := p\<rparr>) test e)"
proof (cases "v_cptr v \<ge> cbuf_end s")
  case True
  then show ?thesis by (simp add: step_range_def no_match_def m)
next
  case False
  then have "v_cptr v \<noteq> cbuf_end s" by simp
  with d obtain c q where g: "GET_CHAR (rc_cbuf s) (rc_cbuf_type s) (v_cptr v) (cbuf_end s) = Some (c, q)"
    "chars_done (rc_cbuf s) (rc_cbuf_type s) (Suc n) q" "c < 0x110000"
    by (rule next_char)
  obtain c' where c': "canonicalize_if s c = Some c'" by (rule canonicalize_if_Some [OF g(3)])
  obtain r where r: "test (rc_bc s) (p + 2) (of_nat m) c' = Some r" using t by blast
  have um: "uint (of_nat m :: u32) = int m" using uint_scale [OF m(2), of 1 0] by simp
  show ?thesis
    using False g c' r um m(1) atom_step_next [OF g(2), of "p + 2 + e * int m" v]
    by (simp add: step_range_def no_match_def Let_def vars_upd_swap)
qed

lemma peek_in:
  assumes "0 \<le> p" and "p \<le> int (length (rc_cbuf s))"
  shows "p \<noteq> cbuf_end s \<Longrightarrow> \<exists>c. PEEK_CHAR (rc_cbuf s) (rc_cbuf_type s) p (cbuf_end s) = Some c"
    and "p \<noteq> 0 \<Longrightarrow> \<exists>c. PEEK_PREV_CHAR (rc_cbuf s) (rc_cbuf_type s) p 0 = Some c"
proof -
  show "\<exists>c. PEEK_CHAR (rc_cbuf s) (rc_cbuf_type s) p (cbuf_end s) = Some c" if "p \<noteq> cbuf_end s"
    using assms that GET_CHAR_in [of p "rc_cbuf s" "cbuf_end s" "rc_cbuf_type s"]
    by (fastforce simp: PEEK_CHAR_GET cbuf_end_def)
  show "\<exists>c. PEEK_PREV_CHAR (rc_cbuf s) (rc_cbuf_type s) p 0 = Some c" if "p \<noteq> 0"
    using assms that GET_PREV_CHAR_in [of p "rc_cbuf s" 0 "rc_cbuf_type s"]
    by (fastforce simp: PEEK_PREV_CHAR_GET)
qed

text \<open>The anchors either fail or continue at the same position.\<close>

lemma anchor_cases:
  assumes "0 \<le> v_cptr v" and "v_cptr v \<le> int (length (rc_cbuf s))"
  shows "step_line_start s nr v \<in> {no_match s nr v, Some (Next v)}"
    and "step_line_end s nr v \<in> {no_match s nr v, Some (Next v)}"
    and "step_word_boundary s nr v neg \<in> {no_match s nr v, Some (Next v)}"
proof -
  note p = peek_in [OF assms]
  show "step_line_start s nr v \<in> {no_match s nr v, Some (Next v)}"
    using p(2) by (auto simp: step_line_start_def)
  show "step_line_end s nr v \<in> {no_match s nr v, Some (Next v)}"
    using p(1) by (auto simp: step_line_end_def)
  obtain v1 where "word_char_before s (v_cptr v) = Some v1"
    using p(2) by (cases "v_cptr v = 0") (auto simp: word_char_before_def)
  moreover obtain v2 where "word_char_at s (v_cptr v) = Some v2"
    using p(1) by (cases "v_cptr v \<ge> cbuf_end s") (auto simp: word_char_at_def)
  ultimately show "step_word_boundary s nr v neg \<in> {no_match s nr v, Some (Next v)}"
    by (simp add: step_word_boundary_def)
qed

lemma anchor_atom:
  assumes "chars_done (rc_cbuf s) (rc_cbuf_type s) n (v_cptr v)"
  shows "atom_step s p n v (step_line_start s True (v\<lparr>v_pc := p\<rparr>))"
    and "atom_step s p n v (step_line_end s True (v\<lparr>v_pc := p\<rparr>))"
    and "atom_step s p n v (step_word_boundary s True (v\<lparr>v_pc := p\<rparr>) neg)"
proof -
  have b: "0 \<le> v_cptr (v\<lparr>v_pc := p\<rparr>)" "v_cptr (v\<lparr>v_pc := p\<rparr>) \<le> int (length (rc_cbuf s))"
    using chars_done_bounds [OF assms] by simp_all
  have c: "r \<in> {no_match s True (v\<lparr>v_pc := p\<rparr>), Some (Next (v\<lparr>v_pc := p\<rparr>))} \<Longrightarrow> atom_step s p n v r" for r
    using atom_step_stay [OF assms] by (auto simp: no_match_def)
  show "atom_step s p n v (step_line_start s True (v\<lparr>v_pc := p\<rparr>))"
    by (rule c, rule anchor_cases(1) [OF b])
  show "atom_step s p n v (step_line_end s True (v\<lparr>v_pc := p\<rparr>))"
    by (rule c, rule anchor_cases(2) [OF b])
  show "atom_step s p n v (step_word_boundary s True (v\<lparr>v_pc := p\<rparr>) neg)"
    by (rule c, rule anchor_cases(3) [OF b])
qed

lemma atom_run_step:
  assumes b: "rdi (rc_bc s) p = Some (reop_code op)" and pc: "v_pc v = p"
    and st: "\<And>k rec. atom_step s p' n v (exec_op k rec s True (v\<lparr>v_pc := p + 1\<rparr>) op)"
    and next1: "\<And>c fuel. chars_done (rc_cbuf s) (rc_cbuf_type s) n c \<Longrightarrow>
      atom_post s m (v\<lparr>v_pc := p', v_cptr := c\<rparr>)
        (lre_exec_backtrack fuel s True (v\<lparr>v_pc := p', v_cptr := c\<rparr>))"
  shows "atom_post s m v (lre_exec_backtrack fuel s True v)"
proof (cases fuel)
  case 0
  then show ?thesis by (simp add: atom_post_def)
next
  case (Suc k)
  let ?r = "exec_op k (\<lambda>v. lre_exec_backtrack k s True v) s True (v\<lparr>v_pc := p + 1\<rparr>) op"
  have e: "exec_step k (\<lambda>v. lre_exec_backtrack k s True v) s True v = ?r"
    using b pc by (simp add: exec_step_def)
  from st [of k "\<lambda>v. lre_exec_backtrack k s True v"] consider
      (fail) q c where "?r = Some (Return (Ret_int 0) (v\<lparr>v_pc := q, v_cptr := c\<rparr>))"
    | (next1) c where "?r = Some (Next (v\<lparr>v_pc := p', v_cptr := c\<rparr>))"
        "chars_done (rc_cbuf s) (rc_cbuf_type s) n c"
    unfolding atom_step_def by blast
  then show ?thesis
  proof cases
    case fail
    then show ?thesis unfolding Suc by (auto simp: e atom_post_def)
  next
    case next1
    have "atom_post s m (v\<lparr>v_pc := p', v_cptr := c\<rparr>)
        (lre_exec_backtrack k s True (v\<lparr>v_pc := p', v_cptr := c\<rparr>))"
      using assms(4) next1(2) by blast
    then show ?thesis
      unfolding Suc using next1(1) by (auto simp: e atom_post_def split: run_result.splits)
  qed
qed

lemma atom_run:
  assumes "simple_atom (rc_bc s) p k" and "v_pc v = p"
    and "chars_done (rc_cbuf s) (rc_cbuf_type s) n (v_cptr v)"
  shows "atom_post s (n + k) v (lre_exec_backtrack fuel s True v)"
  using assms
proof (induction arbitrary: v n fuel rule: simple_atom.induct)
  case (sa_match p)
  show ?case
  proof (cases fuel)
    case (Suc k)
    have "v = v\<lparr>v_pc := p, v_cptr := v_cptr v\<rparr>" using sa_match by simp
    then have "\<exists>q c. v\<lparr>v_pc := v_pc v + 1\<rparr> = v\<lparr>v_pc := q, v_cptr := c\<rparr>"
      by (intro exI [of _ "v_pc v + 1"] exI [of _ "v_cptr v"]) simp
    with Suc sa_match show ?thesis by (simp add: exec_step_def step_match_def atom_post_def)
  qed (simp add: atom_post_def)
next
  case (sa_line_start p k)
  show ?case
    by (rule atom_run_step [OF sa_line_start(1,4), of "p + 1" n])
      (use sa_line_start anchor_atom in auto)
next
  case (sa_line_end p k)
  show ?case
    by (rule atom_run_step [OF sa_line_end(1,4), of "p + 1" n])
      (use sa_line_end anchor_atom in auto)
next
  case (sa_word_boundary p k)
  show ?case
    by (rule atom_run_step [OF sa_word_boundary(1,4), of "p + 1" n])
      (use sa_word_boundary anchor_atom in auto)
next
  case (sa_not_word_boundary p k)
  show ?case
    by (rule atom_run_step [OF sa_not_word_boundary(1,4), of "p + 1" n])
      (use sa_not_word_boundary anchor_atom in auto)
next
  case (sa_dot p k)
  have "atom_post s (Suc n + k) v (lre_exec_backtrack fuel s True v)"
    by (rule atom_run_step [OF sa_dot(1,4), of "p + 1" "Suc n"])
      (use sa_dot(2) step_any_atom [OF sa_dot(5)] sa_dot(3) [of _ "Suc n"] in auto)
  then show ?case by simp
next
  case (sa_any p k)
  have "atom_post s (Suc n + k) v (lre_exec_backtrack fuel s True v)"
    by (rule atom_run_step [OF sa_any(1,4), of "p + 1" "Suc n"])
      (use sa_any(2) step_any_atom [OF sa_any(5)] sa_any(3) [of _ "Suc n"] in auto)
  then show ?case by simp
next
  case (sa_char p c k)
  have "atom_post s (Suc n + k) v (lre_exec_backtrack fuel s True v)"
    by (rule atom_run_step [OF sa_char(1,5), of "p + 3" "Suc n"])
      (use sa_char(2) test_char_atom [OF sa_char(6), of "p + 3" c] sa_char(4) [of _ "Suc n"] in \<open>auto simp: ac_simps\<close>)
  then show ?case by simp
next
  case (sa_char32 p c k)
  have "atom_post s (Suc n + k) v (lre_exec_backtrack fuel s True v)"
    by (rule atom_run_step [OF sa_char32(1,5), of "p + 5" "Suc n"])
      (use sa_char32(2) test_char_atom [OF sa_char32(6), of "p + 5" c] sa_char32(4) [of _ "Suc n"] in \<open>auto simp: ac_simps\<close>)
  then show ?case by simp
next
  case (sa_range p m L H k)
  have "m < 2 ^ 16" using sa_range(3) by (simp add: range_table_def)
  moreover have "\<exists>r. range_test (rc_bc s) (p + 1 + 2) (of_nat m) c = Some r" for c
    using range_test_spec [OF sa_range(3)] by (auto simp: ac_simps)
  ultimately have "atom_step s (p + 3 + 4 * int m) (Suc n) v
      (step_range s True (v\<lparr>v_pc := p + 1\<rparr>) range_test 4)"
    using step_range_atom [OF sa_range(7,2), of range_test 4] by (simp add: ac_simps)
  then have "atom_post s (Suc n + k) v (lre_exec_backtrack fuel s True v)"
    by (intro atom_run_step [OF sa_range(1,6), of "p + 3 + 4 * int m" "Suc n"])
      (use sa_range(5) [of _ "Suc n"] in auto)
  then show ?case by simp
next
  case (sa_range32 p m L H k)
  have "m < 2 ^ 16" using sa_range32(3) by (simp add: range32_table_def)
  moreover have "\<exists>r. range32_test (rc_bc s) (p + 1 + 2) (of_nat m) c = Some r" for c
    using range32_test_spec [OF sa_range32(3)] by (auto simp: ac_simps)
  ultimately have "atom_step s (p + 3 + 8 * int m) (Suc n) v
      (step_range s True (v\<lparr>v_pc := p + 1\<rparr>) range32_test 8)"
    using step_range_atom [OF sa_range32(7,2), of range32_test 8] by (simp add: ac_simps)
  then have "atom_post s (Suc n + k) v (lre_exec_backtrack fuel s True v)"
    by (intro atom_run_step [OF sa_range32(1,6), of "p + 3 + 8 * int m" "Suc n"])
      (use sa_range32(5) [of _ "Suc n"] in auto)
  then show ?case by simp
qed

lemma back_ok_le: "back_ok cbuf t n p \<Longrightarrow> int n \<le> p"
proof (induction n arbitrary: p)
  case (Suc n)
  then have "back_ok cbuf t (1 + n) p" by simp
  then obtain q where q: "prev_chars cbuf t 1 p = Some q" "back_ok cbuf t n q" by (rule back_ok_split)
  then have "PREV_CHAR cbuf t p 0 = Some q" by (simp add: bind_Some_iff)
  with Suc.IH [OF q(2)] PREV_CHAR_less [of cbuf t p 0 q] show ?case by simp
qed (simp add: back_ok_def)

lemma quant_loop_ok:
  assumes "simple_atom (rc_bc s) pc1 k"
    and "chars_done (rc_cbuf s) (rc_cbuf_type s) (m * k) (v_cptr v)"
  shows "\<exists>r. quant_loop fuel (\<lambda>v. lre_exec_backtrack kk s True v) pc1 qmax v (of_nat m) = Some r \<and>
    (r = None \<or> (\<exists>m' c. r = Some (Some (of_nat m'), v\<lparr>v_cptr := c\<rparr>) \<and>
      chars_done (rc_cbuf s) (rc_cbuf_type s) (m' * k) c))"
  using assms(2)
proof (induction fuel arbitrary: v m)
  case (Suc fuel)
  let ?r = "lre_exec_backtrack kk s True (v\<lparr>v_pc := pc1\<rparr>)"
  have p: "atom_post s (m * k + k) (v\<lparr>v_pc := pc1\<rparr>) ?r"
    using Suc.prems by (intro atom_run [OF assms(1)]) simp_all
  have stay: "\<exists>m' c. Some (Some (of_nat m), v) = Some (Some (of_nat m'), v\<lparr>v_cptr := c\<rparr>) \<and>
      chars_done (rc_cbuf s) (rc_cbuf_type s) (m' * k) c"
    using Suc.prems by (intro exI [of _ m] exI [of _ "v_cptr v"]) simp
  show ?case
  proof (cases ?r)
    case (Returned x v')
    with p obtain q c where v': "v' = v\<lparr>v_pc := q, v_cptr := c\<rparr>" by (auto simp: atom_post_def)
    from p Returned consider "x = Ret_int 0"
      | e where "x = Ret_ptr e" "chars_done (rc_cbuf s) (rc_cbuf_type s) (m * k + k) e"
      by (auto simp: atom_post_def)
    then show ?thesis
    proof cases
      case 1
      then show ?thesis using stay by (simp add: Returned v')
    next
      case 2
      have d: "chars_done (rc_cbuf s) (rc_cbuf_type s) (Suc m * k) (v_cptr (v\<lparr>v_cptr := e\<rparr>))"
        using 2(2) by (simp add: ac_simps)
      let ?w = "v\<lparr>v_cptr := e\<rparr>" and ?q = "of_nat (Suc m) :: u64"
      have eq: "quant_loop (Suc fuel) (\<lambda>v. lre_exec_backtrack kk s True v) pc1 qmax v (of_nat m) =
        (if ?q \<ge> ucast qmax \<and> qmax \<noteq> 0x7fffffff then Some (Some (Some ?q, ?w))
         else quant_loop fuel (\<lambda>v. lre_exec_backtrack kk s True v) pc1 qmax ?w ?q)"
        by (simp add: Returned 2(1) v' Let_def ac_simps)
      have "\<exists>m' c. Some (Some ?q, ?w) = Some (Some (of_nat m'), v\<lparr>v_cptr := c\<rparr>) \<and>
          chars_done (rc_cbuf s) (rc_cbuf_type s) (m' * k) c"
        using d by (intro exI [of _ "Suc m"] exI [of _ e]) simp
      with Suc.IH [OF d] show ?thesis unfolding eq by simp
    qed
  next
    case Out_of_fuel
    then show ?thesis by simp
  next
    case Fault
    with p show ?thesis by (simp add: atom_post_def)
  qed
qed simp

section \<open>Every instruction keeps the invariant\<close>

lemma step_quant_ok:
  assumes b: "base_ok s D v" and env: "env_ok s"
    and q: "quant_at (rc_bc s) (v_pc v) np k" and d: "D np = Some (nat (v_stack_len v))"
  shows "step_ok s D (step_quant fuel (\<lambda>v. lre_exec_backtrack kk s True v) s False v)"
proof -
  let ?cb = "rc_cbuf s" and ?t = "rc_cbuf_type s" and ?p = "v_pc v"
  from q obtain off qmin qmax cc where o: "get_u32 (rc_bc s) ?p = Some off"
      "get_u32 (rc_bc s) (?p + 4) = Some qmin" "get_u32 (rc_bc s) (?p + 8) = Some qmax"
      "np = ?p + 16 + sint off" "0 < k" "simple_atom (rc_bc s) (?p + 16) k"
    by (auto simp: quant_at_def)
  have sub: "in_subject s (v_cptr v)" using b by (simp add: base_ok_def mem_ok_def)
  let ?v = "v\<lparr>v_pc := np\<rparr>"
  have "chars_done ?cb ?t (0 * k) (v_cptr ?v)"
    using sub by (simp add: chars_done_def in_subject_def)
  from quant_loop_ok [OF o(6) this, of fuel kk qmax] obtain r where
    r: "quant_loop fuel (\<lambda>v. lre_exec_backtrack kk s True v) (?p + 16) qmax ?v 0 = Some r"
      "r = None \<or> (\<exists>m c. r = Some (Some (of_nat m), ?v\<lparr>v_cptr := c\<rparr>) \<and> chars_done ?cb ?t (m * k) c)"
    by auto
  from r(2) show ?thesis
  proof (elim disjE exE conjE)
    assume "r = None"
    then show ?thesis using o r(1) by (simp add: step_quant_def Let_def)
  next
    fix m c
    assume rm: "r = Some (Some (of_nat m), ?v\<lparr>v_cptr := c\<rparr>)" and cd: "chars_done ?cb ?t (m * k) c"
    let ?w = "?v\<lparr>v_cptr := c\<rparr>"
    have c: "in_subject s c" using chars_done_bounds [OF cd] by (simp add: in_subject_def)
    with b have w: "base_ok s D ?w" by (simp add: base_ok_cptr)
    have bk: "back_ok ?cb ?t (m * k) c" using cd by (simp add: chars_done_def)
    have eq: "step_quant fuel (\<lambda>v. lre_exec_backtrack kk s True v) s False v =
      (if (of_nat m :: u64) < ucast qmin then no_match s False ?w
       else if (of_nat m :: u64) > ucast qmin then
         push_and_continue s ?w (?p + 16 - 16) c RE_EXEC_STATE_GREEDY_QUANT (of_nat m - ucast qmin)
       else Some (Next ?w))"
      using o r(1) rm by (simp add: step_quant_def Let_def)
    have push: "step_ok s D (push_and_continue s ?w (?p + 16 - 16) c RE_EXEC_STATE_GREEDY_QUANT
        (of_nat m - ucast qmin))" if gt: "(of_nat m :: u64) > ucast qmin"
    proof -
      have "m \<le> m * k" using o(5) by simp
      then have "int m \<le> int (m * k)" by (simp only: of_nat_le_iff)
      also have "\<dots> \<le> c" using bk by (rule back_ok_le)
      finally have "int m \<le> c" .
      then have "int m < 2 ^ 31" using c env by (auto simp: in_subject_def env_ok_def)
      then have um: "unat (of_nat m :: u64) = m" by (simp add: unat_of_nat)
      have "unat ((of_nat m :: u64) - ucast qmin) = unat (of_nat m :: u64) - unat (ucast qmin :: u64)"
        using gt by (intro unat_sub) simp
      then have "unat ((of_nat m :: u64) - ucast qmin) \<le> m" unfolding um by simp
      then have "back_ok ?cb ?t (unat ((of_nat m :: u64) - ucast qmin) * k) c"
        using back_ok_mono [OF bk] by simp
      then show ?thesis
        using q d gt by (intro push_state_ok [OF w env c]) auto
    qed
    show ?thesis unfolding eq using no_match_ok [OF w] push w d by (simp add: vars_ok_def)
  qed
qed

lemma test_char_ok:
  assumes "base_ok s D v" and "D (v_pc v) = Some (nat (v_stack_len v))"
  shows "step_ok s D (test_char s False v val)"
proof (cases "v_cptr v \<ge> cbuf_end s")
  case True
  then show ?thesis using no_match_ok [OF assms(1)] by (simp add: test_char_def)
next
  case False
  then have "v_cptr v \<noteq> cbuf_end s" by simp
  moreover have "chars_done (rc_cbuf s) (rc_cbuf_type s) 0 (v_cptr v)"
    using assms by (simp add: chars_done_def base_ok_def mem_ok_def in_subject_def)
  ultimately obtain c q where g: "GET_CHAR (rc_cbuf s) (rc_cbuf_type s) (v_cptr v) (cbuf_end s) = Some (c, q)"
    "chars_done (rc_cbuf s) (rc_cbuf_type s) 1 q" "c < 0x110000"
    by (auto elim: next_char)
  obtain c' where "canonicalize_if s c = Some c'" by (rule canonicalize_if_Some [OF g(3)])
  moreover have "base_ok s D (v\<lparr>v_cptr := q\<rparr>)"
    using base_ok_cptr [OF assms(1)] chars_done_bounds [OF g(2)] by (simp add: in_subject_def)
  ultimately show ?thesis
    using False g no_match_ok assms(2) by (simp add: test_char_def Let_def vars_ok_def)
qed

lemma step_any_ok:
  assumes "base_ok s D v" and "D (v_pc v) = Some (nat (v_stack_len v))"
  shows "step_ok s D (step_any s False v bad)"
proof (cases "v_cptr v = cbuf_end s")
  case True
  then show ?thesis using no_match_ok [OF assms(1)] by (simp add: step_any_def)
next
  case False
  moreover have "chars_done (rc_cbuf s) (rc_cbuf_type s) 0 (v_cptr v)"
    using assms by (simp add: chars_done_def base_ok_def mem_ok_def in_subject_def)
  ultimately obtain c q where g: "GET_CHAR (rc_cbuf s) (rc_cbuf_type s) (v_cptr v) (cbuf_end s) = Some (c, q)"
    "chars_done (rc_cbuf s) (rc_cbuf_type s) 1 q"
    by (auto elim: next_char)
  moreover have "base_ok s D (v\<lparr>v_cptr := q\<rparr>)"
    using base_ok_cptr [OF assms(1)] chars_done_bounds [OF g(2)] by (simp add: in_subject_def)
  ultimately show ?thesis
    using False no_match_ok assms(2) by (simp add: step_any_def Let_def vars_ok_def)
qed

lemma step_range_ok:
  assumes b: "base_ok s D v"
    and m: "get_u16 (rc_bc s) (v_pc v) = Some (of_nat m)" "m < 2 ^ 16"
    and t: "\<And>c. \<exists>r. test (rc_bc s) (v_pc v + 2) (of_nat m) c = Some r"
    and d: "D (v_pc v + 2 + e * int m) = Some (nat (v_stack_len v))"
  shows "step_ok s D (step_range s False v test e)"
proof (cases "v_cptr v \<ge> cbuf_end s")
  case True
  then show ?thesis using no_match_ok [of s D "v\<lparr>v_pc := v_pc v + 2\<rparr>"] b
    by (simp add: step_range_def m)
next
  case False
  then have "v_cptr v \<noteq> cbuf_end s" by simp
  moreover have "chars_done (rc_cbuf s) (rc_cbuf_type s) 0 (v_cptr v)"
    using b by (simp add: chars_done_def base_ok_def mem_ok_def in_subject_def)
  ultimately obtain c q where g: "GET_CHAR (rc_cbuf s) (rc_cbuf_type s) (v_cptr v) (cbuf_end s) = Some (c, q)"
    "chars_done (rc_cbuf s) (rc_cbuf_type s) 1 q" "c < 0x110000"
    by (auto elim: next_char)
  obtain c' where c': "canonicalize_if s c = Some c'" by (rule canonicalize_if_Some [OF g(3)])
  obtain r where r: "test (rc_bc s) (v_pc v + 2) (of_nat m) c' = Some r" using t by blast
  have um: "uint (of_nat m :: u32) = int m" using uint_scale [OF m(2), of 1 0] by simp
  have w: "base_ok s D (v\<lparr>v_pc := x, v_cptr := q\<rparr>)" for x
    using base_ok_cptr [of s D "v\<lparr>v_pc := x\<rparr>" q] b chars_done_bounds [OF g(2)]
    by (simp add: in_subject_def)
  show ?thesis
    using False g c' r um m(1) w no_match_ok [OF w] d
    by (simp add: step_range_def Let_def vars_ok_def vars_upd_swap)
qed

lemma back_ref_loop_ok:
  assumes "e \<le> int (length (rc_cbuf s))" and "0 \<le> p" and "in_subject s q"
  shows "\<exists>b q'. back_ref_loop s p e q = Some (b, q') \<and> in_subject s q'"
  using assms
proof (induction s p e q rule: back_ref_loop.induct)
  case (1 s p e q)
  show ?case
  proof (cases "p < e \<and> q < cbuf_end s")
    case False
    then show ?thesis using 1 by (subst back_ref_loop.simps) auto
  next
    case True
    then have pe: "p < e" and qe: "\<not> cbuf_end s \<le> q" by simp_all
    obtain c1 p1 where g1: "GET_CHAR (rc_cbuf s) (rc_cbuf_type s) p e = Some (c1, p1)"
      using pe 1 by (auto intro: GET_CHAR_in [of p "rc_cbuf s" e "rc_cbuf_type s"])
    obtain c2 q2 where g2: "GET_CHAR (rc_cbuf s) (rc_cbuf_type s) q (cbuf_end s) = Some (c2, q2)"
      using qe 1 by (auto simp: cbuf_end_def in_subject_def
          intro: GET_CHAR_in [of q "rc_cbuf s" "int (length (rc_cbuf s))" "rc_cbuf_type s"])
    obtain d1 where d1: "canonicalize_if s c1 = Some d1"
      by (rule canonicalize_if_Some [OF GET_CHAR_less [OF g1]])
    obtain d2 where d2: "canonicalize_if s c2 = Some d2"
      by (rule canonicalize_if_Some [OF GET_CHAR_less [OF g2]])
    have q2: "in_subject s q2"
      using GET_CHAR_advance [OF g2] by (simp add: in_subject_def)
    have p1: "0 \<le> p1" using GET_CHAR_advance [OF g1] by simp
    have e: "back_ref_loop s p e q = (if d1 \<noteq> d2 then Some (False, q2) else back_ref_loop s p1 e q2)"
      using pe qe g1 g2 d1 d2 by (subst back_ref_loop.simps) simp
    show ?thesis
    proof (cases "d1 = d2")
      case True
      then show ?thesis
        using "1.IH" [OF pe qe g1 refl g2 refl d1 d2] "1.prems"(1) p1 q2 by (simp add: e)
    qed (use q2 e in auto)
  qed
qed

lemma backward_back_ref_loop_ok:
  assumes "0 \<le> b" and "p \<le> int (length (rc_cbuf s))" and "in_subject s q"
  shows "\<exists>r q'. backward_back_ref_loop s p b q = Some (r, q') \<and> in_subject s q'"
  using assms
proof (induction s p b q rule: backward_back_ref_loop.induct)
  case (1 s p b q)
  show ?case
  proof (cases "b < p \<and> q \<noteq> 0")
    case False
    then show ?thesis using 1 by (subst backward_back_ref_loop.simps) auto
  next
    case True
    then have pe: "b < p" and qe: "q \<noteq> 0" by simp_all
    obtain c1 p1 where g1: "GET_PREV_CHAR (rc_cbuf s) (rc_cbuf_type s) p b = Some (c1, p1)"
      using pe 1 by (auto intro: GET_PREV_CHAR_in [of p "rc_cbuf s" b "rc_cbuf_type s"])
    obtain c2 q2 where g2: "GET_PREV_CHAR (rc_cbuf s) (rc_cbuf_type s) q 0 = Some (c2, q2)"
      using qe 1 by (auto simp: in_subject_def
          intro: GET_PREV_CHAR_in [of q "rc_cbuf s" 0 "rc_cbuf_type s"])
    obtain d1 where d1: "canonicalize_if s c1 = Some d1"
      by (rule canonicalize_if_Some [OF GET_PREV_CHAR_less [OF g1]])
    obtain d2 where d2: "canonicalize_if s c2 = Some d2"
      by (rule canonicalize_if_Some [OF GET_PREV_CHAR_less [OF g2]])
    have q2: "in_subject s q2"
      using GET_PREV_CHAR_advance [OF g2] by (simp add: in_subject_def)
    have p1: "p1 \<le> int (length (rc_cbuf s))" using GET_PREV_CHAR_advance [OF g1] by simp
    have e: "backward_back_ref_loop s p b q =
        (if d1 \<noteq> d2 then Some (False, q2) else backward_back_ref_loop s p1 b q2)"
      using pe qe g1 g2 d1 d2 by (subst backward_back_ref_loop.simps) simp
    show ?thesis
    proof (cases "d1 = d2")
      case True
      then show ?thesis
        using "1.IH" [OF pe qe g1 refl g2 refl d1 d2] "1.prems"(1) p1 q2 by (simp add: e)
    qed (use q2 e in auto)
  qed
qed

lemma step_back_reference_ok:
  assumes b: "base_ok s D v" and n: "rdi (rc_bc s) (v_pc v) = Some n"
    and d: "D (v_pc v + 1) = Some (nat (v_stack_len v))"
  shows "step_ok s D (step_back_reference s False v backward)"
proof -
  let ?v = "v\<lparr>v_pc := v_pc v + 1\<rparr>"
  have w: "base_ok s D ?v" using b by simp
  have sub: "in_subject s (v_cptr v)" and cap: "capture_ok s (v_capture v)"
    using b by (simp_all add: base_ok_def mem_ok_def)
  show ?thesis
  proof (cases "unat n < rc_capture_count s")
    case False
    then show ?thesis using no_match_ok [OF w] by (simp add: step_back_reference_def n Let_def)
  next
    case True
    let ?cs = "v_capture v ! (2 * unat n)" and ?ce = "v_capture v ! (2 * unat n + 1)"
    have l: "2 * unat n < length (v_capture v)" "2 * unat n + 1 < length (v_capture v)"
      using True cap by (simp_all add: capture_ok_def)
    show ?thesis
    proof (cases "?cs = None \<or> ?ce = None")
      case None: True
      then show ?thesis
        using True l w d by (auto simp: step_back_reference_def n Let_def vars_ok_def split: option.splits)
    next
      case False
      then obtain x y where xy: "?cs = Some x" "?ce = Some y" by auto
      then have sxy: "in_subject s x" "in_subject s y"
        using cap l nth_mem [OF l(1)] nth_mem [OF l(2)] by (auto simp: capture_ok_def)
      then obtain ok q where q: "(if backward then backward_back_ref_loop s y x (v_cptr v)
          else back_ref_loop s x y (v_cptr v)) = Some (ok, q)" "in_subject s q"
        using back_ref_loop_ok [of y s x "v_cptr v"] backward_back_ref_loop_ok [of x y s "v_cptr v"] sub
        by (cases backward) (auto simp: in_subject_def)
      have "base_ok s D (?v\<lparr>v_cptr := q\<rparr>)" using base_ok_cptr [OF w q(2)] .
      then show ?thesis
        using True l xy q(1) d no_match_ok
        by (cases backward) (simp_all add: step_back_reference_def n Let_def vars_ok_def)
    qed
  qed
qed

lemma reset_captures_ok:
  assumes "capture_ok s cap" and "val + n \<le> rc_capture_count s"
  shows "\<exists>cap'. reset_captures cap val n = Some cap' \<and> capture_ok s cap'"
  using assms
proof (induction n arbitrary: cap val)
  case (Suc n)
  then have l: "2 * val + 1 < length cap" by (simp add: capture_ok_def)
  have "capture_ok s (cap[2 * val := None, 2 * val + 1 := None])"
    using Suc.prems(1) by (intro capture_ok_upd) simp_all
  from Suc.IH [OF this, of "Suc val"] Suc.prems(2) l show ?case by simp
qed simp

lemma step_save_ok:
  assumes b: "base_ok s D v" and n: "rdi (rc_bc s) (v_pc v) = Some n" "unat n < rc_capture_count s"
    and d: "D (v_pc v + 1) = Some (nat (v_stack_len v))" and w: "which < 2"
  shows "step_ok s D (step_save s v which)"
proof -
  have m: "capture_ok s (v_capture v)" "in_subject s (v_cptr v)"
    using b by (simp_all add: base_ok_def mem_ok_def)
  then have "2 * unat n + which < length (v_capture v)" using n w by (simp add: capture_ok_def)
  moreover have "capture_ok s ((v_capture v)[2 * unat n + which := Some (v_cptr v)])"
    using m by (intro capture_ok_upd) auto
  ultimately show ?thesis
    using b n d by (simp add: step_save_def vars_ok_def base_ok_def mem_ok_def alloc_ok_def)
qed

lemma step_save_reset_ok:
  assumes b: "base_ok s D v" and m: "rdi (rc_bc s) (v_pc v) = Some m"
    and n: "rdi (rc_bc s) (v_pc v + 1) = Some n" "unat n < rc_capture_count s"
    and d: "D (v_pc v + 2) = Some (nat (v_stack_len v))"
  shows "step_ok s D (step_save_reset s v)"
proof -
  obtain cap where c: "reset_captures (v_capture v) (unat m) (Suc (unat n) - unat m) = Some cap"
      "capture_ok s cap"
  proof (cases "unat m \<le> Suc (unat n)")
    case True
    then have "unat m + (Suc (unat n) - unat m) \<le> rc_capture_count s" using n by simp
    with b that show ?thesis
      using reset_captures_ok [of s "v_capture v" "unat m"] by (auto simp: base_ok_def mem_ok_def)
  next
    case False
    with b that show ?thesis by (simp add: base_ok_def mem_ok_def)
  qed
  then show ?thesis
    using b m n d by (simp add: step_save_reset_def vars_ok_def base_ok_def mem_ok_def alloc_ok_def)
qed

lemma push_stack_ok:
  assumes "base_ok s D v" and "nat (v_stack_len v) < rc_stack_size_max s"
  obtains w where "push_stack v x = Some w" and "base_ok s D w" and "v_pc w = v_pc v"
    and "nat (v_stack_len w) = Suc (nat (v_stack_len v))"
proof -
  have l: "0 \<le> v_stack_len v" "length (v_stack v) = rc_stack_size_max s"
    using assms by (simp_all add: base_ok_def mem_ok_def)
  let ?w = "v\<lparr>v_stack := (v_stack v)[nat (v_stack_len v) := x], v_stack_len := v_stack_len v + 1\<rparr>"
  have "push_stack v x = Some ?w" using assms(2) l by (simp add: push_stack_def wri_def)
  moreover have "base_ok s D ?w"
    using assms by (auto simp: base_ok_def mem_ok_def alloc_ok_def)
  ultimately show thesis using l by (intro that [of ?w]) simp_all
qed

lemma base_ok_stack:
  "base_ok s D v \<Longrightarrow> length stk = length (v_stack v) \<Longrightarrow> base_ok s D (v\<lparr>v_stack := stk\<rparr>)"
  by (simp add: base_ok_def mem_ok_def alloc_ok_def)

lemma base_ok_pop:
  "base_ok s D v \<Longrightarrow> 0 < nat (v_stack_len v) \<Longrightarrow> base_ok s D (v\<lparr>v_stack_len := v_stack_len v - 1\<rparr>)"
  by (auto simp: base_ok_def mem_ok_def alloc_ok_def)

lemma stack_top:
  assumes "base_ok s D v" and "0 < nat (v_stack_len v)"
  shows "rdi (v_stack v) (v_stack_len v - 1) = Some (v_stack v ! nat (v_stack_len v - 1))"
    and "wri (v_stack v) (v_stack_len v - 1) x = Some ((v_stack v)[nat (v_stack_len v - 1) := x])"
  using assms by (auto simp: mem_simps base_ok_def mem_ok_def)

lemma step_loop_ok:
  assumes b: "base_ok s D v" and o: "get_u32 (rc_bc s) (v_pc v) = Some off"
    and n: "0 < nat (v_stack_len v)" and d: "D (v_pc v + 4) = Some (nat (v_stack_len v))"
    "D (v_pc v + 4 + sint off) = Some (nat (v_stack_len v))"
  shows "step_ok s D (step_loop s v)"
  using base_ok_stack [OF b] d
  by (simp add: step_loop_def o Let_def stack_top [OF b n] vars_ok_def)

lemma step_bne_char_pos_ok:
  assumes b: "base_ok s D v" and o: "get_u32 (rc_bc s) (v_pc v) = Some off"
    and n: "0 < nat (v_stack_len v)" and d: "D (v_pc v + 4) = Some (nat (v_stack_len v) - 1)"
    "D (v_pc v + 4 + sint off) = Some (nat (v_stack_len v) - 1)"
  shows "step_ok s D (step_bne_char_pos s v)"
proof -
  have "nat (v_stack_len v - 1) = nat (v_stack_len v) - 1" by simp
  then show ?thesis
    using base_ok_pop [OF b n] d
    by (simp add: step_bne_char_pos_def o Let_def stack_top [OF b n] vars_ok_def)
qed

lemma step_prev_ok:
  assumes b: "base_ok s D v" and d: "D (v_pc v) = Some (nat (v_stack_len v))"
  shows "step_ok s D (step_prev s False v)"
proof (cases "v_cptr v = 0")
  case True
  then show ?thesis using no_match_ok [OF b] by (simp add: step_prev_def)
next
  case False
  have sub: "0 \<le> v_cptr v" "v_cptr v \<le> int (length (rc_cbuf s))"
    using b by (simp_all add: base_ok_def mem_ok_def in_subject_def)
  with False obtain c q where g: "GET_PREV_CHAR (rc_cbuf s) (rc_cbuf_type s) (v_cptr v) 0 = Some (c, q)"
    by (auto intro: GET_PREV_CHAR_in [of "v_cptr v" "rc_cbuf s" 0 "rc_cbuf_type s"])
  have "in_subject s q" using GET_PREV_CHAR_advance [OF g] sub by (simp add: in_subject_def)
  then show ?thesis
    using False PREV_CHAR_GET_PREV [OF g] base_ok_cptr [OF b] d
    by (simp add: step_prev_def vars_ok_def)
qed

lemma anchors_ok:
  assumes b: "base_ok s D v" and d: "D (v_pc v) = Some (nat (v_stack_len v))"
  shows "step_ok s D (step_line_start s False v)" and "step_ok s D (step_line_end s False v)"
    and "step_ok s D (step_word_boundary s False v neg)"
proof -
  have sub: "0 \<le> v_cptr v" "v_cptr v \<le> int (length (rc_cbuf s))"
    using b by (simp_all add: base_ok_def mem_ok_def in_subject_def)
  have c: "r \<in> {no_match s False v, Some (Next v)} \<Longrightarrow> step_ok s D r" for r
    using no_match_ok [OF b] b d by (auto simp: vars_ok_def)
  show "step_ok s D (step_line_start s False v)" by (rule c, rule anchor_cases(1) [OF sub])
  show "step_ok s D (step_line_end s False v)" by (rule c, rule anchor_cases(2) [OF sub])
  show "step_ok s D (step_word_boundary s False v neg)" by (rule c, rule anchor_cases(3) [OF sub])
qed

lemma step_match_ok: "base_ok s D v \<Longrightarrow> step_ok s D (step_match s False v)"
  by (simp add: step_match_def base_ok_def unwind_ok)

lemma push_other_ok:
  assumes "base_ok s D v" and "env_ok s" and "D pc1 = Some (nat (v_stack_len v))"
    and "D (v_pc v) = Some (nat (v_stack_len v))" and "type \<noteq> RE_EXEC_STATE_GREEDY_QUANT"
  shows "step_ok s D (push_and_continue s v pc1 (v_cptr v) type count)"
  using assms by (intro push_state_ok) (auto simp: base_ok_def mem_ok_def)

lemma exec_op_ok:
  assumes b: "base_ok s D v" and env: "env_ok s"
    and ok: "op_ok s D (v_pc v) (nat (v_stack_len v)) op"
  shows "step_ok s D (exec_op k (\<lambda>v. lre_exec_backtrack kk s True v) s False v op)"
proof (cases op)
  case REOP_char
  with ok b show ?thesis by (auto intro!: test_char_ok)
next
  case REOP_char32
  with ok b show ?thesis by (auto intro!: test_char_ok)
next
  case REOP_range
  with ok obtain n L H where "get_u16 (rc_bc s) (v_pc v) = Some (of_nat n)"
      "range_table (rc_bc s) (v_pc v + 2) n L H" "D (v_pc v + 2 + 4 * int n) = Some (nat (v_stack_len v))"
    by auto
  moreover from this have "n < 2 ^ 16" by (simp add: range_table_def)
  ultimately show ?thesis
    using step_range_ok [OF b, of n range_test 4] range_test_spec REOP_range by fastforce
next
  case REOP_range32
  with ok obtain n L H where "get_u16 (rc_bc s) (v_pc v) = Some (of_nat n)"
      "range32_table (rc_bc s) (v_pc v + 2) n L H" "D (v_pc v + 2 + 8 * int n) = Some (nat (v_stack_len v))"
    by auto
  moreover from this have "n < 2 ^ 16" by (simp add: range32_table_def)
  ultimately show ?thesis
    using step_range_ok [OF b, of n range32_test 8] range32_test_spec REOP_range32 by fastforce
next
  case REOP_push_i32
  with ok obtain x where x: "get_u32 (rc_bc s) (v_pc v) = Some x"
      "nat (v_stack_len v) < rc_stack_size_max s" "D (v_pc v + 4) = Some (Suc (nat (v_stack_len v)))"
    by auto
  obtain w where "push_stack (v\<lparr>v_pc := v_pc v + 4\<rparr>) (ucast x) = Some w" "base_ok s D w"
      "v_pc w = v_pc v + 4" "nat (v_stack_len w) = Suc (nat (v_stack_len v))"
    using b x(2) by (rule_tac push_stack_ok [of s D "v\<lparr>v_pc := v_pc v + 4\<rparr>" "ucast x"]) simp_all
  with x REOP_push_i32 show ?thesis by (simp add: vars_ok_def)
next
  case REOP_push_char_pos
  with ok have d: "nat (v_stack_len v) < rc_stack_size_max s" "D (v_pc v) = Some (Suc (nat (v_stack_len v)))"
    by auto
  obtain w where "push_stack v (of_int (v_cptr v)) = Some w" "base_ok s D w" "v_pc w = v_pc v"
      "nat (v_stack_len w) = Suc (nat (v_stack_len v))"
    by (rule push_stack_ok [OF b d(1)])
  with d REOP_push_char_pos show ?thesis by (simp add: vars_ok_def)
next
  case REOP_drop
  moreover have "nat (v_stack_len v - 1) = nat (v_stack_len v) - 1" by simp
  ultimately show ?thesis using ok base_ok_pop [OF b] by (simp add: vars_ok_def)
qed (use ok b in \<open>auto simp: step_split_def step_lookahead_def Let_def vars_ok_def ac_simps
    intro!: step_match_ok anchors_ok step_any_ok step_save_ok step_save_reset_ok step_loop_ok
      step_bne_char_pos_ok step_back_reference_ok step_prev_ok step_quant_ok [OF b env]
      push_other_ok [OF _ env, of D "v\<lparr>v_pc := p\<rparr>" for p, simplified]\<close>)

section \<open>Execution\<close>

lemma exec_safe:
  assumes "well_typed s D" and "env_ok s" and "vars_ok s D v"
  shows "lre_exec_backtrack fuel s False v \<noteq> Fault"
  using assms(3)
proof (induction fuel arbitrary: v)
  case (Suc fuel)
  let ?rec = "\<lambda>v. lre_exec_backtrack fuel s True v"
  from Suc.prems assms(1) obtain op where op: "rdi (rc_bc s) (v_pc v) = Some (reop_code op)"
      "op_ok s D (v_pc v + 1) (nat (v_stack_len v)) op"
    by (auto simp: well_typed_def vars_ok_def)
  let ?v = "v\<lparr>v_pc := v_pc v + 1\<rparr>"
  have "step_ok s D (exec_op fuel ?rec s False ?v op)"
    using Suc.prems op(2) by (intro exec_op_ok assms(2)) (simp_all add: vars_ok_def)
  moreover have "exec_step fuel ?rec s False v = exec_op fuel ?rec s False ?v op"
    using op(1) by (simp add: exec_step_def)
  ultimately show ?case
    using Suc.IH by (auto simp: step_ok_def split: option.splits step_result.splits)
qed simp

text \<open>For concrete programs: the map as a list of positions with their depths and opcodes.\<close>

lemma well_typed_list:
  assumes "\<forall>(p, d, op) \<in> set l. rdi (rc_bc s) p = Some (reop_code op) \<and>
    op_ok s (map_of (map (\<lambda>(p, d, op). (p, d)) l)) (p + 1) d op"
  shows "well_typed s (map_of (map (\<lambda>(p, d, op). (p, d)) l))"
  using assms by (fastforce simp: well_typed_def dest: map_of_SomeD)

lemma lre_exec_safe:
  assumes "exec_context realloc bc cbuf cbuf_type = Some s"
    and "well_typed s D" and "D 7 = Some 0"
    and "length cbuf < 2 ^ 31" and "cindex \<le> length cbuf"
    and "\<forall>n. realloc n \<longrightarrow> n \<le> 2 ^ 62"
    and "length capture = 2 * rc_capture_count s"
  shows "lre_exec fuel realloc stack_init capture bc cbuf cindex cbuf_type \<noteq> Fault"
proof -
  from assms(1) have s: "rc_cbuf s = cbuf" "rc_realloc s = realloc" "rc_capture_count s \<le> 255"
      "rc_stack_size_max s \<le> 255"
    by (auto simp: exec_context_def bind_Some_iff unat_le_255)
  then have env: "env_ok s" using assms by (simp add: env_ok_def)
  let ?v = "\<lparr>v_pc = 7, v_cptr = int cindex, v_capture = replicate (2 * rc_capture_count s) None,
    v_stack = map stack_init [0..<rc_stack_size_max s], v_stack_len = 0, state_stack = [],
    state_stack_size = 0, state_stack_bytes = 0\<rparr>"
  have "vars_ok s D ?v"
    using assms s by (auto simp: vars_ok_def base_ok_def mem_ok_def alloc_ok_def capture_ok_def
        in_subject_def)
  then have "lre_exec_backtrack fuel s False ?v \<noteq> Fault"
    by (rule exec_safe [OF assms(2) env])
  then show ?thesis using assms by (simp add: lre_exec_def wr_block_def)
qed

section \<open>Properties\<close>

text \<open>C2: memory safety of \<open>lre_exec\<close>.  For a compiled expression whose code is well typed and
  starts with an empty value stack, every subject string, every start index inside it, every
  allocator and every bound on the running time, execution reads and writes only inside its
  buffers and never aborts.\<close>

theorem lre_exec_memory_safe:
  assumes "exec_context realloc bc cbuf cbuf_type = Some s"
    and "well_typed s D" and "D 7 = Some 0"
    and "length cbuf < 2 ^ 31" and "cindex \<le> length cbuf"
    and "\<forall>n. realloc n \<longrightarrow> n \<le> 2 ^ 62"
    and "length capture = 2 * rc_capture_count s"
  shows "lre_exec fuel realloc stack_init capture bc cbuf cindex cbuf_type \<noteq> Fault"
  using assms by (rule lre_exec_safe)

text \<open>The code of the expression \<open>ba*\<close>, as the compiler emits it.\<close>

definition re_ba_star :: "u8 list" where
  "re_ba_star = [0, 1, 0, 40, 0, 0, 0, 8, 6, 0, 0, 0, 4, 7, 245, 255, 255, 255, 11, 0, 1, 98, 0,
     28, 4, 0, 0, 0, 0, 0, 0, 0, 255, 255, 255, 127, 1, 0, 0, 0, 1, 97, 0, 10, 12, 0, 10]"

definition re_ba_star_types :: "(int \<times> nat \<times> reop) list" where
  "re_ba_star_types = [(7, 0, REOP_split_goto_first), (12, 0, REOP_any), (13, 0, REOP_goto),
     (18, 0, REOP_save_start), (20, 0, REOP_char), (23, 0, REOP_simple_greedy_quant),
     (44, 0, REOP_save_end), (46, 0, REOP_match)]"

lemma re_ba_star_reads:
  "rdi re_ba_star 7 = Some (reop_code REOP_split_goto_first)"
  "rdi re_ba_star 12 = Some (reop_code REOP_any)"
  "rdi re_ba_star 13 = Some (reop_code REOP_goto)"
  "rdi re_ba_star 18 = Some (reop_code REOP_save_start)" "rdi re_ba_star 19 = Some 0"
  "rdi re_ba_star 20 = Some (reop_code REOP_char)"
  "rdi re_ba_star 23 = Some (reop_code REOP_simple_greedy_quant)"
  "rdi re_ba_star 40 = Some (reop_code REOP_char)"
  "rdi re_ba_star 43 = Some (reop_code REOP_match)"
  "rdi re_ba_star 44 = Some (reop_code REOP_save_end)" "rdi re_ba_star 45 = Some 0"
  "rdi re_ba_star 46 = Some (reop_code REOP_match)"
  "get_u32 re_ba_star 8 = Some 6" "get_u32 re_ba_star 14 = Some (- 11)"
  "get_u16 re_ba_star 21 = Some 98" "get_u16 re_ba_star 41 = Some 97"
  "get_u32 re_ba_star 24 = Some 4" "get_u32 re_ba_star 28 = Some 0"
  "get_u32 re_ba_star 32 = Some 0x7fffffff" "get_u32 re_ba_star 36 = Some 1"
  by code_simp+

lemma re_ba_star_well_typed:
  assumes "rc_bc s = re_ba_star" and "rc_capture_count s = 1"
  shows "well_typed s (map_of (map (\<lambda>(p, d, op). (p, d)) re_ba_star_types))"
proof (rule well_typed_list)
  have "simple_atom re_ba_star 40 (Suc 0)"
    by (rule sa_char [of _ 40 97]) (simp_all add: re_ba_star_reads sa_match)
  then have "quant_at re_ba_star 24 44 1"
    by (simp add: quant_at_def re_ba_star_reads)
  then show "\<forall>(p, d, op) \<in> set re_ba_star_types. rdi (rc_bc s) p = Some (reop_code op) \<and>
    op_ok s (map_of (map (\<lambda>(p, d, op). (p, d)) re_ba_star_types)) (p + 1) d op"
    unfolding re_ba_star_types_def
    by (auto simp: assms re_ba_star_reads) (rule exI [of _ 44], auto)
qed

theorem lre_exec_memory_safe_witness:
  "\<forall>fuel. lre_exec fuel (\<lambda>n. n \<le> 1000) (\<lambda>i. 0) [None, None] re_ba_star [120, 98, 97, 97, 99] 0 0 \<noteq> Fault"
proof
  fix fuel
  have "exec_context (\<lambda>n. n \<le> 1000) re_ba_star [120, 98, 97, 97, 99] 0 =
    Some \<lparr>rc_cbuf = [120, 98, 97, 97, 99], rc_cbuf_type = 0, rc_capture_count = 1,
      rc_stack_size_max = 0, rc_multi_line = False, rc_ignore_case = False, rc_is_utf16 = False,
      rc_bc = re_ba_star, rc_realloc = (\<lambda>n. n \<le> 1000)\<rparr>" (is "_ = Some ?s")
    by (simp add: exec_context_def re_ba_star_def flag_set_def LRE_FLAG_UTF16_def
        LRE_FLAG_MULTILINE_def LRE_FLAG_IGNORECASE_def)
  moreover have "well_typed ?s (map_of (map (\<lambda>(p, d, op). (p, d)) re_ba_star_types))"
    by (rule re_ba_star_well_typed) simp_all
  ultimately show "lre_exec fuel (\<lambda>n. n \<le> 1000) (\<lambda>i. 0) [None, None] re_ba_star
      [120, 98, 97, 97, 99] 0 0 \<noteq> Fault"
    by (rule lre_exec_memory_safe) (simp_all add: re_ba_star_types_def)
qed

end
