(* ===== verification/ReCheck.thy ===== *)
theory ReCheck
  imports RegexSafe
begin

text \<open>
  The analyses of the regular expression compiler on its bytecode (\<open>libregexp.c\<close>): \<open>re_is_simple_quantifier\<close>,
  which decides whether an atom may become a simple greedy quantifier, and \<open>compute_stack_size\<close>, which sizes
  the value stack of the executor.  A checker for structured code (jumps go to instructions of equal depth) turns
  their results into the typing of the safety proof.
\<close>

section \<open>Instruction lengths\<close>

text \<open>The size of the table and, for the range opcodes, the length of their data.\<close>

definition re_op_len :: "u8 list \<Rightarrow> nat \<Rightarrow> reop \<Rightarrow> nat option" where
  "re_op_len m pos op = (case op of
     REOP_range \<Rightarrow> map_option (\<lambda>val. reop_size op + unat val * 4) (get_u16 m (int pos + 1))
   | REOP_range32 \<Rightarrow> map_option (\<lambda>val. reop_size op + unat val * 8) (get_u16 m (int pos + 1))
   | _ \<Rightarrow> Some (reop_size op))"

lemma re_op_len_pos: "re_op_len m pos op = Some len \<Longrightarrow> 0 < len"
  by (auto simp: re_op_len_def split: reop.splits)

definition op_at :: "u8 list \<Rightarrow> nat \<Rightarrow> reop option" where
  "op_at m pos = do { b \<leftarrow> rd m pos; reop_decode b }"

section \<open>Simple quantifiers\<close>

text \<open>\<open>re_is_simple_quantifier\<close> on the code from \<open>pos\<close> to \<open>stop\<close>.\<close>

function simple_quantifier_loop :: "u8 list \<Rightarrow> nat \<Rightarrow> nat \<Rightarrow> nat \<Rightarrow> int option" where
  "simple_quantifier_loop m stop pos count =
     (if pos < stop then do {
        op \<leftarrow> op_at m pos;
        len \<leftarrow> re_op_len m pos op;
        if op \<in> {REOP_range, REOP_range32, REOP_char, REOP_char32, REOP_dot, REOP_any}
        then simple_quantifier_loop m stop (pos + len) (count + 1)
        else if op \<in> {REOP_line_start, REOP_line_end, REOP_word_boundary, REOP_not_word_boundary}
        then simple_quantifier_loop m stop (pos + len) count
        else Some (-1)
      } else Some (int count))"
  by pat_completeness auto
termination
  by (relation "measure (\<lambda>(m, stop, pos, count). stop - pos)") (auto dest: re_op_len_pos)

declare simple_quantifier_loop.simps [simp del]

definition re_is_simple_quantifier :: "u8 list \<Rightarrow> nat \<Rightarrow> nat \<Rightarrow> int option" where
  "re_is_simple_quantifier m bc_buf bc_buf_len = simple_quantifier_loop m (bc_buf + bc_buf_len) bc_buf 0"

section \<open>The size of the value stack\<close>

abbreviation (input) STACK_SIZE_MAX :: nat where "STACK_SIZE_MAX \<equiv> 255"

function stack_size_loop :: "u8 list \<Rightarrow> nat \<Rightarrow> nat \<Rightarrow> nat \<Rightarrow> int option" where
  "stack_size_loop m pos stack_size stack_size_max =
     (if pos < length m then do {
        op \<leftarrow> op_at m pos;
        if pos + reop_size op > length m then None
        else do {
          len \<leftarrow> re_op_len m pos op;
          if op \<in> {REOP_push_i32, REOP_push_char_pos} then
            if stack_size + 1 > stack_size_max then
              if stack_size + 1 > STACK_SIZE_MAX then Some (-1)
              else stack_size_loop m (pos + len) (stack_size + 1) (stack_size + 1)
            else stack_size_loop m (pos + len) (stack_size + 1) stack_size_max
          else if op \<in> {REOP_drop, REOP_bne_char_pos} then
            if stack_size > 0 then stack_size_loop m (pos + len) (stack_size - 1) stack_size_max else None
          else stack_size_loop m (pos + len) stack_size stack_size_max
        }
      } else Some (int stack_size_max))"
  by pat_completeness auto
termination
  by (relation "measure (\<lambda>(m, pos, d, dm). length m - pos)") (auto dest: re_op_len_pos)

declare stack_size_loop.simps [simp del]

definition compute_stack_size :: "u8 list \<Rightarrow> int option" where
  "compute_stack_size m = stack_size_loop m RE_HEADER_LEN 0 0"

section \<open>Structured code\<close>

text \<open>The depth of the value stack after an instruction, and the instructions of the code with their
  positions and depths, in order.\<close>

definition depth_after :: "reop \<Rightarrow> nat \<Rightarrow> nat" where
  "depth_after op d = (if op \<in> {REOP_push_i32, REOP_push_char_pos} then d + 1
     else if op \<in> {REOP_drop, REOP_bne_char_pos} then d - 1 else d)"

function code_map :: "u8 list \<Rightarrow> nat \<Rightarrow> nat \<Rightarrow> (nat \<times> nat \<times> reop) list option" where
  "code_map m pos d =
     (if pos < length m then do {
        op \<leftarrow> op_at m pos;
        len \<leftarrow> re_op_len m pos op;
        if pos + len > length m then None
        else do { rest \<leftarrow> code_map m (pos + len) (depth_after op d); Some ((pos, d, op) # rest) }
      } else Some [])"
  by pat_completeness auto
termination
  by (relation "measure (\<lambda>(m, pos, d). length m - pos)") (auto dest: re_op_len_pos)

declare code_map.simps [simp del]

text \<open>The code from \<open>pos\<close> to \<open>stop\<close> is made of whole instructions, with nonempty range tables.\<close>

definition range_nonempty :: "u8 list \<Rightarrow> nat \<Rightarrow> reop \<Rightarrow> bool" where
  "range_nonempty m pos op \<longleftrightarrow> (op \<in> {REOP_range, REOP_range32} \<longrightarrow> get_u16 m (int pos + 1) \<notin> {None, Some 0})"

function whole_code :: "u8 list \<Rightarrow> nat \<Rightarrow> nat \<Rightarrow> bool" where
  "whole_code m stop pos =
     (if pos < stop then (case op_at m pos of None \<Rightarrow> False
        | Some op \<Rightarrow> (case re_op_len m pos op of None \<Rightarrow> False
          | Some len \<Rightarrow> range_nonempty m pos op \<and> whole_code m stop (pos + len)))
      else pos = stop)"
  by pat_completeness auto
termination
  by (relation "measure (\<lambda>(m, stop, pos). stop - pos)") (auto dest: re_op_len_pos)

declare whole_code.simps [simp del]

text \<open>A jump at \<open>p\<close> leads to an instruction of depth \<open>d\<close>.\<close>

definition jump_ok :: "u8 list \<Rightarrow> depth_map \<Rightarrow> int \<Rightarrow> nat \<Rightarrow> bool" where
  "jump_ok m D p d = (case get_u32 m p of None \<Rightarrow> False | Some off \<Rightarrow> D (p + 4 + sint off) = Some d)"

definition capture_index_ok :: "u8 list \<Rightarrow> int \<Rightarrow> nat \<Rightarrow> bool" where
  "capture_index_ok m p cc = (case rdi m p of None \<Rightarrow> False | Some n \<Rightarrow> unat n < cc)"

text \<open>The operands of a greedy quantifier: its body ends with \<open>REOP_match\<close>, is simple, and its number of
  characters is recorded.\<close>

definition quantifier_ok :: "u8 list \<Rightarrow> depth_map \<Rightarrow> nat \<Rightarrow> nat \<Rightarrow> bool" where
  "quantifier_ok m D p d =
     (case (get_u32 m (int p), get_u32 m (int p + 4), get_u32 m (int p + 8), get_u32 m (int p + 12)) of
        (Some off, Some qmin, Some qmax, Some cc) \<Rightarrow>
          0 < sint off \<and> D (int p + 16 + sint off) = Some d \<and>
          (let stop = p + 16 + nat (sint off) - 1 in
           op_at m stop = Some REOP_match \<and> whole_code m stop (p + 16) \<and> 0 < cc \<and>
           re_is_simple_quantifier m (p + 16) (stop - (p + 16)) = Some (uint cc))
      | _ \<Rightarrow> False)"

text \<open>One instruction with its operands at \<open>p\<close>.\<close>

definition instr_ok :: "u8 list \<Rightarrow> nat \<Rightarrow> depth_map \<Rightarrow> nat \<times> nat \<times> reop \<Rightarrow> bool" where
  "instr_ok m cc D = (\<lambda>(pos, d, op).
     (let p = int pos + 1 in case op of
        REOP_invalid \<Rightarrow> False
      | REOP_goto \<Rightarrow> jump_ok m D p d
      | REOP_split_goto_first \<Rightarrow> jump_ok m D p d
      | REOP_split_next_first \<Rightarrow> jump_ok m D p d
      | REOP_lookahead \<Rightarrow> jump_ok m D p d
      | REOP_negative_lookahead \<Rightarrow> jump_ok m D p d
      | REOP_loop \<Rightarrow> 0 < d \<and> jump_ok m D p d
      | REOP_bne_char_pos \<Rightarrow> jump_ok m D p (d - 1)
      | REOP_save_start \<Rightarrow> capture_index_ok m p cc
      | REOP_save_end \<Rightarrow> capture_index_ok m p cc
      | REOP_save_reset \<Rightarrow> capture_index_ok m (p + 1) cc
      | REOP_simple_greedy_quant \<Rightarrow> quantifier_ok m D (pos + 1) d
      | _ \<Rightarrow> range_nonempty m pos op) \<and>
     (op \<in> {REOP_match, REOP_goto, REOP_simple_greedy_quant} \<or>
       (case re_op_len m pos op of None \<Rightarrow> False | Some len \<Rightarrow> D (int (pos + len)) = Some (depth_after op d))))"

definition code_depths :: "(nat \<times> nat \<times> reop) list \<Rightarrow> depth_map" where
  "code_depths l = map_of (map (\<lambda>(p, d, op). (int p, d)) l)"

definition check_code :: "u8 list \<Rightarrow> nat \<Rightarrow> bool" where
  "check_code m cc = (case code_map m RE_HEADER_LEN 0 of None \<Rightarrow> False
     | Some l \<Rightarrow> RE_HEADER_LEN < length m \<and> list_all (instr_ok m cc (code_depths l)) l)"


section \<open>Larger code\<close>

text \<open>The code of \<open>m\<close> inside a program \<open>bc\<close>, whose header may differ.\<close>

definition code_in :: "u8 list \<Rightarrow> u8 list \<Rightarrow> bool" where
  "code_in m bc \<longleftrightarrow> (\<forall>i \<ge> RE_HEADER_LEN. i < length m \<longrightarrow> i < length bc \<and> bc ! i = m ! i)"

lemma rdi_code_in:
  assumes "code_in m bc" and "rdi m p = Some v" and "7 \<le> p"
  shows "rdi bc p = Some v"
proof -
  from assms have "7 \<le> nat p" "nat p < length m" "m ! nat p = v" "0 \<le> p" by (auto simp: rdi_Some_iff nat_less_iff)
  with assms(1) show ?thesis by (auto simp: code_in_def rdi_Some_iff nat_less_iff)
qed

lemma get_u8_code_in: "code_in m bc \<Longrightarrow> get_u8 m p = Some v \<Longrightarrow> 7 \<le> p \<Longrightarrow> get_u8 bc p = Some v"
  by (auto simp: get_u8_def dest: rdi_code_in)

lemma get_u16_code_in:
  assumes "code_in m bc" and "get_u16 m p = Some v" and "7 \<le> p"
  shows "get_u16 bc p = Some v"
proof -
  note c = get_u8_code_in [OF assms(1)]
  from assms(2) obtain b0 b1 where b: "get_u8 m p = Some b0" "get_u8 m (p + 1) = Some b1" "v = b0 OR push_bit 8 b1"
    by (auto simp: get_u16_def bind_eq_Some_conv)
  then show ?thesis using c [OF b(1)] c [OF b(2)] assms(3) by (simp add: get_u16_def)
qed

lemma get_u32_code_in:
  assumes "code_in m bc" and "get_u32 m p = Some v" and "7 \<le> p"
  shows "get_u32 bc p = Some v"
proof -
  note c = get_u8_code_in [OF assms(1)]
  from assms(2) obtain b0 b1 b2 b3 where b: "get_u8 m p = Some b0" "get_u8 m (p + 1) = Some b1"
    "get_u8 m (p + 2) = Some b2" "get_u8 m (p + 3) = Some b3"
    "v = b0 OR push_bit 8 b1 OR push_bit 16 b2 OR push_bit 24 b3"
    unfolding get_u32_def bind_eq_Some_conv by blast
  then show ?thesis using c [OF b(1)] c [OF b(2)] c [OF b(3)] c [OF b(4)] assms(3) by (simp add: get_u32_def)
qed

lemma op_at_code_in:
  assumes "code_in m bc" and "op_at m p = Some op" and "7 \<le> p"
  shows "rdi bc (int p) = Some (reop_code op)"
proof -
  from assms(2) have "rd m p = Some (reop_code op)"
    by (auto simp: op_at_def bind_eq_Some_conv dest: reop_decode_Some)
  then show ?thesis using rdi_code_in [OF assms(1), of "int p"] assms(3) by simp
qed

section \<open>Range tables\<close>

lemma get_u16_inside: "0 \<le> p \<Longrightarrow> p + 2 \<le> int (length m) \<Longrightarrow> \<exists>v. get_u16 m p = Some v"
  by (auto simp: get_u16_def get_u8_def rdi_def rd_def)

lemma get_u32_inside: "0 \<le> p \<Longrightarrow> p + 4 \<le> int (length m) \<Longrightarrow> \<exists>v. get_u32 m p = Some v"
  by (auto simp: get_u32_def get_u8_def rdi_def rd_def)

lemma range_table_inside:
  assumes "code_in m bc" and "7 \<le> p" and "p + 4 * int n \<le> int (length m)" and "0 < n" "n < 2 ^ 16"
  shows "\<exists>L H. range_table bc p n L H"
proof -
  have "\<exists>v. get_u16 bc (p + 4 * int i) = Some v" "\<exists>v. get_u16 bc (p + 4 * int i + 2) = Some v" if "i < n" for i
    using get_u16_inside [of "p + 4 * int i" m] get_u16_inside [of "p + 4 * int i + 2" m] that assms
    by (fastforce dest: get_u16_code_in)+
  then show ?thesis using assms(4,5) unfolding range_table_def by metis
qed

lemma range32_table_inside:
  assumes "code_in m bc" and "7 \<le> p" and "p + 8 * int n \<le> int (length m)" and "0 < n" "n < 2 ^ 16"
  shows "\<exists>L H. range32_table bc p n L H"
proof -
  have "\<exists>v. get_u32 bc (p + 8 * int i) = Some v" "\<exists>v. get_u32 bc (p + 8 * int i + 4) = Some v" if "i < n" for i
    using get_u32_inside [of "p + 8 * int i" m] get_u32_inside [of "p + 8 * int i + 4" m] that assms
    by (fastforce dest: get_u32_code_in)+
  then show ?thesis using assms(4,5) unfolding range32_table_def by metis
qed

text \<open>A range instruction that lies inside the code.\<close>

lemma range_op_inside:
  assumes "code_in m bc" and "7 \<le> pos" and "re_op_len m pos op = Some len" and "pos + len \<le> length m"
    and "range_nonempty m pos op"
  shows "op = REOP_range \<Longrightarrow> \<exists>n L H. get_u16 bc (int pos + 1) = Some (of_nat n) \<and> len = 3 + 4 * n \<and>
      range_table bc (int pos + 3) n L H"
    and "op = REOP_range32 \<Longrightarrow> \<exists>n L H. get_u16 bc (int pos + 1) = Some (of_nat n) \<and> len = 3 + 8 * n \<and>
      range32_table bc (int pos + 3) n L H"
proof -
  have v: "\<exists>n. get_u16 bc (int pos + 1) = Some (of_nat n) \<and> len = 3 + k * n \<and> 0 < n \<and> n < 2 ^ 16"
    if "op \<in> {REOP_range, REOP_range32}" and len: "\<And>v. get_u16 m (int pos + 1) = Some v \<Longrightarrow> len = 3 + k * unat v" for k
  proof -
    from assms(3,5) that(1) obtain v where v: "get_u16 m (int pos + 1) = Some v" "v \<noteq> 0"
      by (auto simp: re_op_len_def range_nonempty_def)
    have "get_u16 bc (int pos + 1) = Some (of_nat (unat v))"
      using get_u16_code_in [OF assms(1) v(1)] assms(2) by simp
    moreover have "0 < unat v" using v(2) by (simp add: unat_gt_0)
    moreover have "unat v < 2 ^ 16" using get_u16_less [OF v(1)] by (simp add: word_less_nat_alt)
    ultimately show ?thesis using len [OF v(1)] by blast
  qed
  show "\<exists>n L H. get_u16 bc (int pos + 1) = Some (of_nat n) \<and> len = 3 + 4 * n \<and> range_table bc (int pos + 3) n L H"
    if "op = REOP_range"
  proof -
    have "\<exists>n. get_u16 bc (int pos + 1) = Some (of_nat n) \<and> len = 3 + 4 * n \<and> 0 < n \<and> n < 2 ^ 16"
      using assms(3) that by (intro v) (auto simp: re_op_len_def)
    then obtain n where n: "get_u16 bc (int pos + 1) = Some (of_nat n)" "len = 3 + 4 * n" "0 < n" "n < 2 ^ 16" by blast
    then show ?thesis using range_table_inside [OF assms(1), of "int pos + 3" n] assms(2,4) by fastforce
  qed
  show "\<exists>n L H. get_u16 bc (int pos + 1) = Some (of_nat n) \<and> len = 3 + 8 * n \<and> range32_table bc (int pos + 3) n L H"
    if "op = REOP_range32"
  proof -
    have "\<exists>n. get_u16 bc (int pos + 1) = Some (of_nat n) \<and> len = 3 + 8 * n \<and> 0 < n \<and> n < 2 ^ 16"
      using assms(3) that by (intro v) (auto simp: re_op_len_def)
    then obtain n where n: "get_u16 bc (int pos + 1) = Some (of_nat n)" "len = 3 + 8 * n" "0 < n" "n < 2 ^ 16" by blast
    then show ?thesis using range32_table_inside [OF assms(1), of "int pos + 3" n] assms(2,4) by fastforce
  qed
qed


section \<open>Simple atoms\<close>

lemma whole_code_le: "whole_code m stop pos \<Longrightarrow> pos \<le> stop"
  by (subst (asm) whole_code.simps) (simp split: if_splits)

lemma whole_code_step:
  assumes "whole_code m stop pos" and "pos < stop"
  obtains op len where "op_at m pos = Some op" "re_op_len m pos op = Some len" "range_nonempty m pos op"
    "whole_code m stop (pos + len)" "pos + len \<le> stop"
  using assms by (subst (asm) whole_code.simps) (auto split: option.splits dest: whole_code_le)

lemma op_at_less: "op_at m pos = Some op \<Longrightarrow> pos < length m"
  by (auto simp: op_at_def bind_eq_Some_conv rd_Some_iff)

lemma re_op_len_fixed: "op \<notin> {REOP_range, REOP_range32} \<Longrightarrow> re_op_len m pos op = Some len \<Longrightarrow> len = reop_size op"
  by (cases op) (auto simp: re_op_len_def)

lemma simple_quantifier_atom:
  assumes "code_in m bc" and "op_at m stop = Some REOP_match" and "7 \<le> pos"
    and "whole_code m stop pos" and "simple_quantifier_loop m stop pos c = Some (int n)"
  shows "c \<le> n \<and> simple_atom bc (int pos) (n - c)"
  using assms
proof (induction m stop pos c rule: simple_quantifier_loop.induct)
  case (1 m stop pos c)
  note loop = "1.prems"(5) [unfolded simple_quantifier_loop.simps [of m stop pos c]]
  show ?case
  proof (cases "pos < stop")
    case False
    with whole_code_le [OF "1.prems"(4)] have "pos = stop" by simp
    then show ?thesis
      using loop op_at_code_in [OF "1.prems"(1,2)] "1.prems"(3) by (auto intro: sa_match)
  next
    case True
    from whole_code_step [OF "1.prems"(4) True] obtain op len where
      w: "op_at m pos = Some op" "re_op_len m pos op = Some len" "range_nonempty m pos op"
        "whole_code m stop (pos + len)" "pos + len \<le> stop" by blast
    have rdop: "rdi bc (int pos) = Some (reop_code op)"
      using op_at_code_in [OF "1.prems"(1) w(1)] "1.prems"(3) by simp
    have inside: "pos + len \<le> length m" using w(5) op_at_less [OF "1.prems"(2)] by simp
    consider (char) "op \<in> {REOP_range, REOP_range32, REOP_char, REOP_char32, REOP_dot, REOP_any}"
      | (anchor) "op \<in> {REOP_line_start, REOP_line_end, REOP_word_boundary, REOP_not_word_boundary}"
      using loop True w(1,2) by (fastforce split: if_splits)
    then show ?thesis
    proof cases
      case char
      then have "simple_quantifier_loop m stop (pos + len) (c + 1) = Some (int n)"
        using loop True w(1,2) by auto
      then have "c + 1 \<le> n \<and> simple_atom bc (int (pos + len)) (n - (c + 1))"
        using "1.IH"(1) [OF True w(1,2) char] "1.prems" w(4) by simp
      then have n: "c < n" "n - c = Suc (n - (c + 1))" and sa: "simple_atom bc (int (pos + len)) (n - (c + 1))" by auto
      have "simple_atom bc (int pos) (Suc (n - (c + 1)))"
        using char
      proof (elim insertE emptyE)
        assume o: "op = REOP_range"
        from range_op_inside(1) [OF "1.prems"(1,3) w(2) inside w(3) o] rdop sa o show ?thesis
          by (auto intro!: sa_range simp: add.assoc)
      next
        assume o: "op = REOP_range32"
        from range_op_inside(2) [OF "1.prems"(1,3) w(2) inside w(3) o] rdop sa o show ?thesis
          by (auto intro!: sa_range32 simp: add.assoc)
      next
        assume o: "op = REOP_char"
        then have l: "len = 3" using re_op_len_fixed [OF _ w(2)] by simp
        with get_u16_inside [of "int pos + 1" m] inside get_u16_code_in [OF "1.prems"(1), of "int pos + 1"] "1.prems"(3)
        show ?thesis using rdop sa o by (auto intro!: sa_char)
      next
        assume o: "op = REOP_char32"
        then have l: "len = 5" using re_op_len_fixed [OF _ w(2)] by simp
        with get_u32_inside [of "int pos + 1" m] inside get_u32_code_in [OF "1.prems"(1), of "int pos + 1"] "1.prems"(3)
        show ?thesis using rdop sa o by (auto intro!: sa_char32)
      next
        assume o: "op = REOP_dot"
        then have "len = 1" using re_op_len_fixed [OF _ w(2)] by simp
        with sa rdop o show ?thesis by (intro sa_dot) (simp_all add: add.commute)
      next
        assume o: "op = REOP_any"
        then have "len = 1" using re_op_len_fixed [OF _ w(2)] by simp
        with sa rdop o show ?thesis by (intro sa_any) (simp_all add: add.commute)
      qed
      then show ?thesis using n by simp
    next
      case anchor
      then have l: "len = 1" using re_op_len_fixed [OF _ w(2)] by auto
      have "simple_quantifier_loop m stop (pos + len) c = Some (int n)"
        using loop True w(1,2) anchor by auto
      then have "c \<le> n \<and> simple_atom bc (int pos + 1) (n - c)"
        using "1.IH"(2) [OF True w(1,2) _ anchor] anchor "1.prems" w(4) l by (auto simp: add.commute)
      then show ?thesis
        using anchor rdop by (auto intro: sa_line_start sa_line_end sa_word_boundary sa_not_word_boundary)
    qed
  qed
qed

section \<open>Instructions with their depths\<close>

lemma code_map_entry:
  assumes "code_map m pos d = Some l" and "(p, e, op) \<in> set l"
  shows "op_at m p = Some op \<and> pos \<le> p \<and> (\<exists>len. re_op_len m p op = Some len \<and> p + len \<le> length m)"
  using assms
proof (induction m pos d arbitrary: l rule: code_map.induct)
  case (1 m pos d)
  show ?case
  proof (cases "pos < length m")
    case True
    with "1.prems"(1) obtain op' len rest where
      c: "op_at m pos = Some op'" "re_op_len m pos op' = Some len" "pos + len \<le> length m"
        "code_map m (pos + len) (depth_after op' d) = Some rest" "l = (pos, d, op') # rest"
      by (subst (asm) code_map.simps) (auto simp: bind_eq_Some_conv split: if_splits)
    then show ?thesis
      using "1.IH" [OF True c(1,2), of rest] "1.prems"(2) by fastforce
  next
    case False
    with "1.prems" show ?thesis by (subst (asm) code_map.simps) simp
  qed
qed

lemma code_map_first:
  assumes "code_map m pos d = Some l" and "pos < length m"
  shows "\<exists>op rest. l = (pos, d, op) # rest"
  using assms by (subst (asm) code_map.simps) (auto simp: bind_eq_Some_conv split: if_splits)

text \<open>\<open>compute_stack_size\<close> bounds the depths of all instructions.\<close>

lemma stack_size_loop_bounds:
  assumes "stack_size_loop m pos d dm = Some r" and "0 \<le> r" and "code_map m pos d = Some l" and "d \<le> dm" and "dm \<le> 255"
  shows "int dm \<le> r \<and> r \<le> 255 \<and> (\<forall>(p, e, op) \<in> set l. int e \<le> r \<and> int (depth_after op e) \<le> r \<and>
    (op \<in> {REOP_drop, REOP_bne_char_pos} \<longrightarrow> 0 < e))"
  using assms
proof (induction m pos d dm arbitrary: l rule: stack_size_loop.induct)
  case (1 m pos d dm)
  note loop = "1.prems"(1) [unfolded stack_size_loop.simps [of m pos d dm]]
  show ?case
  proof (cases "pos < length m")
    case False
    then have "l = []" using "1.prems"(3) by (subst (asm) code_map.simps) simp
    with False loop "1.prems" show ?thesis by simp
  next
    case True
    with "1.prems"(3) obtain op len rest where
      c: "op_at m pos = Some op" "re_op_len m pos op = Some len"
        "code_map m (pos + len) (depth_after op d) = Some rest" "l = (pos, d, op) # rest"
      by (subst (asm) code_map.simps) (auto simp: bind_eq_Some_conv split: if_splits)
    have sz: "\<not> pos + reop_size op > length m" using loop True c(1) by (auto split: if_splits)
    note IH = "1.IH" [OF True c(1) sz c(2)]
    consider (push) "op \<in> {REOP_push_i32, REOP_push_char_pos}" | (pop) "op \<in> {REOP_drop, REOP_bne_char_pos}"
      | (other) "op \<notin> {REOP_push_i32, REOP_push_char_pos}" "op \<notin> {REOP_drop, REOP_bne_char_pos}" by blast
    then show ?thesis
    proof cases
      case push
      then have da: "depth_after op d = d + 1" by (auto simp: depth_after_def)
      show ?thesis
      proof (cases "d + 1 > dm")
        case grow: True
        with loop True c(1,2) sz push "1.prems"(2) have le: "\<not> d + 1 > 255" by (auto split: if_splits)
        then have "stack_size_loop m (pos + len) (d + 1) (d + 1) = Some r"
          using loop True c(1,2) sz push grow by auto
        then show ?thesis
          using IH(1) [OF push grow le, of rest] c(3,4) da grow le push "1.prems"(2,4) by fastforce
      next
        case False
        then have "stack_size_loop m (pos + len) (d + 1) dm = Some r"
          using loop True c(1,2) sz push by auto
        then show ?thesis
          using IH(2) [OF push False, of rest] c(3,4) da False push "1.prems"(2,5) by fastforce
      qed
    next
      case pop
      then have da: "depth_after op d = d - 1" "op \<notin> {REOP_push_i32, REOP_push_char_pos}" by (auto simp: depth_after_def)
      have d: "0 < d" using loop True c(1,2) sz pop da(2) by (auto split: if_splits)
      then have "stack_size_loop m (pos + len) (d - 1) dm = Some r"
        using loop True c(1,2) sz pop da(2) by auto
      then show ?thesis
        using IH(3) [OF da(2) pop d, of rest] c(3,4) da d pop "1.prems"(2,4,5) by fastforce
    next
      case other
      then have da: "depth_after op d = d" by (auto simp: depth_after_def)
      have "stack_size_loop m (pos + len) d dm = Some r"
        using loop True c(1,2) sz other by auto
      then show ?thesis
        using IH(4) [OF other, of rest] c(3,4) da other "1.prems"(2,4,5) by fastforce
    qed
  qed
qed


section \<open>Well typed code\<close>

lemma jump_ok_in:
  assumes "code_in m bc" and "jump_ok m D p d" and "7 \<le> p"
  shows "\<exists>off. get_u32 bc p = Some off \<and> D (p + 4 + sint off) = Some d"
  using assms get_u32_code_in [OF assms(1)] by (auto simp: jump_ok_def split: option.splits)

lemma capture_index_ok_in:
  assumes "code_in m bc" and "capture_index_ok m p cc" and "7 \<le> p"
  shows "\<exists>n. rdi bc p = Some n \<and> unat n < cc"
  using assms rdi_code_in [OF assms(1)] by (auto simp: capture_index_ok_def split: option.splits)

lemma case_four:
  "(case (a, b, c, d) of (Some w, Some x, Some y, Some z) \<Rightarrow> P w x y z | _ \<Rightarrow> False) \<longleftrightarrow>
    (\<exists>w x y z. a = Some w \<and> b = Some x \<and> c = Some y \<and> d = Some z \<and> P w x y z)"
  by (cases a; cases b; cases c; cases d) simp_all

lemma quantifier_ok_in:
  assumes c: "code_in m bc" and q: "quantifier_ok m D p d" and "7 \<le> p"
  shows "\<exists>np k. quant_at bc (int p) np k \<and> D np = Some d"
proof -
  from q obtain off qmin qmax cc where
    o: "get_u32 m (int p) = Some off" "get_u32 m (int p + 4) = Some qmin" "get_u32 m (int p + 8) = Some qmax"
      "get_u32 m (int p + 12) = Some cc" "0 < sint off" "D (int p + 16 + sint off) = Some d"
    and b: "op_at m (p + 16 + nat (sint off) - 1) = Some REOP_match"
      "whole_code m (p + 16 + nat (sint off) - 1) (p + 16)" "0 < cc"
      "re_is_simple_quantifier m (p + 16) (p + 16 + nat (sint off) - 1 - (p + 16)) = Some (uint cc)"
    unfolding quantifier_ok_def case_four Let_def by (elim exE conjE) (rule that)
  let ?stop = "p + 16 + nat (sint off) - 1"
  have "p + 16 + (?stop - (p + 16)) = ?stop" using o(5) by simp
  then have "simple_quantifier_loop m ?stop (p + 16) 0 = Some (int (unat cc))"
    using b(4) by (simp add: re_is_simple_quantifier_def)
  then have "simple_atom bc (int (p + 16)) (unat cc)"
    using simple_quantifier_atom [OF c b(1) _ b(2), of 0 "unat cc"] assms(3) by simp
  moreover have "get_u32 bc (int p) = Some off" "get_u32 bc (int p + 4) = Some qmin"
    "get_u32 bc (int p + 8) = Some qmax" "get_u32 bc (int p + 12) = Some cc"
    using o(1-4) assms(3) by (auto intro: get_u32_code_in [OF c])
  moreover have "0 < unat cc" using b(3) by (simp add: word_less_nat_alt)
  ultimately have "quant_at bc (int p) (int p + 16 + sint off) (unat cc)" by (simp add: quant_at_def)
  with o(6) show ?thesis by blast
qed

lemma rdi_inside: "0 \<le> p \<Longrightarrow> p < int (length m) \<Longrightarrow> \<exists>v. rdi m p = Some v"
  by (auto simp: rdi_def rd_def)

lemma instr_ok_op_ok:
  assumes c: "code_in m bc" and s: "rc_bc s = bc" "rc_capture_count s = cc"
    and i: "instr_ok m cc D (pos, d, op)" and pos: "7 \<le> pos"
    and len: "re_op_len m pos op = Some len" "pos + len \<le> length m"
    and push: "depth_after op d \<le> rc_stack_size_max s"
    and pop: "op \<in> {REOP_drop, REOP_bne_char_pos} \<Longrightarrow> 0 < d"
  shows "op_ok s D (int pos + 1) d op"
proof -
  note r = rdi_code_in [OF c] get_u16_code_in [OF c] get_u32_code_in [OF c]
  have l: "len = reop_size op" if "op \<notin> {REOP_range, REOP_range32}" using re_op_len_fixed [OF that len(1)] .
  have b: "\<exists>v. rdi bc (int pos + 1) = Some v" if "1 < len"
    using rdi_inside [of "int pos + 1" m] r(1) [of "int pos + 1"] len(2) that pos by fastforce
  have b2: "\<exists>v. rdi bc (int pos + 2) = Some v" if "2 < len"
    using rdi_inside [of "int pos + 2" m] r(1) [of "int pos + 2"] len(2) that pos by fastforce
  have u: "\<exists>v. get_u16 bc (int pos + 1) = Some v" if "2 < len"
    using get_u16_inside [of "int pos + 1" m] r(2) [of "int pos + 1"] len(2) that pos by fastforce
  have w: "\<exists>v. get_u32 bc (int pos + 1) = Some v" if "4 < len"
    using get_u32_inside [of "int pos + 1" m] r(3) [of "int pos + 1"] len(2) that pos by fastforce
  note j = jump_ok_in [OF c, of D "int pos + 1"] capture_index_ok_in [OF c, of "int pos + 1" cc]
    capture_index_ok_in [OF c, of "int pos + 2" cc] quantifier_ok_in [OF c, of D "pos + 1"]
  show ?thesis
  proof (cases op)
    case REOP_range
    with i have ne: "range_nonempty m pos op" by (simp add: instr_ok_def)
    from range_op_inside(1) [OF c pos len ne REOP_range] obtain n L H where
      n: "get_u16 bc (int pos + 1) = Some (of_nat n)" "len = 3 + 4 * n" "range_table bc (int pos + 3) n L H" by blast
    then show ?thesis using REOP_range i len(1)
      by (auto simp: instr_ok_def s(1) depth_after_def add.assoc intro!: exI [of _ n])
  next
    case REOP_range32
    with i have ne: "range_nonempty m pos op" by (simp add: instr_ok_def)
    from range_op_inside(2) [OF c pos len ne REOP_range32] obtain n L H where
      n: "get_u16 bc (int pos + 1) = Some (of_nat n)" "len = 3 + 8 * n" "range32_table bc (int pos + 3) n L H" by blast
    then show ?thesis using REOP_range32 i len(1)
      by (auto simp: instr_ok_def s(1) depth_after_def add.assoc intro!: exI [of _ n])
  qed (use i pos l len(1) b b2 u w j push pop in
      \<open>auto simp: instr_ok_def Let_def s depth_after_def add.commute add.left_commute\<close>)
qed


lemma check_code_well_typed:
  assumes c: "code_in m bc" and "rc_bc s = bc" and "check_code m (rc_capture_count s)"
    and "compute_stack_size m = Some r" and "0 \<le> r" and "rc_stack_size_max s = nat r"
  shows "\<exists>D. well_typed s D \<and> D 7 = Some 0"
proof -
  from assms(3) obtain l where l: "code_map m RE_HEADER_LEN 0 = Some l" "RE_HEADER_LEN < length m"
    "list_all (instr_ok m (rc_capture_count s) (code_depths l)) l"
    by (auto simp: check_code_def split: option.splits)
  from stack_size_loop_bounds [OF assms(4) [unfolded compute_stack_size_def] assms(5) l(1)]
  have st: "\<forall>(p, e, op) \<in> set l. int (depth_after op e) \<le> r \<and> (op \<in> {REOP_drop, REOP_bne_char_pos} \<longrightarrow> 0 < e)"
    by auto
  have "well_typed s (code_depths l)"
    unfolding well_typed_def
  proof (intro allI impI)
    fix p d
    assume "code_depths l p = Some d"
    then obtain pos op where e: "(pos, d, op) \<in> set l" "p = int pos"
      by (auto simp: code_depths_def dest!: map_of_SomeD)
    from code_map_entry [OF l(1) e(1)] obtain len where
      m: "op_at m pos = Some op" "7 \<le> pos" "re_op_len m pos op = Some len" "pos + len \<le> length m" by blast
    have "instr_ok m (rc_capture_count s) (code_depths l) (pos, d, op)" using l(3) e(1) by (auto simp: list_all_iff)
    moreover have "depth_after op d \<le> rc_stack_size_max s" "op \<in> {REOP_drop, REOP_bne_char_pos} \<Longrightarrow> 0 < d"
      using st e(1) assms(6) by (fastforce simp: le_nat_iff)+
    ultimately have "op_ok s (code_depths l) (int pos + 1) d op"
      using instr_ok_op_ok [OF c assms(2) refl _ m(2-4)] by blast
    then show "\<exists>op. rdi (rc_bc s) p = Some (reop_code op) \<and> op_ok s (code_depths l) (p + 1) d op"
      using op_at_code_in [OF c m(1,2)] e(2) assms(2) by blast
  qed
  moreover have "code_depths l 7 = Some 0"
    using code_map_first [OF l(1,2)] by (auto simp: code_depths_def)
  ultimately show ?thesis by blast
qed

end
