(* ===== verification/ReCompile.thy ===== *)
theory ReCompile
  imports ReParse ReCheck UnicodeNorm
begin

text \<open>
  The code generator of the regular expression compiler (\<open>libregexp.c\<close>, \<open>re_emit_op\<close> to \<open>lre_compile\<close>): emission
  into the dynamic buffer with its deferred errors, the ranges, atoms, quantifiers, alternatives and the recursive
  descent.  The code is one pass: it moves and copies bytes that are already emitted.  The \<open>int\<close> variables that
  hold sizes and positions are natural numbers, which is what they hold as long as the buffer has fewer than
  \<open>2 ^ 31\<close> bytes.
\<close>

section \<open>Emission\<close>

text \<open>The return values of the buffer are ignored, its error flag is tested later.\<close>

definition emit :: "re_parse_state \<Rightarrow> u8 list \<Rightarrow> re_parse_state option" where
  "emit s bs = map_option (\<lambda>(r, b). s\<lparr>byte_code := b\<rparr>) (dbuf_put (byte_code s) bs)"

fun emits :: "re_parse_state \<Rightarrow> u8 list list \<Rightarrow> re_parse_state option" where
  "emits s [] = Some s"
| "emits s (b # bs) = (case emit s b of None \<Rightarrow> None | Some s \<Rightarrow> emits s bs)"

definition re_emit_op :: "re_parse_state \<Rightarrow> reop \<Rightarrow> re_parse_state option" where
  "re_emit_op s op = emits s [[reop_code op]]"

text \<open>\<open>re_emit_op_u32\<close> and \<open>re_emit_goto\<close> return the position of the operand.\<close>

definition re_emit_op_u32 :: "re_parse_state \<Rightarrow> reop \<Rightarrow> u32 \<Rightarrow> (nat \<times> re_parse_state) option" where
  "re_emit_op_u32 s op val = do {
     s \<leftarrow> emit s [reop_code op];
     let pos = db_size (byte_code s);
     s \<leftarrow> emit s (le_bytes val);
     Some (pos, s)
   }"

definition re_emit_goto :: "re_parse_state \<Rightarrow> reop \<Rightarrow> nat \<Rightarrow> (nat \<times> re_parse_state) option" where
  "re_emit_goto s op val = do {
     s \<leftarrow> emit s [reop_code op];
     let pos = db_size (byte_code s);
     s \<leftarrow> emit s (le_bytes (of_nat val - of_nat (pos + 4)));
     Some (pos, s)
   }"

definition re_emit_op_u8 :: "re_parse_state \<Rightarrow> reop \<Rightarrow> u8 \<Rightarrow> re_parse_state option" where
  "re_emit_op_u8 s op val = emits s [[reop_code op], [val]]"

definition re_emit_op_u16 :: "re_parse_state \<Rightarrow> reop \<Rightarrow> u32 \<Rightarrow> re_parse_state option" where
  "re_emit_op_u16 s op val = emits s [[reop_code op], take 2 (le_bytes val)]"

text \<open>Stores into the block of the buffer, at its used size or not.\<close>

definition poke :: "re_parse_state \<Rightarrow> nat \<Rightarrow> u8 list \<Rightarrow> re_parse_state option" where
  "poke s pos bs = do {
     b \<leftarrow> wr_block (db_buf (byte_code s)) pos bs;
     Some (s\<lparr>byte_code := (byte_code s)\<lparr>db_buf := b\<rparr>\<rparr>)
   }"

definition insert_gap :: "re_parse_state \<Rightarrow> nat \<Rightarrow> nat \<Rightarrow> re_parse_state re_result" where
  "insert_gap s pos len = (case dbuf_insert (byte_code s) pos len of None \<Rightarrow> None
     | Some (r, b) \<Rightarrow> if r \<noteq> 0 then re_parse_out_of_memory else re_ok (s\<lparr>byte_code := b\<rparr>))"

text \<open>An insertion of \<open>length bs\<close> bytes that are then stored.\<close>

definition insert_code :: "re_parse_state \<Rightarrow> nat \<Rightarrow> u8 list \<Rightarrow> re_parse_state re_result" where
  "insert_code s pos bs = andthen (insert_gap s pos (length bs)) (\<lambda>s. step_of (poke s pos bs))"

section \<open>Ranges\<close>

text \<open>The pairs of a range as operands of 16 or 32 bits.\<close>

fun range_operands :: "(u32 \<Rightarrow> u32 \<Rightarrow> u8 list list) \<Rightarrow> u32 list \<Rightarrow> u8 list list option" where
  "range_operands f [] = Some []"
| "range_operands f [x] = None"
| "range_operands f (x # y # xs) = map_option (\<lambda>r. f x y @ r) (range_operands f xs)"

definition range16 :: "u32 \<Rightarrow> u32 \<Rightarrow> u8 list list" where
  "range16 low high = (let high = high - 1; high = (if high = UINT32_MAX - 1 then 0xffff else high)
     in [take 2 (le_bytes low), take 2 (le_bytes high)])"

definition range32 :: "u32 \<Rightarrow> u32 \<Rightarrow> u8 list list" where
  "range32 low high = [le_bytes low, le_bytes (high - 1)]"

definition re_emit_range :: "re_parse_state \<Rightarrow> charrange \<Rightarrow> re_parse_state re_result" where
  "re_emit_range s cr =
     (let pts = cr_pts cr; len = length pts div 2 in
      if len \<ge> 65535 then re_parse_error ''too many ranges''
      else if len = 0 then step_of (map_option snd (re_emit_op_u32 s REOP_char32 (- 1)))
      else step_of (do {
        high \<leftarrow> rd pts (length pts - 1);
        high \<leftarrow> (if high = UINT32_MAX then rd pts (length pts - 2) else Some high);
        if high \<le> 0xffff then do {
          s \<leftarrow> re_emit_op_u16 s REOP_range (of_nat len);
          ops \<leftarrow> range_operands range16 pts;
          emits s ops
        } else do {
          s \<leftarrow> re_emit_op_u16 s REOP_range32 (of_nat len);
          ops \<leftarrow> range_operands range32 pts;
          emits s ops
        }
      }))"

definition re_parse_char_class :: "re_parse_state \<Rightarrow> nat \<Rightarrow> (nat \<times> re_parse_state) re_result" where
  "re_parse_char_class s p =
     andthen (char_class_set s p) (\<lambda>(cr, p, s).
     andthen (re_emit_range s cr) (\<lambda>s. re_ok (p + 1, s)))"

section \<open>Empty iterations\<close>

text \<open>\<open>re_check_advance\<close> on the code from \<open>pos\<close> to \<open>stop\<close>: the verdict of the first character, the captures the
  code sets (bit 0) and refers to (bit 1), and whether there is a back reference.\<close>

definition mark_capture :: "nat list \<Rightarrow> nat \<Rightarrow> nat \<Rightarrow> nat list option" where
  "mark_capture bm val b = do { x \<leftarrow> rd bm val; wr bm val (x OR b) }"

fun mark_captures :: "nat list \<Rightarrow> nat \<Rightarrow> nat \<Rightarrow> nat list option" where
  "mark_captures bm val 0 = Some bm"
| "mark_captures bm val (Suc n) = (case mark_capture bm val 1 of None \<Rightarrow> None
     | Some bm \<Rightarrow> mark_captures bm (val + 1) n)"

function check_advance_loop ::
  "u8 list \<Rightarrow> nat \<Rightarrow> nat \<Rightarrow> int \<Rightarrow> nat list \<Rightarrow> bool \<Rightarrow> (int \<times> nat list \<times> bool) option" where
  "check_advance_loop m stop pos ret bm has_back =
     (if pos < stop then do {
        op \<leftarrow> op_at m pos;
        len \<leftarrow> re_op_len m pos op;
        if op \<in> {REOP_range, REOP_range32, REOP_char, REOP_char32, REOP_dot, REOP_any} then
          check_advance_loop m stop (pos + len) (if ret = -2 then 1 else ret) bm has_back
        else if op \<in> {REOP_line_start, REOP_line_end, REOP_push_i32, REOP_push_char_pos, REOP_drop,
            REOP_word_boundary, REOP_not_word_boundary, REOP_prev} then
          check_advance_loop m stop (pos + len) ret bm has_back
        else if op \<in> {REOP_save_start, REOP_save_end} then do {
          val \<leftarrow> rd m (pos + 1);
          bm \<leftarrow> mark_capture bm (unat val) 1;
          check_advance_loop m stop (pos + len) ret bm has_back
        }
        else if op = REOP_save_reset then do {
          val \<leftarrow> rd m (pos + 1);
          l \<leftarrow> rd m (pos + 2);
          bm \<leftarrow> mark_captures bm (unat val) (unat l - unat val);
          check_advance_loop m stop (pos + len) ret bm has_back
        }
        else if op \<in> {REOP_back_reference, REOP_backward_back_reference} then do {
          val \<leftarrow> rd m (pos + 1);
          bm \<leftarrow> mark_capture bm (unat val) 2;
          check_advance_loop m stop (pos + len) ret bm True
        }
        else check_advance_loop m stop (pos + len) (if ret = -2 then 0 else ret) bm has_back
      } else Some (ret, bm, has_back))"
  by pat_completeness auto
termination
  by (relation "measure (\<lambda>(m, stop, pos, r, bm, h). stop - pos)") (auto dest: re_op_len_pos)

declare check_advance_loop.simps [simp del]

definition re_check_advance :: "u8 list \<Rightarrow> nat \<Rightarrow> nat \<Rightarrow> int option" where
  "re_check_advance m bc_buf bc_buf_len = do {
     (ret, bm, has_back) \<leftarrow> check_advance_loop m (bc_buf + bc_buf_len) bc_buf (-2) (replicate CAPTURE_COUNT_MAX 0) False;
     Some (if has_back \<and> 3 \<in> set bm then -1 else if ret = -2 then 0 else ret)
   }"

section \<open>Quantifiers\<close>

text \<open>\<open>REOP_split_goto_first + greedy\<close>.\<close>

definition split_op :: "bool \<Rightarrow> reop" where
  "split_op greedy = (if greedy then REOP_split_next_first else REOP_split_goto_first)"

abbreviation (input) "code_size s \<equiv> db_size (byte_code s)"

text \<open>The optimised form: an atom that \<open>re_is_simple_quantifier\<close> accepts is closed by \<open>REOP_match\<close> and gets the
  instruction \<open>REOP_simple_greedy_quant\<close> in front.  The result tells whether it was used.\<close>

definition emit_simple_quantifier ::
  "re_parse_state \<Rightarrow> nat \<Rightarrow> int \<Rightarrow> int \<Rightarrow> (bool \<times> re_parse_state) re_result" where
  "emit_simple_quantifier s start quant_min quant_max =
     (if db_error (byte_code s) then re_parse_out_of_memory
      else (case re_is_simple_quantifier (db_buf (byte_code s)) start (code_size s - start) of None \<Rightarrow> None
        | Some len \<Rightarrow>
            if len > 0 then
              andthen (step_of (re_emit_op s REOP_match)) (\<lambda>s.
              andthen (insert_gap s start 17) (\<lambda>s.
              andthen (step_of (poke s start (reop_code REOP_simple_greedy_quant #
                  le_bytes (of_nat (code_size s - start - 17)) @ le_bytes (word_of_int quant_min) @
                  le_bytes (word_of_int quant_max) @ le_bytes (word_of_int len)))) (\<lambda>s.
              re_ok (True, s))))
            else re_ok (False, s)))"

text \<open>A minimum of zero: the captures of the atom are reset in front of it, the atom may be skipped.\<close>

definition emit_reset :: "re_parse_state \<Rightarrow> nat \<Rightarrow> nat \<Rightarrow> (nat \<times> re_parse_state) re_result" where
  "emit_reset s start last_capture_count =
     (if last_capture_count \<noteq> capture_count s then
        andthen (insert_code s start [reop_code REOP_save_reset, of_nat last_capture_count,
          of_nat (capture_count s - 1)]) (\<lambda>s. re_ok (start + 3, s))
      else re_ok (start, s))"

definition emit_optional ::
  "re_parse_state \<Rightarrow> nat \<Rightarrow> nat \<Rightarrow> int \<Rightarrow> bool \<Rightarrow> bool \<Rightarrow> re_parse_state re_result" where
  "emit_optional s start len quant_max greedy add_zero_advance_check =
     (if quant_max = 0 then re_ok (s\<lparr>byte_code := (byte_code s)\<lparr>db_size := start\<rparr>\<rparr>)
      else if quant_max = 1 then insert_code s start (reop_code (split_op greedy) # le_bytes (of_nat len))
      else if quant_max = int INT32_MAX then
        andthen (insert_code s start (reop_code (split_op greedy) #
          le_bytes (of_nat (len + 5 + of_bool add_zero_advance_check)) @
          (if add_zero_advance_check then [reop_code REOP_push_char_pos] else []))) (\<lambda>s.
        step_of (map_option snd
          (re_emit_goto s (if add_zero_advance_check then REOP_bne_char_pos else REOP_goto) start)))
      else
        andthen (insert_code s start (reop_code REOP_push_i32 # le_bytes (word_of_int quant_max) @
          reop_code (split_op greedy) # le_bytes (of_nat (len + 5)))) (\<lambda>s.
        step_of (do { (_, s) \<leftarrow> re_emit_goto s REOP_loop (start + 5); re_emit_op s REOP_drop })))"

definition put_self :: "re_parse_state \<Rightarrow> nat \<Rightarrow> nat \<Rightarrow> re_parse_state option" where
  "put_self s start len = map_option (\<lambda>(r, b). s\<lparr>byte_code := b\<rparr>) (dbuf_put_self (byte_code s) start len)"

text \<open>A minimum above one: the atom in a counted loop.\<close>

definition emit_minimum :: "re_parse_state \<Rightarrow> nat \<Rightarrow> int \<Rightarrow> (nat \<times> re_parse_state) re_result" where
  "emit_minimum s start quant_min =
     (if quant_min = 1 then re_ok (start, s)
      else andthen (insert_code s start (reop_code REOP_push_i32 # le_bytes (word_of_int quant_min))) (\<lambda>s.
        step_of (do {
          (_, s) \<leftarrow> re_emit_goto s REOP_loop (start + 5);
          s \<leftarrow> re_emit_op s REOP_drop;
          Some (start + 5, s)
        })))"

text \<open>What follows the minimum: copies of the atom.\<close>

definition emit_rest ::
  "re_parse_state \<Rightarrow> nat \<Rightarrow> nat \<Rightarrow> int \<Rightarrow> int \<Rightarrow> bool \<Rightarrow> bool \<Rightarrow> re_parse_state option" where
  "emit_rest s start len quant_min quant_max greedy add_zero_advance_check =
     (if quant_max = int INT32_MAX then do {
        let pos = code_size s;
        (_, s) \<leftarrow> re_emit_op_u32 s (split_op greedy) (of_nat (len + 5 + of_bool add_zero_advance_check));
        s \<leftarrow> (if add_zero_advance_check then re_emit_op s REOP_push_char_pos else Some s);
        s \<leftarrow> put_self s start len;
        map_option snd (re_emit_goto s (if add_zero_advance_check then REOP_bne_char_pos else REOP_goto) pos)
      } else if quant_max > quant_min then do {
        (_, s) \<leftarrow> re_emit_op_u32 s REOP_push_i32 (word_of_int (quant_max - quant_min));
        let pos = code_size s;
        (_, s) \<leftarrow> re_emit_op_u32 s (split_op greedy) (of_nat (len + 5));
        s \<leftarrow> put_self s start len;
        (_, s) \<leftarrow> re_emit_goto s REOP_loop pos;
        re_emit_op s REOP_drop
      } else Some s)"

definition emit_general_quantifier ::
  "re_parse_state \<Rightarrow> nat \<Rightarrow> nat \<Rightarrow> int \<Rightarrow> int \<Rightarrow> bool \<Rightarrow> bool \<Rightarrow> re_parse_state re_result" where
  "emit_general_quantifier s start last_capture_count quant_min quant_max greedy add_zero_advance_check =
     (let len = code_size s - start in
      if quant_min = 0 then
        andthen (emit_reset s start last_capture_count) (\<lambda>(start, s).
          emit_optional s start len quant_max greedy add_zero_advance_check)
      else if quant_min = 1 \<and> quant_max = int INT32_MAX \<and> \<not> add_zero_advance_check then
        step_of (map_option snd (re_emit_goto s (split_op (\<not> greedy)) start))
      else
        andthen (emit_minimum s start quant_min) (\<lambda>(start, s).
          step_of (emit_rest s start len quant_min quant_max greedy add_zero_advance_check)))"

definition emit_quantifier ::
  "re_parse_state \<Rightarrow> nat \<Rightarrow> nat \<Rightarrow> int \<Rightarrow> int \<Rightarrow> bool \<Rightarrow> re_parse_state re_result" where
  "emit_quantifier s start last_capture_count quant_min quant_max greedy =
     andthen (if greedy \<and> quant_max > 0 then emit_simple_quantifier s start quant_min quant_max
       else re_ok (False, s)) (\<lambda>(done, s).
     if done then re_ok s
     else andthen (if greedy then
         (if db_error (byte_code s) then re_parse_out_of_memory
          else step_of (map_option (\<lambda>r. r = 0)
            (re_check_advance (db_buf (byte_code s)) start (code_size s - start))))
       else re_ok False) (\<lambda>add_zero_advance_check.
     emit_general_quantifier s start last_capture_count quant_min quant_max greedy add_zero_advance_check))"

text \<open>The text of a quantifier: its bounds, or nothing when the characters are no quantifier.\<close>

definition brace_quantifier :: "re_parse_state \<Rightarrow> nat \<Rightarrow> ((int \<times> int) option \<times> nat) re_result" where
  "brace_quantifier s p = (let buf = re_buf s in
     case rd buf (p + 1) of None \<Rightarrow> None
     | Some b \<Rightarrow>
         if \<not> is_digit b then
           (if re_is_utf16 s then re_parse_error ''invalid repetition count'' else re_ok (None, p))
         else
           andthen (step_of (parse_digits buf (p + 1) True)) (\<lambda>(quant_min, q).
           andthen (step_of (rd buf q)) (\<lambda>b.
           andthen (if b = ch CHR '','' then
               andthen (step_of (rd buf (q + 1))) (\<lambda>b.
                 if is_digit b then
                   andthen (step_of (parse_digits buf (q + 1) True)) (\<lambda>(quant_max, q).
                     if quant_max < quant_min then re_parse_error ''invalid repetition count''
                     else re_ok (quant_max, q))
                 else re_ok (int INT32_MAX, q + 1))
             else re_ok (quant_min, q)) (\<lambda>(quant_max, q).
           andthen (step_of (rd buf q)) (\<lambda>b.
             if b \<noteq> ch CHR ''}'' \<and> \<not> re_is_utf16 s then re_ok (None, p)
             else andthen (re_parse_expect s q CHR ''}'') (\<lambda>q. re_ok (Some (quant_min, quant_max), q)))))))"

definition quantifier_text :: "re_parse_state \<Rightarrow> nat \<Rightarrow> ((int \<times> int) option \<times> nat) re_result" where
  "quantifier_text s p = (case rd (re_buf s) p of None \<Rightarrow> None
     | Some c \<Rightarrow>
         if c = ch CHR ''*'' then re_ok (Some (0, int INT32_MAX), p + 1)
         else if c = ch CHR ''+'' then re_ok (Some (1, int INT32_MAX), p + 1)
         else if c = ch CHR ''?'' then re_ok (Some (0, 1), p + 1)
         else if c = ch CHR ''{'' then brace_quantifier s p
         else re_ok (None, p))"

definition re_parse_quantifier :: "re_parse_state \<Rightarrow> nat \<Rightarrow> nat \<Rightarrow> nat \<Rightarrow> (nat \<times> re_parse_state) re_result" where
  "re_parse_quantifier s p start last_capture_count =
     andthen (quantifier_text s p) (\<lambda>(quant, p). case quant of None \<Rightarrow> re_ok (p, s)
       | Some (quant_min, quant_max) \<Rightarrow>
           andthen (step_of (rd (re_buf s) p)) (\<lambda>b.
             let greedy = (b \<noteq> ch CHR ''?''); p = (if greedy then p else p + 1) in
             andthen (emit_quantifier s start last_capture_count quant_min quant_max greedy) (\<lambda>s. re_ok (p, s))))"

section \<open>Atoms\<close>

text \<open>The result of the \<open>switch\<close> of \<open>re_parse_term\<close>: the position, where the atom starts in the code with the number
  of captures before it (nothing when no quantifier may follow), and the state.\<close>

type_synonym re_atom = "nat \<times> (nat \<times> nat) option \<times> re_parse_state"

definition atom_start :: "re_parse_state \<Rightarrow> (nat \<times> nat) option" where
  "atom_start s = Some (code_size s, capture_count s)"

text \<open>The code of a character in the direction of the match.\<close>

definition directed :: "re_parse_state \<Rightarrow> bool \<Rightarrow> (re_parse_state \<Rightarrow> (nat \<times> re_parse_state) re_result) \<Rightarrow> re_atom re_result" where
  "directed s is_backward_dir f =
     andthen (step_of (if is_backward_dir then re_emit_op s REOP_prev else Some s)) (\<lambda>s1.
     andthen (f s1) (\<lambda>(p, s1).
     andthen (step_of (if is_backward_dir then re_emit_op s1 REOP_prev else Some s1)) (\<lambda>s1.
     re_ok (p, atom_start s, s1))))"

definition emit_char :: "re_parse_state \<Rightarrow> u32 \<Rightarrow> charrange option \<Rightarrow> re_parse_state re_result" where
  "emit_char s c cr =
     (if c \<ge> CLASS_RANGE_BASE then (case cr of None \<Rightarrow> None | Some cr \<Rightarrow> re_emit_range s cr)
      else step_of (do {
        c \<leftarrow> (if re_ignore_case s then lre_canonicalize c (re_is_utf16 s) else Some c);
        if c \<le> 0xffff then re_emit_op_u16 s REOP_char c
        else map_option snd (re_emit_op_u32 s REOP_char32 c)
      }))"

definition char_atom :: "re_parse_state \<Rightarrow> nat \<Rightarrow> bool \<Rightarrow> u32 \<Rightarrow> charrange option \<Rightarrow> re_atom re_result" where
  "char_atom s p is_backward_dir c cr =
     directed s is_backward_dir (\<lambda>s. andthen (emit_char s c cr) (\<lambda>s. re_ok (p, s)))"

definition class_atom :: "re_parse_state \<Rightarrow> nat \<Rightarrow> bool \<Rightarrow> re_atom re_result" where
  "class_atom s p is_backward_dir =
     andthen (get_class_atom s p False) (\<lambda>(c, cr, p, s). char_atom s p is_backward_dir c cr)"

definition back_reference :: "re_parse_state \<Rightarrow> nat \<Rightarrow> bool \<Rightarrow> int \<Rightarrow> re_atom re_result" where
  "back_reference s p is_backward_dir c =
     andthen (step_of (re_emit_op_u8 s
       (if is_backward_dir then REOP_backward_back_reference else REOP_back_reference) (word_of_int c)))
       (\<lambda>s1. re_ok (p, atom_start s, s1))"

text \<open>The escapes of a term.  An octal escape: up to \<open>n\<close> more digits.\<close>

fun octal_digits :: "u8 list \<Rightarrow> nat \<Rightarrow> nat \<Rightarrow> u32 \<Rightarrow> (u32 \<times> nat) option" where
  "octal_digits buf p 0 c = Some (c, p)"
| "octal_digits buf p (Suc n) c = (case rd buf p of None \<Rightarrow> None
     | Some b \<Rightarrow> if b \<ge> ch CHR ''0'' \<and> b \<le> ch CHR ''7''
         then octal_digits buf (p + 1) n (push_bit 3 c + ucast b - 48) else Some (c, p))"

text \<open>A reference by name.\<close>

definition named_reference :: "re_parse_state \<Rightarrow> nat \<Rightarrow> bool \<Rightarrow> re_atom re_result" where
  "named_reference s p is_backward_dir =
     (let unknown = (\<lambda>msg. if re_is_utf16 s then re_parse_error msg
            else andthen (step_of (re_has_named_captures s)) (\<lambda>(named, s).
              if named then re_parse_error msg else class_atom s p is_backward_dir))
      in case rd (re_buf s) (p + 2) of None \<Rightarrow> None
      | Some b \<Rightarrow>
          if b \<noteq> ch CHR ''<'' then unknown ''expecting group name''
          else (case re_parse_group_name (re_buf s) (p + 3) (re_is_utf16 s) of None \<Rightarrow> None
            | Some None \<Rightarrow> unknown ''invalid group name''
            | Some (Some (name, q)) \<Rightarrow>
                andthen (step_of (find_group_name s name)) (\<lambda>c.
                if c \<ge> 0 then back_reference s q is_backward_dir c
                else andthen (step_of (re_parse_captures s (Some name))) (\<lambda>(c, _).
                  if c \<ge> 0 then back_reference s q is_backward_dir c
                  else unknown ''group name not defined''))))"

definition null_escape :: "re_parse_state \<Rightarrow> nat \<Rightarrow> bool \<Rightarrow> re_atom re_result" where
  "null_escape s p is_backward_dir =
     (if re_is_utf16 s then
        andthen (step_of (rd (re_buf s) (p + 2))) (\<lambda>b.
          if is_digit b then re_parse_error ''invalid decimal escape in regular expression''
          else char_atom s (p + 2) is_backward_dir 0 None)
      else andthen (step_of (octal_digits (re_buf s) (p + 2) 2 0)) (\<lambda>(c, p).
        char_atom s p is_backward_dir c None))"

text \<open>A decimal escape at \<open>q\<close>, behind the backslash: a back reference, or else a legacy octal number.\<close>

definition legacy_octal :: "u8 list \<Rightarrow> nat \<Rightarrow> (u32 \<times> nat) option" where
  "legacy_octal buf q = (case rd buf q of None \<Rightarrow> None
     | Some b \<Rightarrow>
         if b \<le> ch CHR ''7'' then
           (if b \<le> ch CHR ''3'' then octal_digits buf (q + 1) 2 (ucast b - 48) else octal_digits buf q 2 0)
         else Some (ucast b, q + 1))"

definition decimal_escape :: "re_parse_state \<Rightarrow> nat \<Rightarrow> bool \<Rightarrow> re_atom re_result" where
  "decimal_escape s q is_backward_dir =
     andthen (step_of (parse_digits (re_buf s) q False)) (\<lambda>(c, p).
     andthen (if c < 0 then re_ok (True, s)
       else if c < int (capture_count s) then re_ok (False, s)
       else step_of (map_option (\<lambda>(n, s). (c \<ge> n, s)) (re_count_captures s))) (\<lambda>(out_of_range, s).
     if out_of_range then
       if re_is_utf16 s then re_parse_error ''back reference out of range in regular expression''
       else andthen (step_of (legacy_octal (re_buf s) q)) (\<lambda>(c, p). char_atom s p is_backward_dir c None)
     else back_reference s p is_backward_dir c))"

definition escape_term :: "re_parse_state \<Rightarrow> nat \<Rightarrow> bool \<Rightarrow> re_atom re_result" where
  "escape_term s p is_backward_dir = (case rd (re_buf s) (p + 1) of None \<Rightarrow> None
     | Some b \<Rightarrow>
         if b = ch CHR ''b'' \<or> b = ch CHR ''B'' then
           andthen (step_of (re_emit_op s (if b = ch CHR ''b'' then REOP_word_boundary else REOP_not_word_boundary)))
             (\<lambda>s. re_ok (p + 2, None, s))
         else if b = ch CHR ''k'' then named_reference s p is_backward_dir
         else if b = ch CHR ''0'' then null_escape s p is_backward_dir
         else if is_digit b then decimal_escape s (p + 1) is_backward_dir
         else class_atom s p is_backward_dir)"

text \<open>A brace where an atom is expected.\<close>

definition brace_atom :: "re_parse_state \<Rightarrow> nat \<Rightarrow> bool \<Rightarrow> re_atom re_result" where
  "brace_atom s p is_backward_dir =
     (if re_is_utf16 s then re_parse_error ''syntax error''
      else andthen (step_of (rd (re_buf s) (p + 1))) (\<lambda>b.
        if \<not> is_digit b then class_atom s p is_backward_dir
        else
          andthen (step_of (parse_digits (re_buf s) (p + 1) True)) (\<lambda>(_, q).
          andthen (step_of (rd (re_buf s) q)) (\<lambda>b.
          andthen (if b = ch CHR '','' then
              andthen (step_of (rd (re_buf s) (q + 1))) (\<lambda>b.
                if is_digit b then andthen (step_of (parse_digits (re_buf s) (q + 1) True)) (\<lambda>(_, q). re_ok q)
                else re_ok (q + 1))
            else re_ok q) (\<lambda>q.
          andthen (step_of (rd (re_buf s) q)) (\<lambda>b.
            if b \<noteq> ch CHR ''}'' then class_atom s p is_backward_dir
            else re_parse_error ''nothing to repeat''))))))"

section \<open>Groups\<close>

text \<open>\<open>parse_disj\<close> is \<open>re_parse_disjunction\<close>, the call of the recursion; it starts and ends at \<open>buf_ptr\<close>.\<close>

type_synonym parser = "bool \<Rightarrow> re_parse_state \<Rightarrow> re_parse_state re_result"

definition plain_group :: "parser \<Rightarrow> re_parse_state \<Rightarrow> nat \<Rightarrow> bool \<Rightarrow> re_atom re_result" where
  "plain_group parse_disj s p is_backward_dir =
     andthen (parse_disj is_backward_dir (s\<lparr>buf_ptr := p\<rparr>)) (\<lambda>s1.
     andthen (re_parse_expect s1 (buf_ptr s1) CHR '')'') (\<lambda>p. re_ok (p, atom_start s, s1)))"

definition lookahead_op :: "bool \<Rightarrow> reop" where
  "lookahead_op is_neg = (if is_neg then REOP_negative_lookahead else REOP_lookahead)"

definition lookahead_group :: "parser \<Rightarrow> re_parse_state \<Rightarrow> nat \<Rightarrow> bool \<Rightarrow> bool \<Rightarrow> re_atom re_result" where
  "lookahead_group parse_disj s p is_neg is_backward_lookahead =
     andthen (step_of (re_emit_op_u32 s (lookahead_op is_neg) 0)) (\<lambda>(pos, s1).
     andthen (parse_disj is_backward_lookahead (s1\<lparr>buf_ptr := p\<rparr>)) (\<lambda>s1.
     andthen (re_parse_expect s1 (buf_ptr s1) CHR '')'') (\<lambda>p.
     andthen (step_of (re_emit_op s1 REOP_match)) (\<lambda>s1.
     if db_error (byte_code s1) then Some (Inl Re_error_unset)
     else andthen (step_of (poke s1 pos (le_bytes (of_nat (code_size s1) - of_nat (pos + 4))))) (\<lambda>s1.
       re_ok (p, if \<not> re_is_utf16 s \<and> \<not> is_backward_lookahead then atom_start s else None, s1))))))"

definition save_op :: "bool \<Rightarrow> reop" where
  "save_op is_end = (if is_end then REOP_save_end else REOP_save_start)"

definition capture_group :: "parser \<Rightarrow> re_parse_state \<Rightarrow> nat \<Rightarrow> bool \<Rightarrow> re_atom re_result" where
  "capture_group parse_disj s p is_backward_dir =
     (if capture_count s \<ge> CAPTURE_COUNT_MAX then re_parse_error ''too many captures''
      else
        let capture_index = capture_count s; s1 = s\<lparr>capture_count := capture_count s + 1\<rparr> in
        andthen (step_of (re_emit_op_u8 s1 (save_op is_backward_dir) (of_nat capture_index))) (\<lambda>s1.
        andthen (parse_disj is_backward_dir (s1\<lparr>buf_ptr := p\<rparr>)) (\<lambda>s1.
        andthen (step_of (re_emit_op_u8 s1 (save_op (\<not> is_backward_dir)) (of_nat capture_index))) (\<lambda>s1.
        andthen (re_parse_expect s1 (buf_ptr s1) CHR '')'') (\<lambda>p. re_ok (p, atom_start s, s1))))))"

definition put_group_name :: "re_parse_state \<Rightarrow> u8 list \<Rightarrow> re_parse_state option" where
  "put_group_name s bs = map_option (\<lambda>(r, b). s\<lparr>group_names := b\<rparr>) (dbuf_put (group_names s) bs)"

definition named_group :: "parser \<Rightarrow> re_parse_state \<Rightarrow> nat \<Rightarrow> bool \<Rightarrow> re_atom re_result" where
  "named_group parse_disj s p is_backward_dir =
     (case re_parse_group_name (re_buf s) p (re_is_utf16 s) of None \<Rightarrow> None
      | Some None \<Rightarrow> re_parse_error ''invalid group name''
      | Some (Some (name, p)) \<Rightarrow>
          andthen (step_of (find_group_name s name)) (\<lambda>i.
          if i > 0 then re_parse_error ''duplicate group name''
          else andthen (step_of (put_group_name s (name @ [0]))) (\<lambda>s.
            capture_group parse_disj (s\<lparr>has_named_captures := 1\<rparr>) p is_backward_dir)))"

definition group_term :: "parser \<Rightarrow> re_parse_state \<Rightarrow> nat \<Rightarrow> bool \<Rightarrow> re_atom re_result" where
  "group_term parse_disj s p is_backward_dir = (let buf = re_buf s in
     case rd buf (p + 1) of None \<Rightarrow> None
     | Some b1 \<Rightarrow>
         if b1 \<noteq> ch CHR ''?'' then
           andthen (step_of (put_group_name s [0])) (\<lambda>s. capture_group parse_disj s (p + 1) is_backward_dir)
         else (case rd buf (p + 2) of None \<Rightarrow> None
           | Some b2 \<Rightarrow>
               if b2 = ch CHR '':'' then plain_group parse_disj s (p + 3) is_backward_dir
               else if b2 = ch CHR ''='' \<or> b2 = ch CHR ''!'' then
                 lookahead_group parse_disj s (p + 3) (b2 = ch CHR ''!'') False
               else if b2 = ch CHR ''<'' then (case rd buf (p + 3) of None \<Rightarrow> None
                 | Some b3 \<Rightarrow>
                     if b3 = ch CHR ''='' \<or> b3 = ch CHR ''!'' then
                       lookahead_group parse_disj s (p + 4) (b3 = ch CHR ''!'') True
                     else named_group parse_disj s (p + 3) is_backward_dir)
               else re_parse_error ''invalid group''))"

section \<open>Terms, alternatives, disjunctions\<close>

definition re_parse_atom :: "parser \<Rightarrow> bool \<Rightarrow> re_parse_state \<Rightarrow> re_atom re_result" where
  "re_parse_atom parse_disj is_backward_dir s = (let p = buf_ptr s in
     case rd (re_buf s) p of None \<Rightarrow> None
     | Some c \<Rightarrow>
         if c = ch CHR ''^'' then andthen (step_of (re_emit_op s REOP_line_start)) (\<lambda>s. re_ok (p + 1, None, s))
         else if c = ch CHR ''$'' then andthen (step_of (re_emit_op s REOP_line_end)) (\<lambda>s. re_ok (p + 1, None, s))
         else if c = ch CHR ''.'' then directed s is_backward_dir (\<lambda>s.
           andthen (step_of (re_emit_op s (if re_dotall s then REOP_any else REOP_dot))) (\<lambda>s. re_ok (p + 1, s)))
         else if c = ch CHR ''{'' then brace_atom s p is_backward_dir
         else if c = ch CHR ''*'' \<or> c = ch CHR ''+'' \<or> c = ch CHR ''?'' then re_parse_error ''nothing to repeat''
         else if c = ch CHR ''('' then group_term parse_disj s p is_backward_dir
         else if c = 0x5C then escape_term s p is_backward_dir
         else if c = ch CHR ''['' then directed s is_backward_dir (\<lambda>s. re_parse_char_class s p)
         else if (c = ch CHR '']'' \<or> c = ch CHR ''}'') \<and> re_is_utf16 s then re_parse_error ''syntax error''
         else class_atom s p is_backward_dir)"

definition re_parse_term :: "parser \<Rightarrow> parser" where
  "re_parse_term parse_disj is_backward_dir s =
     andthen (re_parse_atom parse_disj is_backward_dir s) (\<lambda>(p, start, s). case start of
       None \<Rightarrow> re_ok (s\<lparr>buf_ptr := p\<rparr>)
     | Some (last_atom_start, last_capture_count) \<Rightarrow>
         andthen (re_parse_quantifier s p last_atom_start last_capture_count) (\<lambda>(p, s). re_ok (s\<lparr>buf_ptr := p\<rparr>)))"

text \<open>In the backward direction the code of a term is moved in front of the alternative: the code from \<open>start\<close> is moved
  up and the term, which now ends the code, is copied to its start.\<close>

definition move_term :: "re_parse_state \<Rightarrow> nat \<Rightarrow> nat \<Rightarrow> re_parse_state re_result" where
  "move_term s start term_start =
     (let end' = code_size s; term_size = end' - term_start in
      case dbuf_realloc (byte_code s) (sz (end' + term_size)) of None \<Rightarrow> None
      | Some (r, b) \<Rightarrow>
          if r \<noteq> 0 then Some (Inl Re_error_unset)
          else step_of (do {
            d \<leftarrow> rd_block (db_buf b) start (end' - start);
            m \<leftarrow> wr_block (db_buf b) (start + term_size) d;
            d \<leftarrow> rd_block m end' term_size;
            m \<leftarrow> wr_block m start d;
            Some (s\<lparr>byte_code := b\<lparr>db_buf := m\<rparr>\<rparr>)
          }))"

fun re_parse_alternative :: "parser \<Rightarrow> nat \<Rightarrow> nat \<Rightarrow> parser" where
  "re_parse_alternative parse_disj 0 start is_backward_dir s = Some (Inl Re_no_fuel)"
| "re_parse_alternative parse_disj (Suc n) start is_backward_dir s =
     (if buf_ptr s \<ge> buf_end s then re_ok s
      else case rd (re_buf s) (buf_ptr s) of None \<Rightarrow> None
      | Some c \<Rightarrow>
          if c = ch CHR ''|'' \<or> c = ch CHR '')'' then re_ok s
          else
            andthen (re_parse_term parse_disj is_backward_dir s) (\<lambda>s1.
            andthen (if is_backward_dir then move_term s1 start (code_size s) else re_ok s1) (\<lambda>s1.
            re_parse_alternative parse_disj n start is_backward_dir s1)))"

text \<open>The code emitted since \<open>start\<close> becomes the first choice of a split, the next alternative the second.\<close>

fun disjunction_loop :: "(bool \<Rightarrow> re_parse_state \<Rightarrow> re_parse_state re_result) \<Rightarrow> nat \<Rightarrow> nat \<Rightarrow> parser" where
  "disjunction_loop alt 0 start is_backward_dir s = Some (Inl Re_no_fuel)"
| "disjunction_loop alt (Suc n) start is_backward_dir s = (case rd (re_buf s) (buf_ptr s) of None \<Rightarrow> None
     | Some c \<Rightarrow>
         if c \<noteq> ch CHR ''|'' then re_ok s
         else
           let s = s\<lparr>buf_ptr := buf_ptr s + 1\<rparr>; len = code_size s - start in
           andthen (insert_code s start (reop_code REOP_split_next_first # le_bytes (of_nat (len + 5)))) (\<lambda>s.
           andthen (step_of (re_emit_op_u32 s REOP_goto 0)) (\<lambda>(pos, s).
           andthen (alt is_backward_dir s) (\<lambda>s.
           andthen (step_of (poke s pos (le_bytes (of_nat (code_size s) - of_nat (pos + 4))))) (\<lambda>s.
           disjunction_loop alt n start is_backward_dir s)))))"

text \<open>\<open>re_parse_disjunction\<close> with a bound for the depth of the recursion and the number of rounds of the loops.\<close>

fun re_parse_disjunction :: "nat \<Rightarrow> parser" where
  "re_parse_disjunction 0 is_backward_dir s = Some (Inl Re_no_fuel)"
| "re_parse_disjunction (Suc n) is_backward_dir s =
     (if stack_overflow s (stack_checks s) then re_parse_error ''stack overflow''
      else
        let s = s\<lparr>stack_checks := stack_checks s + 1\<rparr>; start = code_size s;
            alt = (\<lambda>is_backward_dir s. re_parse_alternative (re_parse_disjunction n) (Suc n) (code_size s) is_backward_dir s)
        in andthen (alt is_backward_dir s) (disjunction_loop alt (Suc n) start is_backward_dir))"

section \<open>Compilation\<close>

definition init_state ::
  "realloc_fun \<Rightarrow> realloc_fun \<Rightarrow> (nat \<Rightarrow> cr_alloc_fun) \<Rightarrow> (nat \<Rightarrow> bool) \<Rightarrow> u8 list \<Rightarrow> u8 \<Rightarrow> re_parse_state" where
  "init_state code_mem name_mem range_mem overflow buf flags = \<lparr>
     re_buf = buf, buf_ptr = 0, re_is_utf16 = flag_set flags LRE_FLAG_UTF16,
     re_ignore_case = flag_set flags LRE_FLAG_IGNORECASE, re_dotall = flag_set flags LRE_FLAG_DOTALL,
     byte_code = dbuf_init2 code_mem (Some code_mem), capture_count = 1, total_capture_count = -1,
     has_named_captures = -1, group_names = dbuf_init2 name_mem (Some name_mem), range_alloc = range_mem,
     range_count = 0, stack_overflow = overflow, stack_checks = 0\<rparr>"

text \<open>The loop over the start positions in front of the code, unless the expression is sticky.\<close>

definition emit_prologue :: "re_parse_state \<Rightarrow> u8 \<Rightarrow> re_parse_state option" where
  "emit_prologue s flags = do {
     s \<leftarrow> emits s [[flags], [0], [0], le_bytes 0];
     s \<leftarrow> (if flag_set flags LRE_FLAG_STICKY then Some s
       else do {
         (_, s) \<leftarrow> re_emit_op_u32 s REOP_split_goto_first (1 + 5);
         s \<leftarrow> re_emit_op s REOP_any;
         map_option snd (re_emit_op_u32 s REOP_goto (- (5 + 1 + 5)))
       });
     re_emit_op_u8 s REOP_save_start 0
   }"

text \<open>The end of \<open>lre_compile\<close>: the header is completed and the group names are appended.\<close>

definition finish_code :: "re_parse_state \<Rightarrow> u8 list re_result" where
  "finish_code s =
     (if db_error (byte_code s) then re_parse_out_of_memory
      else case compute_stack_size (dbuf_bytes (byte_code s)) of None \<Rightarrow> None
      | Some stack_size \<Rightarrow>
          if stack_size < 0 then re_parse_error ''too many imbricated quantifiers''
          else step_of (do {
            s \<leftarrow> poke s RE_HEADER_CAPTURE_COUNT [of_nat (capture_count s)];
            s \<leftarrow> poke s RE_HEADER_STACK_SIZE [word_of_int stack_size];
            s \<leftarrow> poke s 3 (le_bytes (of_nat (code_size s - RE_HEADER_LEN)));
            s \<leftarrow> (if db_size (group_names s) > capture_count s - 1 then do {
                s \<leftarrow> emit s (dbuf_bytes (group_names s));
                flags \<leftarrow> rd (db_buf (byte_code s)) RE_HEADER_FLAGS;
                poke s RE_HEADER_FLAGS [flags OR LRE_FLAG_NAMED_GROUPS]
              } else Some s);
            Some (dbuf_bytes (byte_code s))
          }))"

definition lre_compile ::
  "nat \<Rightarrow> realloc_fun \<Rightarrow> realloc_fun \<Rightarrow> (nat \<Rightarrow> cr_alloc_fun) \<Rightarrow> (nat \<Rightarrow> bool) \<Rightarrow> u8 list \<Rightarrow> u8 \<Rightarrow> u8 list re_result" where
  "lre_compile fuel code_mem name_mem range_mem overflow buf flags =
     andthen (step_of (emit_prologue (init_state code_mem name_mem range_mem overflow buf flags) flags)) (\<lambda>s.
     andthen (re_parse_disjunction fuel False s) (\<lambda>s.
     andthen (step_of (do { s \<leftarrow> re_emit_op_u8 s REOP_save_end 0; re_emit_op s REOP_match })) (\<lambda>s.
     andthen (step_of (rd (re_buf s) (buf_ptr s))) (\<lambda>b.
     if b \<noteq> 0 then re_parse_error ''extraneous characters at the end'' else finish_code s))))"

end
