(* ===== verification/ReGrammar.thy ===== *)
theory ReGrammar
  imports ReCheck
begin

text \<open>
  The code that the regular expression compiler emits, as a grammar of fragments: single instructions, and the
  shapes of alternatives, quantifiers, groups and lookaheads.  Every fragment, wherever it is placed in a program
  and at whatever depth of the value stack, is structured in the sense of \<open>check_code\<close>.
\<close>

section \<open>Fragments\<close>

definition plain_ops :: "reop set" where
  "plain_ops = {REOP_char, REOP_char32, REOP_dot, REOP_any, REOP_line_start, REOP_line_end, REOP_word_boundary,
     REOP_not_word_boundary, REOP_prev, REOP_back_reference, REOP_backward_back_reference}"

abbreviation (input) "splits \<equiv> {REOP_split_goto_first, REOP_split_next_first}"

text \<open>Jump displacements.\<close>

definition jump_fwd :: "nat \<Rightarrow> u8 list" where "jump_fwd n = le_bytes (of_nat n)"
definition jump_back :: "nat \<Rightarrow> u8 list" where "jump_back n = le_bytes (- of_nat n)"

lemma length_fwd_back [simp]: "length (jump_fwd n) = 4" "length (jump_back n) = 4"
  by (simp_all add: jump_fwd_def jump_back_def)

inductive frag :: "nat \<Rightarrow> u8 list \<Rightarrow> bool" for cc where
  frag_nil: "frag cc []"
| frag_op: "op \<in> plain_ops \<Longrightarrow> Suc (length args) = reop_size op \<Longrightarrow> frag cc (reop_code op # args)"
| frag_save: "op \<in> {REOP_save_start, REOP_save_end} \<Longrightarrow> unat n < cc \<Longrightarrow> frag cc [reop_code op, n]"
| frag_reset: "unat n < cc \<Longrightarrow> frag cc [reop_code REOP_save_reset, a, n]"
| frag_range: "0 < n \<Longrightarrow> n < 65536 \<Longrightarrow> length tab = 4 * n \<Longrightarrow>
    frag cc (reop_code REOP_range # take 2 (le_bytes (of_nat n)) @ tab)"
| frag_range32: "0 < n \<Longrightarrow> n < 65536 \<Longrightarrow> length tab = 8 * n \<Longrightarrow>
    frag cc (reop_code REOP_range32 # take 2 (le_bytes (of_nat n)) @ tab)"
| frag_seq: "frag cc xs \<Longrightarrow> frag cc ys \<Longrightarrow> frag cc (xs @ ys)"
| frag_alt: "frag cc xs \<Longrightarrow> frag cc ys \<Longrightarrow>
    frag cc ((reop_code REOP_split_next_first # jump_fwd (length xs + 5)) @ xs @
      (reop_code REOP_goto # jump_fwd (length ys)) @ ys)"
| frag_opt: "op \<in> splits \<Longrightarrow> frag cc xs \<Longrightarrow> frag cc ((reop_code op # jump_fwd (length xs)) @ xs)"
| frag_star: "op \<in> splits \<Longrightarrow> frag cc xs \<Longrightarrow>
    frag cc ((reop_code op # jump_fwd (length xs + 5)) @ xs @
      (reop_code REOP_goto # jump_back (length xs + 10)))"
| frag_star_checked: "op \<in> splits \<Longrightarrow> frag cc xs \<Longrightarrow>
    frag cc ((reop_code op # jump_fwd (length xs + 6)) @ [reop_code REOP_push_char_pos] @ xs @
      (reop_code REOP_bne_char_pos # jump_back (length xs + 11)))"
| frag_plus: "op \<in> splits \<Longrightarrow> frag cc xs \<Longrightarrow>
    frag cc (xs @ (reop_code op # jump_back (length xs + 5)))"
| frag_loop: "frag cc xs \<Longrightarrow> frag cc ((reop_code REOP_push_i32 # le_bytes v) @ xs @
      (reop_code REOP_loop # jump_back (length xs + 5)) @ [reop_code REOP_drop])"
| frag_optional_loop: "op \<in> splits \<Longrightarrow> frag cc xs \<Longrightarrow>
    frag cc ((reop_code REOP_push_i32 # le_bytes v) @ (reop_code op # jump_fwd (length xs + 5)) @ xs @
      (reop_code REOP_loop # jump_back (length xs + 10)) @ [reop_code REOP_drop])"
| frag_look: "op \<in> {REOP_lookahead, REOP_negative_lookahead} \<Longrightarrow> frag cc xs \<Longrightarrow>
    frag cc ((reop_code op # jump_fwd (length xs + 1)) @ xs @ [reop_code REOP_match])"
| frag_simple: "frag cc xs \<Longrightarrow> re_is_simple_quantifier xs 0 (length xs) = Some (int k) \<Longrightarrow> 0 < k \<Longrightarrow> k < 2 ^ 32 \<Longrightarrow>
    frag cc ((reop_code REOP_simple_greedy_quant # jump_fwd (length xs + 1) @ le_bytes a @ le_bytes b @
      le_bytes (of_nat k)) @ xs @ [reop_code REOP_match])"

lemma frag_mono: "frag cc xs \<Longrightarrow> cc \<le> cc' \<Longrightarrow> frag cc' xs"
proof (induction rule: frag.induct)
  case (frag_save op n)
  then show ?case by (intro frag.frag_save) auto
next
  case (frag_reset n a)
  then show ?case by (intro frag.frag_reset) auto
qed (intro frag.intros; assumption)+

section \<open>Placement\<close>

definition lies_at :: "u8 list \<Rightarrow> nat \<Rightarrow> u8 list \<Rightarrow> bool" where
  "lies_at m p xs \<longleftrightarrow> p + length xs \<le> length m \<and> take (length xs) (drop p m) = xs"

lemma lies_at_append: "lies_at m p (xs @ ys) \<longleftrightarrow> lies_at m p xs \<and> lies_at m (p + length xs) ys"
proof -
  have "take (length xs + length ys) (drop p m) = take (length xs) (drop p m) @ take (length ys) (drop (p + length xs) m)"
    by (simp add: take_add add.commute)
  then show ?thesis unfolding lies_at_def by (auto simp: append_eq_append_conv)
qed

lemma lies_at_Cons: "lies_at m p (x # xs) \<longleftrightarrow> p < length m \<and> m ! p = x \<and> lies_at m (Suc p) xs"
  unfolding lies_at_def by (cases "p < length m") (auto simp: Cons_nth_drop_Suc [symmetric])

lemma lies_at_nth: "lies_at m p xs \<Longrightarrow> i < length xs \<Longrightarrow> p + i < length m \<and> m ! (p + i) = xs ! i"
  by (auto simp: lies_at_def) (metis nth_take nth_drop le_add1 order.trans add.commute)

lemma lies_at_le: "lies_at m p xs \<Longrightarrow> p + length xs \<le> length m"
  by (simp add: lies_at_def)

lemma lies_at_op: "lies_at m p (reop_code op # xs) \<Longrightarrow> op_at m p = Some op"
  by (simp add: lies_at_Cons op_at_def)

lemma lies_at_u32: "lies_at m p (le_bytes v) \<Longrightarrow> get_u32 m (int p) = Some v"
  by (intro get_u32_le_bytes) (auto simp: lies_at_def)

lemma lies_at_operand: "lies_at m p (x # le_bytes v) \<Longrightarrow> get_u32 m (int p + 1) = Some v"
  using lies_at_u32 [of m "Suc p" v] by (simp add: lies_at_Cons add.commute)

lemma sint_of_nat_u32: "n < 2 ^ 31 \<Longrightarrow> sint (of_nat n :: u32) = int n"
  by (simp add: signed_of_nat signed_take_bit_int_eq_self)

lemma sint_minus_of_nat_u32: "n < 2 ^ 31 \<Longrightarrow> sint (- of_nat n :: u32) = - int n"
proof -
  assume n: "n < 2 ^ 31"
  have "(- of_nat n :: u32) = word_of_int (- int n)" by simp
  then have "sint (- of_nat n :: u32) = signed_take_bit 31 (- int n)"
    by (simp only: signed_of_int) simp
  also have "\<dots> = - int n" using n by (intro signed_take_bit_int_eq_self) auto
  finally show ?thesis .
qed

section \<open>Typed pieces of code\<close>

text \<open>The bytes \<open>xs\<close> at \<open>p\<close>, reached with depth \<open>d\<close> and left with depth \<open>d'\<close>, are whole instructions with the entries \<open>E\<close>;
  they are well formed in every depth map that holds the entries, the end and the jump targets \<open>J\<close>.\<close>

definition typed :: "u8 list \<Rightarrow> nat \<Rightarrow> nat \<Rightarrow> u8 list \<Rightarrow> nat \<Rightarrow> nat \<Rightarrow> (nat \<times> nat \<times> reop) list \<Rightarrow> (int \<times> nat) set \<Rightarrow> bool" where
  "typed m cc p xs d d' E J \<longleftrightarrow>
     (\<forall>l. code_map m (p + length xs) d' = Some l \<longrightarrow> code_map m p d = Some (E @ l)) \<and>
     (\<forall>stop. whole_code m stop (p + length xs) \<longrightarrow> whole_code m stop p) \<and>
     (\<forall>D. (\<forall>(q, e, op) \<in> set E. D (int q) = Some e) \<longrightarrow> D (int (p + length xs)) = Some d' \<longrightarrow>
        (\<forall>(q, e) \<in> J. D q = Some e) \<longrightarrow> list_all (instr_ok m cc D) E \<and> D (int p) = Some d)"

lemma typed_nil: "typed m cc p [] d d [] {}"
  by (simp add: typed_def)

lemma typed_append:
  assumes "typed m cc p xs d d1 E1 J1" and "typed m cc (p + length xs) ys d1 d2 E2 J2"
  shows "typed m cc p (xs @ ys) d d2 (E1 @ E2) (J1 \<union> J2)"
  using assms unfolding typed_def by (auto simp: add.assoc)

lemma code_map_intro:
  assumes "op_at m p = Some op" and "re_op_len m p op = Some len" and "p + len \<le> length m"
    and "code_map m (p + len) (depth_after op d) = Some l"
  shows "code_map m p d = Some ((p, d, op) # l)"
  using assms op_at_less [OF assms(1)] by (subst code_map.simps) simp

lemma whole_code_intro:
  assumes "op_at m p = Some op" and "re_op_len m p op = Some len" and "range_nonempty m p op"
    and "whole_code m stop (p + len)"
  shows "whole_code m stop p"
proof -
  have p: "p < stop" using whole_code_le [OF assms(4)] re_op_len_pos [OF assms(2)] by linarith
  show ?thesis
    by (rule iffD2 [OF whole_code.simps [of m stop p]])
      (simp only: p if_True assms(1-3) option.case simp_thms, rule assms(4))
qed

lemma typed_instr:
  assumes "op_at m p = Some op" and "re_op_len m p op = Some (length xs)" and "p + length xs \<le> length m"
    and "range_nonempty m p op"
    and "\<And>D. (\<forall>(q, e) \<in> J. D q = Some e) \<Longrightarrow> D (int (p + length xs)) = Some (depth_after op d) \<Longrightarrow>
      instr_ok m cc D (p, d, op)"
  shows "typed m cc p xs d (depth_after op d) [(p, d, op)] J"
  unfolding typed_def
proof (intro conjI allI impI)
  fix l assume "code_map m (p + length xs) (depth_after op d) = Some l"
  then show "code_map m p d = Some ([(p, d, op)] @ l)" using code_map_intro [OF assms(1-3)] by simp
next
  fix stop assume "whole_code m stop (p + length xs)"
  then show "whole_code m stop p" by (rule whole_code_intro [OF assms(1,2,4)])
next
  fix D
  assume D: "\<forall>(q, e, op) \<in> set [(p, d, op)]. D (int q) = Some e" "D (int (p + length xs)) = Some (depth_after op d)"
    "\<forall>(q, e) \<in> J. D q = Some e"
  show "list_all (instr_ok m cc D) [(p, d, op)]" using assms(5) [OF D(3,2)] by simp
  show "D (int p) = Some d" using D(1) by simp
qed

lemma typedD:
  assumes "typed m cc p xs d d' E J" and "\<forall>(q, e, op) \<in> set E. D (int q) = Some e"
    and "D (int (p + length xs)) = Some d'" and "\<forall>(q, e) \<in> J. D q = Some e"
  shows "list_all (instr_ok m cc D) E" and "D (int p) = Some d"
  using assms unfolding typed_def by simp_all

text \<open>Jump targets that every suitable map has.\<close>

lemma typed_discharge:
  assumes "typed m cc p xs d d' E J"
    and "\<And>D. \<forall>(q, e, op) \<in> set E. D (int q) = Some e \<Longrightarrow> D (int (p + length xs)) = Some d' \<Longrightarrow>
      \<forall>(q, e) \<in> J. D q = Some e"
  shows "typed m cc p xs d d' E {}"
  unfolding typed_def
proof (intro conjI allI impI)
  fix D
  assume D: "\<forall>(q, e, op) \<in> set E. D (int q) = Some e" "D (int (p + length xs)) = Some d'"
  show "list_all (instr_ok m cc D) E" "D (int p) = Some d"
    using typedD [OF assms(1) D assms(2) [OF D]] by simp_all
qed (use assms(1) in \<open>auto simp: typed_def\<close>)

section \<open>Single instructions\<close>

abbreviation (input) "range_ops \<equiv> {REOP_range, REOP_range32}"

lemma re_op_len_fixed_eq: "op \<notin> range_ops \<Longrightarrow> re_op_len m p op = Some (reop_size op)"
  by (cases op) (auto simp: re_op_len_def)

lemma range_nonempty_fixed: "op \<notin> range_ops \<Longrightarrow> range_nonempty m p op"
  by (simp add: range_nonempty_def)

lemma typed_fixed:
  assumes "lies_at m p (reop_code op # args)" and "op \<notin> range_ops" and "Suc (length args) = reop_size op"
    and "\<And>D. (\<forall>(q, e) \<in> J. D q = Some e) \<Longrightarrow> D (int (p + reop_size op)) = Some (depth_after op d) \<Longrightarrow>
      instr_ok m cc D (p, d, op)"
  shows "typed m cc p (reop_code op # args) d (depth_after op d) [(p, d, op)] J"
proof (rule typed_instr)
  show "op_at m p = Some op" by (rule lies_at_op [OF assms(1)])
  show "re_op_len m p op = Some (length (reop_code op # args))"
    using assms(2,3) by (simp add: re_op_len_fixed_eq)
  show "p + length (reop_code op # args) \<le> length m" by (rule lies_at_le [OF assms(1)])
  show "range_nonempty m p op" using assms(2) by (rule range_nonempty_fixed)
  show "instr_ok m cc D (p, d, op)" if "\<forall>(q, e) \<in> J. D q = Some e"
    "D (int (p + length (reop_code op # args))) = Some (depth_after op d)" for D
    using assms(4) [of D] that assms(3) by simp
qed

lemma typed_plain:
  assumes "lies_at m p (reop_code op # args)" and "op \<in> plain_ops" and "Suc (length args) = reop_size op"
  shows "typed m cc p (reop_code op # args) d d [(p, d, op)] {}"
proof -
  have op: "op \<notin> range_ops" "depth_after op d = d" using assms(2) by (auto simp: plain_ops_def depth_after_def)
  have "typed m cc p (reop_code op # args) d (depth_after op d) [(p, d, op)] {}"
    using assms(2) re_op_len_fixed_eq [OF op(1)] range_nonempty_fixed [OF op(1)]
    by (intro typed_fixed [OF assms(1) op(1) assms(3)]) (auto simp: instr_ok_def plain_ops_def)
  then show ?thesis by (simp add: op(2))
qed

text \<open>The control instructions with a displacement: their targets are the assumption \<open>J\<close>.\<close>

definition jump_depth :: "reop \<Rightarrow> nat \<Rightarrow> nat" where
  "jump_depth op d = (if op = REOP_bne_char_pos then d - 1 else d)"

lemma typed_jump:
  assumes "lies_at m p (reop_code op # le_bytes v)"
    and "op \<in> {REOP_goto, REOP_split_goto_first, REOP_split_next_first, REOP_lookahead, REOP_negative_lookahead,
      REOP_loop, REOP_bne_char_pos}"
    and "op = REOP_loop \<Longrightarrow> 0 < d"
  shows "typed m cc p (reop_code op # le_bytes v) d (depth_after op d) [(p, d, op)]
    {(int p + 5 + sint v, jump_depth op d)}"
proof (rule typed_fixed [OF assms(1)])
  show "op \<notin> range_ops" "Suc (length (le_bytes v)) = reop_size op" using assms(2) by auto
  fix D
  assume "\<forall>(q, e) \<in> {(int p + 5 + sint v, jump_depth op d)}. D q = Some e"
    and "D (int (p + reop_size op)) = Some (depth_after op d)"
  then show "instr_ok m cc D (p, d, op)"
    using lies_at_operand [OF assms(1)] assms(2,3) re_op_len_fixed_eq [of op m p]
    by (auto simp: instr_ok_def jump_ok_def jump_depth_def add.assoc)
qed

lemma typed_fwd:
  assumes "lies_at m p (reop_code op # jump_fwd n)" and "n < 2 ^ 31"
    and "op \<in> {REOP_goto, REOP_split_goto_first, REOP_split_next_first, REOP_lookahead, REOP_negative_lookahead}"
  shows "typed m cc p (reop_code op # jump_fwd n) d d [(p, d, op)] {(int (p + 5 + n), d)}"
  using typed_jump [OF assms(1) [unfolded jump_fwd_def], of d cc] assms(2,3)
  by (auto simp: jump_fwd_def sint_of_nat_u32 depth_after_def jump_depth_def)

lemma typed_back:
  assumes "lies_at m p (reop_code op # jump_back n)" and "n \<le> p + 5" and "n < 2 ^ 31"
    and "op \<in> {REOP_goto, REOP_split_goto_first, REOP_split_next_first, REOP_loop}" and "op = REOP_loop \<Longrightarrow> 0 < d"
  shows "typed m cc p (reop_code op # jump_back n) d d [(p, d, op)] {(int (p + 5 - n), d)}"
  using typed_jump [OF assms(1) [unfolded jump_back_def], of d cc] assms(2-5)
  by (auto simp: jump_back_def sint_minus_of_nat_u32 depth_after_def jump_depth_def)

lemma typed_bne:
  assumes "lies_at m p (reop_code REOP_bne_char_pos # jump_back n)" and "n \<le> p + 5" and "n < 2 ^ 31"
  shows "typed m cc p (reop_code REOP_bne_char_pos # jump_back n) (Suc d) d [(p, Suc d, REOP_bne_char_pos)] {(int (p + 5 - n), d)}"
  using typed_jump [OF assms(1) [unfolded jump_back_def], of "Suc d" cc] assms(2,3)
  by (auto simp: jump_back_def sint_minus_of_nat_u32 depth_after_def jump_depth_def)

lemma typed_push:
  assumes "lies_at m p (reop_code op # args)" and "op \<in> {REOP_push_i32, REOP_push_char_pos}" "Suc (length args) = reop_size op"
  shows "typed m cc p (reop_code op # args) d (Suc d) [(p, d, op)] {}"
proof -
  have op: "op \<notin> range_ops" "depth_after op d = Suc d" using assms(2) by (auto simp: depth_after_def)
  have "typed m cc p (reop_code op # args) d (depth_after op d) [(p, d, op)] {}"
    using assms(2) re_op_len_fixed_eq [OF op(1)] range_nonempty_fixed [OF op(1)]
    by (intro typed_fixed [OF assms(1) op(1) assms(3)]) (auto simp: instr_ok_def)
  then show ?thesis by (simp add: op(2))
qed

lemma typed_drop:
  assumes "lies_at m p [reop_code REOP_drop]"
  shows "typed m cc p [reop_code REOP_drop] (Suc d) d [(p, Suc d, REOP_drop)] {}"
proof -
  have "typed m cc p [reop_code REOP_drop] (Suc d) (depth_after REOP_drop (Suc d)) [(p, Suc d, REOP_drop)] {}"
    by (rule typed_fixed [OF assms]) (auto simp: instr_ok_def re_op_len_def range_nonempty_def)
  then show ?thesis by (simp add: depth_after_def)
qed

lemma typed_match:
  assumes "lies_at m p [reop_code REOP_match]"
  shows "typed m cc p [reop_code REOP_match] d d [(p, d, REOP_match)] {}"
proof -
  have "typed m cc p [reop_code REOP_match] d (depth_after REOP_match d) [(p, d, REOP_match)] {}"
    by (rule typed_fixed [OF assms]) (auto simp: instr_ok_def re_op_len_def range_nonempty_def)
  then show ?thesis by (simp add: depth_after_def)
qed

lemma lies_at_u16:
  assumes "lies_at m p (x # take 2 (le_bytes v) @ tab)" and "v < 0x10000"
  shows "get_u16 m (int p + 1) = Some v"
proof -
  have "lies_at m (Suc p) (take 2 (le_bytes v))" using assms(1) by (simp add: lies_at_Cons lies_at_append)
  then have "get_u16 m (int (Suc p)) = Some v"
    using assms(2) by (intro get_u16_le_bytes) (simp_all add: lies_at_def)
  then show ?thesis by (simp add: add.commute)
qed

lemma typed_range:
  assumes "lies_at m p (reop_code op # take 2 (le_bytes (of_nat n)) @ tab)" and "0 < n" and "n < 65536"
    and "op = REOP_range \<and> length tab = 4 * n \<or> op = REOP_range32 \<and> length tab = 8 * n"
  shows "typed m cc p (reop_code op # take 2 (le_bytes (of_nat n)) @ tab) d d [(p, d, op)] {}"
    (is "typed m cc p ?xs d d _ _")
proof -
  have n: "unat (of_nat n :: u32) = n" using assms(3) by (simp add: unsigned_of_nat take_bit_nat_eq_self)
  then have "(of_nat n :: u32) < 0x10000" using assms(3) by (simp add: word_less_nat_alt)
  from lies_at_u16 [OF assms(1) this] have g: "get_u16 m (int p + 1) = Some (of_nat n)" .
  have nz: "(of_nat n :: u32) \<noteq> 0" using n assms(2) by (metis less_numeral_extra(3) unsigned_0)
  have len: "re_op_len m p op = Some (length ?xs)" using assms(4) g n by (auto simp: re_op_len_def)
  have ne: "range_nonempty m p op" using g nz by (simp add: range_nonempty_def)
  have "typed m cc p ?xs d (depth_after op d) [(p, d, op)] {}"
  proof (rule typed_instr [OF _ len _ ne])
    fix D
    assume "D (int (p + length ?xs)) = Some (depth_after op d)"
    then show "instr_ok m cc D (p, d, op)" using assms(4) ne len by (auto simp: instr_ok_def)
  qed (use lies_at_op [OF assms(1)] lies_at_le [OF assms(1)] in auto)
  then show ?thesis using assms(4) by (auto simp: depth_after_def)
qed

lemma typed_capture:
  assumes "lies_at m p (reop_code op # args)" and "Suc (length args) = reop_size op"
    and "op \<in> {REOP_save_start, REOP_save_end} \<and> unat (args ! 0) < cc \<or> op = REOP_save_reset \<and> unat (args ! 1) < cc"
  shows "typed m cc p (reop_code op # args) d d [(p, d, op)] {}"
proof -
  have op: "op \<notin> range_ops" "depth_after op d = d" using assms(3) by (auto simp: depth_after_def)
  have r: "rdi m (int p + 1) = Some (args ! 0)" "op = REOP_save_reset \<Longrightarrow> rdi m (2 + int p) = Some (args ! 1)"
    using lies_at_nth [OF assms(1), of 1] lies_at_nth [OF assms(1), of 2] assms(2,3)
    by (auto simp: rdi_Some_iff nat_add_distrib)
  have "typed m cc p (reop_code op # args) d (depth_after op d) [(p, d, op)] {}"
    using assms(3) r re_op_len_fixed_eq [OF op(1)]
    by (intro typed_fixed [OF assms(1) op(1) assms(2)]) (auto simp: instr_ok_def capture_index_ok_def)
  then show ?thesis by (simp add: op(2))
qed

section \<open>Simple quantifiers\<close>

text \<open>The analysis of an atom gives the same count wherever the atom is.\<close>

lemma rdi_lies_at: "lies_at m p xs \<Longrightarrow> i < length xs \<Longrightarrow> rd m (p + i) = rd xs i"
  using lies_at_nth by (simp add: rd_def)

lemma get_u8_placed: "lies_at m p xs \<Longrightarrow> i < length xs \<Longrightarrow> get_u8 m (int (p + i)) = get_u8 xs (int i)"
  by (simp only: get_u8_def rdi_nat rdi_lies_at)

lemma get_u16_placed: "lies_at m p xs \<Longrightarrow> i + 1 < length xs \<Longrightarrow> get_u16 m (int (p + i)) = get_u16 xs (int i)"
  using get_u8_placed [of m p xs i] get_u8_placed [of m p xs "i + 1"]
  by (simp add: get_u16_def ac_simps)

lemma re_op_len_placed:
  assumes "lies_at m p xs" and "re_op_len m (p + i) op = Some len" and "i + len \<le> length xs"
  shows "re_op_len xs i op = Some len"
proof (cases "op \<in> range_ops")
  case True
  then have "3 \<le> len" using assms(2) by (auto simp: re_op_len_def)
  then have "get_u16 m (int (p + Suc i)) = get_u16 xs (int (Suc i))"
    using assms(3) by (intro get_u16_placed [OF assms(1)]) simp
  then show ?thesis using assms(2) True by (auto simp: re_op_len_def add.commute add.left_commute)
next
  case False
  then show ?thesis using assms(2) by (simp add: re_op_len_fixed_eq)
qed

lemma simple_quantifier_shift:
  assumes "simple_quantifier_loop xs (length xs) i c = Some (int k)" and "lies_at m p xs"
    and "whole_code m (p + length xs) (p + i)"
  shows "simple_quantifier_loop m (p + length xs) (p + i) c = Some (int k)"
  using assms
proof (induction xs "length xs" i c rule: simple_quantifier_loop.induct)
  case (1 xs i c)
  note loop = "1.prems"(1) [unfolded simple_quantifier_loop.simps [of xs "length xs" i c]]
  note step = simple_quantifier_loop.simps [of m "p + length xs" "p + i" c]
  show ?case
  proof (cases "i < length xs")
    case False
    then show ?thesis using loop unfolding step by simp
  next
    case True
    then have lt: "p + i < p + length xs" by simp
    from whole_code_step [OF "1.prems"(3) lt] obtain op len where
      w: "op_at m (p + i) = Some op" "re_op_len m (p + i) op = Some len"
        "whole_code m (p + length xs) (p + i + len)" "p + i + len \<le> p + length xs" by blast
    have x: "op_at xs i = Some op" "re_op_len xs i op = Some len"
      using w(1,2,4) rdi_lies_at [OF "1.prems"(2) True] re_op_len_placed [OF "1.prems"(2) w(2)]
      by (simp_all add: op_at_def)
    have w3: "whole_code m (p + length xs) (p + (i + len))" using w(3) by (simp add: add.assoc)
    consider (char) "op \<in> {REOP_range, REOP_range32, REOP_char, REOP_char32, REOP_dot, REOP_any}"
      | (anchor) "op \<in> {REOP_line_start, REOP_line_end, REOP_word_boundary, REOP_not_word_boundary}"
      using loop True x by (fastforce split: if_splits)
    then show ?thesis
    proof cases
      case char
      then have "simple_quantifier_loop xs (length xs) (i + len) (c + 1) = Some (int k)"
        using loop True x by auto
      from "1.hyps"(1) [OF True x char this "1.prems"(2) w3] show ?thesis
        using w(1,2) char lt unfolding step by (auto simp: add.assoc)
    next
      case anchor
      then have "simple_quantifier_loop xs (length xs) (i + len) c = Some (int k)"
        using loop True x by auto
      from "1.hyps"(2) [OF True x _ anchor this "1.prems"(2) w3] show ?thesis
        using w(1,2) anchor lt unfolding step by (auto simp: add.assoc)
    qed
  qed
qed

lemma simple_quantifier_bound:
  "simple_quantifier_loop m stop pos c = Some n \<Longrightarrow> n \<le> int (c + (stop - pos))"
proof (induction m stop pos c rule: simple_quantifier_loop.induct)
  case (1 m stop pos c)
  note loop = "1.prems"(1) [unfolded simple_quantifier_loop.simps [of m stop pos c]]
  show ?case
  proof (cases "pos < stop")
    case True
    then obtain op len where w: "op_at m pos = Some op" "re_op_len m pos op = Some len"
      using loop by (auto simp: bind_eq_Some_conv)
    note IH = "1.IH" [OF True w] and len = re_op_len_pos [OF w(2)]
    show ?thesis
    proof (cases "op \<in> {REOP_range, REOP_range32, REOP_char, REOP_char32, REOP_dot, REOP_any}")
      case char: True
      with loop True w have "simple_quantifier_loop m stop (pos + len) (c + 1) = Some n" by auto
      from IH(1) [OF char this] True len show ?thesis by simp
    next
      case char: False
      then have "n = -1 \<or> simple_quantifier_loop m stop (pos + len) c = Some n \<and>
          op \<in> {REOP_line_start, REOP_line_end, REOP_word_boundary, REOP_not_word_boundary}"
        using loop True w by (auto split: if_splits)
      then show ?thesis using IH(2) [OF char] True len by fastforce
    qed
  qed (use loop in simp)
qed

lemma whole_code_refl [simp]: "whole_code m p p"
  by (subst whole_code.simps) simp

text \<open>The operands of \<open>REOP_simple_greedy_quant\<close>.\<close>

lemma placed_quant:
  assumes "lies_at m p (x # le_bytes a @ le_bytes b @ le_bytes c @ le_bytes d)"
  shows "get_u32 m (int p + 1) = Some a" "get_u32 m (int p + 5) = Some b" "get_u32 m (int p + 9) = Some c"
    "get_u32 m (int p + 13) = Some d"
proof -
  have "lies_at m (p + 1) (le_bytes a)" "lies_at m (p + 5) (le_bytes b)" "lies_at m (p + 9) (le_bytes c)"
    "lies_at m (p + 13) (le_bytes d)"
    using assms by (simp_all add: lies_at_Cons lies_at_append ac_simps)
  from this [THEN lies_at_u32] show "get_u32 m (int p + 1) = Some a" "get_u32 m (int p + 5) = Some b"
    "get_u32 m (int p + 9) = Some c" "get_u32 m (int p + 13) = Some d" by (simp_all add: ac_simps)
qed

section \<open>Fragments are typed\<close>

text \<open>The shapes, for a body that is typed wherever it is lies_at.\<close>

definition typable :: "u8 list \<Rightarrow> nat \<Rightarrow> u8 list \<Rightarrow> bool" where
  "typable m cc xs \<longleftrightarrow> (\<forall>p d. lies_at m p xs \<longrightarrow> (\<exists>E. typed m cc p xs d d E {}))"

lemma typableD: "typable m cc xs \<Longrightarrow> lies_at m p xs \<Longrightarrow> \<exists>E. typed m cc p xs d d E {}"
  by (simp add: typable_def)

lemma typable_alt:
  assumes small: "length m < 2 ^ 31" and "typable m cc xs" and "typable m cc ys"
  shows "typable m cc ((reop_code REOP_split_next_first # jump_fwd (length xs + 5)) @ xs @
      (reop_code REOP_goto # jump_fwd (length ys)) @ ys)"
    (is "typable m cc (?a @ xs @ ?b @ ys)")
  unfolding typable_def
proof (intro allI impI)
  fix p d
  assume "lies_at m p (?a @ xs @ ?b @ ys)"
  note pl = this [unfolded lies_at_append] and le = lies_at_le [OF this]
  from pl have pl: "lies_at m p ?a" "lies_at m (p + 5) xs" "lies_at m (p + 5 + length xs) ?b"
      "lies_at m (p + 5 + length xs + 5) ys" by (simp_all add: ac_simps)
  have sz: "length xs + 5 < 2 ^ 31" "length ys < 2 ^ 31" using small le by simp_all
  from typableD [OF assms(2) pl(2)] typableD [OF assms(3) pl(4)] obtain E1 E2 where
    t1: "typed m cc (p + 5) xs d d E1 {}" and t2: "typed m cc (p + 5 + length xs + 5) ys d d E2 {}" by blast
  let ?E = "[(p, d, REOP_split_next_first)] @ E1 @ [(p + 5 + length xs, d, REOP_goto)] @ E2"
  let ?J = "{(int (p + 5 + (length xs + 5)), d)} \<union> ({} \<union> ({(int (p + 5 + length xs + 5 + length ys), d)} \<union> {}))"
  have "typed m cc p (?a @ xs @ ?b @ ys) d d ?E ?J"
    using typed_fwd [OF pl(1) sz(1), of cc d] typed_fwd [OF pl(3) sz(2), of cc d] t1 t2
    by (intro typed_append) simp_all
  then have "typed m cc p (?a @ xs @ ?b @ ys) d d ?E {}"
    by (rule typed_discharge) (use typedD(2) [OF t2] in \<open>simp add: ac_simps\<close>)
  then show "\<exists>E. typed m cc p (?a @ xs @ ?b @ ys) d d E {}" by blast
qed

lemma typable_opt:
  assumes small: "length m < 2 ^ 31" and op: "op \<in> splits" and "typable m cc xs"
  shows "typable m cc ((reop_code op # jump_fwd (length xs)) @ xs)" (is "typable m cc (?a @ xs)")
  unfolding typable_def
proof (intro allI impI)
  fix p d
  assume "lies_at m p (?a @ xs)"
  note pl = this [unfolded lies_at_append] and le = lies_at_le [OF this]
  from pl have pl: "lies_at m p ?a" "lies_at m (p + 5) xs" by (simp_all add: ac_simps)
  have sz: "length xs < 2 ^ 31" using small le by simp
  from typableD [OF assms(3) pl(2)] obtain E1 where t1: "typed m cc (p + 5) xs d d E1 {}" by blast
  have "typed m cc p (?a @ xs) d d ([(p, d, op)] @ E1) ({(int (p + 5 + length xs), d)} \<union> {})"
    using typed_fwd [OF pl(1) sz, of cc d] op t1 by (intro typed_append) auto
  then have "typed m cc p (?a @ xs) d d ([(p, d, op)] @ E1) {}"
    by (rule typed_discharge) (simp add: ac_simps)
  then show "\<exists>E. typed m cc p (?a @ xs) d d E {}" by blast
qed

lemma typable_star:
  assumes small: "length m < 2 ^ 31" and op: "op \<in> splits" and "typable m cc xs"
  shows "typable m cc ((reop_code op # jump_fwd (length xs + 5)) @ xs @
      (reop_code REOP_goto # jump_back (length xs + 10)))" (is "typable m cc (?a @ xs @ ?b)")
  unfolding typable_def
proof (intro allI impI)
  fix p d
  assume "lies_at m p (?a @ xs @ ?b)"
  note pl = this [unfolded lies_at_append] and le = lies_at_le [OF this]
  from pl have pl: "lies_at m p ?a" "lies_at m (p + 5) xs" "lies_at m (p + 5 + length xs) ?b" by (simp_all add: ac_simps)
  have sz: "length xs + 5 < 2 ^ 31" "length xs + 10 < 2 ^ 31" using small le by simp_all
  from typableD [OF assms(3) pl(2)] obtain E1 where t1: "typed m cc (p + 5) xs d d E1 {}" by blast
  let ?E = "[(p, d, op)] @ E1 @ [(p + 5 + length xs, d, REOP_goto)]"
  let ?J = "{(int (p + 5 + (length xs + 5)), d)} \<union> ({} \<union> {(int (p + 5 + length xs + 5 - (length xs + 10)), d)})"
  have "typed m cc p (?a @ xs @ ?b) d d ?E ?J"
    using typed_fwd [OF pl(1) sz(1), of cc d] typed_back [OF pl(3) _ sz(2), of d cc] op t1
    by (intro typed_append) auto
  then have "typed m cc p (?a @ xs @ ?b) d d ?E {}"
    by (rule typed_discharge) (simp add: ac_simps)
  then show "\<exists>E. typed m cc p (?a @ xs @ ?b) d d E {}" by blast
qed

lemma typable_star_checked:
  assumes small: "length m < 2 ^ 31" and op: "op \<in> splits" and "typable m cc xs"
  shows "typable m cc ((reop_code op # jump_fwd (length xs + 6)) @ [reop_code REOP_push_char_pos] @ xs @
      (reop_code REOP_bne_char_pos # jump_back (length xs + 11)))" (is "typable m cc (?a @ ?c @ xs @ ?b)")
  unfolding typable_def
proof (intro allI impI)
  fix p d
  assume "lies_at m p (?a @ ?c @ xs @ ?b)"
  note pl = this [unfolded lies_at_append] and le = lies_at_le [OF this]
  from pl have pl: "lies_at m p ?a" "lies_at m (p + 5) ?c" "lies_at m (p + 6) xs" "lies_at m (p + 6 + length xs) ?b" by (simp_all add: ac_simps)
  have sz: "length xs + 6 < 2 ^ 31" "length xs + 11 < 2 ^ 31" using small le by simp_all
  from typableD [OF assms(3) pl(3)] obtain E1 where t1: "typed m cc (p + 6) xs (Suc d) (Suc d) E1 {}" by blast
  let ?E = "[(p, d, op)] @ [(p + 5, d, REOP_push_char_pos)] @ E1 @ [(p + 6 + length xs, Suc d, REOP_bne_char_pos)]"
  let ?J = "{(int (p + 5 + (length xs + 6)), d)} \<union> ({} \<union> ({} \<union> {(int (p + 6 + length xs + 5 - (length xs + 11)), d)}))"
  have "typed m cc p (?a @ ?c @ xs @ ?b) d d ?E ?J"
    using typed_fwd [OF pl(1) sz(1), of cc d] typed_bne [OF pl(4) _ sz(2), of cc d] typed_push [OF pl(2), of cc d] op t1
    by (intro typed_append [where ?d1.0 = d, OF _ typed_append [where ?d1.0 = "Suc d", OF _
          typed_append [where ?d1.0 = "Suc d"]]]) (auto simp: ac_simps)
  then have "typed m cc p (?a @ ?c @ xs @ ?b) d d ?E {}"
    by (rule typed_discharge) (simp add: ac_simps)
  then show "\<exists>E. typed m cc p (?a @ ?c @ xs @ ?b) d d E {}" by blast
qed

lemma typable_plus:
  assumes small: "length m < 2 ^ 31" and op: "op \<in> splits" and "typable m cc xs"
  shows "typable m cc (xs @ (reop_code op # jump_back (length xs + 5)))" (is "typable m cc (xs @ ?b)")
  unfolding typable_def
proof (intro allI impI)
  fix p d
  assume "lies_at m p (xs @ ?b)"
  note pl = this [unfolded lies_at_append] and le = lies_at_le [OF this]
  from pl have pl: "lies_at m p xs" "lies_at m (p + length xs) ?b" by (simp_all add: ac_simps)
  have sz: "length xs + 5 < 2 ^ 31" using small le by simp
  from typableD [OF assms(3) pl(1)] obtain E1 where t1: "typed m cc p xs d d E1 {}" by blast
  let ?E = "E1 @ [(p + length xs, d, op)]" and ?J = "{} \<union> {(int (p + length xs + 5 - (length xs + 5)), d)}"
  have "typed m cc p (xs @ ?b) d d ?E ?J"
    using typed_back [OF pl(2) _ sz, of d cc] op t1 by (intro typed_append) auto
  then have "typed m cc p (xs @ ?b) d d ?E {}"
    by (rule typed_discharge) (use typedD(2) [OF t1] in simp)
  then show "\<exists>E. typed m cc p (xs @ ?b) d d E {}" by blast
qed

lemma typable_loop:
  assumes small: "length m < 2 ^ 31" and "typable m cc xs"
  shows "typable m cc ((reop_code REOP_push_i32 # le_bytes v) @ xs @
      (reop_code REOP_loop # jump_back (length xs + 5)) @ [reop_code REOP_drop])" (is "typable m cc (?a @ xs @ ?b @ ?c)")
  unfolding typable_def
proof (intro allI impI)
  fix p d
  assume "lies_at m p (?a @ xs @ ?b @ ?c)"
  note pl = this [unfolded lies_at_append] and le = lies_at_le [OF this]
  from pl have pl: "lies_at m p ?a" "lies_at m (p + 5) xs" "lies_at m (p + 5 + length xs) ?b"
    "lies_at m (p + 5 + length xs + 5) ?c" by (simp_all add: ac_simps)
  have sz: "length xs + 5 < 2 ^ 31" using small le by simp
  from typableD [OF assms(2) pl(2)] obtain E1 where t1: "typed m cc (p + 5) xs (Suc d) (Suc d) E1 {}" by blast
  let ?E = "[(p, d, REOP_push_i32)] @ E1 @ [(p + 5 + length xs, Suc d, REOP_loop)] @
    [(p + 5 + length xs + 5, Suc d, REOP_drop)]"
  let ?J = "{} \<union> ({} \<union> ({(int (p + 5 + length xs + 5 - (length xs + 5)), Suc d)} \<union> {}))"
  have "typed m cc p (?a @ xs @ ?b @ ?c) d d ?E ?J"
    using typed_push [OF pl(1), of cc d] typed_back [OF pl(3) _ sz, of "Suc d" cc] typed_drop [OF pl(4), of cc d] t1
    by (intro typed_append [where ?d1.0 = "Suc d"]) (auto simp: ac_simps)
  then have "typed m cc p (?a @ xs @ ?b @ ?c) d d ?E {}"
    by (rule typed_discharge) (use typedD(2) [OF t1] in \<open>simp add: ac_simps\<close>)
  then show "\<exists>E. typed m cc p (?a @ xs @ ?b @ ?c) d d E {}" by blast
qed

lemma typable_optional_loop:
  assumes small: "length m < 2 ^ 31" and op: "op \<in> splits" and "typable m cc xs"
  shows "typable m cc ((reop_code REOP_push_i32 # le_bytes v) @ (reop_code op # jump_fwd (length xs + 5)) @ xs @
      (reop_code REOP_loop # jump_back (length xs + 10)) @ [reop_code REOP_drop])"
    (is "typable m cc (?a @ ?s @ xs @ ?b @ ?c)")
  unfolding typable_def
proof (intro allI impI)
  fix p d
  assume "lies_at m p (?a @ ?s @ xs @ ?b @ ?c)"
  note pl = this [unfolded lies_at_append] and le = lies_at_le [OF this]
  from pl have pl: "lies_at m p ?a" "lies_at m (p + 5) ?s" "lies_at m (p + 10) xs" "lies_at m (p + 10 + length xs) ?b"
    "lies_at m (p + 10 + length xs + 5) ?c" by (simp_all add: ac_simps)
  have sz: "length xs + 5 < 2 ^ 31" "length xs + 10 < 2 ^ 31" using small le by simp_all
  from typableD [OF assms(3) pl(3)] obtain E1 where t1: "typed m cc (p + 10) xs (Suc d) (Suc d) E1 {}" by blast
  let ?E = "[(p, d, REOP_push_i32)] @ [(p + 5, Suc d, op)] @ E1 @ [(p + 10 + length xs, Suc d, REOP_loop)] @
    [(p + 10 + length xs + 5, Suc d, REOP_drop)]"
  let ?J = "{} \<union> ({(int (p + 5 + 5 + (length xs + 5)), Suc d)} \<union>
    ({} \<union> ({(int (p + 10 + length xs + 5 - (length xs + 10)), Suc d)} \<union> {})))"
  have "typed m cc p (?a @ ?s @ xs @ ?b @ ?c) d d ?E ?J"
    using typed_push [OF pl(1), of cc d] typed_fwd [OF pl(2) sz(1), of cc "Suc d"]
      typed_back [OF pl(4) _ sz(2), of "Suc d" cc] typed_drop [OF pl(5), of cc d] op t1
    by (intro typed_append [where ?d1.0 = "Suc d"]) (auto simp: ac_simps)
  then have "typed m cc p (?a @ ?s @ xs @ ?b @ ?c) d d ?E {}"
    by (rule typed_discharge) (simp add: ac_simps)
  then show "\<exists>E. typed m cc p (?a @ ?s @ xs @ ?b @ ?c) d d E {}" by blast
qed

lemma typable_look:
  assumes small: "length m < 2 ^ 31" and op: "op \<in> {REOP_lookahead, REOP_negative_lookahead}" and "typable m cc xs"
  shows "typable m cc ((reop_code op # jump_fwd (length xs + 1)) @ xs @ [reop_code REOP_match])"
    (is "typable m cc (?a @ xs @ ?b)")
  unfolding typable_def
proof (intro allI impI)
  fix p d
  assume "lies_at m p (?a @ xs @ ?b)"
  note pl = this [unfolded lies_at_append] and le = lies_at_le [OF this]
  from pl have pl: "lies_at m p ?a" "lies_at m (p + 5) xs" "lies_at m (p + 5 + length xs) ?b" by (simp_all add: ac_simps)
  have sz: "length xs + 1 < 2 ^ 31" using small le by simp
  from typableD [OF assms(3) pl(2)] obtain E1 where t1: "typed m cc (p + 5) xs d d E1 {}" by blast
  let ?E = "[(p, d, op)] @ E1 @ [(p + 5 + length xs, d, REOP_match)]"
  have "typed m cc p (?a @ xs @ ?b) d d ?E ({(int (p + 5 + (length xs + 1)), d)} \<union> ({} \<union> {}))"
    using typed_fwd [OF pl(1) sz, of cc d] typed_match [OF pl(3), of cc d] op t1
    by (intro typed_append) auto
  then have "typed m cc p (?a @ xs @ ?b) d d ?E {}"
    by (rule typed_discharge) (simp add: ac_simps)
  then show "\<exists>E. typed m cc p (?a @ xs @ ?b) d d E {}" by blast
qed

lemma typed_quant:
  assumes pl: "lies_at m p (reop_code REOP_simple_greedy_quant # jump_fwd (n + 1) @ le_bytes a @ le_bytes b @ le_bytes (of_nat k))"
    and n: "n + 1 < 2 ^ 31" and k: "0 < k" "k < 2 ^ 32"
    and body: "op_at m (p + 17 + n) = Some REOP_match" "whole_code m (p + 17 + n) (p + 17)"
      "simple_quantifier_loop m (p + 17 + n) (p + 17) 0 = Some (int k)"
  shows "typed m cc p (reop_code REOP_simple_greedy_quant # jump_fwd (n + 1) @ le_bytes a @ le_bytes b @ le_bytes (of_nat k))
    d d [(p, d, REOP_simple_greedy_quant)] {(int (p + 18 + n), d)}" (is "typed m cc p (_ # ?args) d d _ ?J")
proof -
  have kk: "uint (of_nat k :: u32) = int k" "(0 :: u32) < of_nat k"
    using k by (simp_all add: unsigned_of_nat take_bit_nat_eq_self word_less_nat_alt uint_nat)
  note g = placed_quant [OF pl [unfolded jump_fwd_def]]
  have s: "sint (of_nat (n + 1) :: u32) = int (n + 1)" using n by (rule sint_of_nat_u32)
  have "quantifier_ok m D (p + 1) d" if "D (int (p + 18 + n)) = Some d" for D
  proof -
    have stop: "p + 1 + 16 + nat (sint (of_nat (n + 1) :: u32)) - 1 = p + 17 + n" unfolding s by simp
    have "re_is_simple_quantifier m (p + 1 + 16) (p + 17 + n - (p + 1 + 16)) = Some (int k)"
      using body(3) by (simp add: re_is_simple_quantifier_def ac_simps)
    moreover have "D (int (p + 1) + 16 + sint (of_nat (n + 1) :: u32)) = Some d"
      unfolding s using that by (simp add: ac_simps)
    ultimately show ?thesis
      unfolding quantifier_ok_def case_four Let_def
      using g body(1,2) kk s stop
      by (intro exI [of _ "of_nat (n + 1)"] exI [of _ a] exI [of _ b] exI [of _ "of_nat k"]) (simp add: ac_simps)
  qed
  then have "typed m cc p (reop_code REOP_simple_greedy_quant # ?args) d
      (depth_after REOP_simple_greedy_quant d) [(p, d, REOP_simple_greedy_quant)] ?J"
    by (intro typed_fixed [OF pl]) (simp_all add: instr_ok_def)
  then show ?thesis by (simp add: depth_after_def)
qed

lemma typable_simple:
  assumes small: "length m < 2 ^ 31" and xs: "typable m cc xs"
    and k: "re_is_simple_quantifier xs 0 (length xs) = Some (int k)" "0 < k" "k < 2 ^ 32"
  shows "typable m cc ((reop_code REOP_simple_greedy_quant # jump_fwd (length xs + 1) @ le_bytes a @ le_bytes b @
      le_bytes (of_nat k)) @ xs @ [reop_code REOP_match])" (is "typable m cc (?q @ xs @ ?b)")
  unfolding typable_def
proof (intro allI impI)
  fix p d
  assume "lies_at m p (?q @ xs @ ?b)"
  note pl = this [unfolded lies_at_append] and le = lies_at_le [OF this]
  from pl have pl: "lies_at m p ?q" "lies_at m (p + 17) xs" "lies_at m (p + 17 + length xs) ?b" by (simp_all add: ac_simps)
  have sz: "length xs + 1 < 2 ^ 31" using small le by simp
  from typableD [OF xs pl(2)] obtain E1 where t1: "typed m cc (p + 17) xs d d E1 {}" by blast
  then have w: "whole_code m (p + 17 + length xs) (p + 17)" by (simp add: typed_def)
  have "simple_quantifier_loop m (p + 17 + length xs) (p + 17 + 0) 0 = Some (int k)"
    using k(1) pl(2) w by (intro simple_quantifier_shift) (simp_all add: re_is_simple_quantifier_def)
  then have q: "typed m cc p ?q d d [(p, d, REOP_simple_greedy_quant)] {(int (p + 18 + length xs), d)}"
    by (intro typed_quant [OF pl(1) sz k(2,3) lies_at_op [OF pl(3)] w]) simp
  let ?E = "[(p, d, REOP_simple_greedy_quant)] @ E1 @ [(p + 17 + length xs, d, REOP_match)]"
  have "typed m cc p (?q @ xs @ ?b) d d ?E ({(int (p + 18 + length xs), d)} \<union> ({} \<union> {}))"
    using q typed_match [OF pl(3), of cc d] t1 by (intro typed_append) (auto simp: ac_simps)
  then have "typed m cc p (?q @ xs @ ?b) d d ?E {}"
    by (rule typed_discharge) (simp add: ac_simps)
  then show "\<exists>E. typed m cc p (?q @ xs @ ?b) d d E {}" by blast
qed

lemma frag_typable:
  assumes "frag cc xs" and small: "length m < 2 ^ 31"
  shows "typable m cc xs"
  using assms(1)
proof (induction rule: frag.induct)
  case frag_nil
  then show ?case using typed_nil unfolding typable_def by blast
next
  case (frag_op op args)
  then show ?case unfolding typable_def by (intro allI impI exI) (rule typed_plain)
next
  case (frag_save op n)
  show ?case unfolding typable_def by (intro allI impI exI, rule typed_capture) (use frag_save in auto)
next
  case (frag_reset n a)
  show ?case unfolding typable_def by (intro allI impI exI, rule typed_capture) (use frag_reset in auto)
next
  case (frag_range n tab)
  show ?case unfolding typable_def by (intro allI impI exI, rule typed_range) (use frag_range in auto)
next
  case (frag_range32 n tab)
  show ?case unfolding typable_def by (intro allI impI exI, rule typed_range) (use frag_range32 in auto)
next
  case (frag_seq xs ys)
  show ?case
    unfolding typable_def
  proof (intro allI impI)
    fix p d
    assume "lies_at m p (xs @ ys)"
    then have "lies_at m p xs" "lies_at m (p + length xs) ys" by (simp_all add: lies_at_append)
    with frag_seq.IH obtain E1 E2 where "typed m cc p xs d d E1 {}" "typed m cc (p + length xs) ys d d E2 {}"
      by (blast dest: typableD)
    from typed_append [OF this] show "\<exists>E. typed m cc p (xs @ ys) d d E {}" by auto
  qed
qed (rule typable_alt typable_opt typable_star typable_star_checked typable_plus typable_loop typable_optional_loop
    typable_look typable_simple, (rule small | assumption)+)+

text \<open>An atom that is found simple in the middle of a program is simple by itself.\<close>

lemma re_op_len_lift:
  assumes "lies_at m p xs" and "re_op_len xs i op = Some len" and "i + len \<le> length xs"
  shows "re_op_len m (p + i) op = Some len"
proof (cases "op \<in> range_ops")
  case True
  then have "3 \<le> len" using assms(2) by (auto simp: re_op_len_def)
  then have "get_u16 m (int (p + Suc i)) = get_u16 xs (int (Suc i))"
    using assms(3) by (intro get_u16_placed [OF assms(1)]) simp
  then show ?thesis using assms(2) True by (auto simp: re_op_len_def add.commute add.left_commute)
next
  case False
  then show ?thesis using assms(2) by (simp add: re_op_len_fixed_eq)
qed

lemma simple_quantifier_unshift:
  assumes "simple_quantifier_loop m (p + length xs) (p + i) c = Some (int k)" and "lies_at m p xs"
    and "whole_code xs (length xs) i"
  shows "simple_quantifier_loop xs (length xs) i c = Some (int k)"
  using assms
proof (induction xs "length xs" i c rule: simple_quantifier_loop.induct)
  case (1 xs i c)
  note loop = "1.prems"(1) [unfolded simple_quantifier_loop.simps [of m "p + length xs" "p + i" c]]
  note step = simple_quantifier_loop.simps [of xs "length xs" i c]
  show ?case
  proof (cases "i < length xs")
    case False
    then show ?thesis using loop unfolding step by simp
  next
    case True
    then have lt: "p + i < p + length xs" by simp
    from whole_code_step [OF "1.prems"(3) True] obtain op len where
      w: "op_at xs i = Some op" "re_op_len xs i op = Some len" "whole_code xs (length xs) (i + len)"
        "i + len \<le> length xs" by blast
    have x: "op_at m (p + i) = Some op" "re_op_len m (p + i) op = Some len"
      using w(1,2,4) rdi_lies_at [OF "1.prems"(2) True] re_op_len_lift [OF "1.prems"(2) w(2)]
      by (simp_all add: op_at_def)
    consider (char) "op \<in> {REOP_range, REOP_range32, REOP_char, REOP_char32, REOP_dot, REOP_any}"
      | (anchor) "op \<in> {REOP_line_start, REOP_line_end, REOP_word_boundary, REOP_not_word_boundary}"
      using loop lt x by (fastforce split: if_splits)
    then show ?thesis
    proof cases
      case char
      then have "simple_quantifier_loop m (p + length xs) (p + (i + len)) (c + 1) = Some (int k)"
        using loop lt x by (auto simp: add.assoc)
      from "1.hyps"(1) [OF True w(1,2) char this "1.prems"(2) w(3)] show ?thesis
        using w(1,2) char True unfolding step by auto
    next
      case anchor
      then have "simple_quantifier_loop m (p + length xs) (p + (i + len)) c = Some (int k)"
        using loop lt x by (auto simp: add.assoc)
      from "1.hyps"(2) [OF True w(1,2) _ anchor this "1.prems"(2) w(3)] show ?thesis
        using w(1,2) anchor True unfolding step by auto
    qed
  qed
qed

lemma frag_whole_code:
  assumes "frag cc xs" and "length xs < 2 ^ 31"
  shows "whole_code xs (length xs) 0"
proof -
  have "lies_at xs 0 xs" by (simp add: lies_at_def)
  from typableD [OF frag_typable [OF assms] this] obtain E where "typed xs cc 0 xs 0 0 E {}" by blast
  then show ?thesis by (simp add: typed_def)
qed

lemma frag_simple_placed:
  assumes "frag cc xs" and "lies_at m p xs" and "length xs < 2 ^ 31"
    and "re_is_simple_quantifier m p (length xs) = Some k" and "0 < k"
  shows "frag cc ((reop_code REOP_simple_greedy_quant # jump_fwd (length xs + 1) @ le_bytes a @ le_bytes b @
      le_bytes (word_of_int k)) @ xs @ [reop_code REOP_match])"
proof -
  obtain n where n: "k = int n" using assms(5) by (metis zero_less_imp_eq_int)
  have "simple_quantifier_loop m (p + length xs) (p + 0) 0 = Some (int n)"
    using assms(4) by (simp add: re_is_simple_quantifier_def n)
  from simple_quantifier_unshift [OF this assms(2) frag_whole_code [OF assms(1,3)]]
  have l: "simple_quantifier_loop xs (length xs) 0 0 = Some (int n)" .
  then have s: "re_is_simple_quantifier xs 0 (length xs) = Some (int n)" by (simp add: re_is_simple_quantifier_def)
  have "n < 2 ^ 32" using simple_quantifier_bound [OF l] assms(3) by simp
  from frag_simple [OF assms(1) s _ this] show ?thesis using assms(5) by (simp add: n)
qed

section \<open>Whole programs\<close>

lemma code_map_distinct: "code_map m pos d = Some l \<Longrightarrow> distinct (map fst l)"
proof (induction m pos d arbitrary: l rule: code_map.induct)
  case (1 m pos d)
  note loop = "1.prems"(1) [unfolded code_map.simps [of m pos d]]
  show ?case
  proof (cases "pos < length m")
    case True
    then obtain op len rest where c: "op_at m pos = Some op" "re_op_len m pos op = Some len" "\<not> pos + len > length m"
        "code_map m (pos + len) (depth_after op d) = Some rest" "l = (pos, d, op) # rest"
      using loop by (auto simp: bind_eq_Some_conv split: if_splits)
    have "pos + len \<le> q" if "q \<in> fst ` set rest" for q
      using that code_map_entry [OF c(4)] by force
    then have "pos \<notin> fst ` set rest" using re_op_len_pos [OF c(2)] by fastforce
    then show ?thesis using "1.IH" [OF True c(1-4)] c(5) by simp
  qed (use loop in simp)
qed

lemma code_depths_entry:
  assumes "code_map m pos d = Some l" and "(q, e, op) \<in> set l"
  shows "code_depths l (int q) = Some e"
proof -
  have "distinct (map fst (map (\<lambda>(p, d, op). (int p, d)) l))"
  proof -
    have "map fst (map (\<lambda>(p, d, op). (int p, d)) l) = map int (map fst l)" by (simp add: case_prod_beta comp_def)
    then show ?thesis using code_map_distinct [OF assms(1)] by (simp add: distinct_map inj_on_def)
  qed
  then show ?thesis
    using assms(2) unfolding code_depths_def by (intro map_of_is_SomeI) (auto simp: image_iff intro!: bexI [of _ "(q, e, op)"])
qed

lemma frag_check_code:
  assumes "frag cc xs" and "m = h @ xs @ [reop_code REOP_match]" and "length h = RE_HEADER_LEN" and "length m < 2 ^ 31"
  shows "check_code m cc"
proof -
  have "lies_at m 7 (xs @ [reop_code REOP_match])" using assms(2,3) by (simp add: lies_at_def)
  then have pl: "lies_at m 7 xs" "lies_at m (7 + length xs) [reop_code REOP_match]" by (simp_all add: lies_at_append)
  from typableD [OF frag_typable [OF assms(1,4)] pl(1)] obtain E where t: "typed m cc 7 xs 0 0 E {}" by blast
  let ?l = "E @ [(7 + length xs, 0, REOP_match)]"
  have e: "7 + length xs + 1 = length m" using assms(2,3) by simp
  have "code_map m (7 + length xs + 1) 0 = Some []" unfolding e by (subst code_map.simps) simp
  then have "code_map m (7 + length xs) 0 = Some [(7 + length xs, 0, REOP_match)]"
    using typed_match [OF pl(2), of cc 0] by (simp add: typed_def)
  then have l: "code_map m 7 0 = Some ?l" using t by (simp add: typed_def)
  note D = code_depths_entry [OF l]
  have "list_all (instr_ok m cc (code_depths ?l)) E"
    using D [of _ _ _] D [of "7 + length xs" 0 REOP_match] by (intro typedD(1) [OF t]) auto
  moreover have "instr_ok m cc (code_depths ?l) (7 + length xs, 0, REOP_match)"
    by (simp add: instr_ok_def range_nonempty_def)
  ultimately show ?thesis using l e by (simp add: check_code_def)
qed

end
