(* ===== verification/ReEmit.thy ===== *)
theory ReEmit
  imports ReCompile ReGrammar
begin

text \<open>
  The code generator of the regular expression compiler emits fragments of the grammar: what the primitives do to
  the bytes of the buffer, and the quantifiers.  All statements are about runs whose final error flag is clear;
  the flag is never cleared, so it was clear all the time and every store and insertion succeeded.
\<close>

section \<open>Buffers of limited size\<close>

text \<open>The allocator of the buffer delivers no block of \<open>2 ^ 31\<close> bytes or more.\<close>

definition limited :: "dynbuf \<Rightarrow> bool" where
  "limited b \<longleftrightarrow> dbuf_ok b \<and> db_allocated_size b < 2 ^ 31 \<and>
     (\<forall>f k n g. db_realloc b = Some f \<longrightarrow> f k n = Some g \<longrightarrow> n < 2 ^ 31)"

lemma limited_size: "limited b \<Longrightarrow> db_size b < 2 ^ 31"
  by (auto simp: limited_def dbuf_ok_def)

lemma limited_length: "limited b \<Longrightarrow> length (dbuf_bytes b) = db_size b"
  by (simp add: limited_def)

definition allocates :: "dynbuf \<Rightarrow> dynbuf \<Rightarrow> bool" where
  "allocates b b' \<longleftrightarrow> db_realloc b' = db_realloc b \<and> (db_error b \<longrightarrow> db_error b') \<and>
     (limited b \<longrightarrow> db_allocated_size b' < 2 ^ 31)"

lemma allocates_refl [simp]: "allocates b b"
  by (auto simp: allocates_def limited_def)

lemma dbuf_realloc_allocates: "dbuf_realloc b n = Some (r, b') \<Longrightarrow> allocates b b'"
proof -
  assume r: "dbuf_realloc b n = Some (r, b')"
  then have "db_realloc b' = db_realloc b \<and> (db_error b \<longrightarrow> db_error b') \<and>
      (db_allocated_size b' = db_allocated_size b \<or>
       (\<exists>f k g. db_realloc b = Some f \<and> f k (db_allocated_size b') = Some g))"
    by (auto simp: dbuf_realloc_def Let_def split: if_splits option.splits)
  then show ?thesis unfolding allocates_def limited_def by metis
qed

lemma dbuf_grow_allocates: "dbuf_grow b n = Some (r, b') \<Longrightarrow> allocates b b'"
  by (auto simp: dbuf_grow_def bind_eq_Some_conv split: if_splits dest: dbuf_realloc_allocates)

lemma allocates_update [simp]: "allocates b (b'\<lparr>db_buf := m, db_size := n\<rparr>) = allocates b b'"
  by (simp add: allocates_def)

lemma dbuf_put_allocates: "dbuf_put b d = Some (r, b') \<Longrightarrow> allocates b b'"
  by (auto simp: dbuf_put_def bind_eq_Some_conv split: if_splits dest: dbuf_grow_allocates)

lemma dbuf_put_self_allocates: "dbuf_put_self b i n = Some (r, b') \<Longrightarrow> allocates b b'"
  by (auto simp: dbuf_put_self_def bind_eq_Some_conv split: if_splits dest: dbuf_grow_allocates)

lemma dbuf_insert_allocates: "dbuf_insert b i n = Some (r, b') \<Longrightarrow> allocates b b'"
  by (auto simp: dbuf_insert_def bind_eq_Some_conv split: if_splits dest: dbuf_realloc_allocates)

lemma allocates_error: "allocates b b' \<Longrightarrow> \<not> db_error b' \<Longrightarrow> \<not> db_error b"
  by (auto simp: allocates_def)

lemma allocates_limited: "allocates b b' \<Longrightarrow> limited b \<Longrightarrow> dbuf_ok b' \<Longrightarrow> limited b'"
  by (auto simp: allocates_def limited_def)

section \<open>Primitives on limited buffers\<close>

lemma limited_put:
  assumes "dbuf_put b d = Some (r, b')" and "limited b" and "\<not> db_error b'" and "length d < 2 ^ 31"
  shows "limited b' \<and> dbuf_bytes b' = dbuf_bytes b @ d"
proof -
  have "db_size b + length d < SIZE_MOD" using limited_size [OF assms(2)] assms(4) by (simp add: SIZE_MOD_def)
  then have "appended b d r b'"
    using dbuf_put_appended [of b d] assms(1,2) by (auto simp: limited_def)
  then show ?thesis
    using assms(3) allocates_limited [OF dbuf_put_allocates [OF assms(1)] assms(2)] by (auto simp: appended_def)
qed

lemma limited_put_self:
  assumes "dbuf_put_self b i n = Some (r, b')" and "limited b" and "\<not> db_error b'" and "i + n \<le> length (dbuf_bytes b)"
  shows "limited b' \<and> dbuf_bytes b' = dbuf_bytes b @ take n (drop i (dbuf_bytes b))"
proof -
  have i: "i + n \<le> db_size b" using assms(4) limited_length [OF assms(2)] by simp
  then have "db_size b + n < SIZE_MOD" using limited_size [OF assms(2)] by (simp add: SIZE_MOD_def)
  then have "appended b (take n (drop i (dbuf_bytes b))) r b'"
    using dbuf_put_self_spec [OF _ i] assms(1,2) by (auto simp: limited_def)
  then show ?thesis
    using assms(3) allocates_limited [OF dbuf_put_self_allocates [OF assms(1)] assms(2)] by (auto simp: appended_def)
qed

lemma limited_insert:
  assumes "dbuf_insert b i n = Some (r, b')" and "limited b" and "\<not> db_error b'" and "n < 2 ^ 31"
  shows "limited b' \<and> i \<le> length (dbuf_bytes b) \<and> (\<exists>gap. length gap = n \<and>
    dbuf_bytes b' = take i (dbuf_bytes b) @ gap @ drop i (dbuf_bytes b))"
proof -
  have sz: "db_size b + n < SIZE_MOD" using limited_size [OF assms(2)] assms(4) by (simp add: SIZE_MOD_def)
  obtain r1 b1 where g: "dbuf_realloc b (db_size b + n) = Some (r1, b1)" "grown b (db_size b + n) r1 b1"
    using dbuf_realloc_grown [of b, OF _ sz] assms(2) by (auto simp: limited_def)
  have i: "i \<le> db_size b"
  proof (cases "r1 = 0")
    case True
    then show ?thesis using assms(1) g sz by (auto simp: dbuf_insert_def grown_def split: if_splits)
  next
    case False
    then have "db_error b'" using assms(1) g sz by (auto simp: dbuf_insert_def grown_def)
    then show ?thesis using assms(3) by simp
  qed
  then show ?thesis
    using dbuf_insert_spec [OF _ i sz] assms(1-3) limited_length [OF assms(2)]
      allocates_limited [OF dbuf_insert_allocates [OF assms(1)] assms(2)]
    by (auto simp: limited_def)
qed

lemma limited_poke:
  assumes "wr_block (db_buf b) i d = Some m" and "limited b" and "i + length d \<le> length (dbuf_bytes b)"
  shows "limited (b\<lparr>db_buf := m\<rparr>) \<and>
    dbuf_bytes (b\<lparr>db_buf := m\<rparr>) = take i (dbuf_bytes b) @ d @ drop (i + length d) (dbuf_bytes b)"
proof -
  have l: "i + length d \<le> db_size b" "db_size b \<le> length (db_buf b)"
    and m: "m = take i (db_buf b) @ d @ drop (i + length d) (db_buf b)"
    using assms limited_length [OF assms(2)] by (auto simp: wr_block_Some_iff limited_def dbuf_ok_def)
  then have "length m = length (db_buf b)" by simp
  moreover have "take (db_size b) m = take i (take (db_size b) (db_buf b)) @ d @ drop (i + length d) (take (db_size b) (db_buf b))"
    using take_overwrite [of i "db_size b" "db_buf b" d] l unfolding m by (simp add: max_def)
  ultimately show ?thesis using assms(2) by (simp add: limited_def dbuf_ok_def dbuf_bytes_def)
qed

section \<open>Primitives of the compiler\<close>

abbreviation "failed s \<equiv> db_error (byte_code s)"
abbreviation "code s \<equiv> dbuf_bytes (byte_code s)"

definition good :: "re_parse_state \<Rightarrow> bool" where
  "good s \<longleftrightarrow> limited (byte_code s) \<and> 0 < capture_count s \<and> capture_count s \<le> CAPTURE_COUNT_MAX"

lemma code_size_length: "good s \<Longrightarrow> code_size s = length (code s)"
  by (simp add: good_def limited_length)

text \<open>Only the code buffer changes.\<close>

definition same_but_code :: "re_parse_state \<Rightarrow> re_parse_state \<Rightarrow> bool" where
  "same_but_code s s' \<longleftrightarrow> (\<exists>b. s' = s\<lparr>byte_code := b\<rparr>)"

lemma same_but_code_refl [simp]: "same_but_code s s"
  unfolding same_but_code_def by (rule exI [of _ "byte_code s"]) simp

lemma same_but_code_trans: "same_but_code s t \<Longrightarrow> same_but_code t u \<Longrightarrow> same_but_code s u"
  by (auto simp: same_but_code_def)

lemma same_but_codeD: "same_but_code s s' \<Longrightarrow> capture_count s' = capture_count s"
  by (auto simp: same_but_code_def)

text \<open>A step that changes the bytes of the code by \<open>f\<close>.\<close>

definition edits :: "(u8 list \<Rightarrow> u8 list \<Rightarrow> bool) \<Rightarrow> re_parse_state \<Rightarrow> re_parse_state \<Rightarrow> bool" where
  "edits P s s' \<longleftrightarrow> same_but_code s s' \<and>
     (\<not> failed s' \<longrightarrow> \<not> failed s \<and> (good s \<longrightarrow> good s' \<and> P (code s) (code s')))"

lemma edits_refl: "edits (=) s s"
  by (simp add: edits_def)

lemma edits_trans: "edits P s t \<Longrightarrow> edits Q t u \<Longrightarrow> edits (P OO Q) s u"
  unfolding edits_def by (blast intro: same_but_code_trans relcomppI)

lemma edits_mono: "edits P s t \<Longrightarrow> (\<And>x y. P x y \<Longrightarrow> Q x y) \<Longrightarrow> edits Q s t"
  unfolding edits_def by blast

definition appends :: "u8 list \<Rightarrow> u8 list \<Rightarrow> u8 list \<Rightarrow> bool" where
  "appends bs x y \<longleftrightarrow> y = x @ bs"

lemma edits_appends_trans: "edits (appends xs) s t \<Longrightarrow> edits (appends ys) t u \<Longrightarrow> edits (appends (xs @ ys)) s u"
  by (drule (1) edits_trans, erule edits_mono) (auto simp: appends_def)

lemma emit_edits:
  assumes "emit s bs = Some s'" and "length bs < 2 ^ 31"
  shows "edits (appends bs) s s'"
proof -
  from assms(1) obtain r b where b: "dbuf_put (byte_code s) bs = Some (r, b)" "s' = s\<lparr>byte_code := b\<rparr>"
    by (auto simp: emit_def)
  then have "same_but_code s s'" by (auto simp: same_but_code_def)
  then show ?thesis
    using b allocates_error [OF dbuf_put_allocates [OF b(1)]] limited_put [OF b(1) _ _ assms(2)]
    by (auto simp: edits_def good_def appends_def)
qed

lemma emits_edits: "emits s bs = Some s' \<Longrightarrow> \<forall>b \<in> set bs. length b < 2 ^ 31 \<Longrightarrow> edits (appends (concat bs)) s s'"
proof (induction s bs rule: emits.induct)
  case (1 s)
  then show ?case by (simp add: edits_def appends_def)
next
  case (2 s b bs)
  then obtain t where t: "emit s b = Some t" "emits t bs = Some s'" by (auto split: option.splits)
  from edits_appends_trans [OF emit_edits [OF t(1)] "2.IH" [OF t]] "2.prems"(2) show ?case by simp
qed

lemma re_emit_op_edits: "re_emit_op s op = Some s' \<Longrightarrow> edits (appends [reop_code op]) s s'"
  unfolding re_emit_op_def by (drule emits_edits) simp_all

lemma re_emit_op_u8_edits: "re_emit_op_u8 s op v = Some s' \<Longrightarrow> edits (appends [reop_code op, v]) s s'"
  unfolding re_emit_op_u8_def by (drule emits_edits) simp_all

lemma re_emit_op_u16_edits: "re_emit_op_u16 s op v = Some s' \<Longrightarrow> edits (appends (reop_code op # take 2 (le_bytes v))) s s'"
  unfolding re_emit_op_u16_def by (drule emits_edits) simp_all

lemma re_emit_op_u32_edits:
  assumes "re_emit_op_u32 s op v = Some (pos, s')"
  shows "edits (\<lambda>x y. y = x @ reop_code op # le_bytes v \<and> pos = length x + 1) s s'"
proof -
  from assms obtain t where t: "emit s [reop_code op] = Some t" "emit t (le_bytes v) = Some s'" "pos = code_size t"
    by (auto simp: re_emit_op_u32_def bind_eq_Some_conv Let_def)
  have "edits (\<lambda>x y. y = x @ [reop_code op] \<and> pos = length x + 1) s t"
    using emit_edits [OF t(1)] t(3) by (auto simp: edits_def appends_def code_size_length)
  from edits_trans [OF this emit_edits [OF t(2)]] show ?thesis
    by (auto simp: appends_def elim!: edits_mono)
qed

lemma re_emit_goto_edits:
  assumes "re_emit_goto s op v = Some (pos, s')"
  shows "edits (\<lambda>x y. y = x @ reop_code op # le_bytes (of_nat v - of_nat (length x + 5))) s s'"
proof -
  from assms obtain t where t: "emit s [reop_code op] = Some t" "pos = code_size t"
      "emit t (le_bytes (of_nat v - of_nat (pos + 4))) = Some s'"
    by (auto simp: re_emit_goto_def bind_eq_Some_conv Let_def)
  have "edits (\<lambda>x y. y = x @ [reop_code op] \<and> pos = length x + 1) s t"
    using emit_edits [OF t(1)] t(2) by (auto simp: edits_def appends_def code_size_length)
  from edits_trans [OF this emit_edits [OF t(3)]] show ?thesis
    by (auto simp: appends_def ac_simps elim!: edits_mono)
qed

lemma editsD:
  assumes "edits P s s'" and "\<not> failed s'"
  shows "\<not> failed s" "good s \<Longrightarrow> good s' \<and> P (code s) (code s')"
  using assms by (auto simp: edits_def)

lemma editsD_same: "edits P s s' \<Longrightarrow> same_but_code s s'"
  by (simp add: edits_def)

lemma poke_edits:
  assumes "poke s p bs = Some s'"
  shows "edits (\<lambda>x y. p + length bs \<le> length x \<longrightarrow> y = take p x @ bs @ drop (p + length bs) x) s s'"
proof -
  from assms obtain m where m: "wr_block (db_buf (byte_code s)) p bs = Some m"
      "s' = s\<lparr>byte_code := (byte_code s)\<lparr>db_buf := m\<rparr>\<rparr>"
    by (auto simp: poke_def bind_eq_Some_conv)
  then have "same_but_code s s'" "failed s' = failed s" by (auto simp: same_but_code_def)
  moreover have "limited (byte_code s')" if "limited (byte_code s)"
    using m that by (auto simp: wr_block_Some_iff limited_def dbuf_ok_def)
  ultimately show ?thesis
    using m limited_poke [OF m(1)] by (auto simp: edits_def good_def)
qed

lemma insert_gap_edits:
  assumes "insert_gap s p n = Some (Inr s')" and "n < 2 ^ 31"
  shows "edits (\<lambda>x y. p \<le> length x \<and> (\<exists>gap. length gap = n \<and> y = take p x @ gap @ drop p x)) s s'"
proof -
  from assms(1) obtain r b where b: "dbuf_insert (byte_code s) p n = Some (r, b)" "s' = s\<lparr>byte_code := b\<rparr>"
    by (auto simp: insert_gap_def split: option.splits if_splits)
  then have "same_but_code s s'" by (auto simp: same_but_code_def)
  then show ?thesis
    using b allocates_error [OF dbuf_insert_allocates [OF b(1)]] limited_insert [OF b(1) _ _ assms(2)]
    by (auto simp: edits_def good_def)
qed

lemma insert_poke_edits:
  assumes "insert_gap s p (length bs) = Some (Inr t)" and "poke t p bs = Some s'" and "length bs < 2 ^ 31"
  shows "edits (\<lambda>x y. p \<le> length x \<and> y = take p x @ bs @ drop p x) s s'"
  by (rule edits_mono [OF edits_trans [OF insert_gap_edits [OF assms(1,3)] poke_edits [OF assms(2)]]]) auto

lemma insert_code_edits:
  assumes "insert_code s p bs = Some (Inr s')" and "length bs < 2 ^ 31"
  shows "edits (\<lambda>x y. p \<le> length x \<and> y = take p x @ bs @ drop p x) s s'"
  using assms insert_poke_edits by (auto simp: insert_code_def andthen_Inr_iff)

lemma put_self_edits:
  assumes "put_self s p n = Some s'" and "p + n \<le> code_size s"
  shows "edits (\<lambda>x y. y = x @ take n (drop p x)) s s'"
proof -
  from assms(1) obtain r b where b: "dbuf_put_self (byte_code s) p n = Some (r, b)" "s' = s\<lparr>byte_code := b\<rparr>"
    by (auto simp: put_self_def)
  then have "same_but_code s s'" by (auto simp: same_but_code_def)
  then show ?thesis
    using b assms(2) allocates_error [OF dbuf_put_self_allocates [OF b(1)]] limited_put_self [OF b(1)]
    by (auto simp: edits_def good_def limited_length)
qed

lemma put_self_error:
  assumes "put_self s p n = Some s'"
  shows "same_but_code s s'" "\<not> failed s' \<Longrightarrow> \<not> failed s"
  using assms allocates_error [OF dbuf_put_self_allocates] by (auto simp: put_self_def same_but_code_def)

end
