(* ===== verification/ReQuant.thy ===== *)
theory ReQuant
  imports ReEmit
begin

text \<open>
  The quantifiers of the regular expression compiler: the code of an atom, at the end of the buffer, is replaced by
  the code of the quantified atom, which is a fragment of the grammar again.
\<close>

section \<open>Rewriting the end of the code\<close>

text \<open>The code \<open>c @ xs\<close> with a fragment \<open>xs\<close> becomes \<open>c @ ys\<close> with a fragment \<open>ys\<close>.\<close>

definition quantified :: "u8 list \<Rightarrow> u8 list \<Rightarrow> re_parse_state \<Rightarrow> re_parse_state \<Rightarrow> bool" where
  "quantified c xs s s' \<longleftrightarrow> same_but_code s s' \<and> (\<not> failed s' \<longrightarrow> \<not> failed s \<and>
     (good s \<and> code s = c @ xs \<and> frag (capture_count s) xs \<longrightarrow>
        good s' \<and> (\<exists>ys. code s' = c @ ys \<and> frag (capture_count s) ys)))"

lemma quantified_refl: "quantified c xs s s"
  by (auto simp: quantified_def)

lemma quantified_edits:
  assumes "edits P s s'" and "\<And>y. P (c @ xs) y \<Longrightarrow> frag (capture_count s) xs \<Longrightarrow> good s \<Longrightarrow> code s = c @ xs \<Longrightarrow>
      \<exists>ys. y = c @ ys \<and> frag (capture_count s) ys"
  shows "quantified c xs s s'"
  using assms unfolding quantified_def edits_def by metis

text \<open>A prefix that is rewritten or inserted first.\<close>

lemma quantified_after:
  assumes "edits P s t" and "quantified d xs t s'"
    and "\<And>y. P (c @ xs) y \<Longrightarrow> good s \<Longrightarrow> \<exists>r. d = c @ r \<and> frag (capture_count s) r \<and> y = d @ xs"
  shows "quantified c xs s s'"
proof -
  note t = editsD [OF assms(1)] and cc = same_but_codeD [OF editsD_same [OF assms(1)]]
  have same: "same_but_code s s'"
    using assms(1,2) by (auto simp: edits_def quantified_def intro: same_but_code_trans)
  have nft: "\<not> failed t" if "\<not> failed s'" using assms(2) that by (simp add: quantified_def)
  have "good s' \<and> (\<exists>ys. code s' = c @ ys \<and> frag (capture_count s) ys)"
    if nf: "\<not> failed s'" and g: "good s \<and> code s = c @ xs \<and> frag (capture_count s) xs"
  proof -
    obtain r where r: "d = c @ r" "frag (capture_count s) r" "code t = d @ xs" "good t"
      using t(2) [OF nft [OF nf]] assms(3) g by metis
    then have "good s' \<and> (\<exists>ys. code s' = d @ ys \<and> frag (capture_count s) ys)"
      using assms(2) nf g by (simp add: quantified_def cc)
    then show ?thesis using r(1,2) by (auto intro: frag_seq)
  qed
  then show ?thesis using same t(1) nft unfolding quantified_def by blast
qed

text \<open>A statement for the right length of the atom says enough about the errors for all lengths.\<close>

lemma quantified_any:
  assumes "\<And>c xs. length c = n \<Longrightarrow> length xs = k \<Longrightarrow> quantified c xs s s'"
    and "good s \<Longrightarrow> code s = c @ xs \<Longrightarrow> length c = n \<and> length xs = k"
  shows "quantified c xs s s'"
proof (cases "good s \<and> code s = c @ xs")
  case True
  then show ?thesis using assms by blast
next
  case False
  then show ?thesis using assms(1) [of "replicate n 0" "replicate k 0"] by (auto simp: quantified_def)
qed

text \<open>A jump back over \<open>n\<close> bytes.\<close>

lemma goto_back_edits:
  assumes "re_emit_goto s op v = Some (pos, s')"
  shows "edits (\<lambda>x y. length x + 5 = v + n \<longrightarrow> y = x @ reop_code op # jump_back n) s s'"
proof (rule edits_mono [OF re_emit_goto_edits [OF assms]], intro impI)
  fix x y
  assume y: "y = x @ reop_code op # le_bytes (of_nat v - of_nat (length x + 5))" and "length x + 5 = v + n"
  then show "y = x @ reop_code op # jump_back n" by (simp only: jump_back_def) simp
qed

section \<open>The optimised quantifier\<close>

lemma dbuf_bytes_placed: "limited b \<Longrightarrow> dbuf_bytes b = c @ xs \<Longrightarrow> lies_at (db_buf b) (length c) xs"
proof -
  assume b: "limited b" "dbuf_bytes b = c @ xs"
  then have l: "db_size b = length c + length xs" "db_size b \<le> length (db_buf b)"
    using limited_length [OF b(1)] by (auto simp: limited_def dbuf_ok_def)
  have "take (length xs) (drop (length c) (db_buf b)) = drop (length c) (take (db_size b) (db_buf b))"
    using l by (simp add: drop_take)
  also have "\<dots> = xs" using b(2) by (simp add: dbuf_bytes_def)
  finally show ?thesis using l by (simp add: lies_at_def)
qed

lemma emit_simple_quantifier_quantified:
  assumes "emit_simple_quantifier s (length c) quant_min quant_max = Some (Inr (done', s'))"
  shows "quantified c xs s s'" and "\<not> done' \<Longrightarrow> s' = s"
proof -
  obtain k where k: "re_is_simple_quantifier (db_buf (byte_code s)) (length c) (code_size s - length c) = Some k"
    using assms by (auto simp: emit_simple_quantifier_def split: if_splits option.splits)
  show "\<not> done' \<Longrightarrow> s' = s"
    using assms k by (auto simp: emit_simple_quantifier_def andthen_Inr_iff split: if_splits)
  show "quantified c xs s s'"
  proof (cases "k > 0")
    case False
    then show ?thesis using assms k by (auto simp: emit_simple_quantifier_def quantified_refl split: if_splits)
  next
    case True
    let ?bs = "\<lambda>n. reop_code REOP_simple_greedy_quant # le_bytes (of_nat n) @ le_bytes (word_of_int quant_min) @
      le_bytes (word_of_int quant_max) @ le_bytes (word_of_int k)"
    from assms k True obtain t u where
      t: "re_emit_op s REOP_match = Some t" and u: "insert_gap t (length c) 17 = Some (Inr u)"
      and p: "poke u (length c) (?bs (code_size u - length c - 17)) = Some s'"
      by (auto simp: emit_simple_quantifier_def andthen_Inr_iff split: if_splits)
    let ?n = "code_size u - length c - 17"
    have "edits (\<lambda>x y. length c \<le> length x \<and> y = take (length c) x @ ?bs (length x - length c) @ drop (length c) x) t s'"
      (is "edits ?P t s'")
    proof -
      have e: "edits (\<lambda>x y. length c \<le> length x \<and> y = take (length c) x @ ?bs ?n @ drop (length c) x) t s'"
        using insert_poke_edits [of t "length c" "?bs ?n" u s'] u p by simp
      have "good s' \<and> ?P (code t) (code s')" if nf: "\<not> failed s'" and g: "good t"
      proof -
        have "\<not> failed u" using editsD(1) [OF poke_edits [OF p]] nf by simp
        with editsD(2) [OF insert_gap_edits [OF u]] g
        have "good u" "length (code u) = length (code t) + 17" "length c \<le> length (code t)" by auto
        then have "?n = length (code t) - length c" by (simp add: code_size_length)
        then show ?thesis using editsD(2) [OF e nf g] by simp
      qed
      then show ?thesis using editsD(1) [OF e] editsD_same [OF e] unfolding edits_def by blast
    qed
    from edits_trans [OF re_emit_op_edits [OF t] this] show ?thesis
    proof (rule quantified_edits)
      fix y
      assume fr: "frag (capture_count s) xs" and s: "good s" "code s = c @ xs"
        and "(appends [reop_code REOP_match] OO ?P) (c @ xs) y"
      then have y: "y = c @ ?bs (length xs + 1) @ xs @ [reop_code REOP_match]" by (auto simp: appends_def)
      have lim: "limited (byte_code s)" using s(1) by (simp add: good_def)
      have len: "code_size s - length c = length xs" using code_size_length [OF s(1)] s(2) by simp
      have "length xs < 2 ^ 31" using limited_size [OF lim] code_size_length [OF s(1)] s(2) by simp
      from frag_simple_placed [OF fr dbuf_bytes_placed [OF lim s(2)] this k [unfolded len] True]
      show "\<exists>ys. y = c @ ys \<and> frag (capture_count s) ys"
        unfolding y by (intro exI conjI) (rule refl, simp add: jump_fwd_def)
    qed
  qed
qed

section \<open>Optional atoms\<close>

lemma emit_reset_quantified:
  assumes "emit_reset s (length c) last_capture_count = Some (Inr (start, t))"
    and "\<And>d. length d = start \<Longrightarrow> quantified d xs t s'"
  shows "quantified c xs s s'"
proof (cases "last_capture_count = capture_count s")
  case True
  then show ?thesis using assms by (simp add: emit_reset_def)
next
  case False
  let ?r = "[reop_code REOP_save_reset, of_nat last_capture_count, of_nat (capture_count s - 1)] :: u8 list"
  from False assms(1) have t: "insert_code s (length c) ?r = Some (Inr t)" "start = length c + 3"
    by (auto simp: emit_reset_def andthen_Inr_iff)
  have "frag (capture_count s) ?r" if "good s"
  proof -
    have "unat (of_nat (capture_count s - 1) :: u8) \<le> capture_count s - 1" by (simp add: unsigned_of_nat)
    also have "\<dots> < capture_count s" using that by (simp add: good_def)
    finally show ?thesis by (rule frag_reset)
  qed
  then show ?thesis
    using t(2) by (intro quantified_after [OF insert_code_edits [OF t(1)], of "c @ ?r"] assms(2)) simp_all
qed

lemma split_op_in: "split_op g \<in> splits"
  by (simp add: split_op_def)

lemma emit_optional_quantified:
  assumes "emit_optional s (length c) (length xs) quant_max greedy chk = Some (Inr s')"
  shows "quantified c xs s s'"
proof -
  note def = assms [unfolded emit_optional_def]
  consider (zero) "quant_max = 0" | (one) "quant_max = 1" | (inf) "quant_max = int INT32_MAX"
    | (loop) "quant_max \<noteq> 0" "quant_max \<noteq> 1" "quant_max \<noteq> int INT32_MAX" by blast
  then show ?thesis
  proof cases
    case zero
    then have s': "s' = s\<lparr>byte_code := (byte_code s)\<lparr>db_size := length c\<rparr>\<rparr>" using def by simp
    have "good s' \<and> code s' = c" if "good s" "code s = c @ xs"
    proof -
      have "length c \<le> code_size s" using code_size_length [OF that(1)] that(2) by simp
      then have "code s' = take (length c) (code s)" by (simp add: s' dbuf_bytes_def min_def)
      moreover have "good s'"
        using that(1) \<open>length c \<le> code_size s\<close> by (auto simp: s' good_def limited_def dbuf_ok_def dbuf_bytes_def)
      ultimately show ?thesis using that(2) by simp
    qed
    then show ?thesis using frag_nil by (auto simp: quantified_def s' same_but_code_def)
  next
    case one
    then have "insert_code s (length c) (reop_code (split_op greedy) # le_bytes (of_nat (length xs))) = Some (Inr s')"
      using def by simp
    from insert_code_edits [OF this] have e: "edits (\<lambda>x y. length c \<le> length x \<and>
        y = take (length c) x @ (reop_code (split_op greedy) # jump_fwd (length xs)) @ drop (length c) x) s s'"
      by (simp add: jump_fwd_def)
    show ?thesis
      by (rule quantified_edits [OF e]) (use frag_opt [OF split_op_in] in auto)
  next
    case inf
    then obtain t p where t: "insert_code s (length c) (reop_code (split_op greedy) #
          jump_fwd (length xs + 5 + of_bool chk) @ (if chk then [reop_code REOP_push_char_pos] else [])) = Some (Inr t)"
      "re_emit_goto t (if chk then REOP_bne_char_pos else REOP_goto) (length c) = Some (p, s')"
      using def by (auto simp: andthen_Inr_iff INT32_MAX_def jump_fwd_def)
    note e = edits_trans [OF insert_code_edits [OF t(1)] goto_back_edits [OF t(2), of "length xs + 10 + of_bool chk"]]
    show ?thesis
      by (cases chk; rule quantified_edits [OF e])
        (use frag_star [OF split_op_in] frag_star_checked [OF split_op_in] in \<open>auto simp: add.commute\<close>)
  next
    case loop
    then obtain t p u where t: "insert_code s (length c) (reop_code REOP_push_i32 # le_bytes (word_of_int quant_max) @
          reop_code (split_op greedy) # jump_fwd (length xs + 5)) = Some (Inr t)"
      "re_emit_goto t REOP_loop (length c + 5) = Some (p, u)" "re_emit_op u REOP_drop = Some s'"
      using def by (auto simp: andthen_Inr_iff bind_eq_Some_conv jump_fwd_def)
    note e = edits_trans [OF insert_code_edits [OF t(1)]
      edits_trans [OF goto_back_edits [OF t(2), of "length xs + 10"] re_emit_op_edits [OF t(3)]]]
    show ?thesis
      by (rule quantified_edits [OF e])
        (use frag_optional_loop [OF split_op_in] in \<open>auto simp: appends_def\<close>)
  qed
qed

section \<open>Repeated atoms\<close>

text \<open>The code \<open>X\<close> becomes \<open>Y\<close>.\<close>

definition turns :: "u8 list \<Rightarrow> u8 list \<Rightarrow> re_parse_state \<Rightarrow> re_parse_state \<Rightarrow> bool" where
  "turns X Y s s' \<longleftrightarrow> same_but_code s s' \<and>
     (\<not> failed s' \<longrightarrow> \<not> failed s \<and> (good s \<and> code s = X \<longrightarrow> good s' \<and> code s' = Y))"

lemma turns_refl [simp]: "turns X X s s"
  by (simp add: turns_def)

lemma turns_edits: "edits P s s' \<Longrightarrow> (\<And>y. P X y \<Longrightarrow> y = Y) \<Longrightarrow> turns X Y s s'"
  unfolding turns_def edits_def by blast

lemma turns_trans [trans]: "turns X Y s t \<Longrightarrow> turns Y Z t u \<Longrightarrow> turns X Z s u"
  unfolding turns_def by (blast intro: same_but_code_trans)

lemma turns_appends: "edits (appends bs) s s' \<Longrightarrow> turns X (X @ bs) s s'"
  by (erule turns_edits) (simp add: appends_def)

lemma turnsD:
  assumes "turns X Y s s'" and "\<not> failed s'"
  shows "\<not> failed s" "good s \<Longrightarrow> code s = X \<Longrightarrow> good s' \<and> code s' = Y"
  using assms by (auto simp: turns_def)

lemma turnsD_count: "turns X Y s s' \<Longrightarrow> capture_count s' = capture_count s"
  by (simp add: turns_def same_but_codeD)

lemma put_self_turns:
  assumes "put_self s (length c) (length xs) = Some s'"
  shows "turns (c @ xs @ r) ((c @ xs @ r) @ xs) s s'"
proof (cases "good s \<and> code s = c @ xs @ r")
  case True
  then have "length c + length xs \<le> code_size s" using code_size_length [of s] by simp
  from put_self_edits [OF assms this] show ?thesis by (rule turns_edits) simp
next
  case False
  then show ?thesis using put_self_error [OF assms] by (auto simp: turns_def)
qed

lemma op_u32_turns:
  "re_emit_op_u32 s op v = Some (pos, s') \<Longrightarrow> turns X (X @ reop_code op # le_bytes v) s s'"
  by (erule turns_edits [OF re_emit_op_u32_edits]) simp

lemma op_turns: "re_emit_op s op = Some s' \<Longrightarrow> turns X (X @ [reop_code op]) s s'"
  by (rule turns_appends [OF re_emit_op_edits])

lemma goto_turns:
  "re_emit_goto s op v = Some (pos, s') \<Longrightarrow>
     turns X (X @ reop_code op # le_bytes (of_nat v - of_nat (length X + 5))) s s'"
  by (erule turns_edits [OF re_emit_goto_edits]) simp

lemma goto_value: "le_bytes (of_nat v - of_nat (v + n)) = jump_back n"
  by (simp add: jump_back_def)

lemma quantified_turns:
  assumes "turns (c @ xs) (c @ ys) s s'"
    and "\<not> failed s' \<Longrightarrow> good s \<Longrightarrow> code s = c @ xs \<Longrightarrow> frag (capture_count s) xs \<Longrightarrow> frag (capture_count s) ys"
  shows "quantified c xs s s'"
  using assms unfolding quantified_def turns_def by metis

lemma emit_minimum_turns:
  assumes "emit_minimum s (length c) quant_min = Some (Inr (start, t))"
  shows "\<exists>h l. start = length (c @ h) \<and> turns (c @ xs) (c @ h @ xs @ l) s t \<and> (\<forall>cc. frag cc xs \<longrightarrow> frag cc (h @ xs @ l))"
proof (cases "quant_min = 1")
  case True
  then show ?thesis using assms by (intro exI [of _ "[]"]) (simp add: emit_minimum_def)
next
  case False
  let ?h = "reop_code REOP_push_i32 # le_bytes (word_of_int quant_min)"
  let ?l = "(reop_code REOP_loop # jump_back (length xs + 5)) @ [reop_code REOP_drop]"
  from assms False obtain u v p where u: "insert_code s (length c) ?h = Some (Inr u)"
    "re_emit_goto u REOP_loop (length c + 5) = Some (p, v)" "re_emit_op v REOP_drop = Some t" "start = length c + 5"
    by (auto simp: emit_minimum_def andthen_Inr_iff bind_eq_Some_conv)
  have "turns (c @ xs) (c @ ?h @ xs) s u" by (rule turns_edits [OF insert_code_edits [OF u(1)]]) auto
  also have "turns (c @ ?h @ xs) ((c @ ?h @ xs) @ reop_code REOP_loop # jump_back (length xs + 5)) u v"
    by (rule turns_edits [OF goto_back_edits [OF u(2), of "length xs + 5"]]) simp
  also note op_turns [OF u(3)]
  finally have "turns (c @ xs) (c @ ?h @ xs @ ?l) s t" by simp
  moreover have "frag cc (?h @ xs @ ?l)" if "frag cc xs" for cc using frag_loop [OF that] by simp
  ultimately show ?thesis using u(4) by (intro exI [of _ ?h] exI [of _ ?l]) simp
qed

lemma emit_rest_turns:
  assumes "emit_rest s (length c) (length xs) quant_min quant_max greedy chk = Some s'"
  shows "\<exists>zs. turns (c @ xs @ r) ((c @ xs @ r) @ zs) s s' \<and>
    (\<not> failed s' \<longrightarrow> good s \<longrightarrow> code s = c @ xs @ r \<longrightarrow> frag (capture_count s) xs \<longrightarrow> frag (capture_count s) zs)"
proof -
  let ?X = "c @ xs @ r" and ?sp = "reop_code (split_op greedy)"
  consider (inf) "quant_max = int INT32_MAX" | (loop) "quant_max \<noteq> int INT32_MAX" "quant_max > quant_min"
    | (none) "quant_max \<noteq> int INT32_MAX" "\<not> quant_max > quant_min" by blast
  then show ?thesis
  proof cases
    case none
    then show ?thesis using assms frag_nil by (intro exI [of _ "[]"]) (simp add: emit_rest_def)
  next
    case inf
    let ?push = "if chk then [reop_code REOP_push_char_pos] else []"
    let ?j = "if chk then REOP_bne_char_pos else REOP_goto"
    from assms inf obtain p t u v q where t: "re_emit_op_u32 s (split_op greedy) (of_nat (length xs + 5 + of_bool chk)) = Some (p, t)"
      "(if chk then re_emit_op t REOP_push_char_pos else Some t) = Some u" "put_self u (length c) (length xs) = Some v"
      "re_emit_goto v ?j (code_size s) = Some (q, s')"
      by (auto simp: emit_rest_def Let_def bind_eq_Some_conv simp del: of_nat_add)
    let ?a = "?sp # jump_fwd (length xs + 5 + of_bool chk)"
    let ?z = "?a @ ?push @ xs"
    have "turns ?X (?X @ ?a) s t" using op_u32_turns [OF t(1)] by (simp only: jump_fwd_def)
    also have "turns (?X @ ?a) (?X @ ?a @ ?push) t u"
      using t(2) op_turns [of t REOP_push_char_pos u "?X @ ?a"] by (cases chk) simp_all
    also have "turns (?X @ ?a @ ?push) ((?X @ ?a @ ?push) @ xs) u v"
      using put_self_turns [OF t(3), of "r @ ?a @ ?push"] by simp
    also note goto_turns [OF t(4)]
    finally have rw: "turns ?X (?X @ ?z @ reop_code ?j # le_bytes (of_nat (code_size s) - of_nat (length (?X @ ?z) + 5))) s s'"
      by simp
    have "frag (capture_count s) (?z @ reop_code ?j # le_bytes (of_nat (code_size s) - of_nat (length (?X @ ?z) + 5)))"
      if "good s" "code s = ?X" "frag (capture_count s) xs"
    proof -
      have "length (?X @ ?z) + 5 = code_size s + (length xs + 10 + of_bool chk)"
        using code_size_length [OF that(1)] that(2) by simp
      then show ?thesis
        unfolding goto_value [symmetric]
        using frag_star [OF split_op_in that(3)] frag_star_checked [OF split_op_in that(3)]
        by (cases chk) (simp_all only: goto_value, simp_all add: add.commute)
    qed
    with rw show ?thesis by blast
  next
    case loop
    from assms loop obtain p0 p t u v w q where t: "re_emit_op_u32 s REOP_push_i32 (word_of_int (quant_max - quant_min)) = Some (p0, t)"
      "re_emit_op_u32 t (split_op greedy) (of_nat (length xs + 5)) = Some (p, u)"
      "put_self u (length c) (length xs) = Some v"
      "re_emit_goto v REOP_loop (code_size t) = Some (q, w)" "re_emit_op w REOP_drop = Some s'"
      by (auto simp: emit_rest_def Let_def bind_eq_Some_conv simp del: of_nat_add)
    let ?p = "reop_code REOP_push_i32 # le_bytes (word_of_int (quant_max - quant_min))"
    let ?a = "?sp # jump_fwd (length xs + 5)"
    let ?z = "?p @ ?a @ xs" and ?d = "[reop_code REOP_drop]"
    have r1: "turns ?X (?X @ ?p) s t" by (rule op_u32_turns [OF t(1)])
    have "turns (?X @ ?p) ((?X @ ?p) @ ?a) t u" using op_u32_turns [OF t(2)] by (simp only: jump_fwd_def)
    also have "turns ((?X @ ?p) @ ?a) ((?X @ ?p @ ?a) @ xs) u v"
      using put_self_turns [OF t(3), of "r @ ?p @ ?a"] by simp
    also note goto_turns [OF t(4)]
    also note op_turns [OF t(5)]
    finally have r2: "turns (?X @ ?p) (?X @ ?z @ (reop_code REOP_loop # le_bytes (of_nat (code_size t) - of_nat (length (?X @ ?z) + 5))) @ ?d) t s'"
      by simp
    have "frag (capture_count s) (?z @ (reop_code REOP_loop # le_bytes (of_nat (code_size t) - of_nat (length (?X @ ?z) + 5))) @ ?d)"
      if nf: "\<not> failed s'" and g: "good s" "code s = ?X" and fr: "frag (capture_count s) xs"
    proof -
      have "good t" "code t = ?X @ ?p" using turnsD(2) [OF r1 turnsD(1) [OF r2 nf] g] by simp_all
      then have "length (?X @ ?z) + 5 = code_size t + (length xs + 10)" by (simp add: code_size_length)
      then show ?thesis
        using frag_optional_loop [OF split_op_in fr] by (simp only: goto_value append_assoc)
    qed
    with turns_trans [OF r1 r2] show ?thesis by blast
  qed
qed

lemma emit_repeated_quantified:
  assumes "emit_minimum s (length c) quant_min = Some (Inr (start, t))"
    and "emit_rest t start (length xs) quant_min quant_max greedy chk = Some s'"
  shows "quantified c xs s s'"
proof -
  obtain h l where m: "start = length (c @ h)" "turns (c @ xs) (c @ h @ xs @ l) s t" "\<And>cc. frag cc xs \<Longrightarrow> frag cc (h @ xs @ l)"
    using emit_minimum_turns [OF assms(1)] by metis
  from emit_rest_turns [OF assms(2) [unfolded m(1)], of l] obtain zs where
    z: "turns ((c @ h) @ xs @ l) (((c @ h) @ xs @ l) @ zs) t s'"
      "\<not> failed s' \<Longrightarrow> good t \<Longrightarrow> code t = (c @ h) @ xs @ l \<Longrightarrow> frag (capture_count t) xs \<Longrightarrow> frag (capture_count t) zs"
    by blast
  have "turns (c @ xs) (c @ (h @ xs @ l) @ zs) s s'" using turns_trans [OF m(2)] z(1) by simp
  then show ?thesis
  proof (rule quantified_turns)
    assume nf: "\<not> failed s'" and g: "good s" "code s = c @ xs" and fr: "frag (capture_count s) xs"
    have "good t \<and> code t = c @ h @ xs @ l" using turnsD(2) [OF m(2) turnsD(1) [OF z(1) nf] g] .
    then have "frag (capture_count s) zs" using z(2) [OF nf] fr turnsD_count [OF m(2)] by simp
    then show "frag (capture_count s) ((h @ xs @ l) @ zs)" using m(3) [OF fr] by (rule frag_seq [rotated])
  qed
qed

section \<open>All quantifiers\<close>

lemma emit_general_quantifier_quantified:
  assumes "emit_general_quantifier s (length c) last_capture_count quant_min quant_max greedy chk = Some (Inr s')"
  shows "quantified c xs s s'"
proof (rule quantified_any)
  show "length c = length c \<and> length xs = code_size s - length c" if "good s" "code s = c @ xs"
    using code_size_length [OF that(1)] that(2) by simp
next
  fix d ys :: "u8 list"
  assume len: "length d = length c" "length ys = code_size s - length c"
  note def = assms [unfolded emit_general_quantifier_def Let_def, folded len]
  show "quantified d ys s s'"
  proof (cases "quant_min = 0")
    case True
    with def obtain start t where t: "emit_reset s (length d) last_capture_count = Some (Inr (start, t))"
      "emit_optional t start (length ys) quant_max greedy chk = Some (Inr s')"
      by (auto simp: andthen_Inr_iff len)
    show ?thesis
      by (rule emit_reset_quantified [OF t(1)]) (use t(2) emit_optional_quantified in blast)
  next
    case nz: False
    show ?thesis
    proof (cases "quant_min = 1 \<and> quant_max = int INT32_MAX \<and> \<not> chk")
      case True
      with def obtain p where "re_emit_goto s (split_op (\<not> greedy)) (length d) = Some (p, s')"
        by (auto simp: len)
      from goto_back_edits [OF this, of "length ys + 5"] show ?thesis
        by (rule quantified_edits) (use frag_plus [OF split_op_in] in auto)
    next
      case False
      with def nz obtain start t where "emit_minimum s (length d) quant_min = Some (Inr (start, t))"
        "emit_rest t start (length ys) quant_min quant_max greedy chk = Some s'"
        by (auto simp: andthen_Inr_iff len)
      then show ?thesis by (rule emit_repeated_quantified)
    qed
  qed
qed

lemma emit_quantifier_quantified:
  assumes "emit_quantifier s (length c) last_capture_count quant_min quant_max greedy = Some (Inr s')"
  shows "quantified c xs s s'"
proof -
  let ?first = "if greedy \<and> quant_max > 0 then emit_simple_quantifier s (length c) quant_min quant_max
    else re_ok (False, s)"
  obtain d t where d: "?first = Some (Inr (d, t))"
    and k: "(if d then re_ok t else andthen (if greedy then
         (if db_error (byte_code t) then re_parse_out_of_memory
          else step_of (map_option (\<lambda>r. r = 0)
            (re_check_advance (db_buf (byte_code t)) (length c) (code_size t - length c))))
       else re_ok False) (\<lambda>chk.
     emit_general_quantifier t (length c) last_capture_count quant_min quant_max greedy chk)) = Some (Inr s')"
    using assms unfolding emit_quantifier_def andthen_Inr_iff [of ?first] by (elim exE conjE) (simp only: split_paired_all prod.case)
  show ?thesis
  proof (cases d)
    case True
    then show ?thesis using d k emit_simple_quantifier_quantified(1) by (auto split: if_splits)
  next
    case False
    then have "t = s" using d emit_simple_quantifier_quantified(2) by (auto split: if_splits)
    then show ?thesis using False k emit_general_quantifier_quantified by (auto simp: andthen_Inr_iff)
  qed
qed

end
