(* ===== verification/ReSound.thy ===== *)
theory ReSound
  imports ReQuant
begin

text \<open>
  The recursive descent of the regular expression compiler appends a fragment of the grammar: atoms, groups, terms,
  alternatives and disjunctions, by induction on the depth of the recursion.
\<close>

section \<open>Appending a fragment\<close>

definition extends :: "re_parse_state \<Rightarrow> re_parse_state \<Rightarrow> bool" where
  "extends s s' \<longleftrightarrow> (\<not> failed s' \<longrightarrow> \<not> failed s \<and> (good s \<longrightarrow> good s' \<and> capture_count s \<le> capture_count s' \<and>
     (\<exists>xs. frag (capture_count s') xs \<and> code s' = code s @ xs)))"

lemma extends_refl [simp]: "extends s s"
  using frag_nil by (auto simp: extends_def)

lemma extends_trans [trans]:
  assumes "extends s t" and "extends t u"
  shows "extends s u"
  unfolding extends_def
proof (intro impI)
  assume nf: "\<not> failed u"
  then have nft: "\<not> failed t" using assms(2) by (simp add: extends_def)
  have "good u \<and> capture_count s \<le> capture_count u \<and> (\<exists>xs. frag (capture_count u) xs \<and> code u = code s @ xs)"
    if g: "good s"
  proof -
    obtain xs where x: "good t" "capture_count s \<le> capture_count t" "frag (capture_count t) xs" "code t = code s @ xs"
      using assms(1) nft g by (auto simp: extends_def)
    then obtain ys where y: "good u" "capture_count t \<le> capture_count u" "frag (capture_count u) ys" "code u = code t @ ys"
      using assms(2) nf by (auto simp: extends_def)
    have "frag (capture_count u) (xs @ ys)" using frag_mono [OF x(3) y(2)] y(3) by (rule frag_seq)
    then show ?thesis using x y by (intro conjI exI [of _ "xs @ ys"]) simp_all
  qed
  then show "\<not> failed s \<and> (good s \<longrightarrow> good u \<and> capture_count s \<le> capture_count u \<and>
      (\<exists>xs. frag (capture_count u) xs \<and> code u = code s @ xs))"
    using assms(1) nft by (simp add: extends_def)
qed

text \<open>States with the same code and captures.\<close>

definition same_core :: "re_parse_state \<Rightarrow> re_parse_state \<Rightarrow> bool" where
  "same_core s t \<longleftrightarrow> byte_code t = byte_code s \<and> capture_count t = capture_count s"

lemma same_core_refl [simp]: "same_core s s"
  by (simp add: same_core_def)

lemma extends_core: "same_core s t \<Longrightarrow> extends s t"
  using frag_nil by (auto simp: extends_def same_core_def good_def)

lemma same_core_ranges: "same_but_ranges s t \<Longrightarrow> same_core s t"
  by (auto simp: same_core_def dest: same_but_rangesD)

lemma extends_appends:
  assumes "edits (appends bs) s s'" and "good s \<Longrightarrow> frag (capture_count s) bs"
  shows "extends s s'"
  using assms same_but_codeD [OF editsD_same [OF assms(1)]] unfolding extends_def edits_def appends_def
  by (metis order_refl)

section \<open>Single instructions and ranges\<close>

abbreviation (input) "op1s \<equiv> {REOP_dot, REOP_any, REOP_line_start, REOP_line_end, REOP_word_boundary,
  REOP_not_word_boundary, REOP_prev}"

lemma extends_op: "re_emit_op s op = Some s' \<Longrightarrow> op \<in> op1s \<Longrightarrow> extends s s'"
  by (rule extends_appends [OF re_emit_op_edits], assumption)
    (use frag_op [of op "[]"] in \<open>auto simp: plain_ops_def\<close>)

lemma extends_prev: "(if b then re_emit_op s REOP_prev else Some s) = Some s' \<Longrightarrow> extends s s'"
  by (cases b) (auto intro: extends_op)

lemma extends_save:
  "re_emit_op_u8 s op n = Some s' \<Longrightarrow> op \<in> {REOP_save_start, REOP_save_end} \<Longrightarrow> unat n < capture_count s \<Longrightarrow> extends s s'"
  by (rule extends_appends [OF re_emit_op_u8_edits], assumption) (rule frag_save)

lemma extends_back_reference:
  "re_emit_op_u8 s op n = Some s' \<Longrightarrow> op \<in> {REOP_back_reference, REOP_backward_back_reference} \<Longrightarrow> extends s s'"
  by (rule extends_appends [OF re_emit_op_u8_edits], assumption)
    (use frag_op [of op "[n]"] in \<open>auto simp: plain_ops_def\<close>)

lemma extends_char: "re_emit_op_u16 s REOP_char c = Some s' \<Longrightarrow> extends s s'"
  by (rule extends_appends [OF re_emit_op_u16_edits], assumption)
    (use frag_op [of REOP_char "take 2 (le_bytes c)"] in \<open>auto simp: plain_ops_def\<close>)

lemma extends_char32:
  assumes "re_emit_op_u32 s REOP_char32 c = Some (pos, s')"
  shows "extends s s'"
proof (rule extends_appends [where bs = "reop_code REOP_char32 # le_bytes c"])
  show "edits (appends (reop_code REOP_char32 # le_bytes c)) s s'"
    by (rule edits_mono [OF re_emit_op_u32_edits [OF assms]]) (simp add: appends_def)
  show "frag (capture_count s) (reop_code REOP_char32 # le_bytes c)"
    using frag_op [of REOP_char32 "le_bytes c"] by (auto simp: plain_ops_def)
qed

lemma range_operands_length:
  assumes "range_operands f pts = Some ops" and "\<And>x y. length (concat (f x y)) = k"
    and "\<And>x y b. b \<in> set (f x y) \<Longrightarrow> length b < 2 ^ 31"
  shows "length (concat ops) = k * (length pts div 2) \<and> (\<forall>b \<in> set ops. length b < 2 ^ 31)"
  using assms
proof (induction f pts arbitrary: ops rule: range_operands.induct)
  case (3 f x y xs)
  then obtain r where r: "range_operands f xs = Some r" "ops = f x y @ r" by auto
  from "3.IH" [OF r(1) "3.prems"(2,3)] "3.prems"(2) [of x y] "3.prems"(3) [of _ x y] r(2) show ?case by auto
qed simp_all

lemma extends_table:
  assumes "re_emit_op_u16 s op (of_nat n) = Some t" and "range_operands f pts = Some ops" and "emits t ops = Some s'"
    and "n = length pts div 2" and "0 < n" and "n < 65535"
    and "op = REOP_range \<and> f = range16 \<or> op = REOP_range32 \<and> f = range32"
  shows "extends s s'"
proof -
  have l: "length (concat (f x y)) = (if op = REOP_range then 4 else 8)" "b \<in> set (f x y) \<Longrightarrow> length b < 2 ^ 31" for x y b
    using assms(7) by (auto simp: range16_def range32_def Let_def)
  from range_operands_length [OF assms(2) l]
  have ops: "length (concat ops) = (if op = REOP_range then 4 else 8) * n" "\<forall>b \<in> set ops. length b < 2 ^ 31"
    using assms(4) by auto
  have "frag cc ((reop_code op # take 2 (le_bytes (of_nat n))) @ concat ops)" for cc
    using frag_range [OF assms(5), of "concat ops" cc] frag_range32 [OF assms(5), of "concat ops" cc] ops(1) assms(6,7) by auto
  then show ?thesis
    by (rule extends_appends [OF edits_appends_trans [OF re_emit_op_u16_edits [OF assms(1)] emits_edits [OF assms(3) ops(2)]]])
qed

lemma re_emit_range_extends:
  assumes "re_emit_range s cr = Some (Inr s')"
  shows "extends s s'"
proof -
  let ?n = "length (cr_pts cr) div 2"
  have n: "?n < 65535" using assms by (auto simp: re_emit_range_def Let_def split: if_splits)
  show ?thesis
  proof (cases "?n = 0")
    case True
    then show ?thesis using assms n extends_char32 by (auto simp: re_emit_range_def Let_def)
  next
    case False
    with assms n obtain t ops op f where "re_emit_op_u16 s op (of_nat ?n) = Some t"
      "range_operands f (cr_pts cr) = Some ops" "emits t ops = Some s'"
      "op = REOP_range \<and> f = range16 \<or> op = REOP_range32 \<and> f = range32"
      by (auto simp: re_emit_range_def Let_def bind_eq_Some_conv split: if_splits)
    then show ?thesis using False n by (intro extends_table [of s op ?n t f "cr_pts cr" ops s']) auto
  qed
qed

section \<open>Atoms\<close>

text \<open>An atom appends a fragment, and its start is the end of the code before it.\<close>

definition atom_ok :: "re_parse_state \<Rightarrow> re_atom \<Rightarrow> bool" where
  "atom_ok s a = (case a of (p, start, s') \<Rightarrow> extends s s' \<and> (\<forall>st n. start = Some (st, n) \<longrightarrow> st = code_size s))"

lemma atom_ok_core:
  assumes "same_core s t" and "atom_ok t a"
  shows "atom_ok s a"
proof -
  obtain p start u where a: "a = (p, start, u)" by (cases a)
  then have "extends s u" using extends_trans [OF extends_core [OF assms(1)]] assms(2) by (simp add: atom_ok_def)
  then show ?thesis using assms by (simp add: a atom_ok_def same_core_def)
qed

lemma atom_ok_none: "extends s s' \<Longrightarrow> atom_ok s (p, None, s')"
  by (simp add: atom_ok_def)

lemma atom_ok_start: "extends s s' \<Longrightarrow> atom_ok s (p, atom_start s, s')"
  by (simp add: atom_ok_def atom_start_def)

lemma directed_ok:
  assumes "directed s b f = Some (Inr a)" and "\<And>t p u. f t = Some (Inr (p, u)) \<Longrightarrow> extends t u"
  shows "atom_ok s a"
proof -
  from assms(1) obtain t p u v where t: "(if b then re_emit_op s REOP_prev else Some s) = Some t"
    "f t = Some (Inr (p, u))" "(if b then re_emit_op u REOP_prev else Some u) = Some v" "a = (p, atom_start s, v)"
    by (auto simp: directed_def andthen_Inr_iff)
  from extends_prev [OF t(1)] assms(2) [OF t(2)] extends_prev [OF t(3)] have "extends s v"
    by (blast intro: extends_trans)
  then show ?thesis unfolding t(4) by (rule atom_ok_start)
qed

lemma emit_char_extends:
  assumes "emit_char s c cr = Some (Inr s')"
  shows "extends s s'"
  using assms extends_char extends_char32 re_emit_range_extends
  by (auto simp: emit_char_def bind_eq_Some_conv split: if_splits option.splits)

lemma char_atom_ok: "char_atom s p b c cr = Some (Inr a) \<Longrightarrow> atom_ok s a"
  unfolding char_atom_def by (erule directed_ok) (auto simp: andthen_Inr_iff intro: emit_char_extends)

lemma class_atom_ok:
  assumes "class_atom s p b = Some (Inr a)"
  shows "atom_ok s a"
proof -
  from assms obtain c cr q t where t: "get_class_atom s p False = Some (Inr (c, cr, q, t))" "char_atom t q b c cr = Some (Inr a)"
    by (auto simp: class_atom_def andthen_Inr_iff)
  then show ?thesis using get_class_atom_ge [OF t(1)] char_atom_ok [OF t(2)] atom_ok_core same_core_ranges by blast
qed

lemma char_class_extends: "re_parse_char_class s p = Some (Inr (q, s')) \<Longrightarrow> extends s s'"
  by (auto simp: re_parse_char_class_def andthen_Inr_iff
      dest!: char_class_set_ge re_emit_range_extends intro: extends_trans extends_core same_core_ranges)

lemma back_reference_ok: "back_reference s p b c = Some (Inr a) \<Longrightarrow> atom_ok s a"
  by (auto simp: back_reference_def andthen_Inr_iff intro!: atom_ok_start elim!: extends_back_reference split: if_splits)

lemma re_count_captures_core: "re_count_captures s = Some (n, t) \<Longrightarrow> same_core s t"
  by (auto simp: re_count_captures_def bind_eq_Some_conv same_core_def split: if_splits)

lemma re_has_named_captures_core: "re_has_named_captures s = Some (b, t) \<Longrightarrow> same_core s t"
  by (auto simp: re_has_named_captures_def bind_eq_Some_conv dest: re_count_captures_core split: if_splits)

lemma named_reference_ok:
  assumes "named_reference s p b = Some (Inr a)"
  shows "atom_ok s a"
proof -
  have "(\<exists>t. re_has_named_captures s = Some (False, t) \<and> class_atom t p b = Some (Inr a)) \<or>
      (\<exists>q c. back_reference s q b c = Some (Inr a))"
    using assms by (auto simp: named_reference_def Let_def andthen_Inr_iff split: if_splits option.splits)
  then show ?thesis using re_has_named_captures_core class_atom_ok back_reference_ok atom_ok_core by blast
qed

lemma null_escape_ok: "null_escape s p b = Some (Inr a) \<Longrightarrow> atom_ok s a"
  by (auto simp: null_escape_def andthen_Inr_iff intro: char_atom_ok split: if_splits)

lemma decimal_escape_ok:
  assumes "decimal_escape s q b = Some (Inr a)"
  shows "atom_ok s a"
proof -
  from assms obtain c p out t where t: "(if c < 0 then re_ok (True, s)
       else if c < int (capture_count s) then re_ok (False, s)
       else step_of (map_option (\<lambda>(n, s). (c \<ge> n, s)) (re_count_captures s))) = Some (Inr (out, t))"
    and a: "(if out then if re_is_utf16 t then re_parse_error ''back reference out of range in regular expression''
         else andthen (step_of (legacy_octal (re_buf t) q)) (\<lambda>(c, p). char_atom t p b c None)
       else back_reference t p b c) = Some (Inr a)"
    unfolding decimal_escape_def andthen_Inr_iff [of "step_of (parse_digits (re_buf s) q False)"]
    by (elim exE conjE) (simp only: split_paired_all prod.case andthen_Inr_iff [of "if _ then _ else _"],
      elim exE conjE, simp only: split_paired_all prod.case)
  have "same_core s t" using t by (auto split: if_splits dest: re_count_captures_core)
  moreover have "atom_ok t a" using a by (auto simp: andthen_Inr_iff intro: char_atom_ok back_reference_ok split: if_splits)
  ultimately show ?thesis by (rule atom_ok_core)
qed

lemma escape_term_ok:
  assumes "escape_term s p b = Some (Inr a)"
  shows "atom_ok s a"
proof -
  obtain c where c: "rd (re_buf s) (p + 1) = Some c" using assms by (auto simp: escape_term_def split: option.splits)
  note def = assms [unfolded escape_term_def c option.case]
  consider "c = ch CHR ''b'' \<or> c = ch CHR ''B''"
    | "named_reference s p b = Some (Inr a) \<or> null_escape s p b = Some (Inr a) \<or>
       decimal_escape s (p + 1) b = Some (Inr a) \<or> class_atom s p b = Some (Inr a)"
    using def by (simp only: split: if_splits) blast+
  then show ?thesis
  proof cases
    case 1
    then obtain op t where "re_emit_op s op = Some t" "op \<in> op1s" "a = (p + 2, None, t)"
      using def by (auto simp: andthen_Inr_iff split: if_splits)
    then show ?thesis using atom_ok_none extends_op by blast
  next
    case 2
    then show ?thesis using named_reference_ok null_escape_ok decimal_escape_ok class_atom_ok by blast
  qed
qed

lemma brace_atom_ok: "brace_atom s p b = Some (Inr a) \<Longrightarrow> atom_ok s a"
  by (auto simp: brace_atom_def andthen_Inr_iff intro: class_atom_ok split: if_splits)

section \<open>Groups\<close>

definition parses :: "parser \<Rightarrow> bool" where
  "parses f \<longleftrightarrow> (\<forall>b s s'. f b s = Some (Inr s') \<longrightarrow> extends s s')"

lemma parses_at:
  assumes "parses f" and "f b (s\<lparr>buf_ptr := p\<rparr>) = Some (Inr s')"
  shows "extends s s'"
proof -
  have "same_core s (s\<lparr>buf_ptr := p\<rparr>)" by (simp add: same_core_def)
  then show ?thesis using assms extends_core extends_trans unfolding parses_def by blast
qed

lemma plain_group_ok:
  assumes "parses f" and "plain_group f s p b = Some (Inr a)"
  shows "atom_ok s a"
  using assms(2) parses_at [OF assms(1)] by (auto simp: plain_group_def andthen_Inr_iff intro: atom_ok_start)

text \<open>Code of a given form is appended.\<close>

definition grows :: "(nat \<Rightarrow> u8 list \<Rightarrow> bool) \<Rightarrow> re_parse_state \<Rightarrow> re_parse_state \<Rightarrow> bool" where
  "grows P s s' \<longleftrightarrow> (\<not> failed s' \<longrightarrow> \<not> failed s \<and> (good s \<longrightarrow> good s' \<and> capture_count s \<le> capture_count s' \<and>
     (\<exists>xs. P (capture_count s') xs \<and> code s' = code s @ xs)))"

lemma extends_grows: "extends s s' = grows frag s s'"
  by (simp add: extends_def grows_def)

lemma growsD:
  assumes "grows P s s'" and "\<not> failed s'"
  shows "\<not> failed s"
    "good s \<Longrightarrow> good s' \<and> capture_count s \<le> capture_count s' \<and> (\<exists>xs. P (capture_count s') xs \<and> code s' = code s @ xs)"
  using assms by (simp_all add: grows_def)

lemma grows_appends:
  assumes "grows P s t" and "edits (appends bs) t u"
  shows "grows (\<lambda>cc xs. \<exists>ys. P cc ys \<and> xs = ys @ bs) s u"
  using assms same_but_codeD [OF editsD_same [OF assms(2)]] unfolding grows_def edits_def appends_def
  by (metis append_assoc)

text \<open>A displacement that is stored later.\<close>

lemma grows_patch:
  assumes op: "re_emit_op_u32 s op v = Some (pos, t)" and tu: "grows P t u"
    and p: "poke u pos (le_bytes (of_nat (code_size u) - of_nat (pos + 4))) = Some s'"
  shows "grows (\<lambda>cc zs. \<exists>xs. P cc xs \<and> zs = (reop_code op # jump_fwd (length xs)) @ xs) s s'" (is "grows ?Q s s'")
proof -
  note e1 = re_emit_op_u32_edits [OF op] and e2 = poke_edits [OF p]
  have cc: "capture_count t = capture_count s" "capture_count s' = capture_count u"
    using same_but_codeD [OF editsD_same [OF e1]] same_but_codeD [OF editsD_same [OF e2]] by simp_all
  have nft: "\<not> failed t" if "\<not> failed s'" using growsD(1) [OF tu editsD(1) [OF e2 that]] .
  have "good s' \<and> capture_count s \<le> capture_count s' \<and> (\<exists>xs. ?Q (capture_count s') xs \<and> code s' = code s @ xs)"
    if nf: "\<not> failed s'" and g: "good s"
  proof -
    have t: "good t" "code t = code s @ reop_code op # le_bytes v" "pos = length (code s) + 1"
      using editsD(2) [OF e1 nft [OF nf] g] by auto
    obtain xs where x: "good u" "capture_count t \<le> capture_count u" "P (capture_count u) xs" "code u = code t @ xs"
      using growsD(2) [OF tu editsD(1) [OF e2 nf] t(1)] by blast
    have "code_size u = pos + 4 + length xs" using code_size_length [OF x(1)] x(4) t(2,3) by simp
    then have w: "le_bytes (of_nat (code_size u) - of_nat (pos + 4)) = jump_fwd (length xs)"
      by (simp add: jump_fwd_def)
    have "good s'" "code s' = code s @ (reop_code op # jump_fwd (length xs)) @ xs"
      using editsD(2) [OF e2 nf x(1)] x(4) t(2,3) unfolding w by simp_all
    then show ?thesis using x(2,3) cc by auto
  qed
  then show ?thesis using editsD(1) [OF e1 nft] unfolding grows_def by blast
qed

lemma grows_mono: "grows P s t \<Longrightarrow> (\<And>cc xs. capture_count s \<le> cc \<Longrightarrow> P cc xs \<Longrightarrow> Q cc xs) \<Longrightarrow> grows Q s t"
  unfolding grows_def by blast

lemma lookahead_group_ok:
  assumes "parses f" and "lookahead_group f s p neg bw = Some (Inr a)"
  shows "atom_ok s a"
proof -
  from assms(2) obtain pos t u q v s' start where a: "re_emit_op_u32 s (lookahead_op neg) 0 = Some (pos, t)"
    "f bw (t\<lparr>buf_ptr := p\<rparr>) = Some (Inr u)" "re_emit_op u REOP_match = Some v"
    "poke v pos (le_bytes (of_nat (code_size v) - of_nat (pos + 4))) = Some s'"
    "a = (q, start, s')" "start = None \<or> start = atom_start s"
    by (auto simp: lookahead_group_def andthen_Inr_iff split: if_splits)
  have "grows (\<lambda>cc xs. \<exists>ys. frag cc ys \<and> xs = ys @ [reop_code REOP_match]) t v"
    using parses_at [OF assms(1) a(2)] re_emit_op_edits [OF a(3)] unfolding extends_grows by (rule grows_appends)
  from grows_patch [OF a(1) this a(4)] have "extends s s'"
    unfolding extends_grows
    by (rule grows_mono) (use frag_look [of "lookahead_op neg"] in \<open>auto simp: lookahead_op_def split: if_splits\<close>)
  then show ?thesis using a(5,6) atom_ok_none atom_ok_start by auto
qed

lemma capture_group_ok:
  assumes "parses f" and "capture_group f s p b = Some (Inr a)"
  shows "atom_ok s a"
proof -
  let ?n = "of_nat (capture_count s) :: u8" and ?s = "s\<lparr>capture_count := capture_count s + 1\<rparr>"
  from assms(2) obtain t u v q where a: "capture_count s < CAPTURE_COUNT_MAX"
    "re_emit_op_u8 ?s (save_op b) ?n = Some t" "f b (t\<lparr>buf_ptr := p\<rparr>) = Some (Inr u)"
    "re_emit_op_u8 u (save_op (\<not> b)) ?n = Some v" "a = (q, atom_start s, v)"
    by (auto simp: capture_group_def andthen_Inr_iff Let_def split: if_splits)
  have n: "unat ?n \<le> capture_count s" by (simp add: unsigned_of_nat)
  have s: "extends s ?s" using a(1) frag_nil by (auto simp: extends_def good_def)
  have st: "extends ?s t" using n by (intro extends_save [OF a(2)]) (auto simp: save_op_def)
  have tu: "extends t u" by (rule parses_at [OF assms(1) a(3)])
  have op: "save_op (\<not> b) \<in> {REOP_save_start, REOP_save_end}" by (simp add: save_op_def)
  from extends_trans [OF st tu] have "extends ?s v"
    unfolding extends_grows
    by (rule grows_mono [OF grows_appends [OF _ re_emit_op_u8_edits [OF a(4)]]])
      (use n frag_save [OF op, of ?n] in \<open>auto intro: frag_seq\<close>)
  then show ?thesis unfolding a(5) using s by (intro atom_ok_start) (rule extends_trans)
qed

lemma named_group_ok:
  assumes "parses f" and "named_group f s p b = Some (Inr a)"
  shows "atom_ok s a"
proof -
  from assms(2) obtain name q t where t: "put_group_name s (name @ [0]) = Some t"
    "capture_group f (t\<lparr>has_named_captures := 1\<rparr>) q b = Some (Inr a)"
    by (auto simp: named_group_def andthen_Inr_iff split: option.splits if_splits)
  then have "same_core s (t\<lparr>has_named_captures := 1\<rparr>)" by (auto simp: put_group_name_def same_core_def)
  then show ?thesis using capture_group_ok [OF assms(1) t(2)] by (rule atom_ok_core)
qed

lemma group_term_ok:
  assumes "parses f" and "group_term f s p b = Some (Inr a)"
  shows "atom_ok s a"
proof -
  consider t where "put_group_name s [0] = Some t" "capture_group f t (p + 1) b = Some (Inr a)"
    | q where "plain_group f s q b = Some (Inr a)" | q n w where "lookahead_group f s q n w = Some (Inr a)"
    | q where "named_group f s q b = Some (Inr a)"
    using assms(2) by (auto simp: group_term_def Let_def andthen_Inr_iff simp del: of_char_Char split: option.splits if_splits)
  then show ?thesis
  proof cases
    case 1
    then have "same_core s t" by (auto simp: put_group_name_def same_core_def)
    then show ?thesis using capture_group_ok [OF assms(1) 1(2)] by (rule atom_ok_core)
  qed (use assms(1) plain_group_ok lookahead_group_ok named_group_ok in blast)+
qed

section \<open>Terms\<close>

lemma re_parse_atom_ok:
  assumes "parses f" and "re_parse_atom f b s = Some (Inr a)"
  shows "atom_ok s a"
proof -
  let ?p = "buf_ptr s"
  obtain c where c: "rd (re_buf s) ?p = Some c" using assms(2) by (auto simp: re_parse_atom_def Let_def split: option.splits)
  note def = assms(2) [unfolded re_parse_atom_def Let_def c option.case]
  consider op t where "re_emit_op s op = Some t" "op \<in> op1s" "a = (?p + 1, None, t)"
    | g where "directed s b g = Some (Inr a)" "\<And>t p u. g t = Some (Inr (p, u)) \<Longrightarrow> extends t u"
    | "brace_atom s ?p b = Some (Inr a) \<or> group_term f s ?p b = Some (Inr a) \<or> escape_term s ?p b = Some (Inr a) \<or>
       class_atom s ?p b = Some (Inr a)"
  proof -
    assume t: thesis if "re_emit_op s op = Some t" "op \<in> op1s" "a = (?p + 1, None, t)" for op t
    assume g: thesis if "directed s b g = Some (Inr a)" "\<And>t p u. g t = Some (Inr (p, u)) \<Longrightarrow> extends t u" for g
    assume o: thesis if "brace_atom s ?p b = Some (Inr a) \<or> group_term f s ?p b = Some (Inr a) \<or>
      escape_term s ?p b = Some (Inr a) \<or> class_atom s ?p b = Some (Inr a)"
    have dot: "extends t u" if "andthen (step_of (re_emit_op t (if re_dotall t then REOP_any else REOP_dot)))
        (\<lambda>s. re_ok (?p + 1, s)) = Some (Inr (q, u))" for t q u
      using that by (cases "re_dotall t") (auto simp: andthen_Inr_iff elim!: extends_op)
    show thesis
    proof (cases "c = ch CHR ''^'' \<or> c = ch CHR ''$''")
      case True
      then obtain op u where "re_emit_op s op = Some u" "op \<in> op1s" "a = (?p + 1, None, u)"
        using def by (auto simp: andthen_Inr_iff)
      then show thesis by (rule t)
    next
      case no: False
      show thesis
      proof (cases "c = ch CHR ''.''")
        case True
        with def have "directed s b (\<lambda>s. andthen (step_of (re_emit_op s (if re_dotall s then REOP_any else REOP_dot)))
            (\<lambda>s. re_ok (?p + 1, s))) = Some (Inr a)"
          by simp
        then show thesis by (rule g) (rule dot)
      next
        case False
        have "directed s b (\<lambda>s. re_parse_char_class s ?p) = Some (Inr a) \<or>
            (brace_atom s ?p b = Some (Inr a) \<or> group_term f s ?p b = Some (Inr a) \<or>
              escape_term s ?p b = Some (Inr a) \<or> class_atom s ?p b = Some (Inr a))"
          using def no False by (simp only: de_Morgan_disj if_False simp_thms split: if_splits) blast+
        then show thesis using g char_class_extends o by blast
      qed
    qed
  qed
  then show ?thesis
  proof cases
    case 1
    then show ?thesis using atom_ok_none extends_op by blast
  next
    case 2
    then show ?thesis by (rule directed_ok)
  next
    case 3
    then show ?thesis using assms(1) brace_atom_ok group_term_ok escape_term_ok class_atom_ok by blast
  qed
qed

text \<open>A quantifier behind an atom.\<close>

lemma extends_quantified:
  assumes "extends s t" and "\<And>c xs. length c = code_size s \<Longrightarrow> quantified c xs t u"
  shows "extends s u"
proof -
  have q: "same_but_code t u" "\<not> failed u \<Longrightarrow> \<not> failed t"
    using assms(2) [of "replicate (code_size s) 0" "[]"] by (simp_all add: quantified_def)
  have "good u \<and> capture_count s \<le> capture_count u \<and> (\<exists>xs. frag (capture_count u) xs \<and> code u = code s @ xs)"
    if nf: "\<not> failed u" and g: "good s"
  proof -
    obtain xs where x: "good t" "capture_count s \<le> capture_count t" "frag (capture_count t) xs" "code t = code s @ xs"
      using assms(1) q(2) [OF nf] g by (auto simp: extends_def)
    have "quantified (code s) xs t u" using assms(2) code_size_length [OF g] by simp
    then show ?thesis using nf x same_but_codeD [OF q(1)] by (auto simp: quantified_def)
  qed
  then show ?thesis using assms(1) q(2) unfolding extends_def by blast
qed

lemma re_parse_quantifier_quantified:
  assumes "re_parse_quantifier s p (length c) n = Some (Inr (q, s'))"
  shows "quantified c xs s s'"
proof -
  from assms have "s' = s \<or> (\<exists>quant_min quant_max greedy.
      emit_quantifier s (length c) n quant_min quant_max greedy = Some (Inr s'))"
    by (auto simp: re_parse_quantifier_def andthen_Inr_iff Let_def split: option.splits)
  then show ?thesis using quantified_refl emit_quantifier_quantified by blast
qed

lemma re_parse_term_parses:
  assumes "parses f"
  shows "parses (re_parse_term f)"
  unfolding parses_def
proof (intro allI impI)
  fix b s s'
  assume "re_parse_term f b s = Some (Inr s')"
  then obtain p start t where a: "re_parse_atom f b s = Some (Inr (p, start, t))"
    and k: "(case start of None \<Rightarrow> re_ok (t\<lparr>buf_ptr := p\<rparr>)
     | Some (last_atom_start, n) \<Rightarrow>
         andthen (re_parse_quantifier t p last_atom_start n) (\<lambda>(p, s). re_ok (s\<lparr>buf_ptr := p\<rparr>))) = Some (Inr s')"
    by (auto simp: re_parse_term_def andthen_Inr_iff)
  have ok: "extends s t" "\<And>st n. start = Some (st, n) \<Longrightarrow> st = code_size s"
    using re_parse_atom_ok [OF assms a] by (auto simp: atom_ok_def)
  have core: "extends u (u\<lparr>buf_ptr := q\<rparr>)" for u q by (rule extends_core) (simp add: same_core_def)
  show "extends s s'"
  proof (cases start)
    case None
    then show ?thesis using k ok(1) core extends_trans by auto
  next
    case (Some x)
    then obtain st n where x: "start = Some (st, n)" by (cases x) simp
    then obtain q u where u: "re_parse_quantifier t p st n = Some (Inr (q, u))" "s' = u\<lparr>buf_ptr := q\<rparr>"
      using k by (auto simp: andthen_Inr_iff)
    have "extends s u"
      using u(1) ok(2) [OF x] by (intro extends_quantified [OF ok(1)] re_parse_quantifier_quantified) simp
    then show ?thesis unfolding u(2) using core by (rule extends_trans)
  qed
qed

section \<open>Alternatives and disjunctions\<close>

text \<open>The last part of the code, from \<open>start\<close>, stays a fragment.\<close>

definition keeps :: "nat \<Rightarrow> re_parse_state \<Rightarrow> re_parse_state \<Rightarrow> bool" where
  "keeps start s s' \<longleftrightarrow> (\<not> failed s' \<longrightarrow> \<not> failed s \<and>
     (\<forall>c xs. good s \<and> code s = c @ xs \<and> length c = start \<and> frag (capture_count s) xs \<longrightarrow>
        good s' \<and> capture_count s \<le> capture_count s' \<and> (\<exists>ys. code s' = c @ ys \<and> frag (capture_count s') ys)))"

lemma keepsD:
  assumes "keeps start s s'" and "\<not> failed s'"
  shows "\<not> failed s" "good s \<Longrightarrow> code s = c @ xs \<Longrightarrow> length c = start \<Longrightarrow> frag (capture_count s) xs \<Longrightarrow>
    good s' \<and> capture_count s \<le> capture_count s' \<and> (\<exists>ys. code s' = c @ ys \<and> frag (capture_count s') ys)"
  using assms unfolding keeps_def by auto

lemma keeps_refl [simp]: "keeps start s s"
  by (auto simp: keeps_def)

lemma keeps_trans:
  assumes "keeps start s t" and "keeps start t u"
  shows "keeps start s u"
proof -
  have nft: "\<not> failed t" if "\<not> failed u" using keepsD(1) [OF assms(2) that] .
  have "good u \<and> capture_count s \<le> capture_count u \<and> (\<exists>ys. code u = c @ ys \<and> frag (capture_count u) ys)"
    if nf: "\<not> failed u" and g: "good s \<and> code s = c @ xs \<and> length c = start \<and> frag (capture_count s) xs" for c xs
  proof -
    from keepsD(2) [OF assms(1) nft [OF nf]] g obtain ys where
      y: "good t" "capture_count s \<le> capture_count t" "code t = c @ ys" "frag (capture_count t) ys" by metis
    from keepsD(2) [OF assms(2) nf y(1,3) _ y(4)] g y(2) show ?thesis by auto
  qed
  then show ?thesis using keepsD(1) [OF assms(1) nft] unfolding keeps_def by blast
qed

lemma extends_keeps:
  assumes "extends s t"
  shows "keeps start s t"
proof -
  have "good t \<and> capture_count s \<le> capture_count t \<and> (\<exists>ys. code t = c @ ys \<and> frag (capture_count t) ys)"
    if nf: "\<not> failed t" and g: "good s \<and> code s = c @ xs \<and> length c = start \<and> frag (capture_count s) xs" for c xs
  proof -
    obtain ys where y: "good t" "capture_count s \<le> capture_count t" "frag (capture_count t) ys" "code t = code s @ ys"
      using assms nf g by (auto simp: extends_def)
    have "frag (capture_count t) (xs @ ys)" using frag_mono [OF _ y(2)] g y(3) by (blast intro: frag_seq)
    then show ?thesis using y g by (intro conjI exI [of _ "xs @ ys"]) simp_all
  qed
  then show ?thesis using assms unfolding keeps_def extends_def by blast
qed

lemma keeps_extends:
  assumes "keeps (code_size s) s t"
  shows "extends s t"
proof -
  have "good t \<and> capture_count s \<le> capture_count t \<and> (\<exists>xs. frag (capture_count t) xs \<and> code t = code s @ xs)"
    if "\<not> failed t" "good s"
    using keepsD(2) [OF assms that, of "code s" "[]"] code_size_length [OF that(2)] frag_nil by auto
  then show ?thesis using keepsD(1) [OF assms] unfolding extends_def by blast
qed

text \<open>\<open>move_term\<close> exchanges two parts of the code.\<close>

lemma swap_blocks:
  assumes "n = length c + length x + length z" and "length m \<ge> n + length z" and "take n m = c @ x @ z"
    and d: "rd_block m (length c) (n - length c) = Some d" and m1: "wr_block m (length c + length z) d = Some m1"
    and e: "rd_block m1 n (length z) = Some e" and m2: "wr_block m1 (length c) e = Some m2"
  shows "take n m2 = c @ z @ x \<and> length m2 = length m"
proof -
  obtain r where m: "m = c @ x @ z @ r" using assms(3) append_take_drop_id [of n m] by (metis append_assoc)
  have "d = x @ z" using d assms(1) by (simp add: rd_block_Some_iff m)
  moreover obtain r1 r2 where r: "r = r1 @ r2" "length r1 = length z"
    using assms(1,2) by (metis append_take_drop_id length_take m length_append min.absorb2 add_le_cancel_left ab_semigroup_add_class.add_ac(1))
  moreover have "take (length c + length z) (c @ x @ z @ r) = c @ take (length z) (x @ z)" by simp
  ultimately have "m1 = c @ take (length z) (x @ z) @ x @ z @ r2"
    using m1 by (simp add: wr_block_Some_iff m)
  moreover from this have "e = z" using e assms(1) by (simp add: rd_block_Some_iff)
  ultimately show ?thesis
    using m2 assms(1) by (simp add: wr_block_Some_iff m r)
qed

lemma move_term_keeps:
  assumes "move_term t start (code_size s) = Some (Inr u)" and "extends s t"
  shows "keeps start s u"
proof -
  let ?n = "code_size t" and ?k = "code_size t - code_size s"
  from assms(1) obtain b d m e m2 where b: "dbuf_realloc (byte_code t) (sz (?n + ?k)) = Some (0, b)"
    "rd_block (db_buf b) start (?n - start) = Some d" "wr_block (db_buf b) (start + ?k) d = Some m"
    "rd_block m ?n ?k = Some e" "wr_block m start e = Some m2" "u = t\<lparr>byte_code := b\<lparr>db_buf := m2\<rparr>\<rparr>"
    by (auto simp: move_term_def Let_def bind_eq_Some_conv split: option.splits if_splits)
  note al = dbuf_realloc_allocates [OF b(1)]
  have nft: "\<not> failed t" if "\<not> failed u" using that b(6) allocates_error [OF al] by auto
  have "good u \<and> capture_count s \<le> capture_count u \<and> (\<exists>ys. code u = c @ ys \<and> frag (capture_count u) ys)"
    if nf: "\<not> failed u" and g: "good s \<and> code s = c @ xs \<and> length c = start \<and> frag (capture_count s) xs" for c xs
  proof -
    obtain zs where z: "good t" "capture_count s \<le> capture_count t" "frag (capture_count t) zs" "code t = code s @ zs"
      using assms(2) nft [OF nf] g by (auto simp: extends_def)
    have n: "?n = length c + length xs + length zs" "?k = length zs"
      using code_size_length [OF z(1)] code_size_length [of s] z(4) g by simp_all
    have lim: "limited (byte_code t)" using z(1) by (simp add: good_def)
    have small: "?n + ?k < SIZE_MOD" using limited_size [OF lim] n by (simp add: SIZE_MOD_def)
    obtain r b' where "dbuf_realloc (byte_code t) (?n + ?k) = Some (r, b')" "grown (byte_code t) (?n + ?k) r b'"
      using dbuf_realloc_grown [OF _ small, of "byte_code t"] lim unfolding limited_def by blast
    then have gr: "grown (byte_code t) (?n + ?k) 0 b" using b(1) small by simp
    have lb: "limited b" using allocates_limited [OF al lim] gr by (simp add: grown_def)
    have sw: "take ?n m2 = c @ zs @ xs \<and> length m2 = length (db_buf b)"
    proof (rule swap_blocks)
      show "?n = length c + length xs + length zs" by (rule n)
      show "?n + length zs \<le> length (db_buf b)" using gr n by (auto simp: grown_def dbuf_ok_def)
      show "take ?n (db_buf b) = c @ xs @ zs" using gr z(4) g by (auto simp: grown_def dbuf_bytes_def)
    qed (use b(2-5) n(2) g in simp_all)
    have sb: "db_size b = ?n" using gr by (simp add: grown_def)
    have "code u = c @ zs @ xs" using sw sb by (simp add: b(6) dbuf_bytes_def)
    moreover have "good u" using lb sw z(1) sb by (simp add: b(6) good_def limited_def dbuf_ok_def dbuf_bytes_def)
    moreover have "frag (capture_count t) (zs @ xs)" using frag_mono [OF _ z(2)] g z(3) by (blast intro: frag_seq)
    ultimately show ?thesis using z(2) by (simp add: b(6))
  qed
  then show ?thesis using nft assms(2) unfolding keeps_def extends_def by blast
qed

lemma re_parse_alternative_keeps:
  assumes "parses f" and "re_parse_alternative f n start b s = Some (Inr s')"
  shows "keeps start s s'"
  using assms(2)
proof (induction n arbitrary: s)
  case (Suc n)
  from Suc.prems consider "s' = s" | t u where "re_parse_term f b s = Some (Inr t)"
    "(if b then move_term t start (code_size s) else re_ok t) = Some (Inr u)"
    "re_parse_alternative f n start b u = Some (Inr s')"
    by (cases b) (auto simp: andthen_Inr_iff simp del: of_char_Char split: if_splits option.splits)
  then show ?case
  proof cases
    case 2
    have "extends s t" using re_parse_term_parses [OF assms(1)] 2(1) by (auto simp: parses_def)
    then have "keeps start s u" using 2(2) move_term_keeps extends_keeps by (auto split: if_splits)
    then show ?thesis using Suc.IH [OF 2(3)] by (rule keeps_trans)
  qed simp
qed simp

lemma alternative_parses:
  assumes "parses f"
  shows "parses (\<lambda>b s. re_parse_alternative f n (code_size s) b s)"
  using re_parse_alternative_keeps [OF assms] keeps_extends unfolding parses_def by blast

text \<open>A further alternative.\<close>

lemma keeps_split:
  assumes i: "insert_code s start (reop_code REOP_split_next_first # le_bytes (of_nat (code_size s - start + 5))) = Some (Inr t)"
    and gr: "grows (\<lambda>cc zs. \<exists>ys. frag cc ys \<and> zs = (reop_code REOP_goto # jump_fwd (length ys)) @ ys) t u"
  shows "keeps start s u"
proof -
  let ?sp = "reop_code REOP_split_next_first # le_bytes (of_nat (code_size s - start + 5))"
  have e: "edits (\<lambda>x y. start \<le> length x \<and> y = take start x @ ?sp @ drop start x) s t"
    by (rule insert_code_edits [OF i]) simp
  have cc: "capture_count t = capture_count s" by (rule same_but_codeD [OF editsD_same [OF e]])
  have "good u \<and> capture_count s \<le> capture_count u \<and> (\<exists>ys. code u = c @ ys \<and> frag (capture_count u) ys)"
    if nf: "\<not> failed u" and g: "good s \<and> code s = c @ xs \<and> length c = start \<and> frag (capture_count s) xs" for c xs
  proof -
    have sp: "?sp = reop_code REOP_split_next_first # jump_fwd (length xs + 5)"
      using code_size_length [of s] g by (auto simp: jump_fwd_def)
    have t: "good t" "code t = c @ ?sp @ xs"
      using editsD(2) [OF e growsD(1) [OF gr nf]] g by auto
    obtain ys where y: "good u" "capture_count t \<le> capture_count u" "frag (capture_count u) ys"
      "code u = code t @ (reop_code REOP_goto # jump_fwd (length ys)) @ ys"
      using growsD(2) [OF gr nf t(1)] by blast
    have "frag (capture_count u) xs" using frag_mono [OF _ y(2)] g cc by simp
    from frag_alt [OF this y(3)] have "frag (capture_count u) (?sp @ xs @ (reop_code REOP_goto # jump_fwd (length ys)) @ ys)"
      unfolding sp .
    moreover have "code u = c @ ?sp @ xs @ (reop_code REOP_goto # jump_fwd (length ys)) @ ys"
      using y(4) t(2) by simp
    ultimately show ?thesis using y(1,2) cc by auto
  qed
  then show ?thesis using editsD(1) [OF e growsD(1) [OF gr]] unfolding keeps_def by blast
qed

lemma disjunction_loop_keeps:
  assumes "parses alt" and "disjunction_loop alt n start b s = Some (Inr s')"
  shows "keeps start s s'"
  using assms(2)
proof (induction n arbitrary: s)
  case (Suc n)
  let ?s = "s\<lparr>buf_ptr := buf_ptr s + 1\<rparr>"
  from Suc.prems consider "s' = s" | t pos u v w where
    "insert_code ?s start (reop_code REOP_split_next_first # le_bytes (of_nat (code_size ?s - start + 5))) = Some (Inr t)"
    "re_emit_op_u32 t REOP_goto 0 = Some (pos, u)" "alt b u = Some (Inr v)"
    "poke v pos (le_bytes (of_nat (code_size v) - of_nat (pos + 4))) = Some w"
    "disjunction_loop alt n start b w = Some (Inr s')"
    by (auto simp: andthen_Inr_iff Let_def simp del: of_char_Char split: if_splits option.splits)
  then show ?case
  proof cases
    case 2
    have "grows frag u v" using assms(1) 2(3) unfolding parses_def extends_grows by blast
    from keeps_split [OF 2(1) grows_patch [OF 2(2) this 2(4)]] have "keeps start ?s w" .
    moreover have "keeps start s ?s" by (rule extends_keeps [OF extends_core]) (simp add: same_core_def)
    ultimately show ?thesis using Suc.IH [OF 2(5)] keeps_trans by blast
  qed simp
qed simp

lemma re_parse_disjunction_parses: "parses (re_parse_disjunction n)"
proof (induction n)
  case 0
  show ?case by (simp add: parses_def)
next
  case (Suc n)
  let ?alt = "\<lambda>b s. re_parse_alternative (re_parse_disjunction n) (Suc n) (code_size s) b s"
  have alt: "parses ?alt" by (rule alternative_parses [OF Suc.IH])
  show ?case
    unfolding parses_def
  proof (intro allI impI)
    fix b and s s' :: re_parse_state
    let ?s = "s\<lparr>stack_checks := stack_checks s + 1\<rparr>"
    assume "re_parse_disjunction (Suc n) b s = Some (Inr s')"
    then obtain t where t: "?alt b ?s = Some (Inr t)" "disjunction_loop ?alt (Suc n) (code_size ?s) b t = Some (Inr s')"
      by (auto simp: andthen_Inr_iff Let_def simp del: re_parse_alternative.simps disjunction_loop.simps split: if_splits)
    have "keeps (code_size ?s) ?s t" using alt t(1) extends_keeps unfolding parses_def by blast
    then have "extends ?s s'" using disjunction_loop_keeps [OF alt t(2)] keeps_trans keeps_extends by blast
    moreover have "extends s ?s" by (rule extends_core) (simp add: same_core_def)
    ultimately show "extends s s'" by (rule extends_trans [rotated])
  qed
qed

end
