(* ===== verification/ReCompileProps.thy ===== *)
theory ReCompileProps
  imports ReSound
begin

text \<open>
  The compiler and the executor together: whatever \<open>lre_compile\<close> returns, \<open>lre_exec\<close> runs without a fault.
\<close>

section \<open>The code of a compiled expression\<close>

lemma init_state_good:
  assumes "\<forall>k n g. code_mem k n = Some g \<longrightarrow> n < 2 ^ 31"
  shows "good (init_state code_mem name_mem range_mem overflow buf flags)"
    "code (init_state code_mem name_mem range_mem overflow buf flags) = []"
  using assms by (auto simp: good_def init_state_def limited_def dbuf_ok_def dbuf_init2_def dbuf_bytes_def SIZE_MOD_def)

definition start_header :: "u8 \<Rightarrow> u8 list" where
  "start_header flags = [flags, 0, 0] @ le_bytes 0"

lemma length_start_header [simp]: "length (start_header flags) = 7"
  by (simp add: start_header_def)

lemma edits_u32: "re_emit_op_u32 s op v = Some (p, s') \<Longrightarrow> edits (appends (reop_code op # le_bytes v)) s s'"
  by (erule edits_mono [OF re_emit_op_u32_edits]) (simp add: appends_def)

lemma emit_prologue_edits:
  assumes "emit_prologue s flags = Some s'"
  shows "\<exists>xs. edits (appends (start_header flags @ xs)) s s' \<and> (\<forall>cc. 0 < cc \<longrightarrow> frag cc xs)"
proof -
  from assms obtain t u where t: "emits s [[flags], [0], [0], le_bytes 0] = Some t"
    "(if flag_set flags LRE_FLAG_STICKY then Some t
       else do {
         (_, s) \<leftarrow> re_emit_op_u32 t REOP_split_goto_first (1 + 5);
         s \<leftarrow> re_emit_op s REOP_any;
         map_option snd (re_emit_op_u32 s REOP_goto (- (5 + 1 + 5)))
       }) = Some u" "re_emit_op_u8 u REOP_save_start 0 = Some s'"
    unfolding emit_prologue_def by (auto simp: bind_eq_Some_conv simp del: emits.simps)
  have h: "edits (appends (start_header flags)) s t" using emits_edits [OF t(1)] by (simp add: start_header_def)
  have save: "frag cc [reop_code REOP_save_start, 0]" if "0 < cc" for cc
    by (rule frag_save) (use that in simp_all)
  have "\<exists>xs. edits (appends xs) t u \<and> (\<forall>cc. frag cc xs)"
  proof (cases "flag_set flags LRE_FLAG_STICKY")
    case True
    then have "edits (appends []) t u" using t(2) by (simp add: edits_def appends_def)
    then show ?thesis using frag_nil by blast
  next
    case False
    let ?xs = "(reop_code REOP_split_goto_first # jump_fwd 6) @ [reop_code REOP_any] @ (reop_code REOP_goto # jump_back 11)"
    from False t(2) obtain p v w q where v: "re_emit_op_u32 t REOP_split_goto_first 6 = Some (p, v)"
      "re_emit_op v REOP_any = Some w" "re_emit_op_u32 w REOP_goto (- 11) = Some (q, u)"
      by (auto simp: bind_eq_Some_conv)
    from edits_appends_trans [OF edits_u32 [OF v(1)] edits_appends_trans [OF re_emit_op_edits [OF v(2)] edits_u32 [OF v(3)]]]
    have "edits (appends ?xs) t u" by (simp add: jump_fwd_def jump_back_def)
    moreover have "frag cc ?xs" for cc
      using frag_star [of REOP_split_goto_first cc "[reop_code REOP_any]"] frag_op [of REOP_any "[]" cc]
      by (simp add: plain_ops_def)
    ultimately show ?thesis by blast
  qed
  then obtain xs where x: "edits (appends xs) t u" "\<And>cc. frag cc xs" by blast
  from edits_appends_trans [OF h edits_appends_trans [OF x(1) re_emit_op_u8_edits [OF t(3)]]]
  show ?thesis using frag_seq [OF x(2) save] by blast
qed

text \<open>A store that stays inside the code.\<close>

lemma poke_good:
  assumes "poke s p bs = Some s'" and "good s" and "p + length bs \<le> length (code s)"
  shows "good s'" "code s' = take p (code s) @ bs @ drop (p + length bs) (code s)"
    "capture_count s' = capture_count s" "failed s' = failed s"
    "group_names s' = group_names s"
proof -
  from assms(1) obtain m where m: "wr_block (db_buf (byte_code s)) p bs = Some m"
      "s' = s\<lparr>byte_code := (byte_code s)\<lparr>db_buf := m\<rparr>\<rparr>"
    by (auto simp: poke_def bind_eq_Some_conv)
  then show "good s'" "code s' = take p (code s) @ bs @ drop (p + length bs) (code s)"
    "capture_count s' = capture_count s" "failed s' = failed s" "group_names s' = group_names s"
    using limited_poke [OF m(1)] assms(2,3) by (simp_all add: good_def)
qed

lemma limited_put_any:
  assumes "dbuf_put b d = Some (r, b')" and "limited b"
  shows "limited b' \<and> (dbuf_bytes b' = dbuf_bytes b \<or> dbuf_bytes b' = dbuf_bytes b @ d)"
proof -
  from assms(1) obtain r1 b1 where g: "dbuf_grow b (length d) = Some (r1, b1)"
    and p: "(if r1 \<noteq> 0 then Some (-1, b1) else do {
        m \<leftarrow> wr_block (db_buf b1) (db_size b1) d;
        Some (0, b1\<lparr>db_buf := m, db_size := sz (db_size b1 + length d)\<rparr>) }) = Some (r, b')"
    by (auto simp: dbuf_put_def bind_eq_Some_conv)
  have ok: "dbuf_ok b" using assms(2) by (simp add: limited_def)
  have "dbuf_ok b1 \<and> dbuf_bytes b1 = dbuf_bytes b \<and> db_size b1 = db_size b"
  proof (cases "sz (db_size b + length d) > db_allocated_size b")
    case True
    have "sz (db_size b + length d) < SIZE_MOD" by (simp add: sz_def SIZE_MOD_def)
    from dbuf_realloc_grown [OF ok this] g True show ?thesis
      by (auto simp: dbuf_grow_def grown_def)
  next
    case False
    then show ?thesis using g ok by (simp add: dbuf_grow_def)
  qed
  note b1 = this and l1 = allocates_limited [OF dbuf_grow_allocates [OF g] assms(2) conjunct1 [OF this]]
  show ?thesis
  proof (cases "r1 = 0")
    case False
    then show ?thesis using p b1 l1 by simp
  next
    case True
    then obtain m where m: "wr_block (db_buf b1) (db_size b1) d = Some m"
      "b' = b1\<lparr>db_buf := m, db_size := sz (db_size b1 + length d)\<rparr>"
      using p by (auto simp: bind_eq_Some_conv)
    then have le: "db_size b1 + length d \<le> db_allocated_size b1" "m = take (db_size b1) (db_buf b1) @ d @ drop (db_size b1 + length d) (db_buf b1)"
      using b1 by (auto simp: wr_block_Some_iff dbuf_ok_def)
    then have s: "sz (db_size b1 + length d) = db_size b1 + length d" using l1 by (simp add: limited_def SIZE_MOD_def)
    then have "db_size b1 \<le> length (db_buf b1)" using le b1 by (simp add: dbuf_ok_def)
    then have "dbuf_bytes b' = dbuf_bytes b1 @ d" using le by (simp add: m(2) s dbuf_bytes_def)
    moreover have "limited b'" using l1 le b1 by (simp add: m(2) s limited_def dbuf_ok_def)
    ultimately show ?thesis using b1 by simp
  qed
qed

text \<open>The compiled program: the emitted code with a completed header and possibly the names behind it.\<close>

definition completed :: "u8 list \<Rightarrow> nat \<Rightarrow> int \<Rightarrow> u8 list \<Rightarrow> bool" where
  "completed m cc r bc \<longleftrightarrow> length m \<le> length bc \<and> bc ! 1 = of_nat cc \<and> bc ! 2 = word_of_int r \<and> code_in m bc"

lemma completed_flags: "completed m cc r bc \<Longrightarrow> 0 < length bc \<Longrightarrow> completed m cc r (x # drop 1 bc)"
  by (cases bc) (auto simp: completed_def code_in_def nth_Cons split: nat.splits)

lemma completed_append: "completed m cc r bc \<Longrightarrow> 7 \<le> length m \<Longrightarrow> completed m cc r (bc @ xs)"
  by (auto simp: completed_def code_in_def nth_append)

lemma finish_code_completed:
  assumes "finish_code s = Some (Inr bc)" and g: "good s" and len: "7 \<le> length (code s)"
  shows "\<exists>r. compute_stack_size (code s) = Some r \<and> 0 \<le> r \<and> completed (code s) (capture_count s) r bc"
proof -
  let ?m = "code s"
  obtain r where r: "compute_stack_size ?m = Some r" "0 \<le> r" and nf: "\<not> failed s"
    using assms(1) by (auto simp: finish_code_def split: if_splits option.splits)
  then have nr: "\<not> r < 0" by simp
  obtain t u v w where t: "poke s 1 [of_nat (capture_count s)] = Some t" and u: "poke t 2 [word_of_int r] = Some u"
    and v: "poke u 3 (le_bytes (of_nat (code_size u - 7))) = Some v"
    and w: "(if db_size (group_names v) > capture_count v - 1 then do {
                s \<leftarrow> emit v (dbuf_bytes (group_names v));
                flags \<leftarrow> rd (db_buf (byte_code s)) RE_HEADER_FLAGS;
                poke s RE_HEADER_FLAGS [flags OR LRE_FLAG_NAMED_GROUPS]
              } else Some v) = Some w" "bc = code w"
    using assms(1) by (auto simp: finish_code_def bind_eq_Some_conv r(1) nf nr)
  have t': "good t" "code t = take 1 ?m @ [of_nat (capture_count s)] @ drop 2 ?m"
    using poke_good [OF t g] len by (simp_all add: numeral_2_eq_2)
  have u': "good u" "code u = take 2 (code t) @ [word_of_int r] @ drop 3 (code t)"
    using poke_good [OF u t'(1)] t'(2) len by (simp_all add: numeral_3_eq_3)
  have v': "good v" "code v = take 3 (code u) @ le_bytes (of_nat (code_size u - 7)) @ drop 7 (code u)"
    using poke_good [OF v u'(1)] u'(2) t'(2) len by simp_all
  have cv: "code v = [?m ! 0, of_nat (capture_count s), word_of_int r] @ le_bytes (of_nat (code_size u - 7)) @ drop 7 ?m"
    using len unfolding v'(2) u'(2) t'(2) by (cases ?m) (simp_all add: numeral_3_eq_3 numeral_2_eq_2)
  have done': "completed ?m (capture_count s) r (code v)"
    using len by (auto simp: completed_def code_in_def cv nth_append)
  have lv: "limited (byte_code v)" using v'(1) by (simp add: good_def)
  have "completed ?m (capture_count s) r (code w)"
  proof (cases "db_size (group_names v) > capture_count v - 1")
    case False
    then show ?thesis using w(1) done' by simp
  next
    case True
    then obtain a b f where a: "dbuf_put (byte_code v) (dbuf_bytes (group_names v)) = Some (a, b)"
      "poke (v\<lparr>byte_code := b\<rparr>) 0 [f] = Some w"
      using w(1) by (auto simp: emit_def bind_eq_Some_conv)
    from limited_put_any [OF a(1) lv] have b: "limited b" "completed ?m (capture_count s) r (dbuf_bytes b)"
      using done' completed_append [OF done' len] by auto
    have gb: "good (v\<lparr>byte_code := b\<rparr>)" using b(1) v'(1) by (simp add: good_def)
    have lb: "0 < length (dbuf_bytes b)" using b(2) len unfolding completed_def by linarith
    have "code w = f # drop 1 (dbuf_bytes b)" using poke_good(2) [OF a(2) gb] lb by (simp add: Suc_leI)
    then show ?thesis using completed_flags [OF b(2) lb] by simp
  qed
  then show ?thesis using r w(2) by blast
qed

text \<open>Everything \<open>lre_compile\<close> returns is structured: behind the header is code \<open>m\<close> whose instructions are whole,
  whose jumps, also into and out of the copies that the quantifiers make, lead to instructions with the right depth of
  the value stack, whose captures exist and whose greedy quantifiers have a simple body; the header holds the number
  of captures and a stack size that is enough for all depths.\<close>

lemma lre_compile_completed:
  assumes "lre_compile fuel code_mem name_mem range_mem overflow buf flags = Some (Inr bc)"
    and "\<forall>k n g. code_mem k n = Some g \<longrightarrow> n < 2 ^ 31"
  shows "\<exists>m cc r. check_code m cc \<and> compute_stack_size m = Some r \<and> 0 \<le> r \<and> completed m cc r bc \<and>
    cc \<le> CAPTURE_COUNT_MAX \<and> 7 < length m"
proof -
  let ?i = "init_state code_mem name_mem range_mem overflow buf flags"
  from assms(1) obtain s t u v where s: "emit_prologue ?i flags = Some s"
    and t: "re_parse_disjunction fuel False s = Some (Inr t)"
    and u: "re_emit_op_u8 t REOP_save_end 0 = Some u" and v: "re_emit_op u REOP_match = Some v"
    and f: "finish_code v = Some (Inr bc)"
    by (auto simp: lre_compile_def andthen_Inr_iff bind_eq_Some_conv split: if_splits)
  obtain xs where x: "edits (appends (start_header flags @ xs)) ?i s" "\<And>cc. 0 < cc \<Longrightarrow> frag cc xs"
    using emit_prologue_edits [OF s] by blast
  have st: "extends s t" using re_parse_disjunction_parses t unfolding parses_def by blast
  have nv: "\<not> failed v" using f by (auto simp: finish_code_def split: if_splits)
  note eu = re_emit_op_u8_edits [OF u] and ev = re_emit_op_edits [OF v]
  have nu: "\<not> failed u" by (rule editsD(1) [OF ev nv])
  have nt: "\<not> failed t" by (rule editsD(1) [OF eu nu])
  have ns: "\<not> failed s" using st nt by (simp add: extends_def)
  have gs: "good s" "code s = start_header flags @ xs"
    using editsD(2) [OF x(1) ns] init_state_good [OF assms(2)] by (simp_all add: appends_def)
  obtain ys where gt: "good t" "frag (capture_count t) ys" "code t = code s @ ys"
    using st nt gs(1) by (auto simp: extends_def)
  have gu: "good u" "code u = code t @ [reop_code REOP_save_end, 0]"
    using editsD(2) [OF eu nu gt(1)] by (simp_all add: appends_def)
  have gv: "good v" "code v = code u @ [reop_code REOP_match]"
    using editsD(2) [OF ev nv gu(1)] by (simp_all add: appends_def)
  have cc: "capture_count v = capture_count t"
    using same_but_codeD [OF editsD_same [OF eu]] same_but_codeD [OF editsD_same [OF ev]] by simp
  have pos: "0 < capture_count t" using gt(1) by (simp add: good_def)
  have "frag (capture_count t) (xs @ ys @ [reop_code REOP_save_end, 0])"
    using x(2) [OF pos] gt(2) pos by (intro frag_seq frag_save) simp_all
  moreover have m: "code v = start_header flags @ (xs @ ys @ [reop_code REOP_save_end, 0]) @ [reop_code REOP_match]"
    using gs(2) gt(3) gu(2) gv(2) by simp
  moreover have "length (code v) < 2 ^ 31"
    using gv(1) limited_size [of "byte_code v"] code_size_length [OF gv(1)] by (simp add: good_def)
  ultimately have "check_code (code v) (capture_count v)" unfolding cc by (intro frag_check_code [OF _ m]) simp_all
  moreover have "7 < length (code v)" by (simp add: m)
  moreover have "capture_count v \<le> CAPTURE_COUNT_MAX" using gv(1) by (simp add: good_def)
  ultimately show ?thesis using finish_code_completed [OF f gv(1)] by fastforce
qed

section \<open>Properties\<close>

text \<open>C1: end to end memory safety of regular expressions.  For every pattern and all flags: when \<open>lre_compile\<close>
  returns a program, the allocator of the code having delivered no block of \<open>2 ^ 31\<close> bytes or more, \<open>lre_exec\<close> runs
  that program on every subject string, from every start index, with every allocator, without reading or writing
  outside its buffers and without aborting.\<close>

theorem compiled_program_safe:
  assumes "lre_compile fuel code_mem name_mem range_mem overflow buf flags = Some (Inr bc)"
    and "\<forall>k n g. code_mem k n = Some g \<longrightarrow> n < 2 ^ 31"
    and "lre_get_capture_count bc = Some n" and "length capture = 2 * unat n"
    and "length cbuf < 2 ^ 31" and "cindex \<le> length cbuf" and "\<forall>n. realloc n \<longrightarrow> n \<le> 2 ^ 62"
  shows "lre_exec steps realloc stack_init capture bc cbuf cindex cbuf_type \<noteq> Fault"
proof -
  obtain m cc r where m: "check_code m cc" "compute_stack_size m = Some r" "0 \<le> r" "completed m cc r bc"
    "cc \<le> 255" "7 < length m"
    using lre_compile_completed [OF assms(1,2)] by auto
  have bc: "7 < length bc" "bc ! 1 = of_nat cc" "bc ! 2 = word_of_int r" "code_in m bc"
    using m(4,6) by (simp_all add: completed_def)
  have rds: "rd bc 0 = Some (bc ! 0)" "rd bc 1 = Some (bc ! 1)" "rd bc 2 = Some (bc ! 2)"
    using bc(1) by (auto simp: rd_Some_iff)
  obtain s where s: "exec_context realloc bc cbuf cbuf_type = Some s" "rc_bc s = bc"
    "rc_capture_count s = unat (bc ! 1)" "rc_stack_size_max s = unat (bc ! 2)"
    using rds by (auto simp: exec_context_def)
  have c: "rc_capture_count s = cc" using m(5) s(3) bc(2) by (simp add: unsigned_of_nat take_bit_nat_eq_self)
  have "r \<le> 255"
  proof -
    obtain l where "code_map m 7 0 = Some l" using m(1) by (auto simp: check_code_def split: option.splits)
    from stack_size_loop_bounds [OF m(2) [unfolded compute_stack_size_def] m(3) this] show ?thesis by simp
  qed
  then have "rc_stack_size_max s = nat r"
    using m(3) s(4) bc(3) by (simp add: unsigned_of_int take_bit_int_eq_self)
  then obtain D where "well_typed s D" "D 7 = Some 0"
    using check_code_well_typed [OF bc(4) s(2) _ m(2,3)] m(1) c by metis
  moreover have "length capture = 2 * rc_capture_count s"
    using assms(3,4) s(3) bc(1) by (simp add: lre_get_capture_count_def rd_def)
  ultimately show ?thesis using lre_exec_safe [OF s(1)] assms(5-7) by blast
qed

text \<open>Concrete runs: an allocator for blocks of up to \<open>m\<close> bytes, enough stack, no ranges.\<close>

definition mem_up_to :: "nat \<Rightarrow> realloc_fun" where
  "mem_up_to m k n = (if n \<le> m then Some (\<lambda>i. 0) else None)"

definition compile_in :: "nat \<Rightarrow> string \<Rightarrow> u8 list re_result" where
  "compile_in m pattern =
     lre_compile 8 (mem_up_to m) (mem_up_to 1000) (\<lambda>k i n. None) (\<lambda>d. False) (chars pattern @ [0]) 0"

lemma compile_ba_star: "compile_in 1000 ''ba*'' = Some (Inr re_ba_star)"
  by code_simp

theorem compiled_program_safe_witness:
  "\<exists>bc. compile_in 1000 ''ba*'' = Some (Inr bc) \<and>
     (\<forall>steps. lre_exec steps (\<lambda>n. n \<le> 1000) (\<lambda>i. 0) [None, None] bc [98, 97, 97] 0 0 \<noteq> Fault)"
proof (intro exI conjI allI)
  show c: "compile_in 1000 ''ba*'' = Some (Inr re_ba_star)" by (rule compile_ba_star)
  show "lre_exec steps (\<lambda>n. n \<le> 1000) (\<lambda>i. 0) [None, None] re_ba_star [98, 97, 97] 0 0 \<noteq> Fault" for steps
    by (rule compiled_program_safe [OF c [unfolded compile_in_def], of 1])
      (auto simp: mem_up_to_def lre_get_capture_count_def rd_def re_ba_star_def)
qed

section \<open>Two defects\<close>

text \<open>The code generator and a failing allocator.  When the allocator of the code refuses blocks of more than 33
  bytes, the compilation of \<open>ab|c\<close> stores the displacement of a jump outside the block of the code, which is undefined
  behaviour: \<open>re_parse_disjunction\<close> does not test the error flag before it patches the jump.  One byte less and the
  insertion before fails, one growth step more and the compilation succeeds.\<close>

lemma disjunction_patch_out_of_block:
  "compile_in 33 ''ab|c'' = None \<and> compile_in 32 ''ab|c'' = re_parse_out_of_memory \<and>
   compile_in 49 ''ab|c'' \<notin> {None, re_parse_out_of_memory}"
proof (intro conjI)
  show "compile_in 33 ''ab|c'' = None" by code_simp
  show "compile_in 32 ''ab|c'' = re_parse_out_of_memory" by code_simp
  show "compile_in 49 ''ab|c'' \<notin> {None, re_parse_out_of_memory}" by code_simp
qed

text \<open>A reference to a named group that comes later.  The scan \<open>re_parse_captures\<close> for the group \<open>c\<close> skips the
  character behind the name of each group it passes: it does not see the group \<open>(b)\<close> that opens right behind \<open><a>\<close>, so
  the reference in front is compiled to group 2, while the same reference behind the groups is compiled to group 3.\<close>

lemma forward_reference_wrong_group:
  "(\<exists>bc. compile_in 1000 (CHR 0x5C # ''k<c>(?<a>(b))(?<c>d)'') = Some (Inr bc) \<and>
      take 2 (drop 20 bc) = [reop_code REOP_back_reference, 2]) \<and>
   (\<exists>bc. compile_in 1000 (''(?<a>(b))(?<c>d)'' @ CHR 0x5C # ''k<c>'') = Some (Inr bc) \<and>
      take 2 (drop 38 bc) = [reop_code REOP_back_reference, 3])"
proof -
  have op: "reop_code REOP_back_reference = 19" by code_simp
  show ?thesis
  proof
  have "compile_in 1000 (CHR 0x5C # ''k<c>(?<a>(b))(?<c>d)'') =
    Some (Inr [128, 4, 0, 36, 0, 0, 0, 8, 6, 0, 0, 0, 4, 7, 245, 255, 255, 255, 11, 0, 19, 2, 11, 1, 11, 2, 1, 98, 0,
      12, 2, 12, 1, 11, 3, 1, 100, 0, 12, 3, 12, 0, 10, 97, 0, 0, 99, 0])"
    by code_simp
  then show "\<exists>bc. compile_in 1000 (CHR 0x5C # ''k<c>(?<a>(b))(?<c>d)'') = Some (Inr bc) \<and>
      take 2 (drop 20 bc) = [reop_code REOP_back_reference, 2]"
    by (simp add: op)
next
  have "compile_in 1000 (''(?<a>(b))(?<c>d)'' @ CHR 0x5C # ''k<c>'') =
    Some (Inr [128, 4, 0, 36, 0, 0, 0, 8, 6, 0, 0, 0, 4, 7, 245, 255, 255, 255, 11, 0, 11, 1, 11, 2, 1, 98, 0,
      12, 2, 12, 1, 11, 3, 1, 100, 0, 12, 3, 19, 3, 12, 0, 10, 97, 0, 0, 99, 0])"
    by code_simp
  then show "\<exists>bc. compile_in 1000 (''(?<a>(b))(?<c>d)'' @ CHR 0x5C # ''k<c>'') = Some (Inr bc) \<and>
      take 2 (drop 38 bc) = [reop_code REOP_back_reference, 3]"
    by (simp add: op)
  qed
qed

end
