(* ===== verification/ReTotal.thy ===== *)
theory ReTotal
  imports ReCompileProps
begin

text \<open>
  Termination of the regular expression compiler: with fuel above the length of the pattern the recursive descent
  never runs out of it, and the result does not depend on the fuel.
\<close>

section \<open>Results that are not for lack of fuel\<close>

named_theorems settled

definition settles :: "'a re_result \<Rightarrow> bool" where
  "settles m \<longleftrightarrow> m \<noteq> Some (Inl Re_no_fuel)"

lemma settles_simps [simp]:
  "settles None" "settles (Some (Inr x))" "settles (Some (Inl e)) \<longleftrightarrow> e \<noteq> Re_no_fuel" "settles (step_of m')"
  by (auto simp: settles_def step_of_def)

lemma settles_andthen [settled]:
  "settles m \<Longrightarrow> (\<And>x. m = Some (Inr x) \<Longrightarrow> settles (f x)) \<Longrightarrow> settles (andthen m f)"
  by (auto simp: settles_def andthen_def split: option.splits sum.splits)

lemma settles_freed [settled]: "settles m \<Longrightarrow> settles (freed cr m)"
  by (auto simp: settles_def freed_def split: option.splits)

lemma settles_if [settled]: "(b \<Longrightarrow> settles m) \<Longrightarrow> (\<not> b \<Longrightarrow> settles m') \<Longrightarrow> settles (if b then m else m')"
  by simp

lemma settles_option [settled]: "settles m \<Longrightarrow> (\<And>x. o' = Some x \<Longrightarrow> settles (f x)) \<Longrightarrow> settles (case o' of None \<Rightarrow> m | Some x \<Rightarrow> f x)"
  by (simp split: option.splits)

lemma settles_prod [settled]: "(\<And>x y. p = (x, y) \<Longrightarrow> settles (f x y)) \<Longrightarrow> settles (case p of (x, y) \<Rightarrow> f x y)"
  by (simp split: prod.splits)

section \<open>The lexical functions\<close>

lemma settles_expect [settled]: "settles (re_parse_expect s p c)"
  unfolding re_parse_expect_def by (auto intro!: settled)

lemma settles_named_set [settled]: "settles (named_set m msg)"
  unfolding named_set_def by (auto intro!: settled)

lemma settles_property_set [settled]: "settles (property_set cr name val)"
proof -
  have "settles (case unicode_script cr val e of None \<Rightarrow> None | Some Script_loops \<Rightarrow> Some (Inl Re_loops)
      | Some (Script_return r cr) \<Rightarrow> named_set (Some (r, cr)) ''unknown unicode script'')" for e
    by (auto intro: settled split: option.splits script_result.splits)
  then show ?thesis unfolding property_set_def Let_def by (auto intro!: settled)
qed

lemma settles_property [settled]: "settles (parse_unicode_property s p i)"
  unfolding parse_unicode_property_def property_end_def Let_def
  by (auto intro!: settled split: option.splits)

lemma settles_normal_char [settled]: "settles (normal_char s p c)"
  unfolding normal_char_def by (auto intro!: settled)

lemma settles_invalid_escape [settled]: "settles invalid_escape"
  by (simp add: invalid_escape_def)

lemma settles_class_range [settled]: "settles (class_range s p c)"
  unfolding class_range_def by (auto intro!: settled)

lemma settles_control_escape [settled]: "settles (control_escape s p i)"
  unfolding control_escape_def by (auto intro!: settled)

lemma settles_other_escape [settled]: "settles (other_escape s p c)"
  unfolding other_escape_def by (auto intro!: settled split: option.splits escape.splits)

lemma settles_class_atom [settled]: "settles (get_class_atom s p i)"
  unfolding get_class_atom_def escape_atom_def by (intro settled) simp_all

lemma settles_class_add [settled]: "settles (class_add cr c cr1)"
  unfolding class_add_def by (auto intro!: settled split: option.splits)

lemma settles_class_item [settled]: "settles (class_item s cr p)"
  unfolding class_item_def Let_def by (intro settled) simp_all

lemma settles_class_loop [settled]: "settles (class_loop s cr p)"
proof (induction s cr p rule: class_loop.induct)
  case (1 s cr p)
  show ?case unfolding class_loop.simps [of s cr p]
    by (intro settled) (simp_all add: "1.IH" settles_class_item)
qed

lemma settles_class_set [settled]: "settles (char_class_set s p)"
  unfolding char_class_set_def fold_class_def invert_class_def Let_def by (intro settled) simp_all

section \<open>The code generator\<close>

lemma settles_insert_gap [settled]: "settles (insert_gap s p n)"
  unfolding insert_gap_def by (auto intro!: settled)

lemma settles_insert_code [settled]: "settles (insert_code s p bs)"
  unfolding insert_code_def by (intro settled) simp_all

lemma settles_emit_range [settled]: "settles (re_emit_range s cr)"
  unfolding re_emit_range_def Let_def by (intro settled) simp_all

lemma settles_char_class [settled]: "settles (re_parse_char_class s p)"
  unfolding re_parse_char_class_def by (intro settled) simp_all

lemma settles_emit_quantifier [settled]: "settles (emit_quantifier s start n qmin qmax g)"
  unfolding emit_quantifier_def emit_simple_quantifier_def emit_general_quantifier_def emit_reset_def
    emit_optional_def emit_minimum_def Let_def by (intro settled) simp_all

lemma settles_quantifier_text [settled]: "settles (quantifier_text s p)"
  unfolding quantifier_text_def brace_quantifier_def Let_def by (intro settled) simp_all

lemma settles_quantifier [settled]: "settles (re_parse_quantifier s p start n)"
  unfolding re_parse_quantifier_def Let_def by (intro settled) simp_all

lemma settles_char_atom [settled]: "settles (char_atom s p b c cr)"
  unfolding char_atom_def directed_def emit_char_def by (intro settled) simp_all

lemma settles_class_term [settled]: "settles (class_atom s p b)"
  unfolding class_atom_def by (intro settled)

lemma settles_back_reference [settled]: "settles (back_reference s p b c)"
  unfolding back_reference_def by (intro settled) simp_all

lemma settles_escape_term [settled]: "settles (escape_term s p b)"
  unfolding escape_term_def named_reference_def null_escape_def decimal_escape_def Let_def
  by (intro settled) simp_all

lemma settles_brace_atom [settled]: "settles (brace_atom s p b)"
  unfolding brace_atom_def by (intro settled) simp_all

lemma settles_move_term [settled]: "settles (move_term s start t)"
  unfolding move_term_def Let_def by (intro settled) simp_all

lemma settles_finish_code [settled]: "settles (finish_code s)"
  unfolding finish_code_def by (intro settled) simp_all


section \<open>Progress\<close>










































section \<open>The recursion\<close>














section \<open>Enough fuel\<close>









section \<open>The fuel does not matter\<close>

text \<open>A result that is settled stays when there is more fuel.\<close>

named_theorems stable

definition stays :: "'a re_result \<Rightarrow> 'a re_result \<Rightarrow> bool" where
  "stays m m' \<longleftrightarrow> (settles m \<longrightarrow> m' = m)"

lemma stays_refl [stable, simp]: "stays m m"
  by (simp add: stays_def)

lemma stays_no_fuel [simp]: "stays (Some (Inl Re_no_fuel)) m"
  by (simp add: stays_def)

lemma stays_andthen [stable]: "stays m m' \<Longrightarrow> (\<And>x. stays (f x) (g x)) \<Longrightarrow> stays (andthen m f) (andthen m' g)"
  by (auto simp: stays_def settles_def andthen_def split: option.splits sum.splits)

lemma stays_if [stable]: "stays m m' \<Longrightarrow> stays k k' \<Longrightarrow> stays (if b then m else k) (if b then m' else k')"
  by simp

lemma stays_option [stable]: "(\<And>x. stays (f x) (g x)) \<Longrightarrow> stays (case o' of None \<Rightarrow> m | Some x \<Rightarrow> f x) (case o' of None \<Rightarrow> m | Some x \<Rightarrow> g x)"
  by (simp split: option.splits)

lemma stays_prod [stable]: "(\<And>x y. stays (f x y) (g x y)) \<Longrightarrow> stays (case p of (x, y) \<Rightarrow> f x y) (case p of (x, y) \<Rightarrow> g x y)"
  by (simp split: prod.splits)







section \<open>Property\<close>




end
