(* ===== verification/Rqsort.thy ===== *)
theory Rqsort
  imports QJS_Prelude "HOL-Library.Multiset"
begin

text \<open>
  The sort of \<open>cutils.c\<close>.  The exchange functions work on bytes; \<open>heapsortx\<close>, \<open>med3\<close> and \<open>rqsort\<close> are
  modelled on the array of elements (a pointer is the index of an element, an access outside the
  array is \<open>None\<close>).  The comparison function is a parameter: it comes from the caller and may be
  inconsistent.
\<close>

section \<open>Exchange functions\<close>

text \<open>One exchange of \<open>w\<close> bytes, and the loop over words of \<open>w\<close> bytes.\<close>

definition exchange_word :: "nat \<Rightarrow> u8 list \<Rightarrow> nat \<Rightarrow> nat \<Rightarrow> u8 list option" where
  "exchange_word w m ap bp = do {
     t \<leftarrow> rd_block m ap w;
     u \<leftarrow> rd_block m bp w;
     m \<leftarrow> wr_block m ap u;
     wr_block m bp t
   }"

fun exchange_loop :: "nat \<Rightarrow> u8 list \<Rightarrow> nat \<Rightarrow> nat \<Rightarrow> nat \<Rightarrow> u8 list option" where
  "exchange_loop w m ap bp 0 = Some m"
| "exchange_loop w m ap bp (Suc k) = do {
     m \<leftarrow> exchange_word w m ap bp;
     exchange_loop w m (ap + w) (bp + w) k
   }"

type_synonym exchange_f = "u8 list \<Rightarrow> nat \<Rightarrow> nat \<Rightarrow> nat \<Rightarrow> u8 list option"

definition exchange_bytes :: exchange_f where
  "exchange_bytes m a b n = exchange_loop 1 m a b n"

definition exchange_one_byte :: exchange_f where
  "exchange_one_byte m a b n = exchange_word 1 m a b"

definition exchange_int16s :: exchange_f where
  "exchange_int16s m a b n = exchange_loop 2 m a b (n div 2)"

definition exchange_one_int16 :: exchange_f where
  "exchange_one_int16 m a b n = exchange_word 2 m a b"

definition exchange_int32s :: exchange_f where
  "exchange_int32s m a b n = exchange_loop 4 m a b (n div 4)"

definition exchange_one_int32 :: exchange_f where
  "exchange_one_int32 m a b n = exchange_word 4 m a b"

definition exchange_int64s :: exchange_f where
  "exchange_int64s m a b n = exchange_loop 8 m a b (n div 8)"

definition exchange_one_int64 :: exchange_f where
  "exchange_one_int64 m a b n = exchange_word 8 m a b"

definition exchange_int128s :: exchange_f where
  "exchange_int128s m a b n = exchange_loop 16 m a b (n div (8 * 2))"

definition exchange_one_int128 :: exchange_f where
  "exchange_one_int128 m a b n = exchange_word 16 m a b"

definition exchange_func :: "nat \<Rightarrow> nat \<Rightarrow> exchange_f" where
  "exchange_func base n = (let k = (base OR n) AND 15 in
     if k = 0 then if n = 8 * 2 then exchange_one_int128 else exchange_int128s
     else if k = 8 then if n = 8 then exchange_one_int64 else exchange_int64s
     else if k = 4 \<or> k = 12 then if n = 4 then exchange_one_int32 else exchange_int32s
     else if k = 2 \<or> k = 6 \<or> k = 10 \<or> k = 14 then
       if n = 2 then exchange_one_int16 else exchange_int16s
     else if n = 1 then exchange_one_byte else exchange_bytes)"

lemma exchange_word_swaps:
  assumes "length x = w" and "length y = w"
  shows "exchange_word w (p @ x @ q @ y @ r) (length p) (length p + w + length q) =
    Some (p @ y @ q @ x @ r)"
  using assms by (simp add: exchange_word_def rd_block_def wr_block_def)

lemma exchange_loop_swaps:
  assumes "length x = w * k" and "length y = w * k"
  shows "exchange_loop w (p @ x @ q @ y @ r) (length p) (length p + w * k + length q) k =
    Some (p @ y @ q @ x @ r)"
  using assms
proof (induction k arbitrary: p x q y)
  case (Suc k)
  obtain x1 x2 where x: "x = x1 @ x2" "length x1 = w" "length x2 = w * k"
    using Suc.prems(1) append_take_drop_id [of w x] by (metis add_diff_cancel_left' length_drop length_take
        min.absorb2 mult_Suc_right le_add1)
  obtain y1 y2 where y: "y = y1 @ y2" "length y1 = w" "length y2 = w * k"
    using Suc.prems(2) append_take_drop_id [of w y] by (metis add_diff_cancel_left' length_drop length_take
        min.absorb2 mult_Suc_right le_add1)
  have "exchange_word w (p @ x @ q @ y @ r) (length p) (length p + w * Suc k + length q) =
      Some (p @ y1 @ (x2 @ q) @ x1 @ y2 @ r)"
    using exchange_word_swaps [of x1 w y1 p "x2 @ q" "y2 @ r"] x y by (simp add: ac_simps)
  moreover have "exchange_loop w ((p @ y1) @ x2 @ (q @ x1) @ y2 @ r) (length (p @ y1))
      (length (p @ y1) + w * k + length (q @ x1)) k = Some ((p @ y1) @ y2 @ (q @ x1) @ x2 @ r)"
    by (rule Suc.IH) (use x y in auto)
  ultimately show ?case using x y by (simp add: ac_simps)
qed simp

lemma low_bits_dvd:
  fixes base n v :: nat
  assumes "(base OR n) AND 15 = v" and "take_bit k v = 0" and "k \<le> 4"
  shows "2 ^ k dvd n"
proof -
  have "(base OR n) AND 15 = take_bit 4 (base OR n)"
    by (simp add: take_bit_eq_mask mask_eq_exp_minus_1)
  then have "take_bit k (base OR n) = 0" using assms by (simp add: min_def)
  then have "take_bit k base OR take_bit k n = 0" by (simp add: take_bit_or)
  then have "take_bit k n = 0" by (metis or_eq_0_iff)
  then show ?thesis by (simp add: take_bit_eq_0_iff)
qed

text \<open>Whatever function the alignment selects, it exchanges words of a width that divides the size it
  was selected for.\<close>

lemma exchange_func_loop:
  obtains w where "w \<in> {1, 2, 4, 8, 16}" "w dvd n"
    "(\<forall>m a b k. exchange_func base n m a b k = exchange_loop w m a b (k div w)) \<or>
     w = n \<and> (\<forall>m a b k. exchange_func base n m a b k = exchange_loop w m a b 1)"
proof -
  let ?v = "(base OR n) AND 15"
  have d: "?v = 0 \<Longrightarrow> 16 dvd n" "?v = 8 \<Longrightarrow> 8 dvd n" "?v = 4 \<or> ?v = 12 \<Longrightarrow> 4 dvd n"
    "?v = 2 \<or> ?v = 6 \<or> ?v = 10 \<or> ?v = 14 \<Longrightarrow> 2 dvd n"
    using low_bits_dvd [of base n ?v 4] low_bits_dvd [of base n ?v 3] low_bits_dvd [of base n ?v 2]
      low_bits_dvd [of base n ?v 1]
    by (auto simp: take_bit_eq_mod)
  have one: "exchange_loop w m a b (Suc 0) = exchange_word w m a b" for w m a b
    by (cases "exchange_word w m a b") simp_all
  note defs = exchange_bytes_def exchange_one_byte_def exchange_int16s_def
    exchange_one_int16_def exchange_int32s_def exchange_one_int32_def exchange_int64s_def
    exchange_one_int64_def exchange_int128s_def exchange_one_int128_def one
  consider (v0) "?v = 0" | (v8) "?v = 8" | (v4) "?v = 4 \<or> ?v = 12"
    | (v2) "?v = 2 \<or> ?v = 6 \<or> ?v = 10 \<or> ?v = 14"
    | (v1) "?v \<noteq> 0" "?v \<noteq> 8" "\<not> (?v = 4 \<or> ?v = 12)" "\<not> (?v = 2 \<or> ?v = 6 \<or> ?v = 10 \<or> ?v = 14)" by blast
  then show thesis
  proof cases
    case v0
    then have "exchange_func base n = (if n = 16 then exchange_one_int128 else exchange_int128s)"
      by (simp add: exchange_func_def)
    with d(1) [OF v0] show ?thesis by (intro that [of 16]) (auto simp: defs)
  next
    case v8
    then have "exchange_func base n = (if n = 8 then exchange_one_int64 else exchange_int64s)"
      by (simp add: exchange_func_def)
    with d(2) [OF v8] show ?thesis by (intro that [of 8]) (auto simp: defs)
  next
    case v4
    then have "exchange_func base n = (if n = 4 then exchange_one_int32 else exchange_int32s)"
      by (elim disjE) (simp_all add: exchange_func_def)
    with d(3) [OF v4] show ?thesis by (intro that [of 4]) (auto simp: defs)
  next
    case v2
    then have "exchange_func base n = (if n = 2 then exchange_one_int16 else exchange_int16s)"
      by (elim disjE) (simp_all add: exchange_func_def)
    with d(4) [OF v2] show ?thesis by (intro that [of 2]) (auto simp: defs)
  next
    case v1
    then have "exchange_func base n = (if n = 1 then exchange_one_byte else exchange_bytes)"
      unfolding exchange_func_def Let_def by simp
    then show ?thesis by (intro that [of 1]) (auto simp: defs)
  qed
qed

text \<open>A run of \<open>k\<close> words at two positions that coincide, or are disjoint and in either order.\<close>

lemma exchange_word_sym:
  assumes "a + w \<le> b"
  shows "exchange_word w m b a = exchange_word w m a b"
proof (cases "b + w \<le> length m")
  case True
  define p x q y r where "p = take a m" and "x = take w (drop a m)" and "q = take (b - a - w) (drop (a + w) m)"
    and "y = take w (drop b m)" and "r = drop (b + w) m"
  have "drop (a + w) m = q @ drop b m"
    using assms append_take_drop_id [of "b - a - w" "drop (a + w) m"] by (simp add: q_def)
  then have m: "m = p @ x @ q @ y @ r"
    using append_take_drop_id [of a m] append_take_drop_id [of w "drop a m"] append_take_drop_id [of w "drop b m"]
    by (simp add: p_def x_def y_def r_def add.commute)
  have l: "length p = a" "length x = w" "length y = w" "b = a + w + length q"
    using True assms by (simp_all add: p_def x_def y_def q_def)
  show ?thesis using exchange_word_swaps [OF l(2,3), of p q r] l
    by (simp add: m exchange_word_def rd_block_def wr_block_def)
next
  case False
  then show ?thesis by (cases "rd_block m a w") (simp_all add: exchange_word_def rd_block_def)
qed

lemma exchange_loop_sym:
  "a + w * k \<le> b \<Longrightarrow> exchange_loop w m b a k = exchange_loop w m a b k"
proof (induction k arbitrary: m a b)
  case (Suc k)
  then have "exchange_word w m b a = exchange_word w m a b" by (intro exchange_word_sym) simp
  with Suc show ?case by simp
qed simp

lemma exchange_loop_same:
  "a + w * k \<le> length m \<Longrightarrow> exchange_loop w m a a k = Some m"
proof (induction k arbitrary: a)
  case (Suc k)
  then have "exchange_word w m a a = Some m"
    by (simp add: exchange_word_def rd_block_def wr_block_def)
      (metis append_take_drop_id drop_drop add.commute)
  with Suc show ?case by simp
qed simp

section \<open>Elements\<close>

definition swap :: "'a list \<Rightarrow> nat \<Rightarrow> nat \<Rightarrow> 'a list option" where
  "swap xs i j = (if i < length xs \<and> j < length xs then Some (xs[i := xs ! j, j := xs ! i]) else None)"

fun swap_block :: "'a list \<Rightarrow> nat \<Rightarrow> nat \<Rightarrow> nat \<Rightarrow> 'a list option" where
  "swap_block xs i j 0 = Some xs"
| "swap_block xs i j (Suc k) = do { xs \<leftarrow> swap xs i j; swap_block xs (Suc i) (Suc j) k }"

definition compare :: "('a \<Rightarrow> 'a \<Rightarrow> int) \<Rightarrow> 'a list \<Rightarrow> nat \<Rightarrow> nat \<Rightarrow> int option" where
  "compare cmp xs i j = do { x \<leftarrow> rd xs i; y \<leftarrow> rd xs j; Some (cmp x y) }"

section \<open>Heap sort\<close>

text \<open>The sift loop of \<open>heapsortx\<close>: \<open>b\<close> is the start of the segment, \<open>r\<close> the node, \<open>n\<close> the size of the
  heap.  \<open>n - size\<close> does not wrap because \<open>c < n\<close>.\<close>

function sift :: "('a \<Rightarrow> 'a \<Rightarrow> int) \<Rightarrow> nat \<Rightarrow> nat \<Rightarrow> nat \<Rightarrow> 'a list \<Rightarrow> 'a list option" where
  "sift cmp b r n xs =
     (if r * 2 + 1 < n then do {
        let c = r * 2 + 1;
        c \<leftarrow> (if c < n - 1 then do { k \<leftarrow> compare cmp xs (b + c) (b + c + 1); Some (if k \<le> 0 then c + 1 else c) }
          else Some c);
        k \<leftarrow> compare cmp xs (b + r) (b + c);
        if k > 0 then Some xs
        else do { xs \<leftarrow> swap xs (b + r) (b + c); sift cmp b c n xs }
      } else Some xs)"
  by pat_completeness auto
termination
  by (relation "measure (\<lambda>(cmp, b, r, n, xs). n - r)") (auto simp: bind_Some_iff split: if_splits)

declare sift.simps [simp del]

fun heapify :: "('a \<Rightarrow> 'a \<Rightarrow> int) \<Rightarrow> nat \<Rightarrow> nat \<Rightarrow> nat \<Rightarrow> 'a list \<Rightarrow> 'a list option" where
  "heapify cmp b n 0 xs = Some xs"
| "heapify cmp b n (Suc i) xs = do { xs \<leftarrow> sift cmp b i n xs; heapify cmp b n i xs }"

fun extract_loop :: "('a \<Rightarrow> 'a \<Rightarrow> int) \<Rightarrow> nat \<Rightarrow> nat \<Rightarrow> 'a list \<Rightarrow> 'a list option" where
  "extract_loop cmp b 0 xs = Some xs"
| "extract_loop cmp b (Suc i) xs = do {
     xs \<leftarrow> swap xs b (b + Suc i);
     xs \<leftarrow> sift cmp b 0 (Suc i) xs;
     extract_loop cmp b i xs
   }"

definition heapsortx :: "('a \<Rightarrow> 'a \<Rightarrow> int) \<Rightarrow> nat \<Rightarrow> nat \<Rightarrow> 'a list \<Rightarrow> 'a list option" where
  "heapsortx cmp b nmemb xs =
     (if nmemb > 1 then do { xs \<leftarrow> heapify cmp b nmemb (nmemb div 2) xs; extract_loop cmp b (nmemb - 1) xs }
      else Some xs)"

section \<open>Quick sort\<close>

definition med3 :: "('a \<Rightarrow> 'a \<Rightarrow> int) \<Rightarrow> 'a list \<Rightarrow> nat \<Rightarrow> nat \<Rightarrow> nat \<Rightarrow> nat option" where
  "med3 cmp xs a b c = do {
     ab \<leftarrow> compare cmp xs a b;
     bc \<leftarrow> compare cmp xs b c;
     ac \<leftarrow> compare cmp xs a c;
     Some (if ab < 0 then if bc < 0 then b else if ac < 0 then c else a
           else if bc > 0 then b else if ac < 0 then a else c)
   }"

text \<open>The three loops of the partition.  Positions are relative to the start \<open>b\<close> of the segment, where
  the pivot is: \<open>i\<close> for \<open>pi\<close>, \<open>j\<close> for \<open>pj\<close>, \<open>lt\<close> for \<open>plt\<close>, \<open>gt\<close> for \<open>pgt\<close>.\<close>

function part_up :: "('a \<Rightarrow> 'a \<Rightarrow> int) \<Rightarrow> nat \<Rightarrow> 'a list \<Rightarrow> nat \<Rightarrow> nat \<Rightarrow> nat \<Rightarrow>
    ('a list \<times> nat \<times> nat) option" where
  "part_up cmp b xs i lt j =
     (if i < j then do {
        c \<leftarrow> compare cmp xs b (b + i);
        if c \<ge> 0 then
          if c = 0 then do { xs \<leftarrow> swap xs (b + lt) (b + i); part_up cmp b xs (i + 1) (lt + 1) j }
          else part_up cmp b xs (i + 1) lt j
        else Some (xs, i, lt)
      } else Some (xs, i, lt))"
  by pat_completeness auto
termination
  by (relation "measure (\<lambda>(cmp, b, xs, i, lt, j). j - i)") auto

declare part_up.simps [simp del]

function part_down :: "('a \<Rightarrow> 'a \<Rightarrow> int) \<Rightarrow> nat \<Rightarrow> 'a list \<Rightarrow> nat \<Rightarrow> nat \<Rightarrow> nat \<Rightarrow>
    ('a list \<times> nat \<times> nat) option" where
  "part_down cmp b xs i gt j =
     (let j1 = j - 1 in
      if i < j1 then do {
        c \<leftarrow> compare cmp xs b (b + j1);
        if c \<le> 0 then
          if c = 0 then do { xs \<leftarrow> swap xs (b + (gt - 1)) (b + j1); part_down cmp b xs i (gt - 1) j1 }
          else part_down cmp b xs i gt j1
        else Some (xs, gt, j1)
      } else Some (xs, gt, j1))"
  by pat_completeness auto
termination
  by (relation "measure (\<lambda>(cmp, b, xs, i, gt, j). j)") auto

declare part_down.simps [simp del]

lemma part_up_le:
  "part_up cmp b xs i lt j = Some (ys, i', lt') \<Longrightarrow> i \<le> i' \<and> i' \<le> max i j \<and> lt \<le> lt'"
proof (induction "j - i" arbitrary: xs i lt rule: less_induct)
  case less
  have "i = i' \<and> lt = lt' \<or> i < j \<and> (\<exists>zs l. lt \<le> l \<and> part_up cmp b zs (i + 1) l j = Some (ys, i', lt'))"
    using less.prems by (subst (asm) part_up.simps) (auto simp: bind_Some_iff split: if_splits intro: le_SucI)
  with less.hyps [of "i + 1"] show ?case by fastforce
qed

lemma part_down_le:
  "part_down cmp b xs i gt j = Some (ys, gt', j') \<Longrightarrow> j' \<le> j - 1 \<and> gt' \<le> gt"
proof (induction j arbitrary: xs gt rule: less_induct)
  case (less j)
  have "j' = j - 1 \<and> gt' = gt \<or> 0 < j \<and> (\<exists>zs g. g \<le> gt \<and> part_down cmp b zs i g (j - 1) = Some (ys, gt', j'))"
    using less.prems by (subst (asm) part_down.simps)
      (auto simp: bind_Some_iff Let_def split: if_splits intro: diff_le_self)
  with less.IH [of "j - 1"] show ?case by fastforce
qed

function part_loop :: "('a \<Rightarrow> 'a \<Rightarrow> int) \<Rightarrow> nat \<Rightarrow> 'a list \<Rightarrow> nat \<Rightarrow> nat \<Rightarrow> nat \<Rightarrow> nat \<Rightarrow>
    ('a list \<times> nat \<times> nat \<times> nat) option" where
  "part_loop cmp b xs i lt gt j = (case part_up cmp b xs i lt j of
     None \<Rightarrow> None
   | Some (xs, i, lt) \<Rightarrow> (case part_down cmp b xs i gt j of
       None \<Rightarrow> None
     | Some (xs, gt, j) \<Rightarrow>
         if i \<ge> j then Some (xs, i, lt, gt)
         else (case swap xs (b + i) (b + j) of
             None \<Rightarrow> None
           | Some xs \<Rightarrow> part_loop cmp b xs (i + 1) lt gt j)))"
  by pat_completeness auto
termination
  by (relation "measure (\<lambda>(cmp, b, xs, i, lt, gt, j). j - i)") (auto dest!: part_up_le part_down_le)

declare part_loop.simps [simp del]

lemma part_loop_le:
  "part_loop cmp b xs i lt gt j = Some (ys, i', lt', gt') \<Longrightarrow> i \<le> i' \<and> i' \<le> max i j \<and> lt \<le> lt' \<and> gt' \<le> gt"
proof (induction cmp b xs i lt gt j rule: part_loop.induct)
  case (1 cmp b xs i lt gt j)
  from "1.prems" obtain xs1 i1 lt1 xs2 gt2 j2 where
    u: "part_up cmp b xs i lt j = Some (xs1, i1, lt1)" and d: "part_down cmp b xs1 i1 gt j = Some (xs2, gt2, j2)"
    and c: "i1 \<ge> j2 \<and> i' = i1 \<and> lt' = lt1 \<and> gt' = gt2 \<or> \<not> j2 \<le> i1 \<and>
      (\<exists>xs3. swap xs2 (b + i1) (b + j2) = Some xs3 \<and> part_loop cmp b xs3 (i1 + 1) lt1 gt2 j2 = Some (ys, i', lt', gt'))"
    by (subst (asm) part_loop.simps) (auto split: option.splits if_splits)
  note le = part_up_le [OF u] part_down_le [OF d]
  from c show ?case
  proof (elim disjE conjE exE)
    fix xs3 assume "\<not> j2 \<le> i1" "swap xs2 (b + i1) (b + j2) = Some xs3"
      "part_loop cmp b xs3 (i1 + 1) lt1 gt2 j2 = Some (ys, i', lt', gt')"
    with "1.IH" [OF u refl refl d refl refl] have "i1 + 1 \<le> i' \<and> i' \<le> max (i1 + 1) j2 \<and> lt1 \<le> lt' \<and> gt' \<le> gt2" by simp
    with le \<open>\<not> j2 \<le> i1\<close> show ?thesis by auto
  qed (use le in auto)
qed

text \<open>The body of the loop on large segments up to the two recursive segments: the pivot is the
  median of three, the elements equal to it are collected at both ends and moved to the middle.
  The result: the array, the number \<open>lt\<close> of smaller elements, the start \<open>gt\<close> of the greater ones.\<close>

definition partition3 :: "('a \<Rightarrow> 'a \<Rightarrow> int) \<Rightarrow> nat \<Rightarrow> nat \<Rightarrow> 'a list \<Rightarrow> ('a list \<times> nat \<times> nat) option" where
  "partition3 cmp b nmemb xs = do {
     let m4 = nmemb div 4;
     m \<leftarrow> med3 cmp xs (b + m4) (b + 2 * m4) (b + 3 * m4);
     xs \<leftarrow> swap xs b m;
     (xs, i, lt, gt) \<leftarrow> part_loop cmp b xs 1 1 nmemb nmemb;
     let span = min lt (i - lt);
     xs \<leftarrow> swap_block xs b (b + i - span) span;
     let span = min (nmemb - gt) (gt - i);
     xs \<leftarrow> swap_block xs (b + i) (b + nmemb - span) span;
     Some (xs, i - lt, nmemb - (gt - i))
   }"

lemma partition3_le:
  assumes "partition3 cmp b n xs = Some (ys, lt, gt)" and "6 < n"
  shows "lt + (n - gt) < n"
proof -
  from assms(1) obtain zs ws i l g where "part_loop cmp b zs 1 1 n n = Some (ws, i, l, g)"
      "lt = i - l" "gt = n - (g - i)"
    by (auto simp: partition3_def Let_def bind_Some_iff)
  with part_loop_le [of cmp b zs 1 1 n n ws i l g] assms(2) show ?thesis by (auto simp: max_def split: if_splits)
qed

text \<open>The local stack of 50 entries (base, count, depth), top first.\<close>

type_synonym frame = "nat \<times> nat \<times> nat"

abbreviation (input) STACK_MAX :: nat where "STACK_MAX \<equiv> 50"

definition push_frame :: "frame \<Rightarrow> frame list \<Rightarrow> frame list option" where
  "push_frame f stack = (if length stack < STACK_MAX then Some (f # stack) else None)"

function rq_inner :: "('a \<Rightarrow> 'a \<Rightarrow> int) \<Rightarrow> nat \<Rightarrow> nat \<Rightarrow> nat \<Rightarrow> frame list \<Rightarrow> 'a list \<Rightarrow>
    ('a list \<times> nat \<times> nat \<times> frame list) option" where
  "rq_inner cmp ptr nmemb depth stack xs =
     (if nmemb > 6 then
        if depth + 1 > 50 then do { xs \<leftarrow> heapsortx cmp ptr nmemb xs; Some (xs, ptr, 0, stack) }
        else do {
          (xs, lt, gt) \<leftarrow> partition3 cmp ptr nmemb xs;
          if lt > nmemb - gt then do {
            stack \<leftarrow> push_frame (ptr, lt, depth + 1) stack;
            rq_inner cmp (ptr + gt) (nmemb - gt) (depth + 1) stack xs
          } else do {
            stack \<leftarrow> push_frame (ptr + gt, nmemb - gt, depth + 1) stack;
            rq_inner cmp ptr lt (depth + 1) stack xs
          }
        }
      else Some (xs, ptr, nmemb, stack))"
  by pat_completeness auto
termination
  by (relation "measure (\<lambda>(cmp, ptr, nmemb, depth, stack, xs). 51 - depth)") auto

declare rq_inner.simps [simp del]

fun insertion_inner :: "('a \<Rightarrow> 'a \<Rightarrow> int) \<Rightarrow> nat \<Rightarrow> nat \<Rightarrow> 'a list \<Rightarrow> 'a list option" where
  "insertion_inner cmp b 0 xs = Some xs"
| "insertion_inner cmp b (Suc j) xs = do {
     c \<leftarrow> compare cmp xs (b + j) (b + Suc j);
     if c > 0 then do { xs \<leftarrow> swap xs (b + Suc j) (b + j); insertion_inner cmp b j xs } else Some xs
   }"

function insertion_loop :: "('a \<Rightarrow> 'a \<Rightarrow> int) \<Rightarrow> nat \<Rightarrow> nat \<Rightarrow> nat \<Rightarrow> 'a list \<Rightarrow> 'a list option" where
  "insertion_loop cmp b i nmemb xs =
     (if i < nmemb then do { xs \<leftarrow> insertion_inner cmp b i xs; insertion_loop cmp b (i + 1) nmemb xs }
      else Some xs)"
  by pat_completeness auto
termination
  by (relation "measure (\<lambda>(cmp, b, i, nmemb, xs). nmemb - i)") auto

declare insertion_loop.simps [simp del]

text \<open>The loop over the stack ends: a segment is replaced by two that are together smaller by at
  least one element (the pivot).\<close>

definition frames_size :: "frame list \<Rightarrow> nat" where
  "frames_size stack = sum_list (map (\<lambda>(b, n, d). 2 * n + 1) stack)"

lemma frames_size_simps [simp]:
  "frames_size [] = 0" "frames_size ((b, n, d) # st) = 2 * n + 1 + frames_size st"
  by (simp_all add: frames_size_def)

lemma rq_inner_size:
  "rq_inner cmp ptr n d st xs = Some (ys, ptr', n', st') \<Longrightarrow>
    frames_size st' + 2 * n' \<le> frames_size st + 2 * n"
proof (induction "51 - d" arbitrary: ptr n d st xs rule: less_induct)
  case less
  consider "n \<le> 6 \<or> d + 1 > 50"
    | zs lt gt p m st1 where "n > 6" "d + 1 \<le> 50" "partition3 cmp ptr n xs = Some (zs, lt, gt)"
      "frames_size st1 = frames_size st + 2 * (lt + (n - gt) - m) + 1" "m \<le> lt + (n - gt)"
      "rq_inner cmp p m (d + 1) st1 zs = Some (ys, ptr', n', st')"
    using less.prems
    by (subst (asm) rq_inner.simps) (fastforce simp: bind_Some_iff push_frame_def split: if_splits)
  then show ?case
  proof cases
    case 1
    then show ?thesis
      using less.prems by (subst (asm) rq_inner.simps) (auto simp: bind_Some_iff split: if_splits)
  next
    case 2
    have "51 - (d + 1) < 51 - d" using 2(2) by simp
    from less.hyps [OF this 2(6)] partition3_le [OF 2(3,1)] 2(4,5) show ?thesis by simp
  qed
qed

function rq_outer :: "('a \<Rightarrow> 'a \<Rightarrow> int) \<Rightarrow> frame list \<Rightarrow> 'a list \<Rightarrow> 'a list option" where
  "rq_outer cmp [] xs = Some xs"
| "rq_outer cmp ((ptr, nmemb, depth) # stack) xs = (case rq_inner cmp ptr nmemb depth stack xs of
     None \<Rightarrow> None
   | Some (xs, ptr, nmemb, stack) \<Rightarrow> (case insertion_loop cmp ptr 1 nmemb xs of
       None \<Rightarrow> None
     | Some xs \<Rightarrow> rq_outer cmp stack xs))"
  by pat_completeness auto
termination
  by (relation "measure (\<lambda>(cmp, stack, xs). frames_size stack)") (auto dest!: rq_inner_size)

text \<open>The element size is positive: the early return for a size of zero has no counterpart here.\<close>

definition rqsort :: "('a \<Rightarrow> 'a \<Rightarrow> int) \<Rightarrow> 'a list \<Rightarrow> 'a list option" where
  "rqsort cmp xs = (if length xs < 2 then Some xs else rq_outer cmp [(0, length xs, 0)] xs)"

section \<open>Permutations inside a segment\<close>

definition seg_perm :: "nat \<Rightarrow> nat \<Rightarrow> 'a list \<Rightarrow> 'a list \<Rightarrow> bool" where
  "seg_perm b n xs ys \<longleftrightarrow> length ys = length xs \<and> take b ys = take b xs \<and>
     drop (b + n) ys = drop (b + n) xs \<and> mset ys = mset xs"

lemma seg_perm_refl [simp, intro]: "seg_perm b n xs xs"
  by (simp add: seg_perm_def)

lemma seg_perm_trans [trans]: "seg_perm b n xs ys \<Longrightarrow> seg_perm b n ys zs \<Longrightarrow> seg_perm b n xs zs"
  by (simp add: seg_perm_def)

lemma seg_perm_length: "seg_perm b n xs ys \<Longrightarrow> length ys = length xs"
  by (simp add: seg_perm_def)

lemma seg_perm_mset: "seg_perm b n xs ys \<Longrightarrow> mset ys = mset xs"
  by (simp add: seg_perm_def)

lemma seg_perm_mono:
  assumes "seg_perm b n xs ys" and "b' \<le> b" and "b + n \<le> b' + n'"
  shows "seg_perm b' n' xs ys"
proof -
  obtain d where d: "b' + n' = d + (b + n)" using assms(3) by (metis add.commute le_Suc_ex)
  have "take b' (take b ys) = take b' (take b xs)" "drop d (drop (b + n) ys) = drop d (drop (b + n) xs)"
    using assms(1) unfolding seg_perm_def by metis+
  then have "take b' ys = take b' xs" "drop (b' + n') ys = drop (b' + n') xs"
    using assms(2) unfolding d by (simp_all add: min_def)
  then show ?thesis using assms(1) by (simp add: seg_perm_def)
qed

lemma seg_perm_outside:
  assumes "seg_perm b n xs ys" and "k < b \<or> b + n \<le> k" and "k < length xs"
  shows "ys ! k = xs ! k"
proof (cases "k < b")
  case True
  then show ?thesis using assms(1) nth_take [of k b ys] nth_take [of k b xs] by (simp add: seg_perm_def)
next
  case False
  then obtain d where "k = b + n + d" using assms(2) by (metis le_Suc_ex)
  then show ?thesis using assms nth_drop [of "b + n" ys d] nth_drop [of "b + n" xs d]
    by (simp add: seg_perm_def)
qed

lemma seg_perm_inside:
  assumes "seg_perm b n xs ys" and "b + n \<le> length xs" and "b \<le> k" and "k < b + n"
  obtains k' where "b \<le> k'" "k' < b + n" "ys ! k = xs ! k'"
proof -
  have split: "mset zs = mset (take b zs) + mset (take n (drop b zs)) + mset (drop (b + n) zs)" for zs :: "'a list"
    by (metis append_take_drop_id drop_drop mset_append add.commute add.assoc)
  have "mset (take b xs) + mset (take n (drop b ys)) + mset (drop (b + n) xs) =
      mset (take b xs) + mset (take n (drop b xs)) + mset (drop (b + n) xs)"
    using split [of xs] split [of ys] assms(1) unfolding seg_perm_def by metis
  then have "mset (take n (drop b ys)) = mset (take n (drop b xs))" by simp
  then have "set (take n (drop b ys)) = set (take n (drop b xs))" by (rule mset_eq_setD)
  moreover have "ys ! k \<in> set (take n (drop b ys))"
    using assms seg_perm_length [OF assms(1)]
    by (auto simp: in_set_conv_nth intro!: exI [of _ "k - b"])
  ultimately obtain d where "d < n" "ys ! k = xs ! (b + d)"
    using assms(2) by (auto simp: in_set_conv_nth)
  with that [of "b + d"] show thesis by simp
qed

lemma swap_seg:
  assumes "b \<le> i" and "i < b + n" and "b \<le> j" and "j < b + n" and "b + n \<le> length xs"
  shows "swap xs i j = Some (xs[i := xs ! j, j := xs ! i]) \<and> seg_perm b n xs (xs[i := xs ! j, j := xs ! i])"
  using assms mset_swap [of j xs i] by (simp add: swap_def seg_perm_def)

lemma compare_in [simp]:
  "i < length xs \<Longrightarrow> j < length xs \<Longrightarrow> compare cmp xs i j = Some (cmp (xs ! i) (xs ! j))"
  by (simp add: compare_def)

section \<open>Partition\<close>

text \<open>The state of the partition: the pivot \<open>p\<close> at the start, then elements equal to it, smaller ones,
  unknown ones, greater ones, equal ones.\<close>

definition pinv :: "('a \<Rightarrow> 'a \<Rightarrow> int) \<Rightarrow> 'a \<Rightarrow> nat \<Rightarrow> nat \<Rightarrow> 'a list \<Rightarrow> nat \<Rightarrow> nat \<Rightarrow> nat \<Rightarrow> nat \<Rightarrow> bool" where
  "pinv cmp p b n xs lt i j gt \<longleftrightarrow> b + n \<le> length xs \<and> xs ! b = p \<and> 1 \<le> lt \<and> lt \<le> i \<and> i \<le> j \<and> j \<le> gt \<and> gt \<le> n \<and>
     (\<forall>k. 1 \<le> k \<and> k < lt \<longrightarrow> cmp p (xs ! (b + k)) = 0) \<and>
     (\<forall>k. lt \<le> k \<and> k < i \<longrightarrow> 0 < cmp p (xs ! (b + k))) \<and>
     (\<forall>k. j \<le> k \<and> k < gt \<longrightarrow> cmp p (xs ! (b + k)) < 0) \<and>
     (\<forall>k. gt \<le> k \<and> k < n \<longrightarrow> cmp p (xs ! (b + k)) = 0)"

lemma part_up_spec:
  assumes "pinv cmp p b n xs lt i j gt"
  shows "\<exists>ys i' lt'. part_up cmp b xs i lt j = Some (ys, i', lt') \<and> seg_perm b n xs ys \<and>
    pinv cmp p b n ys lt' i' j gt \<and> (i' < j \<longrightarrow> cmp p (ys ! (b + i')) < 0)"
  using assms
proof (induction "j - i" arbitrary: xs i lt rule: less_induct)
  case less
  note inv = less.prems [unfolded pinv_def]
  show ?case
  proof (cases "i < j")
    case False
    then show ?thesis using less.prems by (subst part_up.simps) auto
  next
    case ij: True
    let ?c = "cmp p (xs ! (b + i))"
    have c: "compare cmp xs b (b + i) = Some ?c" using inv ij by simp
    have dec: "j - (i + 1) < j - i" using ij by simp
    consider "?c < 0" | (eq) "?c = 0" | (gt) "0 < ?c" by linarith
    then show ?thesis
    proof cases
      case 1
      then show ?thesis using less.prems ij c by (subst part_up.simps) auto
    next
      case eq
      let ?ys = "xs[b + lt := xs ! (b + i), b + i := xs ! (b + lt)]"
      have s: "swap xs (b + lt) (b + i) = Some ?ys" "seg_perm b n xs ?ys"
        using swap_seg [of b "b + lt" n "b + i" xs] inv ij by auto
      have "pinv cmp p b n ?ys (lt + 1) (i + 1) j gt"
        using inv ij eq by (auto simp: pinv_def nth_list_update)
      from less.hyps [OF dec this] obtain zs i' lt' where
        "part_up cmp b ?ys (i + 1) (lt + 1) j = Some (zs, i', lt')" "seg_perm b n ?ys zs"
        "pinv cmp p b n zs lt' i' j gt" "i' < j \<longrightarrow> cmp p (zs ! (b + i')) < 0" by blast
      then show ?thesis using s ij c eq seg_perm_trans by (subst part_up.simps) auto
    next
      case gt
      have "pinv cmp p b n xs lt (i + 1) j gt"
        using inv ij gt by (auto simp: pinv_def less_Suc_eq)
      from less.hyps [OF dec this] ij gt c show ?thesis by (subst part_up.simps) auto
    qed
  qed
qed

lemma part_down_spec:
  assumes "pinv cmp p b n xs lt i j gt" and "i < j \<longrightarrow> cmp p (xs ! (b + i)) < 0"
  shows "\<exists>ys gt' j'. part_down cmp b xs i gt j = Some (ys, gt', j') \<and> seg_perm b n xs ys \<and>
    (if i < j' then pinv cmp p b n ys lt i (j' + 1) gt' \<and> 0 < cmp p (ys ! (b + j')) \<and> cmp p (ys ! (b + i)) < 0
     else pinv cmp p b n ys lt i i gt')"
  using assms
proof (induction j arbitrary: xs gt rule: less_induct)
  case (less j)
  note inv = less.prems(1) [unfolded pinv_def]
  let ?j = "j - 1"
  show ?case
  proof (cases "i < ?j")
    case False
    have "pinv cmp p b n xs lt i i gt"
    proof (cases "i = j")
      case True
      with less.prems(1) show ?thesis by simp
    next
      case ne: False
      have "cmp p (xs ! (b + k)) < 0" if "i \<le> k" "k < gt" for k
        using that inv False ne less.prems(2) by (cases "k = i") auto
      then show ?thesis using inv by (simp add: pinv_def)
    qed
    then show ?thesis using False by (subst part_down.simps) simp
  next
    case True
    then obtain h where h: "j = Suc h" "i < h" by (cases j) auto
    note ij = h(2)
    let ?c = "cmp p (xs ! (b + h))"
    have c: "compare cmp xs b (b + h) = Some ?c" using inv h by simp
    have dec: "h < j" using h by simp
    consider (lt) "?c < 0" | (eq) "?c = 0" | (gt) "0 < ?c" by linarith
    then show ?thesis
    proof cases
      case lt
      have "cmp p (xs ! (b + k)) < 0" if "h \<le> k" "k < gt" for k
        using that inv h lt by (cases "k = h") auto
      then have "pinv cmp p b n xs lt i h gt" using inv h by (simp add: pinv_def)
      from less.IH [OF dec this] less.prems(2) h lt c show ?thesis
        by (subst part_down.simps) (simp add: Let_def)
    next
      case eq
      obtain g where g: "gt = Suc g" "h \<le> g" using inv h by (cases gt) auto
      let ?ys = "xs[b + g := xs ! (b + h), b + h := xs ! (b + g)]"
      have s: "swap xs (b + g) (b + h) = Some ?ys" "seg_perm b n xs ?ys"
        using swap_seg [of b "b + g" n "b + h" xs] inv h g by auto
      have nth: "?ys ! (b + k) = (if k = h then xs ! (b + g) else if k = g then xs ! (b + h)
          else xs ! (b + k))" if "k < n" for k
        using that inv h g by (auto simp: nth_list_update)
      have "pinv cmp p b n ?ys lt i h g"
        unfolding pinv_def using inv h g eq nth by (auto simp: nth_list_update)
      moreover have "cmp p (?ys ! (b + i)) < 0" using nth [of i] inv h g less.prems(2) by simp
      ultimately obtain zs gt' j' where
        z: "part_down cmp b ?ys i g h = Some (zs, gt', j')" "seg_perm b n ?ys zs"
        "if i < j' then pinv cmp p b n zs lt i (j' + 1) gt' \<and> 0 < cmp p (zs ! (b + j')) \<and> cmp p (zs ! (b + i)) < 0
         else pinv cmp p b n zs lt i i gt'" using less.IH [OF dec] by blast
      have "part_down cmp b xs i gt j = part_down cmp b ?ys i g h"
        using s(1) h g c eq by (subst part_down.simps) (simp add: Let_def)
      then show ?thesis using z seg_perm_trans [OF s(2)] by auto
    next
      case gt
      then show ?thesis using less.prems h c
        by (subst part_down.simps) (auto simp: Let_def)
    qed
  qed
qed

lemma part_loop_spec:
  assumes "pinv cmp p b n xs lt i j gt"
  shows "\<exists>ys i' lt' gt'. part_loop cmp b xs i lt gt j = Some (ys, i', lt', gt') \<and> seg_perm b n xs ys \<and>
    pinv cmp p b n ys lt' i' i' gt'"
  using assms
proof (induction "j - i" arbitrary: xs i lt gt j rule: less_induct)
  case less
  from part_up_spec [OF less.prems] obtain xs1 i1 lt1 where
    u: "part_up cmp b xs i lt j = Some (xs1, i1, lt1)" "seg_perm b n xs xs1"
      "pinv cmp p b n xs1 lt1 i1 j gt" "i1 < j \<longrightarrow> cmp p (xs1 ! (b + i1)) < 0" by blast
  from part_down_spec [OF u(3,4)] obtain xs2 gt2 j2 where
    d: "part_down cmp b xs1 i1 gt j = Some (xs2, gt2, j2)" "seg_perm b n xs1 xs2"
    "if i1 < j2 then pinv cmp p b n xs2 lt1 i1 (j2 + 1) gt2 \<and> 0 < cmp p (xs2 ! (b + j2)) \<and> cmp p (xs2 ! (b + i1)) < 0
     else pinv cmp p b n xs2 lt1 i1 i1 gt2" by blast
  have perm: "seg_perm b n xs xs2" using u(2) d(2) by (rule seg_perm_trans)
  show ?case
  proof (cases "i1 < j2")
    case False
    then show ?thesis using u(1) d perm by (subst part_loop.simps) simp
  next
    case True
    let ?ys = "xs2[b + i1 := xs2 ! (b + j2), b + j2 := xs2 ! (b + i1)]"
    have inv: "pinv cmp p b n xs2 lt1 i1 (j2 + 1) gt2" "0 < cmp p (xs2 ! (b + j2))" "cmp p (xs2 ! (b + i1)) < 0"
      using d(3) True by simp_all
    note iv = inv(1) [unfolded pinv_def]
    have s: "swap xs2 (b + i1) (b + j2) = Some ?ys" "seg_perm b n xs2 ?ys"
      using swap_seg [of b "b + i1" n "b + j2" xs2] iv True by auto
    have nth: "?ys ! (b + k) = (if k = j2 then xs2 ! (b + i1) else if k = i1 then xs2 ! (b + j2)
        else xs2 ! (b + k))" if "k < n" for k
      using that iv True by (auto simp: nth_list_update)
    have nx: "pinv cmp p b n ?ys lt1 (i1 + 1) j2 gt2"
      unfolding pinv_def using iv inv(2,3) True nth by (auto simp: nth_list_update less_Suc_eq)
    have "i \<le> i1" "j2 \<le> j - 1" using part_up_le [OF u(1)] part_down_le [OF d(1)] by simp_all
    then have "j2 - (i1 + 1) < j - i" using True by simp
    from less.hyps [OF this nx] obtain zs i' lt' gt' where
      "part_loop cmp b ?ys (i1 + 1) lt1 gt2 j2 = Some (zs, i', lt', gt')" "seg_perm b n ?ys zs"
      "pinv cmp p b n zs lt' i' i' gt'" by blast
    moreover have "part_loop cmp b xs i lt gt j = part_loop cmp b ?ys (i1 + 1) lt1 gt2 j2"
      using u(1) d(1) s(1) True by (subst part_loop.simps) simp
    ultimately show ?thesis using perm s(2) seg_perm_trans by metis
  qed
qed

text \<open>A block exchange, element by element.\<close>

lemma swap_block_spec:
  assumes "i + k \<le> j" and "j + k \<le> b + n" and "b \<le> i" and "b + n \<le> length xs"
  shows "\<exists>ys. swap_block xs i j k = Some ys \<and> seg_perm b n xs ys \<and>
    (\<forall>m < length xs. ys ! m = xs ! (if i \<le> m \<and> m < i + k then m - i + j
       else if j \<le> m \<and> m < j + k then m - j + i else m))"
  using assms
proof (induction k arbitrary: i j xs)
  case (Suc k)
  let ?ys = "xs[i := xs ! j, j := xs ! i]"
  have s: "swap xs i j = Some ?ys" "seg_perm b n xs ?ys"
    using swap_seg [of b i n j xs] Suc.prems by auto
  from Suc.IH [of "Suc i" "Suc j" ?ys] Suc.prems obtain zs where
    z: "swap_block ?ys (Suc i) (Suc j) k = Some zs" "seg_perm b n ?ys zs"
      "\<forall>m < length xs. zs ! m = ?ys ! (if Suc i \<le> m \<and> m < Suc i + k then m - Suc i + Suc j
        else if Suc j \<le> m \<and> m < Suc j + k then m - Suc j + Suc i else m)" by auto
  have "zs ! m = xs ! (if i \<le> m \<and> m < i + Suc k then m - i + j
       else if j \<le> m \<and> m < j + Suc k then m - j + i else m)" if "m < length xs" for m
  proof -
    have lt: "i < j" "j < length xs" using Suc.prems by auto
    consider "m = i" | "Suc i \<le> m" "m < Suc i + k" | "m = j" | "Suc j \<le> m" "m < Suc j + k"
      | "m < i \<or> Suc i + k \<le> m" "m < j \<or> Suc j + k \<le> m" by linarith
    then show ?thesis
    proof cases
      case 2
      then obtain d where "m = Suc i + d" by (metis le_Suc_ex)
      then show ?thesis using z(3) that lt 2 Suc.prems by (simp add: nth_list_update)
    next
      case 4
      then obtain d where "m = Suc j + d" by (metis le_Suc_ex)
      then show ?thesis using z(3) that lt 4 Suc.prems by (simp add: nth_list_update)
    qed (use z(3) that lt Suc.prems in \<open>auto simp: nth_list_update\<close>)
  qed
  then show ?case using s z seg_perm_trans by (intro exI [of _ zs]) auto
qed auto

lemma med3_in:
  assumes "lo \<le> a" "a < hi" "lo \<le> b" "b < hi" "lo \<le> c" "c < hi" "hi \<le> length xs"
  obtains m where "med3 cmp xs a b c = Some m" "lo \<le> m" "m < hi"
  using assms by (auto simp: med3_def)

lemma partition3_spec:
  assumes "b + n \<le> length xs" and "6 < n"
  shows "\<exists>ys lt gt p. partition3 cmp b n xs = Some (ys, lt, gt) \<and> seg_perm b n xs ys \<and>
    lt < gt \<and> gt \<le> n \<and> (\<forall>k < lt. 0 < cmp p (ys ! (b + k))) \<and>
    (\<forall>k. lt \<le> k \<and> k < gt \<longrightarrow> cmp p (ys ! (b + k)) = 0 \<or> ys ! (b + k) = p) \<and>
    (\<forall>k. gt \<le> k \<and> k < n \<longrightarrow> cmp p (ys ! (b + k)) < 0)"
proof -
  let ?m = "n div 4"
  obtain m where m: "med3 cmp xs (b + ?m) (b + 2 * ?m) (b + 3 * ?m) = Some m" "b \<le> m" "m < b + n"
    by (rule med3_in [of b "b + ?m" "b + n" "b + 2 * ?m" "b + 3 * ?m" xs cmp]) (use assms in auto)
  let ?x0 = "xs[b := xs ! m, m := xs ! b]"
  have s0: "swap xs b m = Some ?x0" "seg_perm b n xs ?x0"
    using swap_seg [of b b n m xs] m assms by auto
  have "pinv cmp (?x0 ! b) b n ?x0 1 1 n n" using assms by (simp add: pinv_def)
  from part_loop_spec [OF this] obtain x1 i lt gt where
    l: "part_loop cmp b ?x0 1 1 n n = Some (x1, i, lt, gt)" "seg_perm b n ?x0 x1"
      "pinv cmp (?x0 ! b) b n x1 lt i i gt" by blast
  let ?p = "?x0 ! b"
  note iv = l(3) [unfolded pinv_def]
  have ord: "1 \<le> lt" "lt \<le> i" "i \<le> gt" "gt \<le> n" and lx: "b + n \<le> length x1" using iv by simp_all
  have eq1: "cmp ?p (x1 ! (b + k)) = 0 \<or> x1 ! (b + k) = ?p" if "k < lt" for k
    using iv that by (cases "k = 0") auto
  define s1 where "s1 = min lt (i - lt)"
  define s2 where "s2 = min (n - gt) (gt - i)"
  have s1: "s1 \<le> lt" "s1 + lt \<le> i" "s1 = lt \<or> s1 + lt = i" using ord by (auto simp: s1_def min_def)
  have s2: "s2 + gt \<le> n" "s2 + i \<le> gt" "s2 + gt = n \<or> s2 + i = gt" using ord by (auto simp: s2_def min_def)
  have bd: "b + s1 \<le> b + i - s1" "b + i - s1 + s1 \<le> b + n" "b + i + s2 \<le> b + n - s2"
    "b + n - s2 + s2 \<le> b + n"
    using ord s1 s2 by simp_all
  obtain x2 where x2: "swap_block x1 b (b + i - s1) s1 = Some x2" "seg_perm b n x1 x2"
    "\<forall>m < length x1. x2 ! m = x1 ! (if b \<le> m \<and> m < b + s1 then m - b + (b + i - s1)
       else if b + i - s1 \<le> m \<and> m < b + i - s1 + s1 then m - (b + i - s1) + b else m)"
    using swap_block_spec [OF bd(1,2) order_refl lx] by blast
  have len: "length x2 = length x1" using x2(2) by (rule seg_perm_length)
  obtain x3 where x3: "swap_block x2 (b + i) (b + n - s2) s2 = Some x3" "seg_perm b n x2 x3"
    "\<forall>m < length x2. x3 ! m = x2 ! (if b + i \<le> m \<and> m < b + i + s2 then m - (b + i) + (b + n - s2)
       else if b + n - s2 \<le> m \<and> m < b + n - s2 + s2 then m - (b + n - s2) + (b + i) else m)"
    using swap_block_spec [OF bd(3,4) le_add1, of x2] lx len by auto
  define fl where "fl k = (if k < s1 then k + (i - s1) else if i - s1 \<le> k \<and> k < i then k - (i - s1) else k)" for k
  define fr where "fr k = (if i \<le> k \<and> k < i + s2 then k - i + (n - s2) else if n - s2 \<le> k then k - (n - s2) + i else k)" for k
  have left: "x2 ! (b + k) = x1 ! (b + fl k)" if "k < n" for k
  proof -
    have "b + k < length x1" using that lx by simp
    note x2(3) [rule_format, OF this]
    moreover have "(if b \<le> b + k \<and> b + k < b + s1 then b + k - b + (b + i - s1)
       else if b + i - s1 \<le> b + k \<and> b + k < b + i - s1 + s1 then b + k - (b + i - s1) + b else b + k) = b + fl k"
      using s1 ord by (auto simp: fl_def)
    ultimately show ?thesis by (simp only:)
  qed
  have right: "x3 ! (b + k) = x2 ! (b + fr k)" if "k < n" for k
  proof -
    have "b + k < length x2" using that lx len by simp
    note x3(3) [rule_format, OF this]
    moreover have "(if b + i \<le> b + k \<and> b + k < b + i + s2 then b + k - (b + i) + (b + n - s2)
       else if b + n - s2 \<le> b + k \<and> b + k < b + n - s2 + s2 then b + k - (b + n - s2) + (b + i) else b + k) =
       b + fr k"
      using s2 ord that by (auto simp: fr_def)
    ultimately show ?thesis by (simp only:)
  qed
  have x2_right: "x2 ! (b + k) = x1 ! (b + k)" if "i \<le> k" "k < n" for k
    using left [OF that(2)] that(1) s1 by (auto simp: fl_def)
  have x3_left: "x3 ! (b + k) = x2 ! (b + k)" if "k < i" for k
    using right [of k] that s2 ord by (auto simp: fr_def)
  have part: "partition3 cmp b n xs = Some (x3, i - lt, n - (gt - i))"
    using m(1) s0(1) l(1) x2(1) x3(1) by (simp add: partition3_def Let_def s1_def s2_def)
  have perm: "seg_perm b n xs x3"
    using s0(2) l(2) x2(2) x3(2) by (blast intro: seg_perm_trans)
  have smaller: "0 < cmp ?p (x3 ! (b + k))" if "k < i - lt" for k
  proof -
    have "lt \<le> fl k" "fl k < i" using that s1 ord by (auto simp: fl_def)
    then show ?thesis using left [of k] x3_left [of k] that iv by auto
  qed
  have mid1: "cmp ?p (x3 ! (b + k)) = 0 \<or> x3 ! (b + k) = ?p" if "i - lt \<le> k" "k < i" for k
  proof -
    have "fl k < lt" using that s1 ord by (auto simp: fl_def)
    then show ?thesis using left [of k] x3_left [of k] that ord eq1 by auto
  qed
  have mid2: "cmp ?p (x3 ! (b + k)) = 0" if "i \<le> k" "k < n - (gt - i)" for k
  proof -
    have "gt \<le> fr k" "fr k < n" using that s2 ord by (auto simp: fr_def)
    then show ?thesis using right [of k] x2_right [of "fr k"] that iv by auto
  qed
  have greater: "cmp ?p (x3 ! (b + k)) < 0" if "n - (gt - i) \<le> k" "k < n" for k
  proof -
    have "i \<le> fr k" "fr k < gt" using that s2 ord by (auto simp: fr_def)
    then show ?thesis using right [of k] x2_right [of "fr k"] that iv by auto
  qed
  have "cmp ?p (x3 ! (b + k)) = 0 \<or> x3 ! (b + k) = ?p" if "i - lt \<le> k" "k < n - (gt - i)" for k
    using mid1 [of k] mid2 [of k] that by (cases "k < i") auto
  moreover have "i - lt < n - (gt - i)" using ord by linarith
  ultimately show ?thesis using part perm smaller greater
    by (intro exI [of _ x3] exI [of _ "i - lt"] exI [of _ "n - (gt - i)"] exI [of _ ?p]) auto
qed

end
