(* ===== verification/RqsortProps.thy ===== *)
theory RqsortProps
  imports Rqsort
begin

text \<open>
  Correctness of the sort: for every comparison function the sort returns, stays inside the array and
  its stack, and permutes the array; for a comparison function that is a total preorder the result is
  sorted.
\<close>

section \<open>Bytes and elements\<close>

lemma split_two_blocks:
  assumes "i + k \<le> j" and "j + k \<le> length xs"
  obtains p x q y r where "xs = p @ x @ q @ y @ r" "length p = i" "length x = k" "length y = k"
    "j = i + k + length q"
proof
  have "drop (i + k) xs = take (j - (i + k)) (drop (i + k) xs) @ take k (drop j xs) @ drop (j + k) xs"
    using assms append_take_drop_id [of "j - (i + k)" "drop (i + k) xs"] append_take_drop_id [of k "drop j xs"]
    by (simp add: add.commute)
  then show "xs = take i xs @ take k (drop i xs) @ take (j - (i + k)) (drop (i + k) xs) @ take k (drop j xs) @
      drop (j + k) xs"
    using append_take_drop_id [of i xs] append_take_drop_id [of k "drop i xs"] by (simp add: add.commute)
qed (use assms in simp_all)

lemma swap_block_swaps:
  assumes "length x = k" and "length y = k"
  shows "swap_block (p @ x @ q @ y @ r) (length p) (length p + k + length q) k = Some (p @ y @ q @ x @ r)"
  using assms
proof (induction k arbitrary: p x q y)
  case (Suc k)
  then obtain a x' b y' where x: "x = a # x'" "length x' = k" and y: "y = b # y'" "length y' = k"
    by (metis length_Suc_conv)
  let ?j = "length p + Suc k + length q"
  have j: "?j = length (p @ x @ q)" using x by simp
  have "(p @ x @ q @ y @ r) ! ?j = b" unfolding j using y by (simp add: nth_append)
  moreover have "(p @ x @ q @ y @ r) ! length p = a" using x by (simp add: nth_append)
  moreover have "(p @ b # x' @ q @ y @ r)[?j := a] = (p @ [b]) @ x' @ (q @ [a]) @ y' @ r"
    unfolding j using x y by (simp add: list_update_append)
  ultimately have "swap (p @ x @ q @ y @ r) (length p) ?j = Some ((p @ [b]) @ x' @ (q @ [a]) @ y' @ r)"
    using x y by (simp add: swap_def list_update_append)
  moreover have "swap_block ((p @ [b]) @ x' @ (q @ [a]) @ y' @ r) (length (p @ [b]))
      (length (p @ [b]) + k + length (q @ [a])) k = Some ((p @ [b]) @ y' @ (q @ [a]) @ x' @ r)"
    by (rule Suc.IH) (use x y in auto)
  ultimately show ?case using x y by simp
qed simp

lemma length_concat_blocks:
  "(\<And>e. e \<in> set xs \<Longrightarrow> length e = es) \<Longrightarrow> length (concat xs) = length xs * es"
  by (induction xs) auto

lemma exchange_loop_blocks:
  assumes es: "\<And>e. e \<in> set xs \<Longrightarrow> length e = es" and w: "w dvd es" and ij: "i + k \<le> j" "j + k \<le> length xs"
  shows "exchange_loop w (concat xs) (i * es) (j * es) (k * es div w) = map_option concat (swap_block xs i j k)"
proof -
  from split_two_blocks [OF ij] obtain p x q y r where
    xs: "xs = p @ x @ q @ y @ r" and l: "length p = i" "length x = k" "length y = k" "j = i + k + length q" .
  have lc: "length (concat p) = i * es" "length (concat x) = k * es" "length (concat y) = k * es"
    "length (concat q) = length q * es"
    using length_concat_blocks [of p es] length_concat_blocks [of x es] length_concat_blocks [of y es]
      length_concat_blocks [of q es] es l by (auto simp: xs)
  have "w * (k * es div w) = k * es" using w by (simp add: dvd_mult_div_cancel)
  then show ?thesis
    using exchange_loop_swaps [of "concat x" w "k * es div w" "concat y" "concat p" "concat q" "concat r"]
      swap_block_swaps [of x k y p q r] l lc by (simp add: xs algebra_simps)
qed

lemma swap_as_block: "swap xs i j = swap_block xs i j 1"
  by (cases "swap xs i j") simp_all

lemma swap_sym: "swap xs i j = swap xs j i"
  by (cases "i = j") (auto simp: swap_def list_update_swap)

lemma exchange_loop_swap:
  assumes es: "\<And>e. e \<in> set xs \<Longrightarrow> length e = es" and w: "w dvd es" and ij: "i < length xs" "j < length xs"
  shows "exchange_loop w (concat xs) (i * es) (j * es) (es div w) = map_option concat (swap xs i j)"
proof -
  have *: "exchange_loop w (concat xs) (i * es) (j * es) (es div w) = map_option concat (swap xs i j)"
    if "i < j" "j < length xs" for i j
    using exchange_loop_blocks [of xs es w i 1 j, OF es w] that unfolding swap_as_block by simp
  consider "i < j" | "j < i" | "i = j" by linarith
  then show ?thesis
  proof cases
    case 2
    have "j * es + w * (es div w) = Suc j * es" using w by (simp add: dvd_mult_div_cancel)
    also have "\<dots> \<le> i * es" using 2 by (intro mult_right_mono) auto
    finally show ?thesis using exchange_loop_sym [of "j * es" w "es div w" "i * es" "concat xs"] * [OF 2 ij(1)]
      by (simp add: swap_sym [of xs i])
  next
    case 3
    have "j * es + w * (es div w) = Suc j * es" using w by (simp add: dvd_mult_div_cancel)
    also have "\<dots> \<le> length (concat xs)"
      using mult_le_mono1 [of "Suc j" "length xs" es] length_concat_blocks [of xs es, OF es] ij by simp
    finally show ?thesis using exchange_loop_same [of "j * es" w "es div w" "concat xs"] ij 3
      by (simp add: swap_def)
  qed (use * ij in simp)
qed

lemma or_128_dvd: "w \<in> {1, 2, 4, 8, 16} \<Longrightarrow> w dvd (n OR 128) \<Longrightarrow> w dvd n" for n w :: nat
proof -
  assume w: "w \<in> {1, 2, 4, 8, 16}" and d: "w dvd (n OR 128)"
  have "\<exists>k \<le> 4. w = 2 ^ k"
    using w by (auto intro: exI [of _ "0::nat"] exI [of _ "1::nat"] exI [of _ "2::nat"] exI [of _ "3::nat"] exI [of _ "4::nat"])
  then obtain k where k: "k \<le> 4" "w = 2 ^ k" by blast
  have "take_bit k (n OR 128) = 0" using d unfolding k(2) take_bit_eq_0_iff .
  then have "take_bit k n OR take_bit k 128 = 0" by (simp only: take_bit_or)
  then have "take_bit k n = 0" by (metis or_eq_0_iff)
  then show ?thesis using k by (simp add: take_bit_eq_0_iff)
qed

text \<open>C35: on the bytes of an array whose elements have \<open>es\<close> bytes each, the exchange function that
  \<open>rqsort\<close> selects from the alignment and the element size exchanges exactly the two elements it is
  called on (whether they are in order, in reverse order or the same), and the block function selected
  with \<open>size | 128\<close> exchanges two disjoint runs of \<open>k\<close> elements: the byte routines refine the exchange of
  elements on which the sort is modelled.\<close>

theorem exchange_func_refines:
  assumes "0 < es" and "\<forall>e \<in> set xs. length e = es" and "i < length xs" and "j < length xs"
    and "a + k \<le> c" and "c + k \<le> length xs"
  shows "exchange_func base es (concat xs) (i * es) (j * es) es = map_option concat (swap xs i j) \<and>
    exchange_func base (es OR 128) (concat xs) (a * es) (c * es) (k * es) =
      map_option concat (swap_block xs a c k)"
proof
  have es: "\<And>e. e \<in> set xs \<Longrightarrow> length e = es" using assms(2) by blast
  obtain w where w: "w \<in> {1, 2, 4, 8, 16}" "w dvd es"
    "(\<forall>m a b k. exchange_func base es m a b k = exchange_loop w m a b (k div w)) \<or>
     w = es \<and> (\<forall>m a b k. exchange_func base es m a b k = exchange_loop w m a b 1)"
    by (rule exchange_func_loop [where n = es and base = base])
  then have "exchange_func base es (concat xs) (i * es) (j * es) es =
      exchange_loop w (concat xs) (i * es) (j * es) (es div w)" using assms(1) by (elim disjE) auto
  then show "exchange_func base es (concat xs) (i * es) (j * es) es = map_option concat (swap xs i j)"
    using exchange_loop_swap [OF es w(2) assms(3,4)] by simp
next
  have es: "\<And>e. e \<in> set xs \<Longrightarrow> length e = es" using assms(2) by blast
  obtain w where w: "w \<in> {1, 2, 4, 8, 16}" "w dvd (es OR 128)"
    "(\<forall>m a b k. exchange_func base (es OR 128) m a b k = exchange_loop w m a b (k div w)) \<or>
     w = (es OR 128) \<and> (\<forall>m a b k. exchange_func base (es OR 128) m a b k = exchange_loop w m a b 1)"
    by (rule exchange_func_loop [where n = "es OR 128" and base = base])
  have "bit (es OR 128) 7" by (simp add: bit_or_iff bit_0)
  moreover have "\<not> bit w 7" using w(1) by auto
  ultimately have "w \<noteq> (es OR 128)" by auto
  with w(3) have "exchange_func base (es OR 128) (concat xs) (a * es) (c * es) (k * es) =
      exchange_loop w (concat xs) (a * es) (c * es) (k * es div w)" by blast
  then show "exchange_func base (es OR 128) (concat xs) (a * es) (c * es) (k * es) =
      map_option concat (swap_block xs a c k)"
    using exchange_loop_blocks [OF es or_128_dvd [OF w(1,2)] assms(5,6)] by simp
qed

theorem exchange_func_refines_witness:
  "exchange_func 6 2 [1, 2, 3, 4, 5, 6, 7, 8] 6 0 2 = Some [7, 8, 3, 4, 5, 6, 1, 2] \<and>
   exchange_func 6 (2 OR 128) [1, 2, 3, 4, 5, 6, 7, 8] 0 4 4 = Some [5, 6, 7, 8, 1, 2, 3, 4]"
  using exchange_func_refines [of 2 "[[1, 2], [3, 4], [5, 6], [7, 8]]" 3 0 0 2 2 6]
  by (simp add: swap_def numeral_eq_Suc)

section \<open>Comparison functions\<close>

locale sort_order =
  fixes cmp :: "'a \<Rightarrow> 'a \<Rightarrow> int"
  assumes sym: "cmp x y < 0 \<longleftrightarrow> 0 < cmp y x"
    and trans: "cmp x y \<le> 0 \<Longrightarrow> cmp y z \<le> 0 \<Longrightarrow> cmp x z \<le> 0"
begin

lemma refl: "cmp x x = 0"
  using sym [of x x] by linarith

lemma gt_le: "0 < cmp x y \<Longrightarrow> cmp y x \<le> 0"
  using sym [of y x] by linarith

lemma eq_le: "cmp x y = 0 \<Longrightarrow> cmp y x \<le> 0"
  using sym [of x y] by linarith

lemma eq_eq: "cmp x y = 0 \<Longrightarrow> cmp x z = 0 \<Longrightarrow> cmp y z = 0"
  using trans [of y x z] trans [of z x y] eq_le [of x y] eq_le [of x z] sym [of y z] by linarith

end

section \<open>Heap sort\<close>

definition child :: "nat \<Rightarrow> nat \<Rightarrow> bool" where
  "child q c \<longleftrightarrow> c = q * 2 + 1 \<or> c = q * 2 + 2"

lemma child_less: "child q c \<Longrightarrow> q < c"
  by (auto simp: child_def)

lemma child_unique: "child q c \<Longrightarrow> child q' c \<Longrightarrow> q = q'"
  by (auto simp: child_def)

text \<open>The order of the heap above node \<open>k\<close>, with a possible exception at node \<open>r\<close>.\<close>

definition heap_at :: "('a \<Rightarrow> 'a \<Rightarrow> int) \<Rightarrow> nat \<Rightarrow> nat \<Rightarrow> nat \<Rightarrow> 'a list \<Rightarrow> bool" where
  "heap_at cmp b n k xs \<longleftrightarrow> (\<forall>q c. k \<le> q \<and> child q c \<and> c < n \<longrightarrow> cmp (xs ! (b + c)) (xs ! (b + q)) \<le> 0)"

definition heap_but :: "('a \<Rightarrow> 'a \<Rightarrow> int) \<Rightarrow> nat \<Rightarrow> nat \<Rightarrow> nat \<Rightarrow> nat \<Rightarrow> 'a list \<Rightarrow> bool" where
  "heap_but cmp b n k r xs \<longleftrightarrow>
     (\<forall>q c. k \<le> q \<and> q \<noteq> r \<and> child q c \<and> c < n \<longrightarrow> cmp (xs ! (b + c)) (xs ! (b + q)) \<le> 0) \<and>
     (\<forall>q c. k \<le> q \<and> child q r \<and> child r c \<and> c < n \<longrightarrow> cmp (xs ! (b + c)) (xs ! (b + q)) \<le> 0)"

text \<open>One step of the sift loop: it stops, or exchanges node \<open>r\<close> with its greater child.\<close>

lemma sift_step:
  assumes "b + n \<le> length xs" and "r * 2 + 1 < n"
  obtains c where "child r c" "c < n"
    "\<And>c'. child r c' \<Longrightarrow> c' < n \<Longrightarrow> c' \<noteq> c \<Longrightarrow> (if c' < c then cmp (xs ! (b + c')) (xs ! (b + c)) \<le> 0
       else 0 < cmp (xs ! (b + c)) (xs ! (b + c')))"
    "sift cmp b r n xs = (if 0 < cmp (xs ! (b + r)) (xs ! (b + c)) then Some xs
       else sift cmp b c n (xs[b + r := xs ! (b + c), b + c := xs ! (b + r)]))"
    "seg_perm b n xs (xs[b + r := xs ! (b + c), b + c := xs ! (b + r)])"
proof -
  let ?c = "if r * 2 + 1 < n - 1 \<and> cmp (xs ! (b + (r * 2 + 1))) (xs ! (b + (r * 2 + 1) + 1)) \<le> 0
    then r * 2 + 2 else r * 2 + 1"
  have c: "child r ?c" "?c < n" using assms(2) by (auto simp: child_def)
  have sw: "swap xs (b + r) (b + ?c) = Some (xs[b + r := xs ! (b + ?c), b + ?c := xs ! (b + r)])"
      "seg_perm b n xs (xs[b + r := xs ! (b + ?c), b + ?c := xs ! (b + r)])"
    using swap_seg [of b "b + r" n "b + ?c" xs] assms c child_less [OF c(1)] by auto
  have "sift cmp b r n xs = (if 0 < cmp (xs ! (b + r)) (xs ! (b + ?c)) then Some xs
       else sift cmp b ?c n (xs[b + r := xs ! (b + ?c), b + ?c := xs ! (b + r)]))"
    using assms sw(1) by (subst sift.simps) (auto simp: Let_def)
  then show thesis using c sw(2) assms
    by (intro that [of ?c]) (auto simp: child_def split: if_splits)
qed

lemma sift_seg:
  assumes "b + n \<le> length xs"
  shows "\<exists>ys. sift cmp b r n xs = Some ys \<and> seg_perm b n xs ys"
  using assms
proof (induction "n - r" arbitrary: r xs rule: less_induct)
  case less
  show ?case
  proof (cases "r * 2 + 1 < n")
    case False
    then show ?thesis by (subst sift.simps) simp
  next
    case True
    with less.prems obtain c where c: "child r c" "c < n"
      "sift cmp b r n xs = (if 0 < cmp (xs ! (b + r)) (xs ! (b + c)) then Some xs
       else sift cmp b c n (xs[b + r := xs ! (b + c), b + c := xs ! (b + r)]))"
      "seg_perm b n xs (xs[b + r := xs ! (b + c), b + c := xs ! (b + r)])"
      by (rule sift_step [where cmp = cmp]) blast
    have "n - c < n - r" using child_less [OF c(1)] c(2) by simp
    from less.hyps [OF this, of "xs[b + r := xs ! (b + c), b + c := xs ! (b + r)]"] less.prems c(3,4)
    show ?thesis using seg_perm_trans by fastforce
  qed
qed

lemma heapify_seg:
  assumes "b + n \<le> length xs"
  shows "\<exists>ys. heapify cmp b n i xs = Some ys \<and> seg_perm b n xs ys"
  using assms
proof (induction i arbitrary: xs)
  case (Suc i)
  from sift_seg [OF Suc.prems, of cmp i] obtain ys where y: "sift cmp b i n xs = Some ys" "seg_perm b n xs ys"
    by blast
  from Suc.IH [of ys] Suc.prems y show ?case using seg_perm_trans seg_perm_length by fastforce
qed simp

lemma extract_seg:
  assumes "b + Suc i \<le> length xs"
  shows "\<exists>ys. extract_loop cmp b i xs = Some ys \<and> seg_perm b (Suc i) xs ys"
  using assms
proof (induction i arbitrary: xs)
  case (Suc i)
  let ?x = "xs[b := xs ! (b + Suc i), b + Suc i := xs ! b]"
  have s: "swap xs b (b + Suc i) = Some ?x" "seg_perm b (Suc (Suc i)) xs ?x"
    using swap_seg [of b b "Suc (Suc i)" "b + Suc i" xs] Suc.prems by auto
  from sift_seg [of b "Suc i" ?x cmp 0] Suc.prems obtain y where
    y: "sift cmp b 0 (Suc i) ?x = Some y" "seg_perm b (Suc i) ?x y" by auto
  have "b + Suc i \<le> length y" using seg_perm_length [OF y(2)] Suc.prems by simp
  from Suc.IH [OF this] obtain z where
    z: "extract_loop cmp b i y = Some z" "seg_perm b (Suc i) y z" by blast
  have "seg_perm b (Suc (Suc i)) ?x z"
    using seg_perm_mono [OF seg_perm_trans [OF y(2) z(2)], of b "Suc (Suc i)"] by simp
  with s y(1) z(1) seg_perm_trans show ?case by fastforce
qed simp

lemma heapsortx_seg:
  assumes "b + n \<le> length xs"
  shows "\<exists>ys. heapsortx cmp b n xs = Some ys \<and> seg_perm b n xs ys"
proof (cases "n > 1")
  case True
  from heapify_seg [OF assms] obtain ys where
    y: "heapify cmp b n (n div 2) xs = Some ys" "seg_perm b n xs ys" by blast
  have "b + Suc (n - 1) \<le> length ys" using seg_perm_length [OF y(2)] assms True by simp
  from extract_seg [OF this, of cmp] True obtain zs where
    z: "extract_loop cmp b (n - 1) ys = Some zs" "seg_perm b n ys zs" by auto
  then show ?thesis using y True seg_perm_trans by (fastforce simp: heapsortx_def)
qed (simp add: heapsortx_def)

context sort_order
begin

lemma sift_heap:
  assumes "b + n \<le> length xs" and "heap_but cmp b n k r xs" and "k \<le> r"
    and "sift cmp b r n xs = Some ys"
  shows "heap_at cmp b n k ys"
  using assms
proof (induction "n - r" arbitrary: r xs rule: less_induct)
  case less
  show ?case
  proof (cases "r * 2 + 1 < n")
    case False
    then have "ys = xs" using less.prems(4) by (subst (asm) sift.simps) simp
    moreover have "\<not> (child r c \<and> c < n)" for c using False by (auto simp: child_def)
    ultimately show ?thesis using less.prems(2) unfolding heap_at_def heap_but_def by metis
  next
    case True
    with less.prems(1) obtain c where c: "child r c" "c < n"
      "\<And>c'. child r c' \<Longrightarrow> c' < n \<Longrightarrow> c' \<noteq> c \<Longrightarrow> (if c' < c then cmp (xs ! (b + c')) (xs ! (b + c)) \<le> 0
         else 0 < cmp (xs ! (b + c)) (xs ! (b + c')))"
      "sift cmp b r n xs = (if 0 < cmp (xs ! (b + r)) (xs ! (b + c)) then Some xs
         else sift cmp b c n (xs[b + r := xs ! (b + c), b + c := xs ! (b + r)]))"
      by (rule sift_step [where cmp = cmp]) blast
    have bigger: "cmp (xs ! (b + c')) (xs ! (b + c)) \<le> 0" if "child r c'" "c' < n" for c'
      using c(3) [OF that] gt_le refl [of "xs ! (b + c)"] by (cases "c' = c") (auto split: if_splits)
    note hb = less.prems(2) [unfolded heap_but_def]
    show ?thesis
    proof (cases "0 < cmp (xs ! (b + r)) (xs ! (b + c))")
      case True
      then have "ys = xs" using c(4) less.prems(4) by simp
      moreover have "cmp (xs ! (b + c')) (xs ! (b + r)) \<le> 0" if "child r c'" "c' < n" for c'
        using trans [OF bigger [OF that] gt_le [OF True]] .
      ultimately show ?thesis using hb unfolding heap_at_def by metis
    next
      case False
      let ?x = "xs[b + r := xs ! (b + c), b + c := xs ! (b + r)]"
      have rc: "r < c" using c(1) by (rule child_less)
      have nth: "?x ! (b + q) = (if q = c then xs ! (b + r) else if q = r then xs ! (b + c) else xs ! (b + q))"
        if "q < n" for q
        using that less.prems(1) c(2) rc by (auto simp: nth_list_update)
      have "heap_but cmp b n k c ?x"
        unfolding heap_but_def
      proof (intro conjI allI impI; elim conjE)
        fix q d assume q: "k \<le> q" "q \<noteq> c" "child q d" "d < n"
        have qd: "q < d" using q(3) by (rule child_less)
        show "cmp (?x ! (b + d)) (?x ! (b + q)) \<le> 0"
        proof (cases "q = r")
          case True
          then show ?thesis using nth [of d] nth [of q] q qd False bigger [of d] by auto
        next
          case ne: False
          then have "d \<noteq> c" using child_unique [OF q(3)] c(1) by auto
          moreover have "cmp (xs ! (b + c)) (xs ! (b + q)) \<le> 0" if "d = r" using hb q that c(1,2) by blast
          moreover have "cmp (xs ! (b + d)) (xs ! (b + q)) \<le> 0" using hb q ne by blast
          ultimately show ?thesis using nth [of d] nth [of q] q qd ne by auto
        qed
      next
        fix q d assume q: "k \<le> q" "child q c" "child c d" "d < n"
        have "q = r" using child_unique [OF q(2) c(1)] .
        moreover have "c < d" using q(3) by (rule child_less)
        moreover have "cmp (xs ! (b + d)) (xs ! (b + c)) \<le> 0" using hb q(3,4) less.prems(3) rc by auto
        ultimately show "cmp (?x ! (b + d)) (?x ! (b + q)) \<le> 0"
          using nth [of d] nth [of r] q(4) rc c(2) by auto
      qed
      moreover have "n - c < n - r" using rc c(2) by simp
      moreover have "sift cmp b c n ?x = Some ys" using c(4) False less.prems(4) by simp
      ultimately show ?thesis using less.hyps [of c ?x] less.prems(1,3) rc by simp
    qed
  qed
qed

lemma heapify_heap:
  assumes "b + n \<le> length xs" and "heap_at cmp b n i xs" and "heapify cmp b n i xs = Some ys"
  shows "heap_at cmp b n 0 ys"
  using assms
proof (induction i arbitrary: xs)
  case (Suc i)
  from Suc.prems(3) obtain zs where z: "sift cmp b i n xs = Some zs" "heapify cmp b n i zs = Some ys"
    by (auto simp: bind_Some_iff)
  have "\<not> (i \<le> q \<and> child q i)" for q using child_less [of q i] by auto
  then have "heap_but cmp b n i i xs"
    using Suc.prems(2) unfolding heap_but_def heap_at_def by (metis Suc_leI le_neq_implies_less)
  from sift_heap [OF Suc.prems(1) this _ z(1)] have "heap_at cmp b n i zs" by simp
  moreover have "length zs = length xs" using sift_seg [OF Suc.prems(1), of cmp i] z(1) seg_perm_length by fastforce
  ultimately show ?case using Suc.IH [of zs] z(2) Suc.prems(1) by simp
qed simp

lemma heap_root:
  assumes "heap_at cmp b n 0 xs" and "i < n"
  shows "cmp (xs ! (b + i)) (xs ! b) \<le> 0"
  using assms(2)
proof (induction i rule: less_induct)
  case (less i)
  show ?case
  proof (cases "i = 0")
    case True
    then show ?thesis using refl [of "xs ! b"] by simp
  next
    case False
    let ?q = "(i - 1) div 2"
    have q: "child ?q i" "?q < i" using False by (auto simp: child_def)
    have "cmp (xs ! (b + i)) (xs ! (b + ?q)) \<le> 0" using assms(1) q less.prems by (simp add: heap_at_def)
    from trans [OF this less.IH] q less.prems show ?thesis by simp
  qed
qed

text \<open>The extraction loop: everything behind position \<open>i\<close> of the segment is in its final place.\<close>

definition placed :: "nat \<Rightarrow> nat \<Rightarrow> nat \<Rightarrow> 'a list \<Rightarrow> bool" where
  "placed b n i xs \<longleftrightarrow> (\<forall>p q. p < q \<and> i < q \<and> q < n \<longrightarrow> cmp (xs ! (b + p)) (xs ! (b + q)) \<le> 0)"

lemma placed_perm:
  assumes "placed b n i xs" and "seg_perm b (Suc i) xs ys" and "b + n \<le> length xs" and "i < n"
  shows "placed b n i ys"
  unfolding placed_def
proof (intro allI impI, elim conjE)
  fix p q assume pq: "p < q" "i < q" "q < n"
  have y: "ys ! (b + q) = xs ! (b + q)"
    using seg_perm_outside [OF assms(2), of "b + q"] pq assms(3) by simp
  show "cmp (ys ! (b + p)) (ys ! (b + q)) \<le> 0"
  proof (cases "i < p")
    case True
    then show ?thesis using seg_perm_outside [OF assms(2), of "b + p"] y pq assms(1,3)
      by (simp add: placed_def)
  next
    case False
    obtain k where "b \<le> k" "k < b + Suc i" "ys ! (b + p) = xs ! k"
      using seg_perm_inside [OF assms(2), of "b + p"] False assms(3,4) by auto
    moreover from this obtain d where "k = b + d" "d \<le> i" by (metis le_Suc_ex less_Suc_eq_le nat_add_left_cancel_less)
    ultimately show ?thesis using y pq assms(1) by (simp add: placed_def)
  qed
qed

lemma extract_sorted:
  assumes "b + n \<le> length xs" and "i < n" and "heap_at cmp b (Suc i) 0 xs" and "placed b n i xs"
    and "extract_loop cmp b i xs = Some ys"
  shows "placed b n 0 ys"
  using assms
proof (induction i arbitrary: xs)
  case (Suc i)
  let ?x = "xs[b := xs ! (b + Suc i), b + Suc i := xs ! b]"
  have s: "swap xs b (b + Suc i) = Some ?x" "seg_perm b (Suc (Suc i)) xs ?x"
    using swap_seg [of b b "Suc (Suc i)" "b + Suc i" xs] Suc.prems(1,2) by auto
  from Suc.prems(5) s(1) obtain y where
    y: "sift cmp b 0 (Suc i) ?x = Some y" "extract_loop cmp b i y = Some ys"
    by (auto simp: bind_Some_iff)
  have len: "length ?x = length xs" by simp
  have yp: "seg_perm b (Suc i) ?x y"
    using sift_seg [of b "Suc i" ?x cmp 0] y(1) Suc.prems(1,2) by auto
  have "placed b n (Suc i) ?x" using placed_perm [OF Suc.prems(4) s(2) Suc.prems(1,2)] .
  moreover have "cmp (?x ! (b + p)) (?x ! (b + Suc i)) \<le> 0" if "p < Suc i" for p
  proof -
    have "?x ! (b + Suc i) = xs ! b" using Suc.prems(1,2) by simp
    moreover have "?x ! (b + p) = xs ! (b + (if p = 0 then Suc i else p))"
      using that Suc.prems(1,2) by (auto simp: nth_list_update)
    ultimately show ?thesis using heap_root [OF Suc.prems(3), of "if p = 0 then Suc i else p"] that by auto
  qed
  ultimately have "placed b n i ?x" unfolding placed_def by (metis Suc_lessI)
  from placed_perm [OF this yp] Suc.prems(1,2) have "placed b n i y" by simp
  moreover have "heap_but cmp b (Suc i) 0 0 ?x"
  proof -
    have "cmp (?x ! (b + c)) (?x ! (b + q)) \<le> 0" if "q \<noteq> 0" "child q c" "c < Suc i" for q c
      using Suc.prems(1-3) that child_less [OF that(2)] by (auto simp: heap_at_def nth_list_update)
    moreover have "\<not> child q 0" for q by (simp add: child_def)
    ultimately show ?thesis unfolding heap_but_def by blast
  qed
  from sift_heap [OF _ this _ y(1)] Suc.prems(1,2) have "heap_at cmp b (Suc i) 0 y" by simp
  moreover have "length y = length xs" using seg_perm_length [OF yp] by simp
  ultimately show ?case using Suc.IH [of y] y(2) Suc.prems(1,2) by simp
qed simp

lemma heapsortx_sorted:
  assumes "b + n \<le> length xs" and "heapsortx cmp b n xs = Some ys" and "p < q" and "q < n"
  shows "cmp (ys ! (b + p)) (ys ! (b + q)) \<le> 0"
proof -
  have n: "n > 1" using assms(3,4) by simp
  from assms(2) n obtain zs where z: "heapify cmp b n (n div 2) xs = Some zs" "extract_loop cmp b (n - 1) zs = Some ys"
    by (auto simp: heapsortx_def bind_Some_iff)
  have "heap_at cmp b n (n div 2) xs" by (auto simp: heap_at_def child_def)
  from heapify_heap [OF assms(1) this z(1)] have "heap_at cmp b n 0 zs" .
  moreover have "length zs = length xs" using heapify_seg [OF assms(1), of cmp "n div 2"] z(1) by (auto simp: seg_perm_def)
  moreover have "placed b n (n - 1) zs" by (auto simp: placed_def)
  ultimately have "placed b n 0 ys"
    using extract_sorted [OF _ _ _ _ z(2), of n] n assms(1) by simp
  then show ?thesis using assms(3,4) by (simp add: placed_def)
qed

end

section \<open>Insertion sort\<close>

lemma insertion_inner_seg:
  assumes "b + Suc j \<le> length xs"
  shows "\<exists>ys. insertion_inner cmp b j xs = Some ys \<and> seg_perm b (Suc j) xs ys"
  using assms
proof (induction j arbitrary: xs)
  case (Suc j)
  let ?x = "xs[b + Suc j := xs ! (b + j), b + j := xs ! (b + Suc j)]"
  have s: "swap xs (b + Suc j) (b + j) = Some ?x" "seg_perm b (Suc (Suc j)) xs ?x"
    using swap_seg [of b "b + Suc j" "Suc (Suc j)" "b + j" xs] Suc.prems by auto
  from Suc.IH [of ?x] Suc.prems obtain y where
    y: "insertion_inner cmp b j ?x = Some y" "seg_perm b (Suc j) ?x y" by auto
  have "seg_perm b (Suc (Suc j)) ?x y" using seg_perm_mono [OF y(2), of b "Suc (Suc j)"] by simp
  with s(2) have "seg_perm b (Suc (Suc j)) xs y" by (rule seg_perm_trans)
  then show ?case using s(1) y(1) Suc.prems by simp
qed simp

lemma insertion_loop_seg:
  assumes "b + n \<le> length xs"
  shows "\<exists>ys. insertion_loop cmp b i n xs = Some ys \<and> seg_perm b n xs ys"
  using assms
proof (induction "n - i" arbitrary: i xs rule: less_induct)
  case less
  show ?case
  proof (cases "i < n")
    case False
    then show ?thesis by (subst insertion_loop.simps) simp
  next
    case True
    from insertion_inner_seg [of b i xs cmp] less.prems True obtain y where
      y: "insertion_inner cmp b i xs = Some y" "seg_perm b (Suc i) xs y" by auto
    have p: "seg_perm b n xs y" using seg_perm_mono [OF y(2), of b n] True by simp
    have dec: "n - (i + 1) < n - i" "b + n \<le> length y" using True less.prems seg_perm_length [OF p] by simp_all
    from less.hyps [OF dec] obtain z where
      "insertion_loop cmp b (i + 1) n y = Some z" "seg_perm b n y z" by blast
    then show ?thesis using y(1) True seg_perm_trans [OF p] by (subst insertion_loop.simps) auto
  qed
qed

context sort_order
begin

definition sorted_to :: "nat \<Rightarrow> nat \<Rightarrow> 'a list \<Rightarrow> bool" where
  "sorted_to b i xs \<longleftrightarrow> (\<forall>p q. p < q \<and> q < i \<longrightarrow> cmp (xs ! (b + p)) (xs ! (b + q)) \<le> 0)"

text \<open>Sorted up to position \<open>i\<close> but for the element at \<open>j\<close>, which is below all that follow it.\<close>

definition sorted_but :: "nat \<Rightarrow> nat \<Rightarrow> nat \<Rightarrow> 'a list \<Rightarrow> bool" where
  "sorted_but b i j xs \<longleftrightarrow>
     (\<forall>p q. p < q \<and> q \<le> i \<and> q \<noteq> j \<longrightarrow> cmp (xs ! (b + p)) (xs ! (b + q)) \<le> 0)"

lemma insertion_inner_sorted:
  assumes "b + Suc i \<le> length xs" and "sorted_but b i j xs" and "j \<le> i"
    and "insertion_inner cmp b j xs = Some ys"
  shows "sorted_to b (Suc i) ys"
  using assms
proof (induction j arbitrary: xs)
  case 0
  then show ?case by (auto simp: sorted_to_def sorted_but_def less_Suc_eq_le)
next
  case (Suc j)
  let ?x = "xs[b + Suc j := xs ! (b + j), b + j := xs ! (b + Suc j)]"
  note sb = Suc.prems(2) [unfolded sorted_but_def]
  have c: "compare cmp xs (b + j) (b + Suc j) = Some (cmp (xs ! (b + j)) (xs ! (b + Suc j)))"
    using Suc.prems(1,3) by simp
  show ?case
  proof (cases "0 < cmp (xs ! (b + j)) (xs ! (b + Suc j))")
    case True
    have "swap xs (b + Suc j) (b + j) = Some ?x" using Suc.prems(1,3) by (simp add: swap_def)
    then have r: "insertion_inner cmp b j ?x = Some ys" using Suc.prems(4) c True by simp
    have nth: "?x ! (b + p) = xs ! (b + (if p = j then Suc j else if p = Suc j then j else p))" if "p \<le> i" for p
      using that Suc.prems(1,3) by (auto simp: nth_list_update)
    have "sorted_but b i j ?x"
      unfolding sorted_but_def
    proof (intro allI impI, elim conjE)
      fix p q assume pq: "p < q" "q \<le> i" "q \<noteq> j"
      consider "p = j" "q = Suc j" | "p \<noteq> j" "q = Suc j" | "q \<noteq> Suc j" by blast
      then show "cmp (?x ! (b + p)) (?x ! (b + q)) \<le> 0"
      proof cases
        case 1
        then show ?thesis using nth [of p] nth [of q] pq gt_le [OF True] by simp
      next
        case 2
        then have "p < j" using pq by simp
        then show ?thesis using 2 nth [of p] nth [of q] pq sb [rule_format, of p j] Suc.prems(3) by simp
      next
        case 3
        then show ?thesis using nth [of p] nth [of q] pq sb by auto
      qed
    qed
    with Suc.IH [of ?x] r Suc.prems(1,3) show ?thesis by simp
  next
    case False
    then have "ys = xs" using Suc.prems(4) c by simp
    moreover have "cmp (xs ! (b + p)) (xs ! (b + Suc j)) \<le> 0" if "p < Suc j" for p
    proof (cases "p = j")
      case True
      then show ?thesis using False by simp
    next
      case ne: False
      then have "cmp (xs ! (b + p)) (xs ! (b + j)) \<le> 0" using sb that Suc.prems(3) by auto
      from trans [OF this] False show ?thesis by simp
    qed
    ultimately show ?thesis using sb unfolding sorted_to_def by (metis less_Suc_eq_le)
  qed
qed

lemma insertion_loop_sorted:
  assumes "b + n \<le> length xs" and "sorted_to b i xs" and "insertion_loop cmp b i n xs = Some ys" and "i \<le> n"
  shows "sorted_to b n ys"
  using assms
proof (induction "n - i" arbitrary: i xs rule: less_induct)
  case less
  show ?case
  proof (cases "i < n")
    case False
    then have "ys = xs" "i = n" using less.prems(3,4) by (subst (asm) insertion_loop.simps, simp_all)
    then show ?thesis using less.prems(2) by simp
  next
    case True
    with less.prems(3) obtain y where
      y: "insertion_inner cmp b i xs = Some y" "insertion_loop cmp b (i + 1) n y = Some ys"
      by (subst (asm) insertion_loop.simps) (auto simp: bind_Some_iff)
    have le: "b + Suc i \<le> length xs" using less.prems(1) True by simp
    have "sorted_but b i i xs" using less.prems(2) by (auto simp: sorted_to_def sorted_but_def)
    from insertion_inner_sorted [OF le this _ y(1)] have "sorted_to b (i + 1) y" by simp
    moreover have "length y = length xs" using insertion_inner_seg [OF le, of cmp] y(1) by (auto simp: seg_perm_def)
    ultimately show ?thesis using less.hyps [of "i + 1" y] y(2) True less.prems(1) by simp
  qed
qed

end

section \<open>Segments\<close>

definition seg_set :: "nat \<times> nat \<Rightarrow> nat set" where
  "seg_set s = {fst s..<fst s + snd s}"

definition disjoint_segs :: "(nat \<times> nat) list \<Rightarrow> bool" where
  "disjoint_segs segs \<longleftrightarrow> sorted_wrt (\<lambda>s t. seg_set s \<inter> seg_set t = {}) segs"

text \<open>Every pair of positions that is not inside one of the segments is in order.\<close>

definition ordered_except :: "('a \<Rightarrow> 'a \<Rightarrow> int) \<Rightarrow> 'a list \<Rightarrow> (nat \<times> nat) list \<Rightarrow> bool" where
  "ordered_except cmp xs segs \<longleftrightarrow> (\<forall>i j. i < j \<and> j < length xs \<longrightarrow>
     (\<exists>s \<in> set segs. i \<in> seg_set s \<and> j \<in> seg_set s) \<or> cmp (xs ! i) (xs ! j) \<le> 0)"

text \<open>Work inside one segment keeps the order between segments, and replaces the segment by the
  parts that are still to be sorted.\<close>

lemma refine_seg:
  assumes ord: "ordered_except cmp xs ((b, n) # segs)" and dis: "disjoint_segs ((b, n) # segs)"
    and perm: "seg_perm b n xs ys" and bn: "b + n \<le> length xs"
    and ins: "\<And>p q. p < q \<Longrightarrow> q < n \<Longrightarrow>
      (\<exists>s \<in> set subs. b + p \<in> seg_set s \<and> b + q \<in> seg_set s) \<or> cmp (ys ! (b + p)) (ys ! (b + q)) \<le> 0"
  shows "ordered_except cmp ys (subs @ segs)"
  unfolding ordered_except_def
proof (intro allI impI, elim conjE)
  fix i j assume ij: "i < j" "j < length ys"
  have len: "length ys = length xs" using perm by (rule seg_perm_length)
  have in_seg: "k \<in> seg_set (b, n) \<longleftrightarrow> b \<le> k \<and> k < b + n" for k by (auto simp: seg_set_def)
  have other: "\<exists>k'. ys ! k = xs ! k' \<and> (k \<in> seg_set (b, n) \<longrightarrow> k' \<in> seg_set (b, n)) \<and>
      (k \<notin> seg_set (b, n) \<longrightarrow> k' = k)" if "k < length xs" for k
  proof (cases "b \<le> k \<and> k < b + n")
    case True
    then show ?thesis using seg_perm_inside [OF perm bn, of k] unfolding in_seg by metis
  next
    case False
    then show ?thesis using seg_perm_outside [OF perm _ that] unfolding in_seg by auto
  qed
  show "(\<exists>s \<in> set (subs @ segs). i \<in> seg_set s \<and> j \<in> seg_set s) \<or> cmp (ys ! i) (ys ! j) \<le> 0"
  proof (cases "i \<in> seg_set (b, n) \<and> j \<in> seg_set (b, n)")
    case True
    then obtain p q where "i = b + p" "j = b + q" "p < q" "q < n"
      unfolding in_seg using ij(1) by (metis le_Suc_ex nat_add_left_cancel_less)
    then show ?thesis using ins [of p q] by auto
  next
    case out: False
    obtain i' where i': "ys ! i = xs ! i'" "i \<in> seg_set (b, n) \<longrightarrow> i' \<in> seg_set (b, n)"
      "i \<notin> seg_set (b, n) \<longrightarrow> i' = i" using other [of i] ij len by auto
    obtain j' where j': "ys ! j = xs ! j'" "j \<in> seg_set (b, n) \<longrightarrow> j' \<in> seg_set (b, n)"
      "j \<notin> seg_set (b, n) \<longrightarrow> j' = j" using other [of j] ij len by auto
    have lt: "i' < j'" using out i'(2,3) j'(2,3) ij(1) unfolding in_seg by (cases "b \<le> i \<and> i < b + n") auto
    have jl: "j' < length xs" using j'(2,3) ij(2) len bn unfolding in_seg by (cases "b \<le> j \<and> j < b + n") auto
    from ord lt jl consider (c) "cmp (xs ! i') (xs ! j') \<le> 0"
      | (s) s where "s \<in> set ((b, n) # segs)" "i' \<in> seg_set s" "j' \<in> seg_set s"
      unfolding ordered_except_def by blast
    then show ?thesis
    proof cases
      case c
      then show ?thesis using i'(1) j'(1) by simp
    next
      case s
      have "s \<noteq> (b, n)" using s(2,3) out i'(2,3) j'(2,3) by blast
      then have "s \<in> set segs" "seg_set (b, n) \<inter> seg_set s = {}" using s(1) dis by (auto simp: disjoint_segs_def)
      then have "i \<notin> seg_set (b, n)" "j \<notin> seg_set (b, n)" using s(2,3) i'(2) j'(2) by blast+
      then show ?thesis using \<open>s \<in> set segs\<close> s(2,3) i'(3) j'(3) by auto
    qed
  qed
qed

lemma disjoint_subs:
  assumes "disjoint_segs ((b, n) # segs)" and "disjoint_segs subs"
    and "\<And>s. s \<in> set subs \<Longrightarrow> seg_set s \<subseteq> seg_set (b, n)"
  shows "disjoint_segs (subs @ segs)"
  using assms unfolding disjoint_segs_def by (fastforce simp: sorted_wrt_append)

section \<open>The stack\<close>

definition frame_seg :: "frame \<Rightarrow> nat \<times> nat" where
  "frame_seg f = (fst f, fst (snd f))"

definition frame_depth :: "frame \<Rightarrow> nat" where
  "frame_depth f = snd (snd f)"

text \<open>The frames lie inside the array, and their depths increase towards the top of the stack and are
  at most \<open>d\<close>: there are at most \<open>d\<close> of them.\<close>

definition frames_ok :: "nat \<Rightarrow> nat \<Rightarrow> frame list \<Rightarrow> bool" where
  "frames_ok len d st \<longleftrightarrow> (\<forall>f \<in> set st. fst (frame_seg f) + snd (frame_seg f) \<le> len \<and>
       1 \<le> frame_depth f \<and> frame_depth f \<le> d) \<and>
     sorted_wrt (\<lambda>f g. frame_depth g < frame_depth f) st"

lemma frames_ok_length:
  assumes "frames_ok len d st"
  shows "length st \<le> d"
proof -
  have "sorted_wrt (\<lambda>f g. g < f) (map frame_depth st)"
    using assms by (simp add: frames_ok_def sorted_wrt_map)
  then have "distinct (map frame_depth st)" by (induction "map frame_depth st" arbitrary: st) fastforce+
  moreover have "set (map frame_depth st) \<subseteq> {1..d}" using assms by (auto simp: frames_ok_def)
  ultimately have "length (map frame_depth st) \<le> card {1..d}"
    by (metis card_mono distinct_card finite_atLeastAtMost)
  then show ?thesis by simp
qed

lemma frames_ok_push:
  assumes "frames_ok len d st" and "b + n \<le> len"
  shows "frames_ok len (Suc d) ((b, n, Suc d) # st)"
  using assms by (auto simp: frames_ok_def frame_seg_def frame_depth_def)

lemma frames_ok_pop:
  assumes "frames_ok len d ((b, n, e) # st)"
  shows "frames_ok len e st" and "e \<le> d" and "b + n \<le> len"
  using assms by (auto simp: frames_ok_def frame_seg_def frame_depth_def intro: less_imp_le)

text \<open>One segment of the work list and the rest.\<close>

definition work_ok :: "('a \<Rightarrow> 'a \<Rightarrow> int) \<Rightarrow> 'a list \<Rightarrow> (nat \<times> nat) list \<Rightarrow> bool" where
  "work_ok cmp xs segs \<longleftrightarrow> disjoint_segs segs \<and> (sort_order cmp \<longrightarrow> ordered_except cmp xs segs)"

lemma work_refine:
  assumes "work_ok cmp xs ((b, n) # segs)" and "seg_perm b n xs ys" and "b + n \<le> length xs"
    and "disjoint_segs subs" and "\<And>s. s \<in> set subs \<Longrightarrow> seg_set s \<subseteq> seg_set (b, n)"
    and "\<And>p q. sort_order cmp \<Longrightarrow> p < q \<Longrightarrow> q < n \<Longrightarrow>
      (\<exists>s \<in> set subs. b + p \<in> seg_set s \<and> b + q \<in> seg_set s) \<or> cmp (ys ! (b + p)) (ys ! (b + q)) \<le> 0"
  shows "work_ok cmp ys (subs @ segs)"
  using assms disjoint_subs [of b n segs subs] refine_seg [of cmp xs b n segs ys subs]
  by (auto simp: work_ok_def)

lemma work_partition:
  assumes w: "work_ok cmp xs ((b, n) # segs)" and bn: "b + n \<le> length xs" and n: "6 < n"
  obtains ys lt gt where "partition3 cmp b n xs = Some (ys, lt, gt)" "seg_perm b n xs ys"
    "lt < gt" "gt \<le> n" "work_ok cmp ys ((b, lt) # (b + gt, n - gt) # segs)"
    "work_ok cmp ys ((b + gt, n - gt) # (b, lt) # segs)"
proof -
  from partition3_spec [OF bn n, of cmp] obtain ys lt gt p where
    y: "partition3 cmp b n xs = Some (ys, lt, gt)" "seg_perm b n xs ys" "lt < gt" "gt \<le> n"
    and sm: "\<And>k. k < lt \<Longrightarrow> 0 < cmp p (ys ! (b + k))"
    and eq: "\<And>k. lt \<le> k \<Longrightarrow> k < gt \<Longrightarrow> cmp p (ys ! (b + k)) = 0 \<or> ys ! (b + k) = p"
    and gr: "\<And>k. gt \<le> k \<Longrightarrow> k < n \<Longrightarrow> cmp p (ys ! (b + k)) < 0" by blast
  have pairs: "(u < lt \<and> v < lt) \<or> (gt \<le> u \<and> v < n) \<or> cmp (ys ! (b + u)) (ys ! (b + v)) \<le> 0"
    if so: "sort_order cmp" and uv: "u < v" "v < n" for u v
  proof -
    have lo: "cmp (ys ! (b + u)) p \<le> 0" if "u < gt"
      using sm [of u] eq [of u] that sort_order.gt_le [OF so] sort_order.eq_le [OF so] sort_order.refl [OF so]
      by (cases "u < lt") auto
    have hi: "cmp p (ys ! (b + v)) \<le> 0" if "lt \<le> v"
      using gr [of v] eq [of v] that uv(2) sort_order.refl [OF so] by (cases "v < gt") auto
    show ?thesis using sort_order.trans [OF so lo hi] uv by (cases "u < gt"; cases "lt \<le> v") auto
  qed
  have sub: "seg_set (b, lt) \<subseteq> seg_set (b, n)" "seg_set (b + gt, n - gt) \<subseteq> seg_set (b, n)"
    "seg_set (b, lt) \<inter> seg_set (b + gt, n - gt) = {}"
    using y(3,4) by (auto simp: seg_set_def)
  have "work_ok cmp ys ([(b, lt), (b + gt, n - gt)] @ segs)" "work_ok cmp ys ([(b + gt, n - gt), (b, lt)] @ segs)"
    using sub y(4) pairs by (intro work_refine [OF w y(2) bn]; fastforce simp: disjoint_segs_def seg_set_def)+
  then show thesis using y by (intro that) auto
qed

lemma rq_inner_spec:
  assumes "work_ok cmp xs ((b, n) # map frame_seg st)" and "b + n \<le> length xs"
    and "frames_ok (length xs) d st" and "d \<le> 50"
  shows "\<exists>ys b' n' st' d'. rq_inner cmp b n d st xs = Some (ys, b', n', st') \<and> mset ys = mset xs \<and>
    b' + n' \<le> length ys \<and> frames_ok (length ys) d' st' \<and> d' \<le> 50 \<and>
    work_ok cmp ys ((b', n') # map frame_seg st')"
  using assms
proof (induction "51 - d" arbitrary: b n d st xs rule: less_induct)
  case less
  consider (small) "n \<le> 6" | (deep) "6 < n" "d = 50" | (split) "6 < n" "d < 50" using less.prems(4) by linarith
  then show ?case
  proof cases
    case small
    then show ?thesis using less.prems by (subst rq_inner.simps) auto
  next
    case deep
    from heapsortx_seg [OF less.prems(2), of cmp] obtain ys where
      y: "heapsortx cmp b n xs = Some ys" "seg_perm b n xs ys" by blast
    have "work_ok cmp ys ([(b, 0)] @ map frame_seg st)"
      using sort_order.heapsortx_sorted [OF _ less.prems(2) y(1)]
      by (intro work_refine [OF less.prems(1) y(2) less.prems(2)]) (auto simp: disjoint_segs_def seg_set_def)
    then show ?thesis
      using y less.prems deep seg_perm_length [OF y(2)] seg_perm_mset [OF y(2)]
      by (subst rq_inner.simps) auto
  next
    case split
    from work_partition [OF less.prems(1,2) split(1)] obtain ys lt gt where
      y: "partition3 cmp b n xs = Some (ys, lt, gt)" "seg_perm b n xs ys" "lt < gt" "gt \<le> n"
        "work_ok cmp ys ((b, lt) # (b + gt, n - gt) # map frame_seg st)"
        "work_ok cmp ys ((b + gt, n - gt) # (b, lt) # map frame_seg st)" by blast
    have len: "length ys = length xs" and ms: "mset ys = mset xs"
      using seg_perm_length [OF y(2)] seg_perm_mset [OF y(2)] .
    have room: "length st < 50" using frames_ok_length [OF less.prems(3)] split(2) by simp
    have dec: "51 - Suc d < 51 - d" using split(2) by simp
    define f where "f = (if lt > n - gt then (b, lt, Suc d) else (b + gt, n - gt, Suc d))"
    define b1 where "b1 = (if lt > n - gt then b + gt else b)"
    define n1 where "n1 = (if lt > n - gt then n - gt else lt)"
    have step: "rq_inner cmp b n d st xs = rq_inner cmp b1 n1 (Suc d) (f # st) ys"
      using y(1) split room by (subst rq_inner.simps) (simp add: push_frame_def f_def b1_def n1_def)
    have "work_ok cmp ys ((b1, n1) # map frame_seg (f # st))"
      using y(5,6) by (simp add: f_def b1_def n1_def frame_seg_def)
    moreover have "b1 + n1 \<le> length ys" using less.prems(2) len y(3,4) by (simp add: b1_def n1_def)
    moreover have "frames_ok (length ys) (Suc d) (f # st)"
      using frames_ok_push [OF less.prems(3)] less.prems(2) len y(3,4) by (simp add: f_def)
    moreover have "Suc d \<le> 50" using split(2) by simp
    ultimately show ?thesis using less.hyps [OF dec, of ys b1 n1 "f # st"] step ms by auto
  qed
qed

lemma rq_outer_spec:
  assumes "work_ok cmp xs (map frame_seg st)" and "frames_ok (length xs) d st \<or> st = [(0, length xs, 0)]"
    and "d \<le> 50"
  shows "\<exists>ys. rq_outer cmp st xs = Some ys \<and> mset ys = mset xs \<and> work_ok cmp ys []"
  using assms
proof (induction "frames_size st" arbitrary: st xs d rule: less_induct)
  case less
  show ?case
  proof (cases st)
    case Nil
    then show ?thesis using less.prems by simp
  next
    case (Cons f st1)
    obtain b n e where f: "f = (b, n, e)" by (cases f)
    have fr: "frames_ok (length xs) e st1" "e \<le> 50" "b + n \<le> length xs"
      using less.prems(2,3) frames_ok_pop [of "length xs" d b n e st1] Cons f
      by (auto simp: frames_ok_def)
    have "work_ok cmp xs ((b, n) # map frame_seg st1)" using less.prems(1) Cons f by (simp add: frame_seg_def)
    from rq_inner_spec [OF this fr(3,1,2)] obtain ys b' n' st' d' where
      y: "rq_inner cmp b n e st1 xs = Some (ys, b', n', st')" "mset ys = mset xs" "b' + n' \<le> length ys"
        "frames_ok (length ys) d' st'" "d' \<le> 50" "work_ok cmp ys ((b', n') # map frame_seg st')" by blast
    from insertion_loop_seg [OF y(3), of cmp 1] obtain zs where
      z: "insertion_loop cmp b' 1 n' ys = Some zs" "seg_perm b' n' ys zs" by blast
    have "work_ok cmp zs ([] @ map frame_seg st')"
    proof (rule work_refine [OF y(6) z(2) y(3)])
      fix p q assume so: "sort_order cmp" and pq: "p < q" "q < n'"
      have "sort_order.sorted_to cmp b' n' zs"
        using sort_order.insertion_loop_sorted [OF so y(3) _ z(1)] pq
        by (simp add: sort_order.sorted_to_def [OF so])
      then show "(\<exists>s \<in> set []. b' + p \<in> seg_set s \<and> b' + q \<in> seg_set s) \<or> cmp (zs ! (b' + p)) (zs ! (b' + q)) \<le> 0"
        using pq by (simp add: sort_order.sorted_to_def [OF so])
    qed (simp_all add: disjoint_segs_def)
    moreover have "frames_size st' < frames_size st" using rq_inner_size [OF y(1)] Cons f by simp
    moreover have "frames_ok (length zs) d' st'" using y(4) seg_perm_length [OF z(2)] by simp
    ultimately obtain ws where "rq_outer cmp st' zs = Some ws" "mset ws = mset zs" "work_ok cmp ws []"
      using less.hyps [of st' zs d'] y(5) by auto
    then show ?thesis using y(1,2) z(1) seg_perm_mset [OF z(2)] Cons f by auto
  qed
qed

section \<open>The sort\<close>

lemma rqsort_spec:
  "\<exists>ys. rqsort cmp xs = Some ys \<and> mset ys = mset xs \<and>
    (sort_order cmp \<longrightarrow> sorted_wrt (\<lambda>x y. cmp x y \<le> 0) ys)"
proof (cases "length xs < 2")
  case True
  then show ?thesis by (cases xs) (auto simp: rqsort_def)
next
  case False
  have "work_ok cmp xs (map frame_seg [(0, length xs, 0)])"
    by (auto simp: work_ok_def disjoint_segs_def ordered_except_def frame_seg_def seg_set_def)
  then obtain ys where ys: "rq_outer cmp [(0, length xs, 0)] xs = Some ys" "mset ys = mset xs" "work_ok cmp ys []"
    using rq_outer_spec [of cmp xs "[(0, length xs, 0)]" 0] by blast
  then show ?thesis using False
    by (auto simp: rqsort_def work_ok_def ordered_except_def sorted_wrt_iff_nth_less)
qed

text \<open>C8: for every comparison function, consistent or not, the sort returns: every access of the quick
  sort, the heap sort and the insertion sort is inside the array, the stack of 50 segments never
  overflows, and the result is a permutation of the array.\<close>

theorem rqsort_safe: "\<exists>ys. rqsort cmp xs = Some ys \<and> mset ys = mset xs"
  using rqsort_spec [of cmp xs] by blast

text \<open>C7: for a comparison function that is a total preorder the sort sorts: no element is followed by
  one that compares smaller.\<close>

theorem rqsort_sorts:
  assumes "\<And>x y. cmp x y < 0 \<longleftrightarrow> 0 < cmp y x"
    and "\<And>x y z. cmp x y \<le> 0 \<Longrightarrow> cmp y z \<le> 0 \<Longrightarrow> cmp x z \<le> 0"
  shows "\<exists>ys. rqsort cmp xs = Some ys \<and> mset ys = mset xs \<and> sorted_wrt (\<lambda>x y. cmp x y \<le> 0) ys"
proof -
  have "sort_order cmp" using assms by unfold_locales blast+
  then show ?thesis using rqsort_spec [of cmp xs] by blast
qed

theorem rqsort_sorts_witness:
  "\<exists>ys. rqsort (\<lambda>x y :: int. x - y) [5, 3, 9, 1, 7, 2, 8, 4, 6, 0] = Some ys \<and>
    mset ys = mset [5, 3, 9, 1, 7, 2, 8, 4, 6, 0] \<and> sorted_wrt (\<lambda>x y. x - y \<le> 0) ys"
  by (rule rqsort_sorts) auto

end
