(* ===== verification/TypedArraySort.thy ===== *)
theory TypedArraySort
  imports Complex_Main RqsortProps "HOL-Library.Product_Lexorder"
begin

text \<open>
  \<open>TypedArray.prototype.sort\<close> of \<open>quickjs.c\<close> on the elements of the array, each a block of bytes: the
  comparison functions of the element types, the comparison through a JavaScript function made stable
  by the positions, and the sort itself.  Floating point numbers are decoded from their bytes.  The
  JavaScript comparison function is a parameter that returns a number; one that throws, or detaches the
  array, is not modelled.
\<close>

section \<open>Numbers\<close>

text \<open>A C double: not a number, an infinity or a finite value, with the sign bit and the magnitude.\<close>

datatype fp = FNan | FInf bool | FFin bool rat

definition isnan :: "fp \<Rightarrow> bool" where
  "isnan x \<longleftrightarrow> x = FNan"

fun signbit :: "fp \<Rightarrow> bool" where
  "signbit FNan = False"
| "signbit (FInf s) = s"
| "signbit (FFin s m) = s"

definition fp_val :: "bool \<Rightarrow> rat \<Rightarrow> rat" where
  "fp_val s m = (if s then - m else m)"

text \<open>The comparisons of C; a comparison with a NaN is false.\<close>

fun fp_less :: "fp \<Rightarrow> fp \<Rightarrow> bool" where
  "fp_less FNan y = False"
| "fp_less x FNan = False"
| "fp_less (FInf s) (FInf t) = (s \<and> \<not> t)"
| "fp_less (FInf s) (FFin t m) = s"
| "fp_less (FFin s m) (FInf t) = (\<not> t)"
| "fp_less (FFin s m) (FFin t n) = (fp_val s m < fp_val t n)"

definition fp_nonzero :: "fp \<Rightarrow> bool" where
  "fp_nonzero x = (case x of FFin s m \<Rightarrow> m \<noteq> 0 | _ \<Rightarrow> True)"

text \<open>The value of the bit pattern \<open>w\<close> with \<open>k\<close> bits of exponent and \<open>m\<close> bits of fraction.\<close>

definition fp_of :: "nat \<Rightarrow> nat \<Rightarrow> nat \<Rightarrow> fp" where
  "fp_of k m w = (let f = w mod 2 ^ m; e = (w div 2 ^ m) mod 2 ^ k; s = odd (w div 2 ^ (m + k));
     scale = 2 ^ (2 ^ (k - 1) - 1 + m) in
     if e = 2 ^ k - 1 then if f = 0 then FInf s else FNan
     else if e = 0 then FFin s (of_nat (2 * f) / of_nat scale)
     else FFin s (of_nat ((2 ^ m + f) * 2 ^ e) / of_nat scale))"

text \<open>Little-endian loads.\<close>

definition ld :: "u8 list \<Rightarrow> nat" where
  "ld b = foldr (\<lambda>x v. unat x + 256 * v) b 0"

definition ld_signed :: "nat \<Rightarrow> u8 list \<Rightarrow> int" where
  "ld_signed w b = (let v = ld (take w b) in if v < 2 ^ (8 * w - 1) then int v else int v - 2 ^ (8 * w))"

definition ld_unsigned :: "nat \<Rightarrow> u8 list \<Rightarrow> int" where
  "ld_unsigned w b = int (ld (take w b))"

definition ld_float :: "u8 list \<Rightarrow> fp" where
  "ld_float b = fp_of 8 23 (ld (take 4 b))"

definition ld_double :: "u8 list \<Rightarrow> fp" where
  "ld_double b = fp_of 11 52 (ld (take 8 b))"

section \<open>Comparison functions\<close>

definition b2i :: "bool \<Rightarrow> int" where
  "b2i c = (if c then 1 else 0)"

definition js_cmp_doubles :: "fp \<Rightarrow> fp \<Rightarrow> int" where
  "js_cmp_doubles x y =
     (if isnan x then if isnan y then 0 else 1
      else if isnan y then -1
      else if fp_less x y then -1
      else if fp_less y x then 1
      else if fp_nonzero x then 0
      else if signbit x then if signbit y then 0 else -1
      else if signbit y then 1 else 0)"

type_synonym cmp_f = "u8 list \<Rightarrow> u8 list \<Rightarrow> int"

definition js_TA_cmp_int8 :: cmp_f where
  "js_TA_cmp_int8 a b = ld_signed 1 a - ld_signed 1 b"

definition js_TA_cmp_uint8 :: cmp_f where
  "js_TA_cmp_uint8 a b = ld_unsigned 1 a - ld_unsigned 1 b"

definition js_TA_cmp_int16 :: cmp_f where
  "js_TA_cmp_int16 a b = ld_signed 2 a - ld_signed 2 b"

definition js_TA_cmp_uint16 :: cmp_f where
  "js_TA_cmp_uint16 a b = ld_unsigned 2 a - ld_unsigned 2 b"

definition js_TA_cmp_int32 :: cmp_f where
  "js_TA_cmp_int32 a b = (let x = ld_signed 4 a; y = ld_signed 4 b in b2i (y < x) - b2i (y > x))"

definition js_TA_cmp_uint32 :: cmp_f where
  "js_TA_cmp_uint32 a b = (let x = ld_unsigned 4 a; y = ld_unsigned 4 b in b2i (y < x) - b2i (y > x))"

definition js_TA_cmp_float32 :: cmp_f where
  "js_TA_cmp_float32 a b = js_cmp_doubles (ld_float a) (ld_float b)"

definition js_TA_cmp_float64 :: cmp_f where
  "js_TA_cmp_float64 a b = js_cmp_doubles (ld_double a) (ld_double b)"

text \<open>A number as a JavaScript value: an integer or a double.\<close>

datatype jsnum = JInt int | JFloat fp

definition JS_NewUint32 :: "int \<Rightarrow> jsnum" where
  "JS_NewUint32 v = (if v \<le> 0x7fffffff then JInt v else JFloat (FFin False (of_int v)))"

definition js_TA_get_int8 :: "u8 list \<Rightarrow> jsnum" where
  "js_TA_get_int8 a = JInt (ld_signed 1 a)"

definition js_TA_get_uint8 :: "u8 list \<Rightarrow> jsnum" where
  "js_TA_get_uint8 a = JInt (ld_unsigned 1 a)"

definition js_TA_get_int16 :: "u8 list \<Rightarrow> jsnum" where
  "js_TA_get_int16 a = JInt (ld_signed 2 a)"

definition js_TA_get_uint16 :: "u8 list \<Rightarrow> jsnum" where
  "js_TA_get_uint16 a = JInt (ld_unsigned 2 a)"

definition js_TA_get_int32 :: "u8 list \<Rightarrow> jsnum" where
  "js_TA_get_int32 a = JInt (ld_signed 4 a)"

definition js_TA_get_uint32 :: "u8 list \<Rightarrow> jsnum" where
  "js_TA_get_uint32 a = JS_NewUint32 (ld_unsigned 4 a)"

definition js_TA_get_float32 :: "u8 list \<Rightarrow> jsnum" where
  "js_TA_get_float32 a = JFloat (ld_float a)"

definition js_TA_get_float64 :: "u8 list \<Rightarrow> jsnum" where
  "js_TA_get_float64 a = JFloat (ld_double a)"

text \<open>The sign of the number a comparison function returns.\<close>

definition num_sign :: "jsnum \<Rightarrow> int" where
  "num_sign r = (case r of
     JInt v \<Rightarrow> b2i (v > 0) - b2i (v < 0)
   | JFloat v \<Rightarrow> b2i (fp_less (FFin False 0) v) - b2i (fp_less v (FFin False 0)))"

definition js_TA_cmp_generic ::
    "(jsnum \<Rightarrow> jsnum \<Rightarrow> jsnum) \<Rightarrow> (u8 list \<Rightarrow> jsnum) \<Rightarrow> u8 list list \<Rightarrow> nat \<Rightarrow> nat \<Rightarrow> int" where
  "js_TA_cmp_generic call getfun array_ptr a_idx b_idx =
     (let res = call (getfun (array_ptr ! a_idx)) (getfun (array_ptr ! b_idx));
          cmp = num_sign res in
      if cmp = 0 then b2i (a_idx > b_idx) - b2i (a_idx < b_idx) else cmp)"

section \<open>The sort\<close>

datatype ta_class = JS_CLASS_UINT8C_ARRAY | JS_CLASS_INT8_ARRAY | JS_CLASS_UINT8_ARRAY
  | JS_CLASS_INT16_ARRAY | JS_CLASS_UINT16_ARRAY | JS_CLASS_INT32_ARRAY | JS_CLASS_UINT32_ARRAY
  | JS_CLASS_FLOAT32_ARRAY | JS_CLASS_FLOAT64_ARRAY

fun getfun :: "ta_class \<Rightarrow> u8 list \<Rightarrow> jsnum" where
  "getfun JS_CLASS_INT8_ARRAY = js_TA_get_int8"
| "getfun JS_CLASS_UINT8C_ARRAY = js_TA_get_uint8"
| "getfun JS_CLASS_UINT8_ARRAY = js_TA_get_uint8"
| "getfun JS_CLASS_INT16_ARRAY = js_TA_get_int16"
| "getfun JS_CLASS_UINT16_ARRAY = js_TA_get_uint16"
| "getfun JS_CLASS_INT32_ARRAY = js_TA_get_int32"
| "getfun JS_CLASS_UINT32_ARRAY = js_TA_get_uint32"
| "getfun JS_CLASS_FLOAT32_ARRAY = js_TA_get_float32"
| "getfun JS_CLASS_FLOAT64_ARRAY = js_TA_get_float64"

fun cmpfun :: "ta_class \<Rightarrow> cmp_f" where
  "cmpfun JS_CLASS_INT8_ARRAY = js_TA_cmp_int8"
| "cmpfun JS_CLASS_UINT8C_ARRAY = js_TA_cmp_uint8"
| "cmpfun JS_CLASS_UINT8_ARRAY = js_TA_cmp_uint8"
| "cmpfun JS_CLASS_INT16_ARRAY = js_TA_cmp_int16"
| "cmpfun JS_CLASS_UINT16_ARRAY = js_TA_cmp_uint16"
| "cmpfun JS_CLASS_INT32_ARRAY = js_TA_cmp_int32"
| "cmpfun JS_CLASS_UINT32_ARRAY = js_TA_cmp_uint32"
| "cmpfun JS_CLASS_FLOAT32_ARRAY = js_TA_cmp_float32"
| "cmpfun JS_CLASS_FLOAT64_ARRAY = js_TA_cmp_float64"

text \<open>The loop that moves the elements to their places, reading from the copy.\<close>

fun place_loop :: "u8 list list \<Rightarrow> nat list \<Rightarrow> nat \<Rightarrow> u8 list list \<Rightarrow> u8 list list option" where
  "place_loop array_tmp [] i array_ptr = Some array_ptr"
| "place_loop array_tmp (j # array_idx) i array_ptr = do {
     e \<leftarrow> rd array_tmp j;
     array_ptr \<leftarrow> wr array_ptr i e;
     place_loop array_tmp array_idx (Suc i) array_ptr
   }"

definition js_typed_array_sort ::
    "ta_class \<Rightarrow> (jsnum \<Rightarrow> jsnum \<Rightarrow> jsnum) option \<Rightarrow> u8 list list \<Rightarrow> u8 list list option" where
  "js_typed_array_sort class_id comparefn array_ptr = (let len = length array_ptr in
     if len > 1 then
       case comparefn of
         Some call \<Rightarrow> do {
           array_idx \<leftarrow> rqsort (js_TA_cmp_generic call (getfun class_id) array_ptr) [0..<len];
           place_loop array_ptr array_idx 0 array_ptr
         }
       | None \<Rightarrow> rqsort (cmpfun class_id) array_ptr
     else Some array_ptr)"

section \<open>Order of the elements\<close>

text \<open>The numeric order of ECMAScript as a lexicographic rank: minus infinity, the finite numbers by
  value with -0 before +0, infinity, NaN.\<close>

fun num_rank :: "jsnum \<Rightarrow> int \<times> rat \<times> int" where
  "num_rank (JInt i) = (1, of_int i, 1)"
| "num_rank (JFloat FNan) = (3, 0, 0)"
| "num_rank (JFloat (FInf s)) = (if s then 0 else 2, 0, 0)"
| "num_rank (JFloat (FFin s m)) = (1, fp_val s m, if s \<and> m = 0 then 0 else 1)"

lemma js_cmp_doubles_rank:
  "js_cmp_doubles x y < 0 \<longleftrightarrow> num_rank (JFloat x) < num_rank (JFloat y)"
  "0 < js_cmp_doubles x y \<longleftrightarrow> num_rank (JFloat y) < num_rank (JFloat x)"
  by (cases x; cases y; auto simp: js_cmp_doubles_def isnan_def fp_nonzero_def fp_val_def split: if_splits)+

lemma cmpfun_rank:
  "cmpfun cls a b < 0 \<longleftrightarrow> num_rank (getfun cls a) < num_rank (getfun cls b)"
  "0 < cmpfun cls a b \<longleftrightarrow> num_rank (getfun cls b) < num_rank (getfun cls a)"
  by (cases cls; auto simp: js_TA_cmp_int8_def js_TA_get_int8_def js_TA_cmp_uint8_def js_TA_get_uint8_def
      js_TA_cmp_int16_def js_TA_get_int16_def js_TA_cmp_uint16_def js_TA_get_uint16_def
      js_TA_cmp_int32_def js_TA_get_int32_def js_TA_cmp_uint32_def js_TA_get_uint32_def
      JS_NewUint32_def fp_val_def js_TA_cmp_float32_def js_TA_get_float32_def
      js_TA_cmp_float64_def js_TA_get_float64_def js_cmp_doubles_rank b2i_def Let_def split: if_splits)+

lemma cmpfun_le_rank: "cmpfun cls a b \<le> 0 \<longleftrightarrow> num_rank (getfun cls a) \<le> num_rank (getfun cls b)"
  using cmpfun_rank(2) [of cls a b] by (simp add: not_less [symmetric])

interpretation ta: sort_order "cmpfun cls" for cls
  by unfold_locales (auto simp: cmpfun_rank cmpfun_le_rank)

text \<open>C36: \<open>TypedArray.prototype.sort\<close> without a comparison function permutes the elements of an array of
  any class into ascending numeric order, with -0 before +0 and the NaN values last.\<close>

theorem js_typed_array_sort_ascending:
  "\<exists>ys. js_typed_array_sort cls None xs = Some ys \<and> mset ys = mset xs \<and>
    sorted (map (\<lambda>e. num_rank (getfun cls e)) ys)"
proof (cases "length xs > 1")
  case True
  then show ?thesis
    using rqsort_spec [of "cmpfun cls" xs] ta.sort_order_axioms [of cls]
    by (auto simp: js_typed_array_sort_def sorted_map cmpfun_le_rank)
next
  case False
  then show ?thesis by (cases xs) (auto simp: js_typed_array_sort_def)
qed

lemma place_loop_spec:
  assumes "i + length idx = length xs" and "\<And>j. j \<in> set idx \<Longrightarrow> j < length tmp"
  shows "place_loop tmp idx i xs = Some (take i xs @ map (\<lambda>j. tmp ! j) idx)"
  using assms
proof (induction idx arbitrary: i xs)
  case (Cons j idx)
  then have "place_loop tmp (j # idx) i xs = Some (take (Suc i) (xs[i := tmp ! j]) @ map (\<lambda>j. tmp ! j) idx)"
    using Cons.IH [of "Suc i" "xs[i := tmp ! j]"] by (simp add: rd_def wr_def)
  then show ?case using Cons.prems by (simp add: take_Suc_conv_app_nth)
qed simp

lemma generic_order:
  assumes sym: "\<And>x y. num_sign (call x y) < 0 \<longleftrightarrow> 0 < num_sign (call y x)"
    and trans: "\<And>x y z. num_sign (call x y) \<le> 0 \<Longrightarrow> num_sign (call y z) \<le> 0 \<Longrightarrow> num_sign (call x z) \<le> 0"
  shows "sort_order (js_TA_cmp_generic call get xs)"
proof
  fix a b
  let ?c = "\<lambda>i j. num_sign (call (get (xs ! i)) (get (xs ! j)))"
  have "?c a b = 0 \<longleftrightarrow> ?c b a = 0"
    using sym [of "get (xs ! a)" "get (xs ! b)"] sym [of "get (xs ! b)" "get (xs ! a)"] by linarith
  then show "js_TA_cmp_generic call get xs a b < 0 \<longleftrightarrow> 0 < js_TA_cmp_generic call get xs b a"
    using sym by (simp add: js_TA_cmp_generic_def b2i_def Let_def)
next
  fix a b c
  let ?c = "\<lambda>i j. num_sign (call (get (xs ! i)) (get (xs ! j)))"
  assume *: "js_TA_cmp_generic call get xs a b \<le> 0" "js_TA_cmp_generic call get xs b c \<le> 0"
  then have le: "?c a b \<le> 0" "?c b c \<le> 0" by (auto simp: js_TA_cmp_generic_def Let_def split: if_splits)
  then have ac: "?c a c \<le> 0" by (rule trans)
  have "a \<le> c" if "?c a c = 0"
  proof -
    have ca: "?c c a \<le> 0"
      using that sym [of "get (xs ! a)" "get (xs ! c)"] by linarith
    have "?c b a \<le> 0" "?c c b \<le> 0" using trans [OF le(2) ca] trans [OF ca le(1)] .
    then have "?c a b = 0" "?c b c = 0"
      using le sym [of "get (xs ! a)" "get (xs ! b)"] sym [of "get (xs ! b)" "get (xs ! c)"] by linarith+
    then show ?thesis using * by (auto simp: js_TA_cmp_generic_def b2i_def Let_def split: if_splits)
  qed
  then show "js_TA_cmp_generic call get xs a c \<le> 0"
    using ac by (auto simp: js_TA_cmp_generic_def b2i_def Let_def)
qed

text \<open>Indices of one class of equal elements stay in ascending order.\<close>

lemma stable_filter:
  assumes "mset idx = mset [0..<n]" and "sorted_wrt (\<lambda>i j. Q i \<and> Q j \<longrightarrow> i \<le> j) idx"
  shows "filter Q idx = filter Q [0..<n]"
proof (rule sorted_distinct_set_unique)
  have "sorted_wrt (\<lambda>i j. Q i \<and> Q j \<longrightarrow> i \<le> j) (filter Q idx)"
    using assms(2) by (rule sorted_wrt_filter)
  then show "sorted (filter Q idx)"
    by (rule sorted_wrt_mono_rel [rotated]) simp
  show "distinct (filter Q idx)" using mset_eq_imp_distinct_iff [OF assms(1)] by simp
  show "set (filter Q idx) = set (filter Q [0..<n])" using mset_eq_setD [OF assms(1)] by simp
qed (simp_all add: sorted_wrt_filter)

text \<open>C13: with a comparison function that is a total preorder the sort is stable: the result is a sorted
  permutation of the elements in which elements that compare equal keep their order.\<close>

theorem js_typed_array_sort_stable:
  assumes sym: "\<And>x y. num_sign (call x y) < 0 \<longleftrightarrow> 0 < num_sign (call y x)"
    and trans: "\<And>x y z. num_sign (call x y) \<le> 0 \<Longrightarrow> num_sign (call y z) \<le> 0 \<Longrightarrow> num_sign (call x z) \<le> 0"
    and c: "c = (\<lambda>x y. num_sign (call (getfun cls x) (getfun cls y)))"
  shows "\<exists>ys. js_typed_array_sort cls (Some call) xs = Some ys \<and> mset ys = mset xs \<and>
    sorted_wrt (\<lambda>x y. c x y \<le> 0) ys \<and> (\<forall>x. filter (\<lambda>y. c x y = 0) ys = filter (\<lambda>y. c x y = 0) xs)"
proof (cases "length xs > 1")
  case True
  let ?g = "js_TA_cmp_generic call (getfun cls) xs"
  have "sort_order ?g" using sym trans by (rule generic_order)
  with rqsort_spec [of ?g "[0..<length xs]"] obtain idx where
    i: "rqsort ?g [0..<length xs] = Some idx" "mset idx = mset [0..<length xs]"
      "sorted_wrt (\<lambda>a b. ?g a b \<le> 0) idx" by blast
  let ?ys = "map (\<lambda>j. xs ! j) idx"
  have "set idx = {0..<length xs}" using mset_eq_setD [OF i(2)] by simp
  then have "js_typed_array_sort cls (Some call) xs = Some ?ys"
    using True i(1) mset_eq_length [OF i(2)] place_loop_spec [of 0 idx xs xs]
    by (simp add: js_typed_array_sort_def)
  moreover have "mset ?ys = mset xs"
    using mset_map [of "\<lambda>j. xs ! j" "[0..<length xs]"] by (simp only: mset_map i(2) map_nth)
  moreover have "sorted_wrt (\<lambda>x y. c x y \<le> 0) ?ys"
    unfolding sorted_wrt_map c using i(3)
    by (rule sorted_wrt_mono_rel [rotated]) (auto simp: js_TA_cmp_generic_def Let_def split: if_splits)
  moreover have "filter (\<lambda>y. c x y = 0) ?ys = filter (\<lambda>y. c x y = 0) xs" for x
  proof -
    let ?Q = "\<lambda>j. c x (xs ! j) = 0"
    have "sort_order c" unfolding c using sym trans by unfold_locales
    then have "c (xs ! a) (xs ! b) = 0" if "?Q a" "?Q b" for a b using that by (rule sort_order.eq_eq)
    then have pos: "a \<le> b" if "?g a b \<le> 0" "?Q a" "?Q b" for a b
      using that(1) that(2,3) by (simp add: c js_TA_cmp_generic_def b2i_def Let_def split: if_splits)
    have "sorted_wrt (\<lambda>a b. ?Q a \<and> ?Q b \<longrightarrow> a \<le> b) idx"
      using i(3) by (rule sorted_wrt_mono_rel [rotated]) (use pos in blast)
    from stable_filter [OF i(2) this]
    have "filter (\<lambda>y. c x y = 0) ?ys = filter (\<lambda>y. c x y = 0) (map (\<lambda>j. xs ! j) [0..<length xs])"
      by (simp only: filter_map comp_def)
    then show ?thesis by (simp only: map_nth)
  qed
  ultimately show ?thesis by blast
next
  case False
  then show ?thesis by (cases xs) (auto simp: js_typed_array_sort_def)
qed

theorem js_typed_array_sort_stable_witness:
  "\<exists>ys. js_typed_array_sort JS_CLASS_UINT8_ARRAY
      (Some (\<lambda>x y. case (x, y) of (JInt i, JInt j) \<Rightarrow> JInt (i div 2 - j div 2) | (JInt i, JFloat v) \<Rightarrow> JInt (-1)
        | (JFloat u, JInt j) \<Rightarrow> JInt 1 | (JFloat u, JFloat v) \<Rightarrow> JInt 0)) [[3], [1], [2]] = Some ys \<and>
    mset ys = mset [[3], [1], [2]] \<and> filter (\<lambda>e. e \<noteq> [1]) ys = [[3], [2]]"
proof -
  let ?f = "\<lambda>x y. case (x, y) of (JInt i, JInt j) \<Rightarrow> JInt (i div 2 - j div 2) | (JInt i, JFloat v) \<Rightarrow> JInt (-1)
    | (JFloat u, JInt j) \<Rightarrow> JInt 1 | (JFloat u, JFloat v) \<Rightarrow> JInt 0"
  let ?c = "\<lambda>x y. num_sign (?f (getfun JS_CLASS_UINT8_ARRAY x) (getfun JS_CLASS_UINT8_ARRAY y))"
  have eq: "?c [3] e = 0 \<longleftrightarrow> e \<noteq> [1]" if "e \<in> set [[3], [1], [2]]" for e
    using that by (auto simp: num_sign_def b2i_def js_TA_get_uint8_def ld_unsigned_def ld_def)
  have sym: "num_sign (?f x y) < 0 \<longleftrightarrow> 0 < num_sign (?f y x)" for x y
    by (cases x; cases y) (simp_all add: num_sign_def b2i_def)
  have trans: "num_sign (?f x y) \<le> 0 \<Longrightarrow> num_sign (?f y z) \<le> 0 \<Longrightarrow> num_sign (?f x z) \<le> 0" for x y z
    by (cases x; cases y; cases z) (simp_all add: num_sign_def b2i_def split: if_splits)
  have "\<exists>ys. js_typed_array_sort JS_CLASS_UINT8_ARRAY (Some ?f) [[3], [1], [2]] = Some ys \<and>
      mset ys = mset [[3], [1], [2]] \<and> sorted_wrt (\<lambda>x y. ?c x y \<le> 0) ys \<and>
      (\<forall>x. filter (\<lambda>y. ?c x y = 0) ys = filter (\<lambda>y. ?c x y = 0) [[3], [1], [2]])"
    using sym trans refl by (rule js_typed_array_sort_stable)
  then obtain ys where ys: "js_typed_array_sort JS_CLASS_UINT8_ARRAY (Some ?f) [[3], [1], [2]] = Some ys"
    "mset ys = mset [[3], [1], [2]]" "filter (\<lambda>y. ?c [3] y = 0) ys = filter (\<lambda>y. ?c [3] y = 0) [[3], [1], [2]]"
    by blast
  have "filter (\<lambda>e. e \<noteq> [1]) ys = filter (\<lambda>y. ?c [3] y = 0) ys"
    using eq mset_eq_setD [OF ys(2)] by (intro filter_cong) auto
  also have "\<dots> = [[3], [2]]" unfolding ys(3) using eq by simp
  finally show ?thesis using ys(1,2) by blast
qed

end
