(* ===== verification/ListHead.thy ===== *)
theory ListHead
  imports QJS_Prelude
begin

text \<open>
  The circular doubly linked lists of \<open>list.h\<close>.  The memory gives every node (a \<open>struct list_head\<close>) its
  two pointers; \<open>None\<close> is the null pointer.  A ring through a head node represents a list of nodes;
  the operations refine the list operations, and leave every other ring alone.
\<close>

section \<open>Operations\<close>

type_synonym node = nat

record list_mem =
  prev :: "node \<Rightarrow> node option"
  nxt :: "node \<Rightarrow> node option"

definition init_list_head :: "node \<Rightarrow> list_mem \<Rightarrow> list_mem" where
  "init_list_head head m = m\<lparr>prev := (prev m)(head := Some head), nxt := (nxt m)(head := Some head)\<rparr>"

text \<open>The stores in the order of the code.\<close>

definition set_nxt :: "node \<Rightarrow> node option \<Rightarrow> list_mem \<Rightarrow> list_mem" where
  "set_nxt p v m = m\<lparr>nxt := (nxt m)(p := v)\<rparr>"

definition set_prev :: "node \<Rightarrow> node option \<Rightarrow> list_mem \<Rightarrow> list_mem" where
  "set_prev p v m = m\<lparr>prev := (prev m)(p := v)\<rparr>"

definition list_add_between :: "node \<Rightarrow> node \<Rightarrow> node \<Rightarrow> list_mem \<Rightarrow> list_mem" where
  "list_add_between el p n m =
     set_prev n (Some el) (set_nxt el (Some n) (set_prev el (Some p) (set_nxt p (Some el) m)))"

definition list_add :: "node \<Rightarrow> node \<Rightarrow> list_mem \<Rightarrow> list_mem option" where
  "list_add el head m = do { n \<leftarrow> nxt m head; Some (list_add_between el head n m) }"

definition list_add_tail :: "node \<Rightarrow> node \<Rightarrow> list_mem \<Rightarrow> list_mem option" where
  "list_add_tail el head m = do { p \<leftarrow> prev m head; Some (list_add_between el p head m) }"

definition list_del :: "node \<Rightarrow> list_mem \<Rightarrow> list_mem option" where
  "list_del el m = do {
     p \<leftarrow> prev m el;
     n \<leftarrow> nxt m el;
     Some (set_nxt el None (set_prev el None (set_prev n (Some p) (set_nxt p (Some n) m))))
   }"

definition list_empty :: "node \<Rightarrow> list_mem \<Rightarrow> bool" where
  "list_empty el m \<longleftrightarrow> nxt m el = Some el"

text \<open>The loop of \<open>list_for_each\<close> with a body that does not change the links: the nodes it visits.\<close>

fun visit :: "nat \<Rightarrow> (node \<Rightarrow> node option) \<Rightarrow> node \<Rightarrow> node \<Rightarrow> node list option" where
  "visit 0 step head el = None"
| "visit (Suc k) step head el =
     (if el = head then Some []
      else do { n \<leftarrow> step el; els \<leftarrow> visit k step head n; Some (el # els) })"

definition list_for_each :: "nat \<Rightarrow> node \<Rightarrow> list_mem \<Rightarrow> node list option" where
  "list_for_each k head m = do { el \<leftarrow> nxt m head; visit k (nxt m) head el }"

definition list_for_each_prev :: "nat \<Rightarrow> node \<Rightarrow> list_mem \<Rightarrow> node list option" where
  "list_for_each_prev k head m = do { el \<leftarrow> prev m head; visit k (prev m) head el }"

section \<open>Rings\<close>

text \<open>\<open>chain m a xs b\<close>: the pointers lead from \<open>a\<close> through \<open>xs\<close> to \<open>b\<close> and back.\<close>

fun chain :: "list_mem \<Rightarrow> node \<Rightarrow> node list \<Rightarrow> node \<Rightarrow> bool" where
  "chain m a [] b \<longleftrightarrow> nxt m a = Some b \<and> prev m b = Some a"
| "chain m a (x # xs) b \<longleftrightarrow> nxt m a = Some x \<and> prev m x = Some a \<and> chain m x xs b"

definition ring :: "list_mem \<Rightarrow> node \<Rightarrow> node list \<Rightarrow> bool" where
  "ring m head xs \<longleftrightarrow> chain m head xs head \<and> distinct (head # xs)"

lemma chain_append: "chain m a (xs @ x # ys) b \<longleftrightarrow> chain m a xs x \<and> chain m x ys b"
  by (induction xs arbitrary: a) auto

lemma chain_frame:
  assumes "chain m a xs b" and "\<And>x. x \<in> insert a (set xs) \<Longrightarrow> nxt m' x = nxt m x"
    and "\<And>x. x \<in> insert b (set xs) \<Longrightarrow> prev m' x = prev m x"
  shows "chain m' a xs b"
  using assms by (induction xs arbitrary: a) auto

lemma chain_first: "chain m a xs b \<Longrightarrow> nxt m a = Some (hd (xs @ [b]))"
  by (cases xs) auto

lemma chain_last: "chain m a xs b \<Longrightarrow> prev m b = Some (last (a # xs))"
  by (induction xs arbitrary: a) auto

lemmas mem_updates = list_add_between_def set_nxt_def set_prev_def

text \<open>Inserting between two neighbours, wherever the head of the ring is.\<close>

lemma ring_insert:
  assumes "ring m h (xs @ ys)" and "el \<notin> set (h # xs @ ys)"
  shows "ring (list_add_between el (last (h # xs)) (hd (ys @ [h])) m) h (xs @ el # ys)"
proof -
  let ?p = "last (h # xs)" and ?n = "hd (ys @ [h])"
  let ?m = "list_add_between el ?p ?n m"
  have d: "distinct (h # xs @ ys)" and c: "chain m h (xs @ ys) h" using assms(1) by (auto simp: ring_def)
  have pn: "?p \<in> insert h (set xs)" "?n \<in> insert h (set ys)" by (auto simp: hd_append)
  have "chain ?m h xs el"
  proof (cases xs rule: rev_cases)
    case Nil
    then show ?thesis using assms(2) pn by (auto simp: mem_updates)
  next
    case (snoc us u)
    have "chain m h us u" using c unfolding snoc by (simp add: chain_append)
    then have "chain ?m h us u"
      by (rule chain_frame) (use snoc d assms(2) pn in \<open>auto simp: mem_updates\<close>)
    then show ?thesis using snoc assms(2) pn by (auto simp: chain_append mem_updates)
  qed
  moreover have "chain ?m el ys h"
  proof (cases ys)
    case Nil
    then show ?thesis using assms(2) by (auto simp: mem_updates)
  next
    case (Cons v vs)
    have "chain m v vs h" using c unfolding Cons by (simp add: chain_append)
    then have "chain ?m v vs h"
      by (rule chain_frame) (use Cons d assms(2) pn in \<open>auto simp: mem_updates\<close>)
    then show ?thesis using Cons assms(2) by (auto simp: mem_updates)
  qed
  ultimately show ?thesis using d assms(2) by (auto simp: ring_def chain_append)
qed

lemma ring_frame:
  assumes "ring m h xs" and "\<And>x. x \<in> set (h # xs) \<Longrightarrow> nxt m' x = nxt m x \<and> prev m' x = prev m x"
  shows "ring m' h xs"
  using assms chain_frame [of m h xs h m'] by (auto simp: ring_def)

lemma list_add_ring:
  assumes "ring m h xs" and "el \<notin> set (h # xs)"
  shows "\<exists>m'. list_add el h m = Some m' \<and> ring m' h (el # xs) \<and>
    (\<forall>g ys. ring m g ys \<and> set (g # ys) \<inter> set (el # h # xs) = {} \<longrightarrow> ring m' g ys)"
proof -
  let ?m = "list_add_between el h (hd (xs @ [h])) m"
  have "nxt m h = Some (hd (xs @ [h]))" using assms(1) chain_first by (auto simp: ring_def)
  then have "list_add el h m = Some ?m" by (simp add: list_add_def)
  moreover have "ring ?m h (el # xs)" using ring_insert [of m h "[]" xs el] assms by simp
  moreover have "ring ?m g ys" if "ring m g ys" "set (g # ys) \<inter> set (el # h # xs) = {}" for g ys
    using that(1) by (rule ring_frame) (use that(2) in \<open>cases xs; auto simp: mem_updates\<close>)
  ultimately show ?thesis by blast
qed

lemma list_add_tail_ring:
  assumes "ring m h xs" and "el \<notin> set (h # xs)"
  shows "\<exists>m'. list_add_tail el h m = Some m' \<and> ring m' h (xs @ [el]) \<and>
    (\<forall>g ys. ring m g ys \<and> set (g # ys) \<inter> set (el # h # xs) = {} \<longrightarrow> ring m' g ys)"
proof -
  let ?m = "list_add_between el (last (h # xs)) h m"
  have "prev m h = Some (last (h # xs))" using assms(1) chain_last by (auto simp: ring_def)
  then have "list_add_tail el h m = Some ?m" by (simp add: list_add_tail_def)
  moreover have "ring ?m h (xs @ [el])" using ring_insert [of m h xs "[]" el] assms by simp
  moreover have "ring ?m g ys" if "ring m g ys" "set (g # ys) \<inter> set (el # h # xs) = {}" for g ys
    using that(1) by (rule ring_frame)
      (use that(2) last_in_set [of "h # xs"] in \<open>auto simp: mem_updates simp del: last.simps\<close>)
  ultimately show ?thesis by blast
qed

lemma list_del_ring:
  assumes "ring m h (xs @ el # ys)"
  shows "\<exists>m'. list_del el m = Some m' \<and> ring m' h (xs @ ys) \<and> nxt m' el = None \<and> prev m' el = None \<and>
    (\<forall>g zs. ring m g zs \<and> set (g # zs) \<inter> set (h # xs @ el # ys) = {} \<longrightarrow> ring m' g zs)"
proof -
  let ?p = "last (h # xs)" and ?n = "hd (ys @ [h])"
  let ?m = "set_nxt el None (set_prev el None (set_prev ?n (Some ?p) (set_nxt ?p (Some ?n) m)))"
  have d: "distinct (h # xs @ el # ys)" and c: "chain m h xs el" "chain m el ys h"
    using assms by (auto simp: ring_def chain_append)
  have pn: "?p \<in> insert h (set xs)" "?n \<in> insert h (set ys)" by (auto simp: hd_append)
  have "list_del el m = Some ?m" using chain_last [OF c(1)] chain_first [OF c(2)] by (simp add: list_del_def)
  moreover have "chain ?m h (xs @ ys) h"
  proof (cases ys)
    case Nil
    then show ?thesis
    proof (cases xs rule: rev_cases)
      case (snoc us u)
      have "chain m h us u" using c(1) unfolding snoc by (simp add: chain_append)
      then have "chain ?m h us u"
        by (rule chain_frame) (use snoc Nil d pn in \<open>auto simp: mem_updates\<close>)
      then show ?thesis using snoc Nil d by (auto simp: chain_append mem_updates)
    qed (use d in \<open>auto simp: mem_updates\<close>)
  next
    case (Cons v vs)
    have "chain m v vs h" using c(2) unfolding Cons by simp
    then have v: "chain ?m v vs h"
      by (rule chain_frame) (use Cons d pn in \<open>auto simp: mem_updates\<close>)
    have "chain ?m h xs v"
    proof (cases xs rule: rev_cases)
      case (snoc us u)
      have "chain m h us u" using c(1) unfolding snoc by (simp add: chain_append)
      then have "chain ?m h us u"
        by (rule chain_frame) (use snoc Cons d pn in \<open>auto simp: mem_updates\<close>)
      then show ?thesis using snoc Cons d by (auto simp: chain_append mem_updates)
    qed (use Cons d in \<open>auto simp: mem_updates\<close>)
    then show ?thesis using v Cons by (simp add: chain_append)
  qed
  moreover have "ring ?m g zs" if "ring m g zs" "set (g # zs) \<inter> set (h # xs @ el # ys) = {}" for g zs
    using that(1) by (rule ring_frame) (use that(2) pn in \<open>auto simp: mem_updates simp del: last.simps\<close>)
  moreover have "nxt ?m el = None" "prev ?m el = None" by (simp_all add: mem_updates)
  ultimately show ?thesis using d by (intro exI [of _ ?m]) (auto simp: ring_def)
qed

lemma visit_chain:
  assumes "chain m a xs h" and "distinct xs" and "h \<notin> set xs" and "length xs < k"
  shows "visit k (nxt m) h (hd (xs @ [h])) = Some xs"
  using assms
proof (induction xs arbitrary: a k)
  case Nil
  then show ?case by (cases k) auto
next
  case (Cons x xs)
  then obtain l where "k = Suc l" by (cases k) auto
  then show ?case using Cons chain_first [of m x xs h] by auto
qed

lemma visit_prev_chain:
  assumes "chain m h xs a" and "distinct xs" and "h \<notin> set xs" and "length xs < k"
  shows "visit k (prev m) h (last (h # xs)) = Some (rev xs)"
  using assms
proof (induction xs arbitrary: a k rule: rev_induct)
  case Nil
  then show ?case by (cases k) auto
next
  case (snoc x xs)
  then obtain l where "k = Suc l" by (cases k) auto
  then show ?case using snoc chain_last [of m h xs x] by (auto simp: chain_append)
qed

section \<open>The interface of the list users\<close>

text \<open>What a user of the lists relies on: \<open>repr m h xs\<close> says that the list at \<open>h\<close> holds the nodes \<open>xs\<close>;
  appending and removing act on that list and keep every list that shares no node with it.\<close>

locale linked_lists =
  fixes repr :: "'m \<Rightarrow> node \<Rightarrow> node list \<Rightarrow> bool"
    and add_tail :: "node \<Rightarrow> node \<Rightarrow> 'm \<Rightarrow> 'm option"
    and del :: "node \<Rightarrow> 'm \<Rightarrow> 'm option"
    and first :: "node \<Rightarrow> 'm \<Rightarrow> node option"
  assumes repr_distinct: "repr m h xs \<Longrightarrow> distinct (h # xs)"
    and repr_first: "repr m h xs \<Longrightarrow> first h m = Some (hd (xs @ [h]))"
    and add_tail_repr: "repr m h xs \<Longrightarrow> el \<notin> set (h # xs) \<Longrightarrow>
      \<exists>m'. add_tail el h m = Some m' \<and> repr m' h (xs @ [el]) \<and>
        (\<forall>g ys. repr m g ys \<and> set (g # ys) \<inter> set (el # h # xs) = {} \<longrightarrow> repr m' g ys)"
    and del_repr: "repr m h (xs @ el # ys) \<Longrightarrow>
      \<exists>m'. del el m = Some m' \<and> repr m' h (xs @ ys) \<and>
        (\<forall>g zs. repr m g zs \<and> set (g # zs) \<inter> set (h # xs @ el # ys) = {} \<longrightarrow> repr m' g zs)"
begin

text \<open>Moving a node to the end of another list.\<close>

lemma move_tail:
  assumes "repr m g (xs @ el # ys)" and "repr m h zs" and "set (g # xs @ el # ys) \<inter> set (h # zs) = {}"
  shows "\<exists>m1 m2. del el m = Some m1 \<and> add_tail el h m1 = Some m2 \<and> repr m2 g (xs @ ys) \<and> repr m2 h (zs @ [el])"
proof -
  from del_repr [OF assms(1)] obtain m1 where
    m1: "del el m = Some m1" "repr m1 g (xs @ ys)" "repr m1 h zs" using assms(2,3) by blast
  have "el \<notin> set (h # zs)" using assms(3) by auto
  from add_tail_repr [OF m1(3) this] obtain m2 where
    m2: "add_tail el h m1 = Some m2" "repr m2 h (zs @ [el])"
      "\<forall>g' ys'. repr m1 g' ys' \<and> set (g' # ys') \<inter> set (el # h # zs) = {} \<longrightarrow> repr m2 g' ys'" by blast
  have "set (g # xs @ ys) \<inter> set (el # h # zs) = {}" using assms(3) repr_distinct [OF assms(1)] by auto
  then show ?thesis using m1 m2 by blast
qed

text \<open>First in, first out: removing the first node of a list.\<close>

lemma pop_first:
  assumes "repr m h (x # xs)"
  shows "first h m = Some x \<and> x \<noteq> h \<and> (\<exists>m'. del x m = Some m' \<and> repr m' h xs)"
  using del_repr [of m h "[]" x xs] repr_first [OF assms] repr_distinct [OF assms] assms by auto

lemma pop_empty: "repr m h [] \<Longrightarrow> first h m = Some h"
  using repr_first by fastforce

end

interpretation rings: linked_lists ring list_add_tail list_del "\<lambda>h m. nxt m h"
proof
  show "ring m h xs \<Longrightarrow> distinct (h # xs)" for m h xs by (simp add: ring_def)
  show "ring m h xs \<Longrightarrow> nxt m h = Some (hd (xs @ [h]))" for m h xs
    using chain_first by (simp add: ring_def)
qed (use list_add_tail_ring list_del_ring in blast)+

text \<open>C15: the operations of \<open>list.h\<close> on a circular list refine the list operations: initialisation gives
  the empty list, insertion puts the node at the front or at the end, deletion removes the node and
  clears its pointers, the emptiness test is right, and both loops visit all nodes, forwards or
  backwards, and stop.\<close>

theorem list_ops_refine:
  "ring (init_list_head h m) h [] \<and>
   (ring m h xs \<longrightarrow>
     (el \<notin> set (h # xs) \<longrightarrow> (\<exists>m'. list_add el h m = Some m' \<and> ring m' h (el # xs)) \<and>
        (\<exists>m'. list_add_tail el h m = Some m' \<and> ring m' h (xs @ [el]))) \<and>
     (el \<in> set xs \<longrightarrow> (\<exists>m'. list_del el m = Some m' \<and> ring m' h (remove1 el xs) \<and>
        nxt m' el = None \<and> prev m' el = None)) \<and>
     (list_empty h m \<longleftrightarrow> xs = []) \<and>
     list_for_each (Suc (length xs)) h m = Some xs \<and>
     list_for_each_prev (Suc (length xs)) h m = Some (rev xs))"
proof (intro conjI impI)
  show "ring (init_list_head h m) h []" by (simp add: ring_def init_list_head_def)
next
  assume r: "ring m h xs"
  then have c: "chain m h xs h" and d: "distinct xs" "h \<notin> set xs" by (auto simp: ring_def)
  show "list_empty h m \<longleftrightarrow> xs = []" using chain_first [OF c] d by (cases xs) (auto simp: list_empty_def)
  show "list_for_each (Suc (length xs)) h m = Some xs"
    using visit_chain [OF c d lessI] chain_first [OF c] by (simp add: list_for_each_def)
  show "list_for_each_prev (Suc (length xs)) h m = Some (rev xs)"
    using visit_prev_chain [OF c d lessI] chain_last [OF c] by (simp add: list_for_each_prev_def)
next
  assume "ring m h xs" "el \<in> set xs"
  moreover from this obtain us vs where "xs = us @ el # vs" by (meson split_list)
  ultimately show "\<exists>m'. list_del el m = Some m' \<and> ring m' h (remove1 el xs) \<and> nxt m' el = None \<and> prev m' el = None"
    using list_del_ring [of m h us el vs] by (auto simp: ring_def remove1_append)
qed (use list_add_ring [of m h xs el] list_add_tail_ring [of m h xs el] in blast)+

theorem list_ops_refine_witness:
  "\<exists>m'. list_del 2 (list_add_between 3 2 0 (list_add_between 2 0 0 (init_list_head 0 \<lparr>prev = \<lambda>_. None, nxt = \<lambda>_. None\<rparr>))) =
    Some m' \<and> ring m' 0 [3]"
  using list_ops_refine [of 0 "list_add_between 3 2 0 (list_add_between 2 0 0 (init_list_head 0 \<lparr>prev = \<lambda>_. None, nxt = \<lambda>_. None\<rparr>))"
      "[2, 3]" 2]
  by (auto simp: ring_def mem_updates init_list_head_def)

text \<open>Removing a node from one list and appending it to another, as the collector does, acts on the two
  lists as on lists.\<close>

theorem list_move_refines:
  assumes "ring m g (xs @ el # ys)" and "ring m h zs" and "set (g # xs @ el # ys) \<inter> set (h # zs) = {}"
  shows "\<exists>m1 m2. list_del el m = Some m1 \<and> list_add_tail el h m1 = Some m2 \<and>
    ring m2 g (xs @ ys) \<and> ring m2 h (zs @ [el])"
  using assms by (rule rings.move_tail)

theorem list_move_refines_witness:
  "\<exists>m1 m2. list_del 2 \<lparr>prev = [0 \<mapsto> 2, 2 \<mapsto> 0, 1 \<mapsto> 1], nxt = [0 \<mapsto> 2, 2 \<mapsto> 0, 1 \<mapsto> 1]\<rparr> = Some m1 \<and>
    list_add_tail 2 1 m1 = Some m2 \<and> ring m2 0 [] \<and> ring m2 1 [2]"
  using list_move_refines [of "\<lparr>prev = [0 \<mapsto> 2, 2 \<mapsto> 0, 1 \<mapsto> 1], nxt = [0 \<mapsto> 2, 2 \<mapsto> 0, 1 \<mapsto> 1]\<rparr>" 0 "[]" 2 "[]" 1 "[]"]
  by (simp add: ring_def)

end
