(* ===== verification/JobQueue.thy ===== *)
theory JobQueue
  imports ListHead "HOL-Library.Multiset" "HOL-Library.Multiset_Order"
begin

text \<open>
  The job queue of \<open>quickjs.c\<close> (the microtasks of promises) on the linked lists of \<open>list.h\<close>, and the loop
  of the event loop that runs pending jobs.  A job function is a value of type \<open>'f\<close>; what it does when
  called is the parameter \<open>run\<close>, since it is JavaScript code or code of another module.  The
  allocator is the parameter \<open>alloc\<close>.
\<close>

section \<open>State\<close>

record ('c, 'f, 'v) job_entry =
  je_ctx :: 'c
  je_func :: 'f
  je_argv :: "'v list"

text \<open>The part of the runtime the queue uses: the links of the list nodes, the entry at each node, and the
  reference counts of values.\<close>

record ('c, 'f, 'v) runtime =
  links :: list_mem
  entries :: "node \<Rightarrow> ('c, 'f, 'v) job_entry option"
  refs :: "'v \<Rightarrow> int"

definition job_list :: node where
  "job_list = 0"

text \<open>Taking and dropping a reference.  The memory of a value whose count reaches zero is released by code
  that does not touch the queue; that release is not modelled.\<close>

definition JS_DupValue :: "'v \<Rightarrow> ('c, 'f, 'v) runtime \<Rightarrow> ('c, 'f, 'v) runtime" where
  "JS_DupValue v rt = rt\<lparr>refs := (refs rt)(v := refs rt v + 1)\<rparr>"

definition drop_ref :: "'v \<Rightarrow> ('c, 'f, 'v) runtime \<Rightarrow> ('c, 'f, 'v) runtime" where
  "drop_ref v rt = rt\<lparr>refs := (refs rt)(v := refs rt v - 1)\<rparr>"

section \<open>Operations\<close>

definition JS_EnqueueJob ::
    "(('c, 'f, 'v) runtime \<Rightarrow> node option) \<Rightarrow> 'c \<Rightarrow> 'f \<Rightarrow> 'v list \<Rightarrow> ('c, 'f, 'v) runtime \<Rightarrow>
     (('c, 'f, 'v) runtime \<times> int) option" where
  "JS_EnqueueJob alloc ctx job_func argv rt =
     (case alloc rt of
        None \<Rightarrow> Some (rt, -1)
      | Some e \<Rightarrow> do {
          let rt = fold JS_DupValue argv rt;
          let rt = rt\<lparr>entries := (entries rt)(e \<mapsto> \<lparr>je_ctx = ctx, je_func = job_func, je_argv = argv\<rparr>)\<rparr>;
          m \<leftarrow> list_add_tail e job_list (links rt);
          Some (rt\<lparr>links := m\<rparr>, 0)
        })"

definition JS_IsJobPending :: "('c, 'f, 'v) runtime \<Rightarrow> bool" where
  "JS_IsJobPending rt \<longleftrightarrow> \<not> list_empty job_list (links rt)"

text \<open>The result of a job function: a value, or \<open>None\<close> for an exception.\<close>

type_synonym ('c, 'f, 'v) run_f =
  "'f \<Rightarrow> 'c \<Rightarrow> 'v list \<Rightarrow> ('c, 'f, 'v) runtime \<Rightarrow> (('c, 'f, 'v) runtime \<times> 'v option) option"

definition JS_ExecutePendingJob ::
    "('c, 'f, 'v) run_f \<Rightarrow> ('c, 'f, 'v) runtime \<Rightarrow> (('c, 'f, 'v) runtime \<times> int \<times> 'c option) option" where
  "JS_ExecutePendingJob run rt =
     (if list_empty job_list (links rt) then Some (rt, 0, None)
      else do {
        el \<leftarrow> nxt (links rt) job_list;
        e \<leftarrow> entries rt el;
        m \<leftarrow> list_del el (links rt);
        (rt, res) \<leftarrow> run (je_func e) (je_ctx e) (je_argv e) (rt\<lparr>links := m\<rparr>);
        let rt = fold drop_ref (je_argv e) rt;
        let (rt, ret) = (case res of None \<Rightarrow> (rt, -1) | Some v \<Rightarrow> (drop_ref v rt, 1));
        Some (rt\<lparr>entries := (entries rt)(el := None)\<rparr>, ret, Some (je_ctx e))
      })"

text \<open>The loop of the event loop: execute jobs until there is none or one throws.\<close>

partial_function (option) execute_jobs ::
    "('c, 'f, 'v) run_f \<Rightarrow> ('c, 'f, 'v) runtime \<Rightarrow> (('c, 'f, 'v) runtime \<times> int) option" where
  "execute_jobs run rt = do {
     (rt, err, ctx1) \<leftarrow> JS_ExecutePendingJob run rt;
     if err \<le> 0 then Some (rt, err) else execute_jobs run rt
   }"

section \<open>The queue as a list\<close>

definition queue :: "('c, 'f, 'v) runtime \<Rightarrow> node list \<Rightarrow> ('c, 'f, 'v) job_entry list \<Rightarrow> bool" where
  "queue rt ns js \<longleftrightarrow> ring (links rt) job_list ns \<and> map (entries rt) ns = map Some js"

lemma fold_dup [simp]:
  "links (fold JS_DupValue vs rt) = links rt" "entries (fold JS_DupValue vs rt) = entries rt"
  by (induction vs arbitrary: rt) (simp_all add: JS_DupValue_def)

lemma fold_free [simp]:
  "links (fold drop_ref vs rt) = links rt" "entries (fold drop_ref vs rt) = entries rt"
  by (induction vs arbitrary: rt) (simp_all add: drop_ref_def)

lemma refs_fold_dup: "refs (fold JS_DupValue vs rt) v = refs rt v + int (count_list vs v)"
  by (induction vs arbitrary: rt) (simp_all add: JS_DupValue_def)

lemma refs_fold_free: "refs (fold drop_ref vs rt) v = refs rt v - int (count_list vs v)"
  by (induction vs arbitrary: rt) (simp_all add: drop_ref_def)

lemma queue_pending: "queue rt ns js \<Longrightarrow> list_empty job_list (links rt) \<longleftrightarrow> js = []"
  by (cases ns) (auto simp: queue_def list_empty_def ring_def)

lemma enqueue_queue:
  assumes "queue rt ns js" and "alloc rt = Some e" and "e \<notin> set (job_list # ns)"
  shows "\<exists>rt'. JS_EnqueueJob alloc c f argv rt = Some (rt', 0) \<and>
    queue rt' (ns @ [e]) (js @ [\<lparr>je_ctx = c, je_func = f, je_argv = argv\<rparr>]) \<and>
    (\<forall>v. refs rt' v = refs rt v + int (count_list argv v))"
proof -
  from rings.add_tail_repr [of "links rt" job_list ns e] obtain m where
    m: "list_add_tail e job_list (links rt) = Some m" "ring m job_list (ns @ [e])"
    using assms(1,3) by (auto simp: queue_def)
  have "map (entries rt) ns = map Some js" using assms(1) by (simp add: queue_def)
  moreover have "map ((entries rt)(e \<mapsto> j)) ns = map (entries rt) ns" for j using assms(3) by auto
  ultimately show ?thesis using assms(2) m
    by (auto simp: JS_EnqueueJob_def queue_def refs_fold_dup)
qed

text \<open>C37: a job that the allocator has room for is appended to the queue, and holds one reference for each
  occurrence of an argument; without memory the call fails and changes nothing.\<close>

theorem JS_EnqueueJob_appends:
  assumes "queue rt ns js" and "\<And>e. alloc rt = Some e \<Longrightarrow> e \<notin> set (job_list # ns)"
  shows "case alloc rt of
      None \<Rightarrow> JS_EnqueueJob alloc c f argv rt = Some (rt, -1)
    | Some e \<Rightarrow> \<exists>rt'. JS_EnqueueJob alloc c f argv rt = Some (rt', 0) \<and>
        queue rt' (ns @ [e]) (js @ [\<lparr>je_ctx = c, je_func = f, je_argv = argv\<rparr>]) \<and>
        (\<forall>v. refs rt' v = refs rt v + int (count_list argv v))"
proof (cases "alloc rt")
  case None
  then show ?thesis by (simp add: JS_EnqueueJob_def)
next
  case (Some e)
  then show ?thesis using enqueue_queue [of rt ns js alloc e] assms by simp
qed

theorem JS_EnqueueJob_appends_witness:
  "\<exists>rt'. JS_EnqueueJob (\<lambda>_. Some 5) CHR ''c'' CHR ''f'' [CHR ''v'']
      \<lparr>links = \<lparr>prev = [0 \<mapsto> 0], nxt = [0 \<mapsto> 0]\<rparr>, entries = \<lambda>_. None, refs = \<lambda>_. 1\<rparr> = Some (rt', 0) \<and>
    queue rt' [5] [\<lparr>je_ctx = CHR ''c'', je_func = CHR ''f'', je_argv = [CHR ''v'']\<rparr>] \<and> refs rt' CHR ''v'' = 2"
proof -
  let ?rt = "\<lparr>links = \<lparr>prev = [0 \<mapsto> 0], nxt = [0 \<mapsto> 0]\<rparr>, entries = \<lambda>_. None, refs = \<lambda>_. 1\<rparr>"
  have "queue ?rt [] []" by (simp add: queue_def ring_def job_list_def)
  from JS_EnqueueJob_appends [OF this, of "\<lambda>_. Some 5" "CHR ''c''" "CHR ''f''" "[CHR ''v'']"]
  show ?thesis by (auto simp: job_list_def)
qed

text \<open>What a job function does to the queue: it appends the jobs \<open>spawn j\<close> at nodes that were free before the call,
  and throws as \<open>throws j\<close> says.  There are always free nodes, since the entries are finitely many.\<close>

definition runs_as ::
    "('c, 'f, 'v) run_f \<Rightarrow> (('c, 'f, 'v) job_entry \<Rightarrow> ('c, 'f, 'v) job_entry list) \<Rightarrow>
     (('c, 'f, 'v) job_entry \<Rightarrow> bool) \<Rightarrow> ('c, 'f, 'v) job_entry \<Rightarrow> bool" where
  "runs_as run spawn throws j \<longleftrightarrow> (\<forall>rt ns js. queue rt ns js \<and> finite (dom (entries rt)) \<longrightarrow>
     (\<exists>rt' ns' res. run (je_func j) (je_ctx j) (je_argv j) rt = Some (rt', res) \<and>
        queue rt' (ns @ ns') (js @ spawn j) \<and> finite (dom (entries rt')) \<and> (res = None \<longleftrightarrow> throws j) \<and>
        (\<forall>el \<in> set ns'. entries rt el = None)))"

text \<open>Job functions of this kind: they call \<open>JS_EnqueueJob\<close> for each job of a list and return a value, or throw when
  a call fails.  With an allocator that finds a free node they run as their list says.\<close>

fun enqueue_all ::
    "(('c, 'f, 'v) runtime \<Rightarrow> node option) \<Rightarrow> ('c, 'f, 'v) job_entry list \<Rightarrow> ('c, 'f, 'v) runtime \<Rightarrow>
     (('c, 'f, 'v) runtime \<times> int) option" where
  "enqueue_all alloc [] rt = Some (rt, 0)"
| "enqueue_all alloc (j # js) rt = do {
     (rt, r) \<leftarrow> JS_EnqueueJob alloc (je_ctx j) (je_func j) (je_argv j) rt;
     if r < 0 then Some (rt, r) else enqueue_all alloc js rt
   }"

definition enqueuing_run ::
    "(('c, 'f, 'v) runtime \<Rightarrow> node option) \<Rightarrow> ('f \<Rightarrow> ('c, 'f, 'v) job_entry list) \<Rightarrow> 'v \<Rightarrow> ('c, 'f, 'v) run_f" where
  "enqueuing_run alloc body v f ctx argv rt = do {
     (rt, r) \<leftarrow> enqueue_all alloc (body f) rt;
     Some (rt, if r < 0 then None else Some v)
   }"

definition finds_free :: "(('c, 'f, 'v) runtime \<Rightarrow> node option) \<Rightarrow> bool" where
  "finds_free alloc \<longleftrightarrow> (\<forall>rt. finite (dom (entries rt)) \<longrightarrow>
     (\<exists>e. alloc rt = Some e \<and> e \<noteq> job_list \<and> entries rt e = None))"

lemma enqueue_entries:
  "JS_EnqueueJob alloc c f argv rt = Some (rt', r) \<Longrightarrow> alloc rt = Some e \<Longrightarrow>
     entries rt' = (entries rt)(e \<mapsto> \<lparr>je_ctx = c, je_func = f, je_argv = argv\<rparr>)"
  by (auto simp: JS_EnqueueJob_def Let_def bind_eq_Some_conv)

lemma enqueue_all_queue:
  assumes "finds_free alloc" and "queue rt ns js" and "finite (dom (entries rt))"
  shows "\<exists>rt' ns'. enqueue_all alloc ks rt = Some (rt', 0) \<and> queue rt' (ns @ ns') (js @ ks) \<and>
    finite (dom (entries rt')) \<and> (\<forall>el \<in> set ns'. entries rt el = None)"
  using assms(2,3)
proof (induction ks arbitrary: rt ns js)
  case Nil
  then show ?case by (intro exI [of _ rt] exI [of _ "[]"]) simp
next
  case (Cons k ks)
  obtain e where e: "alloc rt = Some e" "e \<noteq> job_list" "entries rt e = None"
    using assms(1) Cons.prems(2) unfolding finds_free_def by blast
  then have ne: "e \<notin> set (job_list # ns)" using Cons.prems(1) by (auto simp: queue_def map_eq_Cons_conv dest: map_eq_imp_length_eq)
      (metis in_set_conv_nth length_map nth_map option.distinct(1))
  have k: "\<lparr>je_ctx = je_ctx k, je_func = je_func k, je_argv = je_argv k\<rparr> = k" by (cases k) simp
  from enqueue_queue [of rt ns js alloc e "je_ctx k" "je_func k" "je_argv k", OF Cons.prems(1) e(1) ne] obtain rt1 where
    r: "JS_EnqueueJob alloc (je_ctx k) (je_func k) (je_argv k) rt = Some (rt1, 0)" "queue rt1 (ns @ [e]) (js @ [k])"
    unfolding k by auto
  have en: "entries rt1 = (entries rt)(e \<mapsto> k)" using enqueue_entries [OF r(1) e(1)] unfolding k .
  then have "finite (dom (entries rt1))" using Cons.prems(2) by simp
  from Cons.IH [OF r(2) this] obtain rt' ns' where
    i: "enqueue_all alloc ks rt1 = Some (rt', 0)" "queue rt' (ns @ e # ns') (js @ k # ks)" "finite (dom (entries rt'))"
      "\<forall>el \<in> set ns'. entries rt1 el = None" by auto
  have "\<forall>el \<in> set (e # ns'). entries rt el = None" using i(4) e(3) en by (auto split: if_splits)
  then show ?case using r(1) i by (intro exI [of _ rt'] exI [of _ "e # ns'"]) simp
qed

lemma enqueuing_runs_as:
  assumes "finds_free alloc"
  shows "runs_as (enqueuing_run alloc body v) (\<lambda>j. body (je_func j)) (\<lambda>_. False) j"
  unfolding runs_as_def
proof (intro allI impI)
  fix rt :: "('a, 'b, 'c) runtime" and ns js
  assume "queue rt ns js \<and> finite (dom (entries rt))"
  with enqueue_all_queue [OF assms, of rt ns js "body (je_func j)"] show "\<exists>rt' ns' res.
      enqueuing_run alloc body v (je_func j) (je_ctx j) (je_argv j) rt = Some (rt', res) \<and>
      queue rt' (ns @ ns') (js @ body (je_func j)) \<and> finite (dom (entries rt')) \<and> (res = None \<longleftrightarrow> False) \<and>
      (\<forall>el \<in> set ns'. entries rt el = None)"
    by (auto simp: enqueuing_run_def)
qed

text \<open>An allocator that takes a node above all that are in use.\<close>

definition next_node :: "('c, 'f, 'v) runtime \<Rightarrow> node option" where
  "next_node rt = Some (Suc (Max (insert job_list (dom (entries rt)))))"

lemma next_node_free: "finds_free next_node"
  unfolding finds_free_def
proof (intro allI impI)
  fix rt :: "('a, 'b, 'c) runtime"
  assume fin: "finite (dom (entries rt))"
  let ?m = "Max (insert job_list (dom (entries rt)))"
  have "x \<le> ?m" if "x \<in> insert job_list (dom (entries rt))" for x using that fin by (intro Max_ge) simp_all
  then have "Suc ?m \<notin> insert job_list (dom (entries rt))" by (meson not_less_eq_eq order_refl)
  then show "\<exists>e. next_node rt = Some e \<and> e \<noteq> job_list \<and> entries rt e = None"
    by (auto simp: next_node_def)
qed

lemma queue_free_entry:
  assumes "queue rt ns js" and "el \<notin> set ns"
  shows "queue (rt\<lparr>entries := (entries rt)(el := None)\<rparr>) ns js"
proof -
  have "map ((entries rt)(el := None)) ns = map (entries rt) ns" using assms(2) by auto
  then show ?thesis using assms(1) unfolding queue_def by (simp del: map_eq_conv)
qed

lemma execute_queue:
  assumes "queue rt ns (j # js)" and "runs_as run spawn throws j" and fin: "finite (dom (entries rt))"
  shows "\<exists>rt' ns'. JS_ExecutePendingJob run rt = Some (rt', if throws j then -1 else 1, Some (je_ctx j)) \<and>
    queue rt' ns' (js @ spawn j) \<and> finite (dom (entries rt'))"
proof -
  from assms(1) obtain el ns0 where ns: "ns = el # ns0" and el: "entries rt el = Some j"
    and q0: "map (entries rt) ns0 = map Some js" and r: "ring (links rt) job_list (el # ns0)"
    by (cases ns) (auto simp: queue_def)
  from rings.pop_first [OF r] obtain m where
    m: "nxt (links rt) job_list = Some el" "list_del el (links rt) = Some m" "ring m job_list ns0" by blast
  have "queue (rt\<lparr>links := m\<rparr>) ns0 js" using m(3) q0 by (simp add: queue_def)
  moreover have "finite (dom (entries (rt\<lparr>links := m\<rparr>)))" using fin by simp
  ultimately obtain rt1 ns1 res where
    run: "run (je_func j) (je_ctx j) (je_argv j) (rt\<lparr>links := m\<rparr>) = Some (rt1, res)"
    and q1: "queue rt1 (ns0 @ ns1) (js @ spawn j)" and res: "res = None \<longleftrightarrow> throws j"
    and fin1: "finite (dom (entries rt1))" and fresh: "\<forall>el \<in> set ns1. entries (rt\<lparr>links := m\<rparr>) el = None"
    using assms(2) unfolding runs_as_def by blast
  have "el \<notin> set (ns0 @ ns1)" using r el fresh by (auto simp: ring_def)
  define rt2 where "rt2 = (let rt = fold drop_ref (je_argv j) rt1 in case res of None \<Rightarrow> rt | Some v \<Rightarrow> drop_ref v rt)"
  have "queue rt2 (ns0 @ ns1) (js @ spawn j)"
    using q1 by (auto simp: queue_def rt2_def drop_ref_def Let_def split: option.split)
  then have "queue (rt2\<lparr>entries := (entries rt2)(el := None)\<rparr>) (ns0 @ ns1) (js @ spawn j)"
    using \<open>el \<notin> _\<close> by (rule queue_free_entry)
  moreover have "\<not> list_empty job_list (links rt)" using queue_pending [OF assms(1)] by simp
  then have "JS_ExecutePendingJob run rt =
      Some (rt2\<lparr>entries := (entries rt2)(el := None)\<rparr>, if throws j then -1 else 1, Some (je_ctx j))"
    using m(1,2) el run res by (cases res) (auto simp: JS_ExecutePendingJob_def rt2_def Let_def)
  moreover have "finite (dom (entries (rt2\<lparr>entries := (entries rt2)(el := None)\<rparr>)))"
    using fin1 by (auto simp: rt2_def drop_ref_def Let_def split: option.split)
  ultimately show ?thesis by blast
qed

lemma execute_empty: "queue rt ns [] \<Longrightarrow> JS_ExecutePendingJob run rt = Some (rt, 0, None)"
  using queue_pending [of rt ns "[]"] by (simp add: JS_ExecutePendingJob_def)

text \<open>C38: jobs run first in, first out: the job executed is the oldest one, the jobs it enqueues come after
  all that were waiting, the result tells an empty queue (0), a job that threw (-1) and one that
  succeeded (1), and the context of the job is returned.\<close>

theorem JS_ExecutePendingJob_fifo:
  assumes "queue rt ns js" and "finite (dom (entries rt))" and "\<forall>j \<in> set js. runs_as run spawn throws j"
  shows "case js of
      [] \<Rightarrow> \<not> JS_IsJobPending rt \<and> JS_ExecutePendingJob run rt = Some (rt, 0, None)
    | j # rest \<Rightarrow> JS_IsJobPending rt \<and>
        (\<exists>rt' ns'. JS_ExecutePendingJob run rt = Some (rt', if throws j then -1 else 1, Some (je_ctx j)) \<and>
          queue rt' ns' (rest @ spawn j) \<and> finite (dom (entries rt')))"
proof (cases js)
  case Nil
  then show ?thesis using assms(1) execute_empty [of rt ns run] queue_pending [OF assms(1)]
    by (simp add: JS_IsJobPending_def)
next
  case (Cons j rest)
  then show ?thesis using assms execute_queue [of rt ns j rest run spawn throws] queue_pending [OF assms(1)]
    by (simp add: JS_IsJobPending_def)
qed

text \<open>Two waiting jobs, of which the first enqueues two more.\<close>

definition a_job :: "char \<Rightarrow> (char, char, char) job_entry" where
  "a_job f = \<lparr>je_ctx = CHR ''c'', je_func = f, je_argv = [CHR ''v'']\<rparr>"

definition a_body :: "char \<Rightarrow> (char, char, char) job_entry list" where
  "a_body f = (if f = CHR ''f'' then [a_job CHR ''g'', a_job CHR ''h''] else [])"

definition a_queue :: "(char, char, char) runtime" where
  "a_queue = \<lparr>links = \<lparr>prev = [0 \<mapsto> 6, 5 \<mapsto> 0, 6 \<mapsto> 5], nxt = [0 \<mapsto> 5, 5 \<mapsto> 6, 6 \<mapsto> 0]\<rparr>,
     entries = [5 \<mapsto> a_job CHR ''f'', 6 \<mapsto> a_job CHR ''k''], refs = \<lambda>_. 1\<rparr>"

lemma a_queue: "queue a_queue [5, 6] [a_job CHR ''f'', a_job CHR ''k'']" "finite (dom (entries a_queue))"
  by (simp_all add: queue_def ring_def job_list_def a_queue_def)

theorem JS_ExecutePendingJob_fifo_witness:
  "\<exists>rt' ns'. JS_ExecutePendingJob (enqueuing_run next_node a_body CHR ''r'') a_queue = Some (rt', 1, Some CHR ''c'') \<and>
     queue rt' ns' [a_job CHR ''k'', a_job CHR ''g'', a_job CHR ''h'']"
proof -
  have "\<forall>j \<in> set [a_job CHR ''f'', a_job CHR ''k'']. runs_as (enqueuing_run next_node a_body CHR ''r'')
      (\<lambda>j. a_body (je_func j)) (\<lambda>_. False) j"
    by (rule ballI, rule enqueuing_runs_as [OF next_node_free])
  from JS_ExecutePendingJob_fifo [OF a_queue this] show ?thesis by (auto simp: a_job_def a_body_def)
qed

text \<open>C14: the loop that executes pending jobs ends and leaves an empty queue, however many jobs the jobs
  enqueue, when no job throws and every job only enqueues jobs of lower rank (no endless chain of
  jobs).\<close>

theorem execute_jobs_drains:
  fixes rank :: "('c, 'f, 'v) job_entry \<Rightarrow> nat"
  assumes "queue rt ns js" and "finite (dom (entries rt))" and "\<And>j. runs_as run spawn (\<lambda>_. False) j"
    and "\<And>j k. k \<in> set (spawn j) \<Longrightarrow> rank k < rank j"
  shows "\<exists>rt' ns'. execute_jobs run rt = Some (rt', 0) \<and> queue rt' ns' []"
  using assms(1,2)
proof (induction "mset (map rank js)" arbitrary: rt ns js rule: wf_induct_rule [OF wf_less_multiset])
  case 1
  show ?case
  proof (cases js)
    case Nil
    then show ?thesis using execute_empty [of rt ns run] "1.prems"
      by (subst execute_jobs.simps) auto
  next
    case (Cons j rest)
    from execute_queue [of rt ns j rest] assms(3) "1.prems" Cons obtain rt1 ns1 where
      x: "JS_ExecutePendingJob run rt = Some (rt1, 1, Some (je_ctx j))" "queue rt1 ns1 (rest @ spawn j)"
        "finite (dom (entries rt1))" by fastforce
    have "mset (map rank (rest @ spawn j)) < mset (map rank js)"
      unfolding less_multiset_def Cons
      using one_step_implies_mult [of "{#rank j#}" "mset (map rank (spawn j))" "{(x, y). x < y}" "mset (map rank rest)"]
        assms(4) by (auto simp: multp_def)
    then obtain rt' ns' where "execute_jobs run rt1 = Some (rt', 0)" "queue rt' ns' []"
      using "1.hyps" x(2,3) by blast
    then show ?thesis using x(1) by (subst execute_jobs.simps) auto
  qed
qed

theorem execute_jobs_drains_witness:
  "\<exists>rt' ns'. execute_jobs (enqueuing_run next_node a_body CHR ''r'') a_queue = Some (rt', 0) \<and> queue rt' ns' []"
proof (rule execute_jobs_drains [OF a_queue])
  show "runs_as (enqueuing_run next_node a_body CHR ''r'') (\<lambda>j. a_body (je_func j)) (\<lambda>_. False) j" for j
    by (rule enqueuing_runs_as [OF next_node_free])
  show "(if je_func k = CHR ''f'' then 1 else 0) < (if je_func j = CHR ''f'' then 1 else (0 :: nat))"
    if "k \<in> set (a_body (je_func j))" for j k :: "(char, char, char) job_entry"
    using that by (auto simp: a_body_def a_job_def split: if_splits)
qed

end
