(* ===== verification/GcMark.thy ===== *)
theory GcMark
  imports QJS_Prelude "HOL-Library.Multiset"
begin

text \<open>
  The cycle collector of \<open>quickjs.c\<close>: the objects it sees and what \<open>mark_children\<close> visits, the trial
  deletion \<open>gc_decref\<close> and the scan \<open>gc_scan\<close>.  The two object lists are lists of addresses; their links
  are the rings of \<open>list.h\<close>.  A class registered by the embedder with a \<open>gc_mark\<close> of its own is represented
  by the list of objects that function visits.  A failed assertion is \<open>None\<close>.
\<close>

section \<open>Objects\<close>

type_synonym addr = nat

text \<open>A JavaScript value, as far as \<open>JS_MarkValue\<close> looks at it: a reference to a GC object (an object or a
  function bytecode), or something else.\<close>

datatype jsvalue = VRef addr | VOther

text \<open>A property with the kind its flags give it.\<close>

datatype jsprop =
    PROP_VALUE jsvalue
  | PROP_GETSET "addr option" "addr option"
  | PROP_VARREF addr bool
  | PROP_AUTOINIT addr

text \<open>The execution state of a generator or async function: the function, \<open>this\<close>, and the values on its
  stack unless it is running.\<close>

record func_state =
  fs_cur_func :: jsvalue
  fs_this_val :: jsvalue
  fs_stack :: "jsvalue list option"

text \<open>A reaction of a promise and a request of an async generator.\<close>

record promise_reaction =
  pr_resolving_funcs :: "jsvalue \<times> jsvalue"
  pr_handler :: jsvalue

record async_request =
  rq_result :: jsvalue
  rq_promise :: jsvalue
  rq_resolving_funcs :: "jsvalue \<times> jsvalue"

text \<open>The data of the object classes that have a \<open>gc_mark\<close> function; an absent data record is \<open>None\<close>.\<close>

datatype class_data =
    CLASS_OBJECT
  | CLASS_ARRAY "jsvalue list"
  | CLASS_OBJECT_DATA jsvalue
  | CLASS_C_FUNCTION "addr option"
  | CLASS_C_FUNCTION_DATA "jsvalue list option"
  | CLASS_BYTECODE_FUNCTION "addr option" "addr option" "(addr \<times> bool) option list option"
  | CLASS_BOUND_FUNCTION jsvalue jsvalue "jsvalue list"
  | CLASS_FOR_IN_ITERATOR jsvalue
  | CLASS_ARRAY_ITERATOR "jsvalue option"
  | CLASS_TYPED_ARRAY "addr option"
  | CLASS_PROXY "(jsvalue \<times> jsvalue) option"
  | CLASS_MAP "(bool \<times> (jsvalue \<times> jsvalue) list) option"
  | CLASS_MAP_ITERATOR "jsvalue option"
  | CLASS_REGEXP_STRING_ITERATOR "(jsvalue \<times> jsvalue) option"
  | CLASS_GENERATOR "(bool \<times> func_state) option"
  | CLASS_ASYNC_FUNCTION_RESOLVE "addr option"
  | CLASS_ASYNC_GENERATOR "(async_request list \<times> bool \<times> func_state) option"
  | CLASS_PROMISE "(promise_reaction list \<times> promise_reaction list \<times> jsvalue) option"
  | CLASS_PROMISE_RESOLVE_FUNCTION "jsvalue option"
  | CLASS_ASYNC_FROM_SYNC_ITERATOR "(jsvalue \<times> jsvalue) option"
  | CLASS_USER "addr list"

text \<open>A module: the variable references of its local exports, and its values.\<close>

record module_def =
  local_var_refs :: "addr option list"
  m_module_ns :: jsvalue
  m_func_obj :: jsvalue
  m_eval_exception :: jsvalue
  m_meta_obj :: jsvalue

record js_context =
  loaded_modules :: "module_def list"
  global_obj :: jsvalue
  global_var_obj :: jsvalue
  throw_type_error :: jsvalue
  eval_obj :: jsvalue
  array_proto_values :: jsvalue
  native_error_proto :: "jsvalue list"
  class_proto :: "jsvalue list"
  iterator_proto :: jsvalue
  async_iterator_proto :: jsvalue
  promise_ctor :: jsvalue
  array_ctor :: jsvalue
  regexp_ctor :: jsvalue
  function_ctor :: jsvalue
  function_proto :: jsvalue
  array_shape :: "addr option"

datatype gc_obj =
    JS_OBJECT addr "(bool \<times> jsprop) list" class_data
  | FUNCTION_BYTECODE "jsvalue list" "addr option"
  | VAR_REF bool jsvalue
  | ASYNC_FUNCTION bool func_state jsvalue jsvalue
  | SHAPE "addr option"
  | JS_CONTEXT js_context

section \<open>What mark functions visit\<close>

text \<open>The calls of \<open>mark_func\<close>, in order.\<close>

definition JS_MarkValue :: "jsvalue \<Rightarrow> addr list" where
  "JS_MarkValue v = (case v of VRef p \<Rightarrow> [p] | VOther \<Rightarrow> [])"

definition mark_ptr :: "addr option \<Rightarrow> addr list" where
  "mark_ptr p = (case p of None \<Rightarrow> [] | Some q \<Rightarrow> [q])"

definition js_array_mark :: "jsvalue list \<Rightarrow> addr list" where
  "js_array_mark vals = concat (map JS_MarkValue vals)"

definition js_object_data_mark :: "jsvalue \<Rightarrow> addr list" where
  "js_object_data_mark v = JS_MarkValue v"

definition js_c_function_mark :: "addr option \<Rightarrow> addr list" where
  "js_c_function_mark realm = mark_ptr realm"

definition js_c_function_data_mark :: "jsvalue list option \<Rightarrow> addr list" where
  "js_c_function_data_mark s = (case s of None \<Rightarrow> [] | Some data \<Rightarrow> concat (map JS_MarkValue data))"

definition js_bytecode_function_mark :: "addr option \<Rightarrow> addr option \<Rightarrow> (addr \<times> bool) option list option \<Rightarrow> addr list" where
  "js_bytecode_function_mark home_object b var_refs =
     (case home_object of None \<Rightarrow> [] | Some h \<Rightarrow> JS_MarkValue (VRef h)) @
     (case b of None \<Rightarrow> []
      | Some f \<Rightarrow>
          (case var_refs of None \<Rightarrow> []
           | Some rs \<Rightarrow> concat (map (\<lambda>r. case r of Some (v, is_detached) \<Rightarrow> if is_detached then [v] else []
                                              | None \<Rightarrow> []) rs)) @
          JS_MarkValue (VRef f))"

definition js_bound_function_mark :: "jsvalue \<Rightarrow> jsvalue \<Rightarrow> jsvalue list \<Rightarrow> addr list" where
  "js_bound_function_mark func_obj this_val argv =
     JS_MarkValue func_obj @ JS_MarkValue this_val @ concat (map JS_MarkValue argv)"

definition js_for_in_iterator_mark :: "jsvalue \<Rightarrow> addr list" where
  "js_for_in_iterator_mark obj = JS_MarkValue obj"

definition js_array_iterator_mark :: "jsvalue option \<Rightarrow> addr list" where
  "js_array_iterator_mark it = (case it of None \<Rightarrow> [] | Some obj \<Rightarrow> JS_MarkValue obj)"

definition js_typed_array_mark :: "addr option \<Rightarrow> addr list" where
  "js_typed_array_mark ta = (case ta of None \<Rightarrow> [] | Some buffer \<Rightarrow> JS_MarkValue (VRef buffer))"

definition js_proxy_mark :: "(jsvalue \<times> jsvalue) option \<Rightarrow> addr list" where
  "js_proxy_mark s = (case s of None \<Rightarrow> [] | Some (target, handler) \<Rightarrow> JS_MarkValue target @ JS_MarkValue handler)"

definition js_map_mark :: "(bool \<times> (jsvalue \<times> jsvalue) list) option \<Rightarrow> addr list" where
  "js_map_mark s = (case s of None \<Rightarrow> []
     | Some (is_weak, records) \<Rightarrow>
         concat (map (\<lambda>(k, v). (if \<not> is_weak then JS_MarkValue k else []) @ JS_MarkValue v) records))"

definition js_map_iterator_mark :: "jsvalue option \<Rightarrow> addr list" where
  "js_map_iterator_mark it = (case it of None \<Rightarrow> [] | Some obj \<Rightarrow> JS_MarkValue obj)"

definition js_regexp_string_iterator_mark :: "(jsvalue \<times> jsvalue) option \<Rightarrow> addr list" where
  "js_regexp_string_iterator_mark it =
     (case it of None \<Rightarrow> [] | Some (regexp, str) \<Rightarrow> JS_MarkValue regexp @ JS_MarkValue str)"

definition async_func_mark :: "func_state \<Rightarrow> addr list" where
  "async_func_mark s = JS_MarkValue (fs_cur_func s) @ JS_MarkValue (fs_this_val s) @
     (case fs_stack s of None \<Rightarrow> [] | Some vs \<Rightarrow> concat (map JS_MarkValue vs))"

definition js_generator_mark :: "(bool \<times> func_state) option \<Rightarrow> addr list" where
  "js_generator_mark s =
     (case s of None \<Rightarrow> [] | Some (completed, fs) \<Rightarrow> if completed then [] else async_func_mark fs)"

definition js_async_function_resolve_mark :: "addr option \<Rightarrow> addr list" where
  "js_async_function_resolve_mark s = mark_ptr s"

definition js_async_generator_mark :: "(async_request list \<times> bool \<times> func_state) option \<Rightarrow> addr list" where
  "js_async_generator_mark s = (case s of None \<Rightarrow> []
     | Some (queue, has_frame, fs) \<Rightarrow>
         concat (map (\<lambda>req. JS_MarkValue (rq_result req) @ JS_MarkValue (rq_promise req) @
           JS_MarkValue (fst (rq_resolving_funcs req)) @ JS_MarkValue (snd (rq_resolving_funcs req))) queue) @
         (if has_frame then async_func_mark fs else []))"

definition mark_reaction :: "promise_reaction \<Rightarrow> addr list" where
  "mark_reaction react = JS_MarkValue (fst (pr_resolving_funcs react)) @ JS_MarkValue (snd (pr_resolving_funcs react)) @
     JS_MarkValue (pr_handler react)"

definition js_promise_mark :: "(promise_reaction list \<times> promise_reaction list \<times> jsvalue) option \<Rightarrow> addr list" where
  "js_promise_mark s = (case s of None \<Rightarrow> []
     | Some (reactions0, reactions1, promise_result) \<Rightarrow>
         concat (map mark_reaction reactions0) @ concat (map mark_reaction reactions1) @
         JS_MarkValue promise_result)"

definition js_promise_resolve_function_mark :: "jsvalue option \<Rightarrow> addr list" where
  "js_promise_resolve_function_mark s = (case s of None \<Rightarrow> [] | Some promise \<Rightarrow> JS_MarkValue promise)"

definition js_async_from_sync_iterator_mark :: "(jsvalue \<times> jsvalue) option \<Rightarrow> addr list" where
  "js_async_from_sync_iterator_mark s =
     (case s of None \<Rightarrow> [] | Some (sync_iter, next_method) \<Rightarrow> JS_MarkValue sync_iter @ JS_MarkValue next_method)"

text \<open>The dispatch through the class array.\<close>

definition gc_mark :: "class_data \<Rightarrow> addr list" where
  "gc_mark c = (case c of
     CLASS_OBJECT \<Rightarrow> []
   | CLASS_ARRAY vs \<Rightarrow> js_array_mark vs
   | CLASS_OBJECT_DATA v \<Rightarrow> js_object_data_mark v
   | CLASS_C_FUNCTION realm \<Rightarrow> js_c_function_mark realm
   | CLASS_C_FUNCTION_DATA s \<Rightarrow> js_c_function_data_mark s
   | CLASS_BYTECODE_FUNCTION h b rs \<Rightarrow> js_bytecode_function_mark h b rs
   | CLASS_BOUND_FUNCTION f t vs \<Rightarrow> js_bound_function_mark f t vs
   | CLASS_FOR_IN_ITERATOR v \<Rightarrow> js_for_in_iterator_mark v
   | CLASS_ARRAY_ITERATOR it \<Rightarrow> js_array_iterator_mark it
   | CLASS_TYPED_ARRAY ta \<Rightarrow> js_typed_array_mark ta
   | CLASS_PROXY s \<Rightarrow> js_proxy_mark s
   | CLASS_MAP s \<Rightarrow> js_map_mark s
   | CLASS_MAP_ITERATOR it \<Rightarrow> js_map_iterator_mark it
   | CLASS_REGEXP_STRING_ITERATOR it \<Rightarrow> js_regexp_string_iterator_mark it
   | CLASS_GENERATOR s \<Rightarrow> js_generator_mark s
   | CLASS_ASYNC_FUNCTION_RESOLVE s \<Rightarrow> js_async_function_resolve_mark s
   | CLASS_ASYNC_GENERATOR s \<Rightarrow> js_async_generator_mark s
   | CLASS_PROMISE s \<Rightarrow> js_promise_mark s
   | CLASS_PROMISE_RESOLVE_FUNCTION s \<Rightarrow> js_promise_resolve_function_mark s
   | CLASS_ASYNC_FROM_SYNC_ITERATOR s \<Rightarrow> js_async_from_sync_iterator_mark s
   | CLASS_USER ps \<Rightarrow> ps)"

definition js_autoinit_mark :: "addr \<Rightarrow> addr list" where
  "js_autoinit_mark realm = [realm]"

definition mark_prop :: "bool \<times> jsprop \<Rightarrow> addr list" where
  "mark_prop p = (if fst p then
     (case snd p of
        PROP_GETSET getter setter \<Rightarrow> mark_ptr getter @ mark_ptr setter
      | PROP_VARREF var_ref is_detached \<Rightarrow> if is_detached then [var_ref] else []
      | PROP_AUTOINIT realm \<Rightarrow> js_autoinit_mark realm
      | PROP_VALUE v \<Rightarrow> JS_MarkValue v)
     else [])"

definition js_mark_module_def :: "module_def \<Rightarrow> addr list" where
  "js_mark_module_def m = concat (map mark_ptr (local_var_refs m)) @ JS_MarkValue (m_module_ns m) @
     JS_MarkValue (m_func_obj m) @ JS_MarkValue (m_eval_exception m) @ JS_MarkValue (m_meta_obj m)"

definition JS_MarkContext :: "js_context \<Rightarrow> addr list" where
  "JS_MarkContext ctx =
     concat (map js_mark_module_def (loaded_modules ctx)) @
     JS_MarkValue (global_obj ctx) @ JS_MarkValue (global_var_obj ctx) @
     JS_MarkValue (throw_type_error ctx) @ JS_MarkValue (eval_obj ctx) @
     JS_MarkValue (array_proto_values ctx) @
     concat (map JS_MarkValue (native_error_proto ctx)) @
     concat (map JS_MarkValue (class_proto ctx)) @
     JS_MarkValue (iterator_proto ctx) @ JS_MarkValue (async_iterator_proto ctx) @
     JS_MarkValue (promise_ctor ctx) @ JS_MarkValue (array_ctor ctx) @ JS_MarkValue (regexp_ctor ctx) @
     JS_MarkValue (function_ctor ctx) @ JS_MarkValue (function_proto ctx) @
     mark_ptr (array_shape ctx)"

text \<open>The objects \<open>mark_children\<close> visits; an attached variable reference fails the assertion.\<close>

definition gc_children :: "gc_obj \<Rightarrow> addr list option" where
  "gc_children gp = (case gp of
     JS_OBJECT sh props c \<Rightarrow> Some (sh # concat (map mark_prop props) @ gc_mark c)
   | FUNCTION_BYTECODE cpool realm \<Rightarrow> Some (concat (map JS_MarkValue cpool) @ mark_ptr realm)
   | VAR_REF is_detached v \<Rightarrow> if is_detached then Some (JS_MarkValue v) else None
   | ASYNC_FUNCTION is_active s f0 f1 \<Rightarrow>
       Some ((if is_active then async_func_mark s else []) @ JS_MarkValue f0 @ JS_MarkValue f1)
   | SHAPE proto \<Rightarrow> Some (mark_ptr proto)
   | JS_CONTEXT ctx \<Rightarrow> Some (JS_MarkContext ctx))"

section \<open>The collector\<close>

record gc_state =
  objs :: "addr \<Rightarrow> gc_obj option"
  ref_count :: "addr \<Rightarrow> int"
  mark :: "addr \<Rightarrow> nat"
  gc_obj_list :: "addr list"
  tmp_obj_list :: "addr list"

type_synonym mark_f = "addr \<Rightarrow> gc_state \<Rightarrow> gc_state option"

fun mark_all :: "mark_f \<Rightarrow> addr list \<Rightarrow> gc_state \<Rightarrow> gc_state option" where
  "mark_all f [] rt = Some rt"
| "mark_all f (p # ps) rt = do { rt \<leftarrow> f p rt; mark_all f ps rt }"

definition mark_children :: "mark_f \<Rightarrow> addr \<Rightarrow> gc_state \<Rightarrow> gc_state option" where
  "mark_children f p rt = do { gp \<leftarrow> objs rt p; ps \<leftarrow> gc_children gp; mark_all f ps rt }"

definition add_gc_object :: "addr \<Rightarrow> gc_obj \<Rightarrow> gc_state \<Rightarrow> gc_state" where
  "add_gc_object h gp rt = rt\<lparr>mark := (mark rt)(h := 0), objs := (objs rt)(h \<mapsto> gp),
     gc_obj_list := gc_obj_list rt @ [h]\<rparr>"

text \<open>\<open>list_del\<close> takes the object out of the list that holds it.\<close>

definition unlink :: "addr \<Rightarrow> gc_state \<Rightarrow> gc_state" where
  "unlink p rt = rt\<lparr>gc_obj_list := remove1 p (gc_obj_list rt), tmp_obj_list := remove1 p (tmp_obj_list rt)\<rparr>"

definition to_tmp :: "addr \<Rightarrow> gc_state \<Rightarrow> gc_state" where
  "to_tmp p rt = (let rt = unlink p rt in rt\<lparr>tmp_obj_list := tmp_obj_list rt @ [p]\<rparr>)"

definition to_gc :: "addr \<Rightarrow> gc_state \<Rightarrow> gc_state" where
  "to_gc p rt = (let rt = unlink p rt in rt\<lparr>gc_obj_list := gc_obj_list rt @ [p]\<rparr>)"

definition add_ref :: "addr \<Rightarrow> int \<Rightarrow> gc_state \<Rightarrow> gc_state" where
  "add_ref p d rt = rt\<lparr>ref_count := (ref_count rt)(p := ref_count rt p + d)\<rparr>"

definition set_mark :: "addr \<Rightarrow> nat \<Rightarrow> gc_state \<Rightarrow> gc_state" where
  "set_mark p v rt = rt\<lparr>mark := (mark rt)(p := v)\<rparr>"

definition gc_decref_child :: mark_f where
  "gc_decref_child p rt =
     (if ref_count rt p > 0 then
        let rt = add_ref p (-1) rt in
        Some (if ref_count rt p = 0 \<and> mark rt p = 1 then to_tmp p rt else rt)
      else None)"

text \<open>The link to the next object of a list: \<open>Some None\<close> at the end of the list, \<open>None\<close> when the object is
  not in the list.\<close>

fun next_link :: "addr list \<Rightarrow> addr \<Rightarrow> addr option option" where
  "next_link [] p = None"
| "next_link (x # xs) p = (if x = p then Some (case xs of [] \<Rightarrow> None | y # _ \<Rightarrow> Some y) else next_link xs p)"

definition first_link :: "addr list \<Rightarrow> addr option" where
  "first_link xs = (case xs of [] \<Rightarrow> None | x # _ \<Rightarrow> Some x)"

partial_function (option) decref_loop :: "addr option \<Rightarrow> gc_state \<Rightarrow> gc_state option" where
  "decref_loop el rt = (case el of
     None \<Rightarrow> Some rt
   | Some p \<Rightarrow> do {
       el1 \<leftarrow> next_link (gc_obj_list rt) p;
       rt \<leftarrow> (if mark rt p = 0 then mark_children gc_decref_child p rt else None);
       let rt = set_mark p 1 rt;
       let rt = (if ref_count rt p = 0 then to_tmp p rt else rt);
       decref_loop el1 rt
     })"

definition gc_decref :: "gc_state \<Rightarrow> gc_state option" where
  "gc_decref rt = (let rt = rt\<lparr>tmp_obj_list := []\<rparr> in decref_loop (first_link (gc_obj_list rt)) rt)"

definition gc_scan_incref_child :: mark_f where
  "gc_scan_incref_child p rt =
     (let rt = add_ref p 1 rt in
      Some (if ref_count rt p = 1 then set_mark p 0 (to_gc p rt) else rt))"

definition gc_scan_incref_child2 :: mark_f where
  "gc_scan_incref_child2 p rt = Some (add_ref p 1 rt)"

partial_function (option) scan_loop :: "addr option \<Rightarrow> gc_state \<Rightarrow> gc_state option" where
  "scan_loop el rt = (case el of
     None \<Rightarrow> Some rt
   | Some p \<Rightarrow> do {
       rt \<leftarrow> (if ref_count rt p > 0 then mark_children gc_scan_incref_child p (set_mark p 0 rt) else None);
       el \<leftarrow> next_link (gc_obj_list rt) p;
       scan_loop el rt
     })"

partial_function (option) restore_loop :: "addr option \<Rightarrow> gc_state \<Rightarrow> gc_state option" where
  "restore_loop el rt = (case el of
     None \<Rightarrow> Some rt
   | Some p \<Rightarrow> do {
       rt \<leftarrow> mark_children gc_scan_incref_child2 p rt;
       el \<leftarrow> next_link (tmp_obj_list rt) p;
       restore_loop el rt
     })"

definition gc_scan :: "gc_state \<Rightarrow> gc_state option" where
  "gc_scan rt = do {
     rt \<leftarrow> scan_loop (first_link (gc_obj_list rt)) rt;
     restore_loop (first_link (tmp_obj_list rt)) rt
   }"

end
