(* ===== verification/GcProps.thy ===== *)
theory GcProps
  imports GcMark
begin

text \<open>
  Correctness of the trial deletion: after \<open>gc_decref\<close> and \<open>gc_scan\<close> the object list holds exactly the
  objects reachable from one that is referenced from outside, the temporary list the others, and all
  reference counts are as before.
\<close>

section \<open>Heaps\<close>

text \<open>The children of an object and the references from a list of objects.\<close>

definition kids :: "gc_state \<Rightarrow> addr \<Rightarrow> addr list" where
  "kids rt p = (case objs rt p of None \<Rightarrow> []
     | Some gp \<Rightarrow> (case gc_children gp of None \<Rightarrow> [] | Some cs \<Rightarrow> cs))"

definition edges :: "gc_state \<Rightarrow> addr list \<Rightarrow> addr list" where
  "edges rt ps = concat (map (kids rt) ps)"

text \<open>The invariant of the object list between collections: no duplicates, no mark, every child is in the
  list, variable references are detached, and a reference count covers at least the references from
  objects of the list.\<close>

definition wf_heap :: "gc_state \<Rightarrow> bool" where
  "wf_heap rt \<longleftrightarrow> distinct (gc_obj_list rt) \<and>
     (\<forall>p \<in> set (gc_obj_list rt).
        mark rt p = 0 \<and>
        (\<exists>gp cs. objs rt p = Some gp \<and> gc_children gp = Some cs \<and> set cs \<subseteq> set (gc_obj_list rt)) \<and>
        int (count_list (edges rt (gc_obj_list rt)) p) \<le> ref_count rt p)"

text \<open>An object is alive when it is referenced from outside the list (more references than the objects of
  the list account for) or is a child of an object that is alive.\<close>

inductive gc_alive :: "gc_state \<Rightarrow> addr \<Rightarrow> bool" for rt where
  root: "p \<in> set (gc_obj_list rt) \<Longrightarrow> int (count_list (edges rt (gc_obj_list rt)) p) < ref_count rt p \<Longrightarrow>
    gc_alive rt p"
| child: "gc_alive rt p \<Longrightarrow> c \<in> set (kids rt p) \<Longrightarrow> gc_alive rt c"

lemmas gc_updates = add_ref_def set_mark_def to_tmp_def to_gc_def unlink_def Let_def

lemma edges_append [simp]: "edges rt (ps @ qs) = edges rt ps @ edges rt qs"
  by (simp add: edges_def)

lemma edges_simps [simp]: "edges rt [] = []" "edges rt (p # ps) = kids rt p @ edges rt ps"
  by (simp_all add: edges_def)


lemma count_edges_mset: "mset ps = mset qs \<Longrightarrow> count_list (edges rt ps) c = count_list (edges rt qs) c"
proof -
  assume "mset ps = mset qs"
  then have "mset (edges rt ps) = mset (edges rt qs)"
    by (simp add: edges_def mset_concat comp_def flip: mset_map)
      (metis (no_types, lifting) image_mset.compositionality mset_map sum_mset_sum_list)
  then show ?thesis by (metis count_mset)
qed

lemma wf_kids:
  assumes "wf_heap rt" and "p \<in> set (gc_obj_list rt)"
  shows "set (kids rt p) \<subseteq> set (gc_obj_list rt)"
    "objs r = objs rt \<Longrightarrow> mark_children f p r = mark_all f (kids rt p) r"
proof -
  obtain gp cs where "objs rt p = Some gp" "gc_children gp = Some cs" "set cs \<subseteq> set (gc_obj_list rt)"
    using assms unfolding wf_heap_def by blast
  then show "set (kids rt p) \<subseteq> set (gc_obj_list rt)"
    "objs r = objs rt \<Longrightarrow> mark_children f p r = mark_all f (kids rt p) r"
    by (simp_all add: kids_def mark_children_def)
qed

lemma next_link_append:
  "p \<notin> set xs \<Longrightarrow> next_link (xs @ p # ys) p = Some (first_link ys)"
  by (induction xs) (auto simp: first_link_def)

section \<open>Trial deletion\<close>

text \<open>The state in the middle of the pass: \<open>vs\<close> are the objects visited, \<open>es\<close> the references removed.\<close>

definition dec_inv :: "gc_state \<Rightarrow> addr list \<Rightarrow> addr list \<Rightarrow> gc_state \<Rightarrow> bool" where
  "dec_inv rt0 vs es rt \<longleftrightarrow> objs rt = objs rt0 \<and>
     (\<forall>c. ref_count rt c = ref_count rt0 c - int (count_list es c)) \<and>
     (\<forall>p. mark rt p = (if p \<in> set vs then 1 else mark rt0 p)) \<and>
     gc_obj_list rt = filter (\<lambda>p. \<not> (p \<in> set vs \<and> ref_count rt p = 0)) (gc_obj_list rt0) \<and>
     distinct (tmp_obj_list rt) \<and> set (tmp_obj_list rt) = {p \<in> set vs. ref_count rt p = 0}"

lemma filter_remove:
  "distinct xs \<Longrightarrow> remove1 c (filter P xs) = filter (\<lambda>p. P p \<and> p \<noteq> c) xs"
  by (induction xs) (auto simp: filter_id_conv intro!: filter_cong)

lemma dec_child:
  assumes inv: "dec_inv rt0 vs es rt" and wf: "wf_heap rt0" and vs: "set vs \<subseteq> set (gc_obj_list rt0)"
    and c: "int (count_list (es @ [c]) c) \<le> ref_count rt0 c"
    and unmarked: "\<And>p. p \<in> set (gc_obj_list rt0) \<Longrightarrow> mark rt0 p = 0" "c \<in> set (gc_obj_list rt0)"
  shows "\<exists>rt'. gc_decref_child c rt = Some rt' \<and> dec_inv rt0 vs (es @ [c]) rt'"
proof -
  have pos: "ref_count rt c > 0" using inv c by (simp add: dec_inv_def)
  have d: "distinct (gc_obj_list rt0)" using wf by (simp add: wf_heap_def)
  let ?r = "add_ref c (-1) rt"
  have m: "mark rt c = 1 \<longleftrightarrow> c \<in> set vs" using inv unmarked by (auto simp: dec_inv_def)
  show ?thesis
  proof (cases "ref_count ?r c = 0 \<and> mark rt c = 1")
    case True
    have "dec_inv rt0 vs (es @ [c]) (to_tmp c ?r)"
      using inv True m pos d unfolding dec_inv_def
      by (auto simp: gc_updates filter_remove remove1_idem intro!: filter_cong)
    then show ?thesis using True pos by (auto simp: gc_decref_child_def gc_updates)
  next
    case False
    have "dec_inv rt0 vs (es @ [c]) ?r"
      using inv False m pos unfolding dec_inv_def
      by (auto simp: gc_updates intro!: filter_cong)
    then show ?thesis using False pos by (auto simp: gc_decref_child_def gc_updates)
  qed
qed

lemma dec_children:
  assumes "dec_inv rt0 vs es rt" and "wf_heap rt0" and "set vs \<subseteq> set (gc_obj_list rt0)"
    and "set cs \<subseteq> set (gc_obj_list rt0)"
    and "\<And>c. c \<in> set (gc_obj_list rt0) \<Longrightarrow> int (count_list (es @ cs) c) \<le> ref_count rt0 c"
  shows "\<exists>rt'. mark_all gc_decref_child cs rt = Some rt' \<and> dec_inv rt0 vs (es @ cs) rt'"
  using assms
proof (induction cs arbitrary: es rt)
  case (Cons c cs)
  have "int (count_list (es @ [c]) c) \<le> ref_count rt0 c" using Cons.prems(4) Cons.prems(5) [of c] by simp
  moreover have "\<And>p. p \<in> set (gc_obj_list rt0) \<Longrightarrow> mark rt0 p = 0" using Cons.prems(2) by (simp add: wf_heap_def)
  ultimately obtain rt1 where "gc_decref_child c rt = Some rt1" "dec_inv rt0 vs (es @ [c]) rt1"
    using dec_child [OF Cons.prems(1-3), of c] Cons.prems(4) by (metis list.set_intros(1) subsetD)
  then show ?case using Cons.IH [of "es @ [c]" rt1] Cons.prems(2-5) by auto
qed simp

text \<open>One iteration of the loop.\<close>

lemma dec_visit:
  assumes inv: "dec_inv rt0 vs (edges rt0 vs) rt" and wf: "wf_heap rt0" and G: "gc_obj_list rt0 = vs @ p # ws"
  shows "\<exists>rt'. mark_children gc_decref_child p rt = Some rt' \<and>
    dec_inv rt0 (vs @ [p]) (edges rt0 (vs @ [p]))
      (if ref_count rt' p = 0 then to_tmp p (set_mark p 1 rt') else set_mark p 1 rt')"
proof -
  have d: "distinct (gc_obj_list rt0)" and pG: "p \<in> set (gc_obj_list rt0)" "p \<notin> set vs"
    using wf G by (auto simp: wf_heap_def)
  have "int (count_list (edges rt0 vs @ kids rt0 p) c) \<le> ref_count rt0 c" if "c \<in> set (gc_obj_list rt0)" for c
  proof -
    have "int (count_list (edges rt0 (gc_obj_list rt0)) c) \<le> ref_count rt0 c" using wf that by (simp add: wf_heap_def)
    then show ?thesis by (simp add: G)
  qed
  then obtain rt' where r: "mark_all gc_decref_child (kids rt0 p) rt = Some rt'"
    "dec_inv rt0 vs (edges rt0 vs @ kids rt0 p) rt'"
    using dec_children [OF inv wf _ wf_kids(1) [OF wf pG(1)]] G by auto
  have "dec_inv rt0 (vs @ [p]) (edges rt0 vs @ kids rt0 p)
      (if ref_count rt' p = 0 then to_tmp p (set_mark p 1 rt') else set_mark p 1 rt')"
    using r(2) pG d unfolding dec_inv_def
    by (auto simp: gc_updates filter_remove remove1_idem intro!: filter_cong)
  moreover have "objs rt = objs rt0" using inv by (simp add: dec_inv_def)
  ultimately show ?thesis using r(1) wf_kids(2) [OF wf pG(1)] by auto
qed

lemma dec_next:
  assumes "dec_inv rt0 vs es rt" and "wf_heap rt0" and "gc_obj_list rt0 = vs @ p # ws"
  shows "next_link (gc_obj_list rt) p = Some (first_link ws)"
proof -
  have d: "distinct (vs @ p # ws)" using assms(2,3) by (simp add: wf_heap_def)
  have "filter (\<lambda>q. \<not> (q \<in> set vs \<and> ref_count rt q = 0)) (p # ws) = p # ws"
    using d by (auto simp: filter_id_conv)
  then have "gc_obj_list rt = filter (\<lambda>q. \<not> (q \<in> set vs \<and> ref_count rt q = 0)) vs @ p # ws"
    using assms(1,3) by (simp add: dec_inv_def)
  then show ?thesis using d next_link_append by simp
qed

lemma decref_loop_spec:
  assumes "dec_inv rt0 vs (edges rt0 vs) rt" and "wf_heap rt0" and "gc_obj_list rt0 = vs @ ws"
  shows "\<exists>rt'. decref_loop (first_link ws) rt = Some rt' \<and>
    dec_inv rt0 (gc_obj_list rt0) (edges rt0 (gc_obj_list rt0)) rt'"
  using assms
proof (induction ws arbitrary: vs rt)
  case Nil
  then show ?case by (subst decref_loop.simps) (simp add: first_link_def)
next
  case (Cons p ws)
  from dec_visit [OF Cons.prems] obtain rt1 where
    r: "mark_children gc_decref_child p rt = Some rt1"
      "dec_inv rt0 (vs @ [p]) (edges rt0 (vs @ [p]))
        (if ref_count rt1 p = 0 then to_tmp p (set_mark p 1 rt1) else set_mark p 1 rt1)" by blast
  have "p \<notin> set vs" "mark rt0 p = 0" using Cons.prems(2,3) by (auto simp: wf_heap_def)
  then have "mark rt p = 0" using Cons.prems(1) by (simp add: dec_inv_def)
  then have "decref_loop (first_link (p # ws)) rt = decref_loop (first_link ws)
      (if ref_count rt1 p = 0 then to_tmp p (set_mark p 1 rt1) else set_mark p 1 rt1)"
    using r(1) dec_next [OF Cons.prems]
    by (subst decref_loop.simps) (simp add: first_link_def [of "p # ws"] set_mark_def)
  then show ?case using Cons.IH [OF r(2) Cons.prems(2)] Cons.prems(3) by simp
qed

section \<open>Scan\<close>

text \<open>The references an object has from outside the list.\<close>

definition ext :: "gc_state \<Rightarrow> addr \<Rightarrow> int" where
  "ext rt c = ref_count rt c - int (count_list (edges rt (gc_obj_list rt)) c)"

text \<open>The state in the middle of the scan: \<open>es\<close> are the references restored so far.\<close>

definition scan_inv :: "gc_state \<Rightarrow> addr list \<Rightarrow> gc_state \<Rightarrow> bool" where
  "scan_inv rt0 es rt \<longleftrightarrow> objs rt = objs rt0 \<and>
     (\<forall>c. ref_count rt c = ext rt0 c + int (count_list es c)) \<and>
     distinct (gc_obj_list rt @ tmp_obj_list rt) \<and>
     set (gc_obj_list rt) = {p \<in> set (gc_obj_list rt0). 0 < ref_count rt p} \<and>
     set (tmp_obj_list rt) = {p \<in> set (gc_obj_list rt0). ref_count rt p = 0} \<and>
     (\<forall>p \<in> set (gc_obj_list rt). gc_alive rt0 p)"

lemma scan_inv_mark: "scan_inv rt0 es (set_mark p v rt) \<longleftrightarrow> scan_inv rt0 es rt"
  by (simp add: scan_inv_def set_mark_def)

lemma ext_nonneg: "wf_heap rt \<Longrightarrow> p \<in> set (gc_obj_list rt) \<Longrightarrow> 0 \<le> ext rt p"
  by (simp add: wf_heap_def ext_def)

lemma decref_scan_inv:
  assumes inv: "dec_inv rt0 (gc_obj_list rt0) (edges rt0 (gc_obj_list rt0)) rt" and wf: "wf_heap rt0"
  shows "scan_inv rt0 [] rt"
proof -
  have rc: "ref_count rt c = ext rt0 c" for c using inv by (simp add: dec_inv_def ext_def)
  have "gc_obj_list rt = filter (\<lambda>p. ref_count rt p \<noteq> 0) (gc_obj_list rt0)"
    using inv by (auto simp: dec_inv_def intro!: filter_cong)
  then show ?thesis
    using inv wf ext_nonneg [OF wf] unfolding scan_inv_def dec_inv_def rc
    by (auto simp: wf_heap_def rc ext_def less_le intro: gc_alive.root)
qed

lemma scan_child:
  assumes "scan_inv rt0 es rt" and "wf_heap rt0" and "c \<in> set (gc_obj_list rt0)" and "gc_alive rt0 c"
  shows "\<exists>rt' new. gc_scan_incref_child c rt = Some rt' \<and> scan_inv rt0 (es @ [c]) rt' \<and>
    gc_obj_list rt' = gc_obj_list rt @ new \<and> (\<forall>p. mark rt p = 0 \<longrightarrow> mark rt' p = 0) \<and> (\<forall>p \<in> set new. mark rt' p = 0)"
proof (cases "ref_count rt c = 0")
  case True
  let ?r = "set_mark c 0 (to_gc c (add_ref c 1 rt))"
  have c: "c \<in> set (tmp_obj_list rt)" "c \<notin> set (gc_obj_list rt)" using assms True by (auto simp: scan_inv_def)
  have "gc_scan_incref_child c rt = Some ?r" using True by (simp add: gc_scan_incref_child_def gc_updates)
  moreover have "scan_inv rt0 (es @ [c]) ?r"
    using assms c True unfolding scan_inv_def
    by (auto simp: gc_updates remove1_idem dest: notin_set_remove1)
  ultimately show ?thesis using c by (intro exI [of _ ?r] exI [of _ "[c]"]) (simp add: gc_updates remove1_idem)
next
  case False
  have "0 \<le> ref_count rt c" using assms ext_nonneg [of rt0 c] by (simp add: scan_inv_def)
  then have "scan_inv rt0 (es @ [c]) (add_ref c 1 rt)"
    using assms False unfolding scan_inv_def by (auto simp: gc_updates)
  then show ?thesis using False by (intro exI [of _ "add_ref c 1 rt"] exI [of _ "[]"])
      (simp add: gc_scan_incref_child_def gc_updates)
qed

lemma scan_children:
  assumes "scan_inv rt0 es rt" and "wf_heap rt0" and "set cs \<subseteq> set (gc_obj_list rt0)" and "\<forall>c \<in> set cs. gc_alive rt0 c"
  shows "\<exists>rt' new. mark_all gc_scan_incref_child cs rt = Some rt' \<and> scan_inv rt0 (es @ cs) rt' \<and>
    gc_obj_list rt' = gc_obj_list rt @ new \<and> (\<forall>p. mark rt p = 0 \<longrightarrow> mark rt' p = 0) \<and> (\<forall>p \<in> set new. mark rt' p = 0)"
  using assms
proof (induction cs arbitrary: es rt)
  case (Cons c cs)
  from scan_child [OF Cons.prems(1,2), of c] Cons.prems(3,4) obtain rt1 new1 where
    1: "gc_scan_incref_child c rt = Some rt1" "scan_inv rt0 (es @ [c]) rt1" "gc_obj_list rt1 = gc_obj_list rt @ new1"
      "\<forall>p. mark rt p = 0 \<longrightarrow> mark rt1 p = 0" "\<forall>p \<in> set new1. mark rt1 p = 0" by auto
  from Cons.IH [OF 1(2) Cons.prems(2)] Cons.prems(3,4) obtain rt2 new2 where
    2: "mark_all gc_scan_incref_child cs rt1 = Some rt2" "scan_inv rt0 (es @ c # cs) rt2"
      "gc_obj_list rt2 = gc_obj_list rt1 @ new2" "\<forall>p. mark rt1 p = 0 \<longrightarrow> mark rt2 p = 0"
      "\<forall>p \<in> set new2. mark rt2 p = 0" by auto
  then show ?case using 1 by (intro exI [of _ rt2] exI [of _ "new1 @ new2"]) auto
qed simp

text \<open>The list grows while it is scanned, but never beyond the number of objects.\<close>

lemma scan_loop_spec:
  assumes "scan_inv rt0 (edges rt0 ps) rt" and "wf_heap rt0" and "gc_obj_list rt = ps @ ws"
    and "\<forall>p \<in> set ps. mark rt p = 0"
  shows "\<exists>rt'. scan_loop (first_link ws) rt = Some rt' \<and> scan_inv rt0 (edges rt0 (gc_obj_list rt')) rt' \<and>
    (\<forall>p \<in> set (gc_obj_list rt'). mark rt' p = 0)"
  using assms
proof (induction "length (gc_obj_list rt0) - length ps" arbitrary: ps ws rt rule: less_induct)
  case less
  have d: "distinct (ps @ ws)" and sub: "set (ps @ ws) \<subseteq> set (gc_obj_list rt0)"
    using less.prems(1,3) by (auto simp: scan_inv_def)
  show ?case
  proof (cases ws)
    case Nil
    then show ?thesis using less.prems by (subst scan_loop.simps) (simp add: first_link_def)
  next
    case (Cons p ws1)
    have p: "p \<in> set (gc_obj_list rt0)" "0 < ref_count rt p" "gc_alive rt0 p"
      using less.prems(1,3) Cons by (auto simp: scan_inv_def)
    have "scan_inv rt0 (edges rt0 ps) (set_mark p 0 rt)"
      using less.prems(1) by (simp add: scan_inv_mark)
    then obtain rt1 new where r: "mark_all gc_scan_incref_child (kids rt0 p) (set_mark p 0 rt) = Some rt1"
      "scan_inv rt0 (edges rt0 (ps @ [p])) rt1" "gc_obj_list rt1 = (ps @ [p]) @ ws1 @ new"
      "\<forall>q. mark (set_mark p 0 rt) q = 0 \<longrightarrow> mark rt1 q = 0"
      using scan_children [of rt0 "edges rt0 ps" "set_mark p 0 rt" "kids rt0 p"] less.prems(2,3) Cons
        wf_kids(1) [OF less.prems(2) p(1)] gc_alive.child [OF p(3)]
      by (auto simp: set_mark_def)
    have "objs (set_mark p 0 rt) = objs rt0" using less.prems(1) by (simp add: scan_inv_def set_mark_def)
    then have "mark_children gc_scan_incref_child p (set_mark p 0 rt) = Some rt1"
      using wf_kids(2) [OF less.prems(2) p(1)] r(1) by simp
    moreover have "next_link (gc_obj_list rt1) p = Some (first_link (ws1 @ new))"
      using next_link_append [of p ps "ws1 @ new"] r(3) d Cons by simp
    ultimately have step: "scan_loop (first_link ws) rt = scan_loop (first_link (ws1 @ new)) rt1"
      using p(2) Cons by (subst scan_loop.simps) (simp add: first_link_def [of "p # ws1"])
    have "length (ps @ [p]) \<le> length (gc_obj_list rt0)"
      using d sub Cons card_mono [of "set (gc_obj_list rt0)" "set (ps @ [p])"] card_length [of "gc_obj_list rt0"]
        distinct_card [of "ps @ [p]"] by (auto simp: le_trans)
    then have "length (gc_obj_list rt0) - length (ps @ [p]) < length (gc_obj_list rt0) - length ps" by simp
    moreover have "\<forall>q \<in> set (ps @ [p]). mark rt1 q = 0" using r(4) less.prems(4) by (auto simp: set_mark_def)
    ultimately show ?thesis using less.hyps [OF _ r(2) less.prems(2) r(3)] step by simp
  qed
qed

lemma restore_children:
  "\<exists>rt'. mark_all gc_scan_incref_child2 cs rt = Some rt' \<and>
    rt' = rt\<lparr>ref_count := \<lambda>c. ref_count rt c + int (count_list cs c)\<rparr>"
proof (induction cs arbitrary: rt)
  case (Cons c cs)
  show ?case using Cons [of "add_ref c 1 rt"]
    by (auto simp: gc_scan_incref_child2_def add_ref_def fun_eq_iff)
qed simp

lemma restore_loop_spec:
  assumes "objs rt = objs rt0" and "wf_heap rt0" and "tmp_obj_list rt = us @ ws" and "distinct (us @ ws)"
    and "set ws \<subseteq> set (gc_obj_list rt0)"
  shows "restore_loop (first_link ws) rt =
    Some (rt\<lparr>ref_count := \<lambda>c. ref_count rt c + int (count_list (edges rt0 ws) c)\<rparr>)"
  using assms
proof (induction ws arbitrary: us rt)
  case Nil
  then show ?case by (subst restore_loop.simps) (simp add: first_link_def)
next
  case (Cons p ws)
  let ?r = "rt\<lparr>ref_count := \<lambda>c. ref_count rt c + int (count_list (kids rt0 p) c)\<rparr>"
  have "mark_children gc_scan_incref_child2 p rt = Some ?r"
    using wf_kids(2) [OF Cons.prems(2), of p rt] restore_children [of "kids rt0 p" rt] Cons.prems(1,5) by simp
  moreover have "next_link (tmp_obj_list ?r) p = Some (first_link ws)"
    using next_link_append [of p us ws] Cons.prems(3,4) by simp
  ultimately have "restore_loop (first_link (p # ws)) rt = restore_loop (first_link ws) ?r"
    by (subst restore_loop.simps) (simp add: first_link_def [of "p # ws"])
  then show ?case using Cons.IH [of ?r "us @ [p]"] Cons.prems by (simp add: add.assoc)
qed

section \<open>The collector separates the garbage\<close>

lemma gc_alive_in_list:
  assumes "gc_alive rt p" and "wf_heap rt"
  shows "p \<in> set (gc_obj_list rt)"
  using assms by induction (use wf_kids(1) in blast)+

lemma scan_complete:
  assumes inv: "scan_inv rt0 (edges rt0 (gc_obj_list rt)) rt" and wf: "wf_heap rt0"
  shows "set (gc_obj_list rt) = {p. gc_alive rt0 p}"
proof -
  have "p \<in> set (gc_obj_list rt)" if "gc_alive rt0 p" for p
    using that
  proof induction
    case (root p)
    then show ?case using inv by (simp add: scan_inv_def ext_def)
  next
    case (child p c)
    have "c \<in> set (edges rt0 (gc_obj_list rt))" using child by (auto simp: edges_def)
    then have "0 < count_list (edges rt0 (gc_obj_list rt)) c" by (simp add: zero_less_iff_neq_zero count_list_0_iff)
    moreover have "c \<in> set (gc_obj_list rt0)"
      using gc_alive_in_list [OF gc_alive.child [OF child(1,2)] wf] .
    ultimately show ?case using inv ext_nonneg [OF wf, of c] by (simp add: scan_inv_def)
  qed
  moreover have "\<forall>p \<in> set (gc_obj_list rt). gc_alive rt0 p" using inv unfolding scan_inv_def by blast
  ultimately show ?thesis by blast
qed

lemma gc_passes:
  assumes "wf_heap rt"
  shows "\<exists>rt1 rt2. gc_decref rt = Some rt1 \<and> gc_scan rt1 = Some rt2 \<and>
    set (gc_obj_list rt2) = {p. gc_alive rt p} \<and>
    set (tmp_obj_list rt2) = {p \<in> set (gc_obj_list rt). \<not> gc_alive rt p} \<and>
    distinct (gc_obj_list rt2 @ tmp_obj_list rt2) \<and>
    ref_count rt2 = ref_count rt \<and> objs rt2 = objs rt \<and> (\<forall>p \<in> set (gc_obj_list rt2). mark rt2 p = 0)"
proof -
  let ?r0 = "rt\<lparr>tmp_obj_list := []\<rparr>"
  have "dec_inv rt [] (edges rt []) ?r0" by (auto simp: dec_inv_def)
  from decref_loop_spec [OF this assms, of "gc_obj_list rt"] obtain rt1 where
    d: "gc_decref rt = Some rt1" "dec_inv rt (gc_obj_list rt) (edges rt (gc_obj_list rt)) rt1"
    by (auto simp: gc_decref_def)
  have "scan_inv rt (edges rt []) rt1" using decref_scan_inv [OF d(2) assms] by simp
  from scan_loop_spec [OF this assms, of "gc_obj_list rt1"] obtain r where
    s: "scan_loop (first_link (gc_obj_list rt1)) rt1 = Some r" "scan_inv rt (edges rt (gc_obj_list r)) r"
      "\<forall>p \<in> set (gc_obj_list r). mark r p = 0" by auto
  let ?rt2 = "r\<lparr>ref_count := \<lambda>c. ref_count r c + int (count_list (edges rt (tmp_obj_list r)) c)\<rparr>"
  have dst: "distinct (gc_obj_list r @ tmp_obj_list r)" and o: "objs r = objs rt"
    and tm: "set (tmp_obj_list r) = set (gc_obj_list rt) - set (gc_obj_list r)"
    and sub: "set (gc_obj_list r) \<subseteq> set (gc_obj_list rt)"
    using s(2) ext_nonneg [OF assms] by (auto simp: scan_inv_def less_le)
  have "gc_scan rt1 = Some ?rt2"
    using s(1) restore_loop_spec [OF o assms, of "[]" "tmp_obj_list r"] dst tm by (auto simp: gc_scan_def)
  moreover have "mset (gc_obj_list r @ tmp_obj_list r) = mset (gc_obj_list rt)"
    using dst tm sub assms by (subst set_eq_iff_mset_eq_distinct [symmetric]) (auto simp: wf_heap_def)
  from count_edges_mset [OF this, of rt] have "ref_count ?rt2 = ref_count rt"
    using s(2) by (simp add: scan_inv_def ext_def fun_eq_iff) (metis add.commute of_nat_add)
  ultimately show ?thesis using d(1) scan_complete [OF s(2) assms] dst tm o s(3)
    by (intro exI [of _ rt1] exI [of _ ?rt2]) auto
qed

text \<open>C3: on a well-formed heap the two passes of the collector return with no assertion failing; the
  object list then holds exactly the objects that are alive, the temporary list exactly the garbage,
  every reference count is as before, and the marks of the objects that stay are reset.\<close>

theorem gc_separates_garbage:
  assumes "wf_heap rt"
  shows "\<exists>rt1 rt2. gc_decref rt = Some rt1 \<and> gc_scan rt1 = Some rt2 \<and>
    set (gc_obj_list rt2) = {p. gc_alive rt p} \<and>
    set (tmp_obj_list rt2) = {p \<in> set (gc_obj_list rt). \<not> gc_alive rt p} \<and>
    distinct (gc_obj_list rt2 @ tmp_obj_list rt2) \<and>
    ref_count rt2 = ref_count rt \<and> objs rt2 = objs rt \<and> (\<forall>p \<in> set (gc_obj_list rt2). mark rt2 p = 0)"
  using assms by (rule gc_passes)

text \<open>Three variable references: 5 refers to itself, 2 is referenced from outside and refers to 3.\<close>

theorem gc_separates_garbage_witness:
  "\<exists>rt1 rt2. gc_decref \<lparr>objs = [5 \<mapsto> VAR_REF True (VRef 5), 2 \<mapsto> VAR_REF True (VRef 3), 3 \<mapsto> VAR_REF True VOther],
      ref_count = (\<lambda>_. 1), mark = (\<lambda>_. 0), gc_obj_list = [5, 2, 3], tmp_obj_list = []\<rparr> = Some rt1 \<and>
    gc_scan rt1 = Some rt2 \<and> set (gc_obj_list rt2) = {2, 3} \<and> set (tmp_obj_list rt2) = {5} \<and>
    ref_count rt2 = (\<lambda>_. 1)"
proof -
  let ?rt = "\<lparr>objs = [5 \<mapsto> VAR_REF True (VRef 5), 2 \<mapsto> VAR_REF True (VRef 3), 3 \<mapsto> VAR_REF True VOther],
      ref_count = (\<lambda>_. 1), mark = (\<lambda>_. 0), gc_obj_list = [5, 2, 3], tmp_obj_list = []\<rparr>"
  have k: "kids ?rt 5 = [5]" "kids ?rt 2 = [3]" "kids ?rt 3 = []"
    by (simp_all add: kids_def gc_children_def JS_MarkValue_def)
  have wf: "wf_heap ?rt" by (simp add: wf_heap_def gc_children_def JS_MarkValue_def k)
  have "p = 2 \<or> p = 3" if "gc_alive ?rt p" for p
    using that by induction (auto simp: k split: if_splits)
  moreover have r2: "gc_alive ?rt 2" by (rule gc_alive.root) (simp_all add: k)
  moreover have "gc_alive ?rt 3" by (rule gc_alive.child [OF r2]) (simp add: k)
  ultimately have alive: "gc_alive ?rt p \<longleftrightarrow> p = 2 \<or> p = 3" for p by blast
  from gc_separates_garbage [OF wf] obtain rt1 rt2 where
    r: "gc_decref ?rt = Some rt1" "gc_scan rt1 = Some rt2" "set (gc_obj_list rt2) = {p. gc_alive ?rt p}"
      "set (tmp_obj_list rt2) = {p \<in> set (gc_obj_list ?rt). \<not> gc_alive ?rt p}" "ref_count rt2 = ref_count ?rt"
    by blast
  have "{p. gc_alive ?rt p} = {2, 3}" "{p \<in> set (gc_obj_list ?rt). \<not> gc_alive ?rt p} = {5}"
    unfolding alive by auto
  with r show ?thesis by (intro exI [of _ rt1] exI [of _ rt2]) simp
qed

text \<open>C34: the passes keep the invariant of the heap, so that the objects that stay can be collected again.\<close>

theorem gc_keeps_wf_heap:
  assumes "wf_heap rt" and "gc_decref rt = Some rt1" and "gc_scan rt1 = Some rt2"
  shows "wf_heap rt2"
proof -
  from gc_passes [OF assms(1)] assms(2,3)
  have r: "set (gc_obj_list rt2) = {p. gc_alive rt p}" "distinct (gc_obj_list rt2)" "ref_count rt2 = ref_count rt"
    "objs rt2 = objs rt" "\<forall>p \<in> set (gc_obj_list rt2). mark rt2 p = 0" by auto
  have k: "kids rt2 = kids rt" using r(4) by (simp add: kids_def fun_eq_iff)
  have in_list: "p \<in> set (gc_obj_list rt)" if "p \<in> set (gc_obj_list rt2)" for p
    using that r(1) gc_alive_in_list [OF _ assms(1)] by simp
  have "\<exists>gp cs. objs rt2 p = Some gp \<and> gc_children gp = Some cs \<and> set cs \<subseteq> set (gc_obj_list rt2)"
    if p: "p \<in> set (gc_obj_list rt2)" for p
  proof -
    obtain gp cs where c: "objs rt p = Some gp" "gc_children gp = Some cs"
      using assms(1) in_list [OF p] by (auto simp: wf_heap_def)
    then have "set cs \<subseteq> set (gc_obj_list rt2)"
      using p r(1) gc_alive.child [of rt p] by (auto simp: kids_def)
    then show ?thesis using c r(4) by auto
  qed
  moreover have "int (count_list (edges rt2 (gc_obj_list rt2)) p) \<le> ref_count rt2 p" if p: "p \<in> set (gc_obj_list rt2)" for p
  proof -
    let ?ws = "filter (\<lambda>p. p \<notin> set (gc_obj_list rt2)) (gc_obj_list rt)"
    have "mset (gc_obj_list rt) = mset (gc_obj_list rt2 @ ?ws)"
      using r(2) in_list assms(1) by (subst set_eq_iff_mset_eq_distinct [symmetric]) (auto simp: wf_heap_def)
    from count_edges_mset [OF this] have "count_list (edges rt (gc_obj_list rt2)) p \<le> count_list (edges rt (gc_obj_list rt)) p"
      by simp
    then show ?thesis using assms(1) in_list [OF p] r(3) k by (auto simp: wf_heap_def edges_def)
  qed
  ultimately show ?thesis using r by (simp add: wf_heap_def)
qed

theorem gc_keeps_wf_heap_witness:
  "wf_heap \<lparr>objs = [5 \<mapsto> VAR_REF True (VRef 5), 2 \<mapsto> VAR_REF True VOther], ref_count = (\<lambda>_. 1),
    mark = (\<lambda>p. if p = 5 then 1 else 0), gc_obj_list = [2], tmp_obj_list = [5]\<rparr>"
proof -
  let ?o = "[5 \<mapsto> VAR_REF True (VRef 5), 2 \<mapsto> VAR_REF True VOther]"
  let ?rt = "\<lparr>objs = ?o, ref_count = (\<lambda>_. 1), mark = (\<lambda>_. 0), gc_obj_list = [5, 2], tmp_obj_list = []\<rparr>"
  let ?rt1 = "\<lparr>objs = ?o, ref_count = (\<lambda>p. if p = 5 then 0 else 1), mark = (\<lambda>p. if p = 5 \<or> p = 2 then 1 else 0),
    gc_obj_list = [2], tmp_obj_list = [5]\<rparr>"
  let ?rt2 = "\<lparr>objs = ?o, ref_count = (\<lambda>_. 1), mark = (\<lambda>p. if p = 5 then 1 else 0), gc_obj_list = [2], tmp_obj_list = [5]\<rparr>"
  note defs = mark_children_def gc_children_def JS_MarkValue_def gc_updates first_link_def fun_eq_iff
  have k: "kids ?rt 5 = [5]" "kids ?rt 2 = []" by (simp_all add: kids_def gc_children_def JS_MarkValue_def)
  have "wf_heap ?rt" by (simp add: wf_heap_def gc_children_def JS_MarkValue_def k)
  moreover have "gc_decref ?rt = Some ?rt1"
    by (simp add: gc_decref_def gc_decref_child_def decref_loop.simps [of "Some _"] decref_loop.simps [of None] defs)
  moreover have "gc_scan ?rt1 = Some ?rt2"
    by (simp add: gc_scan_def gc_scan_incref_child2_def scan_loop.simps [of "Some _"] scan_loop.simps [of None]
        restore_loop.simps [of "Some _"] restore_loop.simps [of None] defs)
  ultimately show ?thesis by (rule gc_keeps_wf_heap)
qed

end
