(* ===== verification/Shapes.thy ===== *)
theory Shapes
  imports QJS_Prelude
begin

text \<open>
  The property tables of objects in \<open>quickjs.c\<close>: a shape holds the names and flags of the properties and
  a hash table that chains them through 26-bit indices; adding, finding, removing, rehashing and
  compacting.  The shape owns its table here; the sharing of shapes between objects is in the theory on
  top of this one.  Allocation failures are arguments of the operations.
\<close>

unbundle bit_operations_syntax

section \<open>Data\<close>

type_synonym atom = u32

record shape_property =
  pr_hash_next :: "26 word"
  pr_flags :: "6 word"
  pr_atom :: atom

text \<open>The hash table lies in memory before the shape; it is a list here, the entry of bucket \<open>h\<close> at
  position \<open>h\<close>.  The number of properties \<open>prop_count\<close> is the length of the list of properties, the
  size \<open>prop_size\<close> is what is allocated.\<close>

record shape =
  sh_ref_count :: int
  sh_is_hashed :: bool
  sh_has_small_array_index :: bool
  sh_hash :: u32
  sh_proto :: "64 word"
  sh_prop_hash :: "u32 list"
  sh_prop_hash_mask :: u32
  sh_prop_size :: nat
  sh_deleted_prop_count :: nat
  sh_prop :: "shape_property list"

abbreviation JS_ATOM_NULL :: atom where "JS_ATOM_NULL \<equiv> 0"

definition JS_ATOM_TAG_INT :: atom where
  "JS_ATOM_TAG_INT = 0x80000000"

definition atom_is_tagged_int :: "atom \<Rightarrow> bool" where
  "atom_is_tagged_int v \<longleftrightarrow> v AND JS_ATOM_TAG_INT \<noteq> 0"

definition bucket :: "atom \<Rightarrow> u32 \<Rightarrow> nat" where
  "bucket atom hm = unat (atom AND hm)"

section \<open>Lookup\<close>

text \<open>The walk along a chain from the index \<open>h\<close>; zero ends the chain.\<close>

partial_function (option) find_loop :: "shape_property list \<Rightarrow> atom \<Rightarrow> nat \<Rightarrow> nat option option" where
  "find_loop prop atom h =
     (if h = 0 then Some None
      else do {
        pr \<leftarrow> rd prop (h - 1);
        if pr_atom pr = atom then Some (Some (h - 1))
        else find_loop prop atom (unat (pr_hash_next pr))
      })"

definition find_own_property1 :: "shape \<Rightarrow> atom \<Rightarrow> nat option option" where
  "find_own_property1 sh atom = do {
     h \<leftarrow> rd (sh_prop_hash sh) (bucket atom (sh_prop_hash_mask sh));
     find_loop (sh_prop sh) atom (unat h)
   }"

section \<open>Insertion\<close>

text \<open>Linking the property of index \<open>i\<close> at the front of its chain; \<open>hash_next\<close> has 26 bits.\<close>

definition hash_link :: "u32 list \<Rightarrow> u32 \<Rightarrow> nat \<Rightarrow> shape_property \<Rightarrow> (u32 list \<times> shape_property) option" where
  "hash_link tab hm i pr = do {
     let h = bucket (pr_atom pr) hm;
     v \<leftarrow> rd tab h;
     let pr = pr\<lparr>pr_hash_next := ucast v\<rparr>;
     tab \<leftarrow> wr tab h (of_nat (i + 1));
     Some (tab, pr)
   }"

text \<open>The loop of \<open>resize_properties\<close> that links all live properties into an empty table.\<close>

fun rehash_loop :: "u32 \<Rightarrow> nat \<Rightarrow> shape_property list \<Rightarrow> u32 list \<Rightarrow> (shape_property list \<times> u32 list) option" where
  "rehash_loop hm i [] tab = Some ([], tab)"
| "rehash_loop hm i (pr # prs) tab = do {
     (tab, pr) \<leftarrow> (if pr_atom pr \<noteq> JS_ATOM_NULL then hash_link tab hm i pr else Some (tab, pr));
     (prs, tab) \<leftarrow> rehash_loop hm (Suc i) prs tab;
     Some (pr # prs, tab)
   }"

text \<open>The size of the hash table is doubled until it reaches the number of properties; \<open>n\<close> is the size
  less one.\<close>

function grow_mask :: "nat \<Rightarrow> nat \<Rightarrow> nat" where
  "grow_mask n new_size = (if n + 1 < new_size then grow_mask (2 * (n + 1) - 1) new_size else n)"
  by pat_completeness auto
termination
  by (relation "measure (\<lambda>(n, new_size). new_size - n)") auto

declare grow_mask.simps [simp del]

text \<open>The shape part of \<open>resize_properties\<close>; \<open>None\<close> stands for a failed access, \<open>alloc\<close> tells whether the
  memory is there.\<close>

definition resize_shape :: "bool \<Rightarrow> nat \<Rightarrow> shape \<Rightarrow> (shape \<times> bool) option" where
  "resize_shape alloc new_size sh = do {
     let new_hash_mask = grow_mask (unat (sh_prop_hash_mask sh)) new_size;
     if \<not> alloc then Some (sh, False)
     else if new_hash_mask + 1 \<noteq> unat (sh_prop_hash_mask sh) + 1 then do {
       (prs, tab) \<leftarrow> rehash_loop (of_nat new_hash_mask) 0 (sh_prop sh) (replicate (new_hash_mask + 1) 0);
       Some (sh\<lparr>sh_prop := prs, sh_prop_hash := tab, sh_prop_hash_mask := of_nat new_hash_mask,
              sh_prop_size := new_size\<rparr>, True)
     } else Some (sh\<lparr>sh_prop_size := new_size\<rparr>, True)
   }"

text \<open>The new property at the end of the table: the last part of \<open>add_shape_property\<close>.\<close>

definition append_property :: "atom \<Rightarrow> 6 word \<Rightarrow> shape \<Rightarrow> shape option" where
  "append_property atom prop_flags sh =
     (let n = length (sh_prop sh) in
      if n < sh_prop_size sh then do {
        (tab, pr) \<leftarrow> hash_link (sh_prop_hash sh) (sh_prop_hash_mask sh) n
          \<lparr>pr_hash_next = 0, pr_flags = prop_flags, pr_atom = atom\<rparr>;
        Some (sh\<lparr>sh_prop := sh_prop sh @ [pr], sh_prop_hash := tab,
          sh_has_small_array_index := (sh_has_small_array_index sh \<or> atom_is_tagged_int atom)\<rparr>)
      } else None)"

section \<open>Removal\<close>

text \<open>The walk of \<open>delete_property\<close>: it also remembers the property before, \<open>lpr\<close>.\<close>

partial_function (option) delete_walk ::
    "shape_property list \<Rightarrow> atom \<Rightarrow> nat option \<Rightarrow> nat \<Rightarrow> (nat option \<times> nat) option option" where
  "delete_walk prop atom lpr h =
     (if h = 0 then Some None
      else do {
        pr \<leftarrow> rd prop (h - 1);
        if pr_atom pr = atom then Some (Some (lpr, h - 1))
        else delete_walk prop atom (Some (h - 1)) (unat (pr_hash_next pr))
      })"

text \<open>Unlinking the property \<open>i\<close> and clearing its entry.\<close>

definition unlink_property :: "nat option \<Rightarrow> nat \<Rightarrow> shape \<Rightarrow> shape option" where
  "unlink_property lpr i sh = do {
     pr \<leftarrow> rd (sh_prop sh) i;
     sh \<leftarrow> (case lpr of
        Some l \<Rightarrow> do {
          lp \<leftarrow> rd (sh_prop sh) l;
          prs \<leftarrow> wr (sh_prop sh) l (lp\<lparr>pr_hash_next := pr_hash_next pr\<rparr>);
          Some (sh\<lparr>sh_prop := prs\<rparr>)
        }
      | None \<Rightarrow> do {
          tab \<leftarrow> wr (sh_prop_hash sh) (bucket (pr_atom pr) (sh_prop_hash_mask sh)) (ucast (pr_hash_next pr));
          Some (sh\<lparr>sh_prop_hash := tab\<rparr>)
        });
     prs \<leftarrow> wr (sh_prop sh) i (pr\<lparr>pr_flags := 0, pr_atom := JS_ATOM_NULL\<rparr>);
     Some (sh\<lparr>sh_prop := prs, sh_deleted_prop_count := sh_deleted_prop_count sh + 1\<rparr>)
   }"

section \<open>Compaction\<close>

text \<open>The table is halved while it stays at least as large as the number of properties.\<close>

partial_function (option) shrink_hash :: "nat \<Rightarrow> nat \<Rightarrow> nat option" where
  "shrink_hash new_hash_size new_size =
     (if new_hash_size div 2 \<ge> new_size then shrink_hash (new_hash_size div 2) new_size
      else Some new_hash_size)"

text \<open>The loop over the old properties and values: live ones are copied down and linked.  The result is the
  new properties, the values that were moved, and the table.\<close>

fun compact_loop :: "u32 \<Rightarrow> nat \<Rightarrow> shape_property list \<Rightarrow> 'v list \<Rightarrow> u32 list \<Rightarrow>
    (shape_property list \<times> 'v list \<times> u32 list) option" where
  "compact_loop hm j [] vs tab = Some ([], [], tab)"
| "compact_loop hm j (pr # prs) [] tab = None"
| "compact_loop hm j (pr # prs) (v # vs) tab =
     (if pr_atom pr \<noteq> JS_ATOM_NULL then do {
        (tab, pr) \<leftarrow> hash_link tab hm j pr;
        (prs, ws, tab) \<leftarrow> compact_loop hm (Suc j) prs vs tab;
        Some (pr # prs, v # ws, tab)
      } else compact_loop hm j prs vs tab)"

definition JS_PROP_INITIAL_SIZE :: nat where
  "JS_PROP_INITIAL_SIZE = 2"

definition JS_PROP_INITIAL_HASH_SIZE :: nat where
  "JS_PROP_INITIAL_HASH_SIZE = 4"

text \<open>\<open>compact_properties\<close> on the shape and the property values of the object; the two flags tell whether
  the new shape could be allocated and whether the values could be reallocated.  The assertions are
  failures.\<close>

definition compact_properties :: "bool \<Rightarrow> bool \<Rightarrow> shape \<Rightarrow> 'v list \<Rightarrow> (shape \<times> 'v list \<times> int) option" where
  "compact_properties alloc_shape alloc_prop sh prop = do {
     let new_size = max JS_PROP_INITIAL_SIZE (length (sh_prop sh) - sh_deleted_prop_count sh);
     if sh_is_hashed sh \<or> \<not> new_size \<le> sh_prop_size sh then None
     else do {
       new_hash_size \<leftarrow> shrink_hash (unat (sh_prop_hash_mask sh) + 1) new_size;
       if \<not> alloc_shape then Some (sh, prop, -1)
       else do {
         (prs, ws, tab) \<leftarrow> compact_loop (of_nat (new_hash_size - 1)) 0 (sh_prop sh) prop (replicate new_hash_size 0);
         if length prs \<noteq> length (sh_prop sh) - sh_deleted_prop_count sh then None
         else do {
           let prop = ws @ drop (length ws) prop;
           Some (sh\<lparr>sh_prop := prs, sh_prop_hash := tab, sh_prop_hash_mask := of_nat (new_hash_size - 1),
              sh_prop_size := new_size, sh_deleted_prop_count := 0\<rparr>,
             if alloc_prop then take new_size prop else prop, 0)
         }
       }
     }
   }"

section \<open>The invariant of a shape\<close>

definition live :: "shape_property \<Rightarrow> bool" where
  "live pr \<longleftrightarrow> pr_atom pr \<noteq> JS_ATOM_NULL"

text \<open>One plus the index of the last live property of bucket \<open>h\<close> among the first \<open>n\<close>, or zero.\<close>

fun last_in :: "u32 \<Rightarrow> nat \<Rightarrow> shape_property list \<Rightarrow> nat \<Rightarrow> nat" where
  "last_in hm h prs 0 = 0"
| "last_in hm h prs (Suc n) =
     (if live (prs ! n) \<and> bucket (pr_atom (prs ! n)) hm = h then Suc n else last_in hm h prs n)"

definition table_size :: "u32 \<Rightarrow> nat \<Rightarrow> bool" where
  "table_size hm n \<longleftrightarrow> (\<exists>k < 32. n = 2 ^ k \<and> unat hm = 2 ^ k - 1)"

text \<open>Every chain leads through the live properties of its bucket, from the last to the first.\<close>

definition chains_ok :: "u32 \<Rightarrow> u32 list \<Rightarrow> shape_property list \<Rightarrow> bool" where
  "chains_ok hm tab prs \<longleftrightarrow>
     (\<forall>h < length tab. unat (tab ! h) = last_in hm h prs (length prs)) \<and>
     (\<forall>i < length prs. live (prs ! i) \<longrightarrow>
        unat (pr_hash_next (prs ! i)) = last_in hm (bucket (pr_atom (prs ! i)) hm) prs i)"

definition shape_ok :: "shape \<Rightarrow> bool" where
  "shape_ok sh \<longleftrightarrow> table_size (sh_prop_hash_mask sh) (length (sh_prop_hash sh)) \<and>
     length (sh_prop sh) \<le> sh_prop_size sh \<and> length (sh_prop sh) < 2 ^ 26 \<and>
     2 \<le> sh_prop_size sh \<and> sh_prop_size sh \<le> 2 ^ 27 \<and>
     chains_ok (sh_prop_hash_mask sh) (sh_prop_hash sh) (sh_prop sh) \<and>
     distinct (map pr_atom (filter live (sh_prop sh))) \<and>
     sh_deleted_prop_count sh = length (filter (\<lambda>pr. \<not> live pr) (sh_prop sh))"

lemma last_in_le: "last_in hm h prs n \<le> n"
  by (induction n) auto

lemma last_in_cong:
  "(\<And>i. i < n \<Longrightarrow> pr_atom (prs ! i) = pr_atom (qrs ! i)) \<Longrightarrow> last_in hm h prs n = last_in hm h qrs n"
  by (induction n) (auto simp: live_def)

lemma last_in_append: "n \<le> length prs \<Longrightarrow> last_in hm h (prs @ qrs) n = last_in hm h prs n"
  by (rule last_in_cong) (simp add: nth_append)

lemma bucket_less: "table_size hm n \<Longrightarrow> bucket a hm < n"
  unfolding bucket_def table_size_def
  using word_and_le1 [of a hm] by (auto simp: word_le_nat_alt and.commute le_less_trans)

text \<open>Entries of a well-formed table fit in 26 bits.\<close>

lemma last_in_26: "length prs < 2 ^ 26 \<Longrightarrow> n \<le> length prs \<Longrightarrow> last_in hm h prs n < 2 ^ 26"
  using last_in_le [of hm h prs n] by simp

lemma ucast_26: "unat v < 2 ^ 26 \<Longrightarrow> unat (ucast v :: 26 word) = unat (v :: u32)"
  by (simp add: unsigned_ucast_eq take_bit_nat_eq_self)

lemma ucast_32: "unat (ucast (v :: 26 word) :: u32) = unat v"
  using unsigned_less [of v, where 'a = nat] by (simp add: unsigned_ucast_eq take_bit_nat_eq_self)

section \<open>Lookup\<close>

text \<open>The reference: the last property with the atom among the first \<open>n\<close>.\<close>

fun find_in :: "atom \<Rightarrow> shape_property list \<Rightarrow> nat \<Rightarrow> nat option" where
  "find_in a prs 0 = None"
| "find_in a prs (Suc n) = (if live (prs ! n) \<and> pr_atom (prs ! n) = a then Some n else find_in a prs n)"

lemma find_in_Some: "find_in a prs n = Some i \<Longrightarrow> i < n \<and> live (prs ! i) \<and> pr_atom (prs ! i) = a"
  by (induction n) (auto split: if_splits)

lemma find_in_None: "find_in a prs n = None \<longleftrightarrow> (\<forall>i < n. \<not> (live (prs ! i) \<and> pr_atom (prs ! i) = a))"
  by (induction n) (auto simp: less_Suc_eq split: if_splits)

lemma find_loop_spec:
  assumes "\<forall>i < length prs. live (prs ! i) \<longrightarrow>
      unat (pr_hash_next (prs ! i)) = last_in hm (bucket (pr_atom (prs ! i)) hm) prs i"
    and "n \<le> length prs"
  shows "find_loop prs a (last_in hm (bucket a hm) prs n) = Some (find_in a prs n)"
  using assms(2)
proof (induction n)
  case 0
  then show ?case by (subst find_loop.simps) simp
next
  case (Suc n)
  show ?case
  proof (cases "live (prs ! n) \<and> bucket (pr_atom (prs ! n)) hm = bucket a hm")
    case True
    then have "unat (pr_hash_next (prs ! n)) = last_in hm (bucket a hm) prs n" using assms(1) Suc.prems by simp
    then show ?thesis using True Suc by (subst find_loop.simps) (simp add: rd_def)
  next
    case False
    then show ?thesis using Suc by auto
  qed
qed

lemma find_own_property1_spec:
  assumes "shape_ok sh"
  shows "find_own_property1 sh a = Some (find_in a (sh_prop sh) (length (sh_prop sh)))"
proof -
  have "bucket a (sh_prop_hash_mask sh) < length (sh_prop_hash sh)"
    using assms bucket_less by (simp add: shape_ok_def)
  then show ?thesis
    using assms find_loop_spec [of "sh_prop sh" "sh_prop_hash_mask sh" "length (sh_prop sh)" a]
    by (simp add: find_own_property1_def shape_ok_def chains_ok_def rd_def)
qed

section \<open>Insertion and rehashing\<close>

text \<open>Linking keeps the chains of a growing prefix.\<close>

definition prefix_ok :: "u32 \<Rightarrow> u32 list \<Rightarrow> shape_property list \<Rightarrow> bool" where
  "prefix_ok hm tab prs \<longleftrightarrow> table_size hm (length tab) \<and> chains_ok hm tab prs"

lemma hash_link_spec:
  assumes ok: "prefix_ok hm tab prs" and n: "length prs + 1 < 2 ^ 26" and a: "pr_atom pr \<noteq> JS_ATOM_NULL"
  shows "\<exists>tab' pr'. hash_link tab hm (length prs) pr = Some (tab', pr') \<and> prefix_ok hm tab' (prs @ [pr']) \<and>
    pr_atom pr' = pr_atom pr \<and> pr_flags pr' = pr_flags pr"
proof -
  let ?h = "bucket (pr_atom pr) hm"
  let ?tab = "tab[?h := of_nat (length prs + 1)]"
  let ?pr = "pr\<lparr>pr_hash_next := ucast (tab ! ?h)\<rparr>"
  have h: "?h < length tab" using ok bucket_less by (auto simp: prefix_ok_def)
  have li: "last_in hm g (prs @ [?pr]) (length prs) = last_in hm g prs (length prs)" for g
    by (rule last_in_append) simp
  have live: "live ?pr" using a by (simp add: live_def)
  have "unat (tab ! ?h) = last_in hm ?h prs (length prs)" using ok h by (simp add: prefix_ok_def chains_ok_def)
  then have nx: "unat (pr_hash_next ?pr) = last_in hm ?h prs (length prs)"
    using ucast_26 [of "tab ! ?h"] last_in_26 [of prs "length prs" hm ?h] n by simp
  have ofn: "unat (of_nat (length prs + 1) :: u32) = length prs + 1"
    using n by (simp only: unsigned_of_nat) (simp add: take_bit_nat_eq_self)
  have "unat (?tab ! g) = last_in hm g (prs @ [?pr]) (length (prs @ [?pr]))" if "g < length ?tab" for g
    using ok that live ofn li by (auto simp: prefix_ok_def chains_ok_def nth_list_update nth_append)
  moreover have "unat (pr_hash_next ((prs @ [?pr]) ! i)) =
      last_in hm (bucket (pr_atom ((prs @ [?pr]) ! i)) hm) (prs @ [?pr]) i"
    if "i < length (prs @ [?pr])" "live ((prs @ [?pr]) ! i)" for i
  proof (cases "i = length prs")
    case True
    then show ?thesis using nx li by simp
  next
    case False
    then have "i < length prs" using that by simp
    then show ?thesis using ok that last_in_append [of i prs hm _ "[?pr]"]
      by (simp add: prefix_ok_def chains_ok_def nth_append)
  qed
  ultimately have "prefix_ok hm ?tab (prs @ [?pr])" using ok by (simp add: prefix_ok_def chains_ok_def)
  moreover have "hash_link tab hm (length prs) pr = Some (?tab, ?pr)"
    using h by (simp add: hash_link_def rd_def wr_def Let_def)
  ultimately show ?thesis by (intro exI [of _ ?tab] exI [of _ ?pr]) simp
qed

lemma prefix_dead:
  assumes "prefix_ok hm tab prs" and "\<not> live pr"
  shows "prefix_ok hm tab (prs @ [pr])"
  using assms last_in_append [of _ prs hm _ "[pr]"]
  by (auto simp: prefix_ok_def chains_ok_def nth_append less_Suc_eq)

lemma prefix_start: "table_size hm n \<Longrightarrow> prefix_ok hm (replicate n 0) []"
  by (simp add: prefix_ok_def chains_ok_def)

text \<open>Properties without their links.\<close>

definition entry :: "shape_property \<Rightarrow> atom \<times> 6 word" where
  "entry pr = (pr_atom pr, pr_flags pr)"

lemma rehash_loop_spec:
  assumes "prefix_ok hm tab ds" and "length (ds @ prs) < 2 ^ 26"
  shows "\<exists>prs' tab'. rehash_loop hm (length ds) prs tab = Some (prs', tab') \<and> prefix_ok hm tab' (ds @ prs') \<and>
    length tab' = length tab \<and> map entry prs' = map entry prs"
  using assms
proof (induction prs arbitrary: ds tab)
  case (Cons pr prs)
  show ?case
  proof (cases "live pr")
    case True
    then obtain tab1 pr1 where l: "hash_link tab hm (length ds) pr = Some (tab1, pr1)" "prefix_ok hm tab1 (ds @ [pr1])"
      "pr_atom pr1 = pr_atom pr" "pr_flags pr1 = pr_flags pr"
      using hash_link_spec [OF Cons.prems(1), of pr] Cons.prems(2) by (auto simp: live_def)
    have "length tab1 = length tab" using l(1) by (auto simp: hash_link_def wr_def bind_Some_iff Let_def split: if_splits)
    then show ?thesis using Cons.IH [OF l(2)] Cons.prems(2) l True by (auto simp: live_def entry_def)
  next
    case False
    then show ?thesis using Cons.IH [OF prefix_dead [OF Cons.prems(1) False]] Cons.prems(2)
      by (auto simp: live_def)
  qed
qed simp

text \<open>What a shape means: names and flags of the live properties in order.\<close>

definition entries :: "shape \<Rightarrow> (atom \<times> 6 word) list" where
  "entries sh = map entry (filter live (sh_prop sh))"

lemma live_as_entry: "map entry (filter live xs) = filter (\<lambda>e. fst e \<noteq> JS_ATOM_NULL) (map entry xs)"
proof -
  have "live = (\<lambda>x. fst (entry x) \<noteq> JS_ATOM_NULL)" by (simp add: fun_eq_iff entry_def live_def)
  then show ?thesis by (simp add: filter_map comp_def)
qed

lemma filter_live_entry: "map entry xs = map entry ys \<Longrightarrow> map entry (filter live xs) = map entry (filter live ys)"
  by (simp only: live_as_entry)

lemma atoms_entry: "map pr_atom (filter live xs) = map fst (map entry (filter live xs))"
  by (simp add: entry_def comp_def)

lemma dead_as_entry:
  "length (filter (\<lambda>pr. \<not> live pr) xs) = length (filter (\<lambda>e. fst e = JS_ATOM_NULL) (map entry xs))"
  by (simp add: filter_map comp_def entry_def live_def)

lemma dead_entry: "map entry xs = map entry ys \<Longrightarrow> length (filter (\<lambda>pr. \<not> live pr) xs) = length (filter (\<lambda>pr. \<not> live pr) ys)"
  by (simp only: dead_as_entry)

lemma append_property_spec:
  assumes ok: "shape_ok sh" and room: "length (sh_prop sh) < sh_prop_size sh" "length (sh_prop sh) + 1 < 2 ^ 26"
    and a: "a \<noteq> JS_ATOM_NULL" "find_in a (sh_prop sh) (length (sh_prop sh)) = None"
  shows "\<exists>sh' tab prs b. append_property a fl sh = Some sh' \<and> shape_ok sh' \<and>
    map entry prs = map entry (sh_prop sh) @ [(a, fl)] \<and>
    sh' = sh\<lparr>sh_prop := prs, sh_prop_hash := tab, sh_has_small_array_index := b\<rparr>"
proof -
  have "prefix_ok (sh_prop_hash_mask sh) (sh_prop_hash sh) (sh_prop sh)" using ok by (simp add: shape_ok_def prefix_ok_def)
  from hash_link_spec [OF this room(2), of "\<lparr>pr_hash_next = 0, pr_flags = fl, pr_atom = a\<rparr>"] a(1) obtain tab pr where
    l: "hash_link (sh_prop_hash sh) (sh_prop_hash_mask sh) (length (sh_prop sh)) \<lparr>pr_hash_next = 0, pr_flags = fl, pr_atom = a\<rparr> = Some (tab, pr)"
      "prefix_ok (sh_prop_hash_mask sh) tab (sh_prop sh @ [pr])" "pr_atom pr = a" "pr_flags pr = fl" by auto
  let ?sh = "sh\<lparr>sh_prop := sh_prop sh @ [pr], sh_prop_hash := tab,
    sh_has_small_array_index := (sh_has_small_array_index sh \<or> atom_is_tagged_int a)\<rparr>"
  have "a \<notin> pr_atom ` set (filter live (sh_prop sh))"
    using a(2) by (auto simp: find_in_None in_set_conv_nth)
  moreover have "live pr" using l(3) a(1) by (simp add: live_def)
  ultimately have "shape_ok ?sh" using ok room l by (auto simp: shape_ok_def prefix_ok_def)
  then show ?thesis using l room(1)
    by (intro exI [of _ ?sh] exI [of _ tab] exI [of _ "sh_prop sh @ [pr]"])
      (auto simp: append_property_def entry_def Let_def)
qed

lemma grow_mask_spec:
  assumes "n + 1 = 2 ^ k" and "k < 32" and "new_size \<le> 2 ^ 31"
  shows "\<exists>k' < 32. grow_mask n new_size + 1 = 2 ^ k' \<and> k \<le> k'"
  using assms
proof (induction n new_size arbitrary: k rule: grow_mask.induct)
  case (1 n new_size)
  show ?case
  proof (cases "n + 1 < new_size")
    case True
    then have "(2::nat) ^ k < 2 ^ 31" using "1.prems" by linarith
    then have "k < 31" by (rule power_less_imp_less_exp [rotated]) simp
    then have "Suc k < 32" by simp
    moreover have "2 * (n + 1) - 1 + 1 = 2 ^ Suc k" using "1.prems"(1) by simp
    ultimately obtain k' where "k' < 32" "grow_mask (2 * (n + 1) - 1) new_size + 1 = 2 ^ k'" "Suc k \<le> k'"
      using "1.IH" [OF True, of "Suc k"] "1.prems"(3) by blast
    then show ?thesis using True by (subst grow_mask.simps) auto
  next
    case False
    then show ?thesis using "1.prems" by (subst grow_mask.simps) auto
  qed
qed

lemma table_size_of_nat: "n + 1 = 2 ^ k \<Longrightarrow> k < 32 \<Longrightarrow> table_size (of_nat n) (n + 1)"
proof -
  assume n: "n + 1 = 2 ^ k" and k: "k < 32"
  then have "n + 1 \<le> 2 ^ 31" using power_increasing [of k 31 "2::nat"] by simp
  then have "unat (of_nat n :: u32) = n" by (simp only: unsigned_of_nat) (simp add: take_bit_nat_eq_self)
  then show ?thesis using n k by (auto simp: table_size_def)
qed

lemma resize_shape_spec:
  assumes ok: "shape_ok sh" and size: "length (sh_prop sh) \<le> new_size" "2 \<le> new_size" "new_size \<le> 2 ^ 27"
  shows "\<exists>sh' tab prs hm. resize_shape alloc new_size sh = Some (sh', alloc) \<and> shape_ok sh' \<and>
    map entry prs = map entry (sh_prop sh) \<and>
    sh' = (if alloc then sh\<lparr>sh_prop := prs, sh_prop_hash := tab, sh_prop_hash_mask := hm, sh_prop_size := new_size\<rparr> else sh)"
proof (cases "alloc \<and> grow_mask (unat (sh_prop_hash_mask sh)) new_size + 1 \<noteq> unat (sh_prop_hash_mask sh) + 1")
  case True
  let ?g = "grow_mask (unat (sh_prop_hash_mask sh)) new_size"
  from ok obtain k where k: "k < 32" "unat (sh_prop_hash_mask sh) + 1 = 2 ^ k" by (auto simp: shape_ok_def table_size_def)
  with grow_mask_spec [of _ k new_size] size(3) obtain k' where k': "k' < 32" "?g + 1 = 2 ^ k'" by fastforce
  have "prefix_ok (of_nat ?g) (replicate (?g + 1) 0) []"
    using table_size_of_nat [OF k'(2,1)] by (rule prefix_start)
  from rehash_loop_spec [OF this, of "sh_prop sh"] ok obtain prs tab where
    r: "rehash_loop (of_nat ?g) 0 (sh_prop sh) (replicate (?g + 1) 0) = Some (prs, tab)" "prefix_ok (of_nat ?g) tab prs"
      "map entry prs = map entry (sh_prop sh)" by (auto simp: shape_ok_def)
  let ?sh = "sh\<lparr>sh_prop := prs, sh_prop_hash := tab, sh_prop_hash_mask := of_nat ?g, sh_prop_size := new_size\<rparr>"
  have "length prs = length (sh_prop sh)" using r(3) by (rule map_eq_imp_length_eq)
  then have "shape_ok ?sh" using ok r(2) size filter_live_entry [OF r(3)] dead_entry [OF r(3)]
    by (auto simp: shape_ok_def prefix_ok_def atoms_entry)
  moreover have "resize_shape alloc new_size sh = Some (?sh, True)"
    using True r(1) by (simp add: resize_shape_def Let_def)
  ultimately show ?thesis using True r(3)
    by (intro exI [of _ ?sh] exI [of _ tab] exI [of _ prs] exI [of _ "of_nat ?g"]) simp
next
  case False
  let ?sh = "if alloc then sh\<lparr>sh_prop_size := new_size\<rparr> else sh"
  have "shape_ok ?sh" using ok size by (simp add: shape_ok_def)
  moreover have "resize_shape alloc new_size sh = Some (?sh, alloc)"
    using False by (auto simp: resize_shape_def Let_def)
  ultimately show ?thesis
    by (intro exI [of _ ?sh] exI [of _ "sh_prop_hash sh"] exI [of _ "sh_prop sh"] exI [of _ "sh_prop_hash_mask sh"]) simp
qed

section \<open>Removal and compaction\<close>

lemma last_in_live: "last_in hm h prs n = Suc i \<Longrightarrow> i < n \<and> live (prs ! i) \<and> bucket (pr_atom (prs ! i)) hm = h"
  by (induction n) (auto split: if_splits)

lemma last_in_gap: "last_in hm h prs n = Suc i \<Longrightarrow> i < j \<Longrightarrow> j < n \<Longrightarrow> \<not> (live (prs ! j) \<and> bucket (pr_atom (prs ! j)) hm = h)"
  by (induction n) (auto simp: less_Suc_eq split: if_splits)

text \<open>The walk finds the property and the one that leads to it.\<close>

lemma delete_walk_spec:
  assumes "\<forall>i < length prs. live (prs ! i) \<longrightarrow>
      unat (pr_hash_next (prs ! i)) = last_in hm (bucket (pr_atom (prs ! i)) hm) prs i"
    and "n \<le> length prs"
  shows "case find_in a prs n of
      None \<Rightarrow> delete_walk prs a lpr (last_in hm (bucket a hm) prs n) = Some None
    | Some i \<Rightarrow> \<exists>l. delete_walk prs a lpr (last_in hm (bucket a hm) prs n) = Some (Some (l, i)) \<and>
        (if last_in hm (bucket a hm) prs n = Suc i then l = lpr
         else \<exists>j. l = Some j \<and> j < n \<and> live (prs ! j) \<and> bucket (pr_atom (prs ! j)) hm = bucket a hm \<and>
           last_in hm (bucket a hm) prs j = Suc i)"
  using assms(2)
proof (induction n arbitrary: lpr)
  case 0
  then show ?case by (subst delete_walk.simps) simp
next
  case (Suc n)
  show ?case
  proof (cases "live (prs ! n) \<and> bucket (pr_atom (prs ! n)) hm = bucket a hm")
    case True
    then have nx: "unat (pr_hash_next (prs ! n)) = last_in hm (bucket a hm) prs n" using assms(1) Suc.prems by simp
    show ?thesis
    proof (cases "pr_atom (prs ! n) = a")
      case found: True
      then show ?thesis using True Suc.prems by (subst delete_walk.simps) (simp add: rd_def)
    next
      case False
      have w: "delete_walk prs a lpr (Suc n) =
          delete_walk prs a (Some n) (last_in hm (bucket a hm) prs n)"
        using True False nx Suc.prems by (subst delete_walk.simps) (simp add: rd_def)
      have fi: "find_in a prs (Suc n) = find_in a prs n" using False by simp
      have li: "last_in hm (bucket a hm) prs (Suc n) = Suc n" using True by simp
      show ?thesis
      proof (cases "find_in a prs n")
        case None
        then show ?thesis using Suc.IH [of "Some n"] Suc.prems unfolding fi li w by simp
      next
        case (Some i)
        have "i < n" using find_in_Some [OF Some] by simp
        then show ?thesis using Suc.IH [of "Some n"] Suc.prems Some True unfolding fi li w
          by (auto simp: less_Suc_eq split: if_splits)
      qed
    qed
  next
    case False
    then have li: "last_in hm (bucket a hm) prs (Suc n) = last_in hm (bucket a hm) prs n" by auto
    have fi: "find_in a prs (Suc n) = find_in a prs n" using False by auto
    show ?thesis using Suc.IH [of lpr] Suc.prems unfolding li fi
      by (auto split: option.splits if_splits intro: less_SucI)
  qed
qed

text \<open>Chains after the property \<open>i\<close> is cleared.\<close>

lemma last_in_clear:
  assumes "\<And>j. j < n \<Longrightarrow> j \<noteq> i \<Longrightarrow> pr_atom (qrs ! j) = pr_atom (prs ! j)" and "\<not> live (qrs ! i)"
  shows "last_in hm h qrs n = (if last_in hm h prs n = Suc i then last_in hm h prs i else last_in hm h prs n)"
  using assms(1)
proof (induction n)
  case (Suc n)
  show ?case
  proof (cases "n = i")
    case True
    have "last_in hm h qrs n = last_in hm h prs n" using Suc.prems True by (intro last_in_cong) auto
    then show ?thesis using True assms(2) last_in_le [of hm h prs n] by (cases "last_in hm h prs i = Suc i") auto
  next
    case False
    then have "pr_atom (qrs ! n) = pr_atom (prs ! n)" using Suc.prems by simp
    then show ?thesis using Suc False by (auto simp: live_def)
  qed
qed simp

lemma map_upd_entry: "l < length xs \<Longrightarrow> entry x = entry (xs ! l) \<Longrightarrow> map entry (xs[l := x]) = map entry xs"
  by (simp add: map_update list_update_same_conv)

text \<open>The properties and the table after unlinking a property that the walk has found.\<close>

definition cut_props :: "nat option \<Rightarrow> nat \<Rightarrow> shape_property list \<Rightarrow> shape_property list" where
  "cut_props l i ps = (case l of None \<Rightarrow> ps | Some j \<Rightarrow> ps[j := (ps ! j)\<lparr>pr_hash_next := pr_hash_next (ps ! i)\<rparr>])
     [i := (ps ! i)\<lparr>pr_flags := 0, pr_atom := JS_ATOM_NULL\<rparr>]"

definition cut_table :: "nat option \<Rightarrow> nat \<Rightarrow> nat \<Rightarrow> shape_property list \<Rightarrow> u32 list \<Rightarrow> u32 list" where
  "cut_table l i h ps tab = (case l of None \<Rightarrow> tab[h := ucast (pr_hash_next (ps ! i))] | Some j \<Rightarrow> tab)"

definition leads_to :: "u32 \<Rightarrow> nat \<Rightarrow> shape_property list \<Rightarrow> nat option \<Rightarrow> nat \<Rightarrow> bool" where
  "leads_to hm h ps l i \<longleftrightarrow> (if last_in hm h ps (length ps) = Suc i then l = None
     else \<exists>j. l = Some j \<and> j < length ps \<and> live (ps ! j) \<and> bucket (pr_atom (ps ! j)) hm = h \<and>
       last_in hm h ps j = Suc i)"

lemma cut_entries:
  assumes "i < length ps" and "\<And>j. l = Some j \<Longrightarrow> j < length ps \<and> j \<noteq> i"
  shows "map entry (cut_props l i ps) = (map entry ps)[i := (JS_ATOM_NULL, 0)]"
    and "length (cut_props l i ps) = length ps"
proof -
  have "map entry (case l of None \<Rightarrow> ps | Some j \<Rightarrow> ps[j := (ps ! j)\<lparr>pr_hash_next := pr_hash_next (ps ! i)\<rparr>]) = map entry ps"
    using assms(2) by (auto simp: entry_def split: option.split intro!: map_upd_entry)
  then show "map entry (cut_props l i ps) = (map entry ps)[i := (JS_ATOM_NULL, 0)]"
    unfolding cut_props_def map_update by (simp add: entry_def)
  show "length (cut_props l i ps) = length ps" by (simp add: cut_props_def split: option.split)
qed

lemma cut_chains:
  assumes ok: "chains_ok hm tab ps" and i: "i < length ps" "live (ps ! i)" and h: "h = bucket (pr_atom (ps ! i)) hm" "h < length tab"
    and l: "leads_to hm h ps l i"
  shows "chains_ok hm (cut_table l i h ps tab) (cut_props l i ps)"
proof -
  let ?qs = "cut_props l i ps" and ?tab = "cut_table l i h ps tab"
  have heads: "unat (tab ! g) = last_in hm g ps (length ps)" if "g < length tab" for g
    using ok that by (simp add: chains_ok_def)
  have nexts: "unat (pr_hash_next (ps ! j)) = last_in hm (bucket (pr_atom (ps ! j)) hm) ps j"
    if "j < length ps" "live (ps ! j)" for j using ok that by (simp add: chains_ok_def)
  have nxi: "unat (pr_hash_next (ps ! i)) = last_in hm h ps i" using nexts i h by simp
  have lj: "j < length ps \<and> j \<noteq> i" if "l = Some j" for j
    using l that last_in_live [of hm h ps j i] by (auto simp: leads_to_def split: if_splits)
  have len: "length ?qs = length ps" "length ?tab = length tab"
    by (simp_all add: cut_props_def cut_table_def split: option.split)
  have atoms: "pr_atom (?qs ! j) = pr_atom (ps ! j)" if "j < length ps" "j \<noteq> i" for j
    using that lj by (auto simp: cut_props_def nth_list_update split: option.split)
  have dead: "\<not> live (?qs ! i)" using i by (auto simp: cut_props_def live_def split: option.split)
  have clear: "last_in hm g ?qs n = (if last_in hm g ps n = Suc i then last_in hm g ps i else last_in hm g ps n)"
    if "n \<le> length ps" for g n
    using last_in_clear [of n i ?qs ps hm g] atoms dead that by simp
  have "unat (?tab ! g) = last_in hm g ?qs (length ?qs)" if g: "g < length ?tab" for g
  proof (cases "last_in hm g ps (length ps) = Suc i")
    case True
    have "g = h" using last_in_live [OF True] h by simp
    then have "l = None" using l True by (simp add: leads_to_def)
    then show ?thesis using True clear [of "length ps" g] nxi \<open>g = h\<close> h len
      by (simp add: cut_table_def ucast_32)
  next
    case False
    then have "?tab ! g = tab ! g" using l h g
      by (auto simp: cut_table_def leads_to_def nth_list_update split: option.split if_splits)
    then show ?thesis using heads [of g] g clear [of "length ps" g] False len by simp
  qed
  moreover have "unat (pr_hash_next (?qs ! j)) = last_in hm (bucket (pr_atom (?qs ! j)) hm) ?qs j"
    if j: "j < length ?qs" "live (?qs ! j)" for j
  proof -
    have ji: "j \<noteq> i" "j < length ps" using j dead len by auto
    then have lv: "live (ps ! j)" using j atoms by (simp add: live_def)
    let ?g = "bucket (pr_atom (ps ! j)) hm"
    show ?thesis
    proof (cases "last_in hm ?g ps j = Suc i")
      case True
      have gh: "?g = h" using last_in_live [OF True] h by simp
      have "last_in hm h ps (length ps) \<noteq> Suc i"
        using last_in_gap [of hm h ps "length ps" i j] last_in_live [OF True] ji lv gh by auto
      with l obtain j' where j': "l = Some j'" "live (ps ! j')" "bucket (pr_atom (ps ! j')) hm = h"
        "last_in hm h ps j' = Suc i" by (auto simp: leads_to_def)
      have "j' = j"
        using last_in_gap [of hm h ps j i j'] last_in_gap [of hm h ps j' i j] True j' gh lv
          last_in_live [OF True] last_in_live [OF j'(4)] by (metis linorder_neqE_nat)
      then have "pr_hash_next (?qs ! j) = pr_hash_next (ps ! i)" using j' ji by (simp add: cut_props_def nth_list_update)
      then show ?thesis using nxi True gh atoms [OF ji(2,1)] clear [of j h] ji by simp
    next
      case False
      then have "l \<noteq> Some j" using l h by (auto simp: leads_to_def split: if_splits)
      then have "pr_hash_next (?qs ! j) = pr_hash_next (ps ! j)"
        using ji lj by (auto simp: cut_props_def nth_list_update split: option.split)
      then show ?thesis using nexts [OF ji(2) lv] False atoms [OF ji(2,1)] clear [of j ?g] ji by simp
    qed
  qed
  ultimately show ?thesis by (simp add: chains_ok_def)
qed

lemma unlink_property_spec:
  assumes ok: "shape_ok sh" and i: "i < length (sh_prop sh)" "live (sh_prop sh ! i)"
    and h: "h = bucket (pr_atom (sh_prop sh ! i)) (sh_prop_hash_mask sh)"
    and l: "leads_to (sh_prop_hash_mask sh) h (sh_prop sh) l i"
  shows "\<exists>sh' tab prs. unlink_property l i sh = Some sh' \<and> shape_ok sh' \<and>
    map entry prs = (map entry (sh_prop sh))[i := (JS_ATOM_NULL, 0)] \<and>
    sh' = sh\<lparr>sh_prop := prs, sh_prop_hash := tab, sh_deleted_prop_count := sh_deleted_prop_count sh + 1\<rparr>"
proof -
  let ?ps = "sh_prop sh" and ?hm = "sh_prop_hash_mask sh" and ?tab = "sh_prop_hash sh"
  let ?qs = "cut_props l i ?ps" and ?tb = "cut_table l i h ?ps ?tab"
  let ?sh = "sh\<lparr>sh_prop := ?qs, sh_prop_hash := ?tb, sh_deleted_prop_count := sh_deleted_prop_count sh + 1\<rparr>"
  have hl: "h < length ?tab" using ok bucket_less h by (simp add: shape_ok_def)
  have lj: "j < length ?ps \<and> j \<noteq> i" if "l = Some j" for j
    using l that last_in_live [of ?hm h ?ps j i] by (auto simp: leads_to_def split: if_splits)
  have e: "map entry ?qs = (map entry ?ps)[i := (JS_ATOM_NULL, 0)]" "length ?qs = length ?ps"
    using cut_entries [of i ?ps l] i(1) lj by blast+
  have chains: "chains_ok ?hm ?tb ?qs" using ok cut_chains [OF _ i h hl l] by (simp add: shape_ok_def)
  have u: "unlink_property l i sh = Some ?sh"
    using i lj hl h unfolding unlink_property_def
    by (cases l) (simp_all add: rd_def wr_def cut_props_def cut_table_def)
  have ps: "?ps = take i ?ps @ ?ps ! i # drop (Suc i) ?ps" using i id_take_nth_drop by blast
  have en: "map entry ?qs = map entry (take i ?ps) @ (JS_ATOM_NULL, 0) # map entry (drop (Suc i) ?ps)"
    unfolding e(1) using i by (simp add: upd_conv_take_nth_drop take_map drop_map)
  have eo: "map entry ?ps = map entry (take i ?ps) @ entry (?ps ! i) # map entry (drop (Suc i) ?ps)"
    by (subst ps) simp
  have "fst (entry (?ps ! i)) \<noteq> JS_ATOM_NULL" using i by (simp add: entry_def live_def)
  then have "distinct (map pr_atom (filter live ?qs))"
    "length (filter (\<lambda>pr. \<not> live pr) ?qs) = length (filter (\<lambda>pr. \<not> live pr) ?ps) + 1"
    using ok unfolding shape_ok_def atoms_entry live_as_entry dead_as_entry en eo by auto
  moreover have "length ?tb = length ?tab" by (simp add: cut_table_def split: option.split)
  ultimately have "shape_ok ?sh" using ok chains e(2) by (simp add: shape_ok_def)
  then show ?thesis using u e(1) by blast
qed

lemma shrink_hash_spec:
  assumes "n = 2 ^ k" and "2 \<le> m"
  shows "\<exists>k' \<le> k. shrink_hash n m = Some (2 ^ k')"
  using assms(1)
proof (induction k arbitrary: n)
  case 0
  then show ?case using assms(2) by (subst shrink_hash.simps) simp
next
  case (Suc k)
  show ?case
  proof (cases "m \<le> n div 2")
    case True
    then show ?thesis using Suc.IH [of "n div 2"] Suc.prems
      by (subst shrink_hash.simps) (auto intro: le_SucI)
  next
    case False
    then show ?thesis using Suc.prems by (subst shrink_hash.simps) auto
  qed
qed

text \<open>The values of the live properties.\<close>

fun live_values :: "shape_property list \<Rightarrow> 'v list \<Rightarrow> 'v list" where
  "live_values [] vs = []"
| "live_values (pr # prs) [] = []"
| "live_values (pr # prs) (v # vs) = (if live pr then v # live_values prs vs else live_values prs vs)"

lemma compact_loop_spec:
  assumes "prefix_ok hm tab ds" and "length ds + length prs < 2 ^ 26" and "length prs \<le> length vs"
  shows "\<exists>prs' tab'. compact_loop hm (length ds) prs vs tab = Some (prs', live_values prs vs, tab') \<and>
    prefix_ok hm tab' (ds @ prs') \<and> map entry prs' = map entry (filter live prs)"
  using assms
proof (induction prs arbitrary: ds tab vs)
  case Nil
  then show ?case by simp
next
  case (Cons pr prs)
  then obtain v vs' where vs: "vs = v # vs'" by (cases vs) auto
  show ?case
  proof (cases "live pr")
    case True
    then obtain tab1 pr1 where l: "hash_link tab hm (length ds) pr = Some (tab1, pr1)" "prefix_ok hm tab1 (ds @ [pr1])"
      "pr_atom pr1 = pr_atom pr" "pr_flags pr1 = pr_flags pr"
      using hash_link_spec [OF Cons.prems(1), of pr] Cons.prems(2) by (auto simp: live_def)
    then show ?thesis using Cons.IH [OF l(2), of vs'] Cons.prems(2,3) l True vs by (auto simp: live_def entry_def)
  next
    case False
    then show ?thesis using Cons.IH [OF Cons.prems(1), of vs'] Cons.prems(2,3) vs by (auto simp: live_def)
  qed
qed

lemma length_live_values: "length prs \<le> length vs \<Longrightarrow> length (live_values prs vs) = length (filter live prs)"
  by (induction prs vs rule: live_values.induct) auto

lemma compact_properties_spec:
  assumes ok: "shape_ok sh" and nh: "\<not> sh_is_hashed sh" and vp: "sh_prop_size sh \<le> length vs"
  shows "\<exists>sh' vs' r prs tab hm. compact_properties b1 b2 sh vs = Some (sh', vs', r) \<and> shape_ok sh' \<and>
    sh_prop_size sh' \<le> length vs' \<and>
    (if b1 then r = 0 \<and> map entry prs = map entry (filter live (sh_prop sh)) \<and>
       take (length prs) vs' = live_values (sh_prop sh) vs \<and>
       sh' = sh\<lparr>sh_prop := prs, sh_prop_hash := tab, sh_prop_hash_mask := hm,
         sh_prop_size := max 2 (length prs), sh_deleted_prop_count := 0\<rparr>
     else r = -1 \<and> sh' = sh \<and> vs' = vs)"
proof -
  have vs: "length (sh_prop sh) \<le> length vs" using ok vp by (simp add: shape_ok_def)
  have cnt: "length (sh_prop sh) - sh_deleted_prop_count sh = length (filter live (sh_prop sh))"
    using ok sum_length_filter_compl [of live "sh_prop sh"] by (simp add: shape_ok_def)
  let ?n = "max 2 (length (filter live (sh_prop sh)))"
  have "length (filter live (sh_prop sh)) \<le> sh_prop_size sh"
    by (rule le_trans [OF length_filter_le]) (use ok in \<open>simp add: shape_ok_def\<close>)
  then have n: "?n \<le> sh_prop_size sh" using ok by (simp add: shape_ok_def)
  from ok obtain k where k: "k < 32" "length (sh_prop_hash sh) = 2 ^ k" "unat (sh_prop_hash_mask sh) + 1 = 2 ^ k"
    by (auto simp: shape_ok_def table_size_def)
  from shrink_hash_spec [of "2 ^ k" k ?n] obtain k' where k': "k' \<le> k" "shrink_hash (2 ^ k) ?n = Some (2 ^ k')" by auto
  let ?hm = "of_nat (2 ^ k' - 1) :: u32"
  have "prefix_ok ?hm (replicate (2 ^ k') 0) []"
    using table_size_of_nat [of "2 ^ k' - 1" k'] k' k(1) by (intro prefix_start) simp
  from compact_loop_spec [OF this, of "sh_prop sh" vs] ok vs obtain prs tab where
    c: "compact_loop ?hm 0 (sh_prop sh) vs (replicate (2 ^ k') 0) = Some (prs, live_values (sh_prop sh) vs, tab)"
      "prefix_ok ?hm tab prs" "map entry prs = map entry (filter live (sh_prop sh))" by (auto simp: shape_ok_def)
  have len: "length prs = length (filter live (sh_prop sh))" using c(3) by (rule map_eq_imp_length_eq)
  have lv: "length (live_values (sh_prop sh) vs) = length prs" using length_live_values [OF vs] len by simp
  have live: "filter live prs = prs" "filter (\<lambda>pr. \<not> live pr) prs = []"
  proof -
    have "live x" if "x \<in> set prs" for x
    proof -
      have "entry x \<in> set (map entry (filter live (sh_prop sh)))" unfolding c(3) [symmetric] using that by simp
      then show ?thesis by (auto simp: live_def entry_def)
    qed
    then show "filter live prs = prs" "filter (\<lambda>pr. \<not> live pr) prs = []"
      by (auto simp: filter_id_conv filter_empty_conv)
  qed
  show ?thesis
  proof (cases b1)
    case True
    let ?vs = "live_values (sh_prop sh) vs @ drop (length (live_values (sh_prop sh) vs)) vs"
    let ?vs' = "if b2 then take ?n ?vs else ?vs"
    let ?sh = "sh\<lparr>sh_prop := prs, sh_prop_hash := tab, sh_prop_hash_mask := ?hm, sh_prop_size := max 2 (length prs), sh_deleted_prop_count := 0\<rparr>"
    have "compact_properties b1 b2 sh vs = Some (?sh, ?vs', 0)"
      using True nh n k k' c(1) len cnt by (simp add: compact_properties_def JS_PROP_INITIAL_SIZE_def Let_def)
    moreover have "shape_ok ?sh"
      using ok c(2) live filter_live_entry [OF c(3)] len n unfolding shape_ok_def prefix_ok_def atoms_entry
      by (auto simp: le_trans [OF length_filter_le] le_less_trans [OF length_filter_le])
    moreover have "sh_prop_size ?sh \<le> length ?vs'" "take (length prs) ?vs' = live_values (sh_prop sh) vs"
      using lv len n vp by auto
    ultimately show ?thesis using True c(3) by (intro exI [of _ ?sh] exI [of _ ?vs'] exI) auto
  next
    case False
    then have "compact_properties b1 b2 sh vs = Some (sh, vs, -1)"
      using nh n k k' cnt by (simp add: compact_properties_def JS_PROP_INITIAL_SIZE_def Let_def)
    then show ?thesis using False ok vp by auto
  qed
qed

end
