(* ===== verification/ShapeHeap.thy ===== *)
theory ShapeHeap
  imports Shapes
begin

text \<open>
  Shared shapes in \<open>quickjs.c\<close>: objects point to shapes, shapes are counted and found again through the
  hash table of the runtime.  A chain of the table is the list of the shapes linked by
  \<open>shape_hash_next\<close>.  The allocator is a parameter; the counts of atoms and of prototype objects are kept,
  their release at zero belongs to other components.  A failed assertion or access is \<open>None\<close>.
\<close>

unbundle bit_operations_syntax

section \<open>State\<close>

type_synonym addr = nat
type_synonym oid = nat

record 'v jsobject =
  ob_shape :: addr
  ob_prop :: "'v list"

record 'v heap =
  shape_hash_bits :: nat
  shape_hash_tab :: "addr list list"
  shape_hash_count :: int
  shapes :: "addr \<Rightarrow> shape option"
  objects :: "oid \<Rightarrow> 'v jsobject option"
  atom_refs :: "atom \<Rightarrow> int"
  proto_refs :: "64 word \<Rightarrow> int"
  gc_shapes :: "addr list"
  released :: "('v \<times> 6 word) list"

text \<open>The answers of the allocator in a state: the address of a new block, the address of a moved block,
  whether an array of values can be resized or a new table allocated, and the contents of fresh memory.\<close>

record 'v allocator =
  am_malloc :: "'v heap \<Rightarrow> addr option"
  am_realloc :: "'v heap \<Rightarrow> addr \<Rightarrow> addr option"
  am_array :: "'v heap \<Rightarrow> bool"
  am_uninit :: 'v

definition realloc_array :: "'v \<Rightarrow> nat \<Rightarrow> 'v list \<Rightarrow> 'v list" where
  "realloc_array u n vs = take n vs @ replicate (n - length vs) u"

definition put_shape :: "addr \<Rightarrow> shape \<Rightarrow> 'v heap \<Rightarrow> 'v heap" where
  "put_shape a sh rt = rt\<lparr>shapes := (shapes rt)(a \<mapsto> sh)\<rparr>"

definition put_object :: "oid \<Rightarrow> 'v jsobject \<Rightarrow> 'v heap \<Rightarrow> 'v heap" where
  "put_object p ob rt = rt\<lparr>objects := (objects rt)(p \<mapsto> ob)\<rparr>"

text \<open>The atoms of the fixed table are not counted; there are 209 of them.\<close>

definition JS_ATOM_END :: int where
  "JS_ATOM_END = 210"

definition atom_is_const :: "atom \<Rightarrow> bool" where
  "atom_is_const v \<longleftrightarrow> sint v < JS_ATOM_END"

definition JS_DupAtom :: "atom \<Rightarrow> 'v heap \<Rightarrow> 'v heap" where
  "JS_DupAtom a rt = (if atom_is_const a then rt else rt\<lparr>atom_refs := (atom_refs rt)(a := atom_refs rt a + 1)\<rparr>)"

definition JS_FreeAtom :: "atom \<Rightarrow> 'v heap \<Rightarrow> 'v heap" where
  "JS_FreeAtom a rt = (if atom_is_const a then rt else rt\<lparr>atom_refs := (atom_refs rt)(a := atom_refs rt a - 1)\<rparr>)"

definition dup_proto :: "64 word \<Rightarrow> 'v heap \<Rightarrow> 'v heap" where
  "dup_proto p rt = (if p \<noteq> 0 then rt\<lparr>proto_refs := (proto_refs rt)(p := proto_refs rt p + 1)\<rparr> else rt)"

definition free_proto :: "64 word \<Rightarrow> 'v heap \<Rightarrow> 'v heap" where
  "free_proto p rt = (if p \<noteq> 0 then rt\<lparr>proto_refs := (proto_refs rt)(p := proto_refs rt p - 1)\<rparr> else rt)"

section \<open>The hash table of shapes\<close>

definition shape_hash :: "u32 \<Rightarrow> u32 \<Rightarrow> u32" where
  "shape_hash h v = (h + v) * 0x9e370001"

definition get_shape_hash :: "u32 \<Rightarrow> nat \<Rightarrow> nat" where
  "get_shape_hash h hash_bits = unat (drop_bit (32 - hash_bits) h)"

definition shape_initial_hash :: "64 word \<Rightarrow> u32" where
  "shape_initial_hash proto = shape_hash (shape_hash 1 (ucast proto)) (ucast (drop_bit 32 proto))"

definition init_shape_hash :: "'v allocator \<Rightarrow> 'v heap \<Rightarrow> 'v heap \<times> int" where
  "init_shape_hash am rt =
     (let rt = rt\<lparr>shape_hash_bits := 4, shape_hash_count := 0\<rparr> in
      if am_array am rt then (rt\<lparr>shape_hash_tab := replicate (2 ^ 4) []\<rparr>, 0) else (rt, -1))"

text \<open>Moving one shape, and all shapes of the old table, to the new one.\<close>

definition rehash_shape :: "nat \<Rightarrow> 'v heap \<Rightarrow> addr \<Rightarrow> addr list list option \<Rightarrow> addr list list option" where
  "rehash_shape new_bits rt a tab = do {
     tab \<leftarrow> tab;
     sh \<leftarrow> shapes rt a;
     let h = get_shape_hash (sh_hash sh) new_bits;
     chain \<leftarrow> rd tab h;
     wr tab h (a # chain)
   }"

definition resize_shape_hash :: "'v allocator \<Rightarrow> nat \<Rightarrow> 'v heap \<Rightarrow> ('v heap \<times> int) option" where
  "resize_shape_hash am new_shape_hash_bits rt =
     (if am_array am rt then do {
        tab \<leftarrow> fold (rehash_shape new_shape_hash_bits rt) (concat (shape_hash_tab rt))
          (Some (replicate (2 ^ new_shape_hash_bits) []));
        Some (rt\<lparr>shape_hash_bits := new_shape_hash_bits, shape_hash_tab := tab\<rparr>, 0)
      } else Some (rt, -1))"

definition js_shape_hash_link :: "addr \<Rightarrow> 'v heap \<Rightarrow> 'v heap option" where
  "js_shape_hash_link a rt = do {
     sh \<leftarrow> shapes rt a;
     let h = get_shape_hash (sh_hash sh) (shape_hash_bits rt);
     chain \<leftarrow> rd (shape_hash_tab rt) h;
     tab \<leftarrow> wr (shape_hash_tab rt) h (a # chain);
     Some (rt\<lparr>shape_hash_tab := tab, shape_hash_count := shape_hash_count rt + 1\<rparr>)
   }"

text \<open>The search for the link to the shape runs off the chain when the shape is not there.\<close>

definition js_shape_hash_unlink :: "addr \<Rightarrow> 'v heap \<Rightarrow> 'v heap option" where
  "js_shape_hash_unlink a rt = do {
     sh \<leftarrow> shapes rt a;
     let h = get_shape_hash (sh_hash sh) (shape_hash_bits rt);
     chain \<leftarrow> rd (shape_hash_tab rt) h;
     if a \<in> set chain then do {
       tab \<leftarrow> wr (shape_hash_tab rt) h (remove1 a chain);
       Some (rt\<lparr>shape_hash_tab := tab, shape_hash_count := shape_hash_count rt - 1\<rparr>)
     } else None
   }"

section \<open>Shapes\<close>

definition js_new_shape2 :: "'v allocator \<Rightarrow> 64 word \<Rightarrow> nat \<Rightarrow> nat \<Rightarrow> 'v heap \<Rightarrow> ('v heap \<times> addr option) option" where
  "js_new_shape2 am proto hash_size prop_size rt = do {
     rt \<leftarrow> (if 2 * (shape_hash_count rt + 1) > 2 ^ shape_hash_bits rt
            then map_option fst (resize_shape_hash am (shape_hash_bits rt + 1) rt) else Some rt);
     case am_malloc am rt of
       None \<Rightarrow> Some (rt, None)
     | Some a \<Rightarrow> do {
         let sh = \<lparr>sh_ref_count = 1, sh_is_hashed = True, sh_has_small_array_index = False,
           sh_hash = shape_initial_hash proto, sh_proto = proto, sh_prop_hash = replicate hash_size 0,
           sh_prop_hash_mask = of_nat (hash_size - 1), sh_prop_size = prop_size, sh_deleted_prop_count = 0,
           sh_prop = []\<rparr>;
         let rt = dup_proto proto (rt\<lparr>gc_shapes := gc_shapes rt @ [a]\<rparr>);
         rt \<leftarrow> js_shape_hash_link a (put_shape a sh rt);
         Some (rt, Some a)
       }
   }"

definition js_new_shape :: "'v allocator \<Rightarrow> 64 word \<Rightarrow> 'v heap \<Rightarrow> ('v heap \<times> addr option) option" where
  "js_new_shape am proto = js_new_shape2 am proto JS_PROP_INITIAL_HASH_SIZE JS_PROP_INITIAL_SIZE"

definition js_clone_shape :: "'v allocator \<Rightarrow> addr \<Rightarrow> 'v heap \<Rightarrow> ('v heap \<times> addr option) option" where
  "js_clone_shape am a rt = do {
     sh1 \<leftarrow> shapes rt a;
     case am_malloc am rt of
       None \<Rightarrow> Some (rt, None)
     | Some b \<Rightarrow>
         let rt = put_shape b (sh1\<lparr>sh_ref_count := 1, sh_is_hashed := False\<rparr>) rt;
             rt = dup_proto (sh_proto sh1) (rt\<lparr>gc_shapes := gc_shapes rt @ [b]\<rparr>) in
         Some (fold (\<lambda>pr. JS_DupAtom (pr_atom pr)) (sh_prop sh1) rt, Some b)
   }"

definition js_dup_shape :: "addr \<Rightarrow> 'v heap \<Rightarrow> 'v heap option" where
  "js_dup_shape a rt = do {
     sh \<leftarrow> shapes rt a;
     Some (put_shape a (sh\<lparr>sh_ref_count := sh_ref_count sh + 1\<rparr>) rt)
   }"

definition js_free_shape0 :: "addr \<Rightarrow> 'v heap \<Rightarrow> 'v heap option" where
  "js_free_shape0 a rt = do {
     sh \<leftarrow> shapes rt a;
     if sh_ref_count sh \<noteq> 0 then None
     else do {
       rt \<leftarrow> (if sh_is_hashed sh then js_shape_hash_unlink a rt else Some rt);
       let rt = free_proto (sh_proto sh) rt;
       let rt = fold (\<lambda>pr. JS_FreeAtom (pr_atom pr)) (sh_prop sh) rt;
       Some (rt\<lparr>gc_shapes := remove1 a (gc_shapes rt), shapes := (shapes rt)(a := None)\<rparr>)
     }
   }"

definition js_free_shape :: "addr \<Rightarrow> 'v heap \<Rightarrow> 'v heap option" where
  "js_free_shape a rt = do {
     sh \<leftarrow> shapes rt a;
     let rt = put_shape a (sh\<lparr>sh_ref_count := sh_ref_count sh - 1\<rparr>) rt;
     if sh_ref_count sh - 1 \<le> 0 then js_free_shape0 a rt else Some rt
   }"

text \<open>\<open>resize_properties\<close> for an object: first the array of values, then the shape, which may move.\<close>

definition resize_properties :: "'v allocator \<Rightarrow> oid \<Rightarrow> nat \<Rightarrow> 'v heap \<Rightarrow> ('v heap \<times> int) option" where
  "resize_properties am p count rt = do {
     ob \<leftarrow> objects rt p;
     let a = ob_shape ob;
     sh \<leftarrow> shapes rt a;
     let new_size = max count (sh_prop_size sh * 3 div 2);
     if \<not> am_array am rt then Some (rt, -1)
     else do {
       let ob = ob\<lparr>ob_prop := realloc_array (am_uninit am) new_size (ob_prop ob)\<rparr>;
       let rt = put_object p ob rt;
       let same = (grow_mask (unat (sh_prop_hash_mask sh)) new_size = unat (sh_prop_hash_mask sh));
       let rt = (if same then rt\<lparr>gc_shapes := remove1 a (gc_shapes rt)\<rparr> else rt);
       let addr = (if same then am_realloc am rt a else am_malloc am rt);
       (sh', ok) \<leftarrow> resize_shape (addr \<noteq> None) new_size sh;
       case addr of
         None \<Rightarrow> Some (if same then rt\<lparr>gc_shapes := gc_shapes rt @ [a]\<rparr> else rt, -1)
       | Some b \<Rightarrow>
           Some (put_object p (ob\<lparr>ob_shape := b\<rparr>)
             (rt\<lparr>shapes := (shapes rt)(a := None, b \<mapsto> sh'), gc_shapes := remove1 a (gc_shapes rt) @ [b]\<rparr>), 0)
     }
   }"

definition add_shape_property :: "'v allocator \<Rightarrow> oid \<Rightarrow> atom \<Rightarrow> 6 word \<Rightarrow> 'v heap \<Rightarrow> ('v heap \<times> int) option" where
  "add_shape_property am p atom prop_flags rt = do {
     ob \<leftarrow> objects rt p;
     let a = ob_shape ob;
     sh \<leftarrow> shapes rt a;
     rt \<leftarrow> (if sh_is_hashed sh then js_shape_hash_unlink a rt else Some rt);
     let new_shape_hash = shape_hash (shape_hash (sh_hash sh) atom) (ucast prop_flags);
     (rt, r) \<leftarrow> (if length (sh_prop sh) \<ge> sh_prop_size sh
       then resize_properties am p (length (sh_prop sh) + 1) rt else Some (rt, 0));
     if r \<noteq> 0 then do {
       rt \<leftarrow> (if sh_is_hashed sh then js_shape_hash_link a rt else Some rt);
       Some (rt, -1)
     } else do {
       ob \<leftarrow> objects rt p;
       let b = ob_shape ob;
       sh \<leftarrow> shapes rt b;
       rt \<leftarrow> (if sh_is_hashed sh then js_shape_hash_link b (put_shape b (sh\<lparr>sh_hash := new_shape_hash\<rparr>) rt)
              else Some rt);
       sh \<leftarrow> shapes rt b;
       sh \<leftarrow> append_property atom prop_flags sh;
       Some (put_shape b sh (JS_DupAtom atom rt), 0)
     }
   }"

section \<open>Finding shapes\<close>

text \<open>The walk along a chain of the table to the first shape with property \<open>P\<close>.\<close>

fun find_in_chain :: "(shape \<Rightarrow> bool) \<Rightarrow> (addr \<Rightarrow> shape option) \<Rightarrow> addr list \<Rightarrow> addr option option" where
  "find_in_chain P sps [] = Some None"
| "find_in_chain P sps (b # bs) = do {
     sh1 \<leftarrow> sps b;
     if P sh1 then Some (Some b) else find_in_chain P sps bs
   }"

definition find_hashed_shape_proto :: "64 word \<Rightarrow> 'v heap \<Rightarrow> addr option option" where
  "find_hashed_shape_proto proto rt = do {
     let h = shape_initial_hash proto;
     chain \<leftarrow> rd (shape_hash_tab rt) (get_shape_hash h (shape_hash_bits rt));
     find_in_chain (\<lambda>sh1. sh_hash sh1 = h \<and> sh_proto sh1 = proto \<and> length (sh_prop sh1) = 0) (shapes rt) chain
   }"

text \<open>The test for a shape that extends \<open>sh\<close> by the property.\<close>

definition extends_shape :: "shape \<Rightarrow> atom \<Rightarrow> 6 word \<Rightarrow> u32 \<Rightarrow> shape \<Rightarrow> bool" where
  "extends_shape sh atom prop_flags h sh1 \<longleftrightarrow> (let n = length (sh_prop sh) in
     sh_hash sh1 = h \<and> sh_proto sh1 = sh_proto sh \<and> length (sh_prop sh1) = n + 1 \<and>
     map entry (take n (sh_prop sh1)) = map entry (sh_prop sh) \<and>
     entry (sh_prop sh1 ! n) = (atom, prop_flags))"

definition find_hashed_shape_prop :: "addr \<Rightarrow> atom \<Rightarrow> 6 word \<Rightarrow> 'v heap \<Rightarrow> addr option option" where
  "find_hashed_shape_prop a atom prop_flags rt = do {
     sh \<leftarrow> shapes rt a;
     let h = shape_hash (shape_hash (sh_hash sh) atom) (ucast prop_flags);
     chain \<leftarrow> rd (shape_hash_tab rt) (get_shape_hash h (shape_hash_bits rt));
     find_in_chain (extends_shape sh atom prop_flags h) (shapes rt) chain
   }"

section \<open>Properties of objects\<close>

definition find_own_property :: "oid \<Rightarrow> atom \<Rightarrow> 'v heap \<Rightarrow> (6 word \<times> 'v) option option" where
  "find_own_property p atom rt = do {
     ob \<leftarrow> objects rt p;
     sh \<leftarrow> shapes rt (ob_shape ob);
     r \<leftarrow> find_own_property1 sh atom;
     case r of
       None \<Rightarrow> Some None
     | Some i \<Rightarrow> do { pr \<leftarrow> rd (sh_prop sh) i; v \<leftarrow> rd (ob_prop ob) i; Some (Some (pr_flags pr, v)) }
   }"

text \<open>\<open>add_property\<close>: the result is the index of the new property, or \<open>None\<close> without memory.\<close>

definition add_property :: "'v allocator \<Rightarrow> oid \<Rightarrow> atom \<Rightarrow> 6 word \<Rightarrow> 'v heap \<Rightarrow> ('v heap \<times> nat option) option" where
  "add_property am p prop prop_flags rt = do {
     ob \<leftarrow> objects rt p;
     let a = ob_shape ob;
     sh \<leftarrow> shapes rt a;
     found \<leftarrow> (if sh_is_hashed sh then find_hashed_shape_prop a prop prop_flags rt else Some None);
     case found of
       Some b \<Rightarrow> do {
         new_sh \<leftarrow> shapes rt b;
         if sh_prop_size new_sh \<noteq> sh_prop_size sh \<and> \<not> am_array am rt then Some (rt, None)
         else do {
           let ob = (if sh_prop_size new_sh \<noteq> sh_prop_size sh
             then ob\<lparr>ob_prop := realloc_array (am_uninit am) (sh_prop_size new_sh) (ob_prop ob)\<rparr> else ob);
           rt \<leftarrow> js_dup_shape b rt;
           rt \<leftarrow> js_free_shape a (put_object p (ob\<lparr>ob_shape := b\<rparr>) rt);
           Some (rt, Some (length (sh_prop new_sh) - 1))
         }
       }
     | None \<Rightarrow> do {
         (rt, ok) \<leftarrow> (if sh_is_hashed sh \<and> sh_ref_count sh \<noteq> 1 then do {
             (rt, c) \<leftarrow> js_clone_shape am a rt;
             case c of
               None \<Rightarrow> Some (rt, False)
             | Some c \<Rightarrow> do {
                 sh1 \<leftarrow> shapes rt c;
                 rt \<leftarrow> js_shape_hash_link c (put_shape c (sh1\<lparr>sh_is_hashed := True\<rparr>) rt);
                 rt \<leftarrow> js_free_shape a rt;
                 Some (put_object p (ob\<lparr>ob_shape := c\<rparr>) rt, True)
               }
           } else Some (rt, True));
         if \<not> ok then Some (rt, None)
         else do {
           ob \<leftarrow> objects rt p;
           sh \<leftarrow> shapes rt (ob_shape ob);
           if sh_ref_count sh \<noteq> 1 then None
           else do {
             (rt, r) \<leftarrow> add_shape_property am p prop prop_flags rt;
             if r \<noteq> 0 then Some (rt, None)
             else do {
               ob \<leftarrow> objects rt p;
               sh \<leftarrow> shapes rt (ob_shape ob);
               Some (rt, Some (length (sh_prop sh) - 1))
             }
           }
         }
       }
   }"

definition js_shape_prepare_update :: "'v allocator \<Rightarrow> oid \<Rightarrow> 'v heap \<Rightarrow> ('v heap \<times> int) option" where
  "js_shape_prepare_update am p rt = do {
     ob \<leftarrow> objects rt p;
     let a = ob_shape ob;
     sh \<leftarrow> shapes rt a;
     if sh_is_hashed sh then
       if sh_ref_count sh \<noteq> 1 then do {
         (rt, c) \<leftarrow> js_clone_shape am a rt;
         case c of
           None \<Rightarrow> Some (rt, -1)
         | Some c \<Rightarrow> do {
             rt \<leftarrow> js_free_shape a rt;
             Some (put_object p (ob\<lparr>ob_shape := c\<rparr>) rt, 0)
           }
       } else do {
         rt \<leftarrow> js_shape_hash_unlink a rt;
         Some (put_shape a (sh\<lparr>sh_is_hashed := False\<rparr>) rt, 0)
       }
     else Some (rt, 0)
   }"

definition JS_PROP_CONFIGURABLE :: "6 word" where
  "JS_PROP_CONFIGURABLE = 1"

text \<open>The release of a property value; the value goes back to its owner component.\<close>

definition free_property :: "'v \<Rightarrow> 6 word \<Rightarrow> 'v heap \<Rightarrow> 'v heap" where
  "free_property v flags rt = rt\<lparr>released := released rt @ [(v, flags)]\<rparr>"

text \<open>\<open>delete_property\<close> up to the end of the search: 1 for \<open>TRUE\<close> after a removal, 0 for \<open>FALSE\<close>, -1 for an
  exception; \<open>None\<close> inside when the property is not in the table (the code then looks at the elements of
  fast arrays).  The compaction runs through the new shape, and a failure of it is ignored.\<close>

definition delete_property :: "'v allocator \<Rightarrow> 'v \<Rightarrow> oid \<Rightarrow> atom \<Rightarrow> 'v heap \<Rightarrow> ('v heap \<times> int option) option" where
  "delete_property am undef p atom rt = do {
     ob \<leftarrow> objects rt p;
     sh \<leftarrow> shapes rt (ob_shape ob);
     h \<leftarrow> rd (sh_prop_hash sh) (bucket atom (sh_prop_hash_mask sh));
     found \<leftarrow> delete_walk (sh_prop sh) atom None (unat h);
     case found of
       None \<Rightarrow> Some (rt, None)
     | Some (lpr, i) \<Rightarrow> do {
         pr \<leftarrow> rd (sh_prop sh) i;
         if pr_flags pr AND JS_PROP_CONFIGURABLE = 0 then Some (rt, Some 0)
         else do {
           (rt, r) \<leftarrow> js_shape_prepare_update am p rt;
           if r \<noteq> 0 then Some (rt, Some (-1))
           else do {
             ob \<leftarrow> objects rt p;
             sh \<leftarrow> shapes rt (ob_shape ob);
             sh \<leftarrow> unlink_property lpr i sh;
             v \<leftarrow> rd (ob_prop ob) i;
             vs \<leftarrow> wr (ob_prop ob) i undef;
             let rt = JS_FreeAtom atom (free_property v (pr_flags pr) rt);
             let ob = ob\<lparr>ob_prop := vs\<rparr>;
             if sh_deleted_prop_count sh \<ge> 8 \<and> sh_deleted_prop_count sh \<ge> length (sh_prop sh) div 2 then do {
               let addr = am_malloc am rt;
               (sh, vs, r) \<leftarrow> compact_properties (addr \<noteq> None) (am_array am rt) sh (ob_prop ob);
               case addr of
                 None \<Rightarrow> Some (put_object p ob (put_shape (ob_shape ob) sh rt), Some 1)
               | Some b \<Rightarrow>
                   Some (put_object p (ob\<lparr>ob_shape := b, ob_prop := vs\<rparr>)
                     (rt\<lparr>shapes := (shapes rt)(ob_shape ob := None, b \<mapsto> sh),
                        gc_shapes := remove1 (ob_shape ob) (gc_shapes rt) @ [b]\<rparr>), Some 1)
             } else Some (put_object p ob (put_shape (ob_shape ob) sh rt), Some 1)
           }
         }
       }
   }"

end
