(* ===== verification/ShapeInv.thy ===== *)
theory ShapeInv
  imports ShapeHeap
begin

text \<open>
  The invariant of shared shapes: what the properties of an object are, that every hashed shape is in its
  chain of the table, that reference counts cover the objects using a shape; and what the elementary
  steps (linking, unlinking, cloning, releasing, switching) do to it.
\<close>

section \<open>The properties of an object\<close>

definition own_props :: "shape \<Rightarrow> 'v list \<Rightarrow> ((atom \<times> 6 word) \<times> 'v) list" where
  "own_props sh vs = zip (entries sh) (live_values (sh_prop sh) vs)"

definition props_of :: "'v heap \<Rightarrow> oid \<Rightarrow> ((atom \<times> 6 word) \<times> 'v) list" where
  "props_of rt p = (case objects rt p of None \<Rightarrow> []
     | Some ob \<Rightarrow> (case shapes rt (ob_shape ob) of None \<Rightarrow> [] | Some sh \<Rightarrow> own_props sh (ob_prop ob)))"

lemma live_values_cong:
  "map entry prs = map entry qrs \<Longrightarrow> live_values prs vs = live_values qrs vs"
proof (induction prs vs arbitrary: qrs rule: live_values.induct)
  case (3 pr prs v vs)
  then obtain q qrs' where "qrs = q # qrs'" "entry pr = entry q" "map entry prs = map entry qrs'" by auto
  then show ?case using 3 by (auto simp: entry_def live_def)
qed (auto simp: Cons_eq_map_conv map_eq_Cons_conv)

lemma own_props_cong: "map entry (sh_prop sh) = map entry (sh_prop sh') \<Longrightarrow> own_props sh vs = own_props sh' vs"
  unfolding own_props_def entries_def
  using filter_live_entry [of "sh_prop sh" "sh_prop sh'"] live_values_cong [of "sh_prop sh" "sh_prop sh'" vs] by simp

lemma live_values_take_length: "live_values prs (take (length prs) vs) = live_values prs vs"
  by (induction prs vs rule: live_values.induct) auto

lemma live_values_take:
  "take (length prs) vs = take (length prs) ws \<Longrightarrow> live_values prs vs = live_values prs ws"
  using live_values_take_length [of prs vs] live_values_take_length [of prs ws] by simp

lemma own_props_take:
  "take (length (sh_prop sh)) vs = take (length (sh_prop sh)) ws \<Longrightarrow> own_props sh vs = own_props sh ws"
  using live_values_take [of "sh_prop sh" vs ws] by (simp add: own_props_def)

lemma live_values_append:
  "length prs \<le> length vs \<Longrightarrow> live_values (prs @ qrs) vs = live_values prs vs @ live_values qrs (drop (length prs) vs)"
  by (induction prs vs rule: live_values.induct) (auto simp: Suc_le_eq)

lemma own_props_append:
  assumes "map entry (sh_prop sh') = map entry (sh_prop sh) @ [(a, fl)]" and "a \<noteq> JS_ATOM_NULL"
    and "length (sh_prop sh) < length vs"
  shows "own_props sh' vs = own_props sh vs @ [((a, fl), vs ! length (sh_prop sh))]"
proof -
  let ?pr = "\<lparr>pr_hash_next = 0, pr_flags = fl, pr_atom = a\<rparr>"
  have "own_props sh' vs = own_props (sh\<lparr>sh_prop := sh_prop sh @ [?pr]\<rparr>) vs"
    by (rule own_props_cong) (simp add: assms(1) entry_def)
  also have "\<dots> = own_props sh vs @ [((a, fl), vs ! length (sh_prop sh))]"
    using assms(2,3) length_live_values [of "sh_prop sh" vs]
    by (simp add: own_props_def entries_def live_values_append live_def entry_def Cons_nth_drop_Suc [symmetric])
  finally show ?thesis .
qed

lemma own_props_remove:
  assumes e: "map entry (sh_prop sh') = (map entry (sh_prop sh))[i := (JS_ATOM_NULL, 0)]"
    and i: "i < length (sh_prop sh)" "live (sh_prop sh ! i)" "pr_atom (sh_prop sh ! i) = a"
    and d: "distinct (map pr_atom (filter live (sh_prop sh)))" and vs: "length (sh_prop sh) \<le> length vs"
  shows "own_props sh' (vs[i := u]) = filter (\<lambda>e. fst (fst e) \<noteq> a) (own_props sh vs)"
proof -
  let ?ps = "sh_prop sh"
  let ?d = "\<lparr>pr_hash_next = 0, pr_flags = 0, pr_atom = JS_ATOM_NULL\<rparr>"
  have ps: "?ps = take i ?ps @ ?ps ! i # drop (Suc i) ?ps" using i id_take_nth_drop by blast
  have len: "length (take i ?ps) = i" using i by simp
  have v: "vs = take i vs @ vs ! i # drop (Suc i) vs" using i vs id_take_nth_drop [of i vs] by simp
  have "own_props sh' (vs[i := u]) = own_props (sh\<lparr>sh_prop := take i ?ps @ ?d # drop (Suc i) ?ps\<rparr>) (vs[i := u])"
    by (rule own_props_cong) (use i in \<open>simp add: e entry_def upd_conv_take_nth_drop take_map drop_map\<close>)
  also have "\<dots> = zip (map entry (filter live (take i ?ps)) @ map entry (filter live (drop (Suc i) ?ps)))
      (live_values (take i ?ps) (take i vs) @ live_values (drop (Suc i) ?ps) (drop (Suc i) vs))"
  proof -
    have "live_values (take i ?ps) (vs[i := u]) = live_values (take i ?ps) (take i vs)"
      by (rule live_values_take) (use i vs in simp)
    moreover have "drop i (vs[i := u]) = u # drop (Suc i) vs" using i vs by (simp add: upd_conv_take_nth_drop)
    ultimately show ?thesis
      using i vs by (simp add: own_props_def entries_def live_values_append live_def)
  qed
  also have "\<dots> = zip (map entry (filter live (take i ?ps))) (live_values (take i ?ps) (take i vs)) @
      zip (map entry (filter live (drop (Suc i) ?ps))) (live_values (drop (Suc i) ?ps) (drop (Suc i) vs))"
    using length_live_values [of "take i ?ps" "take i vs"] i vs by (simp add: zip_append1)
  also have "\<dots> = filter (\<lambda>e. fst (fst e) \<noteq> a) (own_props sh vs)"
  proof -
    let ?z1 = "zip (map entry (filter live (take i ?ps))) (live_values (take i ?ps) (take i vs))"
    let ?z2 = "zip (map entry (filter live (drop (Suc i) ?ps))) (live_values (drop (Suc i) ?ps) (drop (Suc i) vs))"
    have "own_props sh vs = zip (entries (sh\<lparr>sh_prop := take i ?ps @ ?ps ! i # drop (Suc i) ?ps\<rparr>))
        (live_values (take i ?ps @ ?ps ! i # drop (Suc i) ?ps) vs)"
      using ps by (simp add: own_props_def entries_def)
    also have "\<dots> = ?z1 @ ((a, pr_flags (?ps ! i)), vs ! i) # ?z2"
    proof -
      have "live_values (take i ?ps) vs = live_values (take i ?ps) (take i vs)"
        by (rule live_values_take) (use i vs in simp)
      moreover have "drop i vs = vs ! i # drop (Suc i) vs" using i vs by (simp add: Cons_nth_drop_Suc)
      ultimately show ?thesis
        using i vs length_live_values [of "take i ?ps" "take i vs"]
        by (simp add: entries_def live_values_append entry_def zip_append1)
    qed
    finally have o: "own_props sh vs = ?z1 @ ((a, pr_flags (?ps ! i)), vs ! i) # ?z2" .
    have "distinct (map pr_atom (filter live (take i ?ps)) @ a # map pr_atom (filter live (drop (Suc i) ?ps)))"
      using d i by (subst (asm) ps) simp
    then have na: "a \<notin> pr_atom ` set (filter live (take i ?ps))" "a \<notin> pr_atom ` set (filter live (drop (Suc i) ?ps))"
      by auto
    have "fst (fst e) \<noteq> a" if "e \<in> set ?z1 \<union> set ?z2" for e
      using that na by (cases e) (auto simp: entry_def image_iff dest: set_zip_leftD)
    then have "filter (\<lambda>e. fst (fst e) \<noteq> a) ?z1 = ?z1" "filter (\<lambda>e. fst (fst e) \<noteq> a) ?z2 = ?z2"
      by (auto intro: filter_True)
    then show ?thesis unfolding o by simp
  qed
  finally show ?thesis .
qed

lemma own_props_compact:
  assumes "map entry (sh_prop sh') = map entry (filter live (sh_prop sh))"
    and "take (length (sh_prop sh')) vs' = live_values (sh_prop sh) vs"
  shows "own_props sh' vs' = own_props sh vs"
proof -
  have live: "live x" if "x \<in> set (sh_prop sh')" for x
  proof -
    have "entry x \<in> set (map entry (filter live (sh_prop sh)))" unfolding assms(1) [symmetric] using that by simp
    then show ?thesis by (auto simp: live_def entry_def)
  qed
  have "live_values prs ws = take (length prs) ws" if "\<forall>x \<in> set prs. live x" for prs and ws :: "'a list"
    using that by (induction prs ws rule: live_values.induct) auto
  then have "live_values (sh_prop sh') vs' = live_values (sh_prop sh) vs" using live assms(2) by simp
  moreover have "filter live (sh_prop sh') = sh_prop sh'" using live by (simp add: filter_id_conv)
  ultimately show ?thesis using assms(1) by (simp add: own_props_def entries_def)
qed

section \<open>The invariant of the heap\<close>

text \<open>The objects that use a shape.\<close>

definition users :: "(oid \<Rightarrow> 'v jsobject option) \<Rightarrow> addr \<Rightarrow> oid set" where
  "users obs a = {p. \<exists>ob. obs p = Some ob \<and> ob_shape ob = a}"

text \<open>Every hashed shape that is not in \<open>X\<close> (taken out for a moment) is in the chain of its hash, once.\<close>

definition table_ok :: "nat \<Rightarrow> addr list list \<Rightarrow> (addr \<Rightarrow> shape option) \<Rightarrow> addr set \<Rightarrow> bool" where
  "table_ok bits tab sps X \<longleftrightarrow> bits \<le> 32 \<and> length tab = 2 ^ bits \<and>
     (\<forall>h < 2 ^ bits. distinct (tab ! h) \<and> set (tab ! h) =
        {a. a \<notin> X \<and> (\<exists>sh. sps a = Some sh \<and> sh_is_hashed sh \<and> get_shape_hash (sh_hash sh) bits = h)})"

text \<open>A shape is counted at least once for every object that uses it; a hashed shape has no deleted
  properties, an unhashed one belongs to one object.\<close>

definition shapes_ok :: "(addr \<Rightarrow> shape option) \<Rightarrow> (oid \<Rightarrow> 'v jsobject option) \<Rightarrow> bool" where
  "shapes_ok sps obs \<longleftrightarrow> finite (dom obs) \<and>
     (\<forall>a sh. sps a = Some sh \<longrightarrow> shape_ok sh \<and> 1 \<le> sh_ref_count sh \<and> int (card (users obs a)) \<le> sh_ref_count sh \<and>
        (if sh_is_hashed sh then sh_deleted_prop_count sh = 0 else sh_ref_count sh = 1)) \<and>
     (\<forall>p ob. obs p = Some ob \<longrightarrow> (\<exists>sh. sps (ob_shape ob) = Some sh \<and> sh_prop_size sh \<le> length (ob_prop ob)))"

definition heap_ok :: "'v heap \<Rightarrow> bool" where
  "heap_ok rt \<longleftrightarrow> table_ok (shape_hash_bits rt) (shape_hash_tab rt) (shapes rt) {} \<and>
     shapes_ok (shapes rt) (objects rt) \<and> distinct (gc_shapes rt) \<and> set (gc_shapes rt) = dom (shapes rt)"

text \<open>Allocated blocks are not in use.\<close>

definition allocator_ok :: "'v allocator \<Rightarrow> bool" where
  "allocator_ok am \<longleftrightarrow> (\<forall>rt b. am_malloc am rt = Some b \<longrightarrow> shapes rt b = None) \<and>
     (\<forall>rt a b. am_realloc am rt a = Some b \<longrightarrow> b = a \<or> shapes rt b = None)"

lemma get_shape_hash_less: "bits \<le> 32 \<Longrightarrow> get_shape_hash h bits < 2 ^ bits"
proof -
  assume b: "bits \<le> 32"
  have "unat h < 2 ^ bits * 2 ^ (32 - bits)" using unsigned_less [of h] b by (simp flip: power_add)
  then have "unat h div 2 ^ (32 - bits) < 2 ^ bits" by (simp add: less_mult_imp_div_less)
  moreover have "get_shape_hash h bits = unat h div 2 ^ (32 - bits)"
    using unsigned_less [of h, where 'a = nat]
    by (simp only: get_shape_hash_def unsigned_drop_bit_eq) (simp add: drop_bit_eq_div take_bit_nat_eq_self)
  ultimately show ?thesis by simp
qed

lemma table_ok_cong:
  assumes "table_ok bits tab sps X"
    and "\<And>a. a \<notin> X \<Longrightarrow> map_option (\<lambda>sh. (sh_is_hashed sh, if sh_is_hashed sh then sh_hash sh else 0)) (sps' a) =
      map_option (\<lambda>sh. (sh_is_hashed sh, if sh_is_hashed sh then sh_hash sh else 0)) (sps a)"
  shows "table_ok bits tab sps' X"
proof -
  have "(\<exists>sh. sps' a = Some sh \<and> sh_is_hashed sh \<and> get_shape_hash (sh_hash sh) bits = h) \<longleftrightarrow>
      (\<exists>sh. sps a = Some sh \<and> sh_is_hashed sh \<and> get_shape_hash (sh_hash sh) bits = h)" if "a \<notin> X" for a h
    using assms(2) [OF that] by (cases "sps a"; cases "sps' a") (auto split: if_splits)
  then have "{a. a \<notin> X \<and> (\<exists>sh. sps' a = Some sh \<and> sh_is_hashed sh \<and> get_shape_hash (sh_hash sh) bits = h)} =
      {a. a \<notin> X \<and> (\<exists>sh. sps a = Some sh \<and> sh_is_hashed sh \<and> get_shape_hash (sh_hash sh) bits = h)}" for h
    by blast
  then show ?thesis using assms(1) unfolding table_ok_def by presburger
qed

lemma table_ok_unhashed:
  "table_ok bits tab sps (insert a X) \<Longrightarrow> (\<And>sh. sps a = Some sh \<Longrightarrow> \<not> sh_is_hashed sh) \<Longrightarrow> table_ok bits tab sps (X - {a})"
  unfolding table_ok_def by (auto simp: set_eq_iff)

lemma js_shape_hash_unlink_spec:
  assumes t: "table_ok (shape_hash_bits rt) (shape_hash_tab rt) (shapes rt) X" and a: "shapes rt a = Some sh"
    "sh_is_hashed sh" "a \<notin> X"
  shows "\<exists>tab. js_shape_hash_unlink a rt =
      Some (rt\<lparr>shape_hash_tab := tab, shape_hash_count := shape_hash_count rt - 1\<rparr>) \<and>
    table_ok (shape_hash_bits rt) tab (shapes rt) (insert a X)"
proof -
  let ?h = "get_shape_hash (sh_hash sh) (shape_hash_bits rt)" and ?tab = "shape_hash_tab rt"
  have h: "?h < 2 ^ shape_hash_bits rt" using t get_shape_hash_less by (simp add: table_ok_def)
  then have c: "distinct (?tab ! ?h)" "a \<in> set (?tab ! ?h)" "?h < length ?tab" using t a by (auto simp: table_ok_def)
  have "table_ok (shape_hash_bits rt) (?tab[?h := remove1 a (?tab ! ?h)]) (shapes rt) (insert a X)"
    unfolding table_ok_def
  proof (intro conjI allI impI)
    fix g :: nat assume g: "g < 2 ^ shape_hash_bits rt"
    have tg: "distinct (?tab ! g)" "set (?tab ! g) = {b. b \<notin> X \<and> (\<exists>sh. shapes rt b = Some sh \<and> sh_is_hashed sh \<and>
        get_shape_hash (sh_hash sh) (shape_hash_bits rt) = g)}" using t g by (simp_all add: table_ok_def)
    show "distinct (?tab[?h := remove1 a (?tab ! ?h)] ! g)" using tg(1) c by (simp add: nth_list_update)
    show "set (?tab[?h := remove1 a (?tab ! ?h)] ! g) = {b. b \<notin> insert a X \<and> (\<exists>sh. shapes rt b = Some sh \<and>
        sh_is_hashed sh \<and> get_shape_hash (sh_hash sh) (shape_hash_bits rt) = g)}"
      using tg c a by (cases "g = ?h") auto
  qed (use t in \<open>simp_all add: table_ok_def\<close>)
  moreover have "js_shape_hash_unlink a rt =
      Some (rt\<lparr>shape_hash_tab := ?tab[?h := remove1 a (?tab ! ?h)], shape_hash_count := shape_hash_count rt - 1\<rparr>)"
    using a(1) c(2,3) by (simp add: js_shape_hash_unlink_def rd_def wr_def Let_def)
  ultimately show ?thesis by blast
qed

lemma js_shape_hash_link_spec:
  assumes t: "table_ok (shape_hash_bits rt) (shape_hash_tab rt) (shapes rt) (insert a X)" and a: "shapes rt a = Some sh"
    "sh_is_hashed sh"
  shows "\<exists>tab. js_shape_hash_link a rt =
      Some (rt\<lparr>shape_hash_tab := tab, shape_hash_count := shape_hash_count rt + 1\<rparr>) \<and>
    table_ok (shape_hash_bits rt) tab (shapes rt) (X - {a})"
proof -
  let ?h = "get_shape_hash (sh_hash sh) (shape_hash_bits rt)" and ?tab = "shape_hash_tab rt"
  have h: "?h < 2 ^ shape_hash_bits rt" using t get_shape_hash_less by (simp add: table_ok_def)
  then have c: "distinct (?tab ! ?h)" "a \<notin> set (?tab ! ?h)" "?h < length ?tab" using t by (auto simp: table_ok_def)
  have "table_ok (shape_hash_bits rt) (?tab[?h := a # ?tab ! ?h]) (shapes rt) (X - {a})"
    unfolding table_ok_def
  proof (intro conjI allI impI)
    fix g :: nat assume g: "g < 2 ^ shape_hash_bits rt"
    have tg: "distinct (?tab ! g)" "set (?tab ! g) = {b. b \<notin> insert a X \<and> (\<exists>sh. shapes rt b = Some sh \<and> sh_is_hashed sh \<and>
        get_shape_hash (sh_hash sh) (shape_hash_bits rt) = g)}" using t g by (simp_all add: table_ok_def)
    show "distinct (?tab[?h := a # ?tab ! ?h] ! g)" using tg(1) c by (cases "g = ?h") auto
    show "set (?tab[?h := a # ?tab ! ?h] ! g) = {b. b \<notin> X - {a} \<and> (\<exists>sh. shapes rt b = Some sh \<and>
        sh_is_hashed sh \<and> get_shape_hash (sh_hash sh) (shape_hash_bits rt) = g)}"
    proof (rule set_eqI)
      fix b
      show "b \<in> set (?tab[?h := a # ?tab ! ?h] ! g) \<longleftrightarrow> b \<in> {b. b \<notin> X - {a} \<and> (\<exists>sh. shapes rt b = Some sh \<and>
          sh_is_hashed sh \<and> get_shape_hash (sh_hash sh) (shape_hash_bits rt) = g)}"
      proof -
        have "set (?tab[?h := a # ?tab ! ?h] ! g) = (if g = ?h then {a} else {}) \<union> set (?tab ! g)"
          using c(3) by simp
        then show ?thesis using a unfolding tg(2) by (cases "b = a") simp_all
      qed
    qed
  qed (use t in \<open>simp_all add: table_ok_def\<close>)
  moreover have "js_shape_hash_link a rt =
      Some (rt\<lparr>shape_hash_tab := ?tab[?h := a # ?tab ! ?h], shape_hash_count := shape_hash_count rt + 1\<rparr>)"
    using a(1) c(3) by (simp add: js_shape_hash_link_def rd_def wr_def Let_def)
  ultimately show ?thesis by blast
qed

section \<open>Steps\<close>

lemma fold_dup_atoms [simp]:
  "shapes (fold (\<lambda>pr. JS_DupAtom (pr_atom pr)) ps rt) = shapes rt"
  "objects (fold (\<lambda>pr. JS_DupAtom (pr_atom pr)) ps rt) = objects rt"
  "shape_hash_bits (fold (\<lambda>pr. JS_DupAtom (pr_atom pr)) ps rt) = shape_hash_bits rt"
  "shape_hash_tab (fold (\<lambda>pr. JS_DupAtom (pr_atom pr)) ps rt) = shape_hash_tab rt"
  "gc_shapes (fold (\<lambda>pr. JS_DupAtom (pr_atom pr)) ps rt) = gc_shapes rt"
  by (induction ps arbitrary: rt) (simp_all add: JS_DupAtom_def)

lemma fold_free_atoms [simp]:
  "shapes (fold (\<lambda>pr. JS_FreeAtom (pr_atom pr)) ps rt) = shapes rt"
  "objects (fold (\<lambda>pr. JS_FreeAtom (pr_atom pr)) ps rt) = objects rt"
  "shape_hash_bits (fold (\<lambda>pr. JS_FreeAtom (pr_atom pr)) ps rt) = shape_hash_bits rt"
  "shape_hash_tab (fold (\<lambda>pr. JS_FreeAtom (pr_atom pr)) ps rt) = shape_hash_tab rt"
  "gc_shapes (fold (\<lambda>pr. JS_FreeAtom (pr_atom pr)) ps rt) = gc_shapes rt"
  by (induction ps arbitrary: rt) (simp_all add: JS_FreeAtom_def)

lemma proto_fields [simp]:
  "shapes (free_proto v rt) = shapes rt" "objects (free_proto v rt) = objects rt"
  "shape_hash_bits (free_proto v rt) = shape_hash_bits rt" "shape_hash_tab (free_proto v rt) = shape_hash_tab rt"
  "gc_shapes (free_proto v rt) = gc_shapes rt"
  "shapes (dup_proto v rt) = shapes rt" "objects (dup_proto v rt) = objects rt"
  "shape_hash_bits (dup_proto v rt) = shape_hash_bits rt" "shape_hash_tab (dup_proto v rt) = shape_hash_tab rt"
  "gc_shapes (dup_proto v rt) = gc_shapes rt"
  by (simp_all add: free_proto_def dup_proto_def)

lemma put_fields [simp]:
  "shapes (put_shape a sh rt) = (shapes rt)(a \<mapsto> sh)" "objects (put_shape a sh rt) = objects rt"
  "shape_hash_bits (put_shape a sh rt) = shape_hash_bits rt" "shape_hash_tab (put_shape a sh rt) = shape_hash_tab rt"
  "gc_shapes (put_shape a sh rt) = gc_shapes rt"
  "shapes (put_object p ob rt) = shapes rt" "objects (put_object p ob rt) = (objects rt)(p \<mapsto> ob)"
  "shape_hash_bits (put_object p ob rt) = shape_hash_bits rt" "shape_hash_tab (put_object p ob rt) = shape_hash_tab rt"
  "gc_shapes (put_object p ob rt) = gc_shapes rt"
  "shapes (JS_DupAtom x rt) = shapes rt" "objects (JS_DupAtom x rt) = objects rt"
  "shape_hash_bits (JS_DupAtom x rt) = shape_hash_bits rt" "shape_hash_tab (JS_DupAtom x rt) = shape_hash_tab rt"
  "gc_shapes (JS_DupAtom x rt) = gc_shapes rt"
  "shapes (JS_FreeAtom x rt) = shapes rt" "objects (JS_FreeAtom x rt) = objects rt"
  "shape_hash_bits (JS_FreeAtom x rt) = shape_hash_bits rt" "shape_hash_tab (JS_FreeAtom x rt) = shape_hash_tab rt"
  "gc_shapes (JS_FreeAtom x rt) = gc_shapes rt"
  "shapes (free_property v fl rt) = shapes rt" "objects (free_property v fl rt) = objects rt"
  "shape_hash_bits (free_property v fl rt) = shape_hash_bits rt" "shape_hash_tab (free_property v fl rt) = shape_hash_tab rt"
  "gc_shapes (free_property v fl rt) = gc_shapes rt"
  by (simp_all add: put_shape_def put_object_def JS_DupAtom_def JS_FreeAtom_def free_property_def)

lemma js_free_shape_spec:
  assumes t: "table_ok (shape_hash_bits rt) (shape_hash_tab rt) (shapes rt) {}" and a: "shapes rt a = Some sh"
    and rc: "1 \<le> sh_ref_count sh"
  shows "\<exists>rt'. js_free_shape a rt = Some rt' \<and> objects rt' = objects rt \<and>
    table_ok (shape_hash_bits rt') (shape_hash_tab rt') (shapes rt') {} \<and>
    shapes rt' = (if sh_ref_count sh = 1 then (shapes rt)(a := None)
      else (shapes rt)(a \<mapsto> sh\<lparr>sh_ref_count := sh_ref_count sh - 1\<rparr>)) \<and>
    gc_shapes rt' = (if sh_ref_count sh = 1 then remove1 a (gc_shapes rt) else gc_shapes rt)"
proof -
  let ?sh = "sh\<lparr>sh_ref_count := sh_ref_count sh - 1\<rparr>"
  let ?r = "put_shape a ?sh rt"
  have t1: "table_ok (shape_hash_bits ?r) (shape_hash_tab ?r) (shapes ?r) {}"
    using t by (simp, rule table_ok_cong) (use a in auto)
  show ?thesis
  proof (cases "sh_ref_count sh = 1")
    case False
    then have "js_free_shape a rt = Some ?r" using a rc by (simp add: js_free_shape_def Let_def)
    then show ?thesis using t1 False by simp
  next
    case True
    obtain rt1 where r1: "(if sh_is_hashed ?sh then js_shape_hash_unlink a ?r else Some ?r) = Some rt1"
      "table_ok (shape_hash_bits rt1) (shape_hash_tab rt1) (shapes rt1) {a}" "shapes rt1 = shapes ?r"
      "objects rt1 = objects rt" "gc_shapes rt1 = gc_shapes rt"
    proof (cases "sh_is_hashed sh")
      case True
      from js_shape_hash_unlink_spec [OF t1, of a ?sh] True obtain tab where
        u: "js_shape_hash_unlink a ?r = Some (?r\<lparr>shape_hash_tab := tab, shape_hash_count := shape_hash_count ?r - 1\<rparr>)"
          "table_ok (shape_hash_bits ?r) tab (shapes ?r) {a}" by auto
      show ?thesis by (rule that [of "?r\<lparr>shape_hash_tab := tab, shape_hash_count := shape_hash_count ?r - 1\<rparr>"])
          (use u True in simp_all)
    next
      case False
      then have "table_ok (shape_hash_bits ?r) (shape_hash_tab ?r) (shapes ?r) {a}"
        using t1 by (auto simp: table_ok_def)
      then show ?thesis using that [of ?r] False by simp
    qed
    have "table_ok (shape_hash_bits rt1) (shape_hash_tab rt1) ((shapes rt)(a := None)) {a}"
      using r1(2) by (rule table_ok_cong) (simp add: r1(3))
    then have t2: "table_ok (shape_hash_bits rt1) (shape_hash_tab rt1) ((shapes rt)(a := None)) {}"
      using table_ok_unhashed [of "shape_hash_bits rt1" "shape_hash_tab rt1" "(shapes rt)(a := None)" a "{}"] by simp
    define rt2 where "rt2 = (fold (\<lambda>pr. JS_FreeAtom (pr_atom pr)) (sh_prop sh) (free_proto (sh_proto sh) rt1))"
    have f2: "shapes rt2 = (shapes rt)(a \<mapsto> ?sh)" "objects rt2 = objects rt" "gc_shapes rt2 = gc_shapes rt"
      "shape_hash_bits rt2 = shape_hash_bits rt1" "shape_hash_tab rt2 = shape_hash_tab rt1"
      using r1 by (simp_all add: rt2_def)
    have "js_free_shape a rt = Some (rt2\<lparr>gc_shapes := remove1 a (gc_shapes rt2), shapes := (shapes rt2)(a := None)\<rparr>)"
      using a True r1(1) r1(3)
      by (cases "sh_is_hashed sh") (auto simp: js_free_shape_def js_free_shape0_def Let_def rt2_def)
    then show ?thesis using t2 f2 True by simp
  qed
qed

lemma js_clone_shape_spec:
  assumes "shapes rt a = Some sh" and "am_malloc am rt = Some b"
  shows "\<exists>rt'. js_clone_shape am a rt = Some (rt', Some b) \<and> objects rt' = objects rt \<and>
    shape_hash_bits rt' = shape_hash_bits rt \<and> shape_hash_tab rt' = shape_hash_tab rt \<and>
    gc_shapes rt' = gc_shapes rt @ [b] \<and>
    shapes rt' = (shapes rt)(b \<mapsto> sh\<lparr>sh_ref_count := 1, sh_is_hashed := False\<rparr>)"
  using assms by (simp add: js_clone_shape_def Let_def)

text \<open>The users of shapes when an object changes its shape.\<close>

lemma users_update:
  assumes "obs p = Some ob"
  shows "users (obs(p \<mapsto> ob')) c = (if c = ob_shape ob' then insert p (users obs c) else users obs c - {p})"
  by (auto simp: users_def)

lemma finite_users: "finite (dom obs) \<Longrightarrow> finite (users obs a)"
  by (rule finite_subset [of _ "dom obs"]) (auto simp: users_def)

lemma sole_user:
  assumes "shapes_ok sps obs" and "obs p = Some ob" and "sps (ob_shape ob) = Some sh" and "sh_ref_count sh = 1"
    and "obs q = Some oq" and "q \<noteq> p"
  shows "ob_shape oq \<noteq> ob_shape ob"
proof
  assume e: "ob_shape oq = ob_shape ob"
  have "finite (users obs (ob_shape ob))" using assms(1) finite_users by (auto simp: shapes_ok_def)
  moreover have "{p, q} \<subseteq> users obs (ob_shape ob)" using assms(2,5) e by (auto simp: users_def)
  ultimately have "card {p, q} \<le> card (users obs (ob_shape ob))" by (rule card_mono)
  then have "2 \<le> card (users obs (ob_shape ob))" using assms(6) by simp
  then show False using assms(1,3,4) by (fastforce simp: shapes_ok_def)
qed

text \<open>An object moves to another shape, its old shape is released.\<close>

lemma switch_shapes_ok:
  assumes ok: "shapes_ok sps obs" and ob: "obs p = Some ob" "ob_shape ob = a" and a: "sps a = Some sh" and ab: "a \<noteq> b"
    and b: "sps b = Some shb" "int (card (users obs b)) + 1 \<le> sh_ref_count shb" "sh_prop_size shb \<le> length vs"
  shows "shapes_ok (if sh_ref_count sh = 1 then sps(a := None) else sps(a \<mapsto> sh\<lparr>sh_ref_count := sh_ref_count sh - 1\<rparr>))
    (obs(p \<mapsto> ob\<lparr>ob_shape := b, ob_prop := vs\<rparr>))" (is "shapes_ok ?sps ?obs")
proof -
  have fin: "finite (dom obs)" and fu: "finite (users obs c)" for c
    using ok finite_users by (auto simp: shapes_ok_def)
  have sh: "shape_ok sh" "1 \<le> sh_ref_count sh" "int (card (users obs a)) \<le> sh_ref_count sh"
    "if sh_is_hashed sh then sh_deleted_prop_count sh = 0 else sh_ref_count sh = 1"
    using ok a unfolding shapes_ok_def by blast+
  have pa: "p \<in> users obs a" using ob by (simp add: users_def)
  have "card (users ?obs a) = card (users obs a) - 1"
    using users_update [of obs p ob "ob\<lparr>ob_shape := b, ob_prop := vs\<rparr>" a, OF ob(1)] ab
      card_Diff_singleton [OF pa] by simp
  moreover have "0 < card (users obs a)" using pa fu [of a] by (auto simp: card_gt_0_iff)
  ultimately have ua: "int (card (users ?obs a)) \<le> sh_ref_count sh - 1" using sh(3) by linarith
  have ub: "int (card (users ?obs b)) \<le> sh_ref_count shb"
    using b(2) fu [of b] users_update [of obs p ob "ob\<lparr>ob_shape := b, ob_prop := vs\<rparr>" b, OF ob(1)]
    by (simp add: card_insert_if)
  have uc: "card (users ?obs c) \<le> card (users obs c)" if "c \<noteq> b" for c
    using that fu [of c] users_update [of obs p ob "ob\<lparr>ob_shape := b, ob_prop := vs\<rparr>" c, OF ob(1)]
    by (auto intro: card_mono)
  show ?thesis
    unfolding shapes_ok_def
  proof (intro conjI allI impI)
    show "finite (dom ?obs)" using fin by simp
  next
    fix c shc assume c: "?sps c = Some shc"
    have "shape_ok shc \<and> 1 \<le> sh_ref_count shc \<and> int (card (users ?obs c)) \<le> sh_ref_count shc \<and>
        (if sh_is_hashed shc then sh_deleted_prop_count shc = 0 else sh_ref_count shc = 1)"
    proof (cases "c = a")
      case True
      then have "shc = sh\<lparr>sh_ref_count := sh_ref_count sh - 1\<rparr>" "sh_ref_count sh \<noteq> 1" using c by (auto split: if_splits)
      then show ?thesis using sh ua True by (auto simp: shape_ok_def split: if_splits)
    next
      case False
      then have s: "sps c = Some shc" using c by (auto split: if_splits)
      then have o: "shape_ok shc \<and> 1 \<le> sh_ref_count shc \<and> int (card (users obs c)) \<le> sh_ref_count shc \<and>
        (if sh_is_hashed shc then sh_deleted_prop_count shc = 0 else sh_ref_count shc = 1)"
        using ok unfolding shapes_ok_def by blast
      have "int (card (users ?obs c)) \<le> sh_ref_count shc"
        using o s b(1) ub uc [of c] by (cases "c = b") auto
      then show ?thesis using o by blast
    qed
    then show "shape_ok shc" "1 \<le> sh_ref_count shc" "int (card (users ?obs c)) \<le> sh_ref_count shc"
      "if sh_is_hashed shc then sh_deleted_prop_count shc = 0 else sh_ref_count shc = 1" by blast+
  next
    fix q oq assume q: "?obs q = Some oq"
    show "\<exists>sh. ?sps (ob_shape oq) = Some sh \<and> sh_prop_size sh \<le> length (ob_prop oq)"
    proof (cases "q = p")
      case True
      then show ?thesis using q b(1,3) ab by auto
    next
      case False
      then have oq: "obs q = Some oq" using q by simp
      then obtain shq where shq: "sps (ob_shape oq) = Some shq" "sh_prop_size shq \<le> length (ob_prop oq)"
        using ok unfolding shapes_ok_def by blast
      show ?thesis
      proof (cases "ob_shape oq = a")
        case True
        then have "sh_ref_count sh \<noteq> 1" using sole_user [OF ok ob(1) _ _ oq False] ob(2) a by auto
        then show ?thesis using True a shq by auto
      next
        case False
        then show ?thesis using shq by auto
      qed
    qed
  qed
qed

end
