(* ===== verification/ShapeProps.thy ===== *)
theory ShapeProps
  imports ShapeInv
begin

text \<open>
  Correctness of the property operations on shared shapes: an object is a list of properties, every
  operation acts on the properties of its object like the list operation, and leaves every other
  object alone.
\<close>

section \<open>Growing\<close>

text \<open>The object \<open>p\<close> alone uses its shape, which is out of the table when it is hashed.\<close>

definition owns :: "'v heap \<Rightarrow> oid \<Rightarrow> 'v jsobject \<Rightarrow> shape \<Rightarrow> bool" where
  "owns rt p ob sh \<longleftrightarrow> objects rt p = Some ob \<and> shapes rt (ob_shape ob) = Some sh \<and> sh_ref_count sh = 1 \<and>
     table_ok (shape_hash_bits rt) (shape_hash_tab rt) (shapes rt) (if sh_is_hashed sh then {ob_shape ob} else {}) \<and>
     shapes_ok (shapes rt) (objects rt) \<and> distinct (gc_shapes rt) \<and> set (gc_shapes rt) = dom (shapes rt)"

text \<open>The object and its shape are replaced, everything else stays.\<close>

definition replaces :: "'v heap \<Rightarrow> oid \<Rightarrow> 'v jsobject \<Rightarrow> 'v heap \<Rightarrow> 'v jsobject \<Rightarrow> bool" where
  "replaces rt p ob rt' ob' \<longleftrightarrow> objects rt' = (objects rt)(p \<mapsto> ob') \<and>
     (ob_shape ob' = ob_shape ob \<or> shapes rt (ob_shape ob') = None) \<and>
     (\<forall>c. c \<noteq> ob_shape ob \<longrightarrow> c \<noteq> ob_shape ob' \<longrightarrow> shapes rt' c = shapes rt c) \<and>
     (ob_shape ob' \<noteq> ob_shape ob \<longrightarrow> shapes rt' (ob_shape ob) = None)"

lemma owns_replace:
  assumes o: "owns rt p ob sh" and r: "replaces rt p ob rt' ob'" and s: "shapes rt' (ob_shape ob') = Some sh'"
    and sh': "shape_ok sh'" "sh_ref_count sh' = 1" "sh_is_hashed sh' \<longrightarrow> sh_deleted_prop_count sh' = 0"
    "sh_prop_size sh' \<le> length (ob_prop ob')"
    and t: "shape_hash_bits rt' = shape_hash_bits rt" "shape_hash_tab rt' = shape_hash_tab rt"
    and h: "sh_is_hashed sh' = sh_is_hashed sh"
    and g: "distinct (gc_shapes rt')" "set (gc_shapes rt') = insert (ob_shape ob') (set (gc_shapes rt) - {ob_shape ob})"
  shows "owns rt' p ob' sh'"
proof -
  let ?a = "ob_shape ob" and ?b = "ob_shape ob'"
  have ok: "shapes_ok (shapes rt) (objects rt)" and ob: "objects rt p = Some ob" and a: "shapes rt ?a = Some sh"
    and rc: "sh_ref_count sh = 1" and tb: "table_ok (shape_hash_bits rt) (shape_hash_tab rt) (shapes rt) (if sh_is_hashed sh then {?a} else {})"
    and dom: "set (gc_shapes rt) = dom (shapes rt)"
    using o by (auto simp: owns_def)
  have b: "?b = ?a \<or> shapes rt ?b = None" and fr: "\<And>c. c \<noteq> ?a \<Longrightarrow> c \<noteq> ?b \<Longrightarrow> shapes rt' c = shapes rt c"
    and del: "?b \<noteq> ?a \<Longrightarrow> shapes rt' ?a = None" and obs: "objects rt' = (objects rt)(p \<mapsto> ob')"
    using r by (auto simp: replaces_def)
  have cases: "shapes rt' c = Some shc \<longleftrightarrow> (c = ?b \<and> shc = sh') \<or> (c \<noteq> ?a \<and> c \<noteq> ?b \<and> shapes rt c = Some shc)" for c shc
    using s fr del by (cases "c = ?b"; cases "c = ?a") auto
  have "table_ok (shape_hash_bits rt) (shape_hash_tab rt) (shapes rt') (if sh_is_hashed sh then {?b} else {})"
    using tb b h a unfolding table_ok_def by (auto simp: cases)
  moreover have "shapes_ok (shapes rt') (objects rt')"
    unfolding shapes_ok_def
  proof (intro conjI allI impI)
    show "finite (dom (objects rt'))" using ok obs by (simp add: shapes_ok_def)
  next
    have fin: "finite (users (objects rt) c)" for c using ok finite_users by (auto simp: shapes_ok_def)
    have usr: "users (objects rt') c = (if c = ?b then insert p (users (objects rt) c) else users (objects rt) c - {p})" for c
      unfolding obs using ob by (rule users_update)
    have ub: "users (objects rt) ?b \<subseteq> {p}"
    proof -
      have "ob_shape oq \<noteq> ?b" if "objects rt q = Some oq" "q \<noteq> p" for q oq
        using b sole_user [OF ok ob a rc that] ok that unfolding shapes_ok_def by fastforce
      then show ?thesis by (auto simp: users_def)
    qed
    fix c shc assume c: "shapes rt' c = Some shc"
    have "shape_ok shc \<and> 1 \<le> sh_ref_count shc \<and> int (card (users (objects rt') c)) \<le> sh_ref_count shc \<and>
        (if sh_is_hashed shc then sh_deleted_prop_count shc = 0 else sh_ref_count shc = 1)"
    proof (cases "c = ?b")
      case True
      then have "users (objects rt') c = {p}" using usr [of c] ub by auto
      then show ?thesis using c cases True sh' by auto
    next
      case False
      then have s: "shapes rt c = Some shc" using c cases by auto
      have "card (users (objects rt') c) \<le> card (users (objects rt) c)"
        using usr [of c] False fin [of c] by (auto intro: card_mono)
      moreover have "shape_ok shc \<and> 1 \<le> sh_ref_count shc \<and> int (card (users (objects rt) c)) \<le> sh_ref_count shc \<and>
        (if sh_is_hashed shc then sh_deleted_prop_count shc = 0 else sh_ref_count shc = 1)"
        using ok s unfolding shapes_ok_def by blast
      ultimately show ?thesis by linarith
    qed
    then show "shape_ok shc" "1 \<le> sh_ref_count shc" "int (card (users (objects rt') c)) \<le> sh_ref_count shc"
      "if sh_is_hashed shc then sh_deleted_prop_count shc = 0 else sh_ref_count shc = 1" by blast+
  next
    fix q oq assume q: "objects rt' q = Some oq"
    show "\<exists>sh. shapes rt' (ob_shape oq) = Some sh \<and> sh_prop_size sh \<le> length (ob_prop oq)"
    proof (cases "q = p")
      case True
      then show ?thesis using q obs s sh'(4) by auto
    next
      case False
      then have oq: "objects rt q = Some oq" using q obs by simp
      then obtain shq where shq: "shapes rt (ob_shape oq) = Some shq" "sh_prop_size shq \<le> length (ob_prop oq)"
        using ok unfolding shapes_ok_def by blast
      moreover have "ob_shape oq \<noteq> ?a" using sole_user [OF ok ob a rc oq False] .
      moreover from this have "ob_shape oq \<noteq> ?b" using b shq(1) by auto
      ultimately show ?thesis using cases by blast
    qed
  qed
  moreover have "dom (shapes rt') = insert ?b (dom (shapes rt) - {?a})"
    using s fr del b by (auto simp: domIff) (metis option.distinct(1))+
  ultimately show ?thesis using s sh'(2) h t obs g dom by (simp add: owns_def)
qed

lemma replaces_others:
  assumes o: "owns rt p ob sh" and r: "replaces rt p ob rt' ob'" and q: "q \<noteq> p"
  shows "props_of rt' q = props_of rt q"
proof (cases "objects rt q")
  case None
  then show ?thesis using r q by (simp add: props_of_def replaces_def)
next
  case (Some oq)
  have ok: "shapes_ok (shapes rt) (objects rt)" "objects rt p = Some ob" "shapes rt (ob_shape ob) = Some sh"
    "sh_ref_count sh = 1" using o by (auto simp: owns_def)
  then have "ob_shape oq \<noteq> ob_shape ob" using sole_user [OF ok Some q] by simp
  moreover obtain shq where "shapes rt (ob_shape oq) = Some shq" using ok(1) Some unfolding shapes_ok_def by blast
  ultimately have "shapes rt' (ob_shape oq) = shapes rt (ob_shape oq)" using r by (auto simp: replaces_def)
  then show ?thesis using Some q r by (simp add: props_of_def replaces_def)
qed

lemma replaces_trans:
  assumes "replaces rt p ob rt1 ob1" and "replaces rt1 p ob1 rt2 ob2" and "shapes rt (ob_shape ob) \<noteq> None"
    and "\<And>c. shapes rt c \<noteq> None \<Longrightarrow> c \<noteq> ob_shape ob \<Longrightarrow> shapes rt1 c \<noteq> None"
  shows "replaces rt p ob rt2 ob2"
  using assms unfolding replaces_def by (auto simp: fun_upd_def) metis+

lemma realloc_array_length: "length (realloc_array u n vs) = n"
  by (simp add: realloc_array_def)

lemma realloc_array_take: "m \<le> n \<Longrightarrow> m \<le> length vs \<Longrightarrow> take m (realloc_array u n vs) = take m vs"
  by (simp add: realloc_array_def min_def)

lemma resize_properties_spec:
  assumes o: "owns rt p ob sh" and am: "allocator_ok am" and n: "length (sh_prop sh) \<le> n"
    and size: "max n (sh_prop_size sh * 3 div 2) \<le> 2 ^ 27"
  shows "\<exists>rt' r ob' sh'. resize_properties am p n rt = Some (rt', r) \<and> owns rt' p ob' sh' \<and> replaces rt p ob rt' ob' \<and>
    shapes rt' (ob_shape ob') = Some sh' \<and> map entry (sh_prop sh') = map entry (sh_prop sh) \<and>
    take (length (sh_prop sh)) (ob_prop ob') = take (length (sh_prop sh)) (ob_prop ob) \<and>
    sh_is_hashed sh' = sh_is_hashed sh \<and> sh_hash sh' = sh_hash sh \<and>
    (if r = 0 then n \<le> sh_prop_size sh' else r = -1 \<and> ob_shape ob' = ob_shape ob \<and> sh' = sh)"
proof (cases "am_array am rt")
  case False
  have "owns rt p ob sh \<and> replaces rt p ob rt ob" using o by (auto simp: owns_def replaces_def)
  then show ?thesis using False o
    by (intro exI [of _ rt] exI [of _ "-1"] exI [of _ ob] exI [of _ sh]) (auto simp: resize_properties_def owns_def Let_def)
next
  case True
  let ?a = "ob_shape ob" and ?n = "max n (sh_prop_size sh * 3 div 2)"
  have ob: "objects rt p = Some ob" and a: "shapes rt ?a = Some sh" and rc: "sh_ref_count sh = 1"
    and ok: "shapes_ok (shapes rt) (objects rt)" and gc: "distinct (gc_shapes rt)" "set (gc_shapes rt) = dom (shapes rt)"
    using o by (auto simp: owns_def)
  have sk: "shape_ok sh" "sh_is_hashed sh \<longrightarrow> sh_deleted_prop_count sh = 0" "sh_prop_size sh \<le> length (ob_prop ob)"
    using ok a ob unfolding shapes_ok_def by (auto split: if_splits) fastforce
  then have len: "length (sh_prop sh) \<le> sh_prop_size sh" "2 \<le> sh_prop_size sh" by (auto simp: shape_ok_def)
  let ?ob = "ob\<lparr>ob_prop := realloc_array (am_uninit am) ?n (ob_prop ob)\<rparr>"
  let ?same = "grow_mask (unat (sh_prop_hash_mask sh)) ?n = unat (sh_prop_hash_mask sh)"
  define rt1 where "rt1 = (let rt = put_object p ?ob rt in if ?same then rt\<lparr>gc_shapes := remove1 ?a (gc_shapes rt)\<rparr> else rt)"
  define addr where "addr = (if ?same then am_realloc am rt1 ?a else am_malloc am rt1)"
  have s1: "shapes rt1 = shapes rt" "objects rt1 = (objects rt)(p \<mapsto> ?ob)" "shape_hash_bits rt1 = shape_hash_bits rt"
    "shape_hash_tab rt1 = shape_hash_tab rt" "gc_shapes rt1 = (if ?same then remove1 ?a (gc_shapes rt) else gc_shapes rt)"
    by (simp_all add: rt1_def Let_def)
  have "length (sh_prop sh) \<le> ?n" "2 \<le> ?n" using n len by auto
  from resize_shape_spec [OF sk(1) this size, of "addr \<noteq> None"] obtain sh' tab prs hm where
    rs: "resize_shape (addr \<noteq> None) ?n sh = Some (sh', addr \<noteq> None)" "shape_ok sh'" "map entry prs = map entry (sh_prop sh)"
      "sh' = (if addr \<noteq> None then sh\<lparr>sh_prop := prs, sh_prop_hash := tab, sh_prop_hash_mask := hm, sh_prop_size := ?n\<rparr> else sh)"
    by blast
  have "resize_properties am p n rt = do {
      (sh', ok) \<leftarrow> resize_shape (addr \<noteq> None) ?n sh;
      case addr of
         None \<Rightarrow> Some (if ?same then rt1\<lparr>gc_shapes := gc_shapes rt1 @ [?a]\<rparr> else rt1, -1)
       | Some b \<Rightarrow>
           Some (put_object p (?ob\<lparr>ob_shape := b\<rparr>)
             (rt1\<lparr>shapes := (shapes rt1)(?a := None, b \<mapsto> sh'), gc_shapes := remove1 ?a (gc_shapes rt1) @ [b]\<rparr>), 0)
    }"
    unfolding resize_properties_def Let_def rt1_def addr_def using True ob a by simp
  then have eq: "resize_properties am p n rt = (case addr of
         None \<Rightarrow> Some (if ?same then rt1\<lparr>gc_shapes := gc_shapes rt1 @ [?a]\<rparr> else rt1, -1)
       | Some b \<Rightarrow>
           Some (put_object p (?ob\<lparr>ob_shape := b\<rparr>)
             (rt1\<lparr>shapes := (shapes rt1)(?a := None, b \<mapsto> sh'), gc_shapes := remove1 ?a (gc_shapes rt1) @ [b]\<rparr>), 0))"
    unfolding rs(1) by simp
  have tk: "take (length (sh_prop sh)) (ob_prop ?ob) = take (length (sh_prop sh)) (ob_prop ob)"
    using realloc_array_take [of "length (sh_prop sh)" ?n "ob_prop ob"] len sk(3) n by simp
  have lp: "sh_prop_size sh \<le> ?n" by simp
  show ?thesis
  proof (cases addr)
    case None
    let ?rt = "if ?same then rt1\<lparr>gc_shapes := gc_shapes rt1 @ [?a]\<rparr> else rt1"
    have r: "replaces rt p ob ?rt ?ob" using s1 by (auto simp: replaces_def)
    have "owns ?rt p ?ob sh"
      by (rule owns_replace [OF o r]) (use s1 a sk rc gc lp in \<open>auto simp: realloc_array_length\<close>)
    then show ?thesis using eq None r s1 a tk
      by (intro exI [of _ ?rt] exI [of _ "-1"] exI [of _ ?ob] exI [of _ sh]) auto
  next
    case (Some b)
    let ?rt = "put_object p (?ob\<lparr>ob_shape := b\<rparr>)
      (rt1\<lparr>shapes := (shapes rt1)(?a := None, b \<mapsto> sh'), gc_shapes := remove1 ?a (gc_shapes rt1) @ [b]\<rparr>)"
    have sh': "sh' = sh\<lparr>sh_prop := prs, sh_prop_hash := tab, sh_prop_hash_mask := hm, sh_prop_size := ?n\<rparr>"
      using rs(4) Some by simp
    have b: "b = ?a \<or> shapes rt b = None"
      using Some am unfolding s1(1) [symmetric] addr_def allocator_ok_def by (metis (full_types))
    have r: "replaces rt p ob ?rt (?ob\<lparr>ob_shape := b\<rparr>)" using s1 b by (auto simp: replaces_def)
    have bg: "b \<notin> set (remove1 ?a (gc_shapes rt))" using b gc by (auto simp: domIff)
    have "owns ?rt p (?ob\<lparr>ob_shape := b\<rparr>) sh'"
      by (rule owns_replace [OF o r])
        (use s1 rs(2) sk(2) rc gc bg in \<open>auto simp: sh' realloc_array_length remove1_idem split: if_splits\<close>)
    then show ?thesis using eq Some r tk rs(3)
      by (intro exI [of _ ?rt] exI [of _ 0] exI [of _ "?ob\<lparr>ob_shape := b\<rparr>"] exI [of _ sh']) (auto simp: sh')
  qed
qed

lemma owns_from_heap:
  assumes "heap_ok rt" and "objects rt p = Some ob" and "shapes rt (ob_shape ob) = Some sh" and "sh_ref_count sh = 1"
  shows "\<exists>rt'. (if sh_is_hashed sh then js_shape_hash_unlink (ob_shape ob) rt else Some rt) = Some rt' \<and> owns rt' p ob sh \<and>
    shapes rt' = shapes rt \<and> objects rt' = objects rt"
proof (cases "sh_is_hashed sh")
  case True
  from js_shape_hash_unlink_spec [of rt "{}" "ob_shape ob" sh] assms True obtain tab where
    "js_shape_hash_unlink (ob_shape ob) rt = Some (rt\<lparr>shape_hash_tab := tab, shape_hash_count := shape_hash_count rt - 1\<rparr>)"
    "table_ok (shape_hash_bits rt) tab (shapes rt) {ob_shape ob}" by (auto simp: heap_ok_def)
  then show ?thesis using assms True
    by (intro exI [of _ "rt\<lparr>shape_hash_tab := tab, shape_hash_count := shape_hash_count rt - 1\<rparr>"])
      (simp add: heap_ok_def owns_def)
next
  case False
  then show ?thesis using assms by (simp add: heap_ok_def owns_def)
qed

lemma heap_from_owns:
  assumes "owns rt p ob sh"
  shows "\<exists>rt'. (if sh_is_hashed sh then js_shape_hash_link (ob_shape ob) rt else Some rt) = Some rt' \<and> heap_ok rt' \<and>
    shapes rt' = shapes rt \<and> objects rt' = objects rt"
proof (cases "sh_is_hashed sh")
  case True
  from js_shape_hash_link_spec [of rt "ob_shape ob" "{}" sh] assms True obtain tab where
    "js_shape_hash_link (ob_shape ob) rt = Some (rt\<lparr>shape_hash_tab := tab, shape_hash_count := shape_hash_count rt + 1\<rparr>)"
    "table_ok (shape_hash_bits rt) tab (shapes rt) {}" by (auto simp: owns_def)
  then show ?thesis using assms True
    by (intro exI [of _ "rt\<lparr>shape_hash_tab := tab, shape_hash_count := shape_hash_count rt + 1\<rparr>"])
      (simp add: heap_ok_def owns_def)
next
  case False
  then show ?thesis using assms by (simp add: heap_ok_def owns_def)
qed

lemma props_of_cong: "shapes rt' = shapes rt \<Longrightarrow> objects rt' = objects rt \<Longrightarrow> props_of rt' = props_of rt"
  by (rule ext) (simp add: props_of_def split: option.split)

lemma props_of_obj: "objects rt p = Some ob \<Longrightarrow> shapes rt (ob_shape ob) = Some sh \<Longrightarrow> props_of rt p = own_props sh (ob_prop ob)"
  by (simp add: props_of_def)

lemma heap_put_shape:
  assumes hp: "heap_ok rt" and a: "shapes rt a = Some sh" and s: "shape_ok sh'" "sh_ref_count sh' = sh_ref_count sh"
    "sh_is_hashed sh' = sh_is_hashed sh" "sh_hash sh' = sh_hash sh" "sh_deleted_prop_count sh' = sh_deleted_prop_count sh"
    "sh_prop_size sh' = sh_prop_size sh"
  shows "heap_ok (put_shape a sh' rt)"
proof -
  have "table_ok (shape_hash_bits rt) (shape_hash_tab rt) ((shapes rt)(a \<mapsto> sh')) {}"
    by (rule table_ok_cong [of _ _ "shapes rt"]) (use hp a s in \<open>auto simp: heap_ok_def\<close>)
  moreover have "shapes_ok ((shapes rt)(a \<mapsto> sh')) (objects rt)"
    using hp a s unfolding heap_ok_def shapes_ok_def by simp (metis option.inject)
  ultimately show ?thesis using hp a by (auto simp: heap_ok_def)
qed

text \<open>Adding to a shape the object owns.\<close>

lemma add_shape_property_spec:
  assumes hp: "heap_ok rt" and am: "allocator_ok am" and ob: "objects rt p = Some ob" and sh: "shapes rt (ob_shape ob) = Some sh"
    and rc: "sh_ref_count sh = 1" and at: "at \<noteq> JS_ATOM_NULL" "find_in at (sh_prop sh) (length (sh_prop sh)) = None"
    and len: "length (sh_prop sh) + 1 < 2 ^ 26"
  shows "\<exists>rt' r. add_shape_property am p at fl rt = Some (rt', r) \<and> heap_ok rt' \<and>
    (\<forall>q. q \<noteq> p \<longrightarrow> props_of rt' q = props_of rt q) \<and>
    (if r = 0 then \<exists>ob' sh' v. objects rt' p = Some ob' \<and> shapes rt' (ob_shape ob') = Some sh' \<and>
         props_of rt' p = props_of rt p @ [((at, fl), v)] \<and> length (sh_prop sh') = length (sh_prop sh) + 1 \<and>
         v = ob_prop ob' ! length (sh_prop sh)
     else r = -1 \<and> props_of rt' p = props_of rt p)"
proof -
  let ?n = "length (sh_prop sh)"
  let ?h = "shape_hash (shape_hash (sh_hash sh) at) (ucast fl)"
  from owns_from_heap [OF hp ob sh rc] obtain rt1 where
    r1: "(if sh_is_hashed sh then js_shape_hash_unlink (ob_shape ob) rt else Some rt) = Some rt1" "owns rt1 p ob sh"
      "shapes rt1 = shapes rt" "objects rt1 = objects rt" by blast
  have sk: "shape_ok sh" using hp sh unfolding heap_ok_def shapes_ok_def by blast
  obtain rt2 r ob2 sh2 where
    r2: "(if ?n \<ge> sh_prop_size sh then resize_properties am p (?n + 1) rt1 else Some (rt1, 0)) = Some (rt2, r)"
      "owns rt2 p ob2 sh2" "replaces rt1 p ob rt2 ob2" "shapes rt2 (ob_shape ob2) = Some sh2"
      "map entry (sh_prop sh2) = map entry (sh_prop sh)" "take ?n (ob_prop ob2) = take ?n (ob_prop ob)"
      "sh_is_hashed sh2 = sh_is_hashed sh" "sh_hash sh2 = sh_hash sh"
      "if r = 0 then ?n + 1 \<le> sh_prop_size sh2 else r = -1 \<and> ob_shape ob2 = ob_shape ob \<and> sh2 = sh"
  proof (cases "?n \<ge> sh_prop_size sh")
    case True
    then have "max (?n + 1) (sh_prop_size sh * 3 div 2) \<le> 2 ^ 27" using sk len by (auto simp: shape_ok_def)
    from resize_properties_spec [OF r1(2) am _ this] show ?thesis using that True by auto
  next
    case False
    have "replaces rt1 p ob rt1 ob" using r1 ob by (auto simp: replaces_def)
    then show ?thesis using that [of rt1 0 ob sh] False r1 sh by (auto simp: owns_def)
  qed
  have others: "props_of rt2 q = props_of rt q" if "q \<noteq> p" for q
    using replaces_others [OF r1(2) r2(3) that] props_of_cong [OF r1(3,4)] by simp
  have ob2: "objects rt2 p = Some ob2" using r2(2) by (simp add: owns_def)
  have p2: "props_of rt2 p = props_of rt p"
    unfolding props_of_obj [OF ob2 r2(4)] props_of_obj [OF ob sh]
    using own_props_cong [OF r2(5), of "ob_prop ob2"] own_props_take [of sh "ob_prop ob2" "ob_prop ob"] r2(6) by simp
  show ?thesis
  proof (cases "r = 0")
    case False
    then have e: "ob_shape ob2 = ob_shape ob" "sh2 = sh" "r = -1" using r2(9) by auto
    from heap_from_owns [OF r2(2), unfolded e(1,2)] obtain rt3 where
      r3: "(if sh_is_hashed sh then js_shape_hash_link (ob_shape ob) rt2 else Some rt2) = Some rt3" "heap_ok rt3"
        "shapes rt3 = shapes rt2" "objects rt3 = objects rt2" by blast
    have "add_shape_property am p at fl rt = Some (rt3, -1)"
      using ob sh r1(1) r2(1) False r3(1) by (simp add: add_shape_property_def Let_def)
    then show ?thesis using r3 others p2 props_of_cong [OF r3(3,4)] by auto
  next
    case True
    let ?sh3 = "if sh_is_hashed sh then sh2\<lparr>sh_hash := ?h\<rparr> else sh2"
    let ?rt2 = "if sh_is_hashed sh then put_shape (ob_shape ob2) ?sh3 rt2 else rt2"
    have ok2: "shapes_ok (shapes rt2) (objects rt2)" and rc2: "sh_ref_count sh2 = 1" using r2(2) by (auto simp: owns_def)
    have sk2: "shape_ok sh2" "sh_is_hashed sh2 \<longrightarrow> sh_deleted_prop_count sh2 = 0" "sh_prop_size sh2 \<le> length (ob_prop ob2)"
      using ok2 r2(4) ob2 unfolding shapes_ok_def by (auto split: if_splits) fastforce
    have rep: "replaces rt2 p ob2 ?rt2 ob2" using ob2 by (auto simp: replaces_def)
    have sk3: "shape_ok ?sh3" using sk2(1) by (simp add: shape_ok_def)
    have dom2: "ob_shape ob2 \<in> set (gc_shapes rt2)" "distinct (gc_shapes rt2)" using r2(2,4) by (auto simp: owns_def)
    have o3: "owns ?rt2 p ob2 ?sh3"
      by (rule owns_replace [OF r2(2) rep]) (use r2(4) sk2 sk3 rc2 dom2 in \<open>auto\<close>)
    from heap_from_owns [OF o3] obtain rt3 where
      r3: "(if sh_is_hashed ?sh3 then js_shape_hash_link (ob_shape ob2) ?rt2 else Some ?rt2) = Some rt3" "heap_ok rt3"
        "shapes rt3 = shapes ?rt2" "objects rt3 = objects ?rt2" by blast
    have s3: "shapes rt3 (ob_shape ob2) = Some ?sh3" using r3(3) r2(4) by simp
    have n2: "length (sh_prop sh2) = ?n" using r2(5) by (rule map_eq_imp_length_eq)
    have "find_in at (sh_prop ?sh3) (length (sh_prop ?sh3)) = None"
    proof -
      have "find_in at xs n = find_in at ys n" if "map entry xs = map entry ys" "n \<le> length xs" for xs ys n
        using that(2)
      proof (induction n)
        case (Suc n)
        have "entry (xs ! n) = entry (ys ! n)" using that(1) Suc.prems
          by (metis Suc_le_lessD map_eq_imp_length_eq nth_map)
        then show ?case using Suc by (auto simp: entry_def live_def)
      qed simp
      from this [OF r2(5)] show ?thesis using at(2) n2 by simp
    qed
    moreover have "length (sh_prop ?sh3) < sh_prop_size ?sh3" "length (sh_prop ?sh3) + 1 < 2 ^ 26"
      using r2(9) True n2 len by auto
    ultimately obtain sh4 tab prs b where
      a4: "append_property at fl ?sh3 = Some sh4" "shape_ok sh4" "map entry prs = map entry (sh_prop ?sh3) @ [(at, fl)]"
        "sh4 = ?sh3\<lparr>sh_prop := prs, sh_prop_hash := tab, sh_has_small_array_index := b\<rparr>"
      using append_property_spec [OF sk3 _ _ at(1)] by blast
    let ?rt4 = "put_shape (ob_shape ob2) sh4 (JS_DupAtom at rt3)"
    have eq: "add_shape_property am p at fl rt = Some (?rt4, 0)"
    proof (cases "sh_is_hashed sh")
      case hs: True
      then show ?thesis using ob sh r1(1) r2(1,4,7) True ob2 r3(1) s3 a4(1)
        by (simp add: add_shape_property_def Let_def)
    next
      case False
      then show ?thesis using ob sh r1(1) r2(1,4,7) True ob2 r3(1) s3 a4(1)
        by (simp add: add_shape_property_def Let_def)
    qed
    have "heap_ok (JS_DupAtom at rt3)" using r3(2) by (simp add: heap_ok_def)
    then have hk: "heap_ok ?rt4" by (rule heap_put_shape) (use s3 a4 in simp_all)
    have rep4: "replaces ?rt2 p ob2 ?rt4 ob2" using r3(3,4) ob2 by (auto simp: replaces_def)
    have "props_of ?rt4 q = props_of rt q" if "q \<noteq> p" for q
      using replaces_others [OF o3 rep4 that] replaces_others [OF r2(2) rep that] others [OF that] by simp
    moreover have ob4: "objects ?rt4 p = Some ob2" using r3(4) ob2 by simp
    moreover have sh4: "shapes ?rt4 (ob_shape ob2) = Some sh4" by simp
    moreover have "length (sh_prop sh4) = ?n + 1"
      using a4(3,4) n2 map_eq_imp_length_eq [of entry prs entry "sh_prop ?sh3 @ [\<lparr>pr_hash_next = 0, pr_flags = fl, pr_atom = at\<rparr>]"]
      by (simp add: entry_def)
    moreover have "props_of ?rt4 p = props_of rt p @ [((at, fl), ob_prop ob2 ! ?n)]"
    proof -
      have "length (sh_prop sh2) < length (ob_prop ob2)" using r2(9) True n2 sk2(3) by simp
      then have "own_props sh4 (ob_prop ob2) = own_props sh2 (ob_prop ob2) @ [((at, fl), ob_prop ob2 ! ?n)]"
        using own_props_append [of sh4 sh2 at fl "ob_prop ob2"] a4(3,4) at(1) n2 by (auto split: if_splits)
      then show ?thesis unfolding p2 [symmetric] props_of_obj [OF ob4 sh4] props_of_obj [OF ob2 r2(4)] .
    qed
    ultimately show ?thesis using eq hk by (intro exI [of _ ?rt4] exI [of _ 0]) auto
  qed
qed

section \<open>Switching shapes\<close>

lemma props_frame:
  assumes "objects rt' q = objects rt q"
    and "\<And>ob. objects rt q = Some ob \<Longrightarrow> \<exists>sh sh'. shapes rt (ob_shape ob) = Some sh \<and> shapes rt' (ob_shape ob) = Some sh' \<and>
      sh_prop sh' = sh_prop sh"
  shows "props_of rt' q = props_of rt q"
proof (cases "objects rt q")
  case (Some ob)
  from assms(2) [OF Some] obtain sh sh' where "shapes rt (ob_shape ob) = Some sh" "shapes rt' (ob_shape ob) = Some sh'"
    "sh_prop sh' = sh_prop sh" by blast
  then show ?thesis using Some assms(1) own_props_cong [of sh' sh] by (simp add: props_of_def)
qed (use assms(1) in \<open>simp add: props_of_def\<close>)

text \<open>Releasing the old shape and pointing the object to another one, in either order.\<close>

lemma switch_heap:
  assumes hp: "heap_ok rt" and ob: "objects rt p = Some ob" and a: "shapes rt (ob_shape ob) = Some sh"
    and b: "b \<noteq> ob_shape ob" "shapes rt b = Some shb" "int (card (users (objects rt) b)) + 1 \<le> sh_ref_count shb"
    "sh_prop_size shb \<le> length vs"
    and r0: "rt0 = rt \<or> rt0 = put_object p (ob\<lparr>ob_shape := b, ob_prop := vs\<rparr>) rt"
  shows "\<exists>rt1. js_free_shape (ob_shape ob) rt0 = Some rt1 \<and> objects rt1 = objects rt0 \<and> shapes rt1 b = Some shb \<and>
    heap_ok (put_object p (ob\<lparr>ob_shape := b, ob_prop := vs\<rparr>) rt1) \<and>
    (\<forall>q. q \<noteq> p \<longrightarrow> props_of (put_object p (ob\<lparr>ob_shape := b, ob_prop := vs\<rparr>) rt1) q = props_of rt q)"
proof -
  let ?a = "ob_shape ob" and ?ob = "ob\<lparr>ob_shape := b, ob_prop := vs\<rparr>"
  have ok: "shapes_ok (shapes rt) (objects rt)" using hp by (simp add: heap_ok_def)
  then have rc: "1 \<le> sh_ref_count sh" using a unfolding shapes_ok_def by blast
  have f0: "shapes rt0 = shapes rt" "shape_hash_bits rt0 = shape_hash_bits rt" "shape_hash_tab rt0 = shape_hash_tab rt"
    "gc_shapes rt0 = gc_shapes rt" using r0 by auto
  have "table_ok (shape_hash_bits rt0) (shape_hash_tab rt0) (shapes rt0) {}" "shapes rt0 ?a = Some sh"
    using hp a by (simp_all add: f0 heap_ok_def)
  from js_free_shape_spec [OF this rc] obtain rt1 where
    r1: "js_free_shape ?a rt0 = Some rt1" "objects rt1 = objects rt0"
      "table_ok (shape_hash_bits rt1) (shape_hash_tab rt1) (shapes rt1) {}"
      "shapes rt1 = (if sh_ref_count sh = 1 then (shapes rt)(?a := None)
        else (shapes rt)(?a \<mapsto> sh\<lparr>sh_ref_count := sh_ref_count sh - 1\<rparr>))"
      "gc_shapes rt1 = (if sh_ref_count sh = 1 then remove1 ?a (gc_shapes rt) else gc_shapes rt)"
    unfolding f0 by blast
  let ?rt = "put_object p ?ob rt1"
  have obs: "objects ?rt = (objects rt)(p \<mapsto> ?ob)" using r1(2) r0 by auto
  have "shapes_ok (shapes rt1) ((objects rt)(p \<mapsto> ?ob))"
    unfolding r1(4) using b by (intro switch_shapes_ok [OF ok ob refl a]) auto
  then have "heap_ok ?rt" using r1(3,4,5) hp obs a unfolding heap_ok_def by auto
  moreover have "props_of ?rt q = props_of rt q" if q: "q \<noteq> p" for q
  proof (rule props_frame)
    show "objects ?rt q = objects rt q" using q obs by simp
    fix oq assume oq: "objects rt q = Some oq"
    then obtain shq where shq: "shapes rt (ob_shape oq) = Some shq" using ok unfolding shapes_ok_def by blast
    have "ob_shape oq = ?a \<Longrightarrow> sh_ref_count sh \<noteq> 1" using sole_user [OF ok ob a _ oq q] by blast
    then show "\<exists>sh sh'. shapes rt (ob_shape oq) = Some sh \<and> shapes ?rt (ob_shape oq) = Some sh' \<and> sh_prop sh' = sh_prop sh"
      using shq a r1(4) by auto
  qed
  moreover have "shapes rt1 b = Some shb" using r1(4) b(1,2) by auto
  ultimately show ?thesis using r1(1,2) by blast
qed

text \<open>A new shape that no object uses yet.\<close>

lemma users_unallocated: "shapes_ok sps obs \<Longrightarrow> sps c = None \<Longrightarrow> users obs c = {}"
  unfolding shapes_ok_def users_def by fastforce

lemma new_shape_heap:
  assumes hp: "heap_ok rt" and c: "shapes rt c = None" and s: "shape_ok sh" "sh_ref_count sh = 1"
    "sh_is_hashed sh \<longrightarrow> sh_deleted_prop_count sh = 0"
    and t: "table_ok (shape_hash_bits rt1) (shape_hash_tab rt1) (shapes rt1) {}"
    and f: "shapes rt1 = (shapes rt)(c \<mapsto> sh)" "objects rt1 = objects rt" "gc_shapes rt1 = gc_shapes rt @ [c]"
  shows "heap_ok rt1" and "props_of rt1 q = props_of rt q"
proof -
  have ok: "shapes_ok (shapes rt) (objects rt)" using hp by (simp add: heap_ok_def)
  have "users (objects rt) c = {}" using users_unallocated [OF ok c] .
  then have "shapes_ok ((shapes rt)(c \<mapsto> sh)) (objects rt)"
    using ok s c unfolding shapes_ok_def by (auto split: if_splits) fastforce+
  then show "heap_ok rt1" using hp t f c unfolding heap_ok_def by (auto simp: domIff)
  show "props_of rt1 q = props_of rt q"
  proof (rule props_frame)
    fix oq assume "objects rt q = Some oq"
    then obtain shq where "shapes rt (ob_shape oq) = Some shq" using ok unfolding shapes_ok_def by blast
    then show "\<exists>sh sh'. shapes rt (ob_shape oq) = Some sh \<and> shapes rt1 (ob_shape oq) = Some sh' \<and> sh_prop sh' = sh_prop sh"
      using f(1) c by (intro exI [of _ shq]) auto
  qed (simp add: f(2))
qed

end
