(* ===== verification/ShapeTable.thy ===== *)
theory ShapeTable
  imports ShapeProps
begin

text \<open>
  The hash table of the runtime: setting it up, growing it, and new shapes.  Growing moves every shape into
  the chain of its longer hash.
\<close>

section \<open>Growing\<close>

text \<open>A table over the shapes \<open>S\<close>.\<close>

definition holds :: "nat \<Rightarrow> (addr \<Rightarrow> shape option) \<Rightarrow> addr set \<Rightarrow> addr list list \<Rightarrow> bool" where
  "holds bits sps S tab \<longleftrightarrow> length tab = 2 ^ bits \<and> (\<forall>h < 2 ^ bits. distinct (tab ! h) \<and> set (tab ! h) =
     {a \<in> S. \<exists>sh. sps a = Some sh \<and> get_shape_hash (sh_hash sh) bits = h})"

lemma rehash_shape_spec:
  assumes h: "holds bits (shapes rt) S tab" and a: "shapes rt a = Some sh" "a \<notin> S" and b: "bits \<le> 32"
  shows "\<exists>tab'. rehash_shape bits rt a (Some tab) = Some tab' \<and> holds bits (shapes rt) (insert a S) tab'"
proof -
  let ?h = "get_shape_hash (sh_hash sh) bits"
  let ?tab = "tab[?h := a # tab ! ?h]"
  have lt: "?h < length tab" using h get_shape_hash_less [OF b] by (simp add: holds_def)
  have "holds bits (shapes rt) (insert a S) ?tab"
    unfolding holds_def
  proof (intro conjI allI impI)
    show "length ?tab = 2 ^ bits" using h by (simp add: holds_def)
    fix g :: nat assume g: "g < 2 ^ bits"
    then have t: "distinct (tab ! g)" "set (tab ! g) = {a \<in> S. \<exists>sh. shapes rt a = Some sh \<and> get_shape_hash (sh_hash sh) bits = g}"
      using h by (simp_all add: holds_def)
    show "distinct (?tab ! g)" using t a(2) lt by (cases "g = ?h") auto
    have "set (?tab ! g) = (if g = ?h then {a} else {}) \<union> set (tab ! g)" using lt by simp
    then show "set (?tab ! g) = {b \<in> insert a S. \<exists>sh. shapes rt b = Some sh \<and> get_shape_hash (sh_hash sh) bits = g}"
      unfolding t(2) using a(1) by auto
  qed
  then show ?thesis using a(1) lt by (simp add: rehash_shape_def rd_def wr_def Let_def)
qed

lemma rehash_all:
  assumes "distinct as" and "set as \<inter> S = {}" and "\<forall>a \<in> set as. shapes rt a \<noteq> None" and "holds bits (shapes rt) S tab"
    and "bits \<le> 32"
  shows "\<exists>tab'. fold (rehash_shape bits rt) as (Some tab) = Some tab' \<and> holds bits (shapes rt) (S \<union> set as) tab'"
  using assms
proof (induction as arbitrary: S tab)
  case (Cons a as)
  then obtain sh where "shapes rt a = Some sh" by auto
  from rehash_shape_spec [OF Cons.prems(4) this _ Cons.prems(5)] Cons.prems(2) obtain tab1 where
    t: "rehash_shape bits rt a (Some tab) = Some tab1" "holds bits (shapes rt) (insert a S) tab1" by auto
  from Cons.IH [OF _ _ _ t(2) Cons.prems(5)] Cons.prems(1,2,3) obtain tab2 where
    "fold (rehash_shape bits rt) as (Some tab1) = Some tab2" "holds bits (shapes rt) (insert a S \<union> set as) tab2" by auto
  then show ?case using t(1) by auto
qed simp

lemma distinct_concat_table:
  assumes "table_ok bits tab sps {}"
  shows "distinct (concat tab)" and "set (concat tab) = {a. \<exists>sh. sps a = Some sh \<and> sh_is_hashed sh}"
proof -
  have len: "length tab = 2 ^ bits" and b: "bits \<le> 32" using assms by (simp_all add: table_ok_def)
  have c: "distinct (tab ! h)" "set (tab ! h) = {a. \<exists>sh. sps a = Some sh \<and> sh_is_hashed sh \<and> get_shape_hash (sh_hash sh) bits = h}"
    if "h < 2 ^ bits" for h using assms that by (simp_all add: table_ok_def)
  have "distinct (concat (take n tab)) \<and> (\<forall>a \<in> set (concat (take n tab)). \<exists>h < n. h < 2 ^ bits \<and> a \<in> set (tab ! h))" for n
  proof (induction n)
    case (Suc n)
    show ?case
    proof (cases "n < 2 ^ bits")
      case True
      then have e: "take (Suc n) tab = take n tab @ [tab ! n]" using len by (simp add: take_Suc_conv_app_nth)
      have "a \<notin> set (tab ! n)" if "a \<in> set (concat (take n tab))" for a
        using Suc that c(2) True by fastforce
      then have "distinct (concat (take (Suc n) tab))" using Suc c(1) [OF True] unfolding e by auto
      moreover have "\<exists>h < Suc n. h < 2 ^ bits \<and> a \<in> set (tab ! h)" if "a \<in> set (concat (take (Suc n) tab))" for a
        using that Suc True unfolding e
        by (cases "a \<in> set (tab ! n)") (auto simp: less_Suc_eq)
      ultimately show ?thesis by blast
    next
      case False
      then have "take (Suc n) tab = take n tab" using len by simp
      then show ?thesis using Suc by (metis less_SucI)
    qed
  qed simp
  from this [of "length tab"] show "distinct (concat tab)" by simp
  show "set (concat tab) = {a. \<exists>sh. sps a = Some sh \<and> sh_is_hashed sh}"
  proof (intro set_eqI iffI)
    fix a assume "a \<in> set (concat tab)"
    then obtain h where "h < 2 ^ bits" "a \<in> set (tab ! h)" using len by (metis UN_E in_set_conv_nth set_concat)
    then show "a \<in> {a. \<exists>sh. sps a = Some sh \<and> sh_is_hashed sh}" using c(2) by auto
  next
    fix a assume "a \<in> {a. \<exists>sh. sps a = Some sh \<and> sh_is_hashed sh}"
    then obtain sh where sh: "sps a = Some sh" "sh_is_hashed sh" by blast
    let ?h = "get_shape_hash (sh_hash sh) bits"
    have h: "?h < 2 ^ bits" using get_shape_hash_less [OF b] .
    then have "a \<in> set (tab ! ?h)" using c(2) sh by auto
    moreover have "tab ! ?h \<in> set tab" using h len by simp
    ultimately show "a \<in> set (concat tab)" by auto
  qed
qed

lemma resize_shape_hash_spec:
  assumes t: "table_ok (shape_hash_bits rt) (shape_hash_tab rt) (shapes rt) {}" and n: "n \<le> 32"
  shows "\<exists>rt' r. resize_shape_hash am n rt = Some (rt', r) \<and>
    table_ok (shape_hash_bits rt') (shape_hash_tab rt') (shapes rt') {} \<and>
    (if am_array am rt then r = 0 \<and> (\<exists>tab. rt' = rt\<lparr>shape_hash_bits := n, shape_hash_tab := tab\<rparr>) else r = -1 \<and> rt' = rt)"
proof (cases "am_array am rt")
  case False
  then show ?thesis using t by (simp add: resize_shape_hash_def)
next
  case True
  let ?as = "concat (shape_hash_tab rt)"
  note d = distinct_concat_table [OF t]
  have "holds n (shapes rt) {} (replicate (2 ^ n) [])" by (simp add: holds_def)
  from rehash_all [OF d(1) _ _ this n] obtain tab where
    r: "fold (rehash_shape n rt) ?as (Some (replicate (2 ^ n) [])) = Some tab" "holds n (shapes rt) (set ?as) tab"
    unfolding d(2) by auto
  have "table_ok n tab (shapes rt) {}"
    using r(2) n unfolding holds_def table_ok_def d(2) by (auto simp: set_eq_iff)
  then show ?thesis using r(1) True
    by (intro exI [of _ "rt\<lparr>shape_hash_bits := n, shape_hash_tab := tab\<rparr>"] exI [of _ 0])
      (auto simp: resize_shape_hash_def)
qed

section \<open>New shapes\<close>

lemma js_new_shape_spec:
  assumes hp: "heap_ok rt" and am: "allocator_ok am" and bits: "shape_hash_bits rt < 32"
  shows "\<exists>rt' r. js_new_shape am proto rt = Some (rt', r) \<and> heap_ok rt' \<and> objects rt' = objects rt \<and>
    (\<forall>q. props_of rt' q = props_of rt q) \<and>
    (\<forall>a. r = Some a \<longrightarrow> shapes rt a = None \<and> (\<exists>sh. shapes rt' a = Some sh \<and> sh_prop sh = [] \<and> sh_proto sh = proto \<and>
      sh_ref_count sh = 1 \<and> sh_is_hashed sh \<and> sh_hash sh = shape_initial_hash proto))"
proof -
  have t: "table_ok (shape_hash_bits rt) (shape_hash_tab rt) (shapes rt) {}" using hp by (simp add: heap_ok_def)
  obtain rt1 where r1: "(if 2 * (shape_hash_count rt + 1) > 2 ^ shape_hash_bits rt
      then map_option fst (resize_shape_hash am (shape_hash_bits rt + 1) rt) else Some rt) = Some rt1"
    "table_ok (shape_hash_bits rt1) (shape_hash_tab rt1) (shapes rt1) {}" "shapes rt1 = shapes rt" "objects rt1 = objects rt"
    "gc_shapes rt1 = gc_shapes rt"
  proof (cases "2 * (shape_hash_count rt + 1) > 2 ^ shape_hash_bits rt")
    case True
    from resize_shape_hash_spec [OF t, of "shape_hash_bits rt + 1" am] bits obtain rt' r where
      "resize_shape_hash am (shape_hash_bits rt + 1) rt = Some (rt', r)"
      "table_ok (shape_hash_bits rt') (shape_hash_tab rt') (shapes rt') {}"
      "if am_array am rt then r = 0 \<and> (\<exists>tab. rt' = rt\<lparr>shape_hash_bits := shape_hash_bits rt + 1, shape_hash_tab := tab\<rparr>)
        else r = -1 \<and> rt' = rt" by auto
    then show ?thesis using that [of rt'] True by (auto split: if_splits)
  next
    case False
    then show ?thesis using that [of rt] t by simp
  qed
  have hp1: "heap_ok rt1" using hp r1 by (simp add: heap_ok_def)
  have p1: "props_of rt1 q = props_of rt q" for q using props_of_cong [OF r1(3,4)] by simp
  show ?thesis
  proof (cases "am_malloc am rt1")
    case None
    then have "js_new_shape am proto rt = Some (rt1, None)"
      using r1(1) by (simp add: js_new_shape_def js_new_shape2_def)
    then show ?thesis using hp1 p1 r1(4) by simp
  next
    case (Some a)
    then have an: "shapes rt1 a = None" using am by (simp add: allocator_ok_def)
    let ?sh = "\<lparr>sh_ref_count = 1, sh_is_hashed = True, sh_has_small_array_index = False,
           sh_hash = shape_initial_hash proto, sh_proto = proto, sh_prop_hash = replicate JS_PROP_INITIAL_HASH_SIZE 0,
           sh_prop_hash_mask = of_nat (JS_PROP_INITIAL_HASH_SIZE - 1), sh_prop_size = JS_PROP_INITIAL_SIZE,
           sh_deleted_prop_count = 0, sh_prop = []\<rparr>"
    let ?r = "put_shape a ?sh (dup_proto proto (rt1\<lparr>gc_shapes := gc_shapes rt1 @ [a]\<rparr>))"
    have "table_size (of_nat (JS_PROP_INITIAL_HASH_SIZE - 1)) JS_PROP_INITIAL_HASH_SIZE"
      by (auto simp: table_size_def JS_PROP_INITIAL_HASH_SIZE_def intro!: exI [of _ 2])
    then have so: "shape_ok ?sh" by (simp add: shape_ok_def chains_ok_def JS_PROP_INITIAL_SIZE_def)
    have "table_ok (shape_hash_bits rt1) (shape_hash_tab rt1) (shapes rt1) {a}"
      using r1(2) an by (auto simp: table_ok_def)
    then have "table_ok (shape_hash_bits rt1) (shape_hash_tab rt1) ((shapes rt1)(a \<mapsto> ?sh)) {a}"
      by (rule table_ok_cong) simp
    then have "table_ok (shape_hash_bits ?r) (shape_hash_tab ?r) (shapes ?r) (insert a {})" by simp
    from js_shape_hash_link_spec [OF this, of ?sh] obtain tab where
      l: "js_shape_hash_link a ?r = Some (?r\<lparr>shape_hash_tab := tab, shape_hash_count := shape_hash_count ?r + 1\<rparr>)"
        "table_ok (shape_hash_bits ?r) tab (shapes ?r) {}" by auto
    let ?r2 = "?r\<lparr>shape_hash_tab := tab, shape_hash_count := shape_hash_count ?r + 1\<rparr>"
    have f: "shapes ?r2 = (shapes rt1)(a \<mapsto> ?sh)" "objects ?r2 = objects rt1" "gc_shapes ?r2 = gc_shapes rt1 @ [a]" by simp_all
    have t2: "table_ok (shape_hash_bits ?r2) (shape_hash_tab ?r2) (shapes ?r2) {}" using l(2) by simp
    have h2: "heap_ok ?r2" "props_of ?r2 q = props_of rt1 q" for q
      using new_shape_heap [OF hp1 an so _ _ t2 f] by simp_all
    have "js_new_shape am proto rt = Some (?r2, Some a)"
      using r1(1) Some l(1) by (simp add: js_new_shape_def js_new_shape2_def Let_def)
    then show ?thesis using h2 p1 f r1(3,4) an by (intro exI [of _ ?r2] exI [of _ "Some a"]) simp
  qed
qed

text \<open>The empty table of a new runtime.\<close>

lemma init_shape_hash_ok:
  assumes "shapes rt = Map.empty" "objects rt = Map.empty" "gc_shapes rt = []" and "init_shape_hash am rt = (rt', 0)"
  shows "heap_ok rt'"
  using assms by (auto simp: init_shape_hash_def heap_ok_def table_ok_def shapes_ok_def Let_def split: if_splits)

end
