(* ===== verification/PropertyOps.thy ===== *)
theory PropertyOps
  imports ShapeTable
begin

text \<open>
  The property operations of objects on shared shapes: lookup, addition and removal act on the list of
  properties of one object, keep the invariant of the heap, and leave every other object alone.
\<close>

section \<open>Lookup\<close>

lemma keys_own_props: "length (sh_prop sh) \<le> length vs \<Longrightarrow> map fst (own_props sh vs) = entries sh"
  using length_live_values [of "sh_prop sh" vs] by (simp add: own_props_def entries_def)

lemma find_in_atoms: "find_in a ps (length ps) = None \<longleftrightarrow> a \<notin> pr_atom ` set (filter live ps)"
  by (auto simp: find_in_None in_set_conv_nth)

lemma live_value_mem:
  "length prs \<le> length vs \<Longrightarrow> i < length prs \<Longrightarrow> live (prs ! i) \<Longrightarrow>
    (entry (prs ! i), vs ! i) \<in> set (zip (map entry (filter live prs)) (live_values prs vs))"
  by (induction prs vs arbitrary: i rule: live_values.induct) (auto simp: nth_Cons split: nat.splits)

lemma atoms_own_props: "length (sh_prop sh) \<le> length vs \<Longrightarrow>
    map (fst \<circ> fst) (own_props sh vs) = map pr_atom (filter live (sh_prop sh))"
proof -
  assume "length (sh_prop sh) \<le> length vs"
  then have "map fst (map fst (own_props sh vs)) = map fst (entries sh)" by (simp only: keys_own_props)
  then show ?thesis by (simp add: entries_def entry_def comp_def)
qed

lemma object_ok:
  assumes "heap_ok rt" and "objects rt p = Some ob"
  shows "\<exists>sh. shapes rt (ob_shape ob) = Some sh \<and> shape_ok sh \<and> sh_prop_size sh \<le> length (ob_prop ob) \<and>
    length (sh_prop sh) \<le> length (ob_prop ob) \<and> 1 \<le> sh_ref_count sh \<and>
    int (card (users (objects rt) (ob_shape ob))) \<le> sh_ref_count sh \<and>
    (if sh_is_hashed sh then sh_deleted_prop_count sh = 0 else sh_ref_count sh = 1)"
proof -
  have ok: "shapes_ok (shapes rt) (objects rt)" using assms(1) by (simp add: heap_ok_def)
  then obtain sh where sh: "shapes rt (ob_shape ob) = Some sh" "sh_prop_size sh \<le> length (ob_prop ob)"
    using assms(2) unfolding shapes_ok_def by blast
  with ok have f: "shape_ok sh \<and> 1 \<le> sh_ref_count sh \<and> int (card (users (objects rt) (ob_shape ob))) \<le> sh_ref_count sh \<and>
      (if sh_is_hashed sh then sh_deleted_prop_count sh = 0 else sh_ref_count sh = 1)"
    unfolding shapes_ok_def by blast
  then show ?thesis using sh by (intro exI [of _ sh]) (auto simp: shape_ok_def)
qed

text \<open>The properties of an object as a finite map.\<close>

definition prop_map :: "((atom \<times> 6 word) \<times> 'v) list \<Rightarrow> atom \<Rightarrow> (6 word \<times> 'v) option" where
  "prop_map ps = map_of (map (\<lambda>((a, fl), v). (a, (fl, v))) ps)"

lemma fst_prop_map: "map fst (map (\<lambda>((a, fl), v). (a, (fl, v))) ps) = map (fst \<circ> fst) ps"
  by (simp add: split_beta comp_def)

lemma dom_prop_map: "dom (prop_map ps) = (fst \<circ> fst) ` set ps"
  by (simp add: prop_map_def dom_map_of_conv_image_fst image_image split_beta)

text \<open>The search of the table finds what the map holds.\<close>

lemma prop_map_find:
  assumes "shape_ok sh" and "length (sh_prop sh) \<le> length vs"
  shows "prop_map (own_props sh vs) a =
    map_option (\<lambda>i. (pr_flags (sh_prop sh ! i), vs ! i)) (find_in a (sh_prop sh) (length (sh_prop sh)))"
proof (cases "find_in a (sh_prop sh) (length (sh_prop sh))")
  case None
  then have "a \<notin> set (map (fst \<circ> fst) (own_props sh vs))"
    unfolding find_in_atoms atoms_own_props [OF assms(2)] by simp
  then have "prop_map (own_props sh vs) a = None"
    unfolding prop_map_def map_of_eq_None_iff by (simp add: split_beta image_image comp_def)
  then show ?thesis using None by simp
next
  case (Some i)
  then have i: "i < length (sh_prop sh)" "live (sh_prop sh ! i)" "pr_atom (sh_prop sh ! i) = a" using find_in_Some by blast+
  have "(entry (sh_prop sh ! i), vs ! i) \<in> set (own_props sh vs)"
    using live_value_mem [OF assms(2) i(1,2)] by (simp add: own_props_def entries_def)
  then have "(a, (pr_flags (sh_prop sh ! i), vs ! i)) \<in> set (map (\<lambda>((a, fl), v). (a, (fl, v))) (own_props sh vs))"
    using i(3) by (force simp: entry_def)
  moreover have "distinct (map fst (map (\<lambda>((a, fl), v). (a, (fl, v))) (own_props sh vs)))"
    unfolding fst_prop_map atoms_own_props [OF assms(2)] using assms(1) by (simp add: shape_ok_def)
  ultimately show ?thesis unfolding prop_map_def using Some by (simp add: map_of_is_SomeI)
qed

lemma find_own_property_lookup:
  assumes hp: "heap_ok rt" and ob: "objects rt p = Some ob"
  shows "find_own_property p a rt = Some (prop_map (props_of rt p) a)"
proof -
  from object_ok [OF hp ob] obtain sh where sh: "shapes rt (ob_shape ob) = Some sh" "shape_ok sh"
    "length (sh_prop sh) \<le> length (ob_prop ob)" by blast
  have fo: "find_own_property1 sh a = Some (find_in a (sh_prop sh) (length (sh_prop sh)))"
    using sh(2) by (rule find_own_property1_spec)
  show ?thesis
  proof (cases "find_in a (sh_prop sh) (length (sh_prop sh))")
    case None
    then show ?thesis using ob sh(1) fo prop_map_find [OF sh(2,3), of a] props_of_obj [OF ob sh(1)]
      by (simp add: find_own_property_def)
  next
    case (Some i)
    then have "i < length (sh_prop sh)" using find_in_Some by blast
    then show ?thesis using ob sh(1,3) fo Some prop_map_find [OF sh(2,3), of a] props_of_obj [OF ob sh(1)]
      by (simp add: find_own_property_def rd_def)
  qed
qed

section \<open>Addition\<close>

lemma find_in_chain_spec:
  "\<forall>b \<in> set bs. sps b \<noteq> None \<Longrightarrow> \<exists>r. find_in_chain P sps bs = Some r \<and>
    (\<forall>b. r = Some b \<longrightarrow> b \<in> set bs \<and> (\<exists>sh. sps b = Some sh \<and> P sh)) \<and>
    (r = None \<longrightarrow> (\<forall>b \<in> set bs. \<forall>sh. sps b = Some sh \<longrightarrow> \<not> P sh))"
  by (induction bs) auto

lemma find_hashed_shape_prop_spec:
  assumes hp: "heap_ok rt" and sh: "shapes rt a = Some sh"
  shows "\<exists>r. find_hashed_shape_prop a at fl rt = Some r \<and>
    (\<forall>b. r = Some b \<longrightarrow> (\<exists>shb h. shapes rt b = Some shb \<and> sh_is_hashed shb \<and> extends_shape sh at fl h shb))"
proof -
  let ?h = "shape_hash (shape_hash (sh_hash sh) at) (ucast fl)"
  let ?g = "get_shape_hash ?h (shape_hash_bits rt)"
  have t: "table_ok (shape_hash_bits rt) (shape_hash_tab rt) (shapes rt) {}" using hp by (simp add: heap_ok_def)
  then have g: "?g < 2 ^ shape_hash_bits rt" "length (shape_hash_tab rt) = 2 ^ shape_hash_bits rt"
    using get_shape_hash_less by (simp_all add: table_ok_def)
  then have c: "set (shape_hash_tab rt ! ?g) = {b. \<exists>sh. shapes rt b = Some sh \<and> sh_is_hashed sh \<and>
      get_shape_hash (sh_hash sh) (shape_hash_bits rt) = ?g}" using t by (simp add: table_ok_def)
  then have "\<forall>b \<in> set (shape_hash_tab rt ! ?g). shapes rt b \<noteq> None" by auto
  from find_in_chain_spec [OF this, of "extends_shape sh at fl ?h"] obtain r where
    r: "find_in_chain (extends_shape sh at fl ?h) (shapes rt) (shape_hash_tab rt ! ?g) = Some r"
      "\<forall>b. r = Some b \<longrightarrow> b \<in> set (shape_hash_tab rt ! ?g) \<and> (\<exists>sh'. shapes rt b = Some sh' \<and> extends_shape sh at fl ?h sh')"
    by blast
  have "find_hashed_shape_prop a at fl rt = Some r"
    using sh g r(1) by (simp add: find_hashed_shape_prop_def Let_def rd_def)
  moreover have "\<exists>shb h. shapes rt b = Some shb \<and> sh_is_hashed shb \<and> extends_shape sh at fl h shb" if "r = Some b" for b
    using r(2) that unfolding c by fastforce
  ultimately show ?thesis by blast
qed

lemma extends_shape_entries:
  assumes "extends_shape sh at fl h shb"
  shows "map entry (sh_prop shb) = map entry (sh_prop sh) @ [(at, fl)]"
proof -
  have e: "length (sh_prop shb) = length (sh_prop sh) + 1"
    "map entry (take (length (sh_prop sh)) (sh_prop shb)) = map entry (sh_prop sh)"
    "entry (sh_prop shb ! length (sh_prop sh)) = (at, fl)"
    using assms by (simp_all add: extends_shape_def Let_def)
  have "sh_prop shb = take (length (sh_prop sh)) (sh_prop shb) @ [sh_prop shb ! length (sh_prop sh)]"
    using e(1) take_Suc_conv_app_nth [of "length (sh_prop sh)" "sh_prop shb"] by simp
  then show ?thesis using e(2,3) by (metis list.simps(8,9) map_append)
qed

lemma put_object_same: "objects rt p = Some ob \<Longrightarrow> put_object p ob rt = rt"
  by (simp add: put_object_def fun_upd_idem)

lemma js_dup_shape_heap:
  assumes hp: "heap_ok rt" and b: "shapes rt b = Some shb" "sh_is_hashed shb"
  shows "\<exists>rt'. js_dup_shape b rt = Some rt' \<and> heap_ok rt' \<and> objects rt' = objects rt \<and>
    shapes rt' = (shapes rt)(b \<mapsto> shb\<lparr>sh_ref_count := sh_ref_count shb + 1\<rparr>) \<and> (\<forall>q. props_of rt' q = props_of rt q)"
proof -
  let ?sh = "shb\<lparr>sh_ref_count := sh_ref_count shb + 1\<rparr>"
  let ?rt = "put_shape b ?sh rt"
  have t: "table_ok (shape_hash_bits rt) (shape_hash_tab rt) ((shapes rt)(b \<mapsto> ?sh)) {}"
    by (rule table_ok_cong [of _ _ "shapes rt"]) (use hp b in \<open>auto simp: heap_ok_def\<close>)
  have ok: "shapes_ok (shapes rt) (objects rt)" using hp by (simp add: heap_ok_def)
  then have "shape_ok shb \<and> 1 \<le> sh_ref_count shb \<and> int (card (users (objects rt) b)) \<le> sh_ref_count shb \<and>
      (if sh_is_hashed shb then sh_deleted_prop_count shb = 0 else sh_ref_count shb = 1)"
    using b(1) unfolding shapes_ok_def by blast
  then have new: "shape_ok ?sh \<and> 1 \<le> sh_ref_count ?sh \<and> int (card (users (objects rt) b)) \<le> sh_ref_count ?sh \<and>
      (if sh_is_hashed ?sh then sh_deleted_prop_count ?sh = 0 else sh_ref_count ?sh = 1)"
    using b(2) by (auto simp: shape_ok_def)
  have "shapes_ok ((shapes rt)(b \<mapsto> ?sh)) (objects rt)"
    unfolding shapes_ok_def
  proof (intro conjI)
    show "finite (dom (objects rt))" using ok by (simp add: shapes_ok_def)
    show "\<forall>a sh. ((shapes rt)(b \<mapsto> ?sh)) a = Some sh \<longrightarrow> shape_ok sh \<and> 1 \<le> sh_ref_count sh \<and>
        int (card (users (objects rt) a)) \<le> sh_ref_count sh \<and>
        (if sh_is_hashed sh then sh_deleted_prop_count sh = 0 else sh_ref_count sh = 1)"
    proof (intro allI impI)
      fix a sh assume "((shapes rt)(b \<mapsto> ?sh)) a = Some sh"
      then have "a = b \<and> sh = ?sh \<or> shapes rt a = Some sh" by (auto split: if_splits)
      then show "shape_ok sh \<and> 1 \<le> sh_ref_count sh \<and> int (card (users (objects rt) a)) \<le> sh_ref_count sh \<and>
        (if sh_is_hashed sh then sh_deleted_prop_count sh = 0 else sh_ref_count sh = 1)"
        using new ok unfolding shapes_ok_def by blast
    qed
    show "\<forall>p ob. objects rt p = Some ob \<longrightarrow>
        (\<exists>sh. ((shapes rt)(b \<mapsto> ?sh)) (ob_shape ob) = Some sh \<and> sh_prop_size sh \<le> length (ob_prop ob))"
      using ok b(1) unfolding shapes_ok_def by fastforce
  qed
  then have "heap_ok ?rt" using hp t b(1) by (auto simp: heap_ok_def)
  moreover have "props_of ?rt q = props_of rt q" for q
  proof (rule props_frame)
    fix oq assume "objects rt q = Some oq"
    then obtain shq where "shapes rt (ob_shape oq) = Some shq" using ok unfolding shapes_ok_def by blast
    then show "\<exists>sh sh'. shapes rt (ob_shape oq) = Some sh \<and> shapes ?rt (ob_shape oq) = Some sh' \<and> sh_prop sh' = sh_prop sh"
      using b(1) by (cases "ob_shape oq = b") auto
  qed simp
  ultimately show ?thesis using b(1) by (intro exI [of _ ?rt]) (simp add: js_dup_shape_def)
qed

text \<open>What adding a property does to the lists of properties.\<close>

definition added :: "'v heap \<Rightarrow> oid \<Rightarrow> atom \<Rightarrow> 6 word \<Rightarrow> 'v heap \<Rightarrow> nat option \<Rightarrow> bool" where
  "added rt p at fl rt' r \<longleftrightarrow> heap_ok rt' \<and> (\<forall>q. q \<noteq> p \<longrightarrow> props_of rt' q = props_of rt q) \<and>
     (case r of None \<Rightarrow> props_of rt' p = props_of rt p
      | Some i \<Rightarrow> \<exists>ob'. objects rt' p = Some ob' \<and> i < length (ob_prop ob') \<and>
          props_of rt' p = props_of rt p @ [((at, fl), ob_prop ob' ! i)])"

lemma added_same: "added rt1 p at fl rt' r \<Longrightarrow> (\<And>q. props_of rt1 q = props_of rt q) \<Longrightarrow> added rt p at fl rt' r"
  by (cases r) (simp_all add: added_def)

text \<open>The last part of \<open>add_property\<close>: the object alone uses its shape.\<close>

lemma add_own_spec:
  assumes "heap_ok rt" and "allocator_ok am" and "objects rt p = Some ob" and "shapes rt (ob_shape ob) = Some sh"
    and "sh_ref_count sh = 1" and "at \<noteq> JS_ATOM_NULL" "find_in at (sh_prop sh) (length (sh_prop sh)) = None"
    and "length (sh_prop sh) + 1 < 2 ^ 26"
  shows "\<exists>rt' r. do {
      (rt, r) \<leftarrow> add_shape_property am p at fl rt;
      if r \<noteq> 0 then Some (rt, None)
      else do {
        ob \<leftarrow> objects rt p;
        sh \<leftarrow> shapes rt (ob_shape ob);
        Some (rt, Some (length (sh_prop sh) - 1))
      }
    } = Some (rt', r) \<and> added rt p at fl rt' r"
proof -
  from add_shape_property_spec [OF assms, of fl] obtain rt' r where
    r: "add_shape_property am p at fl rt = Some (rt', r)" "heap_ok rt'" "\<forall>q. q \<noteq> p \<longrightarrow> props_of rt' q = props_of rt q"
      "if r = 0 then \<exists>ob' sh' v. objects rt' p = Some ob' \<and> shapes rt' (ob_shape ob') = Some sh' \<and>
         props_of rt' p = props_of rt p @ [((at, fl), v)] \<and> length (sh_prop sh') = length (sh_prop sh) + 1 \<and>
         v = ob_prop ob' ! length (sh_prop sh)
       else r = -1 \<and> props_of rt' p = props_of rt p" by blast
  show ?thesis
  proof (cases "r = 0")
    case False
    then show ?thesis using r by (intro exI [of _ rt'] exI [of _ None]) (simp add: added_def)
  next
    case True
    with r(4) obtain ob' sh' where s: "objects rt' p = Some ob'" "shapes rt' (ob_shape ob') = Some sh'"
      "props_of rt' p = props_of rt p @ [((at, fl), ob_prop ob' ! length (sh_prop sh))]"
      "length (sh_prop sh') = length (sh_prop sh) + 1" by auto
    have "length (sh_prop sh) < length (ob_prop ob')" using object_ok [OF r(2) s(1)] s(2,4) by auto
    then show ?thesis using r(1-3) s True
      by (intro exI [of _ rt'] exI [of _ "Some (length (sh_prop sh))"]) (simp add: added_def)
  qed
qed

text \<open>The shared shape found in the table.\<close>

lemma add_found_spec:
  assumes hp: "heap_ok rt" and ob: "objects rt p = Some ob" and sh: "shapes rt (ob_shape ob) = Some sh"
    and b: "shapes rt b = Some shb" "sh_is_hashed shb" and e: "map entry (sh_prop shb) = map entry (sh_prop sh) @ [(at, fl)]"
    and at: "at \<noteq> JS_ATOM_NULL" and vs: "vs = (if sh_prop_size shb \<noteq> sh_prop_size sh
      then realloc_array u (sh_prop_size shb) (ob_prop ob) else ob_prop ob)"
  shows "\<exists>rt1 rt'. js_dup_shape b rt = Some rt1 \<and>
    js_free_shape (ob_shape ob) (put_object p (ob\<lparr>ob_shape := b, ob_prop := vs\<rparr>) rt1) = Some rt' \<and>
    added rt p at fl rt' (Some (length (sh_prop shb) - 1))"
proof -
  let ?a = "ob_shape ob" and ?ob = "ob\<lparr>ob_shape := b, ob_prop := vs\<rparr>"
  let ?shb = "shb\<lparr>sh_ref_count := sh_ref_count shb + 1\<rparr>"
  have len: "length (sh_prop shb) = length (sh_prop sh) + 1"
    using map_eq_imp_length_eq [of entry "sh_prop shb" entry "sh_prop sh @ [\<lparr>pr_hash_next = 0, pr_flags = fl, pr_atom = at\<rparr>]"] e
    by (simp add: entry_def)
  then have ba: "b \<noteq> ?a" using b(1) sh by auto
  have o: "sh_prop_size sh \<le> length (ob_prop ob)" "length (sh_prop sh) \<le> length (ob_prop ob)"
    using object_ok [OF hp ob] sh by auto
  have ok: "shapes_ok (shapes rt) (objects rt)" using hp by (simp add: heap_ok_def)
  then have sb: "shape_ok shb" "int (card (users (objects rt) b)) \<le> sh_ref_count shb" using b(1) unfolding shapes_ok_def by blast+
  have vl: "sh_prop_size shb \<le> length vs" using o(1) by (simp add: vs realloc_array_length)
  have nl: "length (sh_prop sh) < length vs" using vl sb(1) len by (simp add: shape_ok_def)
  have tk: "take (length (sh_prop sh)) vs = take (length (sh_prop sh)) (ob_prop ob)"
    using sb(1) len o(2) by (simp add: vs realloc_array_take shape_ok_def)
  from js_dup_shape_heap [OF hp b] obtain rt1 where
    r1: "js_dup_shape b rt = Some rt1" "heap_ok rt1" "objects rt1 = objects rt" "shapes rt1 = (shapes rt)(b \<mapsto> ?shb)"
      "\<And>q. props_of rt1 q = props_of rt q" by blast
  let ?rt0 = "put_object p ?ob rt1"
  have "\<exists>rt2. js_free_shape ?a ?rt0 = Some rt2 \<and> objects rt2 = objects ?rt0 \<and> shapes rt2 b = Some ?shb \<and>
      heap_ok (put_object p ?ob rt2) \<and> (\<forall>q. q \<noteq> p \<longrightarrow> props_of (put_object p ?ob rt2) q = props_of rt1 q)"
    by (rule switch_heap [OF r1(2)]) (use r1(3,4) ob sh ba sb(2) vl in auto)
  then obtain rt2 where r2: "js_free_shape ?a ?rt0 = Some rt2" "objects rt2 = objects ?rt0" "shapes rt2 b = Some ?shb"
    "heap_ok (put_object p ?ob rt2)" "\<forall>q. q \<noteq> p \<longrightarrow> props_of (put_object p ?ob rt2) q = props_of rt1 q" by blast
  have o2: "objects rt2 p = Some ?ob" using r2(2) by simp
  have same: "put_object p ?ob rt2 = rt2" using o2 by (rule put_object_same)
  have "props_of rt2 p = own_props ?shb vs" using props_of_obj [OF o2] r2(3) by simp
  also have "\<dots> = own_props sh vs @ [((at, fl), vs ! length (sh_prop sh))]"
    by (rule own_props_append) (use e at nl in simp_all)
  also have "own_props sh vs = props_of rt p" using own_props_take [OF tk] props_of_obj [OF ob sh] by simp
  finally have "added rt p at fl rt2 (Some (length (sh_prop shb) - 1))"
    using r2(4,5) o2 nl len r1(5) unfolding same by (simp add: added_def)
  then show ?thesis using r1(1) r2(1) by blast
qed

section \<open>Copying the shape of an object\<close>

lemma clone_heap:
  assumes hp: "heap_ok rt" and am: "allocator_ok am" and a: "shapes rt a = Some sh" and c: "am_malloc am rt = Some c"
    and d: "sh_deleted_prop_count sh = 0"
  shows "shapes rt c = None \<and> c \<noteq> a \<and> (\<exists>rt1. js_clone_shape am a rt = Some (rt1, Some c) \<and>
    shapes rt1 = (shapes rt)(c \<mapsto> sh\<lparr>sh_ref_count := 1, sh_is_hashed := False\<rparr>) \<and> objects rt1 = objects rt \<and>
    heap_ok rt1 \<and> (\<forall>q. props_of rt1 q = props_of rt q) \<and>
    (\<exists>rt2. js_shape_hash_link c (put_shape c (sh\<lparr>sh_ref_count := 1, sh_is_hashed := True\<rparr>) rt1) = Some rt2 \<and>
      shapes rt2 = (shapes rt)(c \<mapsto> sh\<lparr>sh_ref_count := 1, sh_is_hashed := True\<rparr>) \<and> objects rt2 = objects rt \<and>
      heap_ok rt2 \<and> (\<forall>q. props_of rt2 q = props_of rt q)))"
proof -
  let ?u = "sh\<lparr>sh_ref_count := 1, sh_is_hashed := False\<rparr>" and ?h = "sh\<lparr>sh_ref_count := 1, sh_is_hashed := True\<rparr>"
  have cn: "shapes rt c = None" using am c by (simp add: allocator_ok_def)
  have t: "table_ok (shape_hash_bits rt) (shape_hash_tab rt) (shapes rt) {}" and ok: "shapes_ok (shapes rt) (objects rt)"
    using hp by (simp_all add: heap_ok_def)
  have sk: "shape_ok sh" using ok a unfolding shapes_ok_def by blast
  from js_clone_shape_spec [OF a c] obtain rt1 where
    r1: "js_clone_shape am a rt = Some (rt1, Some c)" "objects rt1 = objects rt" "shape_hash_bits rt1 = shape_hash_bits rt"
      "shape_hash_tab rt1 = shape_hash_tab rt" "gc_shapes rt1 = gc_shapes rt @ [c]" "shapes rt1 = (shapes rt)(c \<mapsto> ?u)" by blast
  have ne: "c \<noteq> a" using cn a by auto
  have tc: "table_ok (shape_hash_bits rt) (shape_hash_tab rt) (shapes rt) {c}"
    using t cn by (auto simp: table_ok_def)
  have tu: "table_ok (shape_hash_bits rt) (shape_hash_tab rt) ((shapes rt)(c \<mapsto> s)) {c}" for s
    by (rule table_ok_cong [OF tc]) simp
  have "table_ok (shape_hash_bits rt1) (shape_hash_tab rt1) (shapes rt1) {}"
    using table_ok_unhashed [of "shape_hash_bits rt" "shape_hash_tab rt" "shapes rt1" c "{}"] tu [of ?u] r1 by simp
  from new_shape_heap [OF hp cn _ _ _ this r1(6,2,5)] sk d
  have h1: "heap_ok rt1" "props_of rt1 q = props_of rt q" for q by (auto simp: shape_ok_def)
  let ?r = "put_shape c ?h rt1"
  have "table_ok (shape_hash_bits ?r) (shape_hash_tab ?r) (shapes ?r) (insert c {})"
    using tu [of ?h] r1 by simp
  from js_shape_hash_link_spec [OF this, of ?h] obtain tab where
    l: "js_shape_hash_link c ?r = Some (?r\<lparr>shape_hash_tab := tab, shape_hash_count := shape_hash_count ?r + 1\<rparr>)"
      "table_ok (shape_hash_bits ?r) tab (shapes ?r) {}" by auto
  let ?r2 = "?r\<lparr>shape_hash_tab := tab, shape_hash_count := shape_hash_count ?r + 1\<rparr>"
  have f2: "shapes ?r2 = (shapes rt)(c \<mapsto> ?h)" "objects ?r2 = objects rt" "gc_shapes ?r2 = gc_shapes rt @ [c]"
    using r1 by simp_all
  have "table_ok (shape_hash_bits ?r2) (shape_hash_tab ?r2) (shapes ?r2) {}" using l(2) by simp
  from new_shape_heap [OF hp cn _ _ _ this f2] sk d
  have h2: "heap_ok ?r2" "props_of ?r2 q = props_of rt q" for q by (auto simp: shape_ok_def)
  show ?thesis using cn ne r1(1,2,6) h1 l(1) f2(1,2) h2 by blast
qed

lemma switch_to_clone:
  assumes hp: "heap_ok rt" and ob: "objects rt p = Some ob" and a: "shapes rt (ob_shape ob) = Some sh"
    and c: "c \<noteq> ob_shape ob" "shapes rt c = Some shc" "users (objects rt) c = {}" "sh_ref_count shc = 1"
    "sh_prop_size shc = sh_prop_size sh" "sh_prop shc = sh_prop sh"
  shows "\<exists>rt1. js_free_shape (ob_shape ob) rt = Some rt1 \<and> (\<exists>rt2. rt2 = put_object p (ob\<lparr>ob_shape := c\<rparr>) rt1 \<and>
    heap_ok rt2 \<and> objects rt2 p = Some (ob\<lparr>ob_shape := c\<rparr>) \<and> shapes rt2 c = Some shc \<and>
    (\<forall>q. props_of rt2 q = props_of rt q))"
proof -
  have sz: "sh_prop_size shc \<le> length (ob_prop ob)" using object_ok [OF hp ob] a c(5) by auto
  have "\<exists>rt1. js_free_shape (ob_shape ob) rt = Some rt1 \<and> objects rt1 = objects rt \<and> shapes rt1 c = Some shc \<and>
      heap_ok (put_object p (ob\<lparr>ob_shape := c, ob_prop := ob_prop ob\<rparr>) rt1) \<and>
      (\<forall>q. q \<noteq> p \<longrightarrow> props_of (put_object p (ob\<lparr>ob_shape := c, ob_prop := ob_prop ob\<rparr>) rt1) q = props_of rt q)"
    by (rule switch_heap [OF hp ob a]) (use c sz in auto)
  then obtain rt1 where r: "js_free_shape (ob_shape ob) rt = Some rt1" "shapes rt1 c = Some shc"
    "heap_ok (put_object p (ob\<lparr>ob_shape := c\<rparr>) rt1)"
    "\<And>q. q \<noteq> p \<Longrightarrow> props_of (put_object p (ob\<lparr>ob_shape := c\<rparr>) rt1) q = props_of rt q" by auto
  have o2: "objects (put_object p (ob\<lparr>ob_shape := c\<rparr>) rt1) p = Some (ob\<lparr>ob_shape := c\<rparr>)" by simp
  have "props_of (put_object p (ob\<lparr>ob_shape := c\<rparr>) rt1) p = props_of rt p"
    using props_of_obj [OF o2] props_of_obj [OF ob a] own_props_cong [of shc sh] r(2) c(6) by simp
  then have "props_of (put_object p (ob\<lparr>ob_shape := c\<rparr>) rt1) q = props_of rt q" for q
    using r(4) by (cases "q = p") simp_all
  then show ?thesis using r(1-3) o2 by (intro exI [of _ rt1]) simp
qed

lemma no_users_fresh: "heap_ok rt \<Longrightarrow> shapes rt c = None \<Longrightarrow> users (objects rt) c = {}"
  by (rule users_unallocated [of "shapes rt"]) (simp_all add: heap_ok_def)

text \<open>The copy of a shared hashed shape in \<open>add_property\<close>: it goes into the table.\<close>

lemma unshare_spec:
  assumes hp: "heap_ok rt" and am: "allocator_ok am" and ob: "objects rt p = Some ob" and sh: "shapes rt (ob_shape ob) = Some sh"
    and hd: "sh_is_hashed sh"
  shows "\<exists>rt' b. do {
      (rt, c) \<leftarrow> js_clone_shape am (ob_shape ob) rt;
      case c of
        None \<Rightarrow> Some (rt, False)
      | Some c \<Rightarrow> do {
          sh1 \<leftarrow> shapes rt c;
          rt \<leftarrow> js_shape_hash_link c (put_shape c (sh1\<lparr>sh_is_hashed := True\<rparr>) rt);
          rt \<leftarrow> js_free_shape (ob_shape ob) rt;
          Some (put_object p (ob\<lparr>ob_shape := c\<rparr>) rt, True)
        }
    } = Some (rt', b) \<and> heap_ok rt' \<and> (\<forall>q. props_of rt' q = props_of rt q) \<and>
    (b \<longrightarrow> (\<exists>ob' sh'. objects rt' p = Some ob' \<and> shapes rt' (ob_shape ob') = Some sh' \<and> sh_ref_count sh' = 1 \<and>
      sh_prop sh' = sh_prop sh))"
proof (cases "am_malloc am rt")
  case None
  then have "js_clone_shape am (ob_shape ob) rt = Some (rt, None)" using sh by (simp add: js_clone_shape_def)
  then show ?thesis using hp by (intro exI [of _ rt] exI [of _ False]) simp
next
  case (Some c)
  have d: "sh_deleted_prop_count sh = 0" using object_ok [OF hp ob] sh hd by auto
  let ?h = "sh\<lparr>sh_ref_count := 1, sh_is_hashed := True\<rparr>"
  from clone_heap [OF hp am sh Some d] obtain rt1 rt2 where r: "shapes rt c = None" "c \<noteq> ob_shape ob"
    "js_clone_shape am (ob_shape ob) rt = Some (rt1, Some c)"
    "shapes rt1 = (shapes rt)(c \<mapsto> sh\<lparr>sh_ref_count := 1, sh_is_hashed := False\<rparr>)"
    "js_shape_hash_link c (put_shape c ?h rt1) = Some rt2"
    "shapes rt2 = (shapes rt)(c \<mapsto> ?h)" "objects rt2 = objects rt" "heap_ok rt2" "\<And>q. props_of rt2 q = props_of rt q"
    by blast
  have nu: "users (objects rt2) c = {}" using no_users_fresh [OF hp r(1)] r(7) by simp
  have "\<exists>rt3. js_free_shape (ob_shape ob) rt2 = Some rt3 \<and> (\<exists>rt4. rt4 = put_object p (ob\<lparr>ob_shape := c\<rparr>) rt3 \<and>
    heap_ok rt4 \<and> objects rt4 p = Some (ob\<lparr>ob_shape := c\<rparr>) \<and> shapes rt4 c = Some ?h \<and>
    (\<forall>q. props_of rt4 q = props_of rt2 q))"
    by (rule switch_to_clone [OF r(8)]) (use r(2,6,7) nu ob sh in auto)
  then obtain rt3 rt4 where f: "js_free_shape (ob_shape ob) rt2 = Some rt3" "rt4 = put_object p (ob\<lparr>ob_shape := c\<rparr>) rt3"
    "heap_ok rt4" "objects rt4 p = Some (ob\<lparr>ob_shape := c\<rparr>)" "shapes rt4 c = Some ?h"
    "\<And>q. props_of rt4 q = props_of rt2 q" by blast
  have "\<exists>ob' sh'. objects rt4 p = Some ob' \<and> shapes rt4 (ob_shape ob') = Some sh' \<and> sh_ref_count sh' = 1 \<and>
      sh_prop sh' = sh_prop sh" using f(4,5) by simp
  then show ?thesis using r(3,4,5,9) f(1,2,3,6) by (intro exI [of _ rt4] exI [of _ True]) simp
qed

lemma add_property_adds:
  assumes hp: "heap_ok rt" and am: "allocator_ok am" and ob: "objects rt p = Some ob" and sh: "shapes rt (ob_shape ob) = Some sh"
    and at: "at \<noteq> JS_ATOM_NULL" "at \<notin> dom (prop_map (props_of rt p))" and len: "length (sh_prop sh) + 1 < 2 ^ 26"
  shows "\<exists>rt' r. add_property am p at fl rt = Some (rt', r) \<and> added rt p at fl rt' r"
proof -
  have o: "length (sh_prop sh) \<le> length (ob_prop ob)"
    "if sh_is_hashed sh then sh_deleted_prop_count sh = 0 else sh_ref_count sh = 1"
    using object_ok [OF hp ob] sh by auto
  have "at \<notin> set (map (fst \<circ> fst) (own_props sh (ob_prop ob)))"
    using at(2) by (simp add: dom_prop_map props_of_obj [OF ob sh])
  then have fi: "find_in at (sh_prop sh) (length (sh_prop sh)) = None"
    unfolding find_in_atoms atoms_own_props [OF o(1)] by simp
  from find_hashed_shape_prop_spec [OF hp sh, of at fl] obtain r where
    r: "find_hashed_shape_prop (ob_shape ob) at fl rt = Some r"
      "\<And>b. r = Some b \<Longrightarrow> \<exists>shb h. shapes rt b = Some shb \<and> sh_is_hashed shb \<and> extends_shape sh at fl h shb" by blast
  show ?thesis
  proof (cases "if sh_is_hashed sh then r else None")
    case (Some b)
    then have rb: "sh_is_hashed sh" "r = Some b" by (auto split: if_splits)
    from r(2) [OF rb(2)] obtain shb h where b: "shapes rt b = Some shb" "sh_is_hashed shb" "extends_shape sh at fl h shb" by blast
    define vs where "vs = (if sh_prop_size shb \<noteq> sh_prop_size sh
      then realloc_array (am_uninit am) (sh_prop_size shb) (ob_prop ob) else ob_prop ob)"
    from add_found_spec [OF hp ob sh b(1,2) extends_shape_entries [OF b(3)] at(1) vs_def] obtain rt1 rt' where
      f: "js_dup_shape b rt = Some rt1"
        "js_free_shape (ob_shape ob) (put_object p (ob\<lparr>ob_shape := b, ob_prop := vs\<rparr>) rt1) = Some rt'"
        "added rt p at fl rt' (Some (length (sh_prop shb) - 1))" by blast
    have no: "added rt p at fl rt None" using hp by (simp add: added_def)
    show ?thesis
    proof (cases "sh_prop_size shb \<noteq> sh_prop_size sh \<and> \<not> am_array am rt")
      case True
      then have "add_property am p at fl rt = Some (rt, None)"
        using ob sh rb r(1) b(1) by (simp add: add_property_def Let_def)
      then show ?thesis using no by blast
    next
      case False
      have upd: "(if sh_prop_size shb \<noteq> sh_prop_size sh
          then ob\<lparr>ob_prop := realloc_array (am_uninit am) (sh_prop_size shb) (ob_prop ob)\<rparr> else ob)\<lparr>ob_shape := b\<rparr> =
          ob\<lparr>ob_shape := b, ob_prop := vs\<rparr>" by (simp add: vs_def)
      have "add_property am p at fl rt = Some (rt', Some (length (sh_prop shb) - 1))"
        using ob sh rb r(1) b(1) False f(1,2) unfolding add_property_def Let_def
        by (simp only: bind.bind_lunit if_True option.case upd if_False)
      then show ?thesis using f(3) by blast
    qed
  next
    case None
    show ?thesis
    proof (cases "sh_is_hashed sh \<and> sh_ref_count sh \<noteq> 1")
      case True
      from unshare_spec [OF hp am ob sh] True obtain rt1 ok where
        u: "do {
            (rt, c) \<leftarrow> js_clone_shape am (ob_shape ob) rt;
            case c of
              None \<Rightarrow> Some (rt, False)
            | Some c \<Rightarrow> do {
                sh1 \<leftarrow> shapes rt c;
                rt \<leftarrow> js_shape_hash_link c (put_shape c (sh1\<lparr>sh_is_hashed := True\<rparr>) rt);
                rt \<leftarrow> js_free_shape (ob_shape ob) rt;
                Some (put_object p (ob\<lparr>ob_shape := c\<rparr>) rt, True)
              }
          } = Some (rt1, ok)" "heap_ok rt1" "\<And>q. props_of rt1 q = props_of rt q"
          "ok \<Longrightarrow> \<exists>ob' sh'. objects rt1 p = Some ob' \<and> shapes rt1 (ob_shape ob') = Some sh' \<and> sh_ref_count sh' = 1 \<and>
            sh_prop sh' = sh_prop sh" by blast
      show ?thesis
      proof (cases ok)
        case False
        then have "add_property am p at fl rt = Some (rt1, None)"
          using ob sh r(1) None True u(1) unfolding add_property_def Let_def by simp
        then show ?thesis using u(2,3) by (intro exI [of _ rt1] exI [of _ None]) (simp add: added_def)
      next
        case ok: True
        from u(4) [OF ok] obtain ob' sh' where s: "objects rt1 p = Some ob'" "shapes rt1 (ob_shape ob') = Some sh'"
          "sh_ref_count sh' = 1" "sh_prop sh' = sh_prop sh" by blast
        have fi': "find_in at (sh_prop sh') (length (sh_prop sh')) = None" "length (sh_prop sh') + 1 < 2 ^ 26"
          using fi len s(4) by simp_all
        from add_own_spec [OF u(2) am s(1-3) at(1) fi', of fl] obtain rt' r' where
          w: "do {
            (rt, r) \<leftarrow> add_shape_property am p at fl rt1;
            if r \<noteq> 0 then Some (rt, None)
            else do {
              ob \<leftarrow> objects rt p;
              sh \<leftarrow> shapes rt (ob_shape ob);
              Some (rt, Some (length (sh_prop sh) - 1))
            }
          } = Some (rt', r')" "added rt1 p at fl rt' r'" by blast
        have "add_property am p at fl rt = Some (rt', r')"
          using ob sh r(1) None True u(1) ok s w(1) unfolding add_property_def Let_def by simp
        then show ?thesis using added_same [OF w(2) u(3)] by blast
      qed
    next
      case False
      then have rc: "sh_ref_count sh = 1" using o(2) by auto
      from add_own_spec [OF hp am ob sh rc at(1) fi len, of fl] obtain rt' r' where
        w: "do {
          (rt, r) \<leftarrow> add_shape_property am p at fl rt;
          if r \<noteq> 0 then Some (rt, None)
          else do {
            ob \<leftarrow> objects rt p;
            sh \<leftarrow> shapes rt (ob_shape ob);
            Some (rt, Some (length (sh_prop sh) - 1))
          }
        } = Some (rt', r')" "added rt p at fl rt' r'" by blast
      have "add_property am p at fl rt = Some (rt', r')"
        using ob sh r(1) None False rc w(1) unfolding add_property_def Let_def by (cases "sh_is_hashed sh") simp_all
      then show ?thesis using w(2) by blast
    qed
  qed
qed

section \<open>Removal\<close>

text \<open>Nothing but the removal itself releases property values.\<close>

lemma released_fold [simp]:
  "released (fold (\<lambda>pr. JS_DupAtom (pr_atom pr)) ps rt) = released rt"
  "released (fold (\<lambda>pr. JS_FreeAtom (pr_atom pr)) ps rt) = released rt"
  by (induction ps arbitrary: rt) (simp_all add: JS_DupAtom_def JS_FreeAtom_def)

lemma released_put [simp]:
  "released (put_shape a sh rt) = released rt" "released (put_object p ob rt) = released rt"
  "released (free_proto w rt) = released rt" "released (dup_proto w rt) = released rt"
  "released (JS_FreeAtom x rt) = released rt" "released (free_property v fl rt) = released rt @ [(v, fl)]"
  by (simp_all add: put_shape_def put_object_def free_proto_def dup_proto_def JS_FreeAtom_def free_property_def)

lemma released_unlink: "js_shape_hash_unlink a rt = Some rt' \<Longrightarrow> released rt' = released rt"
  by (auto simp: js_shape_hash_unlink_def bind_Some_iff Let_def split: if_splits)

lemma released_clone: "js_clone_shape am a rt = Some (rt', r) \<Longrightarrow> released rt' = released rt"
  by (auto simp: js_clone_shape_def bind_Some_iff Let_def split: option.splits)

lemma released_free_shape: "js_free_shape a rt = Some rt' \<Longrightarrow> released rt' = released rt"
  by (auto simp: js_free_shape_def js_free_shape0_def bind_Some_iff Let_def split: if_splits dest: released_unlink)

text \<open>The object alone uses its shape after \<open>js_shape_prepare_update\<close>, and it is not in the table.\<close>

lemma js_shape_prepare_update_spec:
  assumes hp: "heap_ok rt" and am: "allocator_ok am" and ob: "objects rt p = Some ob" and sh: "shapes rt (ob_shape ob) = Some sh"
  shows "\<exists>rt' r. js_shape_prepare_update am p rt = Some (rt', r) \<and> heap_ok rt' \<and> (\<forall>q. props_of rt' q = props_of rt q) \<and>
    released rt' = released rt \<and>
    (if r = 0 then \<exists>b. objects rt' p = Some (ob\<lparr>ob_shape := b\<rparr>) \<and>
       shapes rt' b = Some (sh\<lparr>sh_ref_count := 1, sh_is_hashed := False\<rparr>) else r = -1)"
proof -
  let ?u = "sh\<lparr>sh_ref_count := 1, sh_is_hashed := False\<rparr>"
  have o: "if sh_is_hashed sh then sh_deleted_prop_count sh = 0 else sh_ref_count sh = 1"
    using object_ok [OF hp ob] sh by auto
  consider "\<not> sh_is_hashed sh" | "sh_is_hashed sh" "sh_ref_count sh = 1" | "sh_is_hashed sh" "sh_ref_count sh \<noteq> 1" by blast
  then show ?thesis
  proof cases
    case 1
    then have "?u = sh" using o by simp
    then show ?thesis using 1 hp ob sh
      by (intro exI [of _ rt] exI [of _ 0]) (auto simp: js_shape_prepare_update_def Let_def intro!: exI [of _ "ob_shape ob"])
  next
    case 2
    from js_shape_hash_unlink_spec [of rt "{}" "ob_shape ob" sh] hp sh 2(1) obtain tab where
      u: "js_shape_hash_unlink (ob_shape ob) rt = Some (rt\<lparr>shape_hash_tab := tab, shape_hash_count := shape_hash_count rt - 1\<rparr>)"
        "table_ok (shape_hash_bits rt) tab (shapes rt) {ob_shape ob}" by (auto simp: heap_ok_def)
    let ?rt1 = "rt\<lparr>shape_hash_tab := tab, shape_hash_count := shape_hash_count rt - 1\<rparr>"
    have e: "sh\<lparr>sh_is_hashed := False\<rparr> = ?u" using 2(2) by (cases sh) simp
    have "table_ok (shape_hash_bits rt) tab ((shapes rt)(ob_shape ob \<mapsto> ?u)) {ob_shape ob}"
      by (rule table_ok_cong [OF u(2)]) simp
    then have t: "table_ok (shape_hash_bits rt) tab ((shapes rt)(ob_shape ob \<mapsto> ?u)) {}"
      using table_ok_unhashed [of "shape_hash_bits rt" tab "(shapes rt)(ob_shape ob \<mapsto> ?u)" "ob_shape ob" "{}"] by simp
    have ok: "shapes_ok (shapes rt) (objects rt)" using hp by (simp add: heap_ok_def)
    have su: "shape_ok ?u" using ok sh unfolding shapes_ok_def by (auto simp: shape_ok_def)
    have "int (card (users (objects rt) (ob_shape ob))) \<le> 1" using ok sh 2(2) unfolding shapes_ok_def by fastforce
    then have "shapes_ok ((shapes rt)(ob_shape ob \<mapsto> ?u)) (objects rt)"
      using ok su sh unfolding shapes_ok_def by (auto split: if_splits) fastforce+
    then have h: "heap_ok (put_shape (ob_shape ob) ?u ?rt1)" using hp t sh by (auto simp: heap_ok_def)
    have pr: "props_of (put_shape (ob_shape ob) ?u ?rt1) q = props_of rt q" for q
    proof (rule props_frame)
      fix oq assume "objects rt q = Some oq"
      then obtain shq where "shapes rt (ob_shape oq) = Some shq" using ok unfolding shapes_ok_def by blast
      then show "\<exists>sh' sh''. shapes rt (ob_shape oq) = Some sh' \<and>
          shapes (put_shape (ob_shape ob) ?u ?rt1) (ob_shape oq) = Some sh'' \<and> sh_prop sh'' = sh_prop sh'"
        using sh by (cases "ob_shape oq = ob_shape ob") auto
    qed simp
    have "js_shape_prepare_update am p rt = Some (put_shape (ob_shape ob) ?u ?rt1, 0)"
      using 2(1) 2(2) [symmetric] ob sh u(1) unfolding e [symmetric] by (simp add: js_shape_prepare_update_def Let_def)
    then show ?thesis using h pr ob sh
      by (intro exI [of _ "put_shape (ob_shape ob) ?u ?rt1"] exI [of _ 0]) (auto intro!: exI [of _ "ob_shape ob"])
  next
    case 3
    have d: "sh_deleted_prop_count sh = 0" using o 3(1) by simp
    show ?thesis
    proof (cases "am_malloc am rt")
      case None
      then have "js_shape_prepare_update am p rt = Some (rt, -1)"
        using 3 ob sh by (simp add: js_shape_prepare_update_def js_clone_shape_def Let_def)
      then show ?thesis using hp by simp
    next
      case (Some c)
      from clone_heap [OF hp am sh Some d] obtain rt1 where r: "shapes rt c = None" "c \<noteq> ob_shape ob"
        "js_clone_shape am (ob_shape ob) rt = Some (rt1, Some c)" "shapes rt1 = (shapes rt)(c \<mapsto> ?u)" "objects rt1 = objects rt"
        "heap_ok rt1" "\<And>q. props_of rt1 q = props_of rt q" by blast
      have nu: "users (objects rt1) c = {}" using no_users_fresh [OF hp r(1)] r(5) by simp
      have "\<exists>rt2. js_free_shape (ob_shape ob) rt1 = Some rt2 \<and> (\<exists>rt3. rt3 = put_object p (ob\<lparr>ob_shape := c\<rparr>) rt2 \<and>
        heap_ok rt3 \<and> objects rt3 p = Some (ob\<lparr>ob_shape := c\<rparr>) \<and> shapes rt3 c = Some ?u \<and>
        (\<forall>q. props_of rt3 q = props_of rt1 q))"
        by (rule switch_to_clone [OF r(6)]) (use r(2,4,5) nu ob sh in auto)
      then obtain rt2 rt3 where f: "js_free_shape (ob_shape ob) rt1 = Some rt2" "rt3 = put_object p (ob\<lparr>ob_shape := c\<rparr>) rt2"
        "heap_ok rt3" "objects rt3 p = Some (ob\<lparr>ob_shape := c\<rparr>)" "shapes rt3 c = Some ?u"
        "\<And>q. props_of rt3 q = props_of rt1 q" by blast
      have "released rt3 = released rt" using released_clone [OF r(3)] released_free_shape [OF f(1)] f(2) by simp
      moreover have "js_shape_prepare_update am p rt = Some (rt3, 0)"
        using 3 ob sh r(3) f(1,2) by (simp add: js_shape_prepare_update_def Let_def)
      ultimately show ?thesis using f(3-6) r(7) by (intro exI [of _ rt3] exI [of _ 0]) auto
    qed
  qed
qed

text \<open>Replacing the object and its own, unhashed shape.\<close>

lemma replace_heap:
  assumes hp: "heap_ok rt" and ob: "objects rt p = Some ob" and sh: "shapes rt (ob_shape ob) = Some sh"
    and u: "sh_ref_count sh = 1" "\<not> sh_is_hashed sh" and r: "replaces rt p ob rt' ob'"
    and sh': "shapes rt' (ob_shape ob') = Some sh'" "shape_ok sh'" "sh_ref_count sh' = 1" "\<not> sh_is_hashed sh'"
      "sh_prop_size sh' \<le> length (ob_prop ob')"
    and t: "shape_hash_bits rt' = shape_hash_bits rt" "shape_hash_tab rt' = shape_hash_tab rt"
    and g: "distinct (gc_shapes rt')" "set (gc_shapes rt') = insert (ob_shape ob') (set (gc_shapes rt) - {ob_shape ob})"
  shows "heap_ok rt'" and "q \<noteq> p \<Longrightarrow> props_of rt' q = props_of rt q"
proof -
  have o: "owns rt p ob sh" using owns_from_heap [OF hp ob sh u(1)] u(2) by auto
  have "owns rt' p ob' sh'"
    by (rule owns_replace [OF o r sh'(1)]) (use u sh' t g in auto)
  then show "heap_ok rt'" using heap_from_owns [of rt' p ob' sh'] sh'(4) by auto
  show "q \<noteq> p \<Longrightarrow> props_of rt' q = props_of rt q" using replaces_others [OF o r] .
qed

text \<open>The last part of \<open>delete_property\<close>: clearing the entry in the own shape, and compaction.\<close>

lemma clear_own_spec:
  assumes hp: "heap_ok rt" and am: "allocator_ok am" and ob: "objects rt p = Some ob" and sh: "shapes rt (ob_shape ob) = Some sh"
    and u: "sh_ref_count sh = 1" "\<not> sh_is_hashed sh" and i: "i < length (sh_prop sh)" "live (sh_prop sh ! i)"
    and a: "pr_atom (sh_prop sh ! i) = at"
    and l: "leads_to (sh_prop_hash_mask sh) (bucket at (sh_prop_hash_mask sh)) (sh_prop sh) lpr i"
  shows "\<exists>rt'. do {
      sh \<leftarrow> unlink_property lpr i sh;
      v \<leftarrow> rd (ob_prop ob) i;
      vs \<leftarrow> wr (ob_prop ob) i undef;
      let rt = JS_FreeAtom at (free_property v fl rt);
      let ob = ob\<lparr>ob_prop := vs\<rparr>;
      if sh_deleted_prop_count sh \<ge> 8 \<and> sh_deleted_prop_count sh \<ge> length (sh_prop sh) div 2 then do {
        let addr = am_malloc am rt;
        (sh, vs, r) \<leftarrow> compact_properties (addr \<noteq> None) (am_array am rt) sh (ob_prop ob);
        case addr of
          None \<Rightarrow> Some (put_object p ob (put_shape (ob_shape ob) sh rt), Some (1::int))
        | Some b \<Rightarrow>
            Some (put_object p (ob\<lparr>ob_shape := b, ob_prop := vs\<rparr>)
              (rt\<lparr>shapes := (shapes rt)(ob_shape ob := None, b \<mapsto> sh),
                 gc_shapes := remove1 (ob_shape ob) (gc_shapes rt) @ [b]\<rparr>), Some 1)
      } else Some (put_object p ob (put_shape (ob_shape ob) sh rt), Some 1)
    } = Some (rt', Some 1) \<and> heap_ok rt' \<and> (\<forall>q. q \<noteq> p \<longrightarrow> props_of rt' q = props_of rt q) \<and>
    props_of rt' p = filter (\<lambda>e. fst (fst e) \<noteq> at) (props_of rt p) \<and>
    released rt' = released rt @ [(ob_prop ob ! i, fl)]"
proof -
  let ?a = "ob_shape ob" and ?vs = "(ob_prop ob)[i := undef]"
  let ?rt = "JS_FreeAtom at (free_property (ob_prop ob ! i) fl rt)" and ?ob = "ob\<lparr>ob_prop := (ob_prop ob)[i := undef]\<rparr>"
  from object_ok [OF hp ob] sh have o: "shape_ok sh" "sh_prop_size sh \<le> length (ob_prop ob)"
    "length (sh_prop sh) \<le> length (ob_prop ob)" by auto
  have gc: "distinct (gc_shapes rt)" "set (gc_shapes rt) = dom (shapes rt)" using hp by (simp_all add: heap_ok_def)
  from unlink_property_spec [OF o(1) i refl, unfolded a, OF l] obtain sh1 tab prs where
    s1: "unlink_property lpr i sh = Some sh1" "shape_ok sh1" "map entry prs = (map entry (sh_prop sh))[i := (JS_ATOM_NULL, 0)]"
      "sh1 = sh\<lparr>sh_prop := prs, sh_prop_hash := tab, sh_deleted_prop_count := sh_deleted_prop_count sh + 1\<rparr>" by blast
  have f1: "sh_prop_size sh1 \<le> length ?vs" "sh_ref_count sh1 = 1" "\<not> sh_is_hashed sh1" "sh_prop sh1 = prs"
    using s1(4) o(2) u by simp_all
  have d: "distinct (map pr_atom (filter live (sh_prop sh)))" using o(1) by (simp add: shape_ok_def)
  have own: "own_props sh1 ?vs = filter (\<lambda>e. fst (fst e) \<noteq> at) (props_of rt p)"
    using own_props_remove [of sh1 sh i at, OF _ i a d o(3)] s1(3) f1(4) props_of_obj [OF ob sh] by simp
  have hp1: "heap_ok ?rt" using hp by (simp add: heap_ok_def)
  have acc: "rd (ob_prop ob) i = Some (ob_prop ob ! i)" "wr (ob_prop ob) i undef = Some ?vs"
    using i(1) o(3) by (simp_all add: rd_def wr_def)
  have rel: "released ?rt = released rt @ [(ob_prop ob ! i, fl)]" by simp
  have plain: "heap_ok (put_object p ?ob (put_shape ?a sh1 ?rt)) \<and>
      (\<forall>q. q \<noteq> p \<longrightarrow> props_of (put_object p ?ob (put_shape ?a sh1 ?rt)) q = props_of rt q) \<and>
      props_of (put_object p ?ob (put_shape ?a sh1 ?rt)) p = filter (\<lambda>e. fst (fst e) \<noteq> at) (props_of rt p) \<and>
      released (put_object p ?ob (put_shape ?a sh1 ?rt)) = released rt @ [(ob_prop ob ! i, fl)]"
  proof -
    let ?r = "put_object p ?ob (put_shape ?a sh1 ?rt)"
    have rep: "replaces rt p ob ?r ?ob" by (auto simp: replaces_def)
    have s: "shapes ?r (ob_shape ?ob) = Some sh1" by simp
    have g: "distinct (gc_shapes ?r)" "set (gc_shapes ?r) = insert (ob_shape ?ob) (set (gc_shapes rt) - {?a})"
      using gc sh by auto
    have "heap_ok ?r" "\<And>q. q \<noteq> p \<Longrightarrow> props_of ?r q = props_of rt q"
      by (rule replace_heap [OF hp ob sh u rep s s1(2) f1(2,3) _ _ _ g]; use f1(1) in simp)+
    moreover have "objects ?r p = Some ?ob" by simp
    from props_of_obj [OF this s] own have "props_of ?r p = filter (\<lambda>e. fst (fst e) \<noteq> at) (props_of rt p)" by simp
    ultimately show ?thesis by simp
  qed
  show ?thesis
  proof (cases "sh_deleted_prop_count sh1 \<ge> 8 \<and> sh_deleted_prop_count sh1 \<ge> length (sh_prop sh1) div 2")
    case False
    show ?thesis unfolding s1(1) acc bind.bind_lunit Let_def if_not_P [OF False]
      by (intro exI [of _ "put_object p ?ob (put_shape ?a sh1 ?rt)"]) (use plain in simp)
  next
    case compact: True
    from compact_properties_spec [OF s1(2) f1(3,1), of "am_malloc am ?rt \<noteq> None" "am_array am ?rt"] obtain sh2 vs2 r prs2 tab2 hm2 where
      c: "compact_properties (am_malloc am ?rt \<noteq> None) (am_array am ?rt) sh1 ?vs = Some (sh2, vs2, r)" "shape_ok sh2"
        "sh_prop_size sh2 \<le> length vs2" "if am_malloc am ?rt \<noteq> None then r = 0 \<and> map entry prs2 = map entry (filter live (sh_prop sh1)) \<and>
         take (length prs2) vs2 = live_values (sh_prop sh1) ?vs \<and>
         sh2 = sh1\<lparr>sh_prop := prs2, sh_prop_hash := tab2, sh_prop_hash_mask := hm2,
           sh_prop_size := max 2 (length prs2), sh_deleted_prop_count := 0\<rparr>
       else r = -1 \<and> sh2 = sh1 \<and> vs2 = ?vs" by blast
    show ?thesis
    proof (cases "am_malloc am ?rt")
      case None
      then have "sh2 = sh1" using c(4) by simp
      then show ?thesis using s1(1) acc plain c(1) None compact
        by (intro exI [of _ "put_object p ?ob (put_shape ?a sh1 ?rt)"]) (simp add: Let_def)
    next
      case (Some b)
      let ?ob2 = "?ob\<lparr>ob_shape := b, ob_prop := vs2\<rparr>"
      let ?r = "put_object p ?ob2 (?rt\<lparr>shapes := (shapes ?rt)(?a := None, b \<mapsto> sh2),
        gc_shapes := remove1 ?a (gc_shapes ?rt) @ [b]\<rparr>)"
      have c4: "map entry prs2 = map entry (filter live (sh_prop sh1))"
        "take (length prs2) vs2 = live_values (sh_prop sh1) ?vs" "sh2 = sh1\<lparr>sh_prop := prs2, sh_prop_hash := tab2,
          sh_prop_hash_mask := hm2, sh_prop_size := max 2 (length prs2), sh_deleted_prop_count := 0\<rparr>"
        using c(4) Some by auto
      have bn: "shapes rt b = None" using am Some unfolding allocator_ok_def by fastforce
      then have ba: "b \<noteq> ?a" "b \<notin> set (gc_shapes rt)" using sh gc by auto
      have rep: "replaces rt p ob ?r ?ob2" using bn ba by (auto simp: replaces_def)
      have s: "shapes ?r (ob_shape ?ob2) = Some sh2" by simp
      have g: "distinct (gc_shapes ?r)" "set (gc_shapes ?r) = insert (ob_shape ?ob2) (set (gc_shapes rt) - {?a})"
        using gc ba by auto
      have f2: "sh_ref_count sh2 = 1" "\<not> sh_is_hashed sh2" using c4(3) f1 by simp_all
      have "heap_ok ?r" "\<And>q. q \<noteq> p \<Longrightarrow> props_of ?r q = props_of rt q"
        by (rule replace_heap [OF hp ob sh u rep s c(2) f2 _ _ _ g]; use c(3) in simp)+
      moreover have "objects ?r p = Some ?ob2" by simp
      from props_of_obj [OF this s] own have "props_of ?r p = filter (\<lambda>e. fst (fst e) \<noteq> at) (props_of rt p)"
        using own_props_compact [of sh2 sh1 vs2 ?vs] c4 by simp
      moreover have "released ?r = released rt @ [(ob_prop ob ! i, fl)]" by simp
      ultimately show ?thesis using s1(1) acc c(1) Some compact
        by (intro exI [of _ ?r]) (simp add: Let_def)
    qed
  qed
qed

lemma delete_property_removes:
  assumes hp: "heap_ok rt" and am: "allocator_ok am" and ob: "objects rt p = Some ob"
  shows "\<exists>rt' r. delete_property am undef p at rt = Some (rt', r) \<and> heap_ok rt' \<and>
    (\<forall>q. q \<noteq> p \<longrightarrow> props_of rt' q = props_of rt q) \<and>
    (if r = Some 1 then \<exists>fl v. prop_map (props_of rt p) at = Some (fl, v) \<and> fl AND JS_PROP_CONFIGURABLE \<noteq> 0 \<and>
       props_of rt' p = filter (\<lambda>e. fst (fst e) \<noteq> at) (props_of rt p) \<and> released rt' = released rt @ [(v, fl)]
     else props_of rt' p = props_of rt p \<and> released rt' = released rt \<and>
       (case prop_map (props_of rt p) at of None \<Rightarrow> r = None
        | Some (fl, v) \<Rightarrow> r = (if fl AND JS_PROP_CONFIGURABLE = 0 then Some 0 else Some (-1))))"
proof -
  from object_ok [OF hp ob] obtain sh where sh: "shapes rt (ob_shape ob) = Some sh" "shape_ok sh"
    "length (sh_prop sh) \<le> length (ob_prop ob)" by blast
  let ?ps = "sh_prop sh" and ?hm = "sh_prop_hash_mask sh"
  let ?h = "bucket at ?hm"
  have pm: "prop_map (props_of rt p) at = map_option (\<lambda>i. (pr_flags (?ps ! i), ob_prop ob ! i)) (find_in at ?ps (length ?ps))"
    unfolding props_of_obj [OF ob sh(1)] by (rule prop_map_find [OF sh(2,3)])
  have ch: "\<forall>i < length ?ps. live (?ps ! i) \<longrightarrow> unat (pr_hash_next (?ps ! i)) = last_in ?hm (bucket (pr_atom (?ps ! i)) ?hm) ?ps i"
    "?h < length (sh_prop_hash sh)" "unat (sh_prop_hash sh ! ?h) = last_in ?hm ?h ?ps (length ?ps)"
    using sh(2) bucket_less by (auto simp: shape_ok_def chains_ok_def)
  have rdh: "rd (sh_prop_hash sh) ?h = Some (sh_prop_hash sh ! ?h)" using ch(2) by (simp add: rd_def)
  note w = delete_walk_spec [OF ch(1) order_refl, of at None]
  show ?thesis
  proof (cases "find_in at ?ps (length ?ps)")
    case None
    then have "delete_property am undef p at rt = Some (rt, None)"
      using ob sh(1) rdh w ch(3) by (simp add: delete_property_def)
    then show ?thesis using hp pm None by simp
  next
    case (Some i)
    then have i: "i < length ?ps" "live (?ps ! i)" "pr_atom (?ps ! i) = at" using find_in_Some by blast+
    from w Some obtain lpr where l: "delete_walk ?ps at None (unat (sh_prop_hash sh ! ?h)) = Some (Some (lpr, i))"
      "leads_to ?hm ?h ?ps lpr i" unfolding leads_to_def ch(3) by auto
    let ?fl = "pr_flags (?ps ! i)"
    have pm: "prop_map (props_of rt p) at = Some (?fl, ob_prop ob ! i)" using pm Some by simp
    have rdi: "rd ?ps i = Some (?ps ! i)" using i(1) by (simp add: rd_def)
    show ?thesis
    proof (cases "?fl AND JS_PROP_CONFIGURABLE = 0")
      case True
      then have "delete_property am undef p at rt = Some (rt, Some 0)"
        using ob sh(1) rdh l(1) rdi by (simp add: delete_property_def)
      then show ?thesis using hp pm True by simp
    next
      case conf: False
      from js_shape_prepare_update_spec [OF hp am ob sh(1)] obtain rt1 r1 where
        u: "js_shape_prepare_update am p rt = Some (rt1, r1)" "heap_ok rt1" "\<And>q. props_of rt1 q = props_of rt q"
          "released rt1 = released rt" "if r1 = 0 then \<exists>b. objects rt1 p = Some (ob\<lparr>ob_shape := b\<rparr>) \<and>
           shapes rt1 b = Some (sh\<lparr>sh_ref_count := 1, sh_is_hashed := False\<rparr>) else r1 = -1" by blast
      show ?thesis
      proof (cases "r1 = 0")
        case False
        then have "delete_property am undef p at rt = Some (rt1, Some (-1))"
          using ob sh(1) rdh l(1) rdi conf u(1) by (simp add: delete_property_def)
        then show ?thesis using u(2-4) pm conf by simp
      next
        case True
        with u(5) obtain b where b: "objects rt1 p = Some (ob\<lparr>ob_shape := b\<rparr>)"
          "shapes rt1 b = Some (sh\<lparr>sh_ref_count := 1, sh_is_hashed := False\<rparr>)" by auto
        have s: "shapes rt1 (ob_shape (ob\<lparr>ob_shape := b\<rparr>)) = Some (sh\<lparr>sh_ref_count := 1, sh_is_hashed := False\<rparr>)"
          using b(2) by simp
        note e = clear_own_spec [OF u(2) am b(1) s, of i at lpr undef ?fl]
        from e obtain rt' where c: "delete_property am undef p at rt = Some (rt', Some 1)" "heap_ok rt'"
          "\<forall>q. q \<noteq> p \<longrightarrow> props_of rt' q = props_of rt1 q"
          "props_of rt' p = filter (\<lambda>e. fst (fst e) \<noteq> at) (props_of rt1 p)"
          "released rt' = released rt1 @ [(ob_prop ob ! i, ?fl)]"
          using i l(2) ob sh(1) rdh l(1) rdi conf u(1) True b
          by (simp add: delete_property_def Let_def) blast
        show ?thesis using c u(3,4) pm conf by (intro exI [of _ rt'] exI [of _ "Some 1"]) simp
      qed
    qed
  qed
qed

section \<open>Shapes by prototype\<close>

lemma find_hashed_shape_proto_spec:
  assumes hp: "heap_ok rt"
  shows "\<exists>r. find_hashed_shape_proto proto rt = Some r \<and>
    (\<forall>b. r = Some b \<longrightarrow> (\<exists>sh. shapes rt b = Some sh \<and> sh_is_hashed sh \<and> sh_proto sh = proto \<and> sh_prop sh = [])) \<and>
    (r = None \<longrightarrow> (\<forall>b sh. shapes rt b = Some sh \<longrightarrow> sh_is_hashed sh \<longrightarrow> sh_hash sh = shape_initial_hash proto \<longrightarrow>
      sh_proto sh = proto \<longrightarrow> sh_prop sh \<noteq> []))"
proof -
  let ?h = "shape_initial_hash proto"
  let ?g = "get_shape_hash ?h (shape_hash_bits rt)"
  let ?P = "\<lambda>sh1. sh_hash sh1 = ?h \<and> sh_proto sh1 = proto \<and> length (sh_prop sh1) = 0"
  have t: "table_ok (shape_hash_bits rt) (shape_hash_tab rt) (shapes rt) {}" using hp by (simp add: heap_ok_def)
  then have g: "?g < 2 ^ shape_hash_bits rt" "length (shape_hash_tab rt) = 2 ^ shape_hash_bits rt"
    using get_shape_hash_less by (simp_all add: table_ok_def)
  then have c: "set (shape_hash_tab rt ! ?g) = {b. \<exists>sh. shapes rt b = Some sh \<and> sh_is_hashed sh \<and>
      get_shape_hash (sh_hash sh) (shape_hash_bits rt) = ?g}" using t by (simp add: table_ok_def)
  then have "\<forall>b \<in> set (shape_hash_tab rt ! ?g). shapes rt b \<noteq> None" by auto
  from find_in_chain_spec [OF this, of ?P] obtain r where
    r: "find_in_chain ?P (shapes rt) (shape_hash_tab rt ! ?g) = Some r"
      "\<And>b. r = Some b \<Longrightarrow> b \<in> set (shape_hash_tab rt ! ?g) \<and> (\<exists>sh. shapes rt b = Some sh \<and> ?P sh)"
      "r = None \<Longrightarrow> \<forall>b \<in> set (shape_hash_tab rt ! ?g). \<forall>sh. shapes rt b = Some sh \<longrightarrow> \<not> ?P sh" by blast
  have "find_hashed_shape_proto proto rt = Some r"
    using g r(1) by (simp add: find_hashed_shape_proto_def rd_def Let_def)
  moreover have "\<exists>sh. shapes rt b = Some sh \<and> sh_is_hashed sh \<and> sh_proto sh = proto \<and> sh_prop sh = []" if "r = Some b" for b
    using r(2) [OF that] unfolding c by auto
  moreover have "sh_prop sh \<noteq> []" if "r = None" "shapes rt b = Some sh" "sh_is_hashed sh" "sh_hash sh = ?h" "sh_proto sh = proto" for b sh
  proof -
    have "b \<in> set (shape_hash_tab rt ! ?g)" unfolding c using that(2-4) by auto
    then show ?thesis using r(3) [OF that(1)] that(2-5) by auto
  qed
  ultimately show ?thesis by blast
qed

section \<open>Statements\<close>

text \<open>A small heap: two objects share a hashed shape with one configurable property.\<close>

definition sample_shape :: shape where
  "sample_shape = \<lparr>sh_ref_count = 2, sh_is_hashed = True, sh_has_small_array_index = False, sh_hash = 0xF0000000,
     sh_proto = 0, sh_prop_hash = [0, 0, 0, 1], sh_prop_hash_mask = 3, sh_prop_size = 2, sh_deleted_prop_count = 0,
     sh_prop = [\<lparr>pr_hash_next = 0, pr_flags = 3, pr_atom = 7\<rparr>]\<rparr>"

definition sample_heap :: "int heap" where
  "sample_heap = \<lparr>shape_hash_bits = 4, shape_hash_tab = (replicate 16 [])[15 := [5]], shape_hash_count = 1,
     shapes = [5 \<mapsto> sample_shape],
     objects = [2 \<mapsto> \<lparr>ob_shape = 5, ob_prop = [10, 0]\<rparr>, 3 \<mapsto> \<lparr>ob_shape = 5, ob_prop = [20, 0]\<rparr>],
     atom_refs = (\<lambda>_. 0), proto_refs = (\<lambda>_. 0), gc_shapes = [5], released = []\<rparr>"

definition sample_allocator :: "int allocator" where
  "sample_allocator = \<lparr>am_malloc = (\<lambda>rt. if shapes rt 6 = None then Some 6 else None), am_realloc = (\<lambda>rt a. Some a),
     am_array = (\<lambda>rt. True), am_uninit = 0\<rparr>"

lemma sample_allocator_ok: "allocator_ok sample_allocator"
  by (auto simp: allocator_ok_def sample_allocator_def)

lemma sample_shape_ok: "shape_ok sample_shape"
proof -
  have "chains_ok 3 [0, 0, 0, 1] [\<lparr>pr_hash_next = 0, pr_flags = 3, pr_atom = 7\<rparr>]"
    by code_simp
  moreover have "table_size 3 (Suc (Suc (Suc (Suc 0))))" by (auto simp: table_size_def intro!: exI [of _ 2])
  ultimately show ?thesis by (simp add: shape_ok_def sample_shape_def live_def)
qed

lemma sample_heap_ok: "heap_ok sample_heap"
proof -
  have h: "get_shape_hash 0xF0000000 4 = 15" by (simp add: get_shape_hash_def)
  have t: "table_ok 4 ((replicate 16 [])[15 := [5]]) [5 \<mapsto> sample_shape] {}"
    using h by (auto simp: table_ok_def nth_list_update sample_shape_def split: if_splits)
  have u: "users (objects sample_heap) a = (if a = 5 then {2, 3} else {})" for a
    by (auto simp: users_def sample_heap_def split: if_splits)
  have "shapes_ok (shapes sample_heap) (objects sample_heap)"
    unfolding shapes_ok_def u using sample_shape_ok by (auto simp: sample_heap_def sample_shape_def split: if_splits)
  then show ?thesis using t by (simp add: heap_ok_def sample_heap_def)
qed

lemma sample_props: "props_of sample_heap 2 = [((7, 3), 10)]" "props_of sample_heap 3 = [((7, 3), 20)]"
  by (simp_all add: props_of_def sample_heap_def own_props_def entries_def sample_shape_def live_def entry_def)

text \<open>C12: \<open>find_own_property\<close> finds exactly the properties of the object: the search of the hash chains of its shape
  ends, stays inside the table, and returns the flags and the value of the property with the atom, or nothing when
  there is none.\<close>

theorem find_own_property_correct:
  assumes "heap_ok rt" and "objects rt p = Some ob"
  shows "find_own_property p at rt = Some (prop_map (props_of rt p) at)"
  using assms by (rule find_own_property_lookup)

theorem find_own_property_correct_witness:
  "heap_ok sample_heap \<and> find_own_property 2 7 sample_heap = Some (Some (3, 10)) \<and>
    find_own_property 3 7 sample_heap = Some (Some (3, 20)) \<and> find_own_property 3 8 sample_heap = Some None"
proof -
  have o: "objects sample_heap 2 = Some \<lparr>ob_shape = 5, ob_prop = [10, 0]\<rparr>"
    "objects sample_heap 3 = Some \<lparr>ob_shape = 5, ob_prop = [20, 0]\<rparr>" by (simp_all add: sample_heap_def)
  show ?thesis
    using sample_heap_ok find_own_property_correct [OF sample_heap_ok o(1), of 7]
      find_own_property_correct [OF sample_heap_ok o(2), of 7] find_own_property_correct [OF sample_heap_ok o(2), of 8]
    by (simp add: sample_props prop_map_def)
qed

text \<open>C5: \<open>add_property\<close> on any heap: it returns, keeps the invariant (chains, hash table of shapes, reference
  counts), leaves the properties of every other object alone although they may share the shape, and either appends
  the new property with the slot of its value to the properties of the object, or, without memory, changes no
  property.  Only the case of 2 to the 26 properties is excluded.\<close>

theorem add_property_correct:
  assumes "heap_ok rt" and "allocator_ok am" and "objects rt p = Some ob" and "shapes rt (ob_shape ob) = Some sh"
    and "at \<noteq> JS_ATOM_NULL" "at \<notin> dom (prop_map (props_of rt p))" and "length (sh_prop sh) + 1 < 2 ^ 26"
  shows "\<exists>rt' r. add_property am p at fl rt = Some (rt', r) \<and> heap_ok rt' \<and>
    (\<forall>q. q \<noteq> p \<longrightarrow> props_of rt' q = props_of rt q) \<and>
    (case r of None \<Rightarrow> props_of rt' p = props_of rt p
     | Some i \<Rightarrow> \<exists>ob'. objects rt' p = Some ob' \<and> i < length (ob_prop ob') \<and>
         props_of rt' p = props_of rt p @ [((at, fl), ob_prop ob' ! i)])"
  using add_property_adds [OF assms, of fl] unfolding added_def by blast

theorem add_property_correct_witness:
  "\<exists>rt' r. add_property sample_allocator 2 9 1 sample_heap = Some (rt', r) \<and> heap_ok rt' \<and>
    props_of rt' 3 = [((7, 3), 20)] \<and>
    (case r of None \<Rightarrow> props_of rt' 2 = [((7, 3), 10)]
     | Some i \<Rightarrow> \<exists>v. props_of rt' 2 = [((7, 3), 10), ((9, 1), v)])"
proof -
  have o: "objects sample_heap 2 = Some \<lparr>ob_shape = 5, ob_prop = [10, 0]\<rparr>"
    and s: "shapes sample_heap (ob_shape \<lparr>ob_shape = 5, ob_prop = [10, 0]\<rparr>) = Some sample_shape"
    by (simp_all add: sample_heap_def)
  have n: "(9::atom) \<noteq> JS_ATOM_NULL" "9 \<notin> dom (prop_map (props_of sample_heap 2))"
    "length (sh_prop sample_shape) + 1 < 2 ^ 26" by (simp_all add: sample_props dom_prop_map sample_shape_def)
  from add_property_correct [OF sample_heap_ok sample_allocator_ok o s n, of 1] obtain rt' r where
    r: "add_property sample_allocator 2 9 1 sample_heap = Some (rt', r)" "heap_ok rt'"
      "\<forall>q. q \<noteq> 2 \<longrightarrow> props_of rt' q = props_of sample_heap q"
      "case r of None \<Rightarrow> props_of rt' 2 = props_of sample_heap 2
       | Some i \<Rightarrow> \<exists>ob'. objects rt' 2 = Some ob' \<and> i < length (ob_prop ob') \<and>
           props_of rt' 2 = props_of sample_heap 2 @ [((9, 1), ob_prop ob' ! i)]" by blast
  then have "props_of rt' 3 = [((7, 3), 20)]" by (simp add: sample_props)
  moreover have "case r of None \<Rightarrow> props_of rt' 2 = [((7, 3), 10)]
     | Some i \<Rightarrow> \<exists>v. props_of rt' 2 = [((7, 3), 10), ((9, 1), v)]"
    using r(4) by (auto simp: sample_props split: option.splits)
  ultimately show ?thesis using r(1,2) by blast
qed

text \<open>C4: \<open>delete_property\<close> on any heap: it returns without a failed assertion, keeps the invariant and every other
  object; it answers true exactly when it removed a configurable property, the list of properties then loses this
  one, and its value is released once; in every other case nothing changes and the answer tells why (not found,
  not configurable, no memory).\<close>

theorem delete_property_correct:
  assumes "heap_ok rt" and "allocator_ok am" and "objects rt p = Some ob"
  shows "\<exists>rt' r. delete_property am undef p at rt = Some (rt', r) \<and> heap_ok rt' \<and>
    (\<forall>q. q \<noteq> p \<longrightarrow> props_of rt' q = props_of rt q) \<and>
    (if r = Some 1 then \<exists>fl v. prop_map (props_of rt p) at = Some (fl, v) \<and> fl AND JS_PROP_CONFIGURABLE \<noteq> 0 \<and>
       props_of rt' p = filter (\<lambda>e. fst (fst e) \<noteq> at) (props_of rt p) \<and> released rt' = released rt @ [(v, fl)]
     else props_of rt' p = props_of rt p \<and> released rt' = released rt \<and>
       (case prop_map (props_of rt p) at of None \<Rightarrow> r = None
        | Some (fl, v) \<Rightarrow> r = (if fl AND JS_PROP_CONFIGURABLE = 0 then Some 0 else Some (-1))))"
  using assms by (rule delete_property_removes)

theorem delete_property_correct_witness:
  "\<exists>rt' r. delete_property sample_allocator 0 2 7 sample_heap = Some (rt', r) \<and> heap_ok rt' \<and>
    props_of rt' 3 = [((7, 3), 20)] \<and> r \<in> {Some 1, Some (-1)} \<and>
    (r = Some 1 \<longrightarrow> props_of rt' 2 = [] \<and> released rt' = [(10, 3)])"
proof -
  have o: "objects sample_heap 2 = Some \<lparr>ob_shape = 5, ob_prop = [10, 0]\<rparr>" by (simp add: sample_heap_def)
  have m: "prop_map (props_of sample_heap 2) 7 = Some (3, 10)" by (simp add: sample_props prop_map_def)
  have c: "(3::6 word) AND JS_PROP_CONFIGURABLE \<noteq> 0" by (simp add: JS_PROP_CONFIGURABLE_def)
  from delete_property_correct [OF sample_heap_ok sample_allocator_ok o, of 0 7] obtain rt' r where
    r: "delete_property sample_allocator 0 2 7 sample_heap = Some (rt', r)" "heap_ok rt'"
      "\<forall>q. q \<noteq> 2 \<longrightarrow> props_of rt' q = props_of sample_heap q"
      "if r = Some 1 then \<exists>fl v. prop_map (props_of sample_heap 2) 7 = Some (fl, v) \<and> fl AND JS_PROP_CONFIGURABLE \<noteq> 0 \<and>
         props_of rt' 2 = filter (\<lambda>e. fst (fst e) \<noteq> 7) (props_of sample_heap 2) \<and>
         released rt' = released sample_heap @ [(v, fl)]
       else props_of rt' 2 = props_of sample_heap 2 \<and> released rt' = released sample_heap \<and>
         (case prop_map (props_of sample_heap 2) 7 of None \<Rightarrow> r = None
          | Some (fl, v) \<Rightarrow> r = (if fl AND JS_PROP_CONFIGURABLE = 0 then Some 0 else Some (-1)))" by blast
  have "released sample_heap = []" by (simp add: sample_heap_def)
  then have "r \<in> {Some 1, Some (-1)} \<and> (r = Some 1 \<longrightarrow> props_of rt' 2 = [] \<and> released rt' = [(10, 3)])"
    using r(4) m c by (auto simp: sample_props split: if_splits)
  moreover have "props_of rt' 3 = [((7, 3), 20)]" using r(3) by (simp add: sample_props)
  ultimately show ?thesis using r(1,2) by blast
qed

text \<open>C39: a new shape: \<open>js_new_shape\<close> grows the hash table when it is half full, keeps the invariant and every
  object, gives an unused address with an empty counted shape of the prototype, and from then on
  \<open>find_hashed_shape_proto\<close> finds an empty shape of this prototype.\<close>

theorem js_new_shape_correct:
  assumes "heap_ok rt" and "allocator_ok am" and "shape_hash_bits rt < 32"
  shows "\<exists>rt' r. js_new_shape am proto rt = Some (rt', r) \<and> heap_ok rt' \<and> objects rt' = objects rt \<and>
    (\<forall>q. props_of rt' q = props_of rt q) \<and>
    (\<forall>a. r = Some a \<longrightarrow> shapes rt a = None \<and> (\<exists>sh. shapes rt' a = Some sh \<and> sh_prop sh = [] \<and> sh_proto sh = proto \<and>
        sh_ref_count sh = 1) \<and>
      (\<exists>b shb. find_hashed_shape_proto proto rt' = Some (Some b) \<and> shapes rt' b = Some shb \<and> sh_proto shb = proto \<and>
        sh_prop shb = []))"
proof -
  from js_new_shape_spec [OF assms, of proto] obtain rt' r where
    r: "js_new_shape am proto rt = Some (rt', r)" "heap_ok rt'" "objects rt' = objects rt" "\<forall>q. props_of rt' q = props_of rt q"
      "\<And>a. r = Some a \<Longrightarrow> shapes rt a = None \<and> (\<exists>sh. shapes rt' a = Some sh \<and> sh_prop sh = [] \<and> sh_proto sh = proto \<and>
        sh_ref_count sh = 1 \<and> sh_is_hashed sh \<and> sh_hash sh = shape_initial_hash proto)" by blast
  have "\<exists>b shb. find_hashed_shape_proto proto rt' = Some (Some b) \<and> shapes rt' b = Some shb \<and> sh_proto shb = proto \<and>
      sh_prop shb = []" if "r = Some a" for a
  proof -
    from find_hashed_shape_proto_spec [OF r(2), of proto] obtain f where f: "find_hashed_shape_proto proto rt' = Some f"
      "\<And>b. f = Some b \<Longrightarrow> \<exists>sh. shapes rt' b = Some sh \<and> sh_is_hashed sh \<and> sh_proto sh = proto \<and> sh_prop sh = []"
      "f = None \<Longrightarrow> \<forall>b sh. shapes rt' b = Some sh \<longrightarrow> sh_is_hashed sh \<longrightarrow> sh_hash sh = shape_initial_hash proto \<longrightarrow>
        sh_proto sh = proto \<longrightarrow> sh_prop sh \<noteq> []" by blast
    have "f \<noteq> None" using f(3) r(5) [OF that] by blast
    then show ?thesis using f(1,2) by blast
  qed
  then show ?thesis using r by blast
qed

theorem js_new_shape_correct_witness:
  "\<exists>rt' r. js_new_shape sample_allocator 77 sample_heap = Some (rt', r) \<and> heap_ok rt' \<and>
    props_of rt' 2 = [((7, 3), 10)] \<and> shape_hash_bits sample_heap < 32"
proof -
  have b: "shape_hash_bits sample_heap < 32" by (simp add: sample_heap_def)
  from js_new_shape_correct [OF sample_heap_ok sample_allocator_ok b, of 77] show ?thesis
    using b by (metis sample_props(1))
qed

end
