(* ===== verification/LineTable.thy ===== *)
theory LineTable
  imports DynBuf
begin

text \<open>
  The line number table of a function (\<open>quickjs.c\<close>): the LEB128 codec over the dynamic buffer, the slots the
  code generator records, their encoding by \<open>compute_pc2line_info\<close>, and the lookup \<open>find_line_num\<close>.  Values of
  type \<open>int\<close> are 32 bit words read with \<open>sint\<close>; sums wrap.
\<close>

unbundle bit_operations_syntax

section \<open>LEB128\<close>

lemma drop_bit_7_less: "drop_bit 7 (v :: u32) \<noteq> 0 \<Longrightarrow> unat (drop_bit 7 v) < unat v"
proof -
  assume a: "drop_bit 7 v \<noteq> 0"
  have d: "unat (drop_bit 7 v) = unat v div 128"
    using unsigned_less [of v, where 'a = nat] by (simp only: unsigned_drop_bit_eq) (simp add: take_bit_nat_eq_self drop_bit_eq_div)
  have "unat (drop_bit 7 v) \<noteq> 0" using a by (simp add: unat_eq_0)
  then show ?thesis unfolding d by (simp add: div_less_dividend)
qed

function dbuf_put_leb128 :: "dynbuf \<Rightarrow> u32 \<Rightarrow> dynbuf option" where
  "dbuf_put_leb128 s v =
     (let a = v AND 0x7f; v = drop_bit 7 v in
      if v \<noteq> 0 then do { (r, s) \<leftarrow> dbuf_putc s (ucast (a OR 0x80)); dbuf_put_leb128 s v }
      else do { (r, s) \<leftarrow> dbuf_putc s (ucast a); Some s })"
  by pat_completeness auto
termination
  by (relation "measure (\<lambda>(s, v). unat v)") (simp_all add: drop_bit_7_less)

declare dbuf_put_leb128.simps [simp del]

definition dbuf_put_sleb128 :: "dynbuf \<Rightarrow> u32 \<Rightarrow> dynbuf option" where
  "dbuf_put_sleb128 s v = dbuf_put_leb128 s ((2 * v) XOR - drop_bit 31 v)"

text \<open>The loop of \<open>get_leb128\<close>; the result is the return value and \<open>*pval\<close>.\<close>

function get_leb128_loop :: "u8 list \<Rightarrow> nat \<Rightarrow> nat \<Rightarrow> nat \<Rightarrow> nat \<Rightarrow> u32 \<Rightarrow> (int \<times> u32) option" where
  "get_leb128_loop m buf buf_end i ptr v =
     (if i < 5 then
        if ptr \<ge> buf_end then Some (-1, 0)
        else do {
          b \<leftarrow> rd m ptr;
          let a = (ucast b :: u32);
          let v = v OR push_bit (i * 7) (a AND 0x7f);
          if a AND 0x80 = 0 then Some (int (ptr + 1 - buf), v)
          else get_leb128_loop m buf buf_end (i + 1) (ptr + 1) v
        }
      else Some (-1, 0))"
  by pat_completeness auto
termination
  by (relation "measure (\<lambda>(m, buf, buf_end, i, ptr, v). 5 - i)") auto

declare get_leb128_loop.simps [simp del]

definition get_leb128 :: "u8 list \<Rightarrow> nat \<Rightarrow> nat \<Rightarrow> (int \<times> u32) option" where
  "get_leb128 m buf buf_end = get_leb128_loop m buf buf_end 0 buf 0"

definition get_sleb128 :: "u8 list \<Rightarrow> nat \<Rightarrow> nat \<Rightarrow> (int \<times> u32) option" where
  "get_sleb128 m buf buf_end = do {
     (ret, val) \<leftarrow> get_leb128 m buf buf_end;
     if ret < 0 then Some (-1, 0) else Some (ret, drop_bit 1 val XOR - (val AND 1))
   }"

section \<open>Recording and encoding\<close>

definition PC2LINE_BASE :: int where "PC2LINE_BASE = -1"
definition PC2LINE_RANGE :: int where "PC2LINE_RANGE = 5"
definition PC2LINE_OP_FIRST :: int where "PC2LINE_OP_FIRST = 1"
definition PC2LINE_DIFF_PC_MAX :: int where "PC2LINE_DIFF_PC_MAX = (255 - PC2LINE_OP_FIRST) div PC2LINE_RANGE"

record line_slot =
  sl_pc :: u32
  sl_line :: u32

record line_def =
  fd_strip :: bool
  fd_line_num :: u32
  fd_line_number_slots :: "line_slot list option"
  fd_line_number_size :: nat
  fd_line_number_last :: u32
  fd_line_number_last_pc :: u32
  fd_pc2line :: dynbuf

text \<open>The allocation of the slots before code generation; -1 without memory.  The slots in use are the list.\<close>

definition init_line_slots :: "bool \<Rightarrow> line_def \<Rightarrow> line_def \<times> int" where
  "init_line_slots alloc s =
     (if fd_line_number_size s \<noteq> 0 \<and> \<not> fd_strip s then
        if alloc then (s\<lparr>fd_line_number_slots := Some [], fd_line_number_last := fd_line_num s, fd_line_number_last_pc := 0\<rparr>, 0)
        else (s\<lparr>fd_line_number_slots := None\<rparr>, -1)
      else (s, 0))"

definition add_pc2line_info :: "u32 \<Rightarrow> u32 \<Rightarrow> line_def \<Rightarrow> line_def" where
  "add_pc2line_info pc line_num s = (case fd_line_number_slots s of
     None \<Rightarrow> s
   | Some sls \<Rightarrow>
       if length sls < fd_line_number_size s \<and> pc \<ge> fd_line_number_last_pc s \<and> line_num \<noteq> fd_line_number_last s
       then s\<lparr>fd_line_number_slots := Some (sls @ [\<lparr>sl_pc = pc, sl_line = line_num\<rparr>]),
         fd_line_number_last_pc := pc, fd_line_number_last := line_num\<rparr>
       else s)"

text \<open>One entry of the table, in the short form of one byte or in the long form.\<close>

definition put_line_entry :: "u32 \<Rightarrow> u32 \<Rightarrow> dynbuf \<Rightarrow> dynbuf option" where
  "put_line_entry diff_pc diff_line d =
     (if sint diff_line \<ge> PC2LINE_BASE \<and> sint diff_line < PC2LINE_BASE + PC2LINE_RANGE \<and>
        sint diff_pc \<le> PC2LINE_DIFF_PC_MAX
      then do {
        (r, d) \<leftarrow> dbuf_putc d (word_of_int ((sint diff_line - PC2LINE_BASE) + sint diff_pc * PC2LINE_RANGE + PC2LINE_OP_FIRST));
        Some d
      } else do {
        (r, d) \<leftarrow> dbuf_putc d 0;
        d \<leftarrow> dbuf_put_leb128 d diff_pc;
        dbuf_put_sleb128 d diff_line
      })"

fun pc2line_loop :: "line_slot list \<Rightarrow> u32 \<Rightarrow> u32 \<Rightarrow> dynbuf \<Rightarrow> dynbuf option" where
  "pc2line_loop [] last_pc last_line_num d = Some d"
| "pc2line_loop (sl # sls) last_pc last_line_num d =
     (let pc = sl_pc sl; line_num = sl_line sl in
      if sint line_num < 0 then pc2line_loop sls last_pc last_line_num d
      else
        let diff_pc = pc - last_pc; diff_line = line_num - last_line_num in
        if diff_line = 0 \<or> sint diff_pc < 0 then pc2line_loop sls last_pc last_line_num d
        else do {
          d \<leftarrow> put_line_entry diff_pc diff_line d;
          pc2line_loop sls pc line_num d
        })"

definition compute_pc2line_info :: "realloc_fun \<Rightarrow> line_def \<Rightarrow> line_def option" where
  "compute_pc2line_info js_realloc_rt s = (case fd_line_number_slots s of
     Some sls \<Rightarrow>
       if \<not> fd_strip s then do {
         d \<leftarrow> pc2line_loop sls 0 (fd_line_num s) (dbuf_init2 js_realloc_rt (Some js_realloc_rt));
         Some (s\<lparr>fd_pc2line := d\<rparr>)
       } else Some s
   | None \<Rightarrow> Some s)"

section \<open>Lookup\<close>

record line_debug =
  has_debug :: bool
  dbg_line_num :: u32
  dbg_pc2line_buf :: "u8 list option"

text \<open>One entry at \<open>p\<close>: the new position, program counter and line; \<open>None\<close> inside is the jump to \<open>fail\<close>.\<close>

definition get_line_entry :: "u8 list \<Rightarrow> nat \<Rightarrow> nat \<Rightarrow> u32 \<Rightarrow> u32 \<Rightarrow> (nat \<times> u32 \<times> u32) option option" where
  "get_line_entry m p_end p pc line_num = do {
     b \<leftarrow> rd m p;
     let p = p + 1;
     if b = 0 then do {
       (ret, val) \<leftarrow> get_leb128 m p p_end;
       if ret < 0 then Some None
       else do {
         let pc = pc + val;
         let p = p + nat ret;
         (ret, v) \<leftarrow> get_sleb128 m p p_end;
         if ret < 0 then Some None else Some (Some (p + nat ret, pc, line_num + v))
       }
     } else
       let a = uint b - PC2LINE_OP_FIRST in
       Some (Some (p, pc + word_of_int (a div PC2LINE_RANGE),
         line_num + word_of_int (a mod PC2LINE_RANGE) + word_of_int PC2LINE_BASE))
   }"

partial_function (option) find_line_loop ::
    "u8 list \<Rightarrow> nat \<Rightarrow> u32 \<Rightarrow> u32 \<Rightarrow> nat \<Rightarrow> u32 \<Rightarrow> u32 \<Rightarrow> u32 option" where
  "find_line_loop m p_end line0 pc_value p pc line_num =
     (if p < p_end then do {
        r \<leftarrow> get_line_entry m p_end p pc line_num;
        case r of
          None \<Rightarrow> Some line0
        | Some (p, pc, new_line_num) \<Rightarrow>
            if pc_value < pc then Some line_num
            else find_line_loop m p_end line0 pc_value p pc new_line_num
      } else Some line_num)"

definition find_line_num :: "line_debug \<Rightarrow> u32 \<Rightarrow> u32 option" where
  "find_line_num b pc_value =
     (if \<not> has_debug b then Some (-1)
      else case dbg_pc2line_buf b of
        None \<Rightarrow> Some (-1)
      | Some m \<Rightarrow> find_line_loop m (length m) (dbg_line_num b) pc_value 0 0 (dbg_line_num b))"

end
