(* ===== verification/LineTableProps.thy ===== *)
theory LineTableProps
  imports LineTable
begin

text \<open>
  The line number table: the codec round trips, the lookup ends for every buffer without leaving it, and
  recording, encoding and lookup together give the line of the last recorded position.
\<close>

section \<open>Bytes in the buffer\<close>

definition writes :: "dynbuf \<Rightarrow> u8 list \<Rightarrow> dynbuf \<Rightarrow> bool" where
  "writes s bs s' \<longleftrightarrow> dbuf_ok s' \<and> db_size s' \<le> db_size s + length bs \<and> (db_error s \<longrightarrow> db_error s') \<and>
     (\<not> db_error s' \<longrightarrow> dbuf_bytes s' = dbuf_bytes s @ bs)"

lemma writes_trans: "writes s xs s1 \<Longrightarrow> writes s1 ys s2 \<Longrightarrow> writes s (xs @ ys) s2"
  by (auto simp: writes_def)

lemma dbuf_putc_writes:
  assumes "dbuf_ok s" and "db_size s + 1 < SIZE_MOD"
  shows "\<exists>r s'. dbuf_putc s c = Some (r, s') \<and> writes s [c] s'"
proof -
  from dbuf_put_appended [OF assms(1), of "[c]"] assms(2) obtain r s' where
    "dbuf_put s [c] = Some (r, s')" and a: "appended s [c] r s'" by auto
  moreover have ok: "dbuf_ok s'" using a by (simp add: appended_def)
  have "length (dbuf_bytes s') \<le> length (dbuf_bytes s) + 1"
    using a by (auto simp: appended_def simp del: length_dbuf_bytes)
  then have "db_size s' \<le> db_size s + 1"
    unfolding length_dbuf_bytes [OF ok] length_dbuf_bytes [OF assms(1)] .
  then have "writes s [c] s'" using a by (auto simp: appended_def writes_def)
  ultimately show ?thesis by (simp add: dbuf_putc_def)
qed

section \<open>LEB128\<close>

function leb128 :: "u32 \<Rightarrow> u8 list" where
  "leb128 v = (if drop_bit 7 v \<noteq> 0 then ucast ((v AND 0x7f) OR 0x80) # leb128 (drop_bit 7 v) else [ucast (v AND 0x7f)])"
  by pat_completeness auto
termination
  by (relation "measure unat") (simp_all add: drop_bit_7_less)

declare leb128.simps [simp del]

definition sleb128 :: "u32 \<Rightarrow> u8 list" where
  "sleb128 v = leb128 ((2 * v) XOR - drop_bit 31 v)"

lemma leb128_size:
  assumes "drop_bit (7 * n) v = 0"
  shows "length (leb128 v) \<le> max 1 n"
  using assms
proof (induction v arbitrary: n rule: leb128.induct)
  case (1 v)
  show ?case
  proof (cases "drop_bit 7 v = 0")
    case False
    then obtain k where n: "n = Suc k" "k \<noteq> 0" using "1.prems" by (cases n; cases "n - 1") auto
    have "drop_bit (7 * k) (drop_bit 7 v) = 0" using "1.prems" n by (simp add: add.commute)
    from "1.IH" [OF False this] show ?thesis using False n by (subst leb128.simps) simp
  qed (subst leb128.simps, simp)
qed

lemma leb128_5: "length (leb128 v) \<le> 5"
proof -
  have "drop_bit (7 * 5) v = 0" by (rule bit_eqI) (auto simp: bit_simps dest: bit_imp_le_length)
  from leb128_size [OF this] show ?thesis by simp
qed

lemma leb128_nonempty: "leb128 v \<noteq> []"
  by (subst leb128.simps) simp

lemma dbuf_put_leb128_writes:
  assumes "dbuf_ok s" and "db_size s + length (leb128 v) < SIZE_MOD"
  shows "\<exists>s'. dbuf_put_leb128 s v = Some s' \<and> writes s (leb128 v) s'"
  using assms
proof (induction v arbitrary: s rule: leb128.induct)
  case (1 v)
  have len: "0 < length (leb128 v)" using leb128_nonempty by simp
  show ?case
  proof (cases "drop_bit 7 v = 0")
    case True
    from dbuf_putc_writes [OF "1.prems"(1), of "ucast (v AND 0x7f)"] "1.prems"(2) len obtain r s' where
      "dbuf_putc s (ucast (v AND 0x7f)) = Some (r, s')" "writes s [ucast (v AND 0x7f)] s'" by auto
    then show ?thesis using True by (subst dbuf_put_leb128.simps, subst leb128.simps) (simp add: Let_def)
  next
    case False
    have e: "leb128 v = ucast ((v AND 0x7f) OR 0x80) # leb128 (drop_bit 7 v)" using False by (subst leb128.simps) simp
    from dbuf_putc_writes [OF "1.prems"(1), of "ucast ((v AND 0x7f) OR 0x80)"] "1.prems"(2) len obtain r s1 where
      p: "dbuf_putc s (ucast ((v AND 0x7f) OR 0x80)) = Some (r, s1)" "writes s [ucast ((v AND 0x7f) OR 0x80)] s1" by auto
    then have "dbuf_ok s1" "db_size s1 + length (leb128 (drop_bit 7 v)) < SIZE_MOD"
      using "1.prems"(2) e by (auto simp: writes_def)
    from "1.IH" [OF False this] obtain s2 where
      "dbuf_put_leb128 s1 (drop_bit 7 v) = Some s2" "writes s1 (leb128 (drop_bit 7 v)) s2" by blast
    then show ?thesis using False p writes_trans [OF p(2)] e
      by (subst dbuf_put_leb128.simps) (simp add: Let_def)
  qed
qed

lemma and_127: "(v :: u32) AND 0x7f = take_bit 7 v"
  by (simp add: take_bit_eq_mask mask_eq_exp_minus_1)

lemma byte_low: "ucast (ucast w :: u8) AND 0x7f = (w AND 0x7f :: u32)"
  unfolding and_127 by (rule bit_eqI) (auto simp: bit_simps)

lemma byte_high: "(ucast (ucast w :: u8) :: u32) AND 0x80 = 0 \<longleftrightarrow> \<not> bit (w :: u32) 7"
proof -
  have "(ucast (ucast w :: u8) :: u32) AND 2 ^ 7 = 0 \<longleftrightarrow> \<not> bit (ucast (ucast w :: u8) :: u32) 7"
    by (rule and_exp_eq_0_iff_not_bit)
  then show ?thesis by (simp add: bit_simps)
qed

lemma low_or_high: "((w AND 0x7f) OR 0x80) AND 0x7f = (w AND 0x7f :: u32)" "bit ((w AND 0x7f) OR 0x80 :: u32) 7"
  "\<not> bit (w AND 0x7f :: u32) 7"
proof -
  have h: "(0x80 :: u32) = push_bit 7 1" by simp
  show "((w AND 0x7f) OR 0x80) AND 0x7f = (w AND 0x7f :: u32)"
    unfolding and_127 h by (rule bit_eqI) (auto simp: bit_simps)
  show "bit ((w AND 0x7f) OR 0x80 :: u32) 7" unfolding h by (simp add: bit_simps)
  show "\<not> bit (w AND 0x7f :: u32) 7" unfolding and_127 by (simp add: bit_simps)
qed

lemma get_leb128_loop_reads:
  assumes "v = drop_bit (7 * i) x" and "i < 5" and "take (length (leb128 v)) (drop ptr m) = leb128 v"
    and "ptr + length (leb128 v) \<le> buf_end" "buf_end \<le> length m" "buf \<le> ptr"
  shows "get_leb128_loop m buf buf_end i ptr (take_bit (7 * i) x) = Some (int (ptr + length (leb128 v) - buf), x)"
  using assms
proof (induction v arbitrary: i ptr rule: leb128.induct)
  case (1 v)
  let ?b = "if drop_bit 7 v \<noteq> 0 then (v AND 0x7f) OR 0x80 else v AND 0x7f"
  have e: "leb128 v = ucast ?b # (if drop_bit 7 v \<noteq> 0 then leb128 (drop_bit 7 v) else [])"
    by (subst leb128.simps) simp
  have p: "ptr < buf_end" "ptr < length m" using "1.prems"(4,5) leb128_nonempty [of v] by (cases "leb128 v"; simp)+
  have d: "drop ptr m = m ! ptr # drop (Suc ptr) m" using p(2) by (simp add: Cons_nth_drop_Suc)
  have b: "rd m ptr = Some (ucast ?b)" using "1.prems"(3) p(2) unfolding d e by (simp add: rd_def)
  have low: "ucast (ucast ?b :: u8) AND 0x7f = (v AND 0x7f :: u32)" unfolding byte_low using low_or_high(1) by simp
  have acc: "take_bit (7 * i) x OR push_bit (i * 7) (v AND 0x7f) = take_bit (7 * (i + 1)) x"
    unfolding and_127 "1.prems"(1) by (rule bit_eqI) (auto simp: bit_simps)
  have high: "(ucast (ucast ?b :: u8) :: u32) AND 0x80 = 0 \<longleftrightarrow> drop_bit 7 v = 0"
    unfolding byte_high using low_or_high(2,3) by simp
  have nx: "drop_bit 7 v = drop_bit (7 * (i + 1)) x" using "1.prems"(1) by (simp add: add.commute)
  have st: "get_leb128_loop m buf buf_end i ptr (take_bit (7 * i) x) =
      (if drop_bit 7 v = 0 then Some (int (ptr + 1 - buf), take_bit (7 * (i + 1)) x)
       else get_leb128_loop m buf buf_end (i + 1) (ptr + 1) (take_bit (7 * (i + 1)) x))"
  proof -
    have "\<not> buf_end \<le> ptr" using p(1) by simp
    then show ?thesis using "1.prems"(2)
      by (subst get_leb128_loop.simps) (simp only: if_True if_False b bind.bind_lunit Let_def low acc high)
  qed
  show ?case
  proof (cases "drop_bit 7 v = 0")
    case True
    have "take_bit (7 * (i + 1)) x = x"
      using bits_ident [of "7 * (i + 1)" x] True unfolding nx by simp
    then show ?thesis unfolding st using True e by simp
  next
    case False
    have "7 * (i + 1) < 32"
    proof (rule ccontr)
      assume "\<not> 7 * (i + 1) < 32"
      then have "drop_bit (7 * (i + 1)) x = 0" by (intro bit_eqI) (auto simp: bit_simps dest!: bit_imp_le_length)
      then show False using False nx by simp
    qed
    then have i: "i + 1 < 5" by simp
    have "take (length (leb128 (drop_bit 7 v))) (drop (ptr + 1) m) = leb128 (drop_bit 7 v)"
      using "1.prems"(3) False unfolding d e by simp
    from "1.IH" [OF False nx i this] "1.prems"(4-6) show ?thesis unfolding st using False e by simp
  qed
qed

lemma get_leb128_reads:
  assumes "take (length (leb128 v)) (drop p m) = leb128 v" and "p + length (leb128 v) \<le> p_end" "p_end \<le> length m"
  shows "get_leb128 m p p_end = Some (int (length (leb128 v)), v)"
  using get_leb128_loop_reads [of v 0 v p m p_end p] assms by (simp add: get_leb128_def)

lemma zigzag: "drop_bit 1 ((2 * v) XOR - drop_bit 31 v) XOR - (((2 * v) XOR - drop_bit 31 v) AND 1) = (v :: u32)"
proof -
  have d: "2 * v = push_bit 1 v" by (simp add: push_bit_eq_mult)
  show ?thesis
  proof (cases "bit v 31")
    case True
    have s: "drop_bit 31 v = 1"
    proof (rule bit_eqI)
      fix n show "bit (drop_bit 31 v) n = bit 1 n"
        using True by (cases "n = 0") (auto simp: bit_simps dest!: bit_imp_le_length)
    qed
    have o: "(push_bit 1 v XOR -1) AND 1 = 1"
    proof (rule bit_eqI)
      fix n show "bit ((push_bit 1 v XOR -1) AND 1) n = bit 1 n"
        by (simp only: bit_and_iff bit_xor_iff bit_push_bit_iff bit_1_iff bit_minus_1_iff) auto
    qed
    show ?thesis unfolding d s o
    proof (rule bit_eqI)
      fix n assume "possible_bit TYPE(u32) n"
      then have n: "n < 32" by (simp add: possible_bit_word)
      show "bit (drop_bit 1 (push_bit 1 v XOR - 1) XOR - 1) n = bit v n"
        unfolding bit_xor_iff bit_drop_bit_eq bit_push_bit_iff comp_def bit_minus_1_iff possible_bit_word
        using n True by (cases "n = 31") auto
    qed
  next
    case False
    have s: "drop_bit 31 v = 0"
    proof (rule bit_eqI)
      fix n show "bit (drop_bit 31 v) n = bit 0 n"
        using False by (cases "n = 0") (auto simp: bit_simps dest!: bit_imp_le_length)
    qed
    have o: "(push_bit 1 v XOR - 0) AND 1 = 0"
    proof (rule bit_eqI)
      fix n show "bit ((push_bit 1 v XOR - 0) AND 1) n = bit 0 n"
        by (simp only: bit_and_iff bit_xor_iff bit_push_bit_iff bit_1_iff minus_zero bit_0_eq bot_apply) auto
    qed
    show ?thesis unfolding d s o
    proof (rule bit_eqI)
      fix n assume "possible_bit TYPE(u32) n"
      then have n: "n < 32" by (simp add: possible_bit_word)
      show "bit (drop_bit 1 (push_bit 1 v XOR - 0) XOR - 0) n = bit v n"
        unfolding bit_xor_iff bit_drop_bit_eq bit_push_bit_iff comp_def minus_zero bit_0_eq bot_apply possible_bit_word
        using n False by (cases "n = 31") auto
    qed
  qed
qed

lemma get_sleb128_reads:
  assumes "take (length (sleb128 v)) (drop p m) = sleb128 v" and "p + length (sleb128 v) \<le> p_end" "p_end \<le> length m"
  shows "get_sleb128 m p p_end = Some (int (length (sleb128 v)), v)"
  using get_leb128_reads [OF assms [unfolded sleb128_def]] zigzag [of v]
  by (simp add: get_sleb128_def sleb128_def)

section \<open>Entries\<close>

lemmas pc2line_consts = PC2LINE_BASE_def PC2LINE_RANGE_def PC2LINE_OP_FIRST_def PC2LINE_DIFF_PC_MAX_def

definition short_entry :: "u32 \<Rightarrow> u32 \<Rightarrow> bool" where
  "short_entry dp dl \<longleftrightarrow> -1 \<le> sint dl \<and> sint dl < 4 \<and> sint dp \<le> 50"

definition entry_bytes :: "u32 \<Rightarrow> u32 \<Rightarrow> u8 list" where
  "entry_bytes dp dl = (if short_entry dp dl then [word_of_int (sint dl + 1 + sint dp * 5 + 1)]
     else 0 # leb128 dp @ sleb128 dl)"

lemma entry_bytes_size: "length (entry_bytes dp dl) \<le> 11"
  using leb128_5 [of dp] leb128_5 [of "(2 * dl) XOR - drop_bit 31 dl"] by (simp add: entry_bytes_def sleb128_def)

lemma put_line_entry_writes:
  assumes "dbuf_ok s" and "db_size s + length (entry_bytes dp dl) < SIZE_MOD"
  shows "\<exists>s'. put_line_entry dp dl s = Some s' \<and> writes s (entry_bytes dp dl) s'"
proof (cases "short_entry dp dl")
  case True
  let ?b = "word_of_int (sint dl + 1 + sint dp * 5 + 1) :: u8"
  from dbuf_putc_writes [OF assms(1), of ?b] assms(2) True obtain r s' where
    "dbuf_putc s ?b = Some (r, s')" "writes s [?b] s'" by (auto simp: entry_bytes_def)
  then show ?thesis using True by (simp add: put_line_entry_def entry_bytes_def short_entry_def pc2line_consts)
next
  case False
  then have len: "db_size s + (1 + length (leb128 dp) + length (sleb128 dl)) < SIZE_MOD"
    using assms(2) by (simp add: entry_bytes_def)
  then have "db_size s + 1 < SIZE_MOD" by simp
  from dbuf_putc_writes [OF assms(1) this, of 0] obtain r s1 where
    s1: "dbuf_putc s 0 = Some (r, s1)" "writes s [0] s1" by auto
  then have "dbuf_ok s1" "db_size s1 + length (leb128 dp) < SIZE_MOD" using len by (auto simp: writes_def)
  from dbuf_put_leb128_writes [OF this] obtain s2 where
    s2: "dbuf_put_leb128 s1 dp = Some s2" "writes s1 (leb128 dp) s2" by blast
  then have "dbuf_ok s2" "db_size s2 + length (sleb128 dl) < SIZE_MOD" using s1(2) len by (auto simp: writes_def)
  from dbuf_put_leb128_writes [OF this [unfolded sleb128_def]] obtain s3 where
    s3: "dbuf_put_sleb128 s2 dl = Some s3" "writes s2 (sleb128 dl) s3" by (auto simp: dbuf_put_sleb128_def sleb128_def)
  have "writes s ([0] @ leb128 dp @ sleb128 dl) s3"
    using writes_trans [OF s1(2) writes_trans [OF s2(2) s3(2)]] .
  then show ?thesis using False s1(1) s2(1) s3(1)
    by (auto simp: put_line_entry_def entry_bytes_def short_entry_def pc2line_consts)
qed

lemma get_line_entry_reads:
  assumes m: "take (length (entry_bytes dp dl)) (drop p m) = entry_bytes dp dl" and p: "p + length (entry_bytes dp dl) \<le> length m"
    and dp: "0 \<le> sint dp"
  shows "get_line_entry m (length m) p pc ln = Some (Some (p + length (entry_bytes dp dl), pc + dp, ln + dl))"
proof (cases "short_entry dp dl")
  case True
  let ?n = "sint dl + 1 + sint dp * 5 + 1"
  have n: "1 \<le> ?n" "?n < 256" using True dp by (auto simp: short_entry_def)
  have pl: "p < length m" using p True by (simp add: entry_bytes_def)
  have b: "rd m p = Some (word_of_int ?n)"
    using m pl True by (simp add: entry_bytes_def rd_def Cons_nth_drop_Suc [symmetric])
  have u: "uint (word_of_int ?n :: u8) = ?n" unfolding uint_word_of_int using n by simp
  then have nz: "(word_of_int ?n :: u8) \<noteq> 0" using n(1) by (metis not_one_le_zero unsigned_0)
  have "(a + q * 5 + 1 - 1) div 5 = q \<and> (a + q * 5 + 1 - 1) mod 5 = a" if "0 \<le> a" "a < 5" for a q :: int
    using that by presburger
  from this [of "sint dl + 1" "sint dp"] have dm: "(?n - 1) div 5 = sint dp" "(?n - 1) mod 5 = sint dl + 1"
    using True unfolding short_entry_def by linarith+
  have "get_line_entry m (length m) p pc ln = Some (Some (p + 1, pc + word_of_int (sint dp),
      ln + word_of_int (sint dl + 1) + word_of_int (-1)))"
    using b nz unfolding get_line_entry_def pc2line_consts
    by (simp only: bind.bind_lunit Let_def if_False u dm)
  then show ?thesis using True by (simp add: entry_bytes_def)
next
  case False
  have d: "drop p m = m ! p # drop (Suc p) m" using p False by (simp add: entry_bytes_def Cons_nth_drop_Suc)
  have b: "rd m p = Some 0" and l: "take (length (leb128 dp)) (drop (p + 1) m) = leb128 dp"
    and s: "take (length (sleb128 dl)) (drop (p + 1 + length (leb128 dp)) m) = sleb128 dl"
  proof -
    have "take (length (leb128 dp) + length (sleb128 dl)) (drop (p + 1) m) = leb128 dp @ sleb128 dl"
      using m False unfolding d by (simp add: entry_bytes_def)
    then have e: "take (length (leb128 dp)) (drop (p + 1) m) @ take (length (sleb128 dl)) (drop (p + 1 + length (leb128 dp)) m)
        = leb128 dp @ sleb128 dl" by (simp add: take_add add.commute)
    have "length (take (length (leb128 dp)) (drop (p + 1) m)) = length (leb128 dp)"
      using p False by (simp add: entry_bytes_def)
    then show "take (length (leb128 dp)) (drop (p + 1) m) = leb128 dp"
      "take (length (sleb128 dl)) (drop (p + 1 + length (leb128 dp)) m) = sleb128 dl" using e append_eq_append_conv by blast+
    show "rd m p = Some 0" using m p False unfolding d by (simp add: entry_bytes_def rd_def)
  qed
  have "p + 1 + length (leb128 dp) \<le> length m" "p + 1 + length (leb128 dp) + length (sleb128 dl) \<le> length m"
    using p False by (simp_all add: entry_bytes_def)
  then show ?thesis using get_leb128_reads [OF l _ order_refl] get_sleb128_reads [OF s _ order_refl] b False
    by (simp add: get_line_entry_def entry_bytes_def Let_def)
qed

section \<open>The table\<close>

fun pc2line_bytes :: "line_slot list \<Rightarrow> u32 \<Rightarrow> u32 \<Rightarrow> u8 list" where
  "pc2line_bytes [] last_pc last_line_num = []"
| "pc2line_bytes (sl # sls) last_pc last_line_num =
     (if sint (sl_line sl) < 0 \<or> sl_line sl - last_line_num = 0 \<or> sint (sl_pc sl - last_pc) < 0
      then pc2line_bytes sls last_pc last_line_num
      else entry_bytes (sl_pc sl - last_pc) (sl_line sl - last_line_num) @ pc2line_bytes sls (sl_pc sl) (sl_line sl))"

lemma pc2line_bytes_size: "length (pc2line_bytes sls lp ll) \<le> 11 * length sls"
proof (induction sls arbitrary: lp ll)
  case (Cons sl sls)
  have "length (pc2line_bytes sls lp ll) \<le> 11 * length sls"
    "length (pc2line_bytes sls (sl_pc sl) (sl_line sl)) \<le> 11 * length sls"
    "length (entry_bytes (sl_pc sl - lp) (sl_line sl - ll)) \<le> 11" by (rule Cons.IH entry_bytes_size)+
  then show ?case by simp
qed simp

lemma pc2line_loop_writes:
  assumes "dbuf_ok d" and "db_size d + 11 * length sls < SIZE_MOD"
  shows "\<exists>d'. pc2line_loop sls lp ll d = Some d' \<and> writes d (pc2line_bytes sls lp ll) d'"
  using assms
proof (induction sls arbitrary: d lp ll)
  case Nil
  then show ?case by (simp add: writes_def)
next
  case (Cons sl sls)
  let ?dp = "sl_pc sl - lp" and ?dl = "sl_line sl - ll"
  show ?case
  proof (cases "sint (sl_line sl) < 0 \<or> ?dl = 0 \<or> sint ?dp < 0")
    case True
    have "pc2line_loop (sl # sls) lp ll d = pc2line_loop sls lp ll d" using True by (auto simp: Let_def)
    moreover have "pc2line_bytes (sl # sls) lp ll = pc2line_bytes sls lp ll" using True by simp
    ultimately show ?thesis using Cons.IH [OF Cons.prems(1), of lp ll] Cons.prems(2) by simp
  next
    case False
    have "db_size d + length (entry_bytes ?dp ?dl) < SIZE_MOD"
      using Cons.prems(2) entry_bytes_size [of ?dp ?dl] by simp
    from put_line_entry_writes [OF Cons.prems(1) this] obtain d1 where
      d1: "put_line_entry ?dp ?dl d = Some d1" "writes d (entry_bytes ?dp ?dl) d1" by blast
    then have "dbuf_ok d1" "db_size d1 + 11 * length sls < SIZE_MOD"
      using Cons.prems(2) entry_bytes_size [of ?dp ?dl] by (auto simp: writes_def)
    from Cons.IH [OF this] obtain d2 where
      d2: "pc2line_loop sls (sl_pc sl) (sl_line sl) d1 = Some d2" "writes d1 (pc2line_bytes sls (sl_pc sl) (sl_line sl)) d2" by blast
    have "pc2line_loop (sl # sls) lp ll d = Some d2" using False d1(1) d2(1) by (simp add: Let_def)
    moreover have "pc2line_bytes (sl # sls) lp ll = entry_bytes ?dp ?dl @ pc2line_bytes sls (sl_pc sl) (sl_line sl)"
      using False by simp
    ultimately show ?thesis using writes_trans [OF d1(2) d2(2)] by simp
  qed
qed

text \<open>The reference: the line of the last slot that does not lie behind the position.\<close>

definition line_at :: "u32 \<Rightarrow> line_slot list \<Rightarrow> u32 \<Rightarrow> u32" where
  "line_at pc sls l = fold (\<lambda>sl l. if sl_pc sl \<le> pc then sl_line sl else l) sls l"

lemma line_at_simps [simp]: "line_at pc [] l = l"
  "line_at pc (sl # sls) l = line_at pc sls (if sl_pc sl \<le> pc then sl_line sl else l)"
  by (simp_all add: line_at_def)

lemma line_at_append: "line_at pc (as @ bs) l = line_at pc bs (line_at pc as l)"
  by (simp add: line_at_def)

lemma line_at_before: "(\<And>sl. sl \<in> set sls \<Longrightarrow> pc < sl_pc sl) \<Longrightarrow> line_at pc sls l = l"
  by (induction sls) (auto simp: not_le [symmetric])

text \<open>Positions in order, within the range of \<open>int\<close>.\<close>

fun slots_ok :: "u32 \<Rightarrow> line_slot list \<Rightarrow> bool" where
  "slots_ok lp [] = True"
| "slots_ok lp (sl # sls) = (lp \<le> sl_pc sl \<and> sl_pc sl < 0x80000000 \<and> 0 \<le> sint (sl_line sl) \<and> slots_ok (sl_pc sl) sls)"

lemma slots_ok_mem: "slots_ok lp sls \<Longrightarrow> sl \<in> set sls \<Longrightarrow> lp \<le> sl_pc sl"
  by (induction sls arbitrary: lp) fastforce+

lemma slots_ok_mono: "slots_ok lp sls \<Longrightarrow> lq \<le> lp \<Longrightarrow> slots_ok lq sls"
  by (cases sls) auto

lemma sint_diff_nonneg:
  assumes "(a :: u32) \<le> b" and "b < 0x80000000"
  shows "0 \<le> sint (b - a)"
proof -
  have "uint (b - a) \<le> uint b" using assms(1) by (simp add: uint_sub_if' word_le_def)
  moreover have "uint b < 2 ^ 31" using assms(2) by (simp add: word_less_def)
  ultimately have "uint (b - a) < 2 ^ 31" by simp
  then have "sint (b - a) = uint (b - a)"
    by (simp add: sint_uint signed_take_bit_int_eq_self order_trans [OF _ uint_ge_0])
  then show ?thesis by simp
qed

text \<open>Looking up in an encoded table.\<close>

lemma find_line_loop_reads:
  assumes "slots_ok lp sls" and "drop p m = pc2line_bytes sls lp ll" and "p \<le> length m"
  shows "find_line_loop m (length m) line0 pc p lp ll = Some (line_at pc sls ll)"
  using assms
proof (induction sls arbitrary: p lp ll)
  case Nil
  then show ?case by (subst find_line_loop.simps) simp
next
  case (Cons sl sls)
  let ?dp = "sl_pc sl - lp" and ?dl = "sl_line sl - ll"
  have ok: "lp \<le> sl_pc sl" "0 \<le> sint (sl_line sl)" "slots_ok (sl_pc sl) sls" "0 \<le> sint ?dp"
    using Cons.prems(1) sint_diff_nonneg by auto
  show ?case
  proof (cases "?dl = 0")
    case True
    then have ll: "sl_line sl = ll" by simp
    have "slots_ok lp sls" using slots_ok_mono [OF ok(3,1)] .
    moreover have "drop p m = pc2line_bytes sls lp ll" using Cons.prems(2) True by simp
    ultimately have "find_line_loop m (length m) line0 pc p lp ll = Some (line_at pc sls ll)"
      using Cons.prems(3) by (rule Cons.IH)
    then show ?thesis using ll by simp
  next
    case False
    then have d: "drop p m = entry_bytes ?dp ?dl @ pc2line_bytes sls (sl_pc sl) (sl_line sl)"
      using Cons.prems(2) ok by simp
    then have len: "length m - p = length (entry_bytes ?dp ?dl) + length (pc2line_bytes sls (sl_pc sl) (sl_line sl))"
      by (metis length_append length_drop)
    have ne: "entry_bytes ?dp ?dl \<noteq> []" by (simp add: entry_bytes_def)
    then have "0 < length (entry_bytes ?dp ?dl)" by simp
    then have p: "p < length m" "p + length (entry_bytes ?dp ?dl) \<le> length m" using len by linarith+
    have "take (length (entry_bytes ?dp ?dl)) (drop p m) = entry_bytes ?dp ?dl" unfolding d by simp
    from get_line_entry_reads [OF this p(2) ok(4), of lp ll] have
      g: "get_line_entry m (length m) p lp ll = Some (Some (p + length (entry_bytes ?dp ?dl), sl_pc sl, sl_line sl))" by simp
    show ?thesis
    proof (cases "pc < sl_pc sl")
      case True
      have "line_at pc (sl # sls) ll = ll"
        by (rule line_at_before) (use True slots_ok_mem [OF ok(3)] in \<open>auto intro: less_le_trans\<close>)
      then show ?thesis using p(1) g True by (subst find_line_loop.simps) simp
    next
      case False
      then have le: "(pc < sl_pc sl) = False" "(sl_pc sl \<le> pc) = True" by auto
      have "drop (p + length (entry_bytes ?dp ?dl)) m = pc2line_bytes sls (sl_pc sl) (sl_line sl)"
        using d by (metis add.commute append_eq_conv_conj drop_drop)
      from Cons.IH [OF ok(3) this p(2)] show ?thesis using p(1) g le by (subst find_line_loop.simps) simp
    qed
  qed
qed

section \<open>Recording\<close>

text \<open>Slots may only be left out where the line does not change.\<close>

lemma add_pc2line_info_records:
  assumes "fd_line_number_slots s = Some sls" and "length sls + length calls \<le> fd_line_number_size s"
    and "slots_ok (fd_line_number_last_pc s) calls"
  shows "\<exists>ts s'. fold (\<lambda>sl. add_pc2line_info (sl_pc sl) (sl_line sl)) calls s = s' \<and>
    fd_line_number_slots s' = Some (sls @ ts) \<and> slots_ok (fd_line_number_last_pc s) ts \<and> length ts \<le> length calls \<and>
    line_at pc ts (fd_line_number_last s) = line_at pc calls (fd_line_number_last s) \<and>
    fd_strip s' = fd_strip s \<and> fd_line_num s' = fd_line_num s"
  using assms
proof (induction calls arbitrary: s sls)
  case (Cons c calls)
  let ?s = "add_pc2line_info (sl_pc c) (sl_line c) s"
  have ok: "fd_line_number_last_pc s \<le> sl_pc c" "sl_pc c < 0x80000000" "0 \<le> sint (sl_line c)" "slots_ok (sl_pc c) calls"
    using Cons.prems(3) by auto
  have room: "length sls < fd_line_number_size s" using Cons.prems(2) by simp
  show ?case
  proof (cases "sl_line c = fd_line_number_last s")
    case True
    then have "?s = s" using Cons.prems(1) by (simp add: add_pc2line_info_def)
    moreover have "slots_ok (fd_line_number_last_pc s) calls" using slots_ok_mono [OF ok(4,1)] .
    moreover have "line_at pc (c # calls) (fd_line_number_last s) = line_at pc calls (fd_line_number_last s)"
      using True by simp
    ultimately show ?thesis using Cons.IH [OF Cons.prems(1)] Cons.prems(2) by fastforce
  next
    case False
    have f: "fd_line_number_slots ?s = Some (sls @ [c])" "fd_line_number_size ?s = fd_line_number_size s"
      "fd_line_number_last_pc ?s = sl_pc c" "fd_line_number_last ?s = sl_line c" "fd_strip ?s = fd_strip s"
      "fd_line_num ?s = fd_line_num s"
      using False Cons.prems(1) room ok(1) by (simp_all add: add_pc2line_info_def)
    obtain ts s' where t: "fold (\<lambda>sl. add_pc2line_info (sl_pc sl) (sl_line sl)) calls ?s = s'"
      "fd_line_number_slots s' = Some ((sls @ [c]) @ ts)" "slots_ok (sl_pc c) ts" "length ts \<le> length calls"
      "line_at pc ts (sl_line c) = line_at pc calls (sl_line c)" "fd_strip s' = fd_strip s" "fd_line_num s' = fd_line_num s"
      using Cons.IH [OF f(1)] Cons.prems(2) ok(4) unfolding f by fastforce
    have "slots_ok (fd_line_number_last_pc s) (c # ts)" using ok t(3) by simp
    moreover have "line_at pc (c # ts) (fd_line_number_last s) = line_at pc (c # calls) (fd_line_number_last s)"
    proof (cases "sl_pc c \<le> pc")
      case True
      then show ?thesis using t(5) by simp
    next
      case False
      then have "line_at pc (c # ts) l = l" "line_at pc (c # calls) l = l" for l
        using slots_ok_mem [OF t(3)] slots_ok_mem [OF ok(4)] by (auto intro!: line_at_before intro: less_le_trans simp: not_le)
      then show ?thesis by simp
    qed
    ultimately show ?thesis using t by (intro exI [of _ "c # ts"] exI [of _ s']) simp
  qed
qed simp

section \<open>Any buffer\<close>

text \<open>Whatever the buffer holds, the readers stay inside it and advance.\<close>

lemma get_leb128_loop_total:
  assumes "buf_end \<le> length m" and "buf \<le> ptr"
  shows "\<exists>ret v. get_leb128_loop m buf buf_end i ptr x = Some (ret, v) \<and> (ret = -1 \<or> 0 < ret \<and> int buf + ret \<le> int buf_end)"
  using assms
proof (induction m buf buf_end i ptr x rule: get_leb128_loop.induct)
  case (1 m buf buf_end i ptr v)
  show ?case
  proof (cases "i < 5 \<and> ptr < buf_end")
    case False
    then show ?thesis by (subst get_leb128_loop.simps) auto
  next
    case True
    then have b: "rd m ptr = Some (m ! ptr)" using "1.prems" by (simp add: rd_def)
    let ?a = "ucast (m ! ptr) :: u32"
    show ?thesis
    proof (cases "?a AND 0x80 = 0")
      case fin: True
      have "get_leb128_loop m buf buf_end i ptr v = Some (int (ptr + 1 - buf), v OR push_bit (i * 7) (?a AND 0x7f))"
        using True b fin by (subst get_leb128_loop.simps) (simp add: Let_def)
      then show ?thesis using True "1.prems" by auto
    next
      case False
      have "get_leb128_loop m buf buf_end i ptr v =
          get_leb128_loop m buf buf_end (i + 1) (ptr + 1) (v OR push_bit (i * 7) (?a AND 0x7f))"
        using True b False by (subst get_leb128_loop.simps) (simp add: Let_def)
      then show ?thesis using "1.IH" [of "m ! ptr" ?a] True b False "1.prems" by auto
    qed
  qed
qed

lemma get_line_entry_total:
  assumes "p < length m"
  shows "\<exists>r. get_line_entry m (length m) p pc ln = Some r \<and> (\<forall>q pc' ln'. r = Some (q, pc', ln') \<longrightarrow> p < q \<and> q \<le> length m)"
proof (cases "m ! p = 0")
  case False
  then show ?thesis using assms by (simp add: get_line_entry_def rd_def Let_def)
next
  case True
  from get_leb128_loop_total [of "length m" m "p + 1" "p + 1" 0 0] obtain r1 v1 where
    g1: "get_leb128 m (p + 1) (length m) = Some (r1, v1)" "r1 = -1 \<or> 0 < r1 \<and> int (p + 1) + r1 \<le> int (length m)"
    by (auto simp: get_leb128_def)
  show ?thesis
  proof (cases "r1 < 0")
    case neg: True
    then show ?thesis using assms True g1 by (simp add: get_line_entry_def rd_def Let_def)
  next
    case False
    let ?p = "p + 1 + nat r1"
    from get_leb128_loop_total [of "length m" m ?p ?p 0 0] obtain r2 v2 where
      g2: "get_leb128 m ?p (length m) = Some (r2, v2)" "r2 = -1 \<or> 0 < r2 \<and> int ?p + r2 \<le> int (length m)"
      by (auto simp: get_leb128_def)
    show ?thesis using assms True g1 g2 False
      by (cases "r2 < 0") (auto simp: get_line_entry_def get_sleb128_def rd_def Let_def)
  qed
qed

lemma find_line_loop_total: "\<exists>l. find_line_loop m (length m) line0 pcv p pc ln = Some l"
proof (induction "length m - p" arbitrary: p pc ln rule: less_induct)
  case less
  show ?case
  proof (cases "p < length m")
    case False
    then show ?thesis by (subst find_line_loop.simps) simp
  next
    case True
    from get_line_entry_total [OF True, of pc ln] obtain r where
      r: "get_line_entry m (length m) p pc ln = Some r"
        "\<And>q pc' ln'. r = Some (q, pc', ln') \<Longrightarrow> p < q \<and> q \<le> length m" by blast
    show ?thesis
    proof (cases r)
      case None
      then show ?thesis using True r(1) by (subst find_line_loop.simps) simp
    next
      case (Some e)
      obtain q pc' ln' where e: "e = (q, pc', ln')" by (cases e)
      then have "length m - q < length m - p" using r(2) Some True by force
      from less.hyps [OF this] obtain l where "find_line_loop m (length m) line0 pcv q pc' ln' = Some l" by blast
      then show ?thesis using True r(1) Some e by (subst find_line_loop.simps) simp
    qed
  qed
qed

section \<open>Statements\<close>

text \<open>C10: recording, encoding and lookup together: when the code generator reports positions in order (as the
  growing bytecode gives them) and the slots suffice, the table encodes without leaving its buffer; unless memory ran
  out, \<open>find_line_num\<close> returns for every position of the function the line of the last report that does not lie
  behind it, or the line of the function before the first one.\<close>

theorem pc2line_roundtrip:
  assumes "init_line_slots True fd = (s, 0)" and "fd_line_number_size fd \<noteq> 0" "\<not> fd_strip fd"
    and "slots_ok 0 calls" and "length calls \<le> fd_line_number_size fd" and "11 * length calls < SIZE_MOD"
  shows "\<exists>s'. compute_pc2line_info js_realloc (fold (\<lambda>sl. add_pc2line_info (sl_pc sl) (sl_line sl)) calls s) = Some s' \<and>
    (db_error (fd_pc2line s') \<or>
     find_line_num \<lparr>has_debug = True, dbg_line_num = fd_line_num fd, dbg_pc2line_buf = Some (dbuf_bytes (fd_pc2line s'))\<rparr> pc =
       Some (line_at pc calls (fd_line_num fd)))"
proof -
  have s: "s = fd\<lparr>fd_line_number_slots := Some [], fd_line_number_last := fd_line_num fd, fd_line_number_last_pc := 0\<rparr>"
    using assms(1-3) by (simp add: init_line_slots_def)
  from add_pc2line_info_records [of s "[]" calls pc] assms(4,5) obtain ts s1 where
    t: "fold (\<lambda>sl. add_pc2line_info (sl_pc sl) (sl_line sl)) calls s = s1" "fd_line_number_slots s1 = Some ts"
      "slots_ok 0 ts" "length ts \<le> length calls"
      "line_at pc ts (fd_line_num fd) = line_at pc calls (fd_line_num fd)" "\<not> fd_strip s1" "fd_line_num s1 = fd_line_num fd"
    using assms(3) unfolding s by auto
  let ?d = "dbuf_init2 js_realloc (Some js_realloc)"
  have "dbuf_ok ?d" "db_size ?d + 11 * length ts < SIZE_MOD" using t(4) assms(6)
    by (simp, simp add: dbuf_init2_def)
  from pc2line_loop_writes [OF this] obtain d where
    d: "pc2line_loop ts 0 (fd_line_num fd) ?d = Some d" "writes ?d (pc2line_bytes ts 0 (fd_line_num fd)) d" by blast
  have c: "compute_pc2line_info js_realloc s1 = Some (s1\<lparr>fd_pc2line := d\<rparr>)"
    using t(2,6,7) d(1) by (simp add: compute_pc2line_info_def)
  have "find_line_loop (dbuf_bytes d) (length (dbuf_bytes d)) l pc 0 0 (fd_line_num fd) = Some (line_at pc ts (fd_line_num fd))"
    if "\<not> db_error d" for l
    by (rule find_line_loop_reads [OF t(3)]) (use d(2) that in \<open>simp_all add: writes_def\<close>)
  then show ?thesis using c t(1,5) by (auto simp: find_line_num_def)
qed

definition sample_fd :: line_def where
  "sample_fd = \<lparr>fd_strip = False, fd_line_num = 3, fd_line_number_slots = None, fd_line_number_size = 4,
     fd_line_number_last = 0, fd_line_number_last_pc = 0, fd_pc2line = dbuf_init (\<lambda>k n. None)\<rparr>"

definition sample_lines :: "line_slot list" where
  "sample_lines = [\<lparr>sl_pc = 2, sl_line = 4\<rparr>, \<lparr>sl_pc = 7, sl_line = 900\<rparr>, \<lparr>sl_pc = 7, sl_line = 2\<rparr>]"

theorem pc2line_roundtrip_witness:
  "\<exists>s'. compute_pc2line_info (\<lambda>k n. Some (\<lambda>_. 0)) (fold (\<lambda>sl. add_pc2line_info (sl_pc sl) (sl_line sl)) sample_lines
      (fst (init_line_slots True sample_fd))) = Some s' \<and>
    (db_error (fd_pc2line s') \<or>
     find_line_num \<lparr>has_debug = True, dbg_line_num = 3, dbg_pc2line_buf = Some (dbuf_bytes (fd_pc2line s'))\<rparr> 5 = Some 4)"
proof -
  obtain s where s: "init_line_slots True sample_fd = (s, 0)" by (simp add: init_line_slots_def sample_fd_def)
  have h: "fd_line_number_size sample_fd \<noteq> 0" "\<not> fd_strip sample_fd" "slots_ok 0 sample_lines"
    "length sample_lines \<le> fd_line_number_size sample_fd" "11 * length sample_lines < SIZE_MOD"
    by (simp_all add: sample_fd_def sample_lines_def SIZE_MOD_def)
  have "line_at 5 sample_lines (fd_line_num sample_fd) = 4" "fd_line_num sample_fd = 3"
    by (simp_all add: sample_lines_def sample_fd_def)
  then show ?thesis using pc2line_roundtrip [OF s h, of "\<lambda>k n. Some (\<lambda>_. 0)" 5] s by simp
qed

text \<open>C40: the lookup is safe on any table, also on one that was cut or damaged: for every buffer it ends and never
  reads outside it.\<close>

theorem find_line_num_total: "\<exists>l. find_line_num b pc = Some l"
proof (cases "has_debug b")
  case True
  then show ?thesis using find_line_loop_total by (cases "dbg_pc2line_buf b") (simp_all add: find_line_num_def)
qed (simp add: find_line_num_def)

end
